(* ===== verification/Prelude.thy ===== *)
theory Prelude
  imports Main "HOL-Library.Word"
begin

text \<open>
  Shared vocabulary of the development: the machine integer types of the C sources, the
  big-endian byte codecs (the XD-B8600 runs big-endian and every wire format of the
  repository is in network byte order), the theorem collections the component theories
  feed, and generic facts on lists and words.
\<close>

unbundle bit_operations_syntax

type_synonym u8 = "8 word"
type_synonym u16 = "16 word"
type_synonym u32 = "32 word"
type_synonym u64 = "64 word"
type_synonym bytes = "u8 list"

named_theorems codec_simps \<open>round trips of the byte codecs\<close>
named_theorems frame_simps \<open>fields an operation leaves alone\<close>
named_theorems inv_intros \<open>operations preserve their component's invariant\<close>

section \<open>Big-endian codecs\<close>

definition be16 :: "u16 \<Rightarrow> bytes" where
  "be16 w = [ucast (drop_bit 8 w), ucast w]"

definition be32 :: "u32 \<Rightarrow> bytes" where
  "be32 w = [ucast (drop_bit 24 w), ucast (drop_bit 16 w), ucast (drop_bit 8 w), ucast w]"

definition of_be16 :: "bytes \<Rightarrow> u16" where
  "of_be16 b = (push_bit 8 (ucast (b ! 0))) OR ucast (b ! 1)"

definition of_be32 :: "bytes \<Rightarrow> u32" where
  "of_be32 b = push_bit 24 (ucast (b ! 0)) OR push_bit 16 (ucast (b ! 1)) OR
               push_bit 8 (ucast (b ! 2)) OR ucast (b ! 3)"

lemma length_be16 [simp]: "length (be16 w) = 2"
  by (simp add: be16_def)

lemma length_be32 [simp]: "length (be32 w) = 4"
  by (simp add: be32_def)

lemma of_be16_be16 [simp, codec_simps]: "of_be16 (be16 w @ r) = w"
  by (rule bit_word_eqI)
     (auto simp: of_be16_def be16_def bit_simps nth_append)

lemma of_be32_be32 [simp, codec_simps]: "of_be32 (be32 w @ r) = w"
proof (rule bit_word_eqI)
  fix n assume n: "n < LENGTH(32)"
  consider "n < 8" | "8 \<le> n" "n < 16" | "16 \<le> n" "n < 24" | "24 \<le> n" by linarith
  then show "bit (of_be32 (be32 w @ r)) n = bit w n"
    using n by cases (auto simp: of_be32_def be32_def bit_simps nth_append less_diff_conv2)
qed

lemmas of_be16_be16_Nil [simp, codec_simps] = of_be16_be16 [where r = "[]", simplified]
lemmas of_be32_be32_Nil [simp, codec_simps] = of_be32_be32 [where r = "[]", simplified]

lemma be32_xor: "be32 (x XOR y) = map2 (XOR) (be32 x) (be32 y)"
  unfolding be32_def by (auto intro!: bit_word_eqI simp: bit_simps)

lemma be32_of_be32: "be32 (of_be32 b) = [b ! 0, b ! 1, b ! 2, b ! 3]"
proof -
  have "\<not> bit (x :: u8) (8 + n)" "\<not> bit x (16 + n)" "\<not> bit x (24 + n)" for x n
    using bit_imp_le_length [of x] by fastforce+
  then show ?thesis
    unfolding be32_def of_be32_def by (auto intro!: bit_word_eqI simp: bit_simps)
qed

section \<open>Lists\<close>

text \<open>A C \<^verbatim>\<open>memcpy\<close>/\<^verbatim>\<open>memmove\<close> of \<open>src\<close> to offset \<open>i\<close> of the object \<open>xs\<close>, for a
  destination range inside the object.\<close>

definition write_at :: "'a list \<Rightarrow> nat \<Rightarrow> 'a list \<Rightarrow> 'a list" where
  "write_at xs i src = take i xs @ src @ drop (i + length src) xs"

lemma length_write_at [simp]:
  "i + length src \<le> length xs \<Longrightarrow> length (write_at xs i src) = length xs"
  by (simp add: write_at_def)

lemma read_write_at [simp]:
  "i \<le> length xs \<Longrightarrow> take (length src) (drop i (write_at xs i src)) = src"
  by (simp add: write_at_def)

lemma take_write_at: "k \<le> i \<Longrightarrow> i \<le> length xs \<Longrightarrow> take k (write_at xs i src) = take k xs"
  by (simp add: write_at_def min_def)

lemma drop_write_at:
  "i \<le> length xs \<Longrightarrow> i + length src \<le> k \<Longrightarrow> drop k (write_at xs i src) = drop k xs"
  by (simp add: write_at_def)

lemma nth_drop_take: "i + n \<le> length xs \<Longrightarrow> j < n \<Longrightarrow> take n (drop i xs) ! j = xs ! (i + j)"
  by simp

lemma upt_offset: "[i..<i + n] = map ((+) i) [0..<n]"
  by (induction n) auto

section \<open>Words\<close>

lemma word_le_diff_nowrap:
  fixes a b c :: "'a::len word"
  assumes "a < c" and "b \<le> c - a"
  shows "unat (a + b) = unat a + unat b" and "unat a + unat b \<le> unat c"
proof -
  have "unat (c - a) = unat c - unat a"
    using assms(1) by (simp add: unat_sub order_less_imp_le)
  then show le: "unat a + unat b \<le> unat c"
    using assms by (simp add: word_le_nat_alt word_less_nat_alt)
  have "unat a + unat b < 2 ^ LENGTH('a)"
    using le unsigned_less by (rule le_less_trans)
  then show "unat (a + b) = unat a + unat b"
    by (simp add: unat_word_ariths)
qed

lemma unat_of_nat_eq: "n < 2 ^ LENGTH('a) \<Longrightarrow> unat (of_nat n :: 'a::len word) = n"
  by (simp add: unat_of_nat)

lemma unat_u16_lt: "unat (w :: u16) < 65536"
  by (rule order_less_le_trans [OF unsigned_less]) simp

lemma unat_ucast_up:
  fixes x :: "'a::len word"
  assumes "LENGTH('a) \<le> LENGTH('b)"
  shows "unat (ucast x :: 'b::len word) = unat x"
proof -
  have "unat x < 2 ^ LENGTH('b)"
    using unsigned_less [of x] assms by (meson less_le_trans one_le_numeral power_increasing)
  then show ?thesis by (simp add: unsigned_ucast_eq take_bit_nat_eq_self)
qed

lemma unat_drop_bit: "unat (drop_bit n w) = unat w div 2 ^ n"
  unfolding unat_drop_bit_eq by (rule drop_bit_eq_div)

lemma and_two_bits:
  fixes w :: "'a::len word"
  shows "w AND (push_bit i 1 OR push_bit j 1) =
    (if bit w i then push_bit i 1 else 0) OR (if bit w j then push_bit j 1 else 0)"
proof (rule bit_word_eqI)
  fix n assume "n < LENGTH('a)"
  then have b: "bit (push_bit k 1 :: 'a word) n \<longleftrightarrow> n = k" for k by (auto simp: bit_simps)
  show "bit (w AND (push_bit i 1 OR push_bit j 1)) n =
      bit ((if bit w i then push_bit i 1 else 0) OR (if bit w j then push_bit j 1 else 0) :: 'a word) n"
    by (cases "bit w i"; cases "bit w j") (auto simp only: bit_and_iff bit_or_iff b bit_0_eq bot_apply bot_bool_def if_True if_False)
qed

lemma unat_less_exp_iff: "unat v < 2 ^ n \<longleftrightarrow> drop_bit n v = 0"
proof -
  have "unat v < 2 ^ n \<longleftrightarrow> unat v div 2 ^ n = 0" by (simp add: div_eq_0_iff)
  also have "\<dots> \<longleftrightarrow> unat (drop_bit n v) = 0" by (simp only: unat_drop_bit)
  finally show ?thesis by (simp only: unat_eq_0)
qed

lemma bit_imp_exp_le: "bit v n \<Longrightarrow> 2 ^ n \<le> unat v"
proof -
  assume "bit v n"
  then have "bit (unat v) n" by (simp add: bit_unsigned_iff bit_imp_le_length)
  then have "odd (unat v div 2 ^ n)" by (simp add: bit_iff_odd)
  then have "unat v div 2 ^ n \<noteq> 0" by (metis even_zero)
  then show ?thesis by (simp add: div_eq_0_iff)
qed

lemma or_less_exp: "unat x < 2 ^ n \<Longrightarrow> unat y < 2 ^ n \<Longrightarrow> unat (x OR y) < 2 ^ n"
  unfolding unat_less_exp_iff drop_bit_or by simp

lemma and_mask_less_exp: "unat (x AND mask n) < 2 ^ n"
  unfolding unat_less_exp_iff
  by (rule bit_word_eqI) (simp add: bit_drop_bit_eq bit_and_iff bit_mask_iff)

lemma or_exp_ge: "n < LENGTH('a) \<Longrightarrow> 2 ^ n \<le> unat (x OR 2 ^ n :: 'a::len word)"
  by (rule bit_imp_exp_le) (simp add: bit_or_iff bit_exp_iff)

lemma and_field:
  fixes v :: "'a::len word"
  shows "drop_bit i v AND push_bit j (mask k) = push_bit j (drop_bit (i + j) v AND mask k)"
  by (rule bit_word_eqI) (auto simp: bit_and_iff bit_push_bit_iff bit_drop_bit_eq bit_mask_iff)

lemma and_field_top:
  fixes v :: "'a::len word"
  assumes "i + j + k = LENGTH('a)"
  shows "drop_bit i v AND push_bit j (mask k) = 0 \<longleftrightarrow> unat v < 2 ^ (i + j)"
proof -
  have "drop_bit (i + j) v AND mask k = drop_bit (i + j) v"
    using assms by (intro bit_word_eqI) (auto simp: bit_and_iff bit_drop_bit_eq bit_mask_iff dest: bit_imp_le_length)
  moreover have "push_bit j (drop_bit (i + j) v) = 0 \<longleftrightarrow> drop_bit (i + j) v = 0"
  proof
    assume z: "push_bit j (drop_bit (i + j) v) = 0"
    show "drop_bit (i + j) v = 0"
    proof (rule bit_word_eqI)
      fix n assume "n < LENGTH('a)"
      have "\<not> bit (push_bit j (drop_bit (i + j) v)) (j + n)" by (simp add: z)
      then show "bit (drop_bit (i + j) v) n = bit (0 :: 'a word) n"
        by (auto simp: bit_push_bit_iff bit_drop_bit_eq dest: bit_imp_le_length)
    qed
  qed simp
  ultimately show ?thesis by (simp add: and_field unat_less_exp_iff)
qed

lemma top_bit_iff:
  fixes v :: "'a::len word"
  assumes "unat v < 2 ^ Suc n"
  shows "bit v n \<longleftrightarrow> 2 ^ n \<le> unat v"
proof
  assume "2 ^ n \<le> unat v"
  show "bit v n"
  proof (rule ccontr)
    assume nb: "\<not> bit v n"
    have hi: "drop_bit (Suc n) v = 0" using assms by (simp only: unat_less_exp_iff)
    have "drop_bit n v = 0"
    proof (rule bit_word_eqI)
      fix m
      have "\<not> bit (drop_bit (Suc n) v) (m - 1)" by (simp add: hi)
      then show "bit (drop_bit n v) m = bit (0 :: 'a word) m"
        using nb by (cases m) (auto simp: bit_drop_bit_eq)
    qed
    then have "unat v < 2 ^ n" by (simp only: unat_less_exp_iff)
    with \<open>2 ^ n \<le> unat v\<close> show False by simp
  qed
qed (rule bit_imp_exp_le)

lemma unat_push_bit_lt: "unat v * 2 ^ n < 2 ^ LENGTH('a) \<Longrightarrow> unat (push_bit n (v :: 'a::len word)) = unat v * 2 ^ n"
  unfolding unsigned_push_bit_eq unfolding push_bit_eq_mult by (rule take_bit_nat_eq_self)

lemma and_mask_id: "unat x < 2 ^ n \<Longrightarrow> x AND mask n = x"
proof (rule bit_word_eqI)
  fix m
  assume "unat x < 2 ^ n"
  then have z: "drop_bit n x = 0" by (simp only: unat_less_exp_iff)
  have "bit x m \<Longrightarrow> m < n"
  proof (rule ccontr)
    assume "bit x m" "\<not> m < n"
    then have "bit (drop_bit n x) (m - n)" by (simp add: bit_drop_bit_eq)
    then show False by (simp add: z)
  qed
  then show "bit (x AND mask n) m = bit x m" by (auto simp: bit_and_iff bit_mask_iff dest: bit_imp_le_length)
qed

lemma unat_mult_lt: "unat a * unat b < 2 ^ LENGTH('a) \<Longrightarrow> unat (a * b :: 'a::len word) = unat a * unat b"
  by (simp add: unat_word_ariths)

lemma unat_plus_lt: "unat a + unat b < 2 ^ LENGTH('a) \<Longrightarrow> unat (a + b :: 'a::len word) = unat a + unat b"
  by (simp add: unat_word_ariths)

lemma sint_u16:
  assumes "unat (e :: u16) < 2 ^ 15"
  shows "sint e = int (unat e)"
proof -
  have "uint e < 2 ^ 15" using assms by (metis of_nat_less_iff of_nat_numeral of_nat_power uint_nat)
  moreover have "- (2 ^ 15) \<le> uint e" by (rule order_trans [of _ 0]) simp_all
  ultimately have "signed_take_bit 15 (uint e) = uint e" by (intro signed_take_bit_int_eq_self)
  then show ?thesis by (simp add: sint_uint)
qed

lemma word_cases: "unat (e :: 'a::len word) = n \<Longrightarrow> e = of_nat n"
  by auto

section \<open>Outcomes\<close>

text \<open>How a run of C code can end other than by returning: \<open>Abort\<close> is a failed assertion, a
  \<^verbatim>\<open>NULL\<close> dereference or an access outside an allocated block; \<open>Out_of_fuel\<close> marks a loop whose
  number of rounds the code does not bound and that has not ended within the given number.\<close>

datatype stop = Abort | Out_of_fuel

type_synonym 'a res = "stop + 'a"

fun rbind :: "'a res \<Rightarrow> ('a \<Rightarrow> 'b res) \<Rightarrow> 'b res" where
  "rbind (Inl e) f = Inl e"
| "rbind (Inr x) f = f x"

lemma rbind_Inr_iff: "rbind m f = Inr y \<longleftrightarrow> (\<exists>x. m = Inr x \<and> f x = Inr y)"
  by (cases m) auto

lemma rbind_assoc: "rbind (rbind m f) g = rbind m (\<lambda>x. rbind (f x) g)"
  by (cases m) auto

lemma rbind_total:
  "\<exists>x. m = Inr x \<Longrightarrow> (\<And>x. m = Inr x \<Longrightarrow> \<exists>y. f x = Inr y) \<Longrightarrow> \<exists>y. rbind m f = Inr y"
  by auto

text \<open>A \<^verbatim>\<open>NULL\<close> where the code needs an object ends the run.\<close>

fun need :: "'a option \<Rightarrow> 'a res" where
  "need None = Inl Abort"
| "need (Some x) = Inr x"

lemma need_Inr_iff [simp]: "need m = Inr x \<longleftrightarrow> m = Some x"
  by (cases m) auto

end
