(* ===== verification/Payload_Loader.thy ===== *)
theory Payload_Loader
  imports Prelude
begin

text \<open>
  The LNX03 add-in (\<^verbatim>\<open>src/loader/src/main.c\<close>): it finds an EXWPAY1 file, validates its
  header, streams the payload into the uncached P2 window while computing a CRC-32, and
  transfers control only after the user armed a verified payload. The Casio system calls,
  the keypad and the payload itself are not part of the repository: they are the fields of
  \<open>sys\<close>, the key samples and the \<open>run\<close> argument below.
\<close>

section \<open>Data\<close>

definition SCREEN_WIDTH :: nat where "SCREEN_WIDTH = 528"
definition SCREEN_HEIGHT :: nat where "SCREEN_HEIGHT = 320"
definition PAYLOAD_HEADER_SIZE :: u32 where "PAYLOAD_HEADER_SIZE = 32"
definition PAYLOAD_P2_START :: u32 where "PAYLOAD_P2_START = 0xac800000"
definition PAYLOAD_P2_END :: u32 where "PAYLOAD_P2_END = 0xad000000"
definition PAYLOAD_FLAG_EXECUTABLE :: u32 where "PAYLOAD_FLAG_EXECUTABLE = 1"
definition PAYLOAD_FLAG_RETURNS :: u32 where "PAYLOAD_FLAG_RETURNS = 2"
definition PAYLOAD_COOKIE :: u32 where "PAYLOAD_COOKIE = 0x45585731"

lemmas loader_consts = SCREEN_WIDTH_def SCREEN_HEIGHT_def PAYLOAD_HEADER_SIZE_def
  PAYLOAD_P2_START_def PAYLOAD_P2_END_def PAYLOAD_FLAG_EXECUTABLE_def
  PAYLOAD_FLAG_RETURNS_def PAYLOAD_COOKIE_def

record payload_header =
  magic :: bytes
  header_size :: u32
  load_address :: u32
  entry_address :: u32
  payload_size :: u32
  payload_crc32 :: u32
  flags :: u32

datatype load_status =
    LOAD_OK | LOAD_NOT_FOUND | LOAD_BAD_HEADER | LOAD_BAD_RANGE | LOAD_BAD_SIZE
  | LOAD_READ_ERROR | LOAD_BAD_CRC

text \<open>The struct's 32 bytes in memory (the SH-4A is big-endian, the struct has no padding).\<close>

definition header_bytes :: "payload_header \<Rightarrow> bytes" where
  "header_bytes h = magic h @ be32 (header_size h) @ be32 (load_address h) @
     be32 (entry_address h) @ be32 (payload_size h) @ be32 (payload_crc32 h) @ be32 (flags h)"

definition header_of_bytes :: "bytes \<Rightarrow> payload_header" where
  "header_of_bytes b =
     \<lparr>magic = take 8 b, header_size = of_be32 (drop 8 b), load_address = of_be32 (drop 12 b),
      entry_address = of_be32 (drop 16 b), payload_size = of_be32 (drop 20 b),
      payload_crc32 = of_be32 (drop 24 b), flags = of_be32 (drop 28 b)\<rparr>"

type_synonym mem = "u32 \<Rightarrow> u8"

record loader =
  header :: payload_header
  measured_crc :: u32
  source_is_card :: bool
  memory :: mem

text \<open>The Casio system calls: each takes and returns the file system's state. \<open>sys_read d n\<close>
  returns the count and the bytes stored at the destination.\<close>

record 'f sys =
  sys_open :: "string \<Rightarrow> 'f \<Rightarrow> int \<times> 'f"
  sys_get_filesize :: "int \<Rightarrow> 'f \<Rightarrow> int \<times> 'f"
  sys_read :: "int \<Rightarrow> nat \<Rightarrow> 'f \<Rightarrow> int \<times> bytes \<times> 'f"
  sys_close :: "int \<Rightarrow> 'f \<Rightarrow> 'f"

section \<open>Helpers\<close>

fun bytes_equal :: "bytes \<Rightarrow> bytes \<Rightarrow> nat \<Rightarrow> bool" where
  "bytes_equal l r 0 = True"
| "bytes_equal (a # l) (b # r) (Suc n) = (if a \<noteq> b then False else bytes_equal l r n)"
| "bytes_equal _ _ (Suc n) = False"

definition hex_digits :: string where "hex_digits = ''0123456789ABCDEF''"

text \<open>The characters up to the terminating NUL.\<close>

definition hex32 :: "u32 \<Rightarrow> string" where
  "hex32 v = ''0x'' @ map (\<lambda>i. hex_digits ! unat (drop_bit (28 - i * 4) v AND 15)) [0..<8]"

function decimal_loop :: "nat \<Rightarrow> string \<Rightarrow> string" where
  "decimal_loop v rev_digits =
     (if v \<noteq> 0 \<and> length rev_digits < 10
      then decimal_loop (v div 10) (rev_digits @ [char_of (48 + v mod 10)])
      else rev_digits)"
  by pat_completeness auto
termination
  by (relation "measure (\<lambda>(v, r). v)") auto

declare decimal_loop.simps [simp del]

definition decimal :: "u32 \<Rightarrow> string" where
  "decimal v = (if v = 0 then ''0'' else rev (decimal_loop (unat v) []))"

definition crc32_bit :: "u32 \<Rightarrow> u32" where
  "crc32_bit crc = drop_bit 1 crc XOR (0xedb88320 AND - (crc AND 1))"

definition crc32_byte :: "u32 \<Rightarrow> u8 \<Rightarrow> u32" where
  "crc32_byte crc d = (crc32_bit ^^ 8) (crc XOR ucast d)"

definition crc32_update :: "u32 \<Rightarrow> bytes \<Rightarrow> u32" where
  "crc32_update crc data = foldl crc32_byte crc data"

fun status_text :: "load_status \<Rightarrow> string" where
  "status_text LOAD_OK = ''Payload verified and ready''"
| "status_text LOAD_NOT_FOUND = ''linux.pay not found on internal storage or card''"
| "status_text LOAD_BAD_HEADER = ''Payload header is invalid''"
| "status_text LOAD_BAD_RANGE = ''Payload requests memory outside the safe P2 pool''"
| "status_text LOAD_BAD_SIZE = ''Payload size does not match the file''"
| "status_text LOAD_READ_ERROR = ''Storage read failed before payload completed''"
| "status_text LOAD_BAD_CRC = ''CRC mismatch: payload will not be launched''"

section \<open>Screens\<close>

text \<open>The drawing calls a screen makes, in order.\<close>

datatype draw =
    Set_pen nat nat nat
  | Draw_rect nat nat nat nat
  | Render_text nat nat string
  | Lcdc_copy_vram

definition label_value :: "nat \<Rightarrow> string \<Rightarrow> string \<Rightarrow> draw list" where
  "label_value y label val =
     [Set_pen 137 164 196, Render_text 18 y label, Set_pen 226 232 240, Render_text 190 y val]"

definition render_startup_screen :: "draw list" where
  "render_startup_screen =
     [Set_pen 6 12 22, Draw_rect 0 0 SCREEN_WIDTH SCREEN_HEIGHT,
      Set_pen 22 46 74, Draw_rect 0 0 SCREEN_WIDTH 34,
      Set_pen 116 214 255, Render_text 12 10 ''EX-WORD LINUX LOADER - STARTUP CHECK'',
      Set_pen 86 235 176, Render_text 18 68 ''Loader code started successfully'',
      Set_pen 226 232 240,
      Render_text 18 104 ''No payload file or staging RAM has been touched'',
      Render_text 18 136 ''Release ENTER, then press ENTER to inspect linux.pay'',
      Set_pen 22 46 74, Draw_rect 0 286 SCREEN_WIDTH 34,
      Set_pen 226 232 240,
      Render_text 12 298 ''BACK: return to Casio   No firmware is written'',
      Lcdc_copy_vram]"

definition render_screen :: "loader \<Rightarrow> load_status \<Rightarrow> bool \<Rightarrow> string option \<Rightarrow> draw list" where
  "render_screen s status armed last_result =
     [Set_pen 6 12 22, Draw_rect 0 0 SCREEN_WIDTH SCREEN_HEIGHT,
      Set_pen 22 46 74, Draw_rect 0 0 SCREEN_WIDTH 34,
      Set_pen 116 214 255, Render_text 12 10 ''EX-WORD LINUX LOADER - REVERSIBLE TEST'',
      (if status = LOAD_OK then Set_pen 86 235 176 else Set_pen 255 150 120),
      Render_text 18 54 (status_text status)] @
     (if status = LOAD_OK then
        label_value 88 ''Source'' (if source_is_card s then ''microSD'' else ''internal storage'') @
        label_value 108 ''Load address'' (hex32 (load_address (header s))) @
        label_value 128 ''Entry address'' (hex32 (entry_address (header s))) @
        label_value 148 ''Payload bytes'' (decimal (payload_size (header s))) @
        label_value 168 ''Measured CRC32'' (hex32 (measured_crc s)) @
        label_value 188 ''Flags'' (hex32 (flags (header s))) @
        (case last_result of
           Some r \<Rightarrow> [Set_pen 86 235 176, Render_text 18 220 r]
         | None \<Rightarrow>
             if armed
             then [Set_pen 255 193 92,
                   Render_text 18 220 ''ARMED: press ENTER again to transfer control'']
             else [Set_pen 226 232 240, Render_text 18 220 ''Press ENTER to arm the payload''])
      else []) @
     [Set_pen 22 46 74, Draw_rect 0 286 SCREEN_WIDTH 34,
      Set_pen 226 232 240,
      Render_text 12 298 ''BACK: return to Casio   No firmware is written'',
      Lcdc_copy_vram]"

section \<open>Loading\<close>

definition drive_path :: "string \<Rightarrow> string list \<Rightarrow> string" where
  "drive_path drive parts = [CHR 0x5C, CHR 0x5C] @ drive @ concat (map (\<lambda>p. CHR 0x5C # p) parts)"

text \<open>The four names tried on one drive, in order: the first that opens wins, otherwise the
  last failure is returned.\<close>

definition payload_names :: "string \<Rightarrow> string list" where
  "payload_names drive =
     [drive_path drive [''CASIOTXT'', ''linux.pay''], drive_path drive [''CASIOTXT'', ''LINUX.PAY''],
      drive_path drive [''linux.pay''], drive_path drive [''LINUX.PAY'']]"

fun open_first :: "'f sys \<Rightarrow> string list \<Rightarrow> int \<Rightarrow> 'f \<Rightarrow> int \<times> 'f" where
  "open_first sys [] d f = (d, f)"
| "open_first sys (p # ps) d f =
     (if d < 0 then (case sys_open sys p f of (d', f') \<Rightarrow> open_first sys ps d' f') else (d, f))"

definition open_payload :: "'f sys \<Rightarrow> loader \<Rightarrow> 'f \<Rightarrow> int \<times> loader \<times> 'f" where
  "open_payload sys s f =
     (case open_first sys (payload_names ''drv0'') (-1) f of (d, f1) \<Rightarrow>
        let s1 = s\<lparr>source_is_card := False\<rparr> in
        if d \<ge> 0 then (d, s1, f1)
        else case open_first sys (payload_names ''crd0'') (-1) f1 of (d', f2) \<Rightarrow>
               (d', s1\<lparr>source_is_card := True\<rparr>, f2))"

definition expected_magic :: bytes where
  "expected_magic = [0x45, 0x58, 0x57, 0x50, 0x41, 0x59, 0x31, 0]"

definition header_magic_ok :: "payload_header \<Rightarrow> bool" where
  "header_magic_ok h \<longleftrightarrow> bytes_equal (magic h) expected_magic 8 \<and>
     header_size h = PAYLOAD_HEADER_SIZE \<and> flags h AND PAYLOAD_FLAG_EXECUTABLE \<noteq> 0"

definition header_range_bad :: "payload_header \<Rightarrow> bool" where
  "header_range_bad h \<longleftrightarrow>
     load_address h < PAYLOAD_P2_START \<or>
     load_address h \<ge> PAYLOAD_P2_END \<or>
     payload_size h = 0 \<or>
     payload_size h > PAYLOAD_P2_END - load_address h \<or>
     entry_address h < load_address h \<or>
     entry_address h \<ge> load_address h + payload_size h"

definition write_mem :: "mem \<Rightarrow> u32 \<Rightarrow> bytes \<Rightarrow> mem" where
  "write_mem m a bs = (\<lambda>x. if unat (x - a) < length bs then bs ! unat (x - a) else m x)"

definition read_mem :: "mem \<Rightarrow> u32 \<Rightarrow> nat \<Rightarrow> bytes" where
  "read_mem m a n = map (\<lambda>i. m (a + of_nat i)) [0..<n]"

text \<open>The read loop. \<open>None\<close>: out of fuel. \<open>Some (None, \<dots>)\<close>: \<^verbatim>\<open>sys_read\<close> failed.
  \<open>Some (Some crc, \<dots>)\<close>: all bytes read.\<close>

fun load_loop ::
  "nat \<Rightarrow> 'f sys \<Rightarrow> int \<Rightarrow> u32 \<Rightarrow> u32 \<Rightarrow> loader \<Rightarrow> 'f \<Rightarrow> (u32 option \<times> loader \<times> 'f) option" where
  "load_loop 0 sys d dn crc s f = None"
| "load_loop (Suc fuel) sys d dn crc s f =
     (if dn < payload_size (header s) then
        let remaining = payload_size (header s) - dn;
            request = (if remaining > 65536 then 65536 else remaining);
            destination = load_address (header s) + dn
        in case sys_read sys d (unat request) f of (count, bs, f1) \<Rightarrow>
             let s1 = s\<lparr>memory := write_mem (memory s) destination bs\<rparr> in
             if count \<le> 0 then Some (None, s1, f1)
             else load_loop fuel sys d (dn + word_of_int count)
                    (crc32_update crc (read_mem (memory s1) destination (nat count))) s1 f1
      else Some (Some crc, s, f))"

text \<open>The loop and the verdict on its checksum.\<close>

definition load_image :: "'f sys \<Rightarrow> int \<Rightarrow> loader \<Rightarrow> 'f \<Rightarrow> (load_status \<times> loader \<times> 'f) option" where
  "load_image sys d s f =
     (case load_loop (Suc (unat (payload_size (header s)))) sys d 0 0xffffffff s f of
        None \<Rightarrow> None
      | Some (None, s, f) \<Rightarrow> Some (LOAD_READ_ERROR, s, sys_close sys d f)
      | Some (Some crc, s, f) \<Rightarrow>
          let s = s\<lparr>measured_crc := crc XOR 0xffffffff\<rparr> in
          Some (if measured_crc s \<noteq> payload_crc32 (header s) then LOAD_BAD_CRC else LOAD_OK,
                s, sys_close sys d f))"

text \<open>The checks between the header read and the loop.\<close>

definition load_checked ::
  "'f sys \<Rightarrow> int \<Rightarrow> int \<Rightarrow> int \<Rightarrow> loader \<Rightarrow> 'f \<Rightarrow> (load_status \<times> loader \<times> 'f) option" where
  "load_checked sys d file_size count s f =
     (if count \<noteq> 32 then Some (LOAD_BAD_HEADER, s, sys_close sys d f) else
      if \<not> header_magic_ok (header s) then Some (LOAD_BAD_HEADER, s, sys_close sys d f) else
      if header_range_bad (header s) then Some (LOAD_BAD_RANGE, s, sys_close sys d f) else
      if file_size \<noteq> sint (PAYLOAD_HEADER_SIZE + payload_size (header s))
      then Some (LOAD_BAD_SIZE, s, sys_close sys d f)
      else load_image sys d s f)"

definition load_payload :: "'f sys \<Rightarrow> loader \<Rightarrow> 'f \<Rightarrow> (load_status \<times> loader \<times> 'f) option" where
  "load_payload sys s0 f0 =
     (case open_payload sys s0 f0 of (d, s, f) \<Rightarrow>
      if d < 0 then Some (LOAD_NOT_FOUND, s, f) else
      case sys_get_filesize sys d f of (file_size, f) \<Rightarrow>
      case sys_read sys d 32 f of (count, bs, f) \<Rightarrow>
        load_checked sys d file_size count
          (s\<lparr>header := header_of_bytes (write_at (header_bytes (header s)) 0 bs)\<rparr>) f)"

section \<open>The add-in's main loop\<close>

text \<open>One keypad sample: what \<^verbatim>\<open>get_key_state\<close> and \<^verbatim>\<open>get_key_pressed\<close> answer after a
  \<^verbatim>\<open>keypad_read\<close>.\<close>

record keys =
  state_power :: bool
  state_back :: bool
  state_enter :: bool
  pressed_power :: bool
  pressed_back :: bool
  pressed_enter :: bool

datatype phase =
    Startup bool                  \<comment> \<open>first loop, with \<^verbatim>\<open>controls_released\<close>\<close>
  | Menu load_status bool         \<comment> \<open>second loop, with \<^verbatim>\<open>status\<close> and \<^verbatim>\<open>armed\<close>\<close>
  | Finished int                  \<comment> \<open>\<^verbatim>\<open>main\<close> returned\<close>
  | Transferred                   \<comment> \<open>the payload was entered and did not come back\<close>
  | Stuck                         \<comment> \<open>\<^verbatim>\<open>load_payload\<close> did not return\<close>

datatype action =
    Drawn "draw list"
  | Loaded load_status
  | Armed
  | Executed u32 u32              \<comment> \<open>entry address and cookie\<close>

record 'f addin =
  phase :: phase
  ldr :: loader
  fs :: 'f
  actions :: "action list"

text \<open>The payload runs with the loader's privileges: it may change the loader's own data.
  \<open>None\<close>: it does not return.\<close>

type_synonym payload_code = "u32 \<Rightarrow> u32 \<Rightarrow> loader \<Rightarrow> (u32 \<times> loader) option"

definition execute_payload :: "payload_code \<Rightarrow> loader \<Rightarrow> (u32 \<times> loader) option" where
  "execute_payload run s = run (entry_address (header s)) PAYLOAD_COOKIE s"

definition main_start :: "loader \<Rightarrow> 'f \<Rightarrow> 'f addin" where
  "main_start s f =
     \<lparr>phase = Startup False, ldr = s, fs = f, actions = [Drawn render_startup_screen]\<rparr>"

definition startup_step :: "'f sys \<Rightarrow> bool \<Rightarrow> keys \<Rightarrow> 'f addin \<Rightarrow> 'f addin" where
  "startup_step sys released k a =
     (let released = (released \<or> (\<not> state_power k \<and> \<not> state_back k \<and> \<not> state_enter k)) in
      if released \<and> pressed_enter k then
        (case load_payload sys (ldr a) (fs a) of
           None \<Rightarrow> a\<lparr>phase := Stuck\<rparr>
         | Some (status, s, f) \<Rightarrow>
             a\<lparr>phase := Menu status False, ldr := s, fs := f,
               actions := actions a @ [Loaded status, Drawn (render_screen s status False None)]\<rparr>)
      else if released \<and> (pressed_power k \<or> pressed_back k) then a\<lparr>phase := Finished (-2)\<rparr>
      else a\<lparr>phase := Startup released\<rparr>)"

definition menu_step :: "payload_code \<Rightarrow> load_status \<Rightarrow> bool \<Rightarrow> keys \<Rightarrow> 'f addin \<Rightarrow> 'f addin" where
  "menu_step run status armed k a =
     (if state_power k \<or> state_back k then a\<lparr>phase := Finished (-2)\<rparr>
      else if status = LOAD_OK \<and> pressed_enter k then
        (if \<not> armed then
           a\<lparr>phase := Menu status True,
             actions := actions a @ [Armed, Drawn (render_screen (ldr a) status True None)]\<rparr>
         else
           (let a1 = a\<lparr>actions := actions a @
                         [Executed (entry_address (header (ldr a))) PAYLOAD_COOKIE]\<rparr> in
            case execute_payload run (ldr a1) of
              None \<Rightarrow> a1\<lparr>phase := Transferred\<rparr>
            | Some (result, s) \<Rightarrow>
                a1\<lparr>phase := Menu status False, ldr := s,
                   actions := actions a1 @
                     [Drawn (render_screen s status False
                        (Some (if flags (header s) AND PAYLOAD_FLAG_RETURNS \<noteq> 0
                               then ''P2 payload executed and returned successfully''
                               else ''Payload unexpectedly returned to the loader'')))]\<rparr>))
      else a)"

definition main_step :: "'f sys \<Rightarrow> payload_code \<Rightarrow> keys \<Rightarrow> 'f addin \<Rightarrow> 'f addin" where
  "main_step sys run k a =
     (case phase a of
        Startup released \<Rightarrow> startup_step sys released k a
      | Menu status armed \<Rightarrow> menu_step run status armed k a
      | _ \<Rightarrow> a)"

fun main_run :: "'f sys \<Rightarrow> payload_code \<Rightarrow> keys list \<Rightarrow> 'f addin \<Rightarrow> 'f addin" where
  "main_run sys run [] a = a"
| "main_run sys run (k # ks) a = main_run sys run ks (main_step sys run k a)"

section \<open>Memory and checksum lemmas\<close>

lemma length_read_mem [simp]: "length (read_mem m a n) = n"
  by (simp add: read_mem_def)

lemma read_mem_0 [simp]: "read_mem m a 0 = []"
  by (simp add: read_mem_def)

lemma read_mem_add: "read_mem m a (i + j) = read_mem m a i @ read_mem m (a + of_nat i) j"
proof -
  have "[0..<i + j] = [0..<i] @ map (\<lambda>k. i + k) [0..<j]"
    by (induction j) (simp_all add: add.assoc)
  then show ?thesis
    by (simp add: read_mem_def add.assoc)
qed

lemma read_mem_cong:
  "(\<And>i. i < n \<Longrightarrow> m (a + of_nat i) = m' (a + of_nat i)) \<Longrightarrow> read_mem m a n = read_mem m' a n"
  by (simp add: read_mem_def)

lemma unat_of_nat_32: "i < 2 ^ 32 \<Longrightarrow> unat (of_nat i :: u32) = i"
  by (simp add: unat_of_nat take_bit_nat_eq_self)

lemma read_write_mem:
  assumes "length bs \<le> 2 ^ 32"
  shows "read_mem (write_mem m a bs) a (length bs) = bs"
proof (rule nth_equalityI)
  fix i assume "i < length (read_mem (write_mem m a bs) a (length bs))"
  then have "i < length bs" by simp
  moreover from this assms have "unat (of_nat i :: u32) = i"
    by (intro unat_of_nat_32) simp
  ultimately show "read_mem (write_mem m a bs) a (length bs) ! i = bs ! i"
    by (simp add: read_mem_def write_mem_def)
qed simp

text \<open>A write at offset \<open>dn\<close> of a region that starts at \<open>L\<close>, seen through offsets.\<close>

lemma write_mem_offset:
  fixes L dn :: u32
  assumes "unat dn + length bs \<le> 2 ^ 32"
  shows "write_mem m (L + dn) bs x =
    (if unat dn \<le> unat (x - L) \<and> unat (x - L) < unat dn + length bs
     then bs ! (unat (x - L) - unat dn) else m x)"
proof -
  have x: "x - (L + dn) = (x - L) - dn" by simp
  have "unat ((x - L) - dn) =
    (if unat dn \<le> unat (x - L) then unat (x - L) - unat dn
     else unat (x - L) + 2 ^ 32 - unat dn)"
    by (simp add: unat_sub_if')
  then show ?thesis
    unfolding write_mem_def x using assms by auto
qed

lemma unat_offset:
  fixes L dn :: u32
  assumes "unat dn + i < 2 ^ 32"
  shows "unat (L + dn + of_nat i - L) = unat dn + i"
proof -
  have "L + dn + of_nat i - L = dn + of_nat i" by simp
  moreover have "unat (of_nat i :: u32) = i" using assms by (intro unat_of_nat_32) simp
  ultimately show ?thesis using assms by (simp add: unat_word_ariths)
qed

text \<open>A checksum that may be computed chunk by chunk: what the read loop relies on.\<close>

locale stream_checksum =
  fixes upd :: "'c \<Rightarrow> 'b list \<Rightarrow> 'c"
  assumes upd_Nil: "upd c [] = c"
    and upd_append: "upd c (xs @ ys) = upd (upd c xs) ys"
begin

lemma upd_concat: "upd c (concat chunks) = foldl upd c chunks"
  by (induction chunks arbitrary: c) (simp_all add: upd_Nil upd_append)

end

interpretation crc: stream_checksum crc32_update
  by unfold_locales (simp_all add: crc32_update_def)

section \<open>The read loop\<close>

text \<open>What the loader relies on of \<^verbatim>\<open>sys_read\<close>: it never stores or reports more than
  was asked, and reports as many bytes as it stored.\<close>

definition reads_bounded :: "'f sys \<Rightarrow> bool" where
  "reads_bounded sys \<longleftrightarrow> (\<forall>d n f. case sys_read sys d n f of (c, bs, f') \<Rightarrow>
     length bs = nat c \<and> c \<le> int n)"

lemma reads_boundedD:
  "reads_bounded sys \<Longrightarrow> sys_read sys d n f = (c, bs, f') \<Longrightarrow> length bs = nat c \<and> c \<le> int n"
  unfolding reads_bounded_def
  by (drule spec [of _ d], drule spec [of _ n], drule spec [of _ f]) simp

text \<open>One turn of the loop, in offsets.\<close>

lemma load_request:
  fixes dn size :: u32
  assumes "dn < size"
  shows "unat (if size - dn > 65536 then 65536 else size - dn) \<le> unat size - unat dn"
    and "unat (if size - dn > 65536 then 65536 else size - dn) \<le> 65536"
    and "0 < unat (if size - dn > 65536 then 65536 else size - dn)"
proof -
  have d: "unat (size - dn) = unat size - unat dn"
    using assms by (simp add: unat_sub order_less_imp_le)
  have "unat dn < unat size" using assms by (simp add: word_less_nat_alt)
  with d show "unat (if size - dn > 65536 then 65536 else size - dn) \<le> unat size - unat dn"
    and "unat (if size - dn > 65536 then 65536 else size - dn) \<le> 65536"
    and "0 < unat (if size - dn > 65536 then 65536 else size - dn)"
    by (auto simp: word_less_nat_alt)
qed

lemma load_advance:
  fixes dn size :: u32
  assumes "dn < size" and "0 < c" and "nat c \<le> unat size - unat dn"
  shows "unat (dn + word_of_int c) = unat dn + nat c"
proof -
  have le: "unat dn + nat c \<le> unat size" using assms by (simp add: word_less_nat_alt)
  have "unat size < 2 ^ LENGTH(32)" by (rule unsigned_less)
  with le have lt: "unat dn + nat c < 2 ^ 32" by simp
  have "(word_of_int c :: u32) = of_nat (nat c)" using assms(2) by simp
  with lt have "unat (word_of_int c :: u32) = nat c" by (simp only: unat_of_nat_32)
  with lt show ?thesis by (simp add: unat_word_ariths)
qed

text \<open>The address range a payload of header \<open>h\<close> occupies, as offsets from its load address.\<close>

definition in_payload :: "payload_header \<Rightarrow> u32 \<Rightarrow> bool" where
  "in_payload h x \<longleftrightarrow> unat (x - load_address h) < unat (payload_size h)"

text \<open>What a loop entered at \<open>dn\<close> may have changed: only memory, and only offsets in
  \<open>[dn, size)\<close> of the payload.\<close>

definition loop_frame :: "u32 \<Rightarrow> loader \<Rightarrow> loader \<Rightarrow> bool" where
  "loop_frame dn s s' \<longleftrightarrow>
     header s' = header s \<and> measured_crc s' = measured_crc s \<and>
     source_is_card s' = source_is_card s \<and>
     (\<forall>x. unat (x - load_address (header s)) < unat dn \<or> \<not> in_payload (header s) x \<longrightarrow>
          memory s' x = memory s x)"

lemma loop_frame_refl: "loop_frame dn s s"
  by (simp add: loop_frame_def)

lemma loop_frame_write:
  assumes "length bs \<le> unat (payload_size (header s)) - unat dn" and "dn \<le> payload_size (header s)"
  shows "loop_frame dn s (s\<lparr>memory := write_mem (memory s) (load_address (header s) + dn) bs\<rparr>)"
proof -
  have "unat dn \<le> unat (payload_size (header s))" using assms(2) by (simp add: word_le_nat_alt)
  with assms(1) have le: "unat dn + length bs \<le> unat (payload_size (header s))" by simp
  moreover have "unat (payload_size (header s)) < 2 ^ LENGTH(32)" by (rule unsigned_less)
  ultimately have "unat dn + length bs \<le> 2 ^ 32" by simp
  with le show ?thesis
    by (auto simp: loop_frame_def in_payload_def write_mem_offset)
qed

lemma loop_frame_trans:
  assumes "loop_frame dn s s1" and "loop_frame dn1 s1 s2" and "unat dn \<le> unat dn1"
  shows "loop_frame dn s s2"
  using assms unfolding loop_frame_def by (auto dest: less_le_trans)

lemma loop_crc_step:
  fixes L dn dn' size :: u32
  assumes "unat dn' = unat dn + length bs" and "unat dn' \<le> unat size"
    and mem: "\<And>x. unat (x - L) < unat dn' \<Longrightarrow> m' x = write_mem m (L + dn) bs x"
  shows "crc32_update (crc32_update crc bs) (read_mem m' (L + dn') (unat size - unat dn')) =
         crc32_update crc (read_mem m' (L + dn) (unat size - unat dn))"
proof -
  have sz: "unat size < 2 ^ LENGTH(32)" by (rule unsigned_less)
  with assms have lt: "unat dn + length bs < 2 ^ 32" by simp
  have "read_mem m' (L + dn) (length bs) = read_mem (write_mem m (L + dn) bs) (L + dn) (length bs)"
    using assms(1) lt by (intro read_mem_cong mem) (simp only: unat_offset)
  also have "\<dots> = bs" using lt by (intro read_write_mem) simp
  finally have bs: "read_mem m' (L + dn) (length bs) = bs" .
  have "dn' = dn + of_nat (length bs)"
    using assms(1) lt by (intro word_unat_eq_iff [THEN iffD2])
      (simp add: unat_word_ariths unat_of_nat take_bit_nat_eq_self)
  moreover have "unat size - unat dn = length bs + (unat size - unat dn')"
    using assms by simp
  ultimately show ?thesis
    using bs by (simp add: read_mem_add crc.upd_append add.assoc)
qed

lemma load_loop_correct:
  assumes rd: "reads_bounded sys"
    and "dn \<le> payload_size (header s)"
    and "load_loop fuel sys d dn crc s f = Some (r, s', f')"
  shows "loop_frame dn s s' \<and>
    (\<forall>c. r = Some c \<longrightarrow>
      c = crc32_update crc (read_mem (memory s') (load_address (header s) + dn)
            (unat (payload_size (header s)) - unat dn)))"
  using assms(2,3)
proof (induction fuel arbitrary: dn crc s f)
  case 0
  then show ?case by simp
next
  case (Suc fuel)
  let ?L = "load_address (header s)" and ?Z = "payload_size (header s)"
  show ?case
  proof (cases "dn < ?Z")
    case False
    with Suc.prems show ?thesis by (auto simp: loop_frame_refl crc.upd_Nil)
  next
    case True
    define req where "req = unat (if ?Z - dn > 65536 then 65536 else ?Z - dn)"
    obtain c bs f1 where rdv: "sys_read sys d req f = (c, bs, f1)" by (metis prod_cases3)
    define s1 where "s1 = s\<lparr>memory := write_mem (memory s) (?L + dn) bs\<rparr>"
    from reads_boundedD [OF rd rdv] have len: "length bs = nat c" "nat c \<le> req" by auto
    have req: "req \<le> unat ?Z - unat dn" "req \<le> 65536"
      unfolding req_def using load_request [OF True] by blast+
    have fr1: "loop_frame dn s s1"
      unfolding s1_def using len req Suc.prems(1) by (intro loop_frame_write) auto
    show ?thesis
    proof (cases "c \<le> 0")
      case True
      with \<open>dn < ?Z\<close> Suc.prems(2) rdv fr1 show ?thesis
        by (auto simp: Let_def req_def s1_def)
    next
      case False
      define dn1 where "dn1 = dn + word_of_int c"
      have adv: "unat dn1 = unat dn + length bs"
        unfolding dn1_def using load_advance [OF True, of c] False len req by simp
      have bs: "read_mem (memory s1) (?L + dn) (nat c) = bs"
        using read_write_mem [of bs "memory s" "?L + dn"] len req by (simp add: s1_def)
      from Suc.prems(2) True False rdv bs
      have run: "load_loop fuel sys d dn1 (crc32_update crc bs) s1 f1 = Some (r, s', f')"
        by (auto simp: Let_def req_def s1_def dn1_def)
      have hs1: "header s1 = header s" by (simp add: s1_def)
      have le1: "dn1 \<le> ?Z"
        using adv len req True by (simp add: word_le_nat_alt word_less_nat_alt)
      note IH = Suc.IH [OF le1 [folded hs1] run, unfolded hs1]
      have mem: "memory s' x = write_mem (memory s) (?L + dn) bs x" if "unat (x - ?L) < unat dn1" for x
        using IH that by (auto simp: loop_frame_def s1_def)
      show ?thesis
        using IH fr1 adv loop_frame_trans [OF fr1, of dn1 s']
          loop_crc_step [OF adv _ mem, of ?Z crc] le1
        by (simp add: word_le_nat_alt)
    qed
  qed
qed

lemma load_loop_terminates:
  assumes rd: "reads_bounded sys" and "unat (payload_size (header s)) - unat dn < fuel"
  shows "load_loop fuel sys d dn crc s f \<noteq> None"
  using assms(2)
proof (induction fuel arbitrary: dn crc s f)
  case 0
  then show ?case by simp
next
  case (Suc fuel)
  let ?Z = "payload_size (header s)"
  show ?case
  proof (cases "dn < ?Z")
    case True
    obtain c bs f1 where rdv:
      "sys_read sys d (unat (if ?Z - dn > 65536 then 65536 else ?Z - dn)) f = (c, bs, f1)"
      by (metis prod_cases3)
    show ?thesis
    proof (cases "c \<le> 0")
      case False
      have "nat c \<le> unat ?Z - unat dn"
        using reads_boundedD [OF rd rdv] load_request(1) [OF True] by linarith
      with False have "unat (dn + word_of_int c) = unat dn + nat c"
        by (intro load_advance [OF True]) auto
      with Suc.prems False True have "unat ?Z - unat (dn + word_of_int c) < fuel"
        by (simp add: word_less_nat_alt)
      with True False rdv Suc.IH show ?thesis by (simp add: Let_def)
    qed (use True rdv in \<open>simp add: Let_def\<close>)
  qed simp
qed

declare load_loop.simps [simp del]

section \<open>The loader as a whole\<close>

definition crc32 :: "bytes \<Rightarrow> u32" where
  "crc32 bs = crc32_update 0xffffffff bs XOR 0xffffffff"

text \<open>What a payload image in memory must satisfy before control may be transferred to it.\<close>

definition verified :: "loader \<Rightarrow> bool" where
  "verified s \<longleftrightarrow> header_magic_ok (header s) \<and> \<not> header_range_bad (header s) \<and>
     measured_crc s = payload_crc32 (header s) \<and>
     crc32 (read_mem (memory s) (load_address (header s)) (unat (payload_size (header s))))
       = payload_crc32 (header s)"

text \<open>The shape of every load: either the header stage rejects the file before any payload
  byte is stored, or the read loop runs on an accepted header.\<close>

lemma load_payload_cases:
  assumes "load_payload sys s0 f0 = Some (status, s', f')"
  obtains (rejected) "memory s' = memory s0"
      "status \<in> {LOAD_NOT_FOUND, LOAD_BAD_HEADER, LOAD_BAD_RANGE, LOAD_BAD_SIZE}"
  | (looped) s d f where "memory s = memory s0" "header_magic_ok (header s)"
      "\<not> header_range_bad (header s)" "load_image sys d s f = Some (status, s', f')"
proof -
  have m: "memory s = memory s0" if "open_payload sys s0 f0 = (d, s, f)" for d s f
    using that by (auto simp: open_payload_def Let_def split: prod.splits if_splits)
  have c: thesis if "load_checked sys d fz c s f = Some (status, s', f')" "memory s = memory s0" for d fz c s f
    using that by (auto simp: load_checked_def split: if_splits intro: rejected looped)
  from assms show thesis
    by (auto simp: load_payload_def split: prod.splits if_splits intro: rejected dest: m elim!: c)
qed

lemma load_image_cases:
  assumes "load_image sys d s f = Some (status, s', f')"
  obtains r s1 f1 where
      "load_loop (Suc (unat (payload_size (header s)))) sys d 0 0xffffffff s f = Some (r, s1, f1)"
      "case r of None \<Rightarrow> s' = s1 \<and> status = LOAD_READ_ERROR
       | Some c \<Rightarrow> s' = s1\<lparr>measured_crc := c XOR 0xffffffff\<rparr> \<and>
           status = (if c XOR 0xffffffff = payload_crc32 (header s1) then LOAD_OK else LOAD_BAD_CRC)"
  using assms by (auto simp: load_image_def Let_def split: option.splits if_splits)

lemma header_range_in_pool:
  assumes "\<not> header_range_bad h" and "in_payload h x"
  shows "PAYLOAD_P2_START \<le> x \<and> x < PAYLOAD_P2_END"
proof -
  let ?L = "load_address h" and ?o = "x - load_address h"
  have L: "PAYLOAD_P2_START \<le> ?L" "?L < PAYLOAD_P2_END" "payload_size h \<le> PAYLOAD_P2_END - ?L"
    using assms(1) by (auto simp: header_range_bad_def not_le)
  have o: "?o < payload_size h" using assms(2) by (simp add: in_payload_def word_less_nat_alt)
  with L(3) have oe: "?o \<le> PAYLOAD_P2_END - ?L" by simp
  note nw = word_le_diff_nowrap [OF L(2) L(3)] word_le_diff_nowrap [OF L(2) oe]
  have "unat x = unat ?L + unat ?o" using nw(3) by simp
  moreover have "unat ?o < unat (payload_size h)" using o by (simp add: word_less_nat_alt)
  moreover have "unat ?L + unat (payload_size h) \<le> unat PAYLOAD_P2_END" by (rule nw(2))
  ultimately show ?thesis using L(1) by (simp add: word_le_nat_alt word_less_nat_alt)
qed

lemma verified_entry:
  assumes "verified s"
  shows "in_payload (header s) (entry_address (header s))"
proof -
  let ?h = "header s"
  have "load_address ?h < PAYLOAD_P2_END" "payload_size ?h \<le> PAYLOAD_P2_END - load_address ?h"
    and e: "load_address ?h \<le> entry_address ?h"
      "entry_address ?h < load_address ?h + payload_size ?h"
    using assms by (auto simp: verified_def header_range_bad_def not_le)
  then have "unat (load_address ?h + payload_size ?h) =
      unat (load_address ?h) + unat (payload_size ?h)"
    by (intro word_le_diff_nowrap(1))
  moreover have "unat (entry_address ?h - load_address ?h) =
      unat (entry_address ?h) - unat (load_address ?h)"
    using e(1) by (rule unat_sub)
  ultimately show ?thesis
    using e by (simp add: in_payload_def word_less_nat_alt word_le_nat_alt)
qed

lemma load_verified:
  assumes rd: "reads_bounded sys" and run: "load_payload sys s f = Some (LOAD_OK, s', f')"
  shows "verified s'"
  using run
proof (cases rule: load_payload_cases)
  case (looped s2 d f)
  from looped(4) obtain c s1 f1 where l:
    "load_loop (Suc (unat (payload_size (header s2)))) sys d 0 0xffffffff s2 f = Some (Some c, s1, f1)"
    "s' = s1\<lparr>measured_crc := c XOR 0xffffffff\<rparr>" "c XOR 0xffffffff = payload_crc32 (header s1)"
    by (elim load_image_cases) (auto split: option.splits if_splits)
  note res = load_loop_correct [OF rd _ l(1)]
  then have "header s1 = header s2" by (simp add: loop_frame_def)
  with looped l res show ?thesis by (simp add: verified_def crc32_def)
qed auto

lemma load_frame:
  assumes rd: "reads_bounded sys" and run: "load_payload sys s f = Some (status, s', f')"
    and x: "memory s' x \<noteq> memory s x"
  shows "PAYLOAD_P2_START \<le> x \<and> x < PAYLOAD_P2_END"
  using run
proof (cases rule: load_payload_cases)
  case (looped s2 d f)
  from looped(4) obtain r s1 f1 where l:
    "load_loop (Suc (unat (payload_size (header s2)))) sys d 0 0xffffffff s2 f = Some (r, s1, f1)"
    "memory s' = memory s1"
    by (elim load_image_cases) (auto split: option.splits)
  with x looped have "memory s1 x \<noteq> memory s2 x" by simp
  then have "in_payload (header s2) x"
    using load_loop_correct [OF rd _ l(1)] by (auto simp: loop_frame_def)
  with looped(3) show ?thesis by (rule header_range_in_pool)
qed (use x in simp)

lemma load_image_returns:
  assumes "reads_bounded sys"
  shows "load_image sys d s f \<noteq> None"
  using load_loop_terminates [OF assms, of s 0 "Suc (unat (payload_size (header s)))"]
  by (auto simp: load_image_def Let_def split: option.splits)

lemma load_returns:
  assumes "reads_bounded sys"
  shows "load_payload sys s f \<noteq> None"
  using load_image_returns [OF assms]
  by (auto simp: load_payload_def load_checked_def split: prod.splits)

section \<open>Exact verdict on a well-behaved file\<close>

text \<open>A descriptor that delivers the bytes of \<open>data\<close> in order, \<open>pos\<close> being its read position.\<close>

definition file_contract :: "'f sys \<Rightarrow> int \<Rightarrow> bytes \<Rightarrow> ('f \<Rightarrow> nat) \<Rightarrow> bool" where
  "file_contract sys d data pos \<longleftrightarrow>
     (\<forall>n f. \<exists>f'. sys_read sys d n f =
        (int (length (take n (drop (pos f) data))), take n (drop (pos f) data), f') \<and>
        pos f' = pos f + length (take n (drop (pos f) data))) \<and>
     (\<forall>f. \<exists>f'. sys_get_filesize sys d f = (int (length data), f') \<and> pos f' = pos f)"

text \<open>The verdict the loader should reach, read off the file's bytes alone.\<close>

definition classify_file :: "bytes \<Rightarrow> load_status" where
  "classify_file data =
     (if length data < 32 then LOAD_BAD_HEADER
      else let h = header_of_bytes data in
        if \<not> header_magic_ok h then LOAD_BAD_HEADER
        else if header_range_bad h then LOAD_BAD_RANGE
        else if length data \<noteq> 32 + unat (payload_size h) then LOAD_BAD_SIZE
        else if crc32 (drop 32 data) \<noteq> payload_crc32 h then LOAD_BAD_CRC
        else LOAD_OK)"

lemma write_mem_append:
  fixes a :: u32
  assumes "length xs + length ys \<le> 2 ^ 32" and "length xs < 2 ^ 32"
  shows "write_mem (write_mem m a xs) (a + of_nat (length xs)) ys = write_mem m a (xs @ ys)"
proof
  fix x
  have "unat (of_nat (length xs) :: u32) = length xs" using assms(2) by (rule unat_of_nat_32)
  then show "write_mem (write_mem m a xs) (a + of_nat (length xs)) ys x = write_mem m a (xs @ ys) x"
    using assms write_mem_offset [of "of_nat (length xs)" ys "write_mem m a xs" a x]
    by (auto simp: write_mem_def nth_append)
qed

lemma load_loop_file:
  assumes fc: "file_contract sys d data pos"
    and "pos f = 32 + unat dn" "length data = 32 + unat (payload_size (header s))"
    and "dn \<le> payload_size (header s)" "unat (payload_size (header s)) - unat dn < fuel"
  shows "\<exists>f'. load_loop fuel sys d dn crc s f =
    Some (Some (crc32_update crc (drop (32 + unat dn) data)),
      s\<lparr>memory := write_mem (memory s) (load_address (header s) + dn) (drop (32 + unat dn) data)\<rparr>, f')"
  using assms(2-)
proof (induction fuel arbitrary: dn crc s f)
  case 0
  then show ?case by simp
next
  case (Suc fuel)
  let ?L = "load_address (header s)" and ?Z = "payload_size (header s)"
  have Z: "unat ?Z < 2 ^ LENGTH(32)" by (rule unsigned_less)
  show ?case
  proof (cases "dn < ?Z")
    case False
    with Suc.prems(3) have "dn = ?Z" by simp
    with Suc.prems show ?thesis by (simp add: crc.upd_Nil write_mem_def load_loop.simps)
  next
    case True
    define req where "req = unat (if ?Z - dn > 65536 then 65536 else ?Z - dn)"
    have req: "req \<le> unat ?Z - unat dn" "req \<le> 65536" "0 < req"
      unfolding req_def using load_request [OF True] by blast+
    define bs where "bs = take req (drop (32 + unat dn) data)"
    have len: "length bs = req" using req Suc.prems by (simp add: bs_def)
    from fc Suc.prems(1) len obtain f1 where
      rdv: "sys_read sys d req f = (int req, bs, f1)" and pos: "pos f1 = 32 + unat dn + req"
      unfolding file_contract_def bs_def by metis
    define s1 where "s1 = s\<lparr>memory := write_mem (memory s) (?L + dn) bs\<rparr>"
    define dn1 where "dn1 = dn + word_of_int (int req)"
    have adv: "unat dn1 = unat dn + req"
      unfolding dn1_def using load_advance [OF True, of "int req"] req by simp
    have hs1: "header s1 = header s" by (simp add: s1_def)
    have data: "drop (32 + unat dn) data = bs @ drop (32 + unat dn1) data"
      using append_take_drop_id [of req "drop (32 + unat dn) data"]
      by (simp add: bs_def adv ac_simps)
    have step: "load_loop (Suc fuel) sys d dn crc s f =
        load_loop fuel sys d dn1 (crc32_update crc bs) s1 f1"
      using True req rdv read_write_mem [of bs "memory s" "?L + dn"] len
      by (simp add: load_loop.simps Let_def flip: req_def s1_def) (simp add: s1_def dn1_def)
    have "\<exists>f'. load_loop fuel sys d dn1 (crc32_update crc bs) s1 f1 =
      Some (Some (crc32_update (crc32_update crc bs) (drop (32 + unat dn1) data)),
        s1\<lparr>memory := write_mem (memory s1) (load_address (header s1) + dn1)
             (drop (32 + unat dn1) data)\<rparr>, f')"
      using Suc.prems pos adv req True hs1
      by (intro Suc.IH) (simp_all add: word_le_nat_alt word_less_nat_alt)
    moreover have "write_mem (memory s1) (?L + dn1) (drop (32 + unat dn1) data) =
        write_mem (memory s) (?L + dn) (drop (32 + unat dn) data)"
      using write_mem_append [of bs "drop (32 + unat dn1) data" "memory s" "?L + dn"]
        len req adv Suc.prems(2) Z data
      by (simp add: s1_def dn1_def add.assoc)
    ultimately show ?thesis
      unfolding step using data by (simp add: hs1 crc.upd_append) (simp add: s1_def)
  qed
qed

lemma header_of_bytes_take: "32 \<le> length b \<Longrightarrow> header_of_bytes (take 32 b) = header_of_bytes b"
  by (auto simp: header_of_bytes_def of_be32_def)

lemma sint_small:
  fixes z :: u32
  assumes "unat z \<le> 0x800000"
  shows "sint (32 + z) = int (32 + unat z)"
proof -
  have "unat (32 + z) = unat (32 :: u32) + unat z"
    using assms by (subst unat_add_lem [symmetric]) simp
  then have u: "uint (32 + z) = int (32 + unat z)"
    by (simp only: uint_nat unat_numeral) simp
  have "sint (32 + z) = signed_take_bit 31 (int (32 + unat z))"
    by (simp only: sint_uint u) simp
  also have "\<dots> = int (32 + unat z)"
  proof (rule signed_take_bit_int_eq_self)
    show "- (2 ^ 31) \<le> int (32 + unat z)" by (rule order_trans [of _ 0]) simp_all
    have "(32 + unat z) < 2 ^ 31" using assms by simp
    then have "int (32 + unat z) < int (2 ^ 31)" by (simp only: of_nat_less_iff)
    then show "int (32 + unat z) < 2 ^ 31" by simp
  qed
  finally show ?thesis .
qed

lemma length_header_bytes [simp]: "length (header_bytes h) = 24 + length (magic h)"
  by (simp add: header_bytes_def)

lemma range_ok_size:
  assumes "\<not> header_range_bad h"
  shows "unat (payload_size h) \<le> 0x800000" and "0 < unat (payload_size h)"
proof -
  let ?L = "load_address h"
  have L: "PAYLOAD_P2_START \<le> ?L" "?L < PAYLOAD_P2_END" "payload_size h \<le> PAYLOAD_P2_END - ?L"
    and "payload_size h \<noteq> 0"
    using assms by (auto simp: header_range_bad_def not_le)
  moreover have "unat ?L + unat (payload_size h) \<le> unat PAYLOAD_P2_END"
    by (rule word_le_diff_nowrap(2) [OF L(2,3)])
  ultimately show "unat (payload_size h) \<le> 0x800000" "0 < unat (payload_size h)"
    by (auto simp: word_le_nat_alt loader_consts word_greater_zero_iff unat_gt_0)
qed

lemma load_image_file:
  assumes "file_contract sys d data pos" "pos f = 32"
    and "length data = 32 + unat (payload_size (header s))"
  shows "\<exists>s' f'. load_image sys d s f =
      Some (if crc32 (drop 32 data) \<noteq> payload_crc32 (header s) then LOAD_BAD_CRC else LOAD_OK, s', f')
    \<and> header s' = header s
    \<and> memory s' = write_mem (memory s) (load_address (header s)) (drop 32 data)"
  using load_loop_file [OF assms(1), where f = f and dn = 0 and s = s and crc = "0xffffffff"
      and fuel = "Suc (unat (payload_size (header s)))"] assms(2,3)
  by (auto simp: load_image_def crc32_def)

text \<open>The verdict, and the place of the payload bytes, on a file that reads back correctly.\<close>

lemma load_file_verdict:
  assumes op: "open_payload sys s f = (d, s1, f1)" "0 \<le> d" "pos f1 = 0"
    and fc: "file_contract sys d data pos"
    and m: "length (magic (header s1)) = 8"
  shows "\<exists>s' f'. load_payload sys s f = Some (classify_file data, s', f') \<and>
    (classify_file data = LOAD_OK \<longrightarrow>
       read_mem (memory s') (load_address (header_of_bytes data)) (length data - 32) = drop 32 data)"
proof -
  from fc op(3) obtain f2 where f2: "sys_get_filesize sys d f1 = (int (length data), f2)" "pos f2 = 0"
    unfolding file_contract_def by metis
  with fc obtain f3 where f3: "sys_read sys d 32 f2 = (int (length (take 32 data)), take 32 data, f3)"
    "pos f3 = length (take 32 data)"
    unfolding file_contract_def by (metis drop_0 add_0)
  define s2 where "s2 = s1\<lparr>header := header_of_bytes (write_at (header_bytes (header s1)) 0 (take 32 data))\<rparr>"
  have run: "load_payload sys s f =
      load_checked sys d (int (length data)) (int (length (take 32 data))) s2 f3"
    using op f2 f3 by (simp add: load_payload_def s2_def)
  show ?thesis
  proof (cases "length data < 32")
    case True
    then show ?thesis by (simp add: run load_checked_def classify_file_def)
  next
    case False
    then have h: "header s2 = header_of_bytes data"
      using m by (simp add: s2_def write_at_def header_of_bytes_take)
    show ?thesis
    proof (cases "header_magic_ok (header s2) \<and> \<not> header_range_bad (header s2) \<and>
        length data = 32 + unat (payload_size (header s2))")
      case True
      then have sz: "length data = 32 + unat (payload_size (header s2))"
        and "unat (payload_size (header s2)) \<le> 0x800000"
        using range_ok_size(1) by blast+
      then have "int (length data) = sint (PAYLOAD_HEADER_SIZE + payload_size (header s2))"
        by (simp only: sint_small PAYLOAD_HEADER_SIZE_def)
      moreover obtain s' f' where "load_image sys d s2 f3 =
          Some (if crc32 (drop 32 data) \<noteq> payload_crc32 (header s2) then LOAD_BAD_CRC else LOAD_OK, s', f')"
        "memory s' = write_mem (memory s2) (load_address (header s2)) (drop 32 data)"
        using load_image_file [OF fc _ sz] f3 False by fastforce
      moreover have "length (drop 32 data) \<le> 2 ^ 32"
        using sz \<open>unat (payload_size (header s2)) \<le> 0x800000\<close> by simp
      ultimately show ?thesis
        using True False h read_write_mem [of "drop 32 data" "memory s2" "load_address (header s2)"]
        by (simp add: run load_checked_def classify_file_def Let_def)
    next
      case bad: False
      have "int (length data) \<noteq> sint (PAYLOAD_HEADER_SIZE + payload_size (header s2))"
        if "\<not> header_range_bad (header s2)" "length data \<noteq> 32 + unat (payload_size (header s2))"
        using that range_ok_size(1) [OF that(1)]
        by (simp only: sint_small PAYLOAD_HEADER_SIZE_def of_nat_eq_iff simp_thms)
      with bad False h show ?thesis
        by (auto simp: run load_checked_def classify_file_def Let_def)
    qed
  qed
qed

section \<open>What the checksum detects\<close>

lemma crc32_bit_alt: "crc32_bit c = drop_bit 1 c XOR (if bit c 0 then 0xedb88320 else 0)"
  by (simp add: crc32_bit_def and_one_eq mod2_eq_if bit_0)

lemma crc32_bit_xor: "crc32_bit (a XOR b) = crc32_bit a XOR crc32_bit b"
  by (simp add: crc32_bit_alt bit_xor_iff ac_simps)

lemma crc32_bit_eq_0: "crc32_bit c = 0 \<Longrightarrow> c = 0"
proof (rule bit_word_eqI)
  fix n assume z: "crc32_bit c = 0" and n: "n < LENGTH(32)"
  have top: "bit (crc32_bit c) 31 = bit c 0"
    by (auto simp: crc32_bit_alt bit_simps bit_numeral_rec dest: bit_imp_le_length)
  with z have lo: "\<not> bit c 0" by simp
  with z have "drop_bit 1 c = 0" by (simp add: crc32_bit_alt)
  moreover have "bit (drop_bit 1 c) m = bit c (Suc m)" for m
    by (simp add: bit_drop_bit_eq)
  ultimately have "\<not> bit c (Suc m)" for m
    by (metis bit_0_eq bot_apply bot_bool_def)
  with lo show "bit c n = bit 0 n" by (cases n) simp_all
qed

lemma inj_crc32_bit: "inj crc32_bit"
proof (rule injI)
  fix a b assume "crc32_bit a = crc32_bit b"
  then have "crc32_bit (a XOR b) = 0" by (simp add: crc32_bit_xor)
  then have "a XOR b = 0" by (rule crc32_bit_eq_0)
  then have "a XOR (a XOR b) = a" by simp
  then show "a = b" by (simp flip: xor.assoc)
qed

lemma crc32_byte_inject:
  "crc32_byte c d = crc32_byte c' d' \<longleftrightarrow> c XOR ucast d = c' XOR ucast d'"
  unfolding crc32_byte_def using inj_fn [OF inj_crc32_bit, of 8] by (simp only: inj_eq)

lemma xor_cancel_left: "(a :: 'a::len word) XOR b = a XOR c \<longleftrightarrow> b = c"
proof
  assume "a XOR b = a XOR c"
  then have "a XOR (a XOR b) = a XOR (a XOR c)" by simp
  then show "b = c" by (simp flip: xor.assoc)
qed simp

lemma xor_cancel_right: "(b :: 'a::len word) XOR a = c XOR a \<longleftrightarrow> b = c"
  by (simp only: xor.commute [of _ a] xor_cancel_left)

lemma crc32_update_inject: "crc32_update c xs = crc32_update c' xs \<longleftrightarrow> c = c'"
proof (induction xs arbitrary: c c')
  case (Cons x xs)
  then show ?case
    by (simp add: crc32_update_def crc32_byte_inject xor_cancel_right)
qed (simp add: crc32_update_def)

lemma crc32_update_Cons: "crc32_update c (x # xs) = crc32_update (crc32_byte c x) xs"
  by (simp add: crc32_update_def)

lemma ucast_u8_u32: "(ucast (ucast b :: u32) :: u8) = b"
  by (rule bit_word_eqI) (simp add: bit_simps)

lemma crc32_one_byte:
  assumes "b \<noteq> b'"
  shows "crc32 (pre @ b # post) \<noteq> crc32 (pre @ b' # post)"
proof
  assume "crc32 (pre @ b # post) = crc32 (pre @ b' # post)"
  then have "crc32_update (crc32_update 0xffffffff pre) (b # post) =
      crc32_update (crc32_update 0xffffffff pre) (b' # post)"
    by (simp add: crc32_def crc.upd_append xor_cancel_right)
  then have "(ucast b :: u32) = ucast b'"
    by (simp add: crc32_update_Cons crc32_update_inject crc32_byte_inject xor_cancel_left)
  then have "(ucast (ucast b :: u32) :: u8) = ucast (ucast b' :: u32)" by simp
  then have "b = b'" by (simp only: ucast_u8_u32)
  with assms show False by contradiction
qed

section \<open>Control is transferred only to a verified, armed payload\<close>

text \<open>The order of actions the main loop may produce, as an automaton over the trace.\<close>

datatype guard_state = Unloaded | Ready | Primed

fun guard_run :: "guard_state \<Rightarrow> action list \<Rightarrow> guard_state option" where
  "guard_run q [] = Some q"
| "guard_run q (Drawn _ # as) = guard_run q as"
| "guard_run q (Loaded st # as) = guard_run (if st = LOAD_OK then Ready else Unloaded) as"
| "guard_run q (Armed # as) = (if q = Ready then guard_run Primed as else None)"
| "guard_run q (Executed e c # as) =
     (if q = Primed \<and> c = PAYLOAD_COOKIE then guard_run Ready as else None)"

lemma guard_run_append:
  "guard_run q (xs @ ys) = (case guard_run q xs of None \<Rightarrow> None | Some q' \<Rightarrow> guard_run q' ys)"
  by (induction q xs rule: guard_run.induct) simp_all

fun first_executed :: "action list \<Rightarrow> u32 option" where
  "first_executed [] = None"
| "first_executed (Executed e c # as) = Some e"
| "first_executed (_ # as) = first_executed as"

lemma first_executed_append:
  "first_executed (xs @ ys) = (case first_executed xs of None \<Rightarrow> first_executed ys | r \<Rightarrow> r)"
  by (induction xs rule: first_executed.induct) simp_all

definition in_pool :: "u32 \<Rightarrow> bool" where
  "in_pool x \<longleftrightarrow> PAYLOAD_P2_START \<le> x \<and> x < PAYLOAD_P2_END"

fun phase_guard :: "phase \<Rightarrow> guard_state option \<Rightarrow> bool" where
  "phase_guard (Startup _) q = (q = Some Unloaded)"
| "phase_guard (Menu LOAD_OK armed) q = (q = Some (if armed then Primed else Ready))"
| "phase_guard (Menu _ armed) q = (q = Some Unloaded \<and> \<not> armed)"
| "phase_guard _ q = (q \<noteq> None)"

definition addin_inv :: "'f addin \<Rightarrow> bool" where
  "addin_inv a \<longleftrightarrow> phase_guard (phase a) (guard_run Unloaded (actions a)) \<and>
     (\<forall>e. first_executed (actions a) = Some e \<longrightarrow> in_pool e) \<and>
     (\<forall>armed. phase a = Menu LOAD_OK armed \<longrightarrow> first_executed (actions a) = None \<longrightarrow> verified (ldr a)) \<and>
     (\<forall>r. phase a = Startup r \<longrightarrow> first_executed (actions a) = None)"

lemma addin_inv_start [inv_intros]: "addin_inv (main_start s f)"
  by (simp add: addin_inv_def main_start_def)

lemma phase_guard_Menu:
  "phase_guard (Menu st armed) q \<longleftrightarrow>
     (if st = LOAD_OK then q = Some (if armed then Primed else Ready) else q = Some Unloaded \<and> \<not> armed)"
  by (cases st) auto

lemma phase_guard_any: "phase_guard ph q \<Longrightarrow> q \<noteq> None"
  by (cases "(ph, q)" rule: phase_guard.cases) auto

lemma addin_inv_startup [inv_intros]:
  assumes "reads_bounded sys" "addin_inv a" "phase a = Startup r"
  shows "addin_inv (startup_step sys r k a)"
proof -
  obtain st s' f' where ld: "load_payload sys (ldr a) (fs a) = Some (st, s', f')"
    using load_returns [OF assms(1), of "ldr a" "fs a"] by auto
  have "st = LOAD_OK \<Longrightarrow> verified s'" using load_verified [OF assms(1)] ld by blast
  with assms(2,3) ld show ?thesis
    by (auto simp: addin_inv_def startup_step_def Let_def guard_run_append first_executed_append
        phase_guard_Menu)
qed

lemma addin_inv_menu [inv_intros]:
  assumes "addin_inv a" "phase a = Menu st armed"
  shows "addin_inv (menu_step run st armed k a)"
proof -
  have g: "guard_run Unloaded (actions a) =
      Some (if st = LOAD_OK then if armed then Primed else Ready else Unloaded)"
    using assms by (auto simp: addin_inv_def phase_guard_Menu split: if_splits)
  have e: "in_pool (entry_address (header (ldr a)))"
    if "st = LOAD_OK" "first_executed (actions a) = None"
    using assms that header_range_in_pool verified_entry
    by (auto simp: addin_inv_def in_pool_def verified_def)
  show ?thesis
    using assms g e
    by (auto simp: addin_inv_def menu_step_def Let_def guard_run_append first_executed_append
        phase_guard_Menu split: option.splits)
qed

lemma addin_inv_step [inv_intros]:
  "reads_bounded sys \<Longrightarrow> addin_inv a \<Longrightarrow> addin_inv (main_step sys run k a)"
  by (auto simp: main_step_def split: phase.splits intro: addin_inv_startup addin_inv_menu)

lemma addin_inv_run [inv_intros]:
  "reads_bounded sys \<Longrightarrow> addin_inv a \<Longrightarrow> addin_inv (main_run sys run ks a)"
  by (induction ks arbitrary: a) (simp_all add: addin_inv_step)

lemma guard_run_Primed:
  "guard_run Unloaded as = Some Primed \<Longrightarrow>
     \<exists>as1 as2. as = as1 @ Armed # as2 \<and> (\<forall>x \<in> set as2. \<exists>d. x = Drawn d) \<and>
       guard_run Unloaded as1 = Some Ready"
proof (induction as rule: rev_induct)
  case (snoc x xs)
  then show ?case
  proof (cases x)
    case (Drawn d)
    with snoc.prems have "guard_run Unloaded xs = Some Primed"
      by (auto simp: guard_run_append split: option.splits)
    then obtain as1 as2 where "xs = as1 @ Armed # as2" "\<forall>x \<in> set as2. \<exists>d. x = Drawn d"
      "guard_run Unloaded as1 = Some Ready"
      using snoc.IH by blast
    with Drawn show ?thesis by (intro exI [of _ as1] exI [of _ "as2 @ [x]"]) auto
  next
    case Armed
    with snoc.prems show ?thesis
      by (intro exI [of _ xs] exI [of _ "[]"])
         (auto simp: guard_run_append split: option.splits if_splits)
  qed (auto simp: guard_run_append split: option.splits if_splits)
qed simp

lemma guard_run_loaded:
  "guard_run Unloaded as = Some q \<Longrightarrow> q \<noteq> Unloaded \<Longrightarrow> Loaded LOAD_OK \<in> set as"
proof (induction as arbitrary: q rule: rev_induct)
  case (snoc x xs)
  then show ?case
    by (cases x) (auto simp: guard_run_append split: option.splits if_splits)
qed simp

lemma executed_guarded:
  assumes rd: "reads_bounded sys"
    and tr: "actions (main_run sys run ks (main_start s f)) = pre @ Executed e c # post"
  shows "c = PAYLOAD_COOKIE"
    and "\<exists>as1 as2. pre = as1 @ Armed # as2 \<and> (\<forall>x \<in> set as2. \<exists>d. x = Drawn d) \<and>
      Loaded LOAD_OK \<in> set as1"
    and "first_executed pre = None \<Longrightarrow> in_pool e"
proof -
  have inv: "addin_inv (main_run sys run ks (main_start s f))"
    by (intro inv_intros rd)
  then have "guard_run Unloaded (pre @ Executed e c # post) \<noteq> None"
    using tr phase_guard_any by (auto simp: addin_inv_def)
  then have c: "c = PAYLOAD_COOKIE" and p: "guard_run Unloaded pre = Some Primed"
    by (auto simp: guard_run_append split: option.splits if_splits)
  show "c = PAYLOAD_COOKIE" by (rule c)
  show "\<exists>as1 as2. pre = as1 @ Armed # as2 \<and> (\<forall>x \<in> set as2. \<exists>d. x = Drawn d) \<and>
      Loaded LOAD_OK \<in> set as1"
    using guard_run_Primed [OF p] guard_run_loaded by blast
  assume "first_executed pre = None"
  with inv tr show "in_pool e"
    by (auto simp: addin_inv_def first_executed_append)
qed

section \<open>Number formatting and drawing\<close>

definition digits_value :: "string \<Rightarrow> nat" where
  "digits_value ds = foldl (\<lambda>n c. 10 * n + (of_char c - 48)) 0 ds"

lemma digits_value_snoc: "digits_value (ds @ [c]) = 10 * digits_value ds + (of_char c - 48)"
  by (simp add: digits_value_def)

definition is_decimal :: "string \<Rightarrow> bool" where
  "is_decimal ds \<longleftrightarrow> (\<forall>c \<in> set ds. 48 \<le> (of_char c :: nat) \<and> of_char c \<le> (57 :: nat))"

lemma decimal_digit: "m < 10 \<Longrightarrow> of_char (char_of (48 + m) :: char) = (48 + m :: nat)"
  by simp

lemma decimal_loop_value:
  assumes "v < 10 ^ (10 - length acc)" and "length acc \<le> 10"
  shows "\<exists>ds. decimal_loop v acc = acc @ ds \<and> digits_value (rev ds) = v \<and>
     is_decimal ds \<and> length (acc @ ds) \<le> 10"
  using assms
proof (induction v acc rule: decimal_loop.induct)
  case (1 v acc)
  show ?case
  proof (cases "v = 0")
    case True
    then show ?thesis using "1.prems" by (simp add: decimal_loop.simps digits_value_def is_decimal_def)
  next
    case False
    with "1.prems" have len: "length acc < 10" by (cases "length acc = 10") auto
    then have "10 - length acc = Suc (9 - length acc)" by simp
    with "1.prems"(1) have "v div 10 < 10 ^ (9 - length acc)"
      by (simp add: less_mult_imp_div_less mult.commute)
    with "1.IH" False len obtain ds where ds:
      "decimal_loop (v div 10) (acc @ [char_of (48 + v mod 10)]) = acc @ char_of (48 + v mod 10) # ds"
      "digits_value (rev ds) = v div 10" "is_decimal ds"
      "length acc + Suc (length ds) \<le> 10"
      by auto
    from False len ds(1) have "decimal_loop v acc = acc @ char_of (48 + v mod 10) # ds"
      by (simp add: decimal_loop.simps [of v])
    then show ?thesis
      using ds decimal_digit [of "v mod 10"]
      by (intro exI [of _ "char_of (48 + v mod 10) # ds"]) (simp add: digits_value_snoc is_decimal_def)
  qed
qed

lemma decimal_value:
  "digits_value (decimal v) = unat v \<and> is_decimal (decimal v) \<and>
   length (decimal v) \<le> 10"
proof -
  have "unat v < 2 ^ LENGTH(32)" by (rule unsigned_less)
  then have "unat v < 10 ^ (10 - length [])" by simp
  then show ?thesis
    using decimal_loop_value [of "unat v" "[]"]
    by (auto simp: decimal_def digits_value_def is_decimal_def)
qed

definition hex_value :: "string \<Rightarrow> u32" where
  "hex_value ds = foldl (\<lambda>n c. push_bit 4 n OR
     of_nat (if of_char c < (58::nat) then of_char c - 48 else of_char c - 55)) 0 ds"

lemma hex_digit_value:
  assumes "d < 16"
  shows "(if of_char (hex_digits ! d) < (58::nat) then of_char (hex_digits ! d) - 48
          else of_char (hex_digits ! d) - 55) = d"
proof -
  have "list_all (\<lambda>d. (if of_char (hex_digits ! d) < (58::nat) then of_char (hex_digits ! d) - 48
          else of_char (hex_digits ! d) - 55) = d) [0..<16]"
    by code_simp
  then show ?thesis using assms by (simp add: list_all_iff)
qed

lemma nibble_step:
  fixes v :: u32
  assumes "l = k + 4"
  shows "push_bit 4 (drop_bit l v) OR (drop_bit k v AND 15) = drop_bit k v"
proof -
  have "drop_bit k v AND 15 = take_bit 4 (drop_bit k v)"
    by (simp add: take_bit_eq_mask mask_eq_exp_minus_1)
  then show ?thesis
    using assms by (intro bit_word_eqI) (auto simp: bit_simps dest: bit_imp_le_length)
qed

lemma hex32_value: "take 2 (hex32 v) = ''0x'' \<and> hex_value (drop 2 (hex32 v)) = v"
proof -
  have d: "of_nat (if of_char (hex_digits ! unat (x AND 15)) < (58::nat)
       then of_char (hex_digits ! unat (x AND 15)) - 48
       else of_char (hex_digits ! unat (x AND 15)) - 55) = x AND 15" for x :: u32
  proof -
    have "x AND 15 \<le> 15" by (rule word_and_le1)
    then have "unat (x AND 15) < 16" by (simp add: word_le_nat_alt)
    then show ?thesis by (simp only: hex_digit_value) simp
  qed
  have top: "drop_bit 28 v AND 15 = drop_bit 28 v"
  proof -
    have "drop_bit 32 v = 0"
      by (rule bit_word_eqI) (auto simp: bit_simps dest: bit_imp_le_length)
    then show ?thesis using nibble_step [of 32 28 v] by simp
  qed
  have "hex_value (drop 2 (hex32 v)) =
     foldl (\<lambda>n x. push_bit 4 n OR x) 0 (map (\<lambda>i. drop_bit (28 - i * 4) v AND 15) [0..<8])"
    by (simp add: hex32_def hex_value_def foldl_map d)
  also have "\<dots> = v"
    using nibble_step [of 4 0 v] by (simp add: upt_rec top nibble_step)
  finally show ?thesis by (simp add: hex32_def)
qed

text \<open>A drawing call stays on the 528x320 panel.\<close>

fun draw_inside :: "draw \<Rightarrow> bool" where
  "draw_inside (Draw_rect x y w h) = (x + w \<le> SCREEN_WIDTH \<and> y + h \<le> SCREEN_HEIGHT)"
| "draw_inside (Render_text x y t) = (x < SCREEN_WIDTH \<and> y < SCREEN_HEIGHT)"
| "draw_inside _ = True"

lemma label_value_inside: "y < SCREEN_HEIGHT \<Longrightarrow> list_all draw_inside (label_value y l v)"
  by (simp add: label_value_def loader_consts)

lemma render_inside:
  "list_all draw_inside render_startup_screen"
  "list_all draw_inside (render_screen s st armed r)"
  by (simp_all add: render_startup_screen_def render_screen_def label_value_inside loader_consts
      split: option.splits)

section \<open>A concrete storage device\<close>

text \<open>A drive that holds one file under the first name the loader tries; the state is the
  read position.\<close>

definition one_file_sys :: "bytes \<Rightarrow> nat sys" where
  "one_file_sys data =
     \<lparr>sys_open = (\<lambda>p f. if p = hd (payload_names ''drv0'') then (3, 0) else (-1, f)),
      sys_get_filesize = (\<lambda>d f. (int (length data), f)),
      sys_read = (\<lambda>d n f. (int (length (take n (drop f data))), take n (drop f data),
                    f + length (take n (drop f data)))),
      sys_close = (\<lambda>d f. f)\<rparr>"

definition zero_loader :: loader where
  "zero_loader = \<lparr>header = header_of_bytes (replicate 32 0), measured_crc = 0,
     source_is_card = False, memory = (\<lambda>_. 0)\<rparr>"

text \<open>A two-instruction SuperH payload (\<^verbatim>\<open>rts; nop\<close>) with the returns flag set.\<close>

definition rts_file :: bytes where
  "rts_file =
     [0x45, 0x58, 0x57, 0x50, 0x41, 0x59, 0x31, 0, 0, 0, 0, 0x20, 0xac, 0x80, 0, 0,
      0xac, 0x80, 0, 0, 0, 0, 0, 4, 0x54, 0xcd, 0x88, 0x59, 0, 0, 0, 3, 0, 0xb, 0, 9]"

lemma one_file_contract: "file_contract (one_file_sys data) d data id"
  by (simp add: file_contract_def one_file_sys_def)

lemma one_file_bounded: "reads_bounded (one_file_sys data)"
  by (simp add: reads_bounded_def one_file_sys_def)

lemma one_file_open: "open_payload (one_file_sys data) s f = (3, s\<lparr>source_is_card := False\<rparr>, 0)"
  by (simp add: open_payload_def one_file_sys_def payload_names_def)

lemma rts_file_header:
  "header_of_bytes rts_file =
     \<lparr>magic = expected_magic, header_size = 32, load_address = 0xac800000,
      entry_address = 0xac800000, payload_size = 4, payload_crc32 = 0x54cd8859, flags = 3\<rparr>"
  by (simp add: header_of_bytes_def rts_file_def of_be32_def expected_magic_def)

lemma crc32_byte_unfold:
  "crc32_byte c d = crc32_bit (crc32_bit (crc32_bit (crc32_bit (crc32_bit (crc32_bit (crc32_bit
     (crc32_bit (c XOR ucast d))))))))"
  by (simp add: crc32_byte_def eval_nat_numeral)

lemma rts_file_crc: "crc32 (drop 32 rts_file) = 0x54cd8859"
proof -
  have "drop 32 rts_file = [0, 0x0b, 0, 9]" by (simp add: rts_file_def)
  then show ?thesis
    by (simp add: crc32_def crc32_update_def crc32_byte_unfold crc32_bit_def)
qed

lemma rts_file_ok: "classify_file rts_file = LOAD_OK"
proof -
  have "length rts_file = 36" by (simp add: rts_file_def)
  moreover have "bytes_equal expected_magic expected_magic 8"
    by (simp add: expected_magic_def eval_nat_numeral)
  ultimately show ?thesis
    by (simp add: classify_file_def Let_def rts_file_header rts_file_crc header_magic_ok_def
        header_range_bad_def loader_consts)
qed

lemma zero_loader_magic: "length (magic (header zero_loader)) = 8"
  by (simp add: zero_loader_def header_of_bytes_def)

lemma rts_loads: "\<exists>s' f'. load_payload (one_file_sys rts_file) zero_loader 0 = Some (LOAD_OK, s', f')"
  using load_file_verdict [OF one_file_open [of rts_file zero_loader 0] _ _ one_file_contract]
  by (auto simp: rts_file_ok zero_loader_magic)

section \<open>Properties\<close>

text \<open>C1. If loading reports success, the payload in memory passed every check: magic,
  header size and executable flag, a non-empty range inside the P2 pool, an entry address
  inside that range, and a CRC-32 of the bytes that now lie in memory equal to the one the
  header promises.\<close>

theorem load_ok_verified:
  assumes "reads_bounded sys" and "load_payload sys s f = Some (LOAD_OK, s', f')"
  shows "verified s' \<and> in_payload (header s') (entry_address (header s')) \<and>
    (\<forall>x. in_payload (header s') x \<longrightarrow> PAYLOAD_P2_START \<le> x \<and> x < PAYLOAD_P2_END)"
  using load_verified [OF assms] verified_entry header_range_in_pool
  by (auto simp: verified_def)

theorem load_ok_verified_witness:
  "\<exists>s' f'. load_payload (one_file_sys rts_file) zero_loader 0 = Some (LOAD_OK, s', f') \<and> verified s'"
  using rts_loads load_ok_verified [OF one_file_bounded] by blast

text \<open>C2. Whatever the file contains and however the load ends, no byte outside the P2 pool
  is written.\<close>

theorem load_memory_frame:
  assumes "reads_bounded sys" and "load_payload sys s f = Some (status, s', f')"
    and "\<not> in_pool x"
  shows "memory s' x = memory s x"
  using load_frame [OF assms(1,2)] assms(3) by (auto simp: in_pool_def)

theorem load_memory_frame_witness:
  "\<exists>s' f'. load_payload (one_file_sys rts_file) zero_loader 0 = Some (LOAD_OK, s', f') \<and>
     memory s' 0x0c200000 = memory zero_loader 0x0c200000"
proof -
  have "\<not> in_pool 0x0c200000" by (simp add: in_pool_def loader_consts)
  with rts_loads load_memory_frame [OF one_file_bounded] show ?thesis by blast
qed

text \<open>C3. Loading always returns: the read loop cannot spin, because every turn either
  fails or consumes at least one of the remaining bytes.\<close>

theorem load_terminates:
  assumes "reads_bounded sys"
  shows "\<exists>status s' f'. load_payload sys s f = Some (status, s', f')"
  using load_returns [OF assms, of s f] by auto

theorem load_terminates_witness:
  "\<exists>status s' f'. load_payload (one_file_sys [1, 2, 3]) zero_loader 0 = Some (status, s', f')"
  by (rule load_terminates [OF one_file_bounded])

text \<open>C4. On a file that reads back in order, the reported status is exactly the
  classification of the file's bytes (short or foreign header, bad range, wrong size, bad
  CRC, or success), and on success the payload lies verbatim at its load address.\<close>

theorem load_verdict_exact:
  assumes "open_payload sys s f = (d, s1, f1)" and "0 \<le> d" and "pos f1 = 0"
    and "file_contract sys d data pos" and "length (magic (header s1)) = 8"
  shows "\<exists>s' f'. load_payload sys s f = Some (classify_file data, s', f') \<and>
    (classify_file data = LOAD_OK \<longrightarrow>
       read_mem (memory s') (load_address (header_of_bytes data)) (length data - 32) = drop 32 data)"
  using assms by (rule load_file_verdict)

theorem load_verdict_exact_witness:
  "\<exists>s' f'. load_payload (one_file_sys rts_file) zero_loader 0 = Some (LOAD_OK, s', f') \<and>
     read_mem (memory s') 0xac800000 4 = [0, 0x0b, 0, 9]"
proof -
  have d: "load_address (header_of_bytes rts_file) = 0xac800000" by (simp add: rts_file_header)
  have r: "drop 32 rts_file = [0, 0x0b, 0, 9]" and l: "length rts_file = 36"
    by (simp_all add: rts_file_def)
  show ?thesis
    using load_verdict_exact [OF one_file_open [of rts_file zero_loader 0] _ _ one_file_contract]
    by (simp add: rts_file_ok zero_loader_magic d r l)
qed


definition no_key :: keys where
  "no_key = \<lparr>state_power = False, state_back = False, state_enter = False,
     pressed_power = False, pressed_back = False, pressed_enter = False\<rparr>"

definition enter_key :: keys where
  "enter_key = no_key\<lparr>state_enter := True, pressed_enter := True\<rparr>"

lemma three_enter_boot:
  assumes "load_payload sys s f = Some (LOAD_OK, s', f')"
  shows "\<exists>d1 d2 d3. actions (main_run sys (\<lambda>_ _ _. None) [no_key, enter_key, enter_key, enter_key]
      (main_start s f)) =
    [Drawn d1, Loaded LOAD_OK, Drawn d2, Armed, Drawn d3] @
      Executed (entry_address (header s')) PAYLOAD_COOKIE # []"
  using assms
  by (simp add: main_start_def main_step_def startup_step_def menu_step_def no_key_def
      enter_key_def execute_payload_def)


text \<open>A payload file that verifies stops verifying when any single byte of its payload
  is changed: the loader answers with a CRC mismatch.\<close>

theorem corrupted_byte_rejected:
  assumes "length h = 32" and "classify_file (h @ pre @ b # post) = LOAD_OK" and "b \<noteq> b'"
  shows "classify_file (h @ pre @ b' # post) = LOAD_BAD_CRC"
proof -
  have t: "take 32 (h @ r) = h" for r using assms(1) by simp
  have "header_of_bytes (h @ r) = header_of_bytes h" for r
    using header_of_bytes_take [of "h @ r"] assms(1) by (simp add: t)
  moreover have "crc32 (pre @ b' # post) \<noteq> crc32 (pre @ b # post)"
    using assms(3) by (intro crc32_one_byte) simp
  ultimately show ?thesis
    using assms(1,2) by (simp add: classify_file_def Let_def split: if_splits)
qed

theorem corrupted_byte_rejected_witness:
  "classify_file (take 32 rts_file @ [0] @ 0x2b # [0, 9]) = LOAD_BAD_CRC"
proof (rule corrupted_byte_rejected [where b = "0x0b"])
  show "length (take 32 rts_file) = 32" by (simp add: rts_file_def)
  have "take 32 rts_file @ [0] @ 0x0b # [0, 9] = rts_file" by (simp add: rts_file_def)
  then show "classify_file (take 32 rts_file @ [0] @ 0x0b # [0, 9]) = LOAD_OK"
    by (simp only: rts_file_ok)
qed simp

text \<open>The numbers on the confirmation screen are the header's values: the decimal and
  hexadecimal renderings read back as the number they were made from, and fit the
  eleven-byte buffers.\<close>

theorem screen_numbers_roundtrip:
  "digits_value (decimal v) = unat v \<and> is_decimal (decimal v) \<and> length (decimal v) \<le> 10 \<and>
   take 2 (hex32 v) = ''0x'' \<and> hex_value (drop 2 (hex32 v)) = v \<and> length (hex32 v) = 10"
  using decimal_value [of v] hex32_value [of v] by (simp add: hex32_def)

end
