(* ===== verification/Payload_Pack.thy ===== *)
theory Payload_Pack
  imports Payload_Loader
begin

text \<open>
  The EXWPAY1 packer (\<^verbatim>\<open>src/payload/pack_payload.py\<close>), the producer of the files the
  loader accepts, and the round trip through both. \<^verbatim>\<open>binascii.crc32\<close> is modelled by its
  table-driven definition, which is proved to agree with the loader's bitwise routine.
\<close>

section \<open>CRC-32 by table\<close>

definition crc_table :: "u8 \<Rightarrow> u32" where
  "crc_table b = (crc32_bit ^^ 8) (ucast b)"

definition table_byte :: "u32 \<Rightarrow> u8 \<Rightarrow> u32" where
  "table_byte crc b = crc_table (ucast (crc XOR ucast b)) XOR drop_bit 8 crc"

definition binascii_crc32 :: "bytes \<Rightarrow> u32" where
  "binascii_crc32 data = foldl table_byte 0xffffffff data XOR 0xffffffff"

section \<open>The packer\<close>

record pack_args =
  returns :: bool
  append_blob :: "bytes option"
  append_offset :: "int option"
  append_capacity :: "int option"
  input :: bytes

datatype pack_error =
    Append_options_incomplete
  | Kernel_overlaps_blob
  | Blob_too_big
  | Struct_error            \<comment> \<open>\<^verbatim>\<open>struct.pack\<close>: the size does not fit 32 bits\<close>

definition append_part :: "pack_args \<Rightarrow> pack_error + bytes" where
  "append_part a =
     (case (append_blob a, append_offset a, append_capacity a) of
        (None, None, None) \<Rightarrow> Inr (input a)
      | (Some blob, Some off, Some cap) \<Rightarrow>
          if int (length (input a)) > off then Inl Kernel_overlaps_blob
          else if int (length blob) > cap then Inl Blob_too_big
          else Inr (input a @ replicate (nat (off - int (length (input a)))) 0 @ blob)
      | _ \<Rightarrow> Inl Append_options_incomplete)"

definition pack_header :: "bool \<Rightarrow> bytes \<Rightarrow> payload_header" where
  "pack_header rets payload =
     \<lparr>magic = [0x45, 0x58, 0x57, 0x50, 0x41, 0x59, 0x31, 0], header_size = 32,
      load_address = 0xAC800000, entry_address = 0xAC800000,
      payload_size = of_nat (length payload), payload_crc32 = binascii_crc32 payload,
      flags = 1 OR (if rets then 2 else 0)\<rparr>"

definition pack_payload :: "pack_args \<Rightarrow> pack_error + bytes" where
  "pack_payload a =
     (case append_part a of
        Inl e \<Rightarrow> Inl e
      | Inr payload \<Rightarrow>
          if length payload \<ge> 2 ^ 32 then Inl Struct_error
          else Inr (header_bytes (pack_header (returns a) payload) @ payload))"

section \<open>The two checksums agree\<close>

lemma crc32_bit_pow_xor: "(crc32_bit ^^ n) (a XOR b) = (crc32_bit ^^ n) a XOR (crc32_bit ^^ n) b"
  by (induction n) (simp_all add: crc32_bit_xor)

lemma crc32_bit_pow_shift:
  "(\<And>i. i < n \<Longrightarrow> \<not> bit a i) \<Longrightarrow> (crc32_bit ^^ n) a = drop_bit n a"
proof (induction n)
  case (Suc n)
  then have "(crc32_bit ^^ n) a = drop_bit n a" and "\<not> bit a n" by simp_all
  moreover from this have "crc32_bit (drop_bit n a) = drop_bit (Suc n) a"
    by (simp add: crc32_bit_alt bit_drop_bit_eq)
  ultimately show ?case by simp
qed simp

lemma table_byte_eq: "table_byte c b = crc32_byte c b"
proof -
  define x where "x = c XOR ucast b"
  have split: "x = ucast (ucast x :: u8) XOR push_bit 8 (drop_bit 8 x)"
    by (rule bit_word_eqI) (auto simp: bit_simps)
  have hi: "(crc32_bit ^^ 8) (push_bit 8 (drop_bit 8 x)) = drop_bit 8 x"
  proof -
    have "(crc32_bit ^^ 8) (push_bit 8 (drop_bit 8 x)) = drop_bit 8 (push_bit 8 (drop_bit 8 x))"
      by (rule crc32_bit_pow_shift) (simp add: bit_push_bit_iff)
    also have "\<dots> = drop_bit 8 x"
      by (rule bit_word_eqI) (auto simp: bit_simps dest: bit_imp_le_length)
    finally show ?thesis .
  qed
  have d: "drop_bit 8 x = drop_bit 8 c"
    unfolding x_def by (rule bit_word_eqI) (auto simp: bit_simps dest: bit_imp_le_length)
  have "(crc32_bit ^^ 8) x = crc_table (ucast x) XOR drop_bit 8 x"
    by (subst split) (simp only: crc32_bit_pow_xor hi crc_table_def)
  then show ?thesis
    by (simp add: table_byte_def crc32_byte_def d flip: x_def)
qed

lemma binascii_crc32_eq: "binascii_crc32 = crc32"
proof -
  have "table_byte = crc32_byte" by (intro ext table_byte_eq)
  then have "binascii_crc32 d = crc32 d" for d
    by (simp add: binascii_crc32_def crc32_def crc32_update_def)
  then show ?thesis by (rule ext)
qed

section \<open>Packed files load\<close>

lemma header_bytes_roundtrip:
  assumes "length (magic h) = 8"
  shows "header_of_bytes (header_bytes h @ r) = h"
  using assms by (simp add: header_of_bytes_def header_bytes_def)

lemma pack_header_accepted:
  assumes "0 < length payload" and "length payload \<le> 0x800000"
  shows "header_magic_ok (pack_header r payload)" and "\<not> header_range_bad (pack_header r payload)"
    and "unat (payload_size (pack_header r payload)) = length payload"
proof -
  show sz: "unat (payload_size (pack_header r payload)) = length payload"
    using assms by (simp add: pack_header_def unat_of_nat take_bit_nat_eq_self)
  show "header_magic_ok (pack_header r payload)"
    by (simp add: header_magic_ok_def pack_header_def expected_magic_def loader_consts numeral_eq_Suc)
  let ?z = "of_nat (length payload) :: u32"
  have u: "unat ?z = length payload" using sz by (simp add: pack_header_def)
  have z: "?z \<noteq> 0" "\<not> ?z > 0x800000"
    using u assms by (auto simp: word_less_nat_alt)
  have "unat (0xAC800000 + ?z) = unat (0xAC800000 :: u32) + unat ?z"
    using u assms by (subst unat_add_lem [symmetric]) simp
  then have "\<not> 0xAC800000 + ?z \<le> 0xAC800000"
    using u assms by (simp add: word_le_nat_alt)
  with z show "\<not> header_range_bad (pack_header r payload)"
    by (simp add: header_range_bad_def pack_header_def loader_consts)
qed

lemma pack_classified:
  assumes "pack_payload a = Inr out" and "append_part a = Inr payload"
    and "0 < length payload" and "length payload \<le> 0x800000"
  shows "classify_file out = LOAD_OK" and "drop 32 out = payload"
proof -
  let ?h = "pack_header (returns a) payload"
  have out: "out = header_bytes ?h @ payload"
    using assms by (auto simp: pack_payload_def split: if_splits)
  have m: "length (magic ?h) = 8" by (simp add: pack_header_def)
  then show dr: "drop 32 out = payload" by (simp add: out)
  have "payload_crc32 ?h = crc32 payload" by (simp add: pack_header_def binascii_crc32_eq)
  then show "classify_file out = LOAD_OK"
    using pack_header_accepted [OF assms(3,4), of "returns a"] m dr
    by (simp add: classify_file_def header_bytes_roundtrip out)
qed

section \<open>Properties\<close>

text \<open>C6. Whatever the packer writes for a non-empty payload that fits the P2 pool, the
  loader accepts, and the bytes it places at the load address are the packed payload.\<close>

theorem pack_load_roundtrip:
  assumes "pack_payload a = Inr out" and "append_part a = Inr payload"
    and "0 < length payload" and "length payload \<le> 0x800000"
    and "open_payload sys s f = (d, s1, f1)" and "0 \<le> d" and "pos f1 = 0"
    and "file_contract sys d out pos" and "length (magic (header s1)) = 8"
  shows "\<exists>s' f'. load_payload sys s f = Some (LOAD_OK, s', f') \<and>
    read_mem (memory s') (load_address (header_of_bytes out)) (length payload) = payload"
proof -
  note c = pack_classified [OF assms(1-4)]
  have "length out - 32 = length payload" using arg_cong [OF c(2), of length] by simp
  with load_file_verdict [OF assms(5-9)] c show ?thesis by auto
qed

definition demo_args :: pack_args where
  "demo_args = \<lparr>returns = True, append_blob = Some [1, 2], append_offset = Some 6,
     append_capacity = Some 16, input = [0, 0x0b, 0, 9]\<rparr>"

theorem pack_load_roundtrip_witness:
  "\<exists>s' f' out. pack_payload demo_args = Inr out \<and>
     load_payload (one_file_sys out) zero_loader 0 = Some (LOAD_OK, s', f')"
proof -
  have ap: "append_part demo_args = Inr [0, 0x0b, 0, 9, 0, 0, 1, 2]"
    by (simp add: append_part_def demo_args_def numeral_eq_Suc)
  then obtain out where out: "pack_payload demo_args = Inr out"
    by (simp add: pack_payload_def)
  show ?thesis
    using pack_load_roundtrip [OF out ap _ _ one_file_open [of out zero_loader 0] _ _ one_file_contract] out
    by (auto simp: zero_loader_magic)
qed

end
