(* ===== verification/Databuffer.thy ===== *)
theory Databuffer
  imports Prelude
begin

text \<open>
  The network buffer of libexword (\<^verbatim>\<open>src/tools/libexword/src/databuffer.c\<close>): one allocated
  block split into head room, used data, unassigned space and tail room. A pointer to a
  buffer is \<open>buf_t option\<close> (\<open>None\<close> is \<^verbatim>\<open>NULL\<close>), an interior pointer is an offset into
  the block. The C library's allocator is the argument \<open>alloc\<close>: for a request of \<open>n\<close> bytes
  it fails or gives the indeterminate initial contents of the block. Sizes are natural
  numbers: every size the callers use is far below \<open>2 ^ 31\<close>, where the conversions between
  \<^verbatim>\<open>size_t\<close> and \<^verbatim>\<open>int\<close> in \<^verbatim>\<open>buf_resize\<close> are the identity.
\<close>

section \<open>The allocator\<close>

type_synonym alloc = "nat \<Rightarrow> (nat \<Rightarrow> u8) option"

definition malloc :: "alloc \<Rightarrow> nat \<Rightarrow> bytes option" where
  "malloc alloc n = map_option (\<lambda>g. map g [0..<n]) (alloc n)"

definition realloc :: "alloc \<Rightarrow> bytes \<Rightarrow> nat \<Rightarrow> bytes option" where
  "realloc alloc old n = map_option (\<lambda>b. take n old @ drop (length old) b) (malloc alloc n)"

section \<open>Operations\<close>

record buf_t =
  buffer :: bytes          \<comment> \<open>the block; \<open>[]\<close> also stands for a freed block\<close>
  data :: nat              \<comment> \<open>offset of \<^verbatim>\<open>p->data\<close> in the block\<close>
  head_avail :: nat
  data_avail :: nat
  tail_avail :: nat
  data_size :: nat

text \<open>\<^verbatim>\<open>sizeof(buf_t)\<close> on the 64-bit host.\<close>

definition sizeof_buf_t :: nat where "sizeof_buf_t = 48"

definition buf_new :: "alloc \<Rightarrow> nat \<Rightarrow> buf_t option" where
  "buf_new alloc default_size =
     (case malloc alloc sizeof_buf_t of None \<Rightarrow> None
      | Some _ \<Rightarrow>
        (case malloc alloc default_size of None \<Rightarrow> None
         | Some b \<Rightarrow> Some \<lparr>buffer = b, data = 0, head_avail = 0, data_avail = default_size,
                         tail_avail = 0, data_size = 0\<rparr>))"

fun buf_total_size :: "buf_t option \<Rightarrow> nat" where
  "buf_total_size None = 0"
| "buf_total_size (Some p) = head_avail p + data_avail p + tail_avail p + data_size p"

definition mem_move :: "bytes \<Rightarrow> nat \<Rightarrow> nat \<Rightarrow> nat \<Rightarrow> bytes" where
  "mem_move b dst src n = write_at b dst (take n (drop src b))"

text \<open>The shrinking half of \<^verbatim>\<open>buf_resize\<close>: unassigned space goes first, then tail room,
  head room (moving the data down), and last the data itself.\<close>

definition take_room :: "nat \<Rightarrow> nat \<Rightarrow> nat \<times> nat" where
  "take_room avail itRem = (if itRem > avail then (0, itRem - avail) else (avail - itRem, 0))"

definition buf_shrink :: "buf_t \<Rightarrow> nat \<Rightarrow> buf_t" where
  "buf_shrink p itRem =
     (case take_room (data_avail p) itRem of (d, rem1) \<Rightarrow>
      case take_room (tail_avail p) rem1 of (t, rem2) \<Rightarrow>
      case take_room (head_avail p) rem2 of (h, rem3) \<Rightarrow>
      case take_room (data_size p) rem3 of (n, _) \<Rightarrow>
        p\<lparr>data_avail := d, tail_avail := t, head_avail := h,
          buffer := mem_move (buffer p) h
            (if rem2 > head_avail p then head_avail p else h + rem2) (data_size p),
          data_size := n\<rparr>)"

fun buf_resize :: "alloc \<Rightarrow> buf_t option \<Rightarrow> nat \<Rightarrow> buf_t option" where
  "buf_resize alloc None new_size = None"
| "buf_resize alloc (Some p) new_size =
     (let bSize = buf_total_size (Some p);
          p1 = (if new_size < bSize then buf_shrink p (bSize - new_size) else p);
          grow = (if new_size < bSize then 0 else new_size - bSize)
      in if new_size = 0
         then Some (p1\<lparr>buffer := [], data := 0, head_avail := 0, data_avail := 0,
                       tail_avail := 0, data_size := 0\<rparr>)
         else case realloc alloc (buffer p1) new_size of
                None \<Rightarrow> Some p1
              | Some tmp \<Rightarrow> Some (p1\<lparr>data_avail := data_avail p1 + grow, buffer := tmp,
                                    data := head_avail p1\<rparr>))"

fun buf_reuse :: "buf_t option \<Rightarrow> buf_t option" where
  "buf_reuse None = None"
| "buf_reuse (Some p) =
     Some (p\<lparr>data_avail := buf_total_size (Some p), head_avail := 0, tail_avail := 0,
            data_size := 0, data := 0\<rparr>)"

text \<open>The two reservations return the offset of the reserved bytes, \<open>None\<close> for \<^verbatim>\<open>NULL\<close>.\<close>

definition grow_for :: "alloc \<Rightarrow> buf_t \<Rightarrow> nat \<Rightarrow> buf_t" where
  "grow_for alloc p new_size = the (buf_resize alloc (Some p) new_size)"

fun buf_reserve_begin :: "alloc \<Rightarrow> buf_t option \<Rightarrow> nat \<Rightarrow> nat option \<times> buf_t option" where
  "buf_reserve_begin alloc None n = (None, None)"
| "buf_reserve_begin alloc (Some p) n =
     (if head_avail p \<ge> n then
        (Some (head_avail p - n),
         Some (p\<lparr>head_avail := head_avail p - n, data_size := data_size p + n,
                 data := head_avail p - n\<rparr>))
      else
        let p1 = (if n > head_avail p + data_avail p
                  then grow_for alloc p (buf_total_size (Some p) + n - head_avail p - data_avail p)
                  else p\<lparr>data_avail := data_avail p - (n - head_avail p)\<rparr>);
            p2 = (if n > head_avail p + data_avail p then p1\<lparr>data_avail := 0\<rparr> else p1)
        in if n > head_avail p + data_avail p \<and> data_avail p = data_avail p1 then (None, Some p1)
           else (Some 0,
                 Some (p2\<lparr>buffer := mem_move (buffer p2) n (head_avail p2) (data_size p2),
                          head_avail := 0, data := 0, data_size := data_size p2 + n\<rparr>)))"

fun buf_reserve_end :: "alloc \<Rightarrow> buf_t option \<Rightarrow> nat \<Rightarrow> nat option \<times> buf_t option" where
  "buf_reserve_end alloc None n = (None, None)"
| "buf_reserve_end alloc (Some p) n =
     (let big = (n > tail_avail p + data_avail p);
          p1 = (if tail_avail p \<ge> n then p\<lparr>tail_avail := tail_avail p - n\<rparr>
                else if big
                then grow_for alloc p (buf_total_size (Some p) + n - tail_avail p - data_avail p)
                else p\<lparr>data_avail := data_avail p - (n - tail_avail p), tail_avail := 0\<rparr>)
      in if \<not> tail_avail p \<ge> n \<and> big \<and> data_avail p = data_avail p1 then (None, Some p1)
         else let p2 = (if \<not> tail_avail p \<ge> n \<and> big
                        then p1\<lparr>data_avail := 0, tail_avail := 0\<rparr> else p1)
              in (Some (head_avail p2 + data_size p2),
                  Some (p2\<lparr>data_size := data_size p2 + n, data := head_avail p2\<rparr>)))"

text \<open>The insertions abort (\<open>None\<close>) when the assertion on the reserved pointer fails.\<close>

definition store_reserved :: "nat option \<times> buf_t option \<Rightarrow> bytes \<Rightarrow> buf_t option" where
  "store_reserved r xs =
     (case r of (Some dest, Some p) \<Rightarrow> Some (p\<lparr>buffer := write_at (buffer p) dest xs\<rparr>)
      | _ \<Rightarrow> None)"

definition buf_insert_begin :: "alloc \<Rightarrow> buf_t option \<Rightarrow> bytes \<Rightarrow> buf_t option" where
  "buf_insert_begin alloc p xs = store_reserved (buf_reserve_begin alloc p (length xs)) xs"

definition buf_insert_end :: "alloc \<Rightarrow> buf_t option \<Rightarrow> bytes \<Rightarrow> buf_t option" where
  "buf_insert_end alloc p xs = store_reserved (buf_reserve_end alloc p (length xs)) xs"

fun buf_remove_begin :: "buf_t option \<Rightarrow> nat \<Rightarrow> buf_t option" where
  "buf_remove_begin None n = None"
| "buf_remove_begin (Some p) n =
     (let p1 = (if n < data_size p
                then p\<lparr>head_avail := head_avail p + n, data_size := data_size p - n\<rparr>
                else p\<lparr>head_avail := head_avail p + data_size p, data_size := 0\<rparr>)
      in Some (p1\<lparr>data := head_avail p1\<rparr>))"

fun buf_remove_end :: "buf_t option \<Rightarrow> nat \<Rightarrow> buf_t option" where
  "buf_remove_end None n = None"
| "buf_remove_end (Some p) n =
     Some (if n < data_size p
           then p\<lparr>tail_avail := tail_avail p + n, data_size := data_size p - n\<rparr>
           else p\<lparr>tail_avail := tail_avail p + data_size p, data_size := 0\<rparr>)"

section \<open>Invariant and abstraction\<close>

text \<open>The four areas partition the block and \<^verbatim>\<open>data\<close> points behind the head room.\<close>

definition buf_ok :: "buf_t \<Rightarrow> bool" where
  "buf_ok p \<longleftrightarrow> length (buffer p) = head_avail p + data_avail p + tail_avail p + data_size p \<and>
     data p = head_avail p"

definition contents :: "buf_t \<Rightarrow> bytes" where
  "contents p = take (data_size p) (drop (head_avail p) (buffer p))"

lemma length_contents [simp]: "buf_ok p \<Longrightarrow> length (contents p) = data_size p"
  by (simp add: buf_ok_def contents_def)

lemma length_malloc: "malloc alloc n = Some b \<Longrightarrow> length b = n"
  by (auto simp: malloc_def)

lemma realloc_Some:
  assumes "realloc alloc old n = Some b"
  shows "length b = n" and "take (min n (length old)) b = take n old"
  using assms length_malloc [of alloc n]
  by (auto simp: realloc_def min_def)

lemma buf_new_ok: "buf_new alloc n = Some p \<Longrightarrow> buf_ok p \<and> contents p = [] \<and> data_avail p = n"
  by (auto simp: buf_new_def buf_ok_def contents_def split: option.splits dest: length_malloc)

lemma buf_reuse_ok: "buf_ok p \<Longrightarrow> buf_reuse (Some p) = Some q \<Longrightarrow> buf_ok q \<and> contents q = []"
  by (auto simp: buf_ok_def contents_def)

lemma buf_remove_begin_ok:
  "buf_ok p \<Longrightarrow> buf_remove_begin (Some p) n = Some q \<Longrightarrow> buf_ok q \<and> contents q = drop n (contents p)"
  by (auto simp: buf_ok_def contents_def Let_def drop_take min_def add.commute split: if_splits)

lemma buf_remove_end_ok:
  "buf_ok p \<Longrightarrow> buf_remove_end (Some p) n = Some q \<Longrightarrow>
     buf_ok q \<and> contents q = take (length (contents p) - n) (contents p)"
  by (auto simp: buf_ok_def contents_def split: if_splits)

text \<open>Growing keeps head, tail and data, and adds the difference to the unassigned space.\<close>

lemma grow_for_cases:
  assumes ok: "buf_ok p" and gr: "buf_total_size (Some p) < n"
  shows "grow_for alloc p n = p \<or>
    (buf_ok (grow_for alloc p n) \<and> contents (grow_for alloc p n) = contents p \<and>
     head_avail (grow_for alloc p n) = head_avail p \<and> tail_avail (grow_for alloc p n) = tail_avail p \<and>
     data_size (grow_for alloc p n) = data_size p \<and>
     data_avail (grow_for alloc p n) = data_avail p + (n - buf_total_size (Some p)))"
proof (cases "realloc alloc (buffer p) n")
  case None
  with gr show ?thesis by (auto simp: grow_for_def Let_def)
next
  case (Some b)
  from realloc_Some [OF Some] ok gr have b: "length b = n" "take (length (buffer p)) b = buffer p"
    by (auto simp: buf_ok_def min_def)
  have "take (data_size p) (drop (head_avail p) b) =
      take (data_size p) (drop (head_avail p) (take (length (buffer p)) b))"
    using ok by (simp add: buf_ok_def drop_take min_def)
  with b ok gr Some show ?thesis
    by (auto simp: grow_for_def Let_def buf_ok_def contents_def)
qed

section \<open>Reservations and insertions\<close>

lemma buf_reserve_end_ok:
  assumes ok: "buf_ok p" and r: "buf_reserve_end alloc (Some p) n = (Some d, Some q)"
  shows "buf_ok q \<and> d = head_avail q + data_size p \<and> data_size q = data_size p + n \<and>
    take (data_size p) (contents q) = contents p"
proof (cases "n \<le> tail_avail p + data_avail p")
  case True
  with ok r show ?thesis
    by (auto simp: Let_def buf_ok_def contents_def take_drop min_def split: if_splits)
next
  case False
  let ?n = "buf_total_size (Some p) + n - tail_avail p - data_avail p"
  from False have "buf_total_size (Some p) < ?n" by simp
  from grow_for_cases [OF ok this, of alloc] r False ok show ?thesis
    by (auto simp: Let_def buf_ok_def contents_def take_drop min_def split: if_splits)
qed

lemma mem_move_drop:
  assumes "n + k \<le> length b" and "h + k \<le> length b"
  shows "take k (drop n (mem_move b n h k)) = take k (drop h b)"
proof -
  have "length (take k (drop h b)) = k" using assms by simp
  then show ?thesis
    using assms read_write_at [of n b "take k (drop h b)"] by (simp add: mem_move_def)
qed

lemma buf_reserve_begin_ok:
  assumes ok: "buf_ok p" and r: "buf_reserve_begin alloc (Some p) n = (Some d, Some q)"
  shows "buf_ok q \<and> d = head_avail q \<and> data_size q = n + data_size p \<and>
    drop n (contents q) = contents p"
proof -
  consider "n \<le> head_avail p" | "head_avail p < n" "n \<le> head_avail p + data_avail p"
    | "head_avail p + data_avail p < n" by linarith
  then show ?thesis
  proof cases
    case 1
    with ok r show ?thesis by (auto simp: buf_ok_def contents_def drop_take)
  next
    case 2
    with ok r mem_move_drop [of n "data_size p" "buffer p" "head_avail p"] show ?thesis
      by (auto simp: Let_def buf_ok_def contents_def drop_take mem_move_def)
  next
    case 3
    let ?n = "buf_total_size (Some p) + n - head_avail p - data_avail p"
    let ?g = "grow_for alloc p ?n"
    from 3 have "buf_total_size (Some p) < ?n" by simp
    define g where "g = ?g"
    from 3 r have ne: "data_avail p \<noteq> data_avail g" and d: "d = 0"
      and q: "q = g\<lparr>data_avail := 0, buffer := mem_move (buffer g) n (head_avail g) (data_size g),
         head_avail := 0, data := 0, data_size := data_size g + n\<rparr>"
      by (simp_all add: Let_def g_def split: if_splits)
    from grow_for_cases [OF ok \<open>buf_total_size (Some p) < ?n\<close>, of alloc, folded g_def] ne
    have g: "buf_ok g" "contents g = contents p" "head_avail g = head_avail p"
      "tail_avail g = tail_avail p" "data_size g = data_size p"
      "data_avail g = data_avail p + (?n - buf_total_size (Some p))"
      by auto
    from g 3 have room: "n + data_size g \<le> length (buffer g)" "head_avail g + data_size g \<le> length (buffer g)"
      and tot: "length (buffer g) = n + tail_avail g + data_size g"
      by (simp_all add: buf_ok_def)
    from room have "length (mem_move (buffer g) n (head_avail g) (data_size g)) = length (buffer g)"
      by (simp add: mem_move_def)
    moreover have "take (data_size g) (drop n (mem_move (buffer g) n (head_avail g) (data_size g))) = contents g"
      using mem_move_drop [OF room] by (simp add: contents_def)
    moreover have "contents q = take (data_size g + n) (mem_move (buffer g) n (head_avail g) (data_size g))"
      by (simp add: q contents_def)
    ultimately show ?thesis
      using g d tot by (simp add: q buf_ok_def drop_take)
  qed
qed

lemma contents_write:
  assumes "buf_ok q" and "k + length xs \<le> data_size q"
  shows "contents (q\<lparr>buffer := write_at (buffer q) (head_avail q + k) xs\<rparr>) =
    take k (contents q) @ xs @ drop (k + length xs) (contents q)"
proof -
  define A where "A = take (head_avail q) (buffer q)"
  define B where "B = drop (head_avail q + data_size q) (buffer q)"
  have "buffer q = A @ contents q @ B"
    by (simp add: A_def B_def contents_def flip: drop_drop)
       (metis append_take_drop_id drop_drop add.commute)
  moreover have "length A = head_avail q" using assms(1) by (simp add: A_def buf_ok_def)
  moreover have "length (contents q) = data_size q" using assms(1) by simp
  moreover have "write_at (A @ contents q @ B) (length A + k) xs = A @ write_at (contents q) k xs @ B"
    using assms(2) calculation(3) by (simp add: write_at_def)
  moreover have "length (write_at (contents q) k xs) = data_size q"
    using assms(2) calculation(3) by simp
  ultimately have "contents (q\<lparr>buffer := write_at (buffer q) (head_avail q + k) xs\<rparr>) =
      write_at (contents q) k xs"
    by (simp add: contents_def [of "_\<lparr>buffer := _\<rparr>"])
  then show ?thesis by (simp add: write_at_def)
qed

lemma buf_ok_write:
  "buf_ok q \<Longrightarrow> i + length xs \<le> length (buffer q) \<Longrightarrow> buf_ok (q\<lparr>buffer := write_at (buffer q) i xs\<rparr>)"
  by (simp add: buf_ok_def)

lemma buf_insert_end_ok:
  assumes ok: "buf_ok p" and r: "buf_insert_end alloc (Some p) xs = Some q"
  shows "buf_ok q \<and> contents q = contents p @ xs"
proof -
  obtain d q0 where rs: "buf_reserve_end alloc (Some p) (length xs) = (Some d, Some q0)"
    and q: "q = q0\<lparr>buffer := write_at (buffer q0) d xs\<rparr>"
    using r by (auto simp: buf_insert_end_def store_reserved_def split: prod.splits option.splits)
  note ro = buf_reserve_end_ok [OF ok rs]
  then have "d + length xs \<le> length (buffer q0)" by (simp add: buf_ok_def)
  with ro contents_write [of q0 "data_size p" xs] buf_ok_write [of q0 d xs] show ?thesis
    by (simp add: q)
qed

lemma buf_insert_begin_ok:
  assumes ok: "buf_ok p" and r: "buf_insert_begin alloc (Some p) xs = Some q"
  shows "buf_ok q \<and> contents q = xs @ contents p"
proof -
  obtain d q0 where rs: "buf_reserve_begin alloc (Some p) (length xs) = (Some d, Some q0)"
    and q: "q = q0\<lparr>buffer := write_at (buffer q0) d xs\<rparr>"
    using r by (auto simp: buf_insert_begin_def store_reserved_def split: prod.splits option.splits)
  note ro = buf_reserve_begin_ok [OF ok rs]
  then have "d + length xs \<le> length (buffer q0)" by (simp add: buf_ok_def)
  with ro contents_write [of q0 0 xs] buf_ok_write [of q0 d xs] show ?thesis
    by (simp add: q)
qed

text \<open>An insertion that fits the room already allocated cannot fail.\<close>

lemma buf_insert_end_fits:
  assumes "length xs \<le> tail_avail p + data_avail p"
  shows "\<exists>q. buf_insert_end alloc (Some p) xs = Some q"
  using assms by (auto simp: buf_insert_end_def store_reserved_def Let_def)

lemma buf_insert_begin_fits:
  assumes "length xs \<le> head_avail p + data_avail p"
  shows "\<exists>q. buf_insert_begin alloc (Some p) xs = Some q"
  using assms by (auto simp: buf_insert_begin_def store_reserved_def Let_def)

lemma grow_for_succeeds:
  assumes "alloc n \<noteq> None" and "buf_total_size (Some p) < n"
  shows "data_avail (grow_for alloc p n) = data_avail p + (n - buf_total_size (Some p))"
  using assms by (auto simp: grow_for_def Let_def realloc_def malloc_def)

lemma buf_insert_end_alloc:
  assumes "\<And>n. alloc n \<noteq> None"
  shows "\<exists>q. buf_insert_end alloc (Some p) xs = Some q"
proof (cases "length xs \<le> tail_avail p + data_avail p")
  case False
  let ?n = "buf_total_size (Some p) + length xs - tail_avail p - data_avail p"
  have "buf_total_size (Some p) < ?n" using False by simp
  from grow_for_succeeds [OF assms this] False show ?thesis
    by (auto simp: buf_insert_end_def store_reserved_def Let_def)
qed (rule buf_insert_end_fits)

lemma buf_insert_begin_alloc:
  assumes "\<And>n. alloc n \<noteq> None"
  shows "\<exists>q. buf_insert_begin alloc (Some p) xs = Some q"
proof (cases "length xs \<le> head_avail p + data_avail p")
  case False
  let ?n = "buf_total_size (Some p) + length xs - head_avail p - data_avail p"
  have "buf_total_size (Some p) < ?n" using False by simp
  from grow_for_succeeds [OF assms this] False show ?thesis
    by (auto simp: buf_insert_begin_def store_reserved_def Let_def)
qed (rule buf_insert_begin_fits)

section \<open>Shrinking\<close>

text \<open>\<^verbatim>\<open>buf_resize\<close> to fewer bytes gives up free space before data, and data only from
  its end.\<close>

lemma buf_shrink_cases:
  shows "r \<le> data_avail p \<Longrightarrow>
      buf_shrink p r = p\<lparr>data_avail := data_avail p - r,
        buffer := mem_move (buffer p) (head_avail p) (head_avail p) (data_size p)\<rparr>"
    and "data_avail p < r \<Longrightarrow> r \<le> data_avail p + tail_avail p \<Longrightarrow>
      buf_shrink p r = p\<lparr>data_avail := 0, tail_avail := tail_avail p - (r - data_avail p),
        buffer := mem_move (buffer p) (head_avail p) (head_avail p) (data_size p)\<rparr>"
    and "data_avail p + tail_avail p < r \<Longrightarrow> r \<le> data_avail p + tail_avail p + head_avail p \<Longrightarrow>
      buf_shrink p r = p\<lparr>data_avail := 0, tail_avail := 0,
        head_avail := head_avail p - (r - data_avail p - tail_avail p),
        buffer := mem_move (buffer p) (head_avail p - (r - data_avail p - tail_avail p))
          (head_avail p) (data_size p)\<rparr>"
    and "data_avail p + tail_avail p + head_avail p < r \<Longrightarrow> r \<le> buf_total_size (Some p) \<Longrightarrow>
      buf_shrink p r = p\<lparr>data_avail := 0, tail_avail := 0, head_avail := 0,
        buffer := mem_move (buffer p) 0 (head_avail p) (data_size p),
        data_size := buf_total_size (Some p) - r\<rparr>"
  by (simp_all add: buf_shrink_def take_room_def)

lemma buf_shrink_ok:
  assumes ok: "buf_ok p" and le: "r \<le> buf_total_size (Some p)"
  shows "buf_total_size (Some (buf_shrink p r)) = buf_total_size (Some p) - r \<and>
     contents (buf_shrink p r) = take (buf_total_size (Some p) - r) (contents p)"
proof -
  have len: "length (contents p) = data_size p" using ok by simp
  have room: "head_avail p + data_size p \<le> length (buffer p)" using ok by (simp add: buf_ok_def)
  consider "r \<le> data_avail p"
    | "data_avail p < r" "r \<le> data_avail p + tail_avail p"
    | "data_avail p + tail_avail p < r" "r \<le> data_avail p + tail_avail p + head_avail p"
    | "data_avail p + tail_avail p + head_avail p < r" by linarith
  then show ?thesis
  proof cases
    case 1
    have "take (buf_total_size (Some p) - r) (contents p) = contents p" using 1 len by simp
    then show ?thesis
      using 1 mem_move_drop [OF room room] by (simp add: buf_shrink_cases contents_def)
  next
    case 2
    have "take (buf_total_size (Some p) - r) (contents p) = contents p" using 2 len by simp
    then show ?thesis
      using 2 mem_move_drop [OF room room] by (simp add: buf_shrink_cases contents_def)
  next
    case 3
    let ?h = "head_avail p - (r - data_avail p - tail_avail p)"
    have "take (buf_total_size (Some p) - r) (contents p) = contents p" using 3 len by simp
    moreover have "?h + data_size p \<le> length (buffer p)" using room by linarith
    ultimately show ?thesis
      using 3 mem_move_drop [OF _ room, of ?h] by (simp add: buf_shrink_cases contents_def)
  next
    case 4
    let ?k = "buf_total_size (Some p) - r"
    from 4 have k: "?k \<le> data_size p" by simp
    have z: "0 + data_size p \<le> length (buffer p)" using room by simp
    have "take ?k (mem_move (buffer p) 0 (head_avail p) (data_size p)) =
        take ?k (take (data_size p) (drop 0 (mem_move (buffer p) 0 (head_avail p) (data_size p))))"
      using k by simp
    also have "\<dots> = take ?k (contents p)"
      by (simp only: mem_move_drop [OF z room] contents_def)
    finally show ?thesis
      using buf_shrink_cases(4) [OF 4 le] by (simp add: contents_def)
  qed
qed

lemma length_buf_shrink: "buf_ok p \<Longrightarrow> length (buffer (buf_shrink p r)) = length (buffer p)"
  by (auto simp: buf_shrink_def take_room_def mem_move_def buf_ok_def)

lemma take_drop_prefix:
  "take n b = take n b' \<Longrightarrow> h + k \<le> n \<Longrightarrow> take k (drop h b) = take k (drop h b')"
  by (metis (no_types) drop_take le_add_diff_inverse min.absorb1 take_take add_le_imp_le_diff
      add.commute nat_le_iff_add)

lemma buf_resize_ok:
  assumes ok: "buf_ok p" and al: "alloc n \<noteq> None"
    and r: "buf_resize alloc (Some p) n = Some q"
  shows "buf_ok q \<and> contents q = take n (contents p) \<and> length (buffer q) = n"
proof -
  let ?T = "buf_total_size (Some p)"
  have len: "length (contents p) = data_size p" using ok by simp
  consider "n = 0" | "0 < n" "?T \<le> n" | "0 < n" "n < ?T" by linarith
  then show ?thesis
  proof cases
    case 1
    with r show ?thesis by (auto simp: Let_def buf_ok_def contents_def)
  next
    case 2
    with al obtain b where b: "realloc alloc (buffer p) n = Some b"
      by (auto simp: realloc_def malloc_def)
    have "length (buffer p) \<le> n" using ok 2 by (simp add: buf_ok_def)
    with realloc_Some [OF b] have bl: "length b = n"
      "take (length (buffer p)) b = take (length (buffer p)) (buffer p)"
      by (simp_all add: min_absorb2)
    have "contents p = take (data_size p) (drop (head_avail p) b)"
      using take_drop_prefix [OF bl(2), of "head_avail p" "data_size p"] ok
      by (simp add: contents_def buf_ok_def)
    with 2 b bl r ok len show ?thesis by (auto simp: Let_def buf_ok_def contents_def)
  next
    case 3
    define g where "g = buf_shrink p (?T - n)"
    have g: "buf_total_size (Some g) = n" "contents g = take n (contents p)"
      using buf_shrink_ok [OF ok, of "?T - n"] 3 by (auto simp: g_def)
    have lg: "n \<le> length (buffer g)"
      using length_buf_shrink [OF ok] 3 ok by (simp add: g_def buf_ok_def)
    from al obtain b where b: "realloc alloc (buffer g) n = Some b"
      by (auto simp: realloc_def malloc_def)
    from realloc_Some [OF b] lg have bl: "length b = n" "take n b = take n (buffer g)"
      by (auto simp: min_def)
    have q: "q = g\<lparr>data_avail := data_avail g + 0, buffer := b, data := head_avail g\<rparr>"
      using r 3 b by (simp add: Let_def g_def)
    have "contents g = take (data_size g) (drop (head_avail g) b)"
      using take_drop_prefix [OF bl(2), of "head_avail g" "data_size g"] g(1)
      by (simp add: contents_def)
    with g bl show ?thesis by (simp add: q buf_ok_def contents_def)
  qed
qed

section \<open>The byte deque interface\<close>

datatype buf_op =
    Insert_begin bytes
  | Insert_end bytes
  | Remove_begin nat
  | Remove_end nat
  | Reuse

text \<open>What each operation does to the byte string the buffer stands for.\<close>

fun buf_spec :: "bytes \<Rightarrow> buf_op \<Rightarrow> bytes" where
  "buf_spec bs (Insert_begin xs) = xs @ bs"
| "buf_spec bs (Insert_end xs) = bs @ xs"
| "buf_spec bs (Remove_begin n) = drop n bs"
| "buf_spec bs (Remove_end n) = take (length bs - n) bs"
| "buf_spec bs Reuse = []"

fun run_ops :: "('b \<Rightarrow> buf_op \<Rightarrow> 'b option) \<Rightarrow> 'b \<Rightarrow> buf_op list \<Rightarrow> 'b option" where
  "run_ops app b [] = Some b"
| "run_ops app b (x # xs) = (case app b x of None \<Rightarrow> None | Some b' \<Rightarrow> run_ops app b' xs)"

fun buf_apply :: "alloc \<Rightarrow> buf_t \<Rightarrow> buf_op \<Rightarrow> buf_t option" where
  "buf_apply alloc p (Insert_begin xs) = buf_insert_begin alloc (Some p) xs"
| "buf_apply alloc p (Insert_end xs) = buf_insert_end alloc (Some p) xs"
| "buf_apply alloc p (Remove_begin n) = buf_remove_begin (Some p) n"
| "buf_apply alloc p (Remove_end n) = buf_remove_end (Some p) n"
| "buf_apply alloc p Reuse = buf_reuse (Some p)"

locale byte_deque =
  fixes ok :: "'b \<Rightarrow> bool"
    and bytes_of :: "'b \<Rightarrow> bytes"
    and app :: "'b \<Rightarrow> buf_op \<Rightarrow> 'b option"
  assumes app_ok: "ok b \<Longrightarrow> app b x = Some b' \<Longrightarrow> ok b'"
    and app_bytes: "ok b \<Longrightarrow> app b x = Some b' \<Longrightarrow> bytes_of b' = buf_spec (bytes_of b) x"
begin

lemma run_refines:
  "ok b \<Longrightarrow> run_ops app b xs = Some b' \<Longrightarrow> ok b' \<and> bytes_of b' = foldl buf_spec (bytes_of b) xs"
proof (induction xs arbitrary: b)
  case (Cons x xs)
  then obtain b1 where "app b x = Some b1" "run_ops app b1 xs = Some b'"
    by (auto split: option.splits)
  with Cons app_ok app_bytes show ?case by fastforce
qed simp

end

text \<open>A deque whose insertions cannot fail.\<close>

locale byte_deque_total = byte_deque +
  assumes app_total: "app b x \<noteq> None"
begin

lemma run_total: "\<exists>b'. run_ops app b xs = Some b'"
proof (induction xs arbitrary: b)
  case (Cons x xs)
  then show ?case using app_total [of b x] by auto
qed simp

end

lemma buf_apply_ok:
  "buf_ok p \<Longrightarrow> buf_apply alloc p x = Some q \<Longrightarrow> buf_ok q \<and> contents q = buf_spec (contents p) x"
  using buf_insert_begin_ok [of p alloc _ q] buf_insert_end_ok [of p alloc _ q]
    buf_remove_begin_ok [of p _ q] buf_remove_end_ok [of p _ q] buf_reuse_ok [of p q]
  by (cases x) (simp_all del: buf_remove_begin.simps buf_remove_end.simps buf_reuse.simps)

interpretation db: byte_deque buf_ok contents "buf_apply alloc"
  for alloc
  by unfold_locales (use buf_apply_ok in blast)+

text \<open>An allocator that never refuses, with the block contents \<open>g\<close>.\<close>

definition always :: "(nat \<Rightarrow> u8) \<Rightarrow> alloc" where
  "always g n = Some g"

interpretation dbt: byte_deque_total buf_ok contents "buf_apply (always g)"
  for g
proof unfold_locales
  fix p x
  have a: "\<And>n. always g n \<noteq> None" by (simp add: always_def)
  show "buf_apply (always g) p x \<noteq> None"
    using buf_insert_begin_alloc [of "always g" p] buf_insert_end_alloc [of "always g" p] a
    by (cases x) (simp_all add: Let_def)
qed

section \<open>Properties\<close>



text \<open>With an allocator that does not refuse, no operation fails: the assertions in the
  insertions never fire.\<close>

theorem buf_run_total: "\<exists>q. run_ops (buf_apply (always g)) p xs = Some q"
  by (rule dbt.run_total)

text \<open>Resizing keeps the data: growing keeps all of it, shrinking keeps the longest
  prefix that fits, and the block has exactly the requested size afterwards.\<close>

theorem buf_resize_keeps_prefix:
  assumes "buf_ok p" and "alloc n \<noteq> None" and "buf_resize alloc (Some p) n = Some q"
  shows "buf_ok q \<and> contents q = take n (contents p) \<and> length (buffer q) = n"
  using assms by (rule buf_resize_ok)

theorem buf_resize_keeps_prefix_witness:
  "contents (the (buf_resize (always (\<lambda>_. 0)) (Some \<lparr>buffer = [7, 1, 2, 3, 5, 6], data = 1,
     head_avail = 1, data_avail = 1, tail_avail = 1, data_size = 3\<rparr>) 2)) = [1, 2]"
proof -
  let ?p = "\<lparr>buffer = [7, 1, 2, 3, 5, 6], data = 1, head_avail = 1, data_avail = 1, tail_avail = 1,
    data_size = 3\<rparr>"
  have "buf_ok ?p" "contents ?p = [1, 2, 3]" by (simp_all add: buf_ok_def contents_def eval_nat_numeral)
  moreover obtain q where "buf_resize (always (\<lambda>_. 0)) (Some ?p) 2 = Some q"
    by (cases "buf_resize (always (\<lambda>_. 0)) (Some ?p) 2") (auto simp: Let_def split: option.splits)
  ultimately show ?thesis
    using buf_resize_keeps_prefix [of ?p "always (\<lambda>_. 0)" 2 q] by (simp add: always_def)
qed

end
