(* ===== verification/Obex.thy ===== *)
theory Obex
  imports Databuffer
begin

text \<open>
  The OBEX transport of libexword (\<^verbatim>\<open>src/tools/libexword/src/obex.c\<close> and \<^verbatim>\<open>obex.h\<close>): header
  queues, packet assembly with body fragmentation, the sequence byte, the response parser and
  the request loop. The USB host library is a parameter: a record of the two bulk transfers on
  a world of any type. Buffers are those of theory \<open>Databuffer\<close>, and an access outside a
  buffer's block ends the run with \<open>Abort\<close>. Queues are the lists the \<^verbatim>\<open>list.h\<close> links form;
  freeing a buffer or an element is dropping it. The debug prints are left out, and so are the
  fields no function reads (\<^verbatim>\<open>offset\<close>, \<^verbatim>\<open>time\<close>, \<^verbatim>\<open>continue_received\<close>, \<^verbatim>\<open>seq_check\<close>).
\<close>

section \<open>Constants and data\<close>

definition OBEX_OBJECT_ALLOCATIONTRESHOLD :: nat where "OBEX_OBJECT_ALLOCATIONTRESHOLD = 10240"
definition OBEX_VERSION :: u8 where "OBEX_VERSION = 0x11"
definition OBEX_FL_FIT_ONE_PACKET :: u32 where "OBEX_FL_FIT_ONE_PACKET = 1"

definition OBEX_HDR_TYPE_UNICODE :: u8 where "OBEX_HDR_TYPE_UNICODE = 0x00"
definition OBEX_HDR_TYPE_BYTES :: u8 where "OBEX_HDR_TYPE_BYTES = 0x40"
definition OBEX_HDR_TYPE_UINT8 :: u8 where "OBEX_HDR_TYPE_UINT8 = 0x80"
definition OBEX_HDR_TYPE_UINT32 :: u8 where "OBEX_HDR_TYPE_UINT32 = 0xC0"
definition OBEX_HDR_TYPE_MASK :: u8 where "OBEX_HDR_TYPE_MASK = 0xC0"

definition OBEX_HDR_EMPTY :: u8 where "OBEX_HDR_EMPTY = 0x00"
definition OBEX_HDR_NAME :: u8 where "OBEX_HDR_NAME = 0x01"
definition OBEX_HDR_LENGTH :: u8 where "OBEX_HDR_LENGTH = 0xC3"
definition OBEX_HDR_BODY :: u8 where "OBEX_HDR_BODY = 0x48"
definition OBEX_HDR_BODY_END :: u8 where "OBEX_HDR_BODY_END = 0x49"
definition OBEX_HDR_CRYPTKEY :: u8 where "OBEX_HDR_CRYPTKEY = 0x71"
definition OBEX_HDR_AUTHINFO :: u8 where "OBEX_HDR_AUTHINFO = 0x70"

definition OBEX_CMD_CONNECT :: u8 where "OBEX_CMD_CONNECT = 0x00"
definition OBEX_CMD_DISCONNECT :: u8 where "OBEX_CMD_DISCONNECT = 0x01"
definition OBEX_CMD_PUT :: u8 where "OBEX_CMD_PUT = 0x02"
definition OBEX_CMD_GET :: u8 where "OBEX_CMD_GET = 0x03"
definition OBEX_CMD_SETPATH :: u8 where "OBEX_CMD_SETPATH = 0x05"
definition OBEX_FINAL :: u8 where "OBEX_FINAL = 0x80"

definition OBEX_RSP_CONTINUE :: int where "OBEX_RSP_CONTINUE = 0x10"
definition OBEX_RSP_SUCCESS :: u8 where "OBEX_RSP_SUCCESS = 0x20"

definition OBEX_DEFAULT_MTU :: u16 where "OBEX_DEFAULT_MTU = 4096"
definition OBEX_MAXIMUM_MTU :: u16 where "OBEX_MAXIMUM_MTU = 65535"

lemmas obex_header_ids =
  OBEX_HDR_TYPE_UNICODE_def OBEX_HDR_TYPE_BYTES_def OBEX_HDR_TYPE_UINT8_def
  OBEX_HDR_TYPE_UINT32_def OBEX_HDR_TYPE_MASK_def OBEX_HDR_EMPTY_def OBEX_HDR_NAME_def
  OBEX_HDR_LENGTH_def OBEX_HDR_BODY_def OBEX_HDR_BODY_END_def OBEX_HDR_CRYPTKEY_def
  OBEX_HDR_AUTHINFO_def

record obex_header_element =
  h_buf :: "buf_t option"
  h_hi :: u8
  h_flags :: u32
  h_length :: u32
  body_touched :: bool

text \<open>\<^verbatim>\<open>sizeof(struct obex_header_element)\<close> and \<^verbatim>\<open>sizeof(obex_object_t)\<close> on the 64-bit host.\<close>

definition sizeof_element :: nat where "sizeof_element = 48"
definition sizeof_object :: nat where "sizeof_object = 120"

record obex_object =
  tx_headerq :: "obex_header_element list"
  rx_headerq :: "obex_header_element list"
  rx_headerq_rm :: "obex_header_element list"
  rx_body :: "buf_t option"
  tx_nonhdr_data :: "buf_t option"
  rx_nonhdr_data :: "buf_t option"
  o_cmd :: u8
  opcode :: u8
  lastopcode :: u8
  headeroffset :: nat
  hinted_body_len :: int
  totallen :: int

record 'w obex =
  usb :: 'w                  \<comment> \<open>the device handle: the host library's and the device's state\<close>
  version :: u8
  obex_locale :: u8
  mtu_rx :: u16
  mtu_tx :: u16
  mtu_tx_max :: u16
  tx_msg :: "buf_t option"
  rx_msg :: "buf_t option"
  seq_num :: u8
  obex_debug :: int          \<comment> \<open>how much is written to the error stream\<close>

text \<open>The value union of a header, tagged with the member the caller has set.\<close>

datatype obex_headerdata = Bq4 u32 | Bq1 u8 | Bs bytes

text \<open>\<^verbatim>\<open>libusb_bulk_transfer\<close> on the read and on the write endpoint: the return code (0 or a
  negative error) with the bytes delivered into the caller's buffer of the given length, or
  with the number of bytes taken.\<close>

record 'w libusb =
  bulk_in :: "'w \<Rightarrow> nat \<Rightarrow> int \<times> bytes \<times> 'w"
  bulk_out :: "'w \<Rightarrow> bytes \<Rightarrow> int \<times> nat \<times> 'w"

section \<open>Access to buffers\<close>

fun size_of :: "buf_t option \<Rightarrow> nat" where
  "size_of None = 0"
| "size_of (Some p) = data_size p"

text \<open>The \<open>n\<close> bytes at \<^verbatim>\<open>msg->data + off\<close>; they need not be inside the used data, only
  inside the block.\<close>

fun peek :: "buf_t option \<Rightarrow> nat \<Rightarrow> nat \<Rightarrow> bytes option" where
  "peek None off n = None"
| "peek (Some p) off n =
     (if data p + off + n \<le> length (buffer p)
      then Some (take n (drop (data p + off) (buffer p))) else None)"

text \<open>Reserving space at the end and letting \<open>bs\<close>, at most that long, be written at its start.\<close>

definition fill_reserved :: "nat option \<times> buf_t option \<Rightarrow> bytes \<Rightarrow> buf_t option res" where
  "fill_reserved r bs = rbind (need (store_reserved r bs)) (\<lambda>p. Inr (Some p))"

definition insert_end :: "alloc \<Rightarrow> buf_t option \<Rightarrow> bytes \<Rightarrow> buf_t option res" where
  "insert_end alloc p xs = rbind (need (buf_insert_end alloc p xs)) (\<lambda>q. Inr (Some q))"

section \<open>Bulk transfers\<close>

text \<open>One transfer into \<open>mtu_rx\<close> bytes reserved at the end of \<open>msg\<close>, the unused part given back.\<close>

definition transfer_in ::
  "alloc \<Rightarrow> 'w libusb \<Rightarrow> 'w obex \<Rightarrow> buf_t option \<Rightarrow> (int \<times> bytes \<times> 'w obex \<times> buf_t option) res" where
  "transfer_in alloc lib self msg =
     (case buf_reserve_end alloc msg (unat (mtu_rx self)) of (ptr, m1) \<Rightarrow>
      case bulk_in lib (usb self) (unat (mtu_rx self)) of (retval, bs, w) \<Rightarrow>
      rbind (fill_reserved (ptr, m1) bs) (\<lambda>m2.
        Inr (retval, bs, self\<lparr>usb := w\<rparr>, buf_remove_end m2 (unat (mtu_rx self) - length bs))))"

fun bulk_read_loop ::
  "nat \<Rightarrow> alloc \<Rightarrow> 'w libusb \<Rightarrow> 'w obex \<Rightarrow> buf_t option \<Rightarrow> (int \<times> 'w obex \<times> buf_t option) res" where
  "bulk_read_loop 0 alloc lib self msg = Inl Out_of_fuel"
| "bulk_read_loop (Suc k) alloc lib self msg =
     rbind (transfer_in alloc lib self msg) (\<lambda>(retval, bs, self1, m1).
     rbind (need (peek m1 1 2)) (\<lambda>hl.
       if retval = 0 \<and> (unat (of_be16 hl) \<noteq> size_of m1 \<or> bs = [])
       then bulk_read_loop k alloc lib self1 m1
       else Inr (if retval = 0 then int (size_of m1) else retval, self1, m1)))"

definition obex_bulk_read ::
  "nat \<Rightarrow> alloc \<Rightarrow> 'w libusb \<Rightarrow> 'w obex \<Rightarrow> buf_t option \<Rightarrow> (int \<times> 'w obex \<times> buf_t option) res" where
  "obex_bulk_read k alloc lib self msg =
     rbind (if size_of msg > 0 then rbind (need (peek msg 1 2)) (\<lambda>hl. Inr (unat (of_be16 hl) = size_of msg))
            else Inr False) (\<lambda>whole.
       if whole then Inr (int (size_of msg), self, msg)
       else bulk_read_loop k alloc lib self msg)"

definition obex_bulk_write :: "'w libusb \<Rightarrow> 'w obex \<Rightarrow> buf_t option \<Rightarrow> (int \<times> 'w obex) res" where
  "obex_bulk_write lib self msg =
     rbind (need (peek msg 0 (size_of msg))) (\<lambda>bs.
       case bulk_out lib (usb self) bs of (retval, actual_length, w) \<Rightarrow>
         Inr (if retval = 0 then int actual_length else retval, self\<lparr>usb := w\<rparr>))"

text \<open>The polling loop of \<^verbatim>\<open>obex_verify_seq\<close>: it stops on an error, on data, or after
  100 transfers. The last component is what the last transfer left in the buffer.\<close>

fun verify_poll :: "nat \<Rightarrow> 'w libusb \<Rightarrow> 'w \<Rightarrow> nat \<Rightarrow> int \<times> bytes \<times> 'w" where
  "verify_poll 0 lib w n = bulk_in lib w n"
| "verify_poll (Suc k) lib w n =
     (case bulk_in lib w n of (retval, bs, w') \<Rightarrow>
        if retval < 0 \<or> bs \<noteq> [] then (retval, bs, w') else verify_poll k lib w' n)"

definition obex_verify_seq :: "alloc \<Rightarrow> 'w libusb \<Rightarrow> 'w obex \<Rightarrow> u8 \<Rightarrow> (bool \<times> 'w obex) res" where
  "obex_verify_seq alloc lib self seq =
     (case buf_reserve_end alloc (rx_msg self) (unat (mtu_rx self)) of (ptr, m1) \<Rightarrow>
      case verify_poll 99 lib (usb self) (unat (mtu_rx self)) of (retval, bs, w) \<Rightarrow>
      rbind (fill_reserved (ptr, m1) bs) (\<lambda>m2.
        let m3 = buf_remove_end m2 (unat (mtu_rx self) - length bs);
            self1 = self\<lparr>usb := w, rx_msg := m3\<rparr>
        in if retval < 0 \<or> bs = [] then Inr (False, self1)
           else if hd bs \<noteq> seq then Inr (False, self1)
           else Inr (True, self1\<lparr>rx_msg := buf_remove_begin m3 1\<rparr>)))"

section \<open>Sending\<close>

text \<open>\<^verbatim>\<open>send_body\<close> returns the bytes it accounts for, the element when part of the body is left
  in the queue, and the transmit buffer. A body fragment in fewer than three bytes makes the
  length \<^verbatim>\<open>tx_left - sizeof(hdr)\<close> wrap to a size no block has.\<close>

definition body_fragment ::
  "alloc \<Rightarrow> obex_header_element \<Rightarrow> nat option \<times> buf_t option \<Rightarrow> u32 \<Rightarrow>
     (u32 \<times> obex_header_element option \<times> buf_t option) res" where
  "body_fragment alloc h r tx_left =
     rbind (fill_reserved r (OBEX_HDR_BODY # be16 (ucast tx_left))) (\<lambda>tx1.
       if tx_left < 3 then Inl Abort
       else rbind (need (peek (h_buf h) 0 (unat tx_left - 3))) (\<lambda>bs.
            rbind (insert_end alloc tx1 bs) (\<lambda>tx2.
              Inr (tx_left,
                   Some (h\<lparr>h_buf := buf_remove_begin (h_buf h) (unat tx_left - 3)\<rparr>), tx2))))"

definition body_last ::
  "alloc \<Rightarrow> obex_header_element \<Rightarrow> nat option \<times> buf_t option \<Rightarrow>
     (u32 \<times> obex_header_element option \<times> buf_t option) res" where
  "body_last alloc h r =
     rbind (fill_reserved r (OBEX_HDR_BODY_END # be16 (of_nat (size_of (h_buf h) + 3)))) (\<lambda>tx1.
       rbind (need (peek (h_buf h) 0 (size_of (h_buf h)))) (\<lambda>bs.
       rbind (insert_end alloc tx1 bs) (\<lambda>tx2.
         Inr (of_nat (size_of (h_buf h)), None, tx2))))"

definition touch_body :: "obex_header_element \<Rightarrow> obex_header_element" where
  "touch_body h =
     (if body_touched h then h
      else h\<lparr>h_buf := buf_remove_begin (h_buf h) 3, body_touched := True\<rparr>)"

definition send_body ::
  "alloc \<Rightarrow> obex_header_element \<Rightarrow> buf_t option \<Rightarrow> u32 \<Rightarrow>
     (u32 \<times> obex_header_element option \<times> buf_t option) res" where
  "send_body alloc h txmsg tx_left =
     (let r = buf_reserve_end alloc txmsg 3; h1 = touch_body h
      in if unat tx_left < size_of (h_buf h1) + 3 then body_fragment alloc h1 r tx_left
         else body_last alloc h1 r)"

text \<open>The loop of \<^verbatim>\<open>obex_object_send\<close> that stuffs queued headers into the packet; the first
  component of the result is set on the error return. A body fragment accounts for all of
  \<^verbatim>\<open>tx_left\<close>, which ends the loop.\<close>

fun stuff_headers ::
  "alloc \<Rightarrow> u16 \<Rightarrow> obex_header_element list \<Rightarrow> buf_t option \<Rightarrow> u16 \<Rightarrow>
     (bool \<times> obex_header_element list \<times> buf_t option) res" where
  "stuff_headers alloc mtu [] txmsg tx_left = Inr (False, [], txmsg)"
| "stuff_headers alloc mtu (h # q) txmsg tx_left =
     (if h_hi h = OBEX_HDR_BODY then
        rbind (send_body alloc h txmsg (ucast tx_left)) (\<lambda>(actual, h', tx1).
          case h' of
            Some h1 \<Rightarrow> Inr (False, h1 # q, tx1)
          | None \<Rightarrow> if tx_left - ucast actual = 0 then Inr (False, q, tx1)
                    else stuff_headers alloc mtu q tx1 (tx_left - ucast actual))
      else if h_hi h = OBEX_HDR_EMPTY then
        (if tx_left = 0 then Inr (False, q, txmsg) else stuff_headers alloc mtu q txmsg tx_left)
      else if h_length h \<le> ucast tx_left then
        rbind (need (peek (h_buf h) 0 (unat (h_length h)))) (\<lambda>bs.
        rbind (insert_end alloc txmsg bs) (\<lambda>tx1.
          if tx_left - ucast (h_length h) = 0 then Inr (False, q, tx1)
          else stuff_headers alloc mtu q tx1 (tx_left - ucast (h_length h))))
      else if h_length h > ucast mtu then Inr (True, h # q, txmsg)
      else Inr (False, h # q, txmsg))"

definition packet_header :: "u8 \<Rightarrow> u8 \<Rightarrow> nat \<Rightarrow> bytes" where
  "packet_header seq op n = seq # op # be16 (of_nat n - 1)"

text \<open>The transmit message up to the write: non-header data, headers, then the common header in
  front; with the value of \<^verbatim>\<open>finished\<close> in the first component, \<open>None\<close> for the error return.\<close>

definition build_packet ::
  "alloc \<Rightarrow> 'w obex \<Rightarrow> obex_object \<Rightarrow> (bool option \<times> 'w obex \<times> obex_object) res" where
  "build_packet alloc self object =
     rbind (case tx_nonhdr_data object of
              None \<Rightarrow> Inr (buf_reuse (tx_msg self))
            | Some nd \<Rightarrow> rbind (need (peek (Some nd) 0 (data_size nd)))
                           (insert_end alloc (buf_reuse (tx_msg self)))) (\<lambda>tx0.
     rbind (stuff_headers alloc (mtu_tx self) (tx_headerq object) tx0 (mtu_tx self - 4)) (\<lambda>(err, q, tx1).
       let object1 = object\<lparr>tx_nonhdr_data := None, tx_headerq := q\<rparr>
       in if err then Inr (None, self\<lparr>tx_msg := tx1\<rparr>, object1)
          else let finished = (q = []);
                   real_opcode = (if finished then lastopcode object OR OBEX_FINAL else opcode object);
                   r = buf_reserve_begin alloc tx1 4
               in rbind (fill_reserved r (packet_header (seq_num self) real_opcode (size_of (snd r)))) (\<lambda>tx2.
                    Inr (Some finished, self\<lparr>tx_msg := tx2, seq_num := seq_num self + 1\<rparr>, object1))))"

definition obex_object_send ::
  "alloc \<Rightarrow> 'w libusb \<Rightarrow> 'w obex \<Rightarrow> obex_object \<Rightarrow> (int \<times> 'w obex \<times> obex_object) res" where
  "obex_object_send alloc lib self object =
     rbind (build_packet alloc self object) (\<lambda>(fin, self1, object1).
       case fin of None \<Rightarrow> Inr (-1, self1, object1)
       | Some finished \<Rightarrow>
         rbind (obex_bulk_write lib self1 (tx_msg self1)) (\<lambda>(actual, self2).
           if actual < 0 then Inr (actual, self2, object1)
           else rbind (obex_verify_seq alloc lib self2 (seq_num self)) (\<lambda>(same, self3).
                  if \<not> same then Inr (-1, self3, object1)
                  else Inr (if finished then 1 else 0, self3, object1))))"

section \<open>Receiving\<close>

definition size_t_of_int :: "int \<Rightarrow> nat" where
  "size_t_of_int x = nat (x mod 2 ^ 64)"

text \<open>The body under assembly, allocated on its first fragment with the announced length if
  there was one, and the step that makes room in it (which fails if it cannot).\<close>

definition body_buffer :: "alloc \<Rightarrow> obex_object \<Rightarrow> nat \<Rightarrow> buf_t option" where
  "body_buffer alloc object len =
     (case rx_body object of
        None \<Rightarrow> buf_new alloc (if hinted_body_len object \<noteq> 0 then size_t_of_int (hinted_body_len object)
                              else OBEX_OBJECT_ALLOCATIONTRESHOLD + len)
      | Some b \<Rightarrow> Some b)"

definition grow_body :: "alloc \<Rightarrow> buf_t \<Rightarrow> nat \<Rightarrow> bool \<times> buf_t option" where
  "grow_body alloc body len =
     (if data_avail body + tail_avail body < len
      then let want = buf_total_size (Some body) + OBEX_OBJECT_ALLOCATIONTRESHOLD + len;
               body1 = buf_resize alloc (Some body) want
           in (buf_total_size body1 \<noteq> want, body1)
      else (False, Some body))"

definition finish_body :: "alloc \<Rightarrow> obex_object \<Rightarrow> buf_t option \<Rightarrow> obex_object" where
  "finish_body alloc object body =
     (case malloc alloc sizeof_element of
        None \<Rightarrow> object\<lparr>rx_body := None\<rparr>
      | Some _ \<Rightarrow>
        object\<lparr>rx_body := None, rx_headerq := rx_headerq object @
          [\<lparr>h_buf = body, h_hi = OBEX_HDR_BODY, h_flags = 0,
            h_length = of_nat (size_of body), body_touched = False\<rparr>]\<rparr>)"

text \<open>\<^verbatim>\<open>obex_object_receive_body\<close> returns whether it fails; \<open>src\<close> is the offset of \<^verbatim>\<open>source\<close>.\<close>

definition obex_object_receive_body ::
  "alloc \<Rightarrow> obex_object \<Rightarrow> buf_t option \<Rightarrow> u8 \<Rightarrow> nat \<Rightarrow> u32 \<Rightarrow> (bool \<times> obex_object) res" where
  "obex_object_receive_body alloc object msg hi src len =
     (if unat len > size_of msg then Inr (True, object)
      else case body_buffer alloc object (unat len) of
             None \<Rightarrow> Inr (True, object)
           | Some body \<Rightarrow>
             (case grow_body alloc body (unat len) of (failed, body1) \<Rightarrow>
               if failed then Inr (True, object\<lparr>rx_body := body1\<rparr>)
               else rbind (need (peek msg src (unat len))) (\<lambda>bs.
                    rbind (insert_end alloc body1 bs) (\<lambda>body2.
                      Inr (False, if hi = OBEX_HDR_BODY_END then finish_body alloc object body2
                                  else object\<lparr>rx_body := body2\<rparr>)))))"

text \<open>The extent of the header at the start of \<open>msg\<close>: offset of its value (\<open>None\<close> for a badly
  formed one), \<^verbatim>\<open>len\<close> and \<^verbatim>\<open>hlen\<close>.\<close>

definition header_extent :: "buf_t option \<Rightarrow> u8 \<Rightarrow> (nat option \<times> u32 \<times> u32) res" where
  "header_extent msg hi =
     (let c = hi AND OBEX_HDR_TYPE_MASK
      in if c = OBEX_HDR_TYPE_BYTES \<or> c = OBEX_HDR_TYPE_UNICODE then
           rbind (need (peek msg 1 2)) (\<lambda>hl.
             let hlen = ucast (of_be16 hl) :: u32 in Inr (Some 3, hlen - 3, hlen))
         else if c = OBEX_HDR_TYPE_UINT8 then Inr (Some 1, 1, 2)
         else if c = OBEX_HDR_TYPE_UINT32 then Inr (Some 1, 4, 5)
         else Inr (None, 0, 0))"

text \<open>Queueing a non-body header; the first component says whether memory ran out.\<close>

definition queue_header ::
  "alloc \<Rightarrow> obex_object \<Rightarrow> buf_t option \<Rightarrow> u8 \<Rightarrow> nat \<Rightarrow> u32 \<Rightarrow> (bool \<times> obex_object) res" where
  "queue_header alloc object msg hi src len =
     rbind (if hi = OBEX_HDR_LENGTH
            then rbind (need (peek msg 1 4)) (\<lambda>hv. Inr (object\<lparr>hinted_body_len := sint (of_be32 hv)\<rparr>))
            else Inr object) (\<lambda>object1.
     case malloc alloc sizeof_element of None \<Rightarrow> Inr (True, object1)
     | Some _ \<Rightarrow>
       rbind (if len = 0 then Inr (buf_new alloc 1)
              else (case buf_new alloc (unat len) of None \<Rightarrow> Inr None
                    | Some b \<Rightarrow> rbind (need (peek msg src (unat len))) (insert_end alloc (Some b)))) (\<lambda>b.
         case b of None \<Rightarrow> Inr (True, object1)
         | Some _ \<Rightarrow> Inr (False, object1\<lparr>rx_headerq := rx_headerq object1 @
             [\<lparr>h_buf = b, h_hi = hi, h_flags = 0, h_length = len, body_touched = False\<rparr>]\<rparr>)))"

text \<open>The treatment of body headers inside the switch: whether it fails, and \<^verbatim>\<open>source\<close>, which is
  cleared once the body has been taken.\<close>

definition receive_source ::
  "alloc \<Rightarrow> obex_object \<Rightarrow> buf_t option \<Rightarrow> u8 \<Rightarrow> nat option \<Rightarrow> u32 \<Rightarrow> (bool \<times> nat option \<times> obex_object) res" where
  "receive_source alloc object msg hi source len =
     (if source = Some 3 \<and> (hi = OBEX_HDR_BODY \<or> hi = OBEX_HDR_BODY_END)
      then rbind (obex_object_receive_body alloc object msg hi 3 len)
             (\<lambda>(err, object1). Inr (err, None, object1))
      else Inr (source = None, source, object))"

text \<open>One round of the parser: whether it fails, \<^verbatim>\<open>hlen\<close>, and the object.\<close>

definition receive_header ::
  "alloc \<Rightarrow> obex_object \<Rightarrow> buf_t option \<Rightarrow> (bool \<times> u32 \<times> obex_object) res" where
  "receive_header alloc object msg =
     rbind (need (peek msg 0 1)) (\<lambda>b.
     rbind (header_extent msg (hd b)) (\<lambda>(source, len, hlen).
     rbind (receive_source alloc object msg (hd b) source len) (\<lambda>(err1, source1, object1).
       if unat len > size_of msg then Inr (True, hlen, object1)
       else case source1 of None \<Rightarrow> Inr (err1, hlen, object1)
            | Some src \<Rightarrow>
              rbind (queue_header alloc object1 msg (hd b) src len) (\<lambda>(err2, object2).
                Inr (err1 \<or> err2, hlen, object2)))))"

text \<open>The parsing loop. Every round that goes on takes at least two bytes off the message, so
  the number of message bytes is enough fuel (lemma \<open>receive_headers_total\<close>).\<close>

fun receive_headers ::
  "nat \<Rightarrow> alloc \<Rightarrow> obex_object \<Rightarrow> buf_t option \<Rightarrow> (bool \<times> obex_object \<times> buf_t option) res" where
  "receive_headers k alloc object msg =
     (if size_of msg = 0 then Inr (False, object, msg)
      else case k of 0 \<Rightarrow> Inl Out_of_fuel
           | Suc k' \<Rightarrow>
             rbind (receive_header alloc object msg) (\<lambda>(err, hlen, object1).
               if err then Inr (True, object1, msg)
               else receive_headers k' alloc object1 (buf_remove_begin msg (unat hlen))))"

declare receive_headers.simps [simp del]

text \<open>The special treatment of a connect response; the first component is the early error
  return.\<close>

definition connect_response ::
  "'w obex \<Rightarrow> obex_object \<Rightarrow> buf_t option \<Rightarrow> u8 \<Rightarrow> bool \<times> 'w obex \<times> obex_object" where
  "connect_response self object msg rsp =
     (if opcode object = OBEX_CMD_CONNECT then
        (if rsp = OBEX_RSP_SUCCESS OR OBEX_FINAL then
           (if size_of msg \<ge> 7 then
              (False, self\<lparr>mtu_rx := OBEX_DEFAULT_MTU, mtu_tx := 0x4006\<rparr>, object\<lparr>headeroffset := 8\<rparr>)
            else (True, self, object))
         else (False, self, object\<lparr>headeroffset := 8\<rparr>))
      else (False, self, object))"

definition disconnect_response :: "'w obex \<Rightarrow> obex_object \<Rightarrow> 'w obex" where
  "disconnect_response self object =
     (if opcode object = OBEX_CMD_DISCONNECT
      then self\<lparr>mtu_rx := OBEX_DEFAULT_MTU, mtu_tx := OBEX_DEFAULT_MTU\<rparr> else self)"

text \<open>Copying the non-header data off the message; \<open>None\<close> is the early error return.\<close>

definition take_nonhdr ::
  "alloc \<Rightarrow> obex_object \<Rightarrow> buf_t option \<Rightarrow> (obex_object \<times> buf_t option) option res" where
  "take_nonhdr alloc object msg =
     (if headeroffset object = 0 then Inr (Some (object, msg))
      else case buf_new alloc (headeroffset object) of
             None \<Rightarrow> Inr None
           | Some b \<Rightarrow>
             rbind (need (peek msg 0 (headeroffset object))) (\<lambda>bs.
             rbind (insert_end alloc (Some b) bs) (\<lambda>b1.
               Inr (Some (object\<lparr>rx_nonhdr_data := b1, headeroffset := 0\<rparr>,
                          buf_remove_begin msg (headeroffset object))))))"

text \<open>\<open>obex_object_receive\<close>: \<open>k\<close> is the fuel of the read loop.\<close>

definition obex_object_receive ::
  "nat \<Rightarrow> alloc \<Rightarrow> 'w libusb \<Rightarrow> 'w obex \<Rightarrow> obex_object \<Rightarrow> (int \<times> 'w obex \<times> obex_object) res" where
  "obex_object_receive k alloc lib self object =
     rbind (obex_bulk_read k alloc lib self (rx_msg self)) (\<lambda>(ret, self0, msg).
     let self1 = self0\<lparr>rx_msg := msg\<rparr>
     in if ret < 0 then Inr (ret, self1, object)
        else rbind (need (peek msg 0 3)) (\<lambda>hdr.
          if unat (of_be16 (tl hdr)) > size_of msg then Inr (int (size_of msg), self1, object)
          else case connect_response self1 object msg (hd hdr) of (bad, self2, object2) \<Rightarrow>
            if bad then Inr (-1, self2, object2)
            else let self3 = disconnect_response self2 object2; msg1 = buf_remove_begin msg 3
                 in rbind (take_nonhdr alloc object2 msg1) (\<lambda>r.
                    case r of None \<Rightarrow> Inr (-1, self3\<lparr>rx_msg := msg1\<rparr>, object2)
                    | Some (object3, msg2) \<Rightarrow>
                      rbind (receive_headers (size_of msg2) alloc object3 msg2) (\<lambda>(err, object4, msg3).
                        Inr (if err then -1 else uint (hd hdr AND NOT OBEX_FINAL),
                             self3\<lparr>rx_msg := msg3\<rparr>, object4)))))"

section \<open>Objects\<close>

definition obex_set_connect_info :: "'w obex \<Rightarrow> u8 \<Rightarrow> u8 \<Rightarrow> 'w obex" where
  "obex_set_connect_info self ver loc = self\<lparr>version := ver, obex_locale := loc\<rparr>"

definition connect_hdr :: "'w obex \<Rightarrow> bytes" where
  "connect_hdr self = [version self, 0x40] @ be16 (mtu_rx self) @ [0x40, 0x00, obex_locale self]"

definition obex_object_new :: "alloc \<Rightarrow> 'w obex \<Rightarrow> u8 \<Rightarrow> obex_object option res" where
  "obex_object_new alloc self cmd =
     (case malloc alloc sizeof_object of None \<Rightarrow> Inr None
      | Some _ \<Rightarrow>
        let object = \<lparr>tx_headerq = [], rx_headerq = [], rx_headerq_rm = [], rx_body = None,
              tx_nonhdr_data = None, rx_nonhdr_data = None, o_cmd = cmd, opcode = cmd,
              lastopcode = cmd OR OBEX_FINAL, headeroffset = 0, hinted_body_len = 0, totallen = 0\<rparr>
        in if cmd = OBEX_CMD_CONNECT then
             (case buf_new alloc 7 of None \<Rightarrow> Inr None
              | Some b \<Rightarrow>
                rbind (fill_reserved (buf_reserve_end alloc (Some b) 7) (connect_hdr self)) (\<lambda>nd.
                  Inr (Some (object\<lparr>tx_nonhdr_data := nd\<rparr>))))
           else Inr (Some object))"

definition header_room :: "'w obex \<Rightarrow> obex_object \<Rightarrow> u32 \<Rightarrow> u32" where
  "header_room self object flags =
     (if flags AND OBEX_FL_FIT_ONE_PACKET \<noteq> 0
      then ucast (mtu_tx self) - word_of_int (totallen object) - 4
      else ucast (mtu_tx self) - 4)"

text \<open>The encoded header, with the value of \<^verbatim>\<open>ret\<close> and \<^verbatim>\<open>element->length\<close> (0 when the buffer
  cannot be allocated, and then \<^verbatim>\<open>ret\<close> is still -1).\<close>

definition header_buf :: "alloc \<Rightarrow> bytes \<Rightarrow> buf_t option res" where
  "header_buf alloc bs =
     (case buf_new alloc (length bs) of None \<Rightarrow> Inr None
      | Some b \<Rightarrow> fill_reserved (buf_reserve_end alloc (Some b) (length bs)) bs)"

fun encode_header :: "u8 \<Rightarrow> obex_headerdata \<Rightarrow> nat \<Rightarrow> bytes res" where
  "encode_header hi hv hv_size =
     (let c = hi AND OBEX_HDR_TYPE_MASK
      in if c = OBEX_HDR_TYPE_UINT32 then
           (case hv of Bq4 w \<Rightarrow> Inr (hi # be32 w) | _ \<Rightarrow> Inl Abort)
         else if c = OBEX_HDR_TYPE_UINT8 then
           (case hv of Bq1 b \<Rightarrow> Inr [hi, b] | _ \<Rightarrow> Inl Abort)
         else
           (case hv of Bs bs \<Rightarrow>
              if hv_size \<le> length bs
              then Inr (hi # be16 (of_nat (hv_size + 3)) @ take hv_size bs) else Inl Abort
            | _ \<Rightarrow> Inl Abort))"

definition obex_object_addheader ::
  "alloc \<Rightarrow> 'w obex \<Rightarrow> obex_object \<Rightarrow> u8 \<Rightarrow> obex_headerdata \<Rightarrow> nat \<Rightarrow> u32 \<Rightarrow> (int \<times> obex_object) res" where
  "obex_object_addheader alloc self object hi hv hv_size flags =
     (case malloc alloc sizeof_element of None \<Rightarrow> Inr (-1, object)
      | Some _ \<Rightarrow>
        let element = \<lparr>h_buf = None, h_hi = hi, h_flags = flags, h_length = 0, body_touched = False\<rparr>
        in if hi = OBEX_HDR_EMPTY then Inr (1, object\<lparr>tx_headerq := tx_headerq object @ [element]\<rparr>)
           else
           rbind (encode_header hi hv hv_size) (\<lambda>bs.
           rbind (header_buf alloc bs) (\<lambda>b.
             let len = (if b = None then 0 else of_nat (length bs)) :: u32;
                 ret = (if b = None then -1 else sint len);
                 too_big = ((hi \<noteq> OBEX_HDR_BODY \<or> flags AND OBEX_FL_FIT_ONE_PACKET \<noteq> 0) \<and>
                            header_room self object flags < len)
             in if \<not> too_big \<and> ret > 0
                then Inr (1, object\<lparr>totallen := totallen object + ret,
                       tx_headerq := tx_headerq object @ [element\<lparr>h_buf := b, h_length := len\<rparr>]\<rparr>)
                else Inr (-1, object))))"

text \<open>The next received header: its identifier, value and size.\<close>

definition header_value :: "obex_header_element \<Rightarrow> obex_headerdata res" where
  "header_value h =
     (let c = h_hi h AND OBEX_HDR_TYPE_MASK
      in if c = OBEX_HDR_TYPE_UINT32 then rbind (need (peek (h_buf h) 0 4)) (\<lambda>b. Inr (Bq4 (of_be32 b)))
         else if c = OBEX_HDR_TYPE_UINT8 then rbind (need (peek (h_buf h) 0 1)) (\<lambda>b. Inr (Bq1 (hd b)))
         else rbind (need (peek (h_buf h) 0 (unat (h_length h)))) (\<lambda>b. Inr (Bs b)))"

definition obex_object_getnextheader ::
  "obex_object \<Rightarrow> ((u8 \<times> obex_headerdata \<times> u32) option \<times> obex_object) res" where
  "obex_object_getnextheader object =
     (case rx_headerq object of [] \<Rightarrow> Inr (None, object)
      | h # q \<Rightarrow>
        rbind (header_value h) (\<lambda>v.
          Inr (Some (h_hi h, v, h_length h),
               object\<lparr>rx_headerq := q, rx_headerq_rm := rx_headerq_rm object @ [h]\<rparr>)))"

definition obex_object_set_nonhdr_data :: "alloc \<Rightarrow> obex_object \<Rightarrow> bytes \<Rightarrow> (int \<times> obex_object) res" where
  "obex_object_set_nonhdr_data alloc object bs =
     (if tx_nonhdr_data object \<noteq> None then Inr (-1, object)
      else case buf_new alloc (length bs) of None \<Rightarrow> Inr (-1, object)
           | Some b \<Rightarrow> rbind (insert_end alloc (Some b) bs) (\<lambda>nd.
               Inr (1, object\<lparr>tx_nonhdr_data := nd\<rparr>)))"

text \<open>The request loop; \<open>cb\<close> is the registered callback: what it does to the state behind the
  handle, which holds the caller's callback data too. \<open>k\<close> bounds the rounds and the transfers of
  one read.\<close>

fun obex_request ::
  "nat \<Rightarrow> alloc \<Rightarrow> 'w libusb \<Rightarrow> ('w obex \<Rightarrow> obex_object \<Rightarrow> 'w res) \<Rightarrow> 'w obex \<Rightarrow> obex_object \<Rightarrow>
     (int \<times> 'w obex \<times> obex_object) res" where
  "obex_request 0 alloc lib cb self object = Inl Out_of_fuel"
| "obex_request (Suc k) alloc lib cb self object =
     rbind (obex_object_send alloc lib self object) (\<lambda>(ret, self1, object1).
       if ret < 0 then Inr (ret, self1, object1)
       else rbind (obex_object_receive k alloc lib self1 object1) (\<lambda>(rsp, self2, object2).
         rbind (cb self2 object2) (\<lambda>w.
         let self3 = self2\<lparr>usb := w\<rparr>
         in if rsp = OBEX_RSP_CONTINUE then obex_request k alloc lib cb self3 object2
            else Inr (rsp, self3, object2))))"

end
