(* ===== verification/Obex_Receive.thy ===== *)
theory Obex_Receive
  imports Obex
begin

text \<open>
  Correctness of the receiving half of \<^verbatim>\<open>obex.c\<close>: the byte strings the buffers stand for, the
  read loop, the sequence check and the header parser against an abstract description of a
  header list.
\<close>

section \<open>Buffers as byte strings\<close>

definition holds :: "buf_t option \<Rightarrow> bytes \<Rightarrow> bool" where
  "holds m bs \<longleftrightarrow> (\<exists>p. m = Some p \<and> buf_ok p \<and> contents p = bs)"

text \<open>An allocator that does not refuse.\<close>

definition plenty :: "alloc \<Rightarrow> bool" where
  "plenty alloc \<longleftrightarrow> (\<forall>n. alloc n \<noteq> None)"

named_theorems holds_intros \<open>what a buffer operation does to the byte string\<close>

lemma holds_size: "holds m bs \<Longrightarrow> size_of m = length bs"
  by (auto simp: holds_def)

lemma peek_holds:
  assumes "holds m bs" and "off + n \<le> length bs"
  shows "peek m off n = Some (take n (drop off bs))"
proof -
  obtain p where p: "m = Some p" "buf_ok p" "contents p = bs" using assms(1) by (auto simp: holds_def)
  have "off + n \<le> data_size p" using p assms(2) length_contents by metis
  with p show ?thesis
    by (auto simp: buf_ok_def contents_def drop_take min_def add.commute)
qed

lemma holds_step:
  assumes "holds m bs" and "\<And>p. \<exists>q. f (Some p) = Some q"
    and "\<And>p q. buf_ok p \<Longrightarrow> f (Some p) = Some q \<Longrightarrow> buf_ok q \<and> contents q = g (contents p)"
  shows "holds (f m) (g bs)"
  using assms unfolding holds_def by blast

lemma holds_remove_begin [holds_intros]: "holds m bs \<Longrightarrow> holds (buf_remove_begin m n) (drop n bs)"
  by (erule holds_step) (simp add: Let_def, erule (1) buf_remove_begin_ok)

lemma holds_remove_end [holds_intros]:
  "holds m bs \<Longrightarrow> holds (buf_remove_end m n) (take (length bs - n) bs)"
  by (erule holds_step) (simp, erule (1) buf_remove_end_ok)

lemma holds_reuse [holds_intros]: "holds m bs \<Longrightarrow> holds (buf_reuse m) []"
  by (erule holds_step) (simp, erule (1) buf_reuse_ok)

lemma holds_new [holds_intros]: "buf_new alloc n = Some p \<Longrightarrow> holds (Some p) []"
  using buf_new_ok by (auto simp: holds_def)

lemma plenty_new: "plenty alloc \<Longrightarrow> \<exists>p. buf_new alloc n = Some p"
  by (auto simp: plenty_def buf_new_def malloc_def split: option.splits)

lemma plenty_malloc: "plenty alloc \<Longrightarrow> \<exists>b. malloc alloc n = Some b"
  by (auto simp: plenty_def malloc_def)

lemma insert_end_holds [holds_intros]:
  assumes "holds m bs" and "insert_end alloc m xs = Inr m'"
  shows "holds m' (bs @ xs)"
  using assms buf_insert_end_ok unfolding holds_def insert_end_def by (fastforce simp: rbind_Inr_iff)

lemma insert_end_total:
  assumes "plenty alloc" and "holds m bs"
  obtains m' where "insert_end alloc m xs = Inr m'" and "holds m' (bs @ xs)"
proof -
  obtain p where p: "m = Some p" using assms(2) by (auto simp: holds_def)
  obtain q where "buf_insert_end alloc (Some p) xs = Some q"
    using buf_insert_end_alloc assms(1) unfolding plenty_def by blast
  then have "insert_end alloc m xs = Inr (Some q)" by (simp add: insert_end_def p)
  with that insert_end_holds [OF assms(2)] show thesis by blast
qed

lemma fill_reserved_end: "fill_reserved (buf_reserve_end alloc m (length xs)) xs = insert_end alloc m xs"
  by (simp add: fill_reserved_def insert_end_def buf_insert_end_def)

text \<open>Reserving \<open>n\<close> bytes, writing the first few and giving the rest back appends those few.\<close>

lemma reserve_partial:
  assumes m: "holds m bs" and r: "fill_reserved (buf_reserve_end alloc m n) xs = Inr m'"
    and le: "length xs \<le> n"
  shows "holds (buf_remove_end m' (n - length xs)) (bs @ xs)"
proof -
  obtain p where p: "m = Some p" "buf_ok p" "contents p = bs" using m by (auto simp: holds_def)
  obtain d q where rs: "buf_reserve_end alloc (Some p) n = (Some d, Some q)"
    and m': "m' = Some (q\<lparr>buffer := write_at (buffer q) d xs\<rparr>)"
    using r p by (auto simp: fill_reserved_def rbind_Inr_iff store_reserved_def split: option.splits prod.splits)
  note ro = buf_reserve_end_ok [OF p(2) rs]
  from ro le have fits: "d + length xs \<le> length (buffer q)" "data_size p + length xs \<le> data_size q"
    by (simp_all add: buf_ok_def)
  let ?q = "q\<lparr>buffer := write_at (buffer q) d xs\<rparr>"
  have "contents ?q = bs @ xs @ drop (data_size p + length xs) (contents q)"
    using contents_write [of q "data_size p" xs] ro fits p by simp
  moreover have "buf_ok ?q" using buf_ok_write [of q d xs] ro fits by blast
  ultimately have "holds (Some ?q) (bs @ xs @ drop (data_size p + length xs) (contents q))"
    by (simp add: holds_def)
  from holds_remove_end [OF this, of "n - length xs"] show ?thesis
    using ro le p length_contents [of p] length_contents [of q] by (simp add: m')
qed

lemma reserve_total:
  assumes "plenty alloc" and "holds m bs"
  obtains d q where "buf_reserve_end alloc m n = (Some d, Some q)"
proof -
  obtain p where p: "m = Some p" using assms(2) by (auto simp: holds_def)
  obtain q' where "buf_insert_end alloc (Some p) (replicate n 0) = Some q'"
    using buf_insert_end_alloc assms(1) unfolding plenty_def by blast
  with that p show thesis
    by (auto simp: buf_insert_end_def store_reserved_def simp del: buf_reserve_end.simps
        split: option.splits prod.splits)
qed

lemma fill_reserved_total:
  "r = (Some d, Some q) \<Longrightarrow> \<exists>m'. fill_reserved r xs = Inr m'"
  by (simp add: fill_reserved_def store_reserved_def)

section \<open>Reading a message\<close>

text \<open>What the host library documents of a bulk transfer: it returns 0 or a negative code and
  delivers at most the requested number of bytes.\<close>

definition libusb_ok :: "'w libusb \<Rightarrow> bool" where
  "libusb_ok lib \<longleftrightarrow> (\<forall>w n. fst (bulk_in lib w n) \<le> 0 \<and> length (fst (snd (bulk_in lib w n))) \<le> n)"

lemma libusb_okD: "libusb_ok lib \<Longrightarrow> bulk_in lib w n = (r, bs, w') \<Longrightarrow> r \<le> 0 \<and> length bs \<le> n"
  unfolding libusb_ok_def by (metis fst_conv snd_conv)

lemma transfer_in_ok:
  assumes "libusb_ok lib" and "holds m bs" and "transfer_in alloc lib self m = Inr (r, xs, self', m')"
  shows "holds m' (bs @ xs) \<and> r \<le> 0 \<and> (\<exists>w. self' = self\<lparr>usb := w\<rparr>)"
proof -
  obtain ptr m1 where r1: "buf_reserve_end alloc m (unat (mtu_rx self)) = (ptr, m1)" by fastforce
  obtain r' xs' w where b: "bulk_in lib (usb self) (unat (mtu_rx self)) = (r', xs', w)"
    using prod_cases3 by blast
  from assms(3) r1 b obtain m2 where m2: "fill_reserved (ptr, m1) xs = Inr m2"
    and eq: "r' = r" "xs' = xs" "self' = self\<lparr>usb := w\<rparr>" "m' = buf_remove_end m2 (unat (mtu_rx self) - length xs)"
    by (auto simp: transfer_in_def rbind_Inr_iff)
  from libusb_okD [OF assms(1) b] eq have "length xs \<le> unat (mtu_rx self)" "r \<le> 0" by auto
  with reserve_partial [OF assms(2), of alloc "unat (mtu_rx self)" xs m2] m2 r1 eq show ?thesis by auto
qed

lemma transfer_in_total:
  assumes "plenty alloc" and "holds m bs"
  shows "\<exists>m'. transfer_in alloc lib self m =
    Inr (fst (bulk_in lib (usb self) (unat (mtu_rx self))),
         fst (snd (bulk_in lib (usb self) (unat (mtu_rx self)))),
         self\<lparr>usb := snd (snd (bulk_in lib (usb self) (unat (mtu_rx self))))\<rparr>, m')"
proof -
  obtain d q where r: "buf_reserve_end alloc m (unat (mtu_rx self)) = (Some d, Some q)"
    using reserve_total [OF assms] by blast
  obtain m2 where "fill_reserved (Some d, Some q) (fst (snd (bulk_in lib (usb self) (unat (mtu_rx self))))) = Inr m2"
    using fill_reserved_total by blast
  with r show ?thesis by (auto simp: transfer_in_def split: prod.splits)
qed

text \<open>A complete message: its length field counts exactly its bytes.\<close>

definition complete :: "bytes \<Rightarrow> bool" where
  "complete bs \<longleftrightarrow> 3 \<le> length bs \<and> unat (of_be16 (tl bs)) = length bs"

lemma of_be16_take: "2 \<le> length xs \<Longrightarrow> of_be16 (take 2 xs) = of_be16 xs"
  by (simp add: of_be16_def)

lemma length_field:
  "holds m cs \<Longrightarrow> 3 \<le> length cs \<Longrightarrow> peek m 1 2 = Some hl \<Longrightarrow> of_be16 hl = of_be16 (tl cs)"
  using peek_holds [of m cs 1 2] of_be16_take [of "tl cs"] by (simp add: drop_Suc)

lemma bulk_read_loop_ok:
  assumes "libusb_ok lib" and "holds m bs" and "bulk_read_loop k alloc lib self m = Inr (ret, self', m')"
  shows "\<exists>xs. holds m' (bs @ xs) \<and> (\<exists>w. self' = self\<lparr>usb := w\<rparr>) \<and>
    (0 \<le> ret \<longrightarrow> ret = int (length (bs @ xs)) \<and> xs \<noteq> [] \<and> (3 \<le> length (bs @ xs) \<longrightarrow> complete (bs @ xs)))"
  using assms(2,3)
proof (induction k arbitrary: self m bs)
  case (Suc k)
  from Suc.prems(2) obtain r xs self1 m1 hl where t: "transfer_in alloc lib self m = Inr (r, xs, self1, m1)"
    and hl: "peek m1 1 2 = Some hl"
    and rest: "(if r = 0 \<and> (unat (of_be16 hl) \<noteq> size_of m1 \<or> xs = [])
       then bulk_read_loop k alloc lib self1 m1
       else Inr (if r = 0 then int (size_of m1) else r, self1, m1)) = Inr (ret, self', m')"
    by (auto simp: rbind_Inr_iff)
  from transfer_in_ok [OF assms(1) Suc.prems(1) t]
  have h1: "holds m1 (bs @ xs)" "r \<le> 0" and w: "\<exists>w. self1 = self\<lparr>usb := w\<rparr>" by auto
  show ?case
  proof (cases "r = 0 \<and> (unat (of_be16 hl) \<noteq> size_of m1 \<or> xs = [])")
    case True
    with rest have "bulk_read_loop k alloc lib self1 m1 = Inr (ret, self', m')" by simp
    from Suc.IH [OF h1(1) this] obtain ys where ys: "holds m' ((bs @ xs) @ ys)"
      "\<exists>w. self' = self1\<lparr>usb := w\<rparr>"
      "0 \<le> ret \<longrightarrow> ret = int (length ((bs @ xs) @ ys)) \<and> ys \<noteq> [] \<and>
         (3 \<le> length ((bs @ xs) @ ys) \<longrightarrow> complete ((bs @ xs) @ ys))"
      by blast
    from ys w show ?thesis by (intro exI [of _ "xs @ ys"]) auto
  next
    case False
    have "3 \<le> length (bs @ xs) \<Longrightarrow> of_be16 hl = of_be16 (tl (bs @ xs))"
      by (rule length_field [OF h1(1) _ hl])
    with False rest h1 w holds_size [OF h1(1)] show ?thesis
      by (intro exI [of _ xs]) (auto simp: complete_def split: if_splits)
  qed
qed simp

lemma obex_bulk_read_ok:
  assumes "libusb_ok lib" and "holds m bs" and "obex_bulk_read k alloc lib self m = Inr (ret, self', m')"
  shows "\<exists>xs. holds m' (bs @ xs) \<and> (\<exists>w. self' = self\<lparr>usb := w\<rparr>) \<and>
    (0 \<le> ret \<longrightarrow> ret = int (length (bs @ xs)) \<and> (3 \<le> length (bs @ xs) \<longrightarrow> complete (bs @ xs)))"
proof -
  from assms(3) obtain whole where
    wh: "(if size_of m > 0 then rbind (need (peek m 1 2)) (\<lambda>hl. Inr (unat (of_be16 hl) = size_of m))
            else Inr False) = Inr whole"
    and rest: "(if whole then Inr (int (size_of m), self, m) else bulk_read_loop k alloc lib self m) = Inr (ret, self', m')"
    by (auto simp: obex_bulk_read_def rbind_Inr_iff)
  show ?thesis
  proof (cases whole)
    case False
    with rest bulk_read_loop_ok [OF assms(1,2)] show ?thesis by fastforce
  next
    case True
    then obtain hl where hl: "peek m 1 2 = Some hl" "unat (of_be16 hl) = size_of m"
      using wh by (auto simp: rbind_Inr_iff split: if_splits)
    have "3 \<le> length bs \<Longrightarrow> of_be16 hl = of_be16 (tl bs)"
      by (rule length_field [OF assms(2) _ hl(1)])
    with True rest hl assms(2) holds_size [OF assms(2)] show ?thesis
      by (intro exI [of _ "[]"]) (auto simp: complete_def intro!: exI [of _ "usb self"])
  qed
qed

section \<open>The sequence byte\<close>

lemma verify_poll_ok:
  "libusb_ok lib \<Longrightarrow> verify_poll k lib w n = (r, bs, w') \<Longrightarrow> r \<le> 0 \<and> length bs \<le> n"
  by (induction k arbitrary: w) (auto dest: libusb_okD split: prod.splits if_splits)

lemma obex_verify_seq_ok:
  assumes "libusb_ok lib" and "holds (rx_msg self) bs" and "obex_verify_seq alloc lib self seq = Inr (same, self')"
  shows "\<exists>m w xs. self' = self\<lparr>usb := w, rx_msg := m\<rparr> \<and>
     holds m (if same then tl (bs @ xs) else bs @ xs) \<and>
     (same \<longrightarrow> xs \<noteq> [] \<and> hd xs = seq)"
proof -
  let ?n = "unat (mtu_rx self)"
  obtain ptr m1 where r1: "buf_reserve_end alloc (rx_msg self) ?n = (ptr, m1)" by fastforce
  obtain r xs w where v: "verify_poll 99 lib (usb self) ?n = (r, xs, w)" using prod_cases3 by blast
  from assms(3) r1 v obtain m2 where m2: "fill_reserved (ptr, m1) xs = Inr m2"
    by (auto simp: obex_verify_seq_def rbind_Inr_iff)
  define m3 where "m3 = buf_remove_end m2 (?n - length xs)"
  from verify_poll_ok [OF assms(1) v] have "length xs \<le> ?n" by simp
  with reserve_partial [OF assms(2), of alloc ?n xs m2] m2 r1 have m3: "holds m3 (bs @ xs)" by (simp add: m3_def)
  have "self' = (if same then self\<lparr>usb := w, rx_msg := buf_remove_begin m3 1\<rparr> else self\<lparr>usb := w, rx_msg := m3\<rparr>)"
    and "same \<longrightarrow> xs \<noteq> [] \<and> hd xs = seq"
    using assms(3) r1 v m2 by (auto simp: obex_verify_seq_def Let_def m3_def split: if_splits)
  moreover have "holds (buf_remove_begin m3 1) (tl (bs @ xs))"
    using holds_remove_begin [OF m3, of 1] by (metis drop_0 drop_Suc One_nat_def)
  ultimately show ?thesis
    using m3 by (intro exI [of _ "if same then buf_remove_begin m3 1 else m3"] exI [of _ w] exI [of _ xs]) simp
qed

lemma obex_verify_seq_total:
  assumes "plenty alloc" and "holds (rx_msg self) bs"
  shows "\<exists>r. obex_verify_seq alloc lib self seq = Inr r"
proof -
  let ?n = "unat (mtu_rx self)"
  obtain d q where r: "buf_reserve_end alloc (rx_msg self) ?n = (Some d, Some q)"
    using reserve_total [OF assms] by blast
  obtain rv xs w where v: "verify_poll 99 lib (usb self) ?n = (rv, xs, w)" using prod_cases3 by blast
  obtain m2 where "fill_reserved (Some d, Some q) xs = Inr m2" using fill_reserved_total by blast
  with r v show ?thesis by (auto simp: obex_verify_seq_def Let_def)
qed

section \<open>Headers on the wire\<close>

text \<open>A header is its identifier and the bytes of its value; the two top bits of the
  identifier choose the encoding.\<close>

type_synonym hdr = "u8 \<times> bytes"

definition counted :: "u8 \<Rightarrow> bool" where
  "counted hi \<longleftrightarrow> hi AND OBEX_HDR_TYPE_MASK = OBEX_HDR_TYPE_BYTES \<or>
                 hi AND OBEX_HDR_TYPE_MASK = OBEX_HDR_TYPE_UNICODE"

fun wire :: "hdr \<Rightarrow> bytes" where
  "wire (hi, v) = (if counted hi then hi # be16 (of_nat (length v + 3)) @ v else hi # v)"

fun wf_hdr :: "hdr \<Rightarrow> bool" where
  "wf_hdr (hi, v) \<longleftrightarrow>
     (if counted hi then length v + 3 < 2 ^ 16
      else if hi AND OBEX_HDR_TYPE_MASK = OBEX_HDR_TYPE_UINT8 then length v = 1
      else hi AND OBEX_HDR_TYPE_MASK = OBEX_HDR_TYPE_UINT32 \<and> length v = 4)"

text \<open>What a received header does to the queue of received headers and to the body under
  assembly.\<close>

type_synonym rx_state = "hdr list \<times> bytes option"

fun body_bytes :: "bytes option \<Rightarrow> bytes" where
  "body_bytes None = []"
| "body_bytes (Some bs) = bs"

fun rx_spec :: "rx_state \<Rightarrow> hdr \<Rightarrow> rx_state" where
  "rx_spec (q, body) (hi, v) =
     (if hi = OBEX_HDR_BODY then (q, Some (body_bytes body @ v))
      else if hi = OBEX_HDR_BODY_END then (q @ [(OBEX_HDR_BODY, body_bytes body @ v)], None)
      else (q @ [(hi, v)], body))"

fun elem_rel :: "obex_header_element \<Rightarrow> hdr \<Rightarrow> bool" where
  "elem_rel h (hi, v) \<longleftrightarrow> h_hi h = hi \<and> holds (h_buf h) v \<and> h_length h = of_nat (length v)"

fun body_rel :: "buf_t option \<Rightarrow> bytes option \<Rightarrow> bool" where
  "body_rel b None \<longleftrightarrow> b = None"
| "body_rel b (Some bs) \<longleftrightarrow> holds b bs"

fun rx_rel :: "obex_object \<Rightarrow> rx_state \<Rightarrow> bool" where
  "rx_rel object (q, body) \<longleftrightarrow> list_all2 elem_rel (rx_headerq object) q \<and> body_rel (rx_body object) body"

text \<open>The fields receiving headers leaves alone.\<close>

definition same_tx :: "obex_object \<Rightarrow> obex_object \<Rightarrow> bool" where
  "same_tx a b \<longleftrightarrow> tx_headerq a = tx_headerq b \<and> tx_nonhdr_data a = tx_nonhdr_data b \<and>
     opcode a = opcode b \<and> lastopcode a = lastopcode b \<and> headeroffset a = headeroffset b \<and>
     rx_nonhdr_data a = rx_nonhdr_data b"

lemma same_tx_refl [simp]: "same_tx a a"
  by (simp add: same_tx_def)

lemma same_tx_trans: "same_tx a b \<Longrightarrow> same_tx b c \<Longrightarrow> same_tx a c"
  by (simp add: same_tx_def)

lemma counted_body [simp]: "counted OBEX_HDR_BODY" "counted OBEX_HDR_BODY_END" "\<not> counted OBEX_HDR_LENGTH"
  by (simp_all add: counted_def obex_header_ids)

text \<open>The two top bits leave four encodings.\<close>

lemma header_classes: "(hi :: u8) AND 0xC0 \<in> {0, 0x40, 0x80, 0xC0}"
  using and_two_bits [of hi 7 6] by (auto split: if_splits)

lemma hd_wire: "wire (hi, v) \<noteq> [] \<and> hd (wire (hi, v) @ r) = hi"
  by simp

lemma len3:
  assumes "n + 3 < 2 ^ 16"
  shows "(ucast (of_nat (n + 3) :: u16) :: u32) = of_nat (n + 3)"
    and "(ucast (of_nat (n + 3) :: u16) :: u32) - 3 = of_nat n"
    and "unat (of_nat n :: u32) = n" and "unat (of_nat (n + 3) :: u32) = n + 3"
proof -
  have u: "unat (of_nat (n + 3) :: u16) = n + 3" using assms by (intro unat_of_nat_eq) simp
  show eq: "(ucast (of_nat (n + 3) :: u16) :: u32) = of_nat (n + 3)"
    by (metis u of_nat_unat)
  then show "(ucast (of_nat (n + 3) :: u16) :: u32) - 3 = of_nat n" by simp
  show "unat (of_nat n :: u32) = n" "unat (of_nat (n + 3) :: u32) = n + 3"
    by (rule unat_of_nat_eq, use assms in simp)+
qed

lemma header_extent_wire:
  assumes "wf_hdr (hi, v)" and "holds msg (wire (hi, v) @ rest)"
  shows "header_extent msg hi =
     Inr (Some (if counted hi then 3 else 1), of_nat (length v), of_nat (length (wire (hi, v))))"
proof (cases "counted hi")
  case True
  with assms have len: "length v + 3 < 2 ^ 16" by simp
  have "peek msg 1 2 = Some (be16 (of_nat (length v + 3)))"
    using peek_holds [OF assms(2), of 1 2] True by simp
  with True len3 [OF len] show ?thesis
    by (simp add: header_extent_def counted_def Let_def add.commute)
next
  case False
  then show ?thesis
    using assms(1) by (auto simp: header_extent_def counted_def Let_def obex_header_ids split: if_splits)
qed

lemma peek_value:
  assumes "wf_hdr (hi, v)" and "holds msg (wire (hi, v) @ rest)"
  shows "peek msg (if counted hi then 3 else 1) (length v) = Some v"
  using peek_holds [OF assms(2), of "if counted hi then 3 else 1" "length v"]
  by (auto simp: be16_def)

lemma wf_len32: "wf_hdr (hi, v) \<Longrightarrow> unat (of_nat (length v) :: u32) = length v"
  by (auto simp: unat_of_nat_eq split: if_splits)

lemma unat_len_wire: "wf_hdr (hi, v) \<Longrightarrow> unat (of_nat (length (wire (hi, v))) :: u32) = length (wire (hi, v))"
  by (rule unat_of_nat_eq) (auto split: if_splits)

section \<open>The parser on well-formed messages\<close>

lemma queue_header_ok:
  assumes al: "plenty alloc" and wf: "wf_hdr (hi, v)" and h: "holds msg (wire (hi, v) @ rest)"
    and rel: "rx_rel object (q, body)"
  shows "\<exists>object'. queue_header alloc object msg hi (if counted hi then 3 else 1) (of_nat (length v)) =
      Inr (False, object') \<and> rx_rel object' (q @ [(hi, v)], body) \<and> same_tx object object'"
proof -
  obtain object1 where o1: "(if hi = OBEX_HDR_LENGTH
            then rbind (need (peek msg 1 4)) (\<lambda>hv. Inr (object\<lparr>hinted_body_len := sint (of_be32 hv)\<rparr>))
            else Inr object) = Inr object1" and s1: "same_tx object object1"
    and r1: "rx_headerq object1 = rx_headerq object" "rx_body object1 = rx_body object"
  proof (cases "hi = OBEX_HDR_LENGTH")
    case True
    then have "length v = 4" using wf by (simp add: counted_def obex_header_ids split: if_splits)
    then have "peek msg 1 4 = Some v" using peek_value [OF wf h] True by simp
    then show ?thesis using True that by (simp add: same_tx_def)
  qed (use that in simp)
  obtain e where e: "malloc alloc sizeof_element = Some e" using plenty_malloc [OF al] by blast
  define b0 where "b0 = (if (of_nat (length v) :: u32) = 0 then Inr (buf_new alloc 1)
              else (case buf_new alloc (unat (of_nat (length v) :: u32)) of None \<Rightarrow> Inr None
                    | Some b \<Rightarrow> rbind (need (peek msg (if counted hi then 3 else 1) (unat (of_nat (length v) :: u32)))) (insert_end alloc (Some b))))"
  obtain b where b: "b0 = Inr (Some b)" "holds (Some b) v"
  proof (cases "v = []")
    case True
    obtain p where "buf_new alloc 1 = Some p" using plenty_new [OF al] by blast
    with True that holds_new show ?thesis by (simp add: b0_def)
  next
    case False
    have z: "(of_nat (length v) :: u32) \<noteq> 0" using wf_len32 [OF wf] False by (metis length_0_conv unat_0)
    obtain p where p: "buf_new alloc (length v) = Some p" using plenty_new [OF al] by blast
    obtain m' where "insert_end alloc (Some p) v = Inr m'" "holds m' v"
      using insert_end_total [OF al holds_new [OF p], of v] by auto
    with p z that peek_value [OF wf h] wf_len32 [OF wf] show ?thesis
      by (auto simp: b0_def holds_def)
  qed
  have "queue_header alloc object msg hi (if counted hi then 3 else 1) (of_nat (length v)) =
     Inr (False, object1\<lparr>rx_headerq := rx_headerq object1 @
       [\<lparr>h_buf = Some b, h_hi = hi, h_flags = 0, h_length = of_nat (length v), body_touched = False\<rparr>]\<rparr>)"
    using e b(1) by (simp add: queue_header_def o1 b0_def)
  with b(2) s1 r1 rel show ?thesis
    by (auto simp: same_tx_def list_all2_appendI)
qed

text \<open>The body buffer after room has been made for a fragment.\<close>

lemma grow_body_ok:
  assumes al: "plenty alloc" and b: "holds (Some body) bs"
  shows "\<exists>body1. grow_body alloc body n = (False, Some body1) \<and> holds (Some body1) bs"
proof -
  let ?want = "buf_total_size (Some body) + OBEX_OBJECT_ALLOCATIONTRESHOLD + n"
  obtain body1 where r: "buf_resize alloc (Some body) ?want = Some body1"
    by (cases "buf_resize alloc (Some body) ?want") (auto simp: Let_def split: option.splits if_splits)
  from b have ok: "buf_ok body" "contents body = bs" by (auto simp: holds_def)
  have "alloc ?want \<noteq> None" using al by (simp add: plenty_def)
  from buf_resize_ok [OF ok(1) this r] have "buf_ok body1" "contents body1 = take ?want bs"
    "length (buffer body1) = ?want" using ok by auto
  moreover have "length bs \<le> ?want" using ok by auto
  ultimately have "holds (Some body1) bs \<and> buf_total_size (Some body1) = ?want"
    by (auto simp: holds_def buf_ok_def)
  with r b show ?thesis
    unfolding grow_body_def Let_def by (simp only: r split: if_split) blast
qed

lemma receive_body_ok:
  assumes al: "plenty alloc" and wf: "wf_hdr (hi, v)" and h: "holds msg (wire (hi, v) @ rest)"
    and hi: "hi = OBEX_HDR_BODY \<or> hi = OBEX_HDR_BODY_END" and rel: "rx_rel object (q, body)"
  shows "\<exists>object'. obex_object_receive_body alloc object msg hi 3 (of_nat (length v)) = Inr (False, object') \<and>
     rx_rel object' (rx_spec (q, body) (hi, v)) \<and> same_tx object object'"
proof -
  have ctd: "counted hi" using hi by auto
  have lv: "unat (of_nat (length v) :: u32) = length v" by (rule wf_len32 [OF wf])
  have le: "\<not> length v > size_of msg" using holds_size [OF h] by simp
  obtain p where p: "body_buffer alloc object (length v) = Some p"
    and hp: "holds (Some p) (body_bytes body)"
  proof (cases body)
    case None
    then have "rx_body object = None" using rel by simp
    moreover obtain p where "buf_new alloc (if hinted_body_len object \<noteq> 0
        then size_t_of_int (hinted_body_len object) else OBEX_OBJECT_ALLOCATIONTRESHOLD + length v) = Some p"
      using plenty_new [OF al] by blast
    ultimately show ?thesis using that holds_new None by (simp add: body_buffer_def)
  next
    case (Some bs)
    then have "holds (rx_body object) bs" using rel by simp
    then show ?thesis using that Some by (auto simp: holds_def body_buffer_def)
  qed
  obtain p1 where p1: "grow_body alloc p (length v) = (False, Some p1)" "holds (Some p1) (body_bytes body)"
    using grow_body_ok [OF al hp] by blast
  obtain p2 where p2: "insert_end alloc (Some p1) v = Inr p2" "holds p2 (body_bytes body @ v)"
    using insert_end_total [OF al p1(2)] by blast
  have pk: "peek msg 3 (length v) = Some v" using peek_value [OF wf h] ctd by simp
  obtain e where e: "malloc alloc sizeof_element = Some e" using plenty_malloc [OF al] by blast
  have "obex_object_receive_body alloc object msg hi 3 (of_nat (length v)) =
     Inr (False, if hi = OBEX_HDR_BODY_END then finish_body alloc object p2 else object\<lparr>rx_body := p2\<rparr>)"
    using le p p1(1) pk p2(1) by (simp add: obex_object_receive_body_def lv)
  with rel p2(2) hi holds_size [OF p2(2)] e show ?thesis
    by (auto simp: same_tx_def list_all2_appendI finish_body_def obex_header_ids)
qed

lemma receive_header_ok:
  assumes al: "plenty alloc" and wf: "wf_hdr (hi, v)" and h: "holds msg (wire (hi, v) @ rest)"
    and rel: "rx_rel object (q, body)"
  shows "\<exists>object'. receive_header alloc object msg = Inr (False, of_nat (length (wire (hi, v))), object') \<and>
     rx_rel object' (rx_spec (q, body) (hi, v)) \<and> same_tx object object'"
proof -
  have pk: "need (peek msg 0 1) = Inr [hi]"
    using peek_holds [OF h, of 0 1] by simp
  have ge: "\<not> size_of msg < unat (of_nat (length v) :: u32)"
    using holds_size [OF h] wf_len32 [OF wf] by simp
  let ?len = "of_nat (length v) :: u32" and ?hlen = "of_nat (length (wire (hi, v))) :: u32"
  show ?thesis
  proof (cases "hi = OBEX_HDR_BODY \<or> hi = OBEX_HDR_BODY_END")
    case True
    obtain object' where r: "obex_object_receive_body alloc object msg hi 3 ?len = Inr (False, object')"
      and rest: "rx_rel object' (rx_spec (q, body) (hi, v))" "same_tx object object'"
      using receive_body_ok [OF al wf h True rel] by blast
    have src: "header_extent msg hi = Inr (Some 3, ?len, ?hlen)"
      using header_extent_wire [OF wf h] True counted_body by (auto simp del: wire.simps)
    have "receive_header alloc object msg = Inr (False, ?hlen, object')"
      unfolding receive_header_def receive_source_def pk rbind.simps list.sel src prod.case
      using True r ge by (simp only: rbind.simps prod.case if_True if_False simp_thms option.case)
    with rest show ?thesis by blast
  next
    case False
    obtain object' where r: "queue_header alloc object msg hi (if counted hi then 3 else 1) ?len = Inr (False, object')"
      and rest: "rx_rel object' (q @ [(hi, v)], body)" "same_tx object object'"
      using queue_header_ok [OF al wf h rel] by blast
    have sp: "rx_spec (q, body) (hi, v) = (q @ [(hi, v)], body)" using False by simp
    have "receive_header alloc object msg = Inr (False, ?hlen, object')"
      unfolding receive_header_def receive_source_def pk rbind.simps list.sel header_extent_wire [OF wf h] prod.case
      using False r ge
      by (simp only: rbind.simps prod.case if_False simp_thms option.case option.distinct)
    with rest sp show ?thesis by simp
  qed
qed

declare wire.simps [simp del] wf_hdr.simps [simp del] rx_rel.simps [simp del]

lemma wire_nonempty [simp]: "wire x \<noteq> []"
  by (cases x) (simp add: wire.simps)

lemma receive_headers_ok:
  assumes al: "plenty alloc" and "list_all wf_hdr hs" and "holds msg (concat (map wire hs))"
    and "rx_rel object st" and "length hs \<le> k"
  shows "\<exists>object' msg'. receive_headers k alloc object msg = Inr (False, object', msg') \<and>
     rx_rel object' (foldl rx_spec st hs) \<and> holds msg' [] \<and> same_tx object object'"
  using assms(2-)
proof (induction hs arbitrary: k msg object st)
  case Nil
  then show ?case using holds_size [OF Nil(2)] by (subst receive_headers.simps) auto
next
  case (Cons x hs)
  obtain hi v where x: "x = (hi, v)" by (cases x)
  obtain q body where st: "st = (q, body)" by (cases st)
  obtain k' where k: "k = Suc k'" using Cons.prems(4) by (cases k) auto
  have wf: "wf_hdr (hi, v)" using Cons.prems(1) x by simp
  have h: "holds msg (wire (hi, v) @ concat (map wire hs))" using Cons.prems(2) x by simp
  have rel: "rx_rel object (q, body)" using Cons.prems(3) st by simp
  from receive_header_ok [OF al wf h rel] obtain object1 where
    o1: "receive_header alloc object msg = Inr (False, of_nat (length (wire (hi, v))), object1)"
    "rx_rel object1 (rx_spec st x)" "same_tx object object1"
    by (auto simp: x st)
  have "holds (buf_remove_begin msg (length (wire (hi, v)))) (concat (map wire hs))"
    using holds_remove_begin [OF h, of "length (wire (hi, v))"] by simp
  from Cons.IH [OF _ this o1(2), of k'] Cons.prems k obtain object' msg' where
    "receive_headers k' alloc object1 (buf_remove_begin msg (length (wire (hi, v)))) = Inr (False, object', msg')"
    "rx_rel object' (foldl rx_spec st (x # hs))" "holds msg' []" "same_tx object1 object'"
    by auto
  moreover have "size_of msg \<noteq> 0" using holds_size [OF h] by simp
  then have "receive_headers k alloc object msg =
      receive_headers k' alloc object1 (buf_remove_begin msg (length (wire (hi, v))))"
    using o1(1) unat_len_wire [OF wf] by (subst receive_headers.simps) (simp add: k)
  ultimately show ?case using same_tx_trans [OF o1(3)] by metis
qed

section \<open>The parser on any message\<close>

lemma rbind_fuel_iff:
  "rbind m f = Inl Out_of_fuel \<longleftrightarrow> m = Inl Out_of_fuel \<or> (\<exists>x. m = Inr x \<and> f x = Inl Out_of_fuel)"
  by (cases m) auto

lemma need_no_fuel [simp]: "need m \<noteq> Inl Out_of_fuel"
  by (cases m) auto

lemma insert_end_no_fuel [simp]: "insert_end alloc m xs \<noteq> Inl Out_of_fuel"
  by (simp add: insert_end_def rbind_fuel_iff)

lemma receive_header_no_fuel: "receive_header alloc object msg \<noteq> Inl Out_of_fuel"
proof -
  have 1: "header_extent msg hi \<noteq> Inl Out_of_fuel" for hi
    by (simp add: header_extent_def Let_def rbind_fuel_iff)
  have 2: "obex_object_receive_body alloc object msg hi src len \<noteq> Inl Out_of_fuel" for object hi src len
    by (simp add: obex_object_receive_body_def rbind_fuel_iff split: option.split prod.split)
  have 3: "queue_header alloc object msg hi src len \<noteq> Inl Out_of_fuel" for object hi src len
    by (simp add: queue_header_def rbind_fuel_iff split: option.split)
  show ?thesis
    using 1 2 3 by (simp add: receive_header_def receive_source_def rbind_fuel_iff split: option.split)
qed

text \<open>A counted header of size 0, 1 or 2 makes \<^verbatim>\<open>len\<close> wrap to a number larger than any message,
  so the size check rejects it and a round that goes on takes at least two bytes.\<close>

lemma header_extent_progress:
  assumes "header_extent msg hi = Inr (source, len, hlen)" and "unat len \<le> n" and "n < 2 ^ 16"
  shows "2 \<le> unat hlen \<or> source = None"
proof (cases "counted hi")
  case True
  then obtain hl :: u16 where hl: "hlen = ucast hl" "len = hlen - 3"
    using assms(1) by (auto simp: header_extent_def counted_def Let_def rbind_Inr_iff)
  have "hlen \<noteq> 0" and "hlen \<noteq> 1"
    using assms(2,3) hl(2) by auto
  then have "unat hlen \<noteq> 0" "unat hlen \<noteq> 1"
    by (simp_all add: word_unat_eq_iff)
  then show ?thesis by linarith
next
  case False
  then show ?thesis
    using assms(1) by (auto simp: header_extent_def counted_def Let_def split: if_splits)
qed

lemma receive_header_progress:
  assumes "receive_header alloc object msg = Inr (False, hlen, object')" and "size_of msg < 2 ^ 16"
  shows "2 \<le> unat hlen"
proof -
  from assms(1) obtain b source len err1 source1 object1 where
    e: "header_extent msg (hd b) = Inr (source, len, hlen)" and le: "unat len \<le> size_of msg"
    and r: "receive_source alloc object msg (hd b) source len = Inr (err1, source1, object1)"
    and ne: "\<not> err1"
    by (auto simp: receive_header_def rbind_Inr_iff not_less split: if_splits option.splits)
  then have "source \<noteq> None" by (auto simp: receive_source_def split: if_splits)
  with header_extent_progress [OF e le assms(2)] show ?thesis by blast
qed

lemma size_remove_begin: "size_of (buf_remove_begin m n) = size_of m - n"
  by (cases m) (auto simp: Let_def)

lemma receive_headers_no_fuel:
  "size_of msg \<le> k \<Longrightarrow> size_of msg < 2 ^ 16 \<Longrightarrow> receive_headers k alloc object msg \<noteq> Inl Out_of_fuel"
proof (induction k arbitrary: object msg)
  case 0
  then show ?case by (subst receive_headers.simps) simp
next
  case (Suc k)
  have "receive_headers k alloc object1 (buf_remove_begin msg (unat hlen)) \<noteq> Inl Out_of_fuel"
    if "receive_header alloc object msg = Inr (False, hlen, object1)" for object1 hlen
    using Suc.IH [of "buf_remove_begin msg (unat hlen)" object1] Suc.prems
      receive_header_progress [OF that Suc.prems(2)] by (simp add: size_remove_begin)
  then show ?case
    using receive_header_no_fuel by (subst receive_headers.simps) (auto simp: rbind_fuel_iff)
qed

text \<open>The size check compares the length of the value, not of the whole header, with the bytes
  left, so a malformed header can be read up to three bytes past the message; with that much
  room behind the message in its block every access is inside.\<close>

definition slack :: "buf_t option \<Rightarrow> bool" where
  "slack m \<longleftrightarrow> (\<exists>p. m = Some p \<and> buf_ok p \<and> 3 \<le> data_avail p + tail_avail p)"

definition body_ok :: "obex_object \<Rightarrow> bool" where
  "body_ok object \<longleftrightarrow> (rx_body object \<noteq> None \<longrightarrow> (\<exists>bs. holds (rx_body object) bs))"

lemma peek_slack:
  "slack m \<Longrightarrow> off + n \<le> size_of m + 3 \<Longrightarrow> \<exists>bs. peek m off n = Some bs \<and> length bs = n"
  by (auto simp: slack_def buf_ok_def)

lemma slack_remove_begin: "slack m \<Longrightarrow> slack (buf_remove_begin m n)"
  by (auto simp: slack_def Let_def buf_ok_def)

lemma header_extent_total:
  assumes "slack msg" and "0 < size_of msg"
  obtains source len hlen where "header_extent msg hi = Inr (source, len, hlen)"
    and "source = Some 3 \<or> source = Some 1 \<and> unat len \<le> 4 \<or> source = None"
    and "hi = OBEX_HDR_LENGTH \<longrightarrow> len = 4"
proof -
  obtain hl where "peek msg 1 2 = Some hl" using peek_slack [OF assms(1), of 1 2] assms(2) by auto
  then have "counted hi \<Longrightarrow> header_extent msg hi =
      Inr (Some 3, ucast (of_be16 hl) - 3, ucast (of_be16 hl)) \<and> hi \<noteq> OBEX_HDR_LENGTH"
    by (auto simp: header_extent_def counted_def Let_def obex_header_ids)
  moreover have "\<not> counted hi \<Longrightarrow>
      header_extent msg hi = Inr (Some 1, 1, 2) \<and> hi \<noteq> OBEX_HDR_LENGTH \<or>
      header_extent msg hi = Inr (Some 1, 4, 5) \<or>
      header_extent msg hi = Inr (None, 0, 0) \<and> hi \<noteq> OBEX_HDR_LENGTH"
    by (auto simp: header_extent_def counted_def Let_def obex_header_ids)
  ultimately show thesis using that by (cases "counted hi") fastforce+
qed

lemma receive_body_total:
  assumes al: "plenty alloc" and sl: "slack msg" and ok: "body_ok object"
  shows "\<exists>err object'. obex_object_receive_body alloc object msg hi 3 len = Inr (err, object') \<and> body_ok object'"
proof (cases "unat len > size_of msg")
  case True
  with ok show ?thesis by (auto simp: obex_object_receive_body_def)
next
  case False
  obtain p bs where p: "body_buffer alloc object (unat len) = Some p" "holds (Some p) bs"
  proof (cases "rx_body object")
    case None
    then show ?thesis using that plenty_new [OF al] holds_new by (fastforce simp: body_buffer_def)
  next
    case (Some p)
    then show ?thesis using that ok by (auto simp: body_ok_def body_buffer_def)
  qed
  obtain p1 where p1: "grow_body alloc p (unat len) = (False, Some p1)" "holds (Some p1) bs"
    using grow_body_ok [OF al p(2)] by blast
  obtain xs where xs: "peek msg 3 (unat len) = Some xs" using peek_slack [OF sl, of 3 "unat len"] False by auto
  obtain p2 where p2: "insert_end alloc (Some p1) xs = Inr p2" "holds p2 (bs @ xs)"
    using insert_end_total [OF al p1(2)] by blast
  have "obex_object_receive_body alloc object msg hi 3 len =
      Inr (False, if hi = OBEX_HDR_BODY_END then finish_body alloc object p2 else object\<lparr>rx_body := p2\<rparr>)"
    using False p(1) p1(1) xs p2(1) by (simp add: obex_object_receive_body_def)
  with p2(2) show ?thesis
    by (auto simp: body_ok_def finish_body_def split: option.splits)
qed

lemma queue_header_total:
  assumes al: "plenty alloc" and sl: "slack msg" and ok: "body_ok object" and le: "unat len \<le> size_of msg"
    and src: "src \<le> 3" and l4: "hi = OBEX_HDR_LENGTH \<Longrightarrow> len = 4"
  shows "\<exists>err object'. queue_header alloc object msg hi src len = Inr (err, object') \<and> body_ok object'"
proof -
  obtain object1 where o1: "(if hi = OBEX_HDR_LENGTH
            then rbind (need (peek msg 1 4)) (\<lambda>hv. Inr (object\<lparr>hinted_body_len := sint (of_be32 hv)\<rparr>))
            else Inr object) = Inr object1" and b1: "rx_body object1 = rx_body object"
    using peek_slack [OF sl, of 1 4] le l4 that by (cases "hi = OBEX_HDR_LENGTH") fastforce+
  obtain e where e: "malloc alloc sizeof_element = Some e" using plenty_malloc [OF al] by blast
  obtain xs where xs: "peek msg src (unat len) = Some xs" using peek_slack [OF sl, of src "unat len"] le src by auto
  obtain p where p: "buf_new alloc (unat len) = Some p" using plenty_new [OF al] by blast
  obtain p1 where p1: "buf_new alloc 1 = Some p1" using plenty_new [OF al] by blast
  obtain m' where m': "insert_end alloc (Some p) xs = Inr m'"
    using insert_end_total [OF al holds_new [OF p]] by blast
  show ?thesis
    unfolding queue_header_def o1 rbind.simps e option.case xs p p1 m'
    using b1 ok xs m' by (cases "len = 0"; cases m') (auto simp: body_ok_def)
qed

lemma receive_header_total:
  assumes al: "plenty alloc" and sl: "slack msg" and ok: "body_ok object" and nz: "0 < size_of msg"
  shows "\<exists>err hlen object'. receive_header alloc object msg = Inr (err, hlen, object') \<and> body_ok object'"
proof -
  obtain b where b: "peek msg 0 1 = Some b" using peek_slack [OF sl, of 0 1] by auto
  obtain source len hlen where e: "header_extent msg (hd b) = Inr (source, len, hlen)"
    and s: "source = Some 3 \<or> source = Some 1 \<and> unat len \<le> 4 \<or> source = None"
    and l4: "hd b = OBEX_HDR_LENGTH \<longrightarrow> len = 4"
    using header_extent_total [OF sl nz, of "hd b"] by blast
  obtain err1 source1 object1 where
    r: "receive_source alloc object msg (hd b) source len = Inr (err1, source1, object1)"
    and ok1: "body_ok object1" and s1: "source1 = None \<or> source1 = source"
    using receive_body_total [OF al sl ok, of "hd b" len] ok that
    by (cases "source = Some 3 \<and> (hd b = OBEX_HDR_BODY \<or> hd b = OBEX_HDR_BODY_END)")
      (auto simp: receive_source_def)
  have "\<exists>err object'. queue_header alloc object1 msg (hd b) src len = Inr (err, object') \<and> body_ok object'"
    if "source1 = Some src" and "unat len \<le> size_of msg" for src
    using queue_header_total [OF al sl ok1 that(2) _ l4 [rule_format]] s s1 that(1) by auto
  then show ?thesis
    using b e r ok1 by (auto simp: receive_header_def not_less split: option.split)
qed

lemma receive_headers_total:
  assumes "plenty alloc"
  shows "slack msg \<Longrightarrow> body_ok object \<Longrightarrow> size_of msg \<le> k \<Longrightarrow> size_of msg < 2 ^ 16 \<Longrightarrow>
    \<exists>r. receive_headers k alloc object msg = Inr r"
proof (induction k arbitrary: object msg)
  case 0
  then show ?case by (subst receive_headers.simps) auto
next
  case (Suc k)
  show ?case
  proof (cases "size_of msg = 0")
    case True
    then show ?thesis by (subst receive_headers.simps) auto
  next
    case False
    with receive_header_total [OF assms Suc.prems(1,2)] obtain err hlen object1 where
      r: "receive_header alloc object msg = Inr (err, hlen, object1)" "body_ok object1" by auto
    have "\<exists>r. receive_headers k alloc object1 (buf_remove_begin msg (unat hlen)) = Inr r" if "\<not> err"
      using Suc.IH [OF slack_remove_begin [OF Suc.prems(1)] r(2)] Suc.prems
        receive_header_progress [of alloc object msg hlen object1] r(1) that by (auto simp: size_remove_begin)
    with False r show ?thesis by (subst receive_headers.simps) auto
  qed
qed

section \<open>Properties\<close>

lemma plenty_always [simp]: "plenty (always g)"
  by (simp add: plenty_def always_def)

text \<open>A message alone in its block.\<close>

definition exact_buf :: "bytes \<Rightarrow> buf_t option" where
  "exact_buf bs = Some \<lparr>buffer = bs, data = 0, head_avail = 0, data_avail = 0, tail_avail = 0,
     data_size = length bs\<rparr>"

lemma holds_exact [simp]: "holds (exact_buf bs) bs"
  by (simp add: exact_buf_def holds_def buf_ok_def contents_def)

text \<open>C8. The response parser recovers exactly the headers a message encodes: for every list of
  well-formed headers, parsing their wire encoding queues them in order, gathers the body
  fragments of this and earlier messages into one body header when the end-of-body header
  arrives, and consumes the message.\<close>

theorem obex_parse_roundtrip:
  assumes "plenty alloc" and "list_all wf_hdr hs" and "holds msg (concat (map wire hs))"
    and "rx_rel object st"
  shows "\<exists>object' msg'. receive_headers (size_of msg) alloc object msg = Inr (False, object', msg') \<and>
     rx_rel object' (foldl rx_spec st hs) \<and> holds msg' []"
proof -
  have "length hs \<le> length (concat (map wire hs))"
  proof (induction hs)
    case (Cons x hs)
    have "1 \<le> length (wire x)" by (simp add: Suc_le_eq)
    with Cons show ?case by (simp del: wire_nonempty)
  qed simp
  then have "length hs \<le> size_of msg" using holds_size [OF assms(3)] by simp
  from receive_headers_ok [OF assms this] show ?thesis by blast
qed

definition empty_object :: obex_object where
  "empty_object = \<lparr>tx_headerq = [], rx_headerq = [], rx_headerq_rm = [], rx_body = None,
     tx_nonhdr_data = None, rx_nonhdr_data = None, o_cmd = OBEX_CMD_GET, opcode = OBEX_CMD_GET,
     lastopcode = OBEX_CMD_GET OR OBEX_FINAL, headeroffset = 0, hinted_body_len = 0, totallen = 0\<rparr>"

lemma rx_rel_empty [simp]: "rx_rel empty_object ([], None)"
  by (simp add: empty_object_def rx_rel.simps)

theorem obex_parse_roundtrip_witness:
  "\<exists>object' msg'.
     receive_headers 19 (always (\<lambda>_. 0)) empty_object
       (exact_buf [0xC3, 0, 0, 0, 3, 0x48, 0, 5, 7, 8, 0x49, 0, 4, 9, 0x01, 0, 5, 0, 65]) = Inr (False, object', msg') \<and>
     rx_rel object' ([(0xC3, [0, 0, 0, 3]), (0x48, [7, 8, 9]), (0x01, [0, 65])], None) \<and> holds msg' []"
proof -
  let ?hs = "[(OBEX_HDR_LENGTH, [0, 0, 0, 3]), (OBEX_HDR_BODY, [7, 8]), (OBEX_HDR_BODY_END, [9]),
    (OBEX_HDR_NAME, [0, 65])]"
  let ?m = "[0xC3, 0, 0, 0, 3, 0x48, 0, 5, 7, 8, 0x49, 0, 4, 9, 0x01, 0, 5, 0, 65]"
  have wires: "concat (map wire ?hs) = ?m"
    by (simp add: wire.simps counted_def obex_header_ids be16_def)
  have wf: "list_all wf_hdr ?hs"
    by (simp add: wf_hdr.simps counted_def obex_header_ids)
  have "holds (exact_buf ?m) (concat (map wire ?hs))" unfolding wires by simp
  moreover have "size_of (exact_buf ?m) = 19" by (simp add: exact_buf_def)
  ultimately show ?thesis
    using obex_parse_roundtrip [OF plenty_always wf _ rx_rel_empty, of "exact_buf ?m" "\<lambda>_. 0"]
    by (simp add: obex_header_ids)
qed

text \<open>C9. Whatever bytes a message of up to 65535 bytes holds, the parser comes to an end
  without an access outside the message's block, as long as three bytes of the block lie
  behind the message.\<close>

theorem obex_parse_total:
  assumes "plenty alloc" and "slack msg" and "body_ok object" and "size_of msg < 2 ^ 16"
  shows "\<exists>err object' msg'. receive_headers (size_of msg) alloc object msg = Inr (err, object', msg')"
  using receive_headers_total [OF assms(1,2,3) order_refl assms(4)] by auto

theorem obex_parse_total_witness:
  "\<exists>err object' msg'. receive_headers 4 (always (\<lambda>_. 0)) empty_object
     (Some \<lparr>buffer = [0xC3, 1, 2, 3, 0, 0, 0], data = 0, head_avail = 0, data_avail = 3, tail_avail = 0,
       data_size = 4\<rparr>) = Inr (err, object', msg')"
proof -
  let ?p = "\<lparr>buffer = [0xC3, 1, 2, 3, 0, 0, 0], data = 0, head_avail = 0, data_avail = 3, tail_avail = 0,
       data_size = 4\<rparr>"
  have "slack (Some ?p)" by (simp add: slack_def buf_ok_def)
  moreover have "body_ok empty_object" by (simp add: body_ok_def empty_object_def)
  moreover have "size_of (Some ?p) = 4" by simp
  ultimately show ?thesis using obex_parse_total [OF plenty_always, of "Some ?p" empty_object "\<lambda>_. 0"] by simp
qed


end
