(* ===== verification/Obex_Send.thy ===== *)
theory Obex_Send
  imports Obex_Receive
begin

text \<open>
  Correctness of the sending half of \<^verbatim>\<open>obex.c\<close> and of the request loop: how the header queue is
  cut into packets, what goes over the wire, and that a request against an answering device
  delivers the headers and the whole body.
\<close>

section \<open>The header queue\<close>

datatype txh = Hdr hdr | Body bytes

fun tx_elem :: "obex_header_element \<Rightarrow> txh \<Rightarrow> bool" where
  "tx_elem h (Hdr (hi, v)) \<longleftrightarrow>
     h_hi h = hi \<and> hi \<noteq> OBEX_HDR_BODY \<and> hi \<noteq> OBEX_HDR_EMPTY \<and> holds (h_buf h) (wire (hi, v)) \<and>
     unat (h_length h) = length (wire (hi, v))"
| "tx_elem h (Body bs) \<longleftrightarrow>
     h_hi h = OBEX_HDR_BODY \<and>
     (if body_touched h then holds (h_buf h) bs else (\<exists>hd3. length hd3 = 3 \<and> holds (h_buf h) (hd3 @ bs)))"

text \<open>What one packet takes from the queue, with \<open>left\<close> bytes of room: the error return, the
  headers sent and the queue left over. The last body fragment is accounted for without its
  three header bytes, as in the source.\<close>

fun fill :: "nat \<Rightarrow> nat \<Rightarrow> txh list \<Rightarrow> (bool \<times> hdr list \<times> txh list) res" where
  "fill mtu left [] = Inr (False, [], [])"
| "fill mtu left (Body bs # q) =
     (if left < length bs + 3
      then if left < 3 then Inl Abort
           else Inr (False, [(OBEX_HDR_BODY, take (left - 3) bs)], Body (drop (left - 3) bs) # q)
      else rbind (fill mtu (left - length bs) q) (\<lambda>(e, s, r). Inr (e, (OBEX_HDR_BODY_END, bs) # s, r)))"
| "fill mtu left (Hdr x # q) =
     (if length (wire x) \<le> left
      then if length (wire x) = left then Inr (False, [x], q)
           else rbind (fill mtu (left - length (wire x)) q) (\<lambda>(e, s, r). Inr (e, x # s, r))
      else if length (wire x) > mtu then Inr (True, [], Hdr x # q)
      else Inr (False, [], Hdr x # q))"

lemma touch_body_holds:
  "tx_elem h (Body bs) \<Longrightarrow> tx_elem (touch_body h) (Body bs) \<and> holds (h_buf (touch_body h)) bs \<and>
     body_touched (touch_body h)"
  using holds_remove_begin [of "h_buf h" _ 3] by (fastforce simp: touch_body_def)

lemma fill_reserved3:
  assumes al: "plenty alloc" and tx: "holds tx bs" and xs: "length xs = n"
  obtains tx' where "fill_reserved (buf_reserve_end alloc tx n) xs = Inr tx'" and "holds tx' (bs @ xs)"
  using insert_end_total [OF al tx, of xs] fill_reserved_end [of alloc tx xs] xs by auto

lemma send_body_fragment:
  assumes al: "plenty alloc" and e: "tx_elem h (Body bs)" and tx: "holds tx ts"
    and lt: "unat (left :: u16) < length bs + 3" and ge: "3 \<le> unat left"
  shows "\<exists>h' tx'. send_body alloc h tx (ucast left) = Inr (ucast left, Some h', tx') \<and>
     tx_elem h' (Body (drop (unat left - 3) bs)) \<and>
     holds tx' (ts @ wire (OBEX_HDR_BODY, take (unat left - 3) bs))"
proof -
  define h1 where "h1 = touch_body h"
  have h1: "h_hi h1 = OBEX_HDR_BODY" "holds (h_buf h1) bs" "body_touched h1"
    using touch_body_holds [OF e] by (auto simp: h1_def)
  have ul: "unat (ucast left :: u32) = unat left" by (simp add: unat_ucast_up)
  have uu: "(ucast (ucast left :: u32) :: u16) = left"
    by (rule bit_word_eqI) (simp add: bit_simps)
  have not3: "\<not> (ucast left :: u32) < 3" using ge ul by (simp add: word_less_nat_alt)
  obtain tx1 where tx1: "fill_reserved (buf_reserve_end alloc tx 3) (OBEX_HDR_BODY # be16 left) = Inr tx1"
    "holds tx1 (ts @ OBEX_HDR_BODY # be16 left)"
    using fill_reserved3 [OF al tx, of "OBEX_HDR_BODY # be16 left" 3] by auto
  have pk: "peek (h_buf h1) 0 (unat left - 3) = Some (take (unat left - 3) bs)"
    using peek_holds [OF h1(2), of 0 "unat left - 3"] lt by auto
  obtain tx2 where tx2: "insert_end alloc tx1 (take (unat left - 3) bs) = Inr tx2"
    "holds tx2 ((ts @ OBEX_HDR_BODY # be16 left) @ take (unat left - 3) bs)"
    using insert_end_total [OF al tx1(2)] by blast
  have "length (take (unat left - 3) bs) + 3 = unat left" using lt ge by auto
  then have "wire (OBEX_HDR_BODY, take (unat left - 3) bs) = OBEX_HDR_BODY # be16 left @ take (unat left - 3) bs"
    by (simp only: wire.simps counted_body if_True) simp
  moreover have "send_body alloc h tx (ucast left) =
      Inr (ucast left, Some (h1\<lparr>h_buf := buf_remove_begin (h_buf h1) (unat left - 3)\<rparr>), tx2)"
    using lt not3 tx1(1) tx2(1) pk holds_size [OF h1(2)]
    by (simp add: send_body_def body_fragment_def Let_def ul uu flip: h1_def)
  ultimately show ?thesis
    using tx2(2) h1 holds_remove_begin [OF h1(2)] by auto
qed

lemma send_body_last:
  assumes al: "plenty alloc" and e: "tx_elem h (Body bs)" and tx: "holds tx ts"
    and ge: "length bs + 3 \<le> unat (left :: u16)"
  shows "\<exists>tx'. send_body alloc h tx (ucast left) = Inr (of_nat (length bs), None, tx') \<and>
     holds tx' (ts @ wire (OBEX_HDR_BODY_END, bs))"
proof -
  define h1 where "h1 = touch_body h"
  have h1: "holds (h_buf h1) bs" using touch_body_holds [OF e] by (auto simp: h1_def)
  have ul: "unat (ucast left :: u32) = unat left" by (simp add: unat_ucast_up)
  let ?hd = "OBEX_HDR_BODY_END # be16 (of_nat (length bs + 3))"
  obtain tx1 where tx1: "fill_reserved (buf_reserve_end alloc tx 3) ?hd = Inr tx1" "holds tx1 (ts @ ?hd)"
    using fill_reserved3 [OF al tx, of ?hd 3] by auto
  have pk: "peek (h_buf h1) 0 (length bs) = Some bs" using peek_holds [OF h1, of 0 "length bs"] by simp
  obtain tx2 where tx2: "insert_end alloc tx1 bs = Inr tx2" "holds tx2 ((ts @ ?hd) @ bs)"
    using insert_end_total [OF al tx1(2)] by blast
  have "send_body alloc h tx (ucast left) = Inr (of_nat (length bs), None, tx2)"
    using ge tx1(1) tx2(1) pk holds_size [OF h1]
    by (simp add: send_body_def body_last_def Let_def ul flip: h1_def)
  with tx2(2) show ?thesis by (auto simp: wire.simps)
qed

text \<open>One round of the stuffing loop on a last fragment and on a header that fits.\<close>

lemma stuff_last:
  assumes al: "plenty alloc" and e: "tx_elem h (Body bs)" and tx: "holds tx ts"
    and ge: "length bs + 3 \<le> unat left"
  shows "\<exists>tx1 l. stuff_headers alloc mtu (h # q) tx left = stuff_headers alloc mtu q tx1 l \<and>
     holds tx1 (ts @ wire (OBEX_HDR_BODY_END, bs)) \<and> unat l = unat left - length bs"
proof -
  obtain tx1 where s1: "send_body alloc h tx (ucast left) = Inr (of_nat (length bs), None, tx1)"
    and tx1: "holds tx1 (ts @ wire (OBEX_HDR_BODY_END, bs))"
    using send_body_last [OF al e tx ge] by auto
  have ub: "unat (of_nat (length bs) :: u16) = length bs"
    using ge unat_u16_lt [of left] by (intro unat_of_nat_eq) simp
  have uc: "(ucast (of_nat (length bs) :: u32) :: u16) = of_nat (length bs)"
    by (rule bit_word_eqI) (simp add: bit_simps)
  let ?l = "left - ucast (of_nat (length bs) :: u32)"
  have l: "unat ?l = unat left - length bs"
    using ge ub by (simp add: uc unat_sub word_le_nat_alt)
  then have "?l \<noteq> 0" using ge by (auto simp: unat_eq_0 [symmetric])
  with e s1 have "stuff_headers alloc mtu (h # q) tx left = stuff_headers alloc mtu q tx1 ?l" by simp
  with l tx1 show ?thesis by blast
qed

lemma stuff_plain:
  assumes al: "plenty alloc" and e: "tx_elem h (Hdr y)" and tx: "holds tx ts"
    and le: "length (wire y) \<le> unat left"
  shows "\<exists>tx1 l. stuff_headers alloc mtu (h # q) tx left =
       (if l = 0 then Inr (False, q, tx1) else stuff_headers alloc mtu q tx1 l) \<and>
     holds tx1 (ts @ wire y) \<and> unat l = unat left - length (wire y)"
proof -
  have hi: "h_hi h \<noteq> OBEX_HDR_BODY" "h_hi h \<noteq> OBEX_HDR_EMPTY" "holds (h_buf h) (wire y)"
    "unat (h_length h) = length (wire y)"
    using e by (cases y; auto)+
  let ?l = "left - ucast (h_length h)"
  have "unat (ucast (h_length h) :: u16) = length (wire y)"
    using le hi(4) unat_u16_lt [of left] by (simp add: unsigned_ucast_eq take_bit_nat_eq_self)
  then have l: "unat ?l = unat left - length (wire y)"
    using le by (simp add: unat_sub word_le_nat_alt)
  have "h_length h \<le> ucast left" using le hi(4) by (simp add: word_le_nat_alt unat_ucast_up)
  moreover have "peek (h_buf h) 0 (unat (h_length h)) = Some (wire y)"
    using peek_holds [OF hi(3), of 0 "length (wire y)"] hi(4) by simp
  moreover obtain tx1 where "insert_end alloc tx (wire y) = Inr tx1" and tx1: "holds tx1 (ts @ wire y)"
    using insert_end_total [OF al tx] by blast
  ultimately have "stuff_headers alloc mtu (h # q) tx left =
      (if ?l = 0 then Inr (False, q, tx1) else stuff_headers alloc mtu q tx1 ?l)"
    using hi by simp
  with l tx1 show ?thesis by blast
qed

lemma stuff_too_long:
  assumes "tx_elem h (Hdr y)" and "\<not> length (wire y) \<le> unat left"
  shows "stuff_headers alloc mtu (h # q) tx left = Inr (length (wire y) > unat mtu, h # q, tx)"
  using assms by (cases y) (simp add: word_le_nat_alt word_less_nat_alt unat_ucast_up)

lemma unat_zero: "unat w = 0 \<longleftrightarrow> w = 0"
  by (simp add: unat_eq_0)

lemma stuff_headers_ok:
  assumes al: "plenty alloc"
  shows "list_all2 tx_elem q xs \<Longrightarrow> holds tx ts \<Longrightarrow>
     fill (unat mtu) (unat left) xs = Inr (err, sent, rest) \<Longrightarrow>
     \<exists>q' tx'. stuff_headers alloc mtu q tx left = Inr (err, q', tx') \<and> list_all2 tx_elem q' rest \<and>
        holds tx' (ts @ concat (map wire sent))"
proof (induction q arbitrary: xs tx ts left sent err)
  case Nil
  then show ?case by auto
next
  case (Cons h q)
  then obtain x xs' where xs: "xs = x # xs'" and e: "tx_elem h x" and q: "list_all2 tx_elem q xs'"
    by (auto simp: list_all2_Cons1)
  consider bs where "x = Body bs" "unat left < length bs + 3"
    | bs where "x = Body bs" "length bs + 3 \<le> unat left"
    | y where "x = Hdr y" "\<not> length (wire y) \<le> unat left"
    | y where "x = Hdr y" "length (wire y) \<le> unat left"
    by (cases x) (auto, meson not_less)
  then show ?case
  proof cases
    case (1 bs)
    with Cons.prems(3) have ge: "3 \<le> unat left" and out: "sent = [(OBEX_HDR_BODY, take (unat left - 3) bs)]"
      "rest = Body (drop (unat left - 3) bs) # xs'" "\<not> err"
      by (auto simp: xs split: if_splits)
    from send_body_fragment [OF al _ Cons.prems(2) 1(2) ge] 1(1) e q show ?thesis
      by (fastforce simp: out)
  next
    case (2 bs)
    with Cons.prems(3) obtain s where f: "fill (unat mtu) (unat left - length bs) xs' = Inr (err, s, rest)"
      and sent: "sent = (OBEX_HDR_BODY_END, bs) # s"
      by (auto simp: xs rbind_Inr_iff)
    from stuff_last [OF al _ Cons.prems(2) 2(2)] 2(1) e obtain tx1 l where
      "stuff_headers alloc mtu (h # q) tx left = stuff_headers alloc mtu q tx1 l"
      "holds tx1 (ts @ wire (OBEX_HDR_BODY_END, bs))" "unat l = unat left - length bs" by blast
    with Cons.IH [OF q, of tx1 _ l err s] f show ?thesis by (fastforce simp: sent)
  next
    case (3 y)
    with Cons.prems stuff_too_long [of h y left] e show ?thesis
      by (auto simp: xs split: if_splits)
  next
    case (4 y)
    from stuff_plain [OF al _ Cons.prems(2) 4(2)] 4(1) e obtain tx1 l where
      st: "stuff_headers alloc mtu (h # q) tx left =
        (if l = 0 then Inr (False, q, tx1) else stuff_headers alloc mtu q tx1 l)"
      and tx1: "holds tx1 (ts @ wire y)" and l: "unat l = unat left - length (wire y)" by blast
    show ?thesis
    proof (cases "l = 0")
      case True
      then have "length (wire y) = unat left" using l 4(2) by simp
      with st True q tx1 Cons.prems(3) 4 show ?thesis by (auto simp: xs)
    next
      case False
      then have "length (wire y) \<noteq> unat left" using l unat_zero [of l] by auto
      with Cons.prems(3) 4 l obtain s where "fill (unat mtu) (unat l) xs' = Inr (err, s, rest)" "sent = y # s"
        by (auto simp: xs rbind_Inr_iff)
      with st False Cons.IH [OF q tx1] show ?thesis by fastforce
    qed
  qed
qed

section \<open>Packets\<close>

definition packet :: "u8 \<Rightarrow> u8 \<Rightarrow> hdr list \<Rightarrow> bytes" where
  "packet seq op hs = (let payload = concat (map wire hs)
     in seq # op # be16 (of_nat (length payload + 3)) @ payload)"

lemma reserve_begin_fill:
  assumes al: "plenty alloc" and m: "holds m bs"
  obtains r where "r = buf_reserve_begin alloc m n" and "size_of (snd r) = n + length bs"
    and "\<And>xs. length xs = n \<Longrightarrow> \<exists>m'. fill_reserved r xs = Inr m' \<and> holds m' (xs @ bs)"
proof -
  obtain p where p: "m = Some p" "buf_ok p" "contents p = bs" using m by (auto simp: holds_def)
  have ins: "\<exists>q. buf_insert_begin alloc (Some p) xs = Some q \<and> holds (Some q) (xs @ bs)" for xs
    using buf_insert_begin_alloc [of alloc p xs] al p buf_insert_begin_ok [OF p(2), of alloc xs]
    by (auto simp: plenty_def holds_def)
  obtain d q where r: "buf_reserve_begin alloc m n = (Some d, Some q)"
    using ins [of "replicate n 0"] p(1)
    by (auto simp: buf_insert_begin_def store_reserved_def simp del: buf_reserve_begin.simps
        split: option.splits prod.splits)
  show thesis
  proof (rule that [OF refl])
    show "size_of (snd (buf_reserve_begin alloc m n)) = n + length bs"
      using buf_reserve_begin_ok [OF p(2), of alloc n d q] r p length_contents [OF p(2)]
      by (simp del: buf_reserve_begin.simps)
    show "\<exists>m'. fill_reserved (buf_reserve_begin alloc m n) xs = Inr m' \<and> holds m' (xs @ bs)"
      if "length xs = n" for xs
      using ins [of xs] that p(1) by (auto simp: fill_reserved_def buf_insert_begin_def)
  qed
qed

lemma build_packet_ok:
  fixes self :: "'w obex"
  assumes al: "plenty alloc" and tx: "holds (tx_msg self) ts" and nd: "tx_nonhdr_data object = None"
    and q: "list_all2 tx_elem (tx_headerq object) xs"
    and f: "fill (unat (mtu_tx self)) (unat (mtu_tx self - 4)) xs = Inr (False, sent, rest)"
  shows "\<exists>q' tx'. build_packet alloc self object =
       Inr (Some (rest = []), self\<lparr>tx_msg := tx', seq_num := seq_num self + 1\<rparr>,
            object\<lparr>tx_nonhdr_data := None, tx_headerq := q'\<rparr>) \<and>
     list_all2 tx_elem q' rest \<and>
     holds tx' (packet (seq_num self) (if rest = [] then lastopcode object OR OBEX_FINAL else opcode object) sent)"
proof -
  obtain q' tx1 where st: "stuff_headers alloc (mtu_tx self) (tx_headerq object) (buf_reuse (tx_msg self)) (mtu_tx self - 4) =
      Inr (False, q', tx1)" and q': "list_all2 tx_elem q' rest" and tx1: "holds tx1 (concat (map wire sent))"
    using stuff_headers_ok [OF al q holds_reuse [OF tx] f] by auto
  have emp: "q' = [] \<longleftrightarrow> rest = []" using q' by auto
  define op where "op = (if rest = [] then lastopcode object OR OBEX_FINAL else opcode object)"
  obtain r where r: "r = buf_reserve_begin alloc tx1 4" "size_of (snd r) = 4 + length (concat (map wire sent))"
    and fr: "\<And>ys. length ys = 4 \<Longrightarrow> \<exists>m'. fill_reserved r ys = Inr m' \<and> holds m' (ys @ concat (map wire sent))"
    using reserve_begin_fill [OF al tx1] by blast
  let ?h = "packet_header (seq_num self) op (size_of (snd r))"
  obtain tx2 where tx2: "fill_reserved r ?h = Inr tx2" "holds tx2 (?h @ concat (map wire sent))"
    using fr [of ?h] by (auto simp: packet_header_def)
  have "(of_nat (size_of (snd r)) :: u16) - 1 = of_nat (length (concat (map wire sent)) + 3)"
    by (simp add: r(2))
  then have "?h @ concat (map wire sent) = packet (seq_num self) op sent"
    by (simp add: packet_header_def packet_def Let_def add.commute)
  moreover have "build_packet alloc self object =
       Inr (Some (rest = []), self\<lparr>tx_msg := tx2, seq_num := seq_num self + 1\<rparr>,
            object\<lparr>tx_nonhdr_data := None, tx_headerq := q'\<rparr>)"
    using st tx2(1) nd by (simp add: build_packet_def Let_def emp r(1) op_def)
  ultimately show ?thesis using q' tx2(2) unfolding op_def by (intro exI [of _ q'] exI [of _ tx2]) simp
qed

text \<open>The queue of an object with headers \<open>hs\<close> in front of a body, all of \<open>hs\<close> fitting one packet.\<close>

definition headers_size :: "hdr list \<Rightarrow> nat" where
  "headers_size hs = length (concat (map wire hs))"

lemma headers_size_Cons: "headers_size (x # hs) = length (wire x) + headers_size hs"
  by (simp add: headers_size_def)

lemma fill_body:
  "headers_size hs + 3 \<le> left \<Longrightarrow>
   fill mtu left (map Hdr hs @ [Body bs]) =
     Inr (if left - headers_size hs < length bs + 3
          then (False, hs @ [(OBEX_HDR_BODY, take (left - headers_size hs - 3) bs)],
                [Body (drop (left - headers_size hs - 3) bs)])
          else (False, hs @ [(OBEX_HDR_BODY_END, bs)], []))"
proof (induction hs arbitrary: left)
  case Nil
  then show ?case by (simp add: headers_size_def)
next
  case (Cons x hs)
  then have "length (wire x) < left" by (simp add: headers_size_Cons)
  then have step: "fill mtu left (map Hdr (x # hs) @ [Body bs]) =
      rbind (fill mtu (left - length (wire x)) (map Hdr hs @ [Body bs])) (\<lambda>(e, s, r). Inr (e, x # s, r))"
    by simp
  have "headers_size hs + 3 \<le> left - length (wire x)" using Cons.prems by (simp add: headers_size_Cons)
  from Cons.IH [OF this] show ?case unfolding step by (simp add: headers_size_Cons)
qed

lemma fill_size:
  "fill mtu left (map Hdr hs @ [Body bs]) = Inr (e, sent, rest) \<Longrightarrow> headers_size hs + 3 \<le> left \<Longrightarrow>
   headers_size sent \<le> left"
  by (subst (asm) fill_body) (auto simp: headers_size_def wire.simps split: if_splits)

section \<open>A request against an answering device\<close>

text \<open>A device that is idle takes a packet, echoes its sequence byte, and answers with an empty
  response: continue as long as the final bit is not set, success when it is. \<open>log\<close> lists the
  packets the device has received.\<close>

definition response_to :: "bytes \<Rightarrow> u8" where
  "response_to pkt = (if pkt ! 1 AND OBEX_FINAL = 0 then 0x90 else 0xA0)"

definition answers :: "'w libusb \<Rightarrow> ('w \<Rightarrow> bool) \<Rightarrow> ('w \<Rightarrow> bytes list) \<Rightarrow> bool" where
  "answers lib idle log \<longleftrightarrow> (\<forall>w pkt. idle w \<longrightarrow> (\<exists>w1 w2 w3.
     bulk_out lib w pkt = (0, length pkt, w1) \<and>
     (\<forall>n \<ge> 3. bulk_in lib w1 n = (0, [hd pkt], w2) \<and> bulk_in lib w2 n = (0, [response_to pkt, 0, 3], w3)) \<and>
     idle w3 \<and> log w3 = log w @ [pkt]))"

lemma verify_seq_answer:
  assumes al: "plenty alloc" and rx: "holds (rx_msg self) []"
    and b: "bulk_in lib (usb self) (unat (mtu_rx self)) = (0, [seq], w)" and n: "3 \<le> unat (mtu_rx self)"
  shows "\<exists>m. obex_verify_seq alloc lib self seq = Inr (True, self\<lparr>usb := w, rx_msg := m\<rparr>) \<and> holds m []"
proof -
  let ?n = "unat (mtu_rx self)"
  have v: "verify_poll 99 lib (usb self) ?n = (0, [seq], w)"
    using b by (simp add: eval_nat_numeral)
  obtain d q where r: "buf_reserve_end alloc (rx_msg self) ?n = (Some d, Some q)"
    using reserve_total [OF al rx] by blast
  obtain m2 where m2: "fill_reserved (Some d, Some q) [seq] = Inr m2" using fill_reserved_total by blast
  from reserve_partial [OF rx, of alloc ?n "[seq]" m2] r m2 n
  have "holds (buf_remove_end m2 (?n - 1)) [seq]" by simp
  from holds_remove_begin [OF this, of 1] r v m2 show ?thesis
    by (intro exI [of _ "buf_remove_begin (buf_remove_end m2 (?n - 1)) 1"])
      (simp add: obex_verify_seq_def Let_def)
qed

lemma bulk_read_answer:
  assumes al: "plenty alloc" and rx: "holds m []"
    and b: "bulk_in lib (usb self) (unat (mtu_rx self)) = (0, [rsp, 0, 3], w)" and n: "3 \<le> unat (mtu_rx self)"
  shows "\<exists>m'. obex_bulk_read (Suc k) alloc lib self m = Inr (3, self\<lparr>usb := w\<rparr>, m') \<and> holds m' [rsp, 0, 3]"
proof -
  obtain m' where t: "transfer_in alloc lib self m = Inr (0, [rsp, 0, 3], self\<lparr>usb := w\<rparr>, m')"
    using transfer_in_total [OF al rx, of lib self] b by auto
  obtain d q where r: "buf_reserve_end alloc m (unat (mtu_rx self)) = (Some d, Some q)"
    using reserve_total [OF al rx] by blast
  from t r b obtain m2 where "fill_reserved (Some d, Some q) [rsp, 0, 3] = Inr m2"
    and m': "m' = buf_remove_end m2 (unat (mtu_rx self) - 3)"
    by (auto simp: transfer_in_def rbind_Inr_iff eval_nat_numeral)
  with reserve_partial [OF rx, of alloc "unat (mtu_rx self)" "[rsp, 0, 3]" m2] r n
  have h: "holds m' [rsp, 0, 3]" by (simp add: numeral_3_eq_3)
  then have "peek m' 1 2 = Some [0, 3]" and "size_of m' = 3"
    using peek_holds [OF h, of 1 2] holds_size [OF h] by simp_all
  with t h show ?thesis
    using holds_size [OF rx] by (simp add: obex_bulk_read_def of_be16_def)
qed

lemma receive_answer:
  assumes al: "plenty alloc" and rx: "holds (rx_msg self) []"
    and b: "bulk_in lib (usb self) (unat (mtu_rx self)) = (0, [rsp, 0, 3], w)" and n: "3 \<le> unat (mtu_rx self)"
    and op: "opcode object \<noteq> OBEX_CMD_CONNECT" "opcode object \<noteq> OBEX_CMD_DISCONNECT"
    and off: "headeroffset object = 0"
  shows "\<exists>m. obex_object_receive (Suc k) alloc lib self object =
     Inr (uint (rsp AND NOT OBEX_FINAL), self\<lparr>usb := w, rx_msg := m\<rparr>, object) \<and> holds m []"
proof -
  obtain m' where r: "obex_bulk_read (Suc k) alloc lib self (rx_msg self) = Inr (3, self\<lparr>usb := w\<rparr>, m')"
    and h: "holds m' [rsp, 0, 3]"
    using bulk_read_answer [OF al rx b n] by blast
  have pk: "peek m' 0 3 = Some [rsp, 0, 3]" and sz: "size_of m' = 3"
    using peek_holds [OF h, of 0 3] holds_size [OF h] by simp_all
  have h2: "holds (buf_remove_begin m' 3) []" using holds_remove_begin [OF h, of 3] by simp
  then have sz2: "size_of (buf_remove_begin m' 3) = 0" using holds_size by fastforce
  have rh: "receive_headers 0 alloc object (buf_remove_begin m' 3) = Inr (False, object, buf_remove_begin m' 3)"
    by (subst receive_headers.simps) (simp add: sz2)
  have "obex_object_receive (Suc k) alloc lib self object =
     Inr (uint (rsp AND NOT OBEX_FINAL), self\<lparr>usb := w, rx_msg := buf_remove_begin m' 3\<rparr>, object)"
    using r pk sz op off rh
    by (simp add: obex_object_receive_def connect_response_def disconnect_response_def take_nonhdr_def
        Let_def sz2 of_be16_def)
  with h2 show ?thesis by blast
qed

text \<open>An object ready to be sent, with the queue \<open>xs\<close>, over an open connection.\<close>

definition ready :: "'w obex \<Rightarrow> obex_object \<Rightarrow> txh list \<Rightarrow> bool" where
  "ready self object xs \<longleftrightarrow>
     (\<exists>ts. holds (tx_msg self) ts) \<and> holds (rx_msg self) [] \<and> 3 \<le> unat (mtu_rx self) \<and>
     tx_nonhdr_data object = None \<and> headeroffset object = 0 \<and>
     opcode object \<noteq> OBEX_CMD_CONNECT \<and> opcode object \<noteq> OBEX_CMD_DISCONNECT \<and>
     opcode object AND OBEX_FINAL = 0 \<and> lastopcode object = opcode object OR OBEX_FINAL \<and>
     list_all2 tx_elem (tx_headerq object) xs"

text \<open>The header groups of the packets of a request with headers \<open>hs0\<close> and a body.\<close>

definition group :: "hdr list \<Rightarrow> hdr list \<Rightarrow> bool" where
  "group hs0 hs \<longleftrightarrow> (\<exists>hi v. (hi = OBEX_HDR_BODY \<or> hi = OBEX_HDR_BODY_END) \<and> (hs = hs0 @ [(hi, v)] \<or> hs = [(hi, v)]))"

text \<open>A callback that, for requests of one command, does not talk to the device. It may rely on the
  packet just sent.\<close>

definition quiet ::
  "('w obex \<Rightarrow> obex_object \<Rightarrow> 'w res) \<Rightarrow> u8 \<Rightarrow> ('w \<Rightarrow> bool) \<Rightarrow> ('w \<Rightarrow> bytes list) \<Rightarrow> hdr list \<Rightarrow> bool" where
  "quiet cb cmd idle log hs0 \<longleftrightarrow>
     (\<forall>self ob seq op hs. opcode ob = cmd \<longrightarrow> holds (tx_msg self) (packet seq op hs) \<longrightarrow> group hs0 hs \<longrightarrow> idle (usb self) \<longrightarrow>
        (\<exists>w. cb self ob = Inr w \<and> idle w \<and> log w = log (usb self)))"

lemma final_bit: "(a OR OBEX_FINAL) OR OBEX_FINAL = a OR OBEX_FINAL" "(a OR OBEX_FINAL) AND OBEX_FINAL \<noteq> 0"
proof -
  have "(a OR OBEX_FINAL) AND OBEX_FINAL = OBEX_FINAL"
    by (rule bit_word_eqI) (auto simp: bit_simps)
  then show "(a OR OBEX_FINAL) AND OBEX_FINAL \<noteq> 0" by (simp add: OBEX_FINAL_def)
qed (simp add: or.assoc)

declare obex_request.simps [simp del]

lemma request_round:
  fixes self :: "'w obex"
  assumes al: "plenty alloc" and an: "answers lib idle log" and qt: "quiet cb (opcode object) idle log hs0"
    and rd: "ready self object xs" and id: "idle (usb self)"
    and f: "fill (unat (mtu_tx self)) (unat (mtu_tx self - 4)) xs = Inr (False, sent, rest)"
    and gr: "group hs0 sent"
  defines "op \<equiv> if rest = [] then opcode object OR OBEX_FINAL else opcode object"
  shows "\<exists>self' object'.
     obex_request (Suc (Suc k)) alloc lib cb self object =
       (if rest = [] then Inr (0x20, self', object') else obex_request (Suc k) alloc lib cb self' object') \<and>
     ready self' object' rest \<and> idle (usb self') \<and> opcode object' = opcode object \<and>
     seq_num self' = seq_num self + 1 \<and> mtu_tx self' = mtu_tx self \<and>
     log (usb self') = log (usb self) @ [packet (seq_num self) op sent]"
proof -
  let ?pkt = "packet (seq_num self) op sent"
  obtain ts where ts: "holds (tx_msg self) ts" using rd by (auto simp: ready_def)
  have q: "list_all2 tx_elem (tx_headerq object) xs" and nd: "tx_nonhdr_data object = None"
    and rx: "holds (rx_msg self) []" and n: "3 \<le> unat (mtu_rx self)" and lo: "lastopcode object = opcode object OR OBEX_FINAL"
    using rd by (auto simp: ready_def)
  have opeq: "(if rest = [] then lastopcode object OR OBEX_FINAL else opcode object) = op"
    by (simp add: op_def lo final_bit)
  obtain q' tx' where bp: "build_packet alloc self object =
       Inr (Some (rest = []), self\<lparr>tx_msg := tx', seq_num := seq_num self + 1\<rparr>,
            object\<lparr>tx_nonhdr_data := None, tx_headerq := q'\<rparr>)" (is "_ = Inr (_, ?self1, ?obj1)")
    and q': "list_all2 tx_elem q' rest" and tx': "holds tx' ?pkt"
    using build_packet_ok [OF al ts nd q f, unfolded opeq] by blast
  obtain w1 w2 w3 where w: "bulk_out lib (usb self) ?pkt = (0, length ?pkt, w1)"
    "bulk_in lib w1 (unat (mtu_rx self)) = (0, [hd ?pkt], w2)"
    "bulk_in lib w2 (unat (mtu_rx self)) = (0, [response_to ?pkt, 0, 3], w3)"
    "idle w3" "log w3 = log (usb self) @ [?pkt]"
    using an id n unfolding answers_def by metis
  have hd: "hd ?pkt = seq_num self" and op1: "?pkt ! 1 = op" by (simp_all add: packet_def Let_def)
  have wr: "obex_bulk_write lib ?self1 tx' = Inr (int (length ?pkt), ?self1\<lparr>usb := w1\<rparr>)"
    using w(1) peek_holds [OF tx', of 0 "length ?pkt"] holds_size [OF tx'] by (simp add: obex_bulk_write_def)
  obtain m1 where vs: "obex_verify_seq alloc lib (?self1\<lparr>usb := w1\<rparr>) (seq_num self) =
      Inr (True, ?self1\<lparr>usb := w1\<rparr>\<lparr>usb := w2, rx_msg := m1\<rparr>)" and m1: "holds m1 []"
    using verify_seq_answer [OF al, of "?self1\<lparr>usb := w1\<rparr>" lib "seq_num self" w2] rx w(2) n hd by auto
  let ?self2 = "?self1\<lparr>usb := w1\<rparr>\<lparr>usb := w2, rx_msg := m1\<rparr>"
  have snd: "obex_object_send alloc lib self object = Inr (if rest = [] then 1 else 0, ?self2, ?obj1)"
    using bp wr vs by (simp add: obex_object_send_def)
  obtain m2 where rc: "obex_object_receive (Suc k) alloc lib ?self2 ?obj1 =
     Inr (uint (response_to ?pkt AND NOT OBEX_FINAL), ?self2\<lparr>usb := w3, rx_msg := m2\<rparr>, ?obj1)" and m2: "holds m2 []"
    using receive_answer [OF al, of ?self2 lib "response_to ?pkt" w3 ?obj1 k] m1 w(3) n rd by (auto simp: ready_def)
  have "op AND OBEX_FINAL = 0 \<longleftrightarrow> rest \<noteq> []"
    using final_bit(2) [of "opcode object"] rd by (simp add: op_def ready_def)
  then have code: "uint (response_to ?pkt AND NOT OBEX_FINAL) = (if rest = [] then 0x20 else 0x10)"
    unfolding response_to_def op1 by (simp add: OBEX_FINAL_def)
  obtain w4 where w4: "cb (?self2\<lparr>usb := w3, rx_msg := m2\<rparr>) ?obj1 = Inr w4" "idle w4" "log w4 = log w3"
    using qt [unfolded quiet_def, rule_format, of ?obj1 "?self2\<lparr>usb := w3, rx_msg := m2\<rparr>" "seq_num self" op sent]
      tx' w(4) gr by auto
  let ?self3 = "?self2\<lparr>usb := w3, rx_msg := m2\<rparr>\<lparr>usb := w4\<rparr>"
  have "obex_request (Suc (Suc k)) alloc lib cb self object =
      (if rest = [] then Inr (0x20, ?self3, ?obj1) else obex_request (Suc k) alloc lib cb ?self3 ?obj1)"
    using snd rc code w4(1) by (simp add: obex_request.simps(2) [of "Suc k"] OBEX_RSP_CONTINUE_def Let_def)
  moreover have "ready ?self3 ?obj1 rest" using rd q' tx' m2 by (auto simp: ready_def)
  ultimately show ?thesis using w4 w(5) by (intro exI [of _ ?self3] exI [of _ ?obj1]) simp
qed

text \<open>The packets that carry a list of header groups: consecutive sequence numbers, the final bit
  on the last one only.\<close>

fun packets :: "u8 \<Rightarrow> u8 \<Rightarrow> hdr list list \<Rightarrow> bytes list" where
  "packets seq op [] = []"
| "packets seq op (p # ps) =
     packet seq (if ps = [] then op OR OBEX_FINAL else op) p # packets (seq + 1) op ps"

text \<open>Headers a receiver queues as they are.\<close>

definition plain :: "hdr list \<Rightarrow> bool" where
  "plain hs \<longleftrightarrow> (\<forall>(hi, v) \<in> set hs. hi \<noteq> OBEX_HDR_BODY \<and> hi \<noteq> OBEX_HDR_BODY_END)"

lemma foldl_plain: "plain hs \<Longrightarrow> foldl rx_spec (q, b) hs = (q @ hs, b)"
  by (induction hs arbitrary: q) (auto simp: plain_def)

definition delivers :: "hdr list \<Rightarrow> bytes \<Rightarrow> hdr list list \<Rightarrow> bool" where
  "delivers hs bs ps \<longleftrightarrow>
     (\<forall>q b. foldl rx_spec (q, b) (concat ps) = (q @ hs @ [(OBEX_HDR_BODY, body_bytes b @ bs)], None))"

lemma body_ne: "OBEX_HDR_BODY_END \<noteq> OBEX_HDR_BODY"
  by (simp add: obex_header_ids)

lemma delivers_last: "plain hs \<Longrightarrow> delivers hs bs [hs @ [(OBEX_HDR_BODY_END, bs)]]"
  by (simp add: delivers_def foldl_plain body_ne)

lemma delivers_more:
  "plain hs \<Longrightarrow> delivers [] (drop n bs) ps \<Longrightarrow> delivers hs bs ((hs @ [(OBEX_HDR_BODY, take n bs)]) # ps)"
  by (simp add: delivers_def foldl_plain)

lemma length_packet: "length (packet seq op hs) = headers_size hs + 4"
  by (simp add: packet_def headers_size_def Let_def)

lemma request_delivers:
  fixes self :: "'w obex"
  assumes al: "plenty alloc" and an: "answers lib idle log" and qt: "quiet cb cmd idle log hs0"
  shows "ready self object (map Hdr hs @ [Body bs]) \<Longrightarrow> idle (usb self) \<Longrightarrow> plain hs \<Longrightarrow>
     8 \<le> unat (mtu_tx self) \<Longrightarrow> headers_size hs + 7 \<le> unat (mtu_tx self) \<Longrightarrow>
     length bs + (if hs = [] then 2 else 3) \<le> k \<Longrightarrow> hs = hs0 \<or> hs = [] \<Longrightarrow> opcode object = cmd \<Longrightarrow>
     \<exists>self' object' ps.
       obex_request k alloc lib cb self object = Inr (0x20, self', object') \<and>
       log (usb self') = log (usb self) @ packets (seq_num self) (opcode object) ps \<and>
       delivers hs bs ps \<and> (\<forall>p \<in> set ps. headers_size p + 4 \<le> unat (mtu_tx self)) \<and>
       tx_headerq object' = []"
proof (induction k arbitrary: self object hs bs)
  case 0
  then show ?case by (simp split: if_splits)
next
  case (Suc k)
  let ?left = "unat (mtu_tx self - 4)" and ?xs = "map Hdr hs @ [Body bs]"
  have left: "?left = unat (mtu_tx self) - 4"
    using Suc.prems(4) by (simp add: unat_sub word_le_nat_alt)
  have fits: "headers_size hs + 3 \<le> ?left" using Suc.prems(5) by (simp add: left)
  obtain k' where k: "k = Suc k'" using Suc.prems(6) by (cases k) (auto split: if_splits)
  have "quiet cb (opcode object) idle log hs0" using qt Suc.prems(8) by simp
  note round = request_round [OF al an this Suc.prems(1,2)]
  show ?case
  proof (cases "?left - headers_size hs < length bs + 3")
    case False
    then have f: "fill (unat (mtu_tx self)) ?left ?xs = Inr (False, hs @ [(OBEX_HDR_BODY_END, bs)], [])"
      using fill_body [OF fits] by simp
    from fill_size [OF f fits] have "headers_size (hs @ [(OBEX_HDR_BODY_END, bs)]) + 4 \<le> unat (mtu_tx self)"
      using Suc.prems(4) by (simp add: left)
    moreover obtain self' object' where
      "obex_request (Suc k) alloc lib cb self object = Inr (0x20, self', object')" "ready self' object' []"
      "log (usb self') = log (usb self) @
         [packet (seq_num self) (opcode object OR OBEX_FINAL) (hs @ [(OBEX_HDR_BODY_END, bs)])]"
      using round [OF f, of k'] Suc.prems(7) by (auto simp: k group_def)
    ultimately show ?thesis
      using delivers_last [OF Suc.prems(3)]
      by (intro exI [of _ self'] exI [of _ object'] exI [of _ "[hs @ [(OBEX_HDR_BODY_END, bs)]]"])
        (auto simp: ready_def)
  next
    case True
    let ?n = "?left - headers_size hs - 3"
    let ?p = "hs @ [(OBEX_HDR_BODY, take ?n bs)]"
    have f: "fill (unat (mtu_tx self)) ?left ?xs = Inr (False, ?p, [Body (drop ?n bs)])"
      using fill_body [OF fits] True by simp
    from fill_size [OF f fits] have sz: "headers_size ?p + 4 \<le> unat (mtu_tx self)"
      using Suc.prems(4) by (simp add: left)
    obtain self1 object1 where
      eq: "obex_request (Suc k) alloc lib cb self object = obex_request k alloc lib cb self1 object1"
      and rd: "ready self1 object1 (map Hdr [] @ [Body (drop ?n bs)])" and id: "idle (usb self1)"
      and same: "opcode object1 = opcode object" "seq_num self1 = seq_num self + 1" "mtu_tx self1 = mtu_tx self"
      and lg: "log (usb self1) = log (usb self) @ [packet (seq_num self) (opcode object) ?p]"
      using round [OF f, of k'] Suc.prems(7) by (auto simp: k group_def)
    have "hs = [] \<Longrightarrow> 0 < ?n" using Suc.prems(4) by (simp add: left headers_size_def)
    then have "length (drop ?n bs) + 2 \<le> k" using Suc.prems(6) True by (auto split: if_splits)
    with Suc.IH [OF rd id] Suc.prems(4,8) same(1,3) obtain self' object' ps where
      "obex_request k alloc lib cb self1 object1 = Inr (0x20, self', object')"
      "log (usb self') = log (usb self1) @ packets (seq_num self1) (opcode object1) ps"
      "delivers [] (drop ?n bs) ps" "\<forall>p \<in> set ps. headers_size p + 4 \<le> unat (mtu_tx self)"
      "tx_headerq object' = []"
      by (auto simp: plain_def headers_size_def)
    moreover from this(3) have "ps \<noteq> []" by (auto simp: delivers_def)
    ultimately show ?thesis
      using eq lg same sz delivers_more [OF Suc.prems(3)]
      by (intro exI [of _ self'] exI [of _ object'] exI [of _ "?p # ps"]) auto
  qed
qed

section \<open>Building objects\<close>

lemma header_buf_ok:
  assumes "plenty alloc"
  obtains b where "header_buf alloc bs = Inr (Some b)" and "holds (Some b) bs"
proof -
  obtain p where p: "buf_new alloc (length bs) = Some p" using plenty_new [OF assms] by blast
  obtain m where "fill_reserved (buf_reserve_end alloc (Some p) (length bs)) bs = Inr m" "holds m bs"
    using fill_reserved3 [OF assms holds_new [OF p], of bs "length bs"] by auto
  with p that show thesis by (auto simp: header_buf_def holds_def)
qed

lemma encode_header_wire:
  assumes "encode_header hi hv n = Inr bs"
  obtains v where "bs = wire (hi, v)"
    and "\<And>w. hv = Bq4 w \<Longrightarrow> v = be32 w" and "\<And>b. hv = Bq1 b \<Longrightarrow> v = [b]"
    and "\<And>xs. hv = Bs xs \<Longrightarrow> v = take n xs \<and> n \<le> length xs"
  using assms header_classes [of hi]
  by (cases hv) (auto simp: wire.simps counted_def Let_def obex_header_ids split: if_splits)

lemma sint_u32_pos: "0 < n \<Longrightarrow> n < 2 ^ 31 \<Longrightarrow> 0 < sint (of_nat n :: u32)"
  by (simp add: signed_of_nat signed_take_bit_int_eq_self)

text \<open>Adding a header either appends exactly its encoding or leaves the queue alone; it is
  refused only when it would not fit a packet.\<close>

lemma addheader_ok:
  assumes al: "plenty alloc" and ne: "hi \<noteq> OBEX_HDR_EMPTY"
    and enc: "encode_header hi hv n = Inr (wire (hi, v))" and len: "length (wire (hi, v)) < 2 ^ 31"
    and q: "list_all2 tx_elem (tx_headerq object) xs"
    and room: "hi = OBEX_HDR_BODY \<and> flags AND OBEX_FL_FIT_ONE_PACKET = 0 \<or>
       length (wire (hi, v)) \<le> unat (header_room self object flags)"
  shows "\<exists>object'. obex_object_addheader alloc self object hi hv n flags = Inr (1, object') \<and>
     list_all2 tx_elem (tx_headerq object') (xs @ [if hi = OBEX_HDR_BODY then Body v else Hdr (hi, v)]) \<and>
     (\<exists>q t. object' = object\<lparr>totallen := t, tx_headerq := q\<rparr>)"
proof -
  obtain e where e: "malloc alloc sizeof_element = Some e" using plenty_malloc [OF al] by blast
  obtain b where b: "header_buf alloc (wire (hi, v)) = Inr (Some b)" "holds (Some b) (wire (hi, v))"
    using header_buf_ok [OF al] by blast
  let ?len = "of_nat (length (wire (hi, v))) :: u32"
  let ?h = "\<lparr>h_buf = Some b, h_hi = hi, h_flags = flags, h_length = ?len, body_touched = False\<rparr>"
  have ul: "unat ?len = length (wire (hi, v))" using len by (intro unat_of_nat_eq) simp
  have pos: "0 < sint ?len" using len by (intro sint_u32_pos) (simp_all add: wire.simps)
  have nb: "\<not> ((hi \<noteq> OBEX_HDR_BODY \<or> flags AND OBEX_FL_FIT_ONE_PACKET \<noteq> 0) \<and> header_room self object flags < ?len)"
    using room by (auto simp: word_less_nat_alt ul)
  have "obex_object_addheader alloc self object hi hv n flags =
      Inr (1, object\<lparr>totallen := totallen object + sint ?len, tx_headerq := tx_headerq object @ [?h]\<rparr>)"
    using e ne enc b(1) pos nb by (simp add: obex_object_addheader_def Let_def)
  moreover have "tx_elem ?h (if hi = OBEX_HDR_BODY then Body v else Hdr (hi, v))"
  proof (cases "hi = OBEX_HDR_BODY")
    case True
    with b(2) show ?thesis
      by (auto simp: wire.simps intro: exI [of _ "OBEX_HDR_BODY # be16 (of_nat (length v + 3))"])
  next
    case False
    with b(2) ne ul show ?thesis by simp
  qed
  ultimately show ?thesis using q
    by (intro exI conjI) (assumption, simp add: list_all2_appendI, blast)
qed

lemma object_new_ok:
  assumes "plenty alloc" and "cmd \<noteq> OBEX_CMD_CONNECT"
  shows "\<exists>object. obex_object_new alloc self cmd = Inr (Some object) \<and> tx_headerq object = [] \<and>
    rx_headerq object = [] \<and> rx_body object = None \<and> tx_nonhdr_data object = None \<and>
    headeroffset object = 0 \<and> opcode object = cmd \<and> lastopcode object = cmd OR OBEX_FINAL \<and>
    totallen object = 0 \<and> hinted_body_len object = 0"
  using plenty_malloc [OF assms(1), of sizeof_object] assms(2) by (auto simp: obex_object_new_def Let_def)

section \<open>Properties\<close>

text \<open>A device for the concrete instances: the transfers it has ready, and the packets it got.\<close>

record script =
  pending :: "bytes list"
  received :: "bytes list"

definition echo_device :: "script libusb" where
  "echo_device = \<lparr>
     bulk_in = (\<lambda>w n. case pending w of [] \<Rightarrow> (-7, [], w) | x # xs \<Rightarrow> (0, take n x, w\<lparr>pending := xs\<rparr>)),
     bulk_out = (\<lambda>w pkt. (0, length pkt, w\<lparr>pending := [[hd pkt], [response_to pkt, 0, 3]],
                                         received := received w @ [pkt]\<rparr>))\<rparr>"

lemma echo_device_ok: "libusb_ok echo_device"
  by (auto simp: libusb_ok_def echo_device_def split: list.split)

lemma echo_device_answers: "answers echo_device (\<lambda>w. pending w = []) received"
  unfolding answers_def
proof (intro allI impI)
  fix w :: script and pkt :: bytes
  assume "pending w = []"
  let ?w2 = "w\<lparr>pending := [[response_to pkt, 0, 3]], received := received w @ [pkt]\<rparr>"
  show "\<exists>w1 w2 w3. bulk_out echo_device w pkt = (0, length pkt, w1) \<and>
     (\<forall>n \<ge> 3. bulk_in echo_device w1 n = (0, [hd pkt], w2) \<and>
        bulk_in echo_device w2 n = (0, [response_to pkt, 0, 3], w3)) \<and>
     pending w3 = [] \<and> received w3 = received w @ [pkt]"
    by (intro exI [of _ "w\<lparr>pending := [[hd pkt], [response_to pkt, 0, 3]], received := received w @ [pkt]\<rparr>"]
        exI [of _ ?w2] exI [of _ "?w2\<lparr>pending := []\<rparr>"]) (simp add: echo_device_def)
qed

definition demo_obex :: "script obex" where
  "demo_obex = \<lparr>usb = \<lparr>pending = [], received = []\<rparr>, version = OBEX_VERSION, obex_locale = 0,
     mtu_rx = OBEX_DEFAULT_MTU, mtu_tx = 16, mtu_tx_max = OBEX_MAXIMUM_MTU, tx_msg = exact_buf [],
     rx_msg = exact_buf [], seq_num = 255, obex_debug = 0\<rparr>"

text \<open>A read that reports success has gathered a whole message: the receive buffer holds what
  it held before followed by what the transfers delivered, the result is its size, and the
  length field in its header counts exactly its bytes.\<close>

theorem obex_read_complete:
  assumes "libusb_ok lib" and "holds m bs" and "obex_bulk_read k alloc lib self m = Inr (ret, self', m')"
    and "3 \<le> ret"
  shows "\<exists>xs. holds m' (bs @ xs) \<and> ret = int (length (bs @ xs)) \<and> complete (bs @ xs)"
  using obex_bulk_read_ok [OF assms(1-3)] assms(4) by fastforce

theorem obex_read_complete_witness:
  "\<exists>self' m' xs. obex_bulk_read 1 (always (\<lambda>_. 0)) echo_device
      (demo_obex\<lparr>usb := \<lparr>pending = [[0xA0, 0, 3]], received = []\<rparr>\<rparr>) (exact_buf []) = Inr (3, self', m') \<and>
     holds m' xs \<and> complete xs"
proof -
  let ?s = "demo_obex\<lparr>usb := \<lparr>pending = [[0xA0, 0, 3]], received = []\<rparr>\<rparr>"
  have b: "bulk_in echo_device (usb ?s) (unat (mtu_rx ?s)) = (0, [0xA0, 0, 3], \<lparr>pending = [], received = []\<rparr>)"
    and n: "3 \<le> unat (mtu_rx ?s)"
    by (simp_all add: echo_device_def demo_obex_def OBEX_DEFAULT_MTU_def)
  obtain self' m' where r: "obex_bulk_read 1 (always (\<lambda>_. 0)) echo_device ?s (exact_buf []) = Inr (3, self', m')"
    using bulk_read_answer [OF plenty_always [of "\<lambda>_. 0"] holds_exact b n, of 0] by auto
  from obex_read_complete [OF echo_device_ok holds_exact r] r show ?thesis by auto
qed

text \<open>C7. Against a device that answers every packet, a request whose queue is headers that fit
  one packet followed by a body returns success, within a number of rounds bounded by the body
  length; the device receives packets with consecutive sequence numbers, none longer than the
  negotiated maximum, the final bit on the last one only, and their headers, received in order,
  are the object's headers and the whole body.\<close>

theorem obex_request_delivers:
  fixes self :: "'w obex"
  assumes "plenty alloc" and "answers lib idle log" and "quiet cb (opcode object) idle log hs"
    and "ready self object (map Hdr hs @ [Body bs])" and "idle (usb self)" and "plain hs"
    and "8 \<le> unat (mtu_tx self)" and "headers_size hs + 7 \<le> unat (mtu_tx self)"
    and "length bs + 3 \<le> k"
  shows "\<exists>self' object' ps.
       obex_request k alloc lib cb self object = Inr (0x20, self', object') \<and>
       log (usb self') = log (usb self) @ packets (seq_num self) (opcode object) ps \<and>
       (\<forall>pkt \<in> set (packets (seq_num self) (opcode object) ps). length pkt \<le> unat (mtu_tx self)) \<and>
       foldl rx_spec ([], None) (concat ps) = (hs @ [(OBEX_HDR_BODY, bs)], None)"
proof -
  have "length bs + (if hs = [] then 2 else 3) \<le> k" using assms(9) by simp
  from request_delivers [OF assms(1-8) this] obtain self' object' ps where
    r: "obex_request k alloc lib cb self object = Inr (0x20, self', object')"
    "log (usb self') = log (usb self) @ packets (seq_num self) (opcode object) ps"
    "delivers hs bs ps" and sz: "\<forall>p \<in> set ps. headers_size p + 4 \<le> unat (mtu_tx self)" by blast
  have "\<forall>pkt \<in> set (packets s op ps). length pkt \<le> unat (mtu_tx self)" for s op
    using sz by (induction s op ps rule: packets.induct) (auto simp: length_packet)
  with r show ?thesis by (auto simp: delivers_def)
qed

theorem obex_request_delivers_witness:
  "\<exists>self' object'.
     obex_request 13 (always (\<lambda>_. 0)) echo_device (\<lambda>s _. Inr (usb s)) demo_obex
       (empty_object\<lparr>tx_headerq :=
         [\<lparr>h_buf = exact_buf [0xCB, 0, 0, 0, 1], h_hi = 0xCB, h_flags = 0, h_length = 5, body_touched = False\<rparr>,
          \<lparr>h_buf = exact_buf (0x48 # 0 # 13 # [1, 2, 3, 4, 5, 6, 7, 8, 9, 10]), h_hi = 0x48, h_flags = 0,
            h_length = 13, body_touched = False\<rparr>]\<rparr>) = Inr (0x20, self', object')"
proof -
  let ?ob = "empty_object\<lparr>tx_headerq :=
         [\<lparr>h_buf = exact_buf [0xCB, 0, 0, 0, 1], h_hi = 0xCB, h_flags = 0, h_length = 5, body_touched = False\<rparr>,
          \<lparr>h_buf = exact_buf (0x48 # 0 # 13 # [1, 2, 3, 4, 5, 6, 7, 8, 9, 10]), h_hi = 0x48, h_flags = 0,
            h_length = 13, body_touched = False\<rparr>]\<rparr>"
  let ?hs = "[(0xCB, [0, 0, 0, 1])] :: hdr list" and ?bs = "[1, 2, 3, 4, 5, 6, 7, 8, 9, 10] :: bytes"
  have w: "wire (0xCB, [0, 0, 0, 1]) = [0xCB, 0, 0, 0, 1]"
    by (simp add: wire.simps counted_def obex_header_ids)
  have el: "list_all2 tx_elem (tx_headerq ?ob) (map Hdr ?hs @ [Body ?bs])"
    using holds_exact [of "0x48 # 0 # 13 # ?bs"]
    by (simp add: w obex_header_ids) (rule exI [of _ "[0x48, 0, 13]"], simp)
  have r: "ready demo_obex ?ob (map Hdr ?hs @ [Body ?bs])"
    unfolding ready_def using el holds_exact [of "[]"]
    by (auto simp: demo_obex_def empty_object_def OBEX_DEFAULT_MTU_def OBEX_CMD_GET_def OBEX_CMD_CONNECT_def
      OBEX_CMD_DISCONNECT_def OBEX_FINAL_def simp del: holds_exact)
  have p: "plain ?hs" by (simp add: plain_def obex_header_ids)
  have q: "quiet (\<lambda>s _. Inr (usb s)) (opcode ?ob) (\<lambda>w. pending w = []) received ?hs" by (simp add: quiet_def)
  have i: "pending (usb demo_obex) = []" and m: "8 \<le> unat (mtu_tx demo_obex)"
    "headers_size ?hs + 7 \<le> unat (mtu_tx demo_obex)" and k: "length ?bs + 3 \<le> 13"
    by (simp_all add: demo_obex_def headers_size_def w)
  show ?thesis
    using obex_request_delivers [OF plenty_always [of "\<lambda>_. 0"] echo_device_answers q r i p m k] by blast
qed

end
