(* ===== verification/Obex_Usb.thy ===== *)
theory Obex_Usb
  imports Obex_Send
begin

text \<open>
  Opening and closing the USB connection (\<^verbatim>\<open>obex_claim_interface\<close>, \<^verbatim>\<open>obex_init\<close> and
  \<^verbatim>\<open>obex_cleanup\<close> of \<^verbatim>\<open>obex.c\<close>). The USB host library is a parameter: a record of what its
  calls return; the calls the code makes are recorded in an event list. Descriptors are lists
  of interfaces, alternate settings and endpoints.
\<close>

section \<open>Descriptors\<close>

record endpoint =
  bmAttributes :: u8
  bEndpointAddress :: u8

record altsetting =
  bInterfaceNumber :: u8
  bAlternateSetting :: u8
  endpoints :: "endpoint list"

definition LIBUSB_TRANSFER_TYPE_BULK :: u8 where "LIBUSB_TRANSFER_TYPE_BULK = 2"
definition LIBUSB_TRANSFER_TYPE_INTERRUPT :: u8 where "LIBUSB_TRANSFER_TYPE_INTERRUPT = 3"
definition LIBUSB_ENDPOINT_IN :: u8 where "LIBUSB_ENDPOINT_IN = 0x80"
definition LIBUSB_ENDPOINT_OUT :: u8 where "LIBUSB_ENDPOINT_OUT = 0x00"
definition LIBUSB_ERROR_NOT_FOUND :: int where "LIBUSB_ERROR_NOT_FOUND = -5"

record 'd usb_state =
  usb_dev :: "'d option"
  intf_num :: u8
  read_endpoint_address :: u8
  write_endpoint_address :: u8
  interrupt_endpoint_address :: u8

datatype 'd usb_event =
    Init | Exit | Free_list
  | Open 'd | Close 'd
  | Claim 'd u8 | Set_alt 'd u8 u8 | Release 'd u8
  | Control 'd

record 'd host =
  h_init :: int
  h_list :: "int \<times> 'd list"
  h_descriptor :: "'d \<Rightarrow> int \<times> u16 \<times> u16"
  h_open :: "'d \<Rightarrow> int"
  h_config :: "'d \<Rightarrow> int \<times> altsetting list list"
  h_claim :: "'d \<Rightarrow> u8 \<Rightarrow> int"
  h_set_alt :: "'d \<Rightarrow> u8 \<Rightarrow> u8 \<Rightarrow> int"
  h_control :: "'d \<Rightarrow> int"

section \<open>Choosing the interface\<close>

definition scan_endpoint :: "endpoint \<Rightarrow> 'd usb_state \<Rightarrow> 'd usb_state" where
  "scan_endpoint ep ctx =
     (if bmAttributes ep AND 3 = LIBUSB_TRANSFER_TYPE_BULK then
        (if read_endpoint_address ctx = 0 \<and> bEndpointAddress ep AND 0x80 = LIBUSB_ENDPOINT_IN
         then ctx\<lparr>read_endpoint_address := bEndpointAddress ep\<rparr>
         else if write_endpoint_address ctx = 0 \<and> bEndpointAddress ep AND 0x80 = LIBUSB_ENDPOINT_OUT
         then ctx\<lparr>write_endpoint_address := bEndpointAddress ep\<rparr>
         else ctx)
      else if bmAttributes ep AND 3 = LIBUSB_TRANSFER_TYPE_INTERRUPT then
        (if interrupt_endpoint_address ctx = 0 \<and> bEndpointAddress ep AND 0x80 = LIBUSB_ENDPOINT_IN
         then ctx\<lparr>interrupt_endpoint_address := bEndpointAddress ep\<rparr> else ctx)
      else ctx)"

definition scan_altsetting :: "altsetting \<Rightarrow> 'd usb_state \<Rightarrow> 'd usb_state" where
  "scan_altsetting a ctx =
     fold scan_endpoint (endpoints a) (ctx\<lparr>read_endpoint_address := 0, write_endpoint_address := 0\<rparr>)"

fun scan_config :: "altsetting list \<Rightarrow> 'd usb_state \<Rightarrow> altsetting option \<times> 'd usb_state" where
  "scan_config [] ctx = (None, ctx)"
| "scan_config (a # as) ctx =
     (let ctx1 = scan_altsetting a ctx
      in if read_endpoint_address ctx1 \<noteq> 0 \<and> write_endpoint_address ctx1 \<noteq> 0 then (Some a, ctx1)
         else scan_config as ctx1)"

definition obex_claim_interface ::
  "'d host \<Rightarrow> 'd \<Rightarrow> 'd usb_state \<Rightarrow> int \<times> 'd usb_state \<times> 'd usb_event list" where
  "obex_claim_interface host d ctx =
     (case h_config host d of (ret, config) \<Rightarrow>
      if ret < 0 then (ret, ctx, [])
      else case scan_config (concat config) ctx of
             (None, ctx1) \<Rightarrow> (LIBUSB_ERROR_NOT_FOUND, ctx1, [])
           | (Some a, ctx1) \<Rightarrow>
             let n = bInterfaceNumber a; ctx2 = ctx1\<lparr>intf_num := n\<rparr>
             in if ret \<noteq> 0 then (ret, ctx1, [])
                else if h_claim host d n \<noteq> 0 then (h_claim host d n, ctx2, [Claim d n])
                else let r = h_set_alt host d n (bAlternateSetting a)
                     in (r, ctx2, [Claim d n, Set_alt d n (bAlternateSetting a)] @
                                  (if r < 0 then [Release d n] else [])))"

section \<open>Opening and closing\<close>

fun find_device ::
  "'d host \<Rightarrow> u16 \<Rightarrow> u16 \<Rightarrow> 'd list \<Rightarrow> 'd usb_state \<Rightarrow> bool \<times> 'd usb_state \<times> 'd usb_event list" where
  "find_device host vid pid [] st = (False, st, [])"
| "find_device host vid pid (d # ds) st =
     (case h_descriptor host d of (r, v, p) \<Rightarrow>
      if r < 0 \<or> v \<noteq> vid \<or> p \<noteq> pid \<or> h_open host d < 0 then find_device host vid pid ds st
      else case obex_claim_interface host d (st\<lparr>usb_dev := Some d\<rparr>) of (ret, st1, ev) \<Rightarrow>
             if ret = 0 then (True, st1, Open d # ev)
             else case find_device host vid pid ds (st1\<lparr>usb_dev := None\<rparr>) of (ok, st2, ev2) \<Rightarrow>
                    (ok, st2, Open d # ev @ Close d # ev2))"

text \<open>The error exit: the handle is closed if there is one, then the library context released.\<close>

definition init_failed :: "'d usb_state \<Rightarrow> 'd usb_event list" where
  "init_failed st = (case usb_dev st of None \<Rightarrow> [] | Some d \<Rightarrow> [Close d]) @ [Exit]"

definition sizeof_obex_t :: nat where "sizeof_obex_t = 72"

definition no_device :: "'d usb_state" where
  "no_device = \<lparr>usb_dev = None, intf_num = 0, read_endpoint_address = 0, write_endpoint_address = 0,
     interrupt_endpoint_address = 0\<rparr>"

lemma usb_dev_no_device [simp]: "usb_dev no_device = None"
  by (simp add: no_device_def)

definition obex_init ::
  "alloc \<Rightarrow> 'd host \<Rightarrow> u16 \<Rightarrow> u16 \<Rightarrow> 'd usb_state obex option \<times> 'd usb_event list" where
  "obex_init alloc host vid pid =
     (if malloc alloc sizeof_obex_t = None then (None, [])
      else if h_init host < 0 then (None, [])
      else if fst (h_list host) < 0 then (None, Init # init_failed no_device)
      else case find_device host vid pid (snd (h_list host)) no_device of (ok, st, ev) \<Rightarrow>
        let ev1 = Init # ev @ [Free_list]
        in if \<not> ok then (None, ev1 @ init_failed st)
           else case buf_new alloc (unat OBEX_DEFAULT_MTU) of None \<Rightarrow> (None, ev1 @ init_failed st)
           | Some rx \<Rightarrow>
             (case buf_new alloc (unat OBEX_MAXIMUM_MTU) of None \<Rightarrow> (None, ev1 @ init_failed st)
              | Some tx \<Rightarrow>
                let ev2 = ev1 @ [Control (the (usb_dev st))]
                in if h_control host (the (usb_dev st)) < 0 then (None, ev2 @ init_failed st)
                   else (Some \<lparr>usb = st, version = OBEX_VERSION, obex_locale = 0,
                           mtu_rx = OBEX_DEFAULT_MTU, mtu_tx = OBEX_DEFAULT_MTU,
                           mtu_tx_max = OBEX_MAXIMUM_MTU, tx_msg = Some tx, rx_msg = Some rx,
                           seq_num = 0, obex_debug = 0\<rparr>, ev2)))"

fun obex_cleanup :: "'d usb_state obex option \<Rightarrow> 'd usb_event list" where
  "obex_cleanup None = []"
| "obex_cleanup (Some self) =
     (case usb_dev (usb self) of None \<Rightarrow> [Exit]
      | Some d \<Rightarrow> [Release d (intf_num (usb self)), Close d, Exit])"

section \<open>Handles stay balanced\<close>

text \<open>The handles open after a list of events, given those open before; \<open>None\<close> when a handle is
  closed that is not open.\<close>

fun handles :: "'d usb_event list \<Rightarrow> 'd list \<Rightarrow> 'd list option" where
  "handles [] hs = Some hs"
| "handles (Open d # ev) hs = handles ev (d # hs)"
| "handles (Close d # ev) hs = (if d \<in> set hs then handles ev (remove1 d hs) else None)"
| "handles (_ # ev) hs = handles ev hs"

lemma handles_append: "handles (ev @ ev') hs = Option.bind (handles ev hs) (handles ev')"
  by (induction ev hs rule: handles.induct) auto

lemma handles_claim:
  "obex_claim_interface host d ctx = (r, ctx', ev) \<Longrightarrow> handles ev hs = Some hs \<and> usb_dev ctx' = usb_dev ctx"
proof -
  have ep: "usb_dev (scan_endpoint e c) = usb_dev c" for e and c :: "'a usb_state"
    by (simp add: scan_endpoint_def)
  have f: "usb_dev (fold scan_endpoint es c) = usb_dev c" for es and c :: "'a usb_state"
    by (induction es arbitrary: c) (simp_all add: ep)
  have s: "usb_dev (snd (scan_config as c)) = usb_dev c" for as and c :: "'a usb_state"
    by (induction as c rule: scan_config.induct) (auto simp: Let_def scan_altsetting_def f)
  assume "obex_claim_interface host d ctx = (r, ctx', ev)"
  then show ?thesis
    using s [of "concat (snd (h_config host d))" ctx]
    by (auto simp: obex_claim_interface_def Let_def split: prod.splits option.splits if_splits)
qed

lemma handles_find:
  "find_device host vid pid ds st = (ok, st', ev) \<Longrightarrow> usb_dev st = None \<Longrightarrow>
     handles ev [] = Some (case usb_dev st' of None \<Rightarrow> [] | Some d \<Rightarrow> [d]) \<and> (ok \<longleftrightarrow> usb_dev st' \<noteq> None)"
proof (induction ds arbitrary: st st' ok ev)
  case (Cons d ds)
  obtain r v p where dd: "h_descriptor host d = (r, v, p)" using prod_cases3 by blast
  obtain ret st1 ev1 where c: "obex_claim_interface host d (st\<lparr>usb_dev := Some d\<rparr>) = (ret, st1, ev1)"
    using prod_cases3 by blast
  from handles_claim [OF c] have h1: "handles ev1 [d] = Some [d]" "usb_dev st1 = Some d" by auto
  obtain ok2 st2 ev2 where f: "find_device host vid pid ds (st1\<lparr>usb_dev := None\<rparr>) = (ok2, st2, ev2)"
    using prod_cases3 by blast
  from Cons.prems Cons.IH [OF f] Cons.IH [of st ok st' ev] dd c f h1 show ?case
    by (auto simp: handles_append split: if_splits)
qed simp

text \<open>Opening the connection leaves no handle behind when it fails: whatever the host library
  returns and wherever the error is, every device handle that was opened has been closed; on
  success exactly the selected device is open, and the cleanup closes it.\<close>

theorem obex_init_balanced:
  "case obex_init alloc host vid pid of
     (None, ev) \<Rightarrow> handles ev [] = Some []
   | (Some self, ev) \<Rightarrow>
       (\<exists>d. usb_dev (usb self) = Some d \<and> handles ev [] = Some [d] \<and>
            handles (ev @ obex_cleanup (Some self)) [] = Some [])"
proof -
  obtain ok st ev where f: "find_device host vid pid (snd (h_list host)) no_device = (ok, st, ev)"
    using prod_cases3 by blast
  from handles_find [OF f] have h: "handles ev [] = Some (case usb_dev st of None \<Rightarrow> [] | Some d \<Rightarrow> [d])"
    "ok \<longleftrightarrow> usb_dev st \<noteq> None" by (simp_all add: no_device_def)
  show ?thesis
    using h unfolding obex_init_def f Let_def prod.case
    by (cases "usb_dev st") (auto simp: handles_append init_failed_def split: option.split)
qed

section \<open>The selected endpoints\<close>

definition bulk_ep :: "u8 \<Rightarrow> endpoint \<Rightarrow> bool" where
  "bulk_ep dir ep \<longleftrightarrow> bmAttributes ep AND 3 = LIBUSB_TRANSFER_TYPE_BULK \<and>
     bEndpointAddress ep AND 0x80 = dir \<and> bEndpointAddress ep \<noteq> 0"

definition usable :: "altsetting \<Rightarrow> bool" where
  "usable a \<longleftrightarrow> (\<exists>e \<in> set (endpoints a). bulk_ep LIBUSB_ENDPOINT_IN e) \<and>
               (\<exists>e \<in> set (endpoints a). bulk_ep LIBUSB_ENDPOINT_OUT e)"

text \<open>The first endpoint of a direction, or what was there before.\<close>

definition first_ep :: "u8 \<Rightarrow> endpoint list \<Rightarrow> u8" where
  "first_ep dir es = (case find (bulk_ep dir) es of None \<Rightarrow> 0 | Some e \<Rightarrow> bEndpointAddress e)"

lemma in_not_out: "LIBUSB_ENDPOINT_IN \<noteq> LIBUSB_ENDPOINT_OUT"
  by (simp add: LIBUSB_ENDPOINT_IN_def LIBUSB_ENDPOINT_OUT_def)

lemma bulk_not_interrupt: "LIBUSB_TRANSFER_TYPE_BULK \<noteq> LIBUSB_TRANSFER_TYPE_INTERRUPT"
  by (simp add: LIBUSB_TRANSFER_TYPE_BULK_def LIBUSB_TRANSFER_TYPE_INTERRUPT_def)

lemma scan_endpoint_read:
  "read_endpoint_address (scan_endpoint e c) =
     (if read_endpoint_address c = 0 \<and> bulk_ep LIBUSB_ENDPOINT_IN e then bEndpointAddress e
      else read_endpoint_address c)"
  using bulk_not_interrupt by (auto simp: scan_endpoint_def bulk_ep_def)

lemma scan_endpoint_write:
  "write_endpoint_address (scan_endpoint e c) =
     (if write_endpoint_address c = 0 \<and> bulk_ep LIBUSB_ENDPOINT_OUT e then bEndpointAddress e
      else write_endpoint_address c)"
  using bulk_not_interrupt in_not_out by (auto simp: scan_endpoint_def bulk_ep_def)

lemma bulk_ep_address: "bulk_ep dir e \<Longrightarrow> bEndpointAddress e \<noteq> 0"
  by (simp add: bulk_ep_def)

lemma scan_fold:
  "read_endpoint_address (fold scan_endpoint es c) =
     (if read_endpoint_address c = 0 then first_ep LIBUSB_ENDPOINT_IN es else read_endpoint_address c)"
  "write_endpoint_address (fold scan_endpoint es c) =
     (if write_endpoint_address c = 0 then first_ep LIBUSB_ENDPOINT_OUT es else write_endpoint_address c)"
  by (induction es arbitrary: c)
    (auto simp: scan_endpoint_read scan_endpoint_write first_ep_def dest: bulk_ep_address)

lemma first_ep_zero: "first_ep dir es = 0 \<longleftrightarrow> \<not> (\<exists>e \<in> set es. bulk_ep dir e)"
proof (cases "find (bulk_ep dir) es")
  case None
  then have "\<not> (\<exists>e \<in> set es. bulk_ep dir e)" by (simp add: find_None_iff)
  with None show ?thesis by (simp add: first_ep_def)
next
  case (Some e)
  then have "bulk_ep dir e" "e \<in> set es" by (auto simp: find_Some_iff)
  with Some show ?thesis by (auto simp: first_ep_def dest: bulk_ep_address)
qed

lemma scan_altsetting_ends:
  "read_endpoint_address (scan_altsetting a c) = first_ep LIBUSB_ENDPOINT_IN (endpoints a)"
  "write_endpoint_address (scan_altsetting a c) = first_ep LIBUSB_ENDPOINT_OUT (endpoints a)"
  by (simp_all add: scan_altsetting_def scan_fold)

lemma scan_config_find: "fst (scan_config as c) = find usable as"
  by (induction as c rule: scan_config.induct)
    (auto simp: Let_def scan_altsetting_ends first_ep_zero usable_def)

lemma scan_config_ends:
  "fst (scan_config as c) = Some a \<Longrightarrow>
     read_endpoint_address (snd (scan_config as c)) = first_ep LIBUSB_ENDPOINT_IN (endpoints a) \<and>
     write_endpoint_address (snd (scan_config as c)) = first_ep LIBUSB_ENDPOINT_OUT (endpoints a)"
  by (induction as c rule: scan_config.induct) (auto simp: Let_def scan_altsetting_ends split: if_splits)

text \<open>A successful claim has picked the first alternate setting of the active configuration
  that has both a bulk-in and a bulk-out endpoint, has claimed its interface and activated it, and
  the transfers use the first endpoint of each direction in it.\<close>

theorem obex_claim_selects:
  assumes "obex_claim_interface host d ctx = (0, ctx', ev)"
  shows "\<exists>a. find usable (concat (snd (h_config host d))) = Some a \<and>
     intf_num ctx' = bInterfaceNumber a \<and>
     ev = [Claim d (bInterfaceNumber a), Set_alt d (bInterfaceNumber a) (bAlternateSetting a)] \<and>
     read_endpoint_address ctx' = first_ep LIBUSB_ENDPOINT_IN (endpoints a) \<and>
     write_endpoint_address ctx' = first_ep LIBUSB_ENDPOINT_OUT (endpoints a) \<and>
     read_endpoint_address ctx' \<noteq> 0 \<and> write_endpoint_address ctx' \<noteq> 0"
proof -
  let ?as = "concat (snd (h_config host d))"
  obtain fa c1 where sc: "scan_config ?as ctx = (fa, c1)" by fastforce
  from assms sc obtain a where a: "fa = Some a"
    "ctx' = c1\<lparr>intf_num := bInterfaceNumber a\<rparr>"
    "ev = [Claim d (bInterfaceNumber a), Set_alt d (bInterfaceNumber a) (bAlternateSetting a)]"
    by (auto simp: obex_claim_interface_def Let_def LIBUSB_ERROR_NOT_FOUND_def
        split: prod.splits option.splits if_splits)
  have f: "find usable ?as = Some a" using scan_config_find [of ?as ctx] sc a(1) by simp
  then have "usable a" by (auto simp: find_Some_iff)
  then have "first_ep LIBUSB_ENDPOINT_IN (endpoints a) \<noteq> 0" "first_ep LIBUSB_ENDPOINT_OUT (endpoints a) \<noteq> 0"
    unfolding first_ep_zero usable_def by auto
  with f a scan_config_ends [of ?as ctx a] sc show ?thesis by simp
qed

definition demo_host :: "nat host" where
  "demo_host = \<lparr>h_init = 0, h_list = (1, [0]), h_descriptor = (\<lambda>_. (0, 0x07cf, 0x6101)), h_open = (\<lambda>_. 0),
     h_config = (\<lambda>_. (0, [[\<lparr>bInterfaceNumber = 0, bAlternateSetting = 0,
        endpoints = [\<lparr>bmAttributes = 3, bEndpointAddress = 0x83\<rparr>]\<rparr>],
       [\<lparr>bInterfaceNumber = 1, bAlternateSetting = 2,
         endpoints = [\<lparr>bmAttributes = 2, bEndpointAddress = 0x81\<rparr>, \<lparr>bmAttributes = 2, bEndpointAddress = 0x02\<rparr>]\<rparr>]])),
     h_claim = (\<lambda>_ _. 0), h_set_alt = (\<lambda>_ _ _. 0), h_control = (\<lambda>_. 0)\<rparr>"

theorem obex_claim_selects_witness:
  "\<exists>ctx' ev. obex_claim_interface demo_host 0 no_device = (0, ctx', ev) \<and>
     read_endpoint_address ctx' = 0x81 \<and> write_endpoint_address ctx' = 0x02 \<and> intf_num ctx' = 1"
proof -
  let ?r = "obex_claim_interface demo_host 0 no_device"
  have s: "?r = (0, fst (snd ?r), snd (snd ?r))"
    by (simp add: obex_claim_interface_def demo_host_def scan_altsetting_def scan_endpoint_def no_device_def Let_def
      LIBUSB_TRANSFER_TYPE_BULK_def LIBUSB_TRANSFER_TYPE_INTERRUPT_def LIBUSB_ENDPOINT_IN_def LIBUSB_ENDPOINT_OUT_def)
  from obex_claim_selects [OF s] s show ?thesis
    by (auto simp: demo_host_def usable_def bulk_ep_def first_ep_def LIBUSB_TRANSFER_TYPE_BULK_def
        LIBUSB_ENDPOINT_IN_def LIBUSB_ENDPOINT_OUT_def)
qed

end
