(* ===== verification/Exword.thy ===== *)
theory Exword
  imports Obex_Usb
begin

text \<open>
  The device commands of libexword (\<^verbatim>\<open>src/tools/libexword/src/exword.c\<close>): character
  conversion, the transfer callbacks, connecting, disconnecting and polling, and the commands,
  each as the objects and headers it sends and what it makes of the answer. Parameters: the
  USB host library, the C library's \<^verbatim>\<open>iconv\<close> and its allocator, and what the application's
  callbacks are told is recorded in lists. A C string is its bytes without the terminator.
\<close>

section \<open>State\<close>

datatype exword_error =
    EXWORD_SUCCESS | EXWORD_ERROR_FORBIDDEN | EXWORD_ERROR_NOT_FOUND | EXWORD_ERROR_INTERNAL
  | EXWORD_ERROR_NO_MEM | EXWORD_ERROR_OTHER

definition EXWORD_DISCONNECT_NORMAL :: u8 where "EXWORD_DISCONNECT_NORMAL = 1"
definition EXWORD_DISCONNECT_UNPLUGGED :: u8 where "EXWORD_DISCONNECT_UNPLUGGED = 2"
definition EXWORD_DISCONNECT_ERROR :: u8 where "EXWORD_DISCONNECT_ERROR = 4"

definition EXWORD_MODE_TEXT :: u16 where "EXWORD_MODE_TEXT = 0x0200"
definition EXWORD_MODE_CD :: u16 where "EXWORD_MODE_CD = 0x0400"

text \<open>The part of \<^verbatim>\<open>exword_t\<close> the OBEX callback reaches through its user data, with the host
  library's state \<open>usb_w\<close>, and the calls of the application's file callbacks.\<close>

record 'u xworld =
  usb_w :: 'u
  cb_filename :: "bytes option"
  cb_filelength :: u32
  cb_transferred :: u32
  put_file_cb :: bool
  get_file_cb :: bool
  progress :: "(bytes \<times> u32 \<times> u32) list"

record 'u exword =
  xw :: "'u xworld"
  obex_ctx :: "'u xworld obex option"
  status :: u8
  disconnect_callback :: bool
  notified :: "u8 list"         \<comment> \<open>reasons the disconnect callback was given\<close>
  int_urb :: bool               \<comment> \<open>the interrupt transfer is allocated\<close>
  device_debug :: int

datatype iconv_errno = E2BIG | EINVAL | EILSEQ

text \<open>\<^verbatim>\<open>iconv\<close>: opening a converter from and to the locale, one call (input, room in the output;
  error if any, input bytes consumed, output bytes produced), and the final reset.\<close>

record 'c iconv =
  ic_from_locale :: "'c option"
  ic_to_locale :: "'c option"
  ic_conv :: "'c \<Rightarrow> bytes \<Rightarrow> nat \<Rightarrow> iconv_errno option \<times> nat \<times> bytes \<times> 'c"
  ic_reset :: "'c \<Rightarrow> nat \<Rightarrow> bytes"

datatype transfer_status = TIMED_OUT | COMPLETED | NO_DEVICE | TRANSFER_ERROR | Other_status

record ('u, 'c, 'd) env =
  e_alloc :: alloc
  e_lib :: "'u libusb"
  e_iconv :: "'c iconv"
  e_host :: "'d host"
  e_handle :: "'d usb_state \<Rightarrow> 'u \<Rightarrow> 'u"              \<comment> \<open>the host library after opening the device\<close>
  e_urb :: bool                                       \<comment> \<open>an interrupt transfer can be allocated\<close>
  e_events :: "'u \<Rightarrow> transfer_status list \<times> 'u"       \<comment> \<open>completions delivered by one poll\<close>
  e_fuel :: nat

section \<open>Character conversion\<close>

text \<open>The growing loop of \<^verbatim>\<open>convert\<close>; \<open>out\<close> is what is converted so far.\<close>

fun convert_loop ::
  "nat \<Rightarrow> alloc \<Rightarrow> 'c iconv \<Rightarrow> 'c \<Rightarrow> bytes \<Rightarrow> bytes \<Rightarrow> nat \<Rightarrow> bytes option res" where
  "convert_loop 0 alloc ic cd inp out outlen = Inl Out_of_fuel"
| "convert_loop (Suc k) alloc ic cd inp out outlen =
     (case ic_conv ic cd inp (outlen - length out) of (e, n, bs, cd1) \<Rightarrow>
      if e = None \<or> e = Some EINVAL then Inr (Some (out @ bs @ ic_reset ic cd1 (outlen - length (out @ bs))))
      else if e \<noteq> Some E2BIG then Inr None
      else let inp1 = drop n inp; outlen1 = outlen + length inp1 * 2
           in if malloc alloc outlen1 = None then Inr None
              else convert_loop k alloc ic cd1 inp1 (out @ bs) outlen1)"

definition convert :: "nat \<Rightarrow> alloc \<Rightarrow> 'c iconv \<Rightarrow> 'c \<Rightarrow> bytes \<Rightarrow> bytes option res" where
  "convert k alloc ic cd src =
     (if malloc alloc (length src) = None then Inr None
      else convert_loop k alloc ic cd src [] (length src))"

definition convert_to_locale :: "nat \<Rightarrow> alloc \<Rightarrow> 'c iconv \<Rightarrow> bytes \<Rightarrow> bytes option res" where
  "convert_to_locale k alloc ic src =
     (case ic_to_locale ic of None \<Rightarrow> Inr None | Some cd \<Rightarrow> convert k alloc ic cd src)"

definition convert_from_locale :: "nat \<Rightarrow> alloc \<Rightarrow> 'c iconv \<Rightarrow> bytes \<Rightarrow> bytes option res" where
  "convert_from_locale k alloc ic src =
     (case ic_from_locale ic of None \<Rightarrow> Inr None | Some cd \<Rightarrow> convert k alloc ic cd src)"

section \<open>Names of the commands\<close>

text \<open>A zero-terminated UTF-16BE name.\<close>

definition ascii :: "string \<Rightarrow> bytes" where "ascii s = map of_char s"

definition wide :: "string \<Rightarrow> bytes" where
  "wide s = concat (map (\<lambda>c. [0, of_char c]) s) @ [0, 0]"

definition Model :: bytes where "Model = wide ''_Model''"
definition List :: bytes where "List = wide ''_List''"
definition Remove :: bytes where "Remove = wide ''_Remove''"
definition Cap :: bytes where "Cap = wide ''_Cap''"
definition SdFormat :: bytes where "SdFormat = wide ''_SdFormat''"
definition UserId :: bytes where "UserId = wide ''_UserId''"
definition Unlock :: bytes where "Unlock = wide ''_Unlock''"
definition Lock :: bytes where "Lock = wide ''_Lock''"
definition CName :: bytes where "CName = wide ''_CName''"
definition CryptKey :: bytes where "CryptKey = wide ''_CryptKey''"
definition AuthChallenge :: bytes where "AuthChallenge = wide ''_AuthChallenge''"
definition AuthInfo :: bytes where "AuthInfo = wide ''_AuthInfo''"

lemmas command_names =
  Model_def List_def Remove_def Cap_def SdFormat_def UserId_def Unlock_def Lock_def CName_def
  CryptKey_def AuthChallenge_def AuthInfo_def

definition is_cmd :: "bytes \<Rightarrow> bool" where
  "is_cmd d \<longleftrightarrow>
     (length d = 10 \<and> d = Cap) \<or>
     (length d = 12 \<and> (d = List \<or> d = Lock)) \<or>
     (length d = 14 \<and> (d = Model \<or> d = CName)) \<or>
     (length d = 16 \<and> (d = Remove \<or> d = UserId \<or> d = Unlock)) \<or>
     (length d = 20 \<and> (d = SdFormat \<or> d = CryptKey \<or> d = AuthInfo)) \<or>
     (length d = 30 \<and> d = AuthChallenge)"

section \<open>Transfer callbacks\<close>

definition set_name :: "nat \<Rightarrow> alloc \<Rightarrow> 'c iconv \<Rightarrow> bytes \<Rightarrow> 'u xworld \<Rightarrow> 'u xworld res" where
  "set_name k alloc ic name w =
     rbind (convert_to_locale k alloc ic name) (\<lambda>s.
       Inr (w\<lparr>cb_filename := Some (case s of None \<Rightarrow> ascii ''Unknown'' | Some n \<Rightarrow> n)\<rparr>))"

text \<open>The header at offset \<open>off\<close> of the transmitted packet: identifier, length field and value. A
  length field below 3 makes the value size negative; no command name matches it and its
  conversion fails.\<close>

definition packet_hdr :: "buf_t option \<Rightarrow> nat \<Rightarrow> (u8 \<times> nat) res" where
  "packet_hdr tx off =
     rbind (need (peek tx off 1)) (\<lambda>hi. rbind (need (peek tx (off + 1) 2)) (\<lambda>hl.
       Inr (hd hi, unat (of_be16 hl))))"

definition packet_name :: "buf_t option \<Rightarrow> nat \<Rightarrow> bytes option res" where
  "packet_name tx hl =
     (if hl < 3 then Inr None else rbind (need (peek tx 7 (hl - 3))) (\<lambda>b. Inr (Some b)))"

definition name_known :: "bytes option \<Rightarrow> bool" where
  "name_known n = (case n of None \<Rightarrow> False | Some b \<Rightarrow> is_cmd b)"

definition set_packet_name :: "nat \<Rightarrow> alloc \<Rightarrow> 'c iconv \<Rightarrow> bytes option \<Rightarrow> 'u xworld \<Rightarrow> 'u xworld res" where
  "set_packet_name k alloc ic n w =
     (case n of None \<Rightarrow> Inr (w\<lparr>cb_filename := Some (ascii ''Unknown'')\<rparr>)
      | Some b \<Rightarrow> set_name k alloc ic b w)"

definition report :: "'u xworld \<Rightarrow> 'u xworld" where
  "report w = w\<lparr>progress := progress w @ [(case cb_filename w of None \<Rightarrow> [] | Some n \<Rightarrow> n,
                  cb_transferred w, cb_filelength w)]\<rparr>"

definition put_callback ::
  "nat \<Rightarrow> alloc \<Rightarrow> 'c iconv \<Rightarrow> buf_t option \<Rightarrow> 'u xworld \<Rightarrow> 'u xworld res" where
  "put_callback k alloc ic tx w =
     rbind (packet_hdr tx 4) (\<lambda>(hi, hl).
     rbind (if hi = OBEX_HDR_NAME then packet_name tx hl else Inr None) (\<lambda>name.
     rbind (if hi = OBEX_HDR_NAME \<and> \<not> name_known name
            then rbind (set_packet_name k alloc ic name w) (\<lambda>w1.
                 rbind (need (peek tx (hl + 5) 4)) (\<lambda>len.
                 rbind (packet_hdr tx (hl + 9)) (\<lambda>hdr2.
                   Inr (hdr2, w1\<lparr>cb_filelength := of_be32 len, cb_transferred := 0\<rparr>))))
            else Inr ((hi, hl), w)) (\<lambda>((hi2, hl2), w2).
       if hi2 = OBEX_HDR_BODY \<or> hi2 = OBEX_HDR_BODY_END
       then Inr (report (w2\<lparr>cb_transferred := cb_transferred w2 + (of_nat hl2 - 3)\<rparr>))
       else Inr w2)))"

fun scan_received :: "obex_header_element list \<Rightarrow> 'u xworld \<Rightarrow> 'u xworld res" where
  "scan_received [] w = Inr w"
| "scan_received (h # q) w =
     rbind (if h_hi h = OBEX_HDR_LENGTH
            then rbind (need (peek (h_buf h) 0 4)) (\<lambda>b. Inr (w\<lparr>cb_filelength := of_be32 b\<rparr>))
            else Inr w) (\<lambda>w1.
       scan_received q (if h_hi h = OBEX_HDR_BODY then w1\<lparr>cb_transferred := h_length h\<rparr> else w1))"

definition get_callback ::
  "nat \<Rightarrow> alloc \<Rightarrow> 'c iconv \<Rightarrow> buf_t option \<Rightarrow> obex_object \<Rightarrow> 'u xworld \<Rightarrow> 'u xworld res" where
  "get_callback k alloc ic tx object w =
     rbind (need (peek tx 2 2)) (\<lambda>len.
     rbind (if len \<noteq> [0, 3] then packet_hdr tx 4 else Inr (OBEX_HDR_EMPTY, 0)) (\<lambda>(hi, hl).
     rbind (if len \<noteq> [0, 3] \<and> hi = OBEX_HDR_NAME
            then rbind (packet_name tx hl) (\<lambda>name.
                   if name_known name then Inr (w\<lparr>cb_filename := None\<rparr>)
                   else set_packet_name k alloc ic name w)
            else Inr w) (\<lambda>w1.
       if cb_filename w1 = None then Inr w1
       else rbind (scan_received (rx_headerq object)
                    (case rx_body object of None \<Rightarrow> w1
                     | Some b \<Rightarrow> w1\<lparr>cb_transferred := of_nat (data_size b)\<rparr>)) (\<lambda>w2.
              Inr (report w2)))))"

definition exword_handle_callbacks ::
  "nat \<Rightarrow> alloc \<Rightarrow> 'c iconv \<Rightarrow> 'u xworld obex \<Rightarrow> obex_object \<Rightarrow> 'u xworld res" where
  "exword_handle_callbacks k alloc ic self object =
     (let w = usb self
      in if opcode object = OBEX_CMD_PUT \<and> put_file_cb w then put_callback k alloc ic (tx_msg self) w
         else if opcode object = OBEX_CMD_GET \<and> get_file_cb w
         then get_callback k alloc ic (tx_msg self) object w
         else Inr w)"

section \<open>Requests\<close>

definition lift_lib :: "'u libusb \<Rightarrow> 'u xworld libusb" where
  "lift_lib lib = \<lparr>
     bulk_in = (\<lambda>w n. case bulk_in lib (usb_w w) n of (r, bs, u) \<Rightarrow> (r, bs, w\<lparr>usb_w := u\<rparr>)),
     bulk_out = (\<lambda>w bs. case bulk_out lib (usb_w w) bs of (r, n, u) \<Rightarrow> (r, n, w\<lparr>usb_w := u\<rparr>))\<rparr>"

text \<open>\<^verbatim>\<open>obex_request\<close> on the handle's context, with the registered callback.\<close>

definition request ::
  "('u, 'c, 'd) env \<Rightarrow> 'u exword \<Rightarrow> obex_object \<Rightarrow> (int \<times> 'u exword \<times> obex_object) res" where
  "request env self obj =
     rbind (need (obex_ctx self)) (\<lambda>c.
     rbind (obex_request (e_fuel env) (e_alloc env) (lift_lib (e_lib env))
              (exword_handle_callbacks (e_fuel env) (e_alloc env) (e_iconv env)) (c\<lparr>usb := xw self\<rparr>) obj)
       (\<lambda>(rsp, c1, obj1). Inr (rsp, self\<lparr>obex_ctx := Some c1, xw := usb c1\<rparr>, obj1)))"

definition obex_to_exword_error ::
  "('u, 'c, 'd) env \<Rightarrow> 'u exword \<Rightarrow> int \<Rightarrow> (exword_error \<times> 'u exword) res" where
  "obex_to_exword_error env self rsp =
     (if rsp = 0x20 then Inr (EXWORD_SUCCESS, self)
      else if rsp = 0x43 then Inr (EXWORD_ERROR_FORBIDDEN, self)
      else if rsp = 0x44 then Inr (EXWORD_ERROR_NOT_FOUND, self)
      else if rsp = 0x50 then
        (let st = status self OR 0x80;
             st1 = (if st AND 0x07 = 0 then st OR EXWORD_DISCONNECT_ERROR else st);
             self1 = self\<lparr>status := st1\<rparr>
         in rbind (need (obex_ctx self1)) (\<lambda>c.
            rbind (obex_object_new (e_alloc env) c OBEX_CMD_DISCONNECT) (\<lambda>obj.
            case obj of None \<Rightarrow> Inr (EXWORD_ERROR_INTERNAL, self1)
            | Some ob \<Rightarrow> rbind (request env self1 ob) (\<lambda>(_, self2, _). Inr (EXWORD_ERROR_INTERNAL, self2)))))
      else Inr (EXWORD_ERROR_OTHER, self))"

definition exword_is_connected :: "'u exword \<Rightarrow> bool" where
  "exword_is_connected self \<longleftrightarrow> status self AND 0x80 = 0"

text \<open>The two tests every command starts with; \<open>r0\<close> is what the output arguments hold then.\<close>

definition guarded ::
  "'u exword \<Rightarrow> 'r \<Rightarrow> (exword_error \<times> 'r \<times> 'u exword) res \<Rightarrow> (exword_error \<times> 'r \<times> 'u exword) res" where
  "guarded self r0 body =
     (if status self AND 0x06 \<noteq> 0 then Inr (EXWORD_ERROR_INTERNAL, r0, self)
      else if \<not> exword_is_connected self then Inr (EXWORD_ERROR_NOT_FOUND, r0, self)
      else body)"

text \<open>Adding headers; the commands ignore the results.\<close>

fun add_headers ::
  "alloc \<Rightarrow> 'w obex \<Rightarrow> obex_object \<Rightarrow> (u8 \<times> obex_headerdata \<times> nat) list \<Rightarrow> obex_object res" where
  "add_headers alloc c obj [] = Inr obj"
| "add_headers alloc c obj ((hi, hv, n) # hs) =
     rbind (obex_object_addheader alloc c obj hi hv n 0) (\<lambda>(_, obj1). add_headers alloc c obj1 hs)"

text \<open>The body every command shares (the test on the response ignores the final bit): a new object, its headers, the request, the evaluation of
  a successful answer, and the translated response. \<open>nonhdr\<close> is the data \<^verbatim>\<open>exword_setpath\<close> puts in
  front.\<close>

definition transact ::
  "('u, 'c, 'd) env \<Rightarrow> 'u exword \<Rightarrow> u8 \<Rightarrow> bytes option \<Rightarrow> (u8 \<times> obex_headerdata \<times> nat) list \<Rightarrow>
     'r \<Rightarrow> (obex_object \<Rightarrow> 'r res) \<Rightarrow> (exword_error \<times> 'r \<times> 'u exword) res" where
  "transact env self cmd nonhdr hs r0 after =
     rbind (need (obex_ctx self)) (\<lambda>c.
     rbind (obex_object_new (e_alloc env) c cmd) (\<lambda>ob.
     case ob of None \<Rightarrow> Inr (EXWORD_ERROR_NO_MEM, r0, self)
     | Some obj \<Rightarrow>
       rbind (case nonhdr of None \<Rightarrow> Inr obj
              | Some nd \<Rightarrow> rbind (obex_object_set_nonhdr_data (e_alloc env) obj nd) (\<lambda>(_, obj1). Inr obj1)) (\<lambda>obj1.
       rbind (add_headers (e_alloc env) c obj1 hs) (\<lambda>obj2.
       rbind (request env self obj2) (\<lambda>(rsp, self1, obj3).
       rbind (if rsp = 0x20 \<or> rsp = 0xA0 then after obj3 else Inr r0) (\<lambda>r.
       rbind (obex_to_exword_error env self1 rsp) (\<lambda>(e, self2). Inr (e, r, self2))))))))"

section \<open>Connecting\<close>

definition exword_init :: "'u \<Rightarrow> alloc \<Rightarrow> 'u exword option" where
  "exword_init u alloc =
     (if malloc alloc 120 = None then None
      else Some \<lparr>xw = \<lparr>usb_w = u, cb_filename = None, cb_filelength = 0, cb_transferred = 0,
                      put_file_cb = False, get_file_cb = False, progress = []\<rparr>,
                obex_ctx = None, status = 0x80, disconnect_callback = False, notified = [],
                int_urb = False, device_debug = 0\<rparr>)"

definition connect_version :: "u16 \<Rightarrow> u8" where
  "connect_version options =
     (if options AND EXWORD_MODE_TEXT \<noteq> 0 then ucast (options AND 0xFF)
      else if options AND EXWORD_MODE_CD \<noteq> 0 then 0xF0
      else ucast (options AND 0xFF) - 0x0F)"

definition exword_connect ::
  "('u, 'c, 'd) env \<Rightarrow> 'u exword \<Rightarrow> u16 \<Rightarrow> (exword_error \<times> 'u exword) res" where
  "exword_connect env self options =
     (if exword_is_connected self then Inr (EXWORD_ERROR_OTHER, self)
      else if \<not> e_urb env then Inr (EXWORD_ERROR_OTHER, self\<lparr>int_urb := False\<rparr>)
      else case fst (obex_init (e_alloc env) (e_host env) 0x07CF 0x6101) of
             None \<Rightarrow> Inr (EXWORD_ERROR_OTHER, self\<lparr>int_urb := False, obex_ctx := None\<rparr>)
           | Some ob \<Rightarrow>
             (let w = (xw self)\<lparr>usb_w := e_handle env (usb ob) (usb_w (xw self))\<rparr>;
                  c0 = \<lparr>usb = w, version = version ob, obex_locale = obex_locale ob, mtu_rx = mtu_rx ob,
                        mtu_tx = mtu_tx ob, mtu_tx_max = mtu_tx_max ob, tx_msg = tx_msg ob,
                        rx_msg = rx_msg ob, seq_num = seq_num ob, obex_debug = device_debug self\<rparr>;
                  c = obex_set_connect_info c0 (connect_version options) (ucast (options AND 0xFF));
                  self1 = self\<lparr>xw := w, obex_ctx := Some c, int_urb := True\<rparr>;
                  failed = (\<lambda>s. (EXWORD_ERROR_OTHER, s\<lparr>obex_ctx := None, int_urb := False\<rparr>))
              in rbind (obex_object_new (e_alloc env) c OBEX_CMD_CONNECT) (\<lambda>obj.
                 case obj of None \<Rightarrow> Inr (failed self1)
                 | Some ob1 \<Rightarrow>
                   rbind (request env self1 ob1) (\<lambda>(ret, self2, _).
                     if ret \<noteq> 0x20 then Inr (failed self2)
                     else Inr (EXWORD_SUCCESS, self2\<lparr>status := 0\<rparr>)))))"

definition exword_disconnect :: "('u, 'c, 'd) env \<Rightarrow> 'u exword \<Rightarrow> (exword_error \<times> 'u exword) res" where
  "exword_disconnect env self =
     (if \<not> exword_is_connected self then Inr (EXWORD_SUCCESS, self)
      else let st = status self OR 0x80;
               self1 = self\<lparr>status := (if st AND 0x07 = 0 then st OR EXWORD_DISCONNECT_NORMAL else st)\<rparr>
           in rbind (need (obex_ctx self1)) (\<lambda>c.
              rbind (obex_object_new (e_alloc env) c OBEX_CMD_DISCONNECT) (\<lambda>obj.
              case obj of None \<Rightarrow> Inr (EXWORD_ERROR_NO_MEM, self1)
              | Some ob \<Rightarrow>
                rbind (request env self1 ob) (\<lambda>(_, self2, _).
                  Inr (EXWORD_SUCCESS, self2\<lparr>int_urb := False, obex_ctx := None\<rparr>)))))"

fun exword_handle_interrupt :: "transfer_status \<Rightarrow> 'u exword \<Rightarrow> 'u exword" where
  "exword_handle_interrupt NO_DEVICE self =
     (if status self AND 0x07 = 0 then self\<lparr>status := status self OR EXWORD_DISCONNECT_UNPLUGGED\<rparr> else self)"
| "exword_handle_interrupt TRANSFER_ERROR self =
     (if status self AND 0x07 = 0 then self\<lparr>status := status self OR EXWORD_DISCONNECT_UNPLUGGED\<rparr> else self)"
| "exword_handle_interrupt _ self = self"

definition send_disconnect_event :: "'u exword \<Rightarrow> u8 \<Rightarrow> 'u exword" where
  "send_disconnect_event self reason =
     (if disconnect_callback self then self\<lparr>notified := notified self @ [reason]\<rparr> else self)"

definition exword_poll_disconnect :: "('u, 'c, 'd) env \<Rightarrow> 'u exword \<Rightarrow> 'u exword res" where
  "exword_poll_disconnect env self =
     (let self1 = (if exword_is_connected self
                   then case e_events env (usb_w (xw self)) of (ev, u) \<Rightarrow>
                     fold exword_handle_interrupt ev (self\<lparr>xw := (xw self)\<lparr>usb_w := u\<rparr>\<rparr>)
                   else self)
      in if status self1 AND 0x07 = 0 then Inr self1
         else rbind (exword_disconnect env (send_disconnect_event self1 (status self1 AND 0x07)))
                (\<lambda>(_, self2). Inr (self2\<lparr>status := status self2 AND NOT 0x07\<rparr>)))"

definition exword_deinit :: "('u, 'c, 'd) env \<Rightarrow> 'u exword \<Rightarrow> (exword_error \<times> 'u exword) res" where
  "exword_deinit env self =
     (if exword_is_connected self then exword_disconnect env self else Inr (EXWORD_SUCCESS, self))"

definition exword_register_xfer_callbacks :: "'u exword \<Rightarrow> bool \<Rightarrow> bool \<Rightarrow> 'u exword" where
  "exword_register_xfer_callbacks self g p = self\<lparr>xw := (xw self)\<lparr>put_file_cb := p, get_file_cb := g\<rparr>\<rparr>"

definition exword_register_xfer_get_callback :: "'u exword \<Rightarrow> bool \<Rightarrow> 'u exword" where
  "exword_register_xfer_get_callback self g = self\<lparr>xw := (xw self)\<lparr>get_file_cb := g\<rparr>\<rparr>"

definition exword_register_xfer_put_callback :: "'u exword \<Rightarrow> bool \<Rightarrow> 'u exword" where
  "exword_register_xfer_put_callback self p = self\<lparr>xw := (xw self)\<lparr>put_file_cb := p\<rparr>\<rparr>"

definition exword_register_disconnect_callback :: "'u exword \<Rightarrow> bool \<Rightarrow> 'u exword" where
  "exword_register_disconnect_callback self d = self\<lparr>disconnect_callback := d\<rparr>"

definition exword_set_debug :: "'u exword \<Rightarrow> int \<Rightarrow> 'u exword" where
  "exword_set_debug self level =
     self\<lparr>device_debug := level, obex_ctx := map_option (\<lambda>c. c\<lparr>obex_debug := level\<rparr>) (obex_ctx self)\<rparr>"

definition exword_get_debug :: "'u exword \<Rightarrow> int" where
  "exword_get_debug self = device_debug self"

end
