(* ===== verification/Crypt.thy ===== *)
theory Crypt
  imports Prelude
begin

text \<open>
  The add-on dictionary cipher of libexword (\<^verbatim>\<open>src/tools/libexword/src/crypt.c\<close>): the software
  floating point it is built on (a multiplication, an addition, an integer conversion and a table
  sine on IEEE single bit patterns, working without denormals), the key schedule, and the
  cipher itself. All values are 16- and 32-bit words as in the source. The normalisation loops
  that the C code leaves unbounded take fuel; that they end is part of what is proved. Whether a
  \<^verbatim>\<open>char\<close> sign-extends is the platform's choice and an argument, \<open>cv\<close>.
\<close>

section \<open>Tables\<close>

definition table1 :: "u32 list" where
  "table1 = [0x3F7EB852, 0x3F81930C, 0x3F86F34D, 0x3FC1930C, 0x40161E4F, 0x3F004EA5, 0x3F885F07, 0x3B83126F,
     0x3243F6C, 0x1921FB6, 0x3FC90FDB]"

definition table2 :: "u32 list" where
  "table2 =
    [0x31A4B7A0, 0x3BFFFF55, 0x3C7FFD55, 0x3CBFFB80, 0x3CFFF555, 0x3D1FF596, 0x3D3FEE01, 0x3D5FE36C,
     0x3D7FD557, 0x3D8FE1A2, 0x3D9FD659, 0x3DAFC890, 0x3DBFB808, 0x3DCFA481, 0x3DDF8DBC, 0x3DEF7379,
     0x3DFF5577, 0x3E0799BC, 0x3E0F869F, 0x3E177143, 0x3E1F5989, 0x3E273F52, 0x3E2F227E, 0x3E3702EE,
     0x3E3EE081, 0x3E46BB19, 0x3E4E9297, 0x3E5666D9, 0x3E5E37C2, 0x3E660533, 0x3E6DCF0B, 0x3E75952C,
     0x3E7D5777, 0x3E828AE6, 0x3E866806, 0x3E8A430D, 0x3E8E1BEB, 0x3E91F291, 0x3E95C6EE, 0x3E9998F5,
     0x3E9D6895, 0x3EA135BF, 0x3EA50065, 0x3EA8C876, 0x3EAC8DE5, 0x3EB050A1, 0x3EB4109C, 0x3EB7CDC7,
     0x3EBB8813, 0x3EBF3F70, 0x3EC2F3D1, 0x3EC6A525, 0x3ECA535F, 0x3ECDFE70, 0x3ED1A649, 0x3ED54ADB,
     0x3ED8EC18, 0x3EDC89F2, 0x3EE02459, 0x3EE3BB3F, 0x3EE74E97, 0x3EEADE52, 0x3EEE6A61, 0x3EF1F2B6,
     0x3EF57744, 0x3EF8F7FB, 0x3EFC74CF, 0x3EFFEDB1, 0x3F01B14A, 0x3F0369B4, 0x3F052011, 0x3F06D459,
     0x3F088686, 0x3F0A3691, 0x3F0BE473, 0x3F0D9025, 0x3F0F39A2, 0x3F10E0E1, 0x3F1285DD, 0x3F14288E,
     0x3F15C8EF, 0x3F1766F9, 0x3F1902A6, 0x3F1A9BEE, 0x3F1C32CC, 0x3F1DC739, 0x3F1F592F, 0x3F20E8A7,
     0x3F22759C, 0x3F240007, 0x3F2587E2, 0x3F270D27, 0x3F288FD0, 0x3F2A0FD6, 0x3F2B8D35, 0x3F2D07E5,
     0x3F2E7FE1, 0x3F2FF523, 0x3F3167A5, 0x3F32D761, 0x3F344452, 0x3F35AE73, 0x3F3715BC, 0x3F387A29,
     0x3F39DBB4, 0x3F3B3A58, 0x3F3C960F, 0x3F3DEED3, 0x3F3F44A0, 0x3F40976F, 0x3F41E73D, 0x3F433402,
     0x3F447DBB, 0x3F45C462, 0x3F4707F2, 0x3F484866, 0x3F4985B8, 0x3F4ABFE5, 0x3F4BF6E6, 0x3F4D2AB8,
     0x3F4E5B55, 0x3F4F88B8, 0x3F50B2DE, 0x3F51D9C1, 0x3F52FD5C, 0x3F541DAB, 0x3F553AAA, 0x3F565454,
     0x3F576AA4, 0x3F587D97, 0x3F598D28, 0x3F5A9953, 0x3F5BA214, 0x3F5CA765, 0x3F5DA945, 0x3F5EA7AD,
     0x3F5FA29B, 0x3F609A0B, 0x3F618DF8, 0x3F627E5F, 0x3F636B3C, 0x3F64548B, 0x3F653A49, 0x3F661C72,
     0x3F66FB02, 0x3F67D5F7, 0x3F68AD4C, 0x3F6980FF, 0x3F6A510B, 0x3F6B1D6F, 0x3F6BE626, 0x3F6CAB2D,
     0x3F6D6C81, 0x3F6E2A20, 0x3F6EE407, 0x3F6F9A31, 0x3F704C9E, 0x3F70FB49, 0x3F71A630, 0x3F724D51,
     0x3F72F0A8, 0x3F739034, 0x3F742BF1, 0x3F74C3DE, 0x3F7557F7, 0x3F75E83C, 0x3F7674A8, 0x3F76FD3B,
     0x3F7781F2, 0x3F7802CB, 0x3F787FC4, 0x3F78F8DA, 0x3F796E0D, 0x3F79DF5B, 0x3F7A4CC0, 0x3F7AB63D,
     0x3F7B1BCF, 0x3F7B7D74, 0x3F7BDB2B, 0x3F7C34F3, 0x3F7C8ACA, 0x3F7CDCAF, 0x3F7D2AA1, 0x3F7D749E,
     0x3F7DBAA5, 0x3F7DFCB5, 0x3F7E3ACD, 0x3F7E74EC, 0x3F7EAB11, 0x3F7EDD3C, 0x3F7F0B6B, 0x3F7F359F,
     0x3F7F5BD5, 0x3F7F7E0E, 0x3F7F9C49, 0x3F7FB685, 0x3F7FCCC3, 0x3F7FDF01, 0x3F7FED40, 0x3F7FF77F,
     0x3F7FFDBF, 0x3F7FFFFE, 0x3F7FFE3D, 0x3F7FF87D, 0x3F7FEEBC, 0x3F7FE0FC, 0x3F7FCF3D, 0x3F7FB97E,
     0x3F7F9FC0, 0x3F7F8204, 0x3F7F6049, 0x3F7F3A92, 0x3F7F10DD, 0x3F7EE32C, 0x3F7EB17F, 0x3F7E7BD8,
     0x3F7E4237, 0x3F7E049D, 0x3F7DC30A, 0x3F7D7D81, 0x3F7D3402, 0x3F7CE68E, 0x3F7C9526, 0x3F7C3FCC,
     0x3F7BE681, 0x3F7B8946, 0x3F7B281D, 0x3F7AC308, 0x3F7A5A08, 0x3F79ED1E, 0x3F797C4C, 0x3F790795,
     0x3F788EF9, 0x3F78127B, 0x3F77921D, 0x3F770DE1, 0x3F7685C8, 0x3F75F9D6, 0x3F756A0B, 0x3F74D66B,
     0x3F743EF7, 0x3F73A3B3, 0x3F7304A0, 0x3F7261C0, 0x3F71BB18, 0x3F7110A8, 0x3F706274, 0x3F6FB07F,
     0x3F6EFACB, 0x3F6E415B, 0x3F6D8432, 0x3F6CC352, 0x3F6BFEC0, 0x3F6B367E, 0x3F6A6A8F, 0x3F699AF6,
     0x3F68C7B7]"

section \<open>Software floating point\<close>

definition f_exp :: "u32 \<Rightarrow> u16" where "f_exp a = ucast (drop_bit 16 a AND 0x7F80)"
definition f_sign :: "u32 \<Rightarrow> u16" where "f_sign a = ucast (drop_bit 16 a AND 0x8000)"
definition f_mant :: "u32 \<Rightarrow> u32" where "f_mant a = (a AND 0x7FFFFF) OR 0x800000"

definition hi16 :: "u16 \<Rightarrow> u32" where "hi16 s = push_bit 16 (ucast s)"

definition f_pack :: "u16 \<Rightarrow> u16 \<Rightarrow> u32 \<Rightarrow> u32" where
  "f_pack s e m = (m AND 0x7FFFFF) OR push_bit 16 (ucast s OR push_bit 7 (ucast e))"

definition f_huge :: u32 where "f_huge = 0x7FFFFFFF"

lemma drop_bit_less: "drop_bit 16 (v :: u32) AND 0xFF00 \<noteq> 0 \<Longrightarrow> unat (drop_bit 1 v) < unat v"
proof -
  assume "drop_bit 16 v AND 0xFF00 \<noteq> 0"
  then have "v \<noteq> 0" by auto
  then have "unat v \<noteq> 0" by (simp add: unat_eq_0)
  then show ?thesis by (simp only: unat_drop_bit) simp
qed

lemma and_mask_le: "unat ((v :: u32) AND m) \<le> unat v"
  by (metis word_and_le2 word_le_nat_alt)

text \<open>\<^verbatim>\<open>while ((v >> 16) & 0xff00) { e += 1; v >>= 1; }\<close>\<close>

function norm_down :: "u16 \<Rightarrow> u32 \<Rightarrow> u16 \<times> u32" where
  "norm_down e v = (if drop_bit 16 v AND 0xFF00 = 0 then (e, v) else norm_down (e + 1) (drop_bit 1 v))"
  by auto

termination
  by (relation "measure (\<lambda>(e, v). unat v)") (simp_all del: One_nat_def add: drop_bit_less)

declare norm_down.simps [simp del]

text \<open>\<^verbatim>\<open>while (!((v >> 16) & 0x80)) { e -= 1; v <<= 1; }\<close>, which does not end on 0.\<close>

fun norm_up :: "nat \<Rightarrow> u16 \<Rightarrow> u32 \<Rightarrow> (u16 \<times> u32) res" where
  "norm_up k e v =
     (if drop_bit 16 v AND 0x80 \<noteq> 0 then Inr (e, v)
      else case k of 0 \<Rightarrow> Inl Out_of_fuel | Suc k' \<Rightarrow> norm_up k' (e - 1) (push_bit 1 v))"

declare norm_up.simps [simp del]

text \<open>The rounds after which \<open>norm_up\<close> has shifted a nonzero word to bit 23.\<close>

definition UP_FUEL :: nat where "UP_FUEL = 23"

text \<open>\<open>sub_3a65dc\<close>: multiplication.\<close>

definition mul_mant :: "u32 \<Rightarrow> u32 \<Rightarrow> u32" where
  "mul_mant a b =
     (let x = push_bit 7 a; y = push_bit 7 b;
          mid = (drop_bit 16 x AND 0xFFFF) * (y AND 0xFFFF) + (x AND 0xFFFF) * (drop_bit 16 y AND 0xFFFF)
      in drop_bit 16 mid + (drop_bit 16 x AND 0xFFFF) * (drop_bit 16 y AND 0xFFFF))"

definition mul_normal :: "u16 \<Rightarrow> u16 \<Rightarrow> u32 \<Rightarrow> u32" where
  "mul_normal s e v =
     (if e \<noteq> 0 \<and> e AND 0x8000 = 0 then (if sint e < 0xFF then f_pack s e v else f_huge OR hi16 s)
      else hi16 s)"

definition sub_3a65dc :: "u32 \<Rightarrow> u32 \<Rightarrow> u32 res" where
  "sub_3a65dc a b =
     (let s = f_sign a XOR f_sign b
      in if f_exp a = 0x7F80 then Inr ((if f_exp b = 0x7F80 then f_huge else a) OR hi16 s)
         else if f_exp a = 0 \<or> f_exp b = 0 then Inr (hi16 s)
         else if f_exp b = 0x7F80 then Inr (b OR hi16 s)
         else let e = drop_bit 7 (f_exp a) + drop_bit 7 (f_exp b) - 0x84;
                  v = mul_mant (f_mant a) (f_mant b)
              in rbind (if drop_bit 16 v AND 0xFF80 \<noteq> 0 then Inr (norm_down e v) else norm_up UP_FUEL e v)
                   (\<lambda>(e1, v1). Inr (mul_normal s e1 v1)))"

text \<open>\<open>sub_3a6b8f\<close>: the integer \<open>a\<close> scaled by \<open>2 ^ - b\<close>.\<close>

definition sub_3a6b8f :: "u32 \<Rightarrow> u32 \<Rightarrow> u32 res" where
  "sub_3a6b8f a b =
     (if a = 0 then Inr 0
      else case norm_down 0x96 a of (e, v) \<Rightarrow>
        rbind (norm_up UP_FUEL e v) (\<lambda>(e1, v1).
          let e2 = e1 - ucast b
          in if sint e2 \<le> 0 then Inr 0
             else if sint e2 \<ge> 0xFF then Inr f_huge
             else Inr (push_bit 23 (ucast e2) OR (v1 AND 0x7FFFFF))))"

text \<open>\<open>sub_3a62c9\<close>: addition. The loops that bring the sum back to 24 bits; \<open>Inl\<close> is the early
  return.\<close>

function add_down :: "u16 \<Rightarrow> u16 \<Rightarrow> u32 \<Rightarrow> u32 + u16 \<times> u32" where
  "add_down s e v =
     (if drop_bit 16 v AND 0xFF00 = 0 then Inr (e, v)
      else if sint e \<ge> 0x7FF then Inl (push_bit 16 (ucast s OR 0x7FFF) OR 0xFFFF)
      else add_down s (e + 1) (drop_bit 1 v AND 0x7FFFFFFF))"
  by auto

termination
proof (relation "measure (\<lambda>(s, e, v). unat v)")
  fix s e :: u16 and v :: u32
  assume "drop_bit 16 v AND 0xFF00 \<noteq> 0"
  from drop_bit_less [OF this] and_mask_le [of "drop_bit 1 v" "0x7FFFFFFF"]
  show "((s, e + 1, drop_bit 1 v AND 0x7FFFFFFF), (s, e, v)) \<in> measure (\<lambda>(s, e, v). unat v)"
    by (simp del: One_nat_def)
qed simp

function add_up :: "u16 \<Rightarrow> u16 \<Rightarrow> u32 \<Rightarrow> u32 + u16 \<times> u32" where
  "add_up s e v =
     (if drop_bit 16 v AND 0x80 \<noteq> 0 then Inr (e, v)
      else if sint e \<le> 0 then Inl (hi16 s)
      else add_up s (e - 1) (push_bit 1 v))"
  by auto

termination
proof (relation "measure (\<lambda>(s, e, v). unat e)")
  fix s e :: u16 and v :: u32
  assume "\<not> sint e \<le> 0"
  then have "e \<noteq> 0" by auto
  then show "((s, e - 1, push_bit 1 v), (s, e, v)) \<in> measure (\<lambda>(s, e, v). unat e)"
    by (simp add: unat_minus_one unat_gt_0)
qed simp

declare add_down.simps [simp del] add_up.simps [simp del]

definition add_normal :: "u16 \<Rightarrow> u16 \<Rightarrow> u32 \<Rightarrow> u32" where
  "add_normal s e v =
     (if v = 0 then 0
      else case (if drop_bit 16 v AND 0xFF80 \<noteq> 0 then add_down s e v else add_up s e v) of
             Inl r \<Rightarrow> r
           | Inr (e1, v1) \<Rightarrow> f_pack s e1 v1)"

text \<open>The larger operand is given first: its sign, exponent and mantissa, then the sign and the
  mantissa of the smaller, shifted.\<close>

definition add_aligned :: "u16 \<Rightarrow> u16 \<Rightarrow> u32 \<Rightarrow> u16 \<Rightarrow> u32 \<Rightarrow> u32" where
  "add_aligned s e big s' small = add_normal s e (big + (if s \<noteq> s' then NOT small + 1 else small))"

definition sub_3a62c9 :: "u32 \<Rightarrow> u32 \<Rightarrow> u32" where
  "sub_3a62c9 a b =
     (if f_exp a = 0 then b else if f_exp b = 0 then a
      else let ea = drop_bit 7 (f_exp a); eb = drop_bit 7 (f_exp b);
               d = (ucast ea - ucast eb) :: u32; ma = f_mant a; mb = f_mant b
           in if sint d < 0 \<or> d = 0 \<and> ma < mb
              then let d' = NOT d + 1
                   in if sint d' \<ge> 0x18 \<or> eb = 0xFF then b
                      else add_aligned (f_sign b) eb mb (f_sign a) (drop_bit (unat (d' AND 0xFF)) ma)
              else if sint d \<ge> 0x18 \<or> ea = 0xFF then a
                   else add_aligned (f_sign a) ea ma (f_sign b) (drop_bit (unat (d AND 0xFF)) mb))"

definition sub_3a65b1 :: "u32 \<Rightarrow> u32 \<Rightarrow> u32" where
  "sub_3a65b1 a b = sub_3a62c9 a (b XOR 0x80000000)"

text \<open>\<open>sub_3a6886\<close>: the table sine. The reduction of the argument gives the sign, the table index
  and the binary scale of the table step.\<close>

definition half_turn :: "u32 \<Rightarrow> u32" where
  "half_turn m = (if m > table1 ! 9 then m - table1 ! 9 else m)"

definition quarter_turn :: "u32 \<Rightarrow> u32" where
  "quarter_turn m = (if drop_bit 16 m AND 0xFFFF > 0xFF then table1 ! 9 - m else m)"

definition sine_reduce :: "u16 \<Rightarrow> u16 \<Rightarrow> u32 \<Rightarrow> u16 \<times> u32 \<times> u32" where
  "sine_reduce s c m =
     (if c = 0 \<or> c AND 0x8000 \<noteq> 0
      then let sh = 0x10 - scast c in (s, drop_bit (unat (sh AND 0xFF)) m, sh)
      else let m1 = push_bit (unat (c AND 0xFF)) m mod (table1 ! 8)
           in (if m1 > table1 ! 9 then s XOR 0x8000 else s,
               drop_bit 16 (quarter_turn (half_turn m1)) AND 0xFFFF, 0x10))"

definition lookup :: "u32 list \<Rightarrow> u32 \<Rightarrow> u32 res" where
  "lookup t i = (if unat i < length t then Inr (t ! unat i) else Inl Abort)"

definition sine_scale :: "u16 \<Rightarrow> u32 \<Rightarrow> u32 \<Rightarrow> u32" where
  "sine_scale s v sh =
     (let e = drop_bit 7 (f_exp v) - ucast (sh AND 0xFFFF)
      in if e = 0 \<or> e AND 0x8000 \<noteq> 0 then hi16 s
         else if sint e < 0xFF then f_pack s e v
         else f_huge OR hi16 s)"

definition sub_3a6886 :: "u32 \<Rightarrow> u32 res" where
  "sub_3a6886 a =
     (if f_exp a = 0x7F80 then Inr (f_huge OR hi16 (f_sign a))
      else if a AND 0x7FFFFFFF > 0x43FE7811 then Inr 0
      else if f_exp a = 0 then Inr (hi16 (f_sign a))
      else let e = drop_bit 7 (f_exp a)
           in if sint e < 0x73 \<or> e = 0x73 \<and> a AND 0x7FFFFF < 0x689769 then Inr a
              else case sine_reduce (f_sign a) (e - 0x7F) (f_mant a) of (s, i, sh) \<Rightarrow>
                rbind (lookup table2 i) (\<lambda>t.
                rbind (sub_3a6b8f (push_bit (unat (sh AND 0xFF)) 1) 0) (\<lambda>u.
                rbind (sub_3a65dc t u) (\<lambda>v. Inr (sine_scale s v sh)))))"

definition sub_3a6b2c :: "u32 \<Rightarrow> u32 res" where
  "sub_3a6b2c a =
     (if a AND 0x7FFFFFFF > 0x43FE7811 then Inr 0x3F800000
      else sub_3a6886 (sub_3a65b1 (table1 ! 10) a))"

section \<open>The key schedule\<close>

text \<open>The rotated point: from the angle and the point \<open>(x, y)\<close>, the scale \<open>var_68\<close> and the offsets
  \<open>var_58\<close>, \<open>var_54\<close>.\<close>

definition rotate_point :: "u32 \<Rightarrow> u32 \<Rightarrow> u32 \<Rightarrow> u32 \<Rightarrow> u32 \<Rightarrow> u32 \<Rightarrow> (u32 \<times> u32) res" where
  "rotate_point v68 v58 v54 angle x y =
     rbind (sub_3a6b2c angle) (\<lambda>v18.
     rbind (sub_3a6886 angle) (\<lambda>v14.
     rbind (sub_3a65dc v18 x) (\<lambda>p.
     rbind (sub_3a65dc v14 y) (\<lambda>q.
     rbind (sub_3a65dc v68 (sub_3a65b1 p q)) (\<lambda>r.
     rbind (sub_3a65dc v14 x) (\<lambda>p'.
     rbind (sub_3a65dc v18 y) (\<lambda>q'.
     rbind (sub_3a65dc v68 (sub_3a62c9 p' q')) (\<lambda>r'.
       Inr (sub_3a62c9 r v58, sub_3a62c9 r' v54)))))))))"

record schedule =
  k68 :: u32
  k58 :: u32
  k54 :: u32
  k28 :: u32
  k24 :: u32
  kx :: u32
  ky :: u32

definition angle_of :: "schedule \<Rightarrow> u32 res" where
  "angle_of k = rbind (sub_3a65dc (k28 k) (kx k)) (\<lambda>p. Inr (sub_3a62c9 (sub_3a62c9 p (ky k)) (k24 k)))"

definition advance :: "schedule \<Rightarrow> u32 \<Rightarrow> schedule res" where
  "advance k angle =
     rbind (rotate_point (k68 k) (k58 k) (k54 k) angle (kx k) (ky k)) (\<lambda>(x, y). Inr (k\<lparr>kx := x, ky := y\<rparr>))"

text \<open>One mixing round: \<open>buf\<close> is \<^verbatim>\<open>var_44\<close>, \<open>i\<close> is \<^verbatim>\<open>var_2c\<close>.\<close>

definition mix_round :: "(u8 \<Rightarrow> u32) \<Rightarrow> bytes \<Rightarrow> nat \<Rightarrow> nat \<times> schedule \<Rightarrow> (nat \<times> schedule) res" where
  "mix_round cv buf n st =
     (case st of (i0, k) \<Rightarrow>
      let i = (if i0 = n then 0 else i0)
      in rbind (angle_of k) (\<lambda>a.
         rbind (if i < length buf then Inr (cv (buf ! i)) else Inl Abort) (\<lambda>c.
         rbind (sub_3a6b8f ((c XOR (kx k AND 0xFF)) * (a AND 0xFF)) 8) (\<lambda>f.
         rbind (advance k (sub_3a62c9 a f)) (\<lambda>k1. Inr (i + 1, k1))))))"

fun mix :: "nat \<Rightarrow> (u8 \<Rightarrow> u32) \<Rightarrow> bytes \<Rightarrow> nat \<Rightarrow> nat \<times> schedule \<Rightarrow> (nat \<times> schedule) res" where
  "mix 0 cv buf n st = Inr st"
| "mix (Suc r) cv buf n st = rbind (mix_round cv buf n st) (mix r cv buf n)"

definition out_bytes :: "schedule \<Rightarrow> bytes" where
  "out_bytes k = [ucast (drop_bit 16 (kx k) AND 0xFF), ucast (drop_bit 8 (kx k) AND 0xFF),
                  ucast (drop_bit 16 (ky k) AND 0xFF), ucast (drop_bit 8 (ky k) AND 0xFF)]"

fun emit :: "nat \<Rightarrow> schedule \<Rightarrow> bytes res" where
  "emit 0 k = Inr []"
| "emit (Suc r) k =
     rbind (angle_of k) (\<lambda>a. rbind (advance k a) (\<lambda>k1. rbind (emit r k1) (\<lambda>bs. Inr (out_bytes k1 @ bs))))"

definition key_buffer :: "bytes \<Rightarrow> bytes" where
  "key_buffer key = take 16 key @ replicate (16 - length key) 0"

definition seed_schedule :: "(u8 \<Rightarrow> u32) \<Rightarrow> bytes \<Rightarrow> schedule res" where
  "seed_schedule cv buf =
     rbind (sub_3a6b8f (cv (buf ! 0)) 8) (\<lambda>f0. rbind (sub_3a6b8f (cv (buf ! 1)) 8) (\<lambda>f1.
     rbind (sub_3a6b8f (cv (buf ! 2)) 8) (\<lambda>f2. rbind (sub_3a6b8f (cv (buf ! 3)) 8) (\<lambda>f3.
     rbind (sub_3a6b8f (cv (buf ! 4)) 8) (\<lambda>f4. rbind (sub_3a6b8f (cv (buf ! 5)) 8) (\<lambda>f5.
       Inr \<lparr>k68 = table1 ! 0, k58 = sub_3a62c9 (table1 ! 1) f0, k54 = sub_3a65b1 (table1 ! 2) f1,
            k28 = sub_3a62c9 (table1 ! 5) f4, k24 = sub_3a65b1 (table1 ! 6) f5,
            kx = sub_3a62c9 (table1 ! 3) f2, ky = sub_3a65b1 (table1 ! 4) f3\<rparr>))))))"

definition mix_rounds :: "(u8 \<Rightarrow> u32) \<Rightarrow> bytes \<Rightarrow> nat" where
  "mix_rounds cv key = unat ((sum_list (map cv key) AND 0x1F) + 0x10)"

definition get_xor_key :: "(u8 \<Rightarrow> u32) \<Rightarrow> bytes \<Rightarrow> bytes res" where
  "get_xor_key cv key =
     (let buf = key_buffer key
      in rbind (seed_schedule cv buf) (\<lambda>k.
         rbind (mix (mix_rounds cv key) cv buf (length key) (0, k)) (\<lambda>(_, k1). emit 4 k1)))"

section \<open>The cipher\<close>

text \<open>One block is four 32-bit exclusive-ors through \<^verbatim>\<open>int32_t\<close> pointers.\<close>

definition xor32 :: "bytes \<Rightarrow> bytes \<Rightarrow> bytes" where
  "xor32 d k = be32 (of_be32 d XOR of_be32 k)"

definition crypt_block :: "bytes \<Rightarrow> bytes \<Rightarrow> bytes" where
  "crypt_block d key =
     xor32 d key @ xor32 (drop 4 d) (drop 4 key) @ xor32 (drop 8 d) (drop 8 key) @ xor32 (drop 12 d) (drop 12 key)"

fun crypt_blocks :: "nat \<Rightarrow> bytes \<Rightarrow> bytes \<Rightarrow> bytes" where
  "crypt_blocks 0 d key = []"
| "crypt_blocks (Suc n) d key = crypt_block d key @ crypt_blocks n (drop 16 d) key"

definition crypt_data :: "bytes \<Rightarrow> bytes \<Rightarrow> bytes" where
  "crypt_data d key =
     (let blks = length d div 16; leftover = length d mod 16
      in crypt_blocks blks d key @ map (\<lambda>i. d ! (16 * blks + i) XOR key ! i) [0..<leftover])"

section \<open>The loops end and the tables are read in range\<close>

lemma top8: "drop_bit 16 (v :: u32) AND 0xFF00 = 0 \<longleftrightarrow> unat v < 2 ^ 24"
  using and_field_top [of 16 8 8 v] by (simp add: mask_eq_exp_minus_1)

lemma top9: "drop_bit 16 (v :: u32) AND 0xFF80 = 0 \<longleftrightarrow> unat v < 2 ^ 23"
  using and_field_top [of 16 7 9 v] by (simp add: mask_eq_exp_minus_1)

lemma bit23: "drop_bit 16 (v :: u32) AND 0x80 \<noteq> 0 \<longleftrightarrow> bit v 23"
  using and_exp_eq_0_iff_not_bit [of "drop_bit 16 v" 7] by (simp add: bit_drop_bit_eq)

lemma f_mant_bounds: "2 ^ 23 \<le> unat (f_mant a)" "unat (f_mant a) < 2 ^ 24"
proof -
  have m: "f_mant a = (a AND mask 23) OR 2 ^ 23" by (simp add: f_mant_def mask_eq_exp_minus_1)
  show "2 ^ 23 \<le> unat (f_mant a)" unfolding m by (rule or_exp_ge) simp
  have "unat (a AND mask 23) < 2 ^ 24" using and_mask_less_exp [of a 23] by simp
  then show "unat (f_mant a) < 2 ^ 24" unfolding m by (rule or_less_exp) simp
qed

lemma norm_down_lt: "norm_down e v = (e', v') \<Longrightarrow> unat v' < 2 ^ 24"
proof (induction e v rule: norm_down.induct)
  case (1 e v)
  then show ?case by (cases "unat v < 2 ^ 24") (auto simp: norm_down.simps [of e v] top8)
qed

lemma norm_down_ne: "norm_down e v = (e', v') \<Longrightarrow> v \<noteq> 0 \<Longrightarrow> v' \<noteq> 0"
proof (induction e v rule: norm_down.induct)
  case (1 e v)
  have "drop_bit 1 v \<noteq> 0" if "\<not> unat v < 2 ^ 24"
  proof -
    have "unat (drop_bit 1 v) \<noteq> 0" unfolding unat_drop_bit using that by simp
    then show ?thesis by auto
  qed
  with 1 show ?case
    by (cases "unat v < 2 ^ 24") (auto simp: norm_down.simps [of e v] top8 simp del: One_nat_def)
qed

lemma norm_up_total:
  "2 ^ (23 - k) \<le> unat v \<Longrightarrow> unat v < 2 ^ 24 \<Longrightarrow> k \<le> 23 \<Longrightarrow> \<exists>e' v'. norm_up k e v = Inr (e', v')"
proof (induction k arbitrary: e v)
  case 0
  then have "bit v 23" using top_bit_iff [of v 23] by simp
  then show ?case by (subst norm_up.simps) (auto simp: bit23)
next
  case (Suc k)
  show ?case
  proof (cases "bit v 23")
    case True
    then show ?thesis by (subst norm_up.simps) (auto simp: bit23)
  next
    case False
    then have lt: "unat v < 2 ^ 23" using top_bit_iff [of v 23] Suc.prems by simp
    have u: "unat (push_bit 1 v) = unat v * 2" using unat_push_bit_lt [of v 1] lt by simp
    have "23 - k = Suc (23 - Suc k)" using Suc.prems by simp
    then have "(2 :: nat) ^ (23 - k) \<le> unat v * 2" using Suc.prems(1) by simp
    then have "2 ^ (23 - k) \<le> unat (push_bit 1 v)" "unat (push_bit 1 v) < 2 ^ 24" using lt u by simp_all
    from Suc.IH [OF this, of "e - 1"] Suc.prems False show ?thesis
      by (subst norm_up.simps) (auto simp: bit23 simp del: One_nat_def)
  qed
qed

lemma norm_up_fuel: "v \<noteq> 0 \<Longrightarrow> unat v < 2 ^ 24 \<Longrightarrow> \<exists>r. norm_up UP_FUEL e v = Inr r"
  using norm_up_total [of UP_FUEL v e] by (auto simp: UP_FUEL_def Suc_le_eq unat_gt_0)

lemma sub_3a6b8f_total: "\<exists>r. sub_3a6b8f a b = Inr r"
proof (cases "a = 0")
  case False
  obtain e v where nd: "norm_down 0x96 a = (e, v)" by fastforce
  from norm_up_fuel [OF norm_down_ne [OF nd False] norm_down_lt [OF nd]] obtain e1 v1 where
    "norm_up UP_FUEL e v = Inr (e1, v1)" by fastforce
  with nd False show ?thesis by (auto simp: sub_3a6b8f_def Let_def)
qed (simp add: sub_3a6b8f_def)

lemma mul_mant_ge:
  assumes a: "2 ^ 23 \<le> unat a" "unat a < 2 ^ 24" and b: "2 ^ 23 \<le> unat b" "unat b < 2 ^ 24"
  shows "2 ^ 28 \<le> unat (mul_mant a b)"
proof -
  define hi where "hi x = drop_bit 16 (push_bit 7 x) AND 0xFFFF" for x :: u32
  have h: "2 ^ 14 \<le> unat (hi x) \<and> unat (hi x) < 2 ^ 15" if "2 ^ 23 \<le> unat x" "unat x < 2 ^ 24" for x
  proof -
    have p: "unat (push_bit 7 x) = unat x * 2 ^ 7" using that by (intro unat_push_bit_lt) simp
    have d: "unat (drop_bit 16 (push_bit 7 x)) = unat x * 2 ^ 7 div 2 ^ 16" by (simp only: unat_drop_bit p)
    then have lt: "unat (drop_bit 16 (push_bit 7 x)) < 2 ^ 16" using that by simp
    have "(0xFFFF :: u32) = mask 16" by (simp add: mask_eq_exp_minus_1)
    then have "hi x = drop_bit 16 (push_bit 7 x)"
      using and_mask_id [OF lt] by (simp only: hi_def)
    then show ?thesis using d that by (simp add: less_eq_div_iff_mult_less_eq div_less_iff_less_mult)
  qed
  have ab: "unat (hi a) * unat (hi b) < 2 ^ 30"
    using mult_strict_mono [of "unat (hi a)" "2 ^ 15" "unat (hi b)" "2 ^ 15"] h [OF a] h [OF b] by simp
  have prod: "unat (hi a * hi b) = unat (hi a) * unat (hi b)"
    using ab by (intro unat_mult_lt) simp
  have "2 ^ 14 * 2 ^ 14 \<le> unat (hi a) * unat (hi b)"
    using h [OF a] h [OF b] by (intro mult_le_mono) auto
  moreover have "unat (drop_bit 16 w) < 2 ^ 16" for w :: u32
    using unsigned_less [of w] unfolding unat_drop_bit by (simp add: div_less_iff_less_mult)
  then have "unat (drop_bit 16 w + hi a * hi b) = unat (drop_bit 16 w) + unat (hi a) * unat (hi b)" for w
    using ab prod by (subst unat_plus_lt) (simp_all add: add_less_le_mono add_strict_mono [of _ "2 ^ 16" _ "2 ^ 30", THEN less_le_trans])
  ultimately show ?thesis
    by (simp add: mul_mant_def Let_def flip: hi_def)
qed

lemma sub_3a65dc_total: "\<exists>r. sub_3a65dc a b = Inr r"
proof -
  let ?v = "mul_mant (f_mant a) (f_mant b)"
  have "2 ^ 28 \<le> unat ?v" by (intro mul_mant_ge f_mant_bounds)
  then have "drop_bit 16 ?v AND 0xFF80 \<noteq> 0" by (simp add: top9)
  then show ?thesis by (auto simp: sub_3a65dc_def Let_def split: prod.split)
qed

text \<open>The biased exponent as a number.\<close>

lemma exponent_unat: "unat (drop_bit 7 (f_exp a)) = unat (a AND 0x7FFFFFFF) div 2 ^ 23"
proof -
  have e: "(ucast (drop_bit 7 (f_exp a)) :: u32) = drop_bit 23 (a AND mask 31)"
  proof -
    have c: "(0x7F80 :: u32) = push_bit 7 (mask 8)" by (simp add: mask_eq_exp_minus_1)
    show ?thesis
      unfolding f_exp_def c
      by (rule bit_word_eqI)
        (auto simp: bit_simps)
  qed
  have "unat (drop_bit 7 (f_exp a)) = unat (ucast (drop_bit 7 (f_exp a)) :: u32)"
    by (simp add: unat_ucast_up)
  also have "\<dots> = unat (a AND mask 31) div 2 ^ 23" by (simp only: e unat_drop_bit)
  finally show ?thesis by (simp add: mask_eq_exp_minus_1)
qed

lemma small_shift:
  assumes "115 \<le> unat (e :: u16)" "unat e \<le> 127"
  shows "(e - 0x7F = 0 \<or> (e - 0x7F) AND 0x8000 \<noteq> 0) \<and> 16 \<le> unat ((0x10 - scast (e - 0x7F) :: u32) AND 0xFF)"
proof -
  have "unat e = 115 \<or> unat e = 116 \<or> unat e = 117 \<or> unat e = 118 \<or> unat e = 119 \<or> unat e = 120 \<or> unat e = 121 \<or>
    unat e = 122 \<or> unat e = 123 \<or> unat e = 124 \<or> unat e = 125 \<or> unat e = 126 \<or> unat e = 127"
    using assms by arith
  then show ?thesis
    by (elim disjE) (drule word_cases, hypsubst, code_simp)+
qed

lemma large_shift:
  assumes "127 < unat (e :: u16)" "unat e \<le> 135"
  shows "e - 0x7F \<noteq> 0 \<and> (e - 0x7F) AND 0x8000 = 0"
proof -
  have "unat e = 128 \<or> unat e = 129 \<or> unat e = 130 \<or> unat e = 131 \<or> unat e = 132 \<or> unat e = 133 \<or> unat e = 134 \<or>
    unat e = 135" using assms by arith
  then show ?thesis by (elim disjE) (drule word_cases, hypsubst, code_simp)+
qed

lemma low16: "drop_bit 16 (w :: u32) AND 0xFFFF = drop_bit 16 w"
proof -
  have "unat w < 2 ^ 32" by (rule order_less_le_trans [OF unsigned_less]) simp
  then have "unat (drop_bit 16 w) < 2 ^ 16"
    unfolding unat_drop_bit by (simp add: div_less_iff_less_mult)
  from and_mask_id [OF this] show ?thesis by (simp add: mask_eq_exp_minus_1)
qed

lemma table1_turns: "table1 ! 8 = 0x3243F6C" "table1 ! 9 = 0x1921FB6"
  by (simp_all add: table1_def)

lemma half_turn_le: "unat m < 0x3243F6C \<Longrightarrow> unat (half_turn m) \<le> 0x1921FB6"
  by (auto simp: half_turn_def table1_turns unat_sub word_less_nat_alt word_le_nat_alt)

lemma quarter_turn_index:
  assumes m: "unat m \<le> 0x1921FB6"
  shows "unat (drop_bit 16 (quarter_turn m) AND 0xFFFF) \<le> 0xFF"
proof -
  have big: "drop_bit 16 m > (0xFF :: u32) \<longleftrightarrow> unat m div 2 ^ 16 > 0xFF"
    by (simp only: word_less_nat_alt unat_drop_bit) simp
  show ?thesis
  proof (cases "unat m div 2 ^ 16 > 0xFF")
    case True
    then have "unat (quarter_turn m) = 0x1921FB6 - unat m"
      using m by (simp add: quarter_turn_def low16 big table1_turns unat_sub word_le_nat_alt)
    then show ?thesis using True m unfolding low16 unat_drop_bit by simp
  next
    case False
    then have "quarter_turn m = m" by (simp add: quarter_turn_def low16 big)
    then show ?thesis using False unfolding low16 unat_drop_bit by simp
  qed
qed

lemma sine_index:
  assumes e: "115 \<le> unat e" "unat e \<le> 135" and m: "unat m < 2 ^ 24"
    and r: "sine_reduce s (e - 0x7F) m = (s', i, sh)"
  shows "unat i \<le> 0xFF"
proof (cases "unat e \<le> 127")
  case True
  note sm = small_shift [OF e(1) True]
  let ?n = "unat ((0x10 - scast (e - 0x7F) :: u32) AND 0xFF)"
  have i: "i = drop_bit ?n m" using r sm by (auto simp: sine_reduce_def Let_def)
  have "unat m div 2 ^ ?n \<le> unat m div 2 ^ 16"
    using sm power_increasing [of 16 ?n "2 :: nat"] by (intro div_le_mono2) simp_all
  also have "\<dots> \<le> 0xFF" using m by simp
  finally show ?thesis unfolding i unat_drop_bit .
next
  case False
  let ?m1 = "push_bit (unat ((e - 0x7F) AND 0xFF)) m mod (0x3243F6C :: u32)"
  have lt: "unat ?m1 < 0x3243F6C" by (simp add: unat_mod)
  from large_shift [of e] False e(2) r have "i = drop_bit 16 (quarter_turn (half_turn ?m1)) AND 0xFFFF"
    by (simp add: sine_reduce_def Let_def table1_turns)
  with quarter_turn_index [OF half_turn_le [OF lt]] show ?thesis by simp
qed

lemma length_table2 [simp]: "length table2 = 257"
  by (simp add: table2_def)

lemma lookup_total: "unat i \<le> 0xFF \<Longrightarrow> \<exists>r. lookup table2 i = Inr r"
  by (simp add: lookup_def)

lemma sub_3a6886_total: "\<exists>r. sub_3a6886 a = Inr r"
proof -
  let ?e = "drop_bit 7 (f_exp a)"
  have e135: "unat ?e \<le> 135" if "\<not> a AND 0x7FFFFFFF > 0x43FE7811"
  proof -
    have "unat (a AND 0x7FFFFFFF) \<le> 0x43FE7811" using that by (simp add: word_less_nat_alt word_le_nat_alt not_less)
    then have "unat (a AND 0x7FFFFFFF) div 2 ^ 23 \<le> 0x43FE7811 div 2 ^ 23" by (rule div_le_mono)
    then show ?thesis unfolding exponent_unat by simp
  qed
  have e115: "115 \<le> unat ?e" if "\<not> sint ?e < 0x73" "unat ?e \<le> 135"
  proof -
    have "sint ?e = int (unat ?e)" using that(2) by (intro sint_u16) simp
    with that(1) have "115 \<le> int (unat ?e)" by (simp only: not_less)
    then show ?thesis by linarith
  qed
  have "\<exists>r. (case sine_reduce (f_sign a) (?e - 0x7F) (f_mant a) of (s, i, sh) \<Rightarrow>
      rbind (lookup table2 i) (\<lambda>t.
      rbind (sub_3a6b8f (push_bit (unat (sh AND 0xFF)) 1) 0) (\<lambda>u.
      rbind (sub_3a65dc t u) (\<lambda>v. Inr (sine_scale s v sh))))) = Inr r"
    if "115 \<le> unat ?e" "unat ?e \<le> 135"
  proof -
    obtain s i sh where r: "sine_reduce (f_sign a) (?e - 0x7F) (f_mant a) = (s, i, sh)" using prod_cases3 by blast
    from lookup_total [OF sine_index [OF that f_mant_bounds(2) r]] show ?thesis
      unfolding r prod.case by (intro rbind_total sub_3a6b8f_total sub_3a65dc_total) auto
  qed
  with e135 e115 show ?thesis by (simp add: sub_3a6886_def Let_def)
qed

lemma sub_3a6b2c_total: "\<exists>r. sub_3a6b2c a = Inr r"
  using sub_3a6886_total by (simp add: sub_3a6b2c_def)

lemmas float_total = sub_3a6b8f_total sub_3a65dc_total sub_3a6886_total sub_3a6b2c_total

lemma rotate_point_total: "\<exists>x y. rotate_point v68 v58 v54 a x0 y0 = Inr (x, y)"
proof -
  have "\<exists>r. rotate_point v68 v58 v54 a x0 y0 = Inr r"
    unfolding rotate_point_def by (intro rbind_total float_total) auto
  then show ?thesis by auto
qed

lemma angle_of_total: "\<exists>r. angle_of k = Inr r"
  unfolding angle_of_def by (intro rbind_total float_total) auto

lemma advance_total: "\<exists>r. advance k a = Inr r"
  unfolding advance_def using rotate_point_total [of "k68 k" "k58 k" "k54 k" a "kx k" "ky k"] by auto

lemma mix_round_total:
  assumes "i0 \<le> n" and "1 \<le> n" and "n \<le> length buf"
  shows "\<exists>i k1. mix_round cv buf n (i0, k) = Inr (i, k1) \<and> i \<le> n"
proof -
  define i where "i = (if i0 = n then 0 else i0)"
  have i: "i < n" using assms by (auto simp: i_def)
  obtain a where a: "angle_of k = Inr a" using angle_of_total by blast
  obtain f where f: "sub_3a6b8f ((cv (buf ! i) XOR (kx k AND 0xFF)) * (a AND 0xFF)) 8 = Inr f"
    using sub_3a6b8f_total by blast
  obtain k1 where "advance k (sub_3a62c9 a f) = Inr k1" using advance_total by blast
  with a f i assms show ?thesis by (simp add: mix_round_def Let_def flip: i_def)
qed

lemma mix_total:
  assumes "1 \<le> n" and "n \<le> length buf"
  shows "i \<le> n \<Longrightarrow> \<exists>r. mix m cv buf n (i, k) = Inr r"
proof (induction m arbitrary: i k)
  case (Suc m)
  from mix_round_total [OF Suc.prems assms] obtain i1 k1 where
    "mix_round cv buf n (i, k) = Inr (i1, k1)" "i1 \<le> n" by blast
  with Suc.IH show ?case by simp
qed simp

lemma emit_total: "\<exists>bs. emit r k = Inr bs \<and> length bs = 4 * r"
proof (induction r arbitrary: k)
  case (Suc r)
  obtain a where a: "angle_of k = Inr a" using angle_of_total by blast
  obtain k1 where k1: "advance k a = Inr k1" using advance_total by blast
  obtain bs where "emit r k1 = Inr bs" "length bs = 4 * r" using Suc by blast
  with a k1 show ?case by (simp add: out_bytes_def)
qed simp

lemma seed_total: "\<exists>k. seed_schedule cv buf = Inr k"
  unfolding seed_schedule_def by (intro rbind_total float_total) auto

section \<open>The cipher as a byte stream\<close>

lemma xor32_bytes: "xor32 d k = map (\<lambda>i. d ! i XOR k ! i) [0..<4]"
  by (simp add: xor32_def be32_xor be32_of_be32 upt_rec eval_nat_numeral)

lemma crypt_block_bytes:
  assumes "16 \<le> length d" and "16 \<le> length key"
  shows "crypt_block d key = map (\<lambda>i. d ! i XOR key ! i) [0..<16]"
proof -
  have sh: "xor32 (drop j d) (drop j key) = map (\<lambda>i. d ! i XOR key ! i) [j..<j + 4]" if "j \<le> 12" for j
    using that assms by (simp add: xor32_bytes upt_offset)
  have "[0..<16] = [0..<4] @ [4..<4 + 4] @ [8..<8 + 4] @ [12..<12 + 4 :: nat]" by (simp add: upt_rec)
  then show ?thesis
    using sh [of 4] sh [of 8] sh [of 12] by (simp add: crypt_block_def xor32_bytes del: upt_rec_numeral)
qed

lemma crypt_blocks_bytes:
  assumes "16 \<le> length key"
  shows "16 * n \<le> length d \<Longrightarrow> crypt_blocks n d key = map (\<lambda>i. d ! i XOR key ! (i mod 16)) [0..<16 * n]"
proof (induction n arbitrary: d)
  case (Suc n)
  have "[0..<16 * Suc n] = [0..<16] @ map ((+) 16) [0..<16 * n]"
    using upt_offset [of 16 "16 * n"] upt_add_eq_append [of 0 16 "16 * n"] by (simp add: add.commute)
  moreover have "map (\<lambda>i. d ! i XOR key ! (i mod 16)) [0..<16] = map (\<lambda>i. d ! i XOR key ! i) [0..<16]"
    by simp
  ultimately show ?case
    using Suc assms crypt_block_bytes [of d key] by simp
qed simp

lemma crypt_data_bytes:
  assumes "16 \<le> length key"
  shows "crypt_data d key = map (\<lambda>i. d ! i XOR key ! (i mod 16)) [0..<length d]"
proof -
  let ?b = "length d div 16"
  have "[0..<length d] = [0..<16 * ?b] @ map ((+) (16 * ?b)) [0..<length d mod 16]"
    using upt_offset [of "16 * ?b" "length d mod 16"] upt_add_eq_append [of 0 "16 * ?b" "length d mod 16"] by simp
  then show ?thesis
    using crypt_blocks_bytes [OF assms, of ?b d] by (simp add: crypt_data_def Let_def)
qed

section \<open>Properties\<close>

text \<open>C12. Key derivation always comes to a result: for every key of 1 to 16 bytes, on a platform
  with signed or unsigned characters, every normalisation loop ends, no table is read out of
  range, and 16 key bytes come out.\<close>

theorem get_xor_key_total:
  assumes "1 \<le> length key" and "length key \<le> 16"
  shows "\<exists>xk. get_xor_key cv key = Inr xk \<and> length xk = 16"
proof -
  let ?buf = "key_buffer key"
  have len: "length ?buf = 16" using assms by (simp add: key_buffer_def)
  obtain k where k: "seed_schedule cv ?buf = Inr k" using seed_total by blast
  obtain i k1 where m: "mix (mix_rounds cv key) cv ?buf (length key) (0, k) = Inr (i, k1)"
    using mix_total [of "length key" ?buf 0] assms len by fastforce
  from emit_total [of 4 k1] k m show ?thesis by (auto simp: get_xor_key_def Let_def)
qed

theorem get_xor_key_total_witness:
  "\<exists>xk. get_xor_key scast [0x41, 0x80, 0xFF, 1, 2, 3] = Inr xk \<and> length xk = 16"
  using get_xor_key_total [of "[0x41, 0x80, 0xFF, 1, 2, 3]" scast] by simp

text \<open>C13. The block-wise cipher is the stream cipher it means to be, each byte combined with the
  key byte at its position modulo 16 whatever the length, and applying it twice restores the
  data.\<close>

theorem crypt_data_stream:
  assumes "16 \<le> length key"
  shows "crypt_data d key = map (\<lambda>i. d ! i XOR key ! (i mod 16)) [0..<length d] \<and>
    crypt_data (crypt_data d key) key = d"
proof -
  note b = crypt_data_bytes [OF assms]
  have "crypt_data (crypt_data d key) key = map (\<lambda>i. (d ! i XOR key ! (i mod 16)) XOR key ! (i mod 16)) [0..<length d]"
    by (simp add: b)
  also have "\<dots> = map ((!) d) [0..<length d]" by (simp add: xor.assoc)
  finally show ?thesis using b by (simp add: map_nth)
qed

theorem crypt_data_stream_witness:
  "crypt_data (crypt_data [1, 2, 3, 4, 5, 6, 7, 8, 9, 10, 11, 12, 13, 14, 15, 16, 17, 18, 19]
     (map of_nat [0..<16])) (map of_nat [0..<16]) =
   [1, 2, 3, 4, 5, 6, 7, 8, 9, 10, 11, 12, 13, 14, 15, 16, 17, 18, 19]"
  using crypt_data_stream [of "map of_nat [0..<16]"] by simp

end
