(* ===== verification/Exword_Commands.thy ===== *)
theory Exword_Commands
  imports Exword Crypt
begin

text \<open>
  The commands of \<^verbatim>\<open>exword.c\<close> on a connected device: what each one sends, and the parsers of
  the model, capacity and directory answers. An output argument is part of the result. Reads of
  a received body go through \<open>peek\<close>: they may run past the received bytes, as in the source,
  but not past the block.
\<close>

section \<open>Headers of the requests\<close>

definition name_hdr :: "bytes \<Rightarrow> u8 \<times> obex_headerdata \<times> nat" where
  "name_hdr n = (OBEX_HDR_NAME, Bs n, length n)"

definition length_hdr :: "nat \<Rightarrow> u8 \<times> obex_headerdata \<times> nat" where
  "length_hdr n = (OBEX_HDR_LENGTH, Bq4 (of_nat n), 0)"

definition body_hdr :: "bytes \<Rightarrow> u8 \<times> obex_headerdata \<times> nat" where
  "body_hdr b = (OBEX_HDR_BODY, Bs b, length b)"

text \<open>The first body header among the received ones: what the \<^verbatim>\<open>while\<close> loops over
  \<^verbatim>\<open>obex_object_getnextheader\<close> stop at.\<close>

fun find_body :: "obex_header_element list \<Rightarrow> obex_header_element option res" where
  "find_body [] = Inr None"
| "find_body (h # q) =
     rbind (header_value h) (\<lambda>_. if h_hi h = OBEX_HDR_BODY then Inr (Some h) else find_body q)"

definition on_body :: "'r \<Rightarrow> (obex_header_element \<Rightarrow> 'r res) \<Rightarrow> obex_object \<Rightarrow> 'r res" where
  "on_body r0 f obj =
     rbind (find_body (rx_headerq obj)) (\<lambda>h. case h of None \<Rightarrow> Inr r0 | Some e \<Rightarrow> f e)"

section \<open>Files\<close>

definition utf16 :: "('u, 'c, 'd) env \<Rightarrow> bytes \<Rightarrow> bytes option res" where
  "utf16 env s = convert_from_locale (e_fuel env) (e_alloc env) (e_iconv env) s"

definition exword_send_file ::
  "('u, 'c, 'd) env \<Rightarrow> 'u exword \<Rightarrow> bytes \<Rightarrow> bytes \<Rightarrow> (exword_error \<times> unit \<times> 'u exword) res" where
  "exword_send_file env self filename fdata =
     guarded self () (
       rbind (utf16 env (filename @ [0])) (\<lambda>u.
       case u of None \<Rightarrow> Inr (EXWORD_ERROR_OTHER, (), self)
       | Some unicode \<Rightarrow>
         transact env self OBEX_CMD_PUT None
           [name_hdr unicode, length_hdr (length fdata), body_hdr fdata] () (\<lambda>_. Inr ())))"

text \<open>\<^verbatim>\<open>exword_get_file\<close>: the buffer is allocated when the length header comes and filled from the
  body with as many bytes as that header said.\<close>

fun get_file_loop :: "alloc \<Rightarrow> obex_header_element list \<Rightarrow> int \<Rightarrow> bytes option \<Rightarrow> (int \<times> bytes option) res" where
  "get_file_loop alloc [] len buf = Inr (len, buf)"
| "get_file_loop alloc (h # q) len buf =
     rbind (header_value h) (\<lambda>v.
       if h_hi h = OBEX_HDR_LENGTH then
         (case v of Bq4 w \<Rightarrow> get_file_loop alloc q (sint w) (malloc alloc (size_t_of_int (sint w)))
          | _ \<Rightarrow> Inl Abort)
       else if h_hi h = OBEX_HDR_BODY then
         (if size_t_of_int len = 0 then Inr (len, buf)
          else rbind (need buf) (\<lambda>b.
               rbind (need (peek (h_buf h) 0 (size_t_of_int len))) (\<lambda>bs. Inr (len, Some bs))))
       else get_file_loop alloc q len buf)"

definition exword_get_file ::
  "('u, 'c, 'd) env \<Rightarrow> 'u exword \<Rightarrow> bytes \<Rightarrow> (exword_error \<times> (int \<times> bytes option) \<times> 'u exword) res" where
  "exword_get_file env self filename =
     guarded self (0, None) (
       rbind (utf16 env (filename @ [0])) (\<lambda>u.
       case u of None \<Rightarrow> Inr (EXWORD_ERROR_OTHER, (0, None), self)
       | Some unicode \<Rightarrow>
         transact env self OBEX_CMD_GET None [name_hdr unicode] (0, None)
           (\<lambda>obj. get_file_loop (e_alloc env) (rx_headerq obj) 0 None)))"

definition exword_remove_file ::
  "('u, 'c, 'd) env \<Rightarrow> 'u exword \<Rightarrow> bytes \<Rightarrow> bool \<Rightarrow> (exword_error \<times> unit \<times> 'u exword) res" where
  "exword_remove_file env self filename convert_to_unicode =
     guarded self () (
       rbind (if convert_to_unicode then utf16 env (filename @ [0]) else Inr (Some (filename @ [0]))) (\<lambda>u.
       case u of None \<Rightarrow> Inr (EXWORD_ERROR_OTHER, (), self)
       | Some n \<Rightarrow>
         transact env self OBEX_CMD_PUT None [name_hdr Remove, length_hdr (length n), body_hdr n] ()
           (\<lambda>_. Inr ())))"

definition exword_setpath ::
  "('u, 'c, 'd) env \<Rightarrow> 'u exword \<Rightarrow> bytes \<Rightarrow> bool \<Rightarrow> (exword_error \<times> unit \<times> 'u exword) res" where
  "exword_setpath env self path mkdir =
     guarded self () (
       rbind (utf16 env (path @ [0])) (\<lambda>u.
       case u of None \<Rightarrow> Inr (EXWORD_ERROR_OTHER, (), self)
       | Some unicode \<Rightarrow>
         transact env self OBEX_CMD_SETPATH (Some [if mkdir then 0 else 2, 0])
           [name_hdr (if path = [] then [] else unicode)] () (\<lambda>_. Inr ())))"

section \<open>Simple commands\<close>

definition simple_command ::
  "('u, 'c, 'd) env \<Rightarrow> 'u exword \<Rightarrow> bytes \<Rightarrow> bytes \<Rightarrow> (exword_error \<times> unit \<times> 'u exword) res" where
  "simple_command env self name body =
     guarded self () (transact env self OBEX_CMD_PUT None
       [name_hdr name, length_hdr (length body), body_hdr body] () (\<lambda>_. Inr ()))"

definition exword_sd_format :: "('u, 'c, 'd) env \<Rightarrow> 'u exword \<Rightarrow> (exword_error \<times> unit \<times> 'u exword) res" where
  "exword_sd_format env self = simple_command env self SdFormat [0]"

definition exword_unlock :: "('u, 'c, 'd) env \<Rightarrow> 'u exword \<Rightarrow> (exword_error \<times> unit \<times> 'u exword) res" where
  "exword_unlock env self = simple_command env self Unlock [0]"

definition exword_lock :: "('u, 'c, 'd) env \<Rightarrow> 'u exword \<Rightarrow> (exword_error \<times> unit \<times> 'u exword) res" where
  "exword_lock env self = simple_command env self Lock [0]"

text \<open>The user name and the challenge are arrays of 17 and 20 bytes.\<close>

definition exword_userid ::
  "('u, 'c, 'd) env \<Rightarrow> 'u exword \<Rightarrow> bytes \<Rightarrow> (exword_error \<times> unit \<times> 'u exword) res" where
  "exword_userid env self name = simple_command env self UserId (take 17 name)"

definition exword_authchallenge ::
  "('u, 'c, 'd) env \<Rightarrow> 'u exword \<Rightarrow> bytes \<Rightarrow> (exword_error \<times> unit \<times> 'u exword) res" where
  "exword_authchallenge env self challenge = simple_command env self AuthChallenge (take 20 challenge)"

definition exword_cname ::
  "('u, 'c, 'd) env \<Rightarrow> 'u exword \<Rightarrow> bytes \<Rightarrow> bytes \<Rightarrow> (exword_error \<times> unit \<times> 'u exword) res" where
  "exword_cname env self name dir =
     guarded self () (
       rbind (need (obex_ctx self)) (\<lambda>c.
       rbind (obex_object_new (e_alloc env) c OBEX_CMD_PUT) (\<lambda>ob.
       if ob = None then Inr (EXWORD_ERROR_NO_MEM, (), self)
       else let b = dir @ [0] @ name @ [0]
            in if malloc (e_alloc env) (length b) = None then Inr (EXWORD_ERROR_NO_MEM, (), self)
               else transact env self OBEX_CMD_PUT None [name_hdr CName, length_hdr (length b), body_hdr b] ()
                      (\<lambda>_. Inr ()))))"

section \<open>Keys\<close>

record exword_cryptkey =
  ck_blk1 :: bytes    \<comment> \<open>16 bytes\<close>
  ck_blk2 :: bytes    \<comment> \<open>12 bytes\<close>
  ck_key :: bytes     \<comment> \<open>16 bytes\<close>
  ck_xorkey :: bytes  \<comment> \<open>16 bytes\<close>

text \<open>The request carries \<^verbatim>\<open>blk1\<close> and, through the packed structure, \<^verbatim>\<open>blk2\<close>: 28 bytes.\<close>

definition exword_cryptkey ::
  "('u, 'c, 'd) env \<Rightarrow> (u8 \<Rightarrow> u32) \<Rightarrow> 'u exword \<Rightarrow> exword_cryptkey \<Rightarrow>
     (exword_error \<times> exword_cryptkey \<times> 'u exword) res" where
  "exword_cryptkey env cv self key =
     guarded self key (
       rbind (transact env self OBEX_CMD_GET None
                [name_hdr CryptKey, (OBEX_HDR_CRYPTKEY, Bs (ck_blk1 key @ ck_blk2 key), 28)] None
                (on_body None (\<lambda>h. rbind (need (peek (h_buf h) 0 12)) (\<lambda>b. Inr (Some b))))) (\<lambda>(e, got, self1).
       if e = EXWORD_ERROR_NO_MEM then Inr (e, key, self1)
       else let k12 = (case got of None \<Rightarrow> take 12 (ck_key key) | Some b \<Rightarrow> b);
                k = k12 @ take 4 (drop 8 (ck_blk2 key))
            in rbind (get_xor_key cv k) (\<lambda>xk. Inr (e, key\<lparr>ck_key := k, ck_xorkey := xk\<rparr>, self1))))"

record exword_authinfo =
  ai_blk1 :: bytes
  ai_blk2 :: bytes
  ai_challenge :: bytes

definition exword_authinfo ::
  "('u, 'c, 'd) env \<Rightarrow> 'u exword \<Rightarrow> exword_authinfo \<Rightarrow> (exword_error \<times> exword_authinfo \<times> 'u exword) res" where
  "exword_authinfo env self info =
     guarded self info (
       transact env self OBEX_CMD_GET None
         [name_hdr AuthInfo, (OBEX_HDR_AUTHINFO, Bs (ai_blk1 info @ ai_blk2 info), 40)] info
         (on_body info (\<lambda>h. rbind (need (peek (h_buf h) 0 20)) (\<lambda>b. Inr (info\<lparr>ai_challenge := b\<rparr>)))))"

section \<open>Model\<close>

definition CAP_SW :: u16 where "CAP_SW = 0x0001"
definition CAP_P :: u16 where "CAP_P = 0x0002"
definition CAP_F :: u16 where "CAP_F = 0x0004"
definition CAP_C :: u16 where "CAP_C = 0x0008"
definition CAP_C2 :: u16 where "CAP_C2 = 0x0010"
definition CAP_ST :: u16 where "CAP_ST = 0x0020"
definition CAP_T :: u16 where "CAP_T = 0x0040"
definition CAP_C3 :: u16 where "CAP_C3 = 0x0080"
definition CAP_EXT :: u16 where "CAP_EXT = 0x8000"

record exword_model =
  m_model :: bytes
  m_sub_model :: bytes
  m_ext_model :: bytes
  m_capabilities :: u16

text \<open>\<^verbatim>\<open>memcmp(ptr, s, n) == 0\<close> on the bytes from \<^verbatim>\<open>ptr\<close> to the end of the block; the comparison
  stops at the first difference.\<close>

fun starts_with :: "bytes \<Rightarrow> bytes \<Rightarrow> bool res" where
  "starts_with m [] = Inr True"
| "starts_with [] (c # cs) = Inl Abort"
| "starts_with (b # bs) (c # cs) = (if b = c then starts_with bs cs else Inr False)"

fun first_match :: "bytes \<Rightarrow> bytes list \<Rightarrow> bytes option res" where
  "first_match m [] = Inr None"
| "first_match m (p # ps) =
     rbind (starts_with m p) (\<lambda>y. if y then Inr (Some p) else first_match m ps)"

definition cap_tags :: "bytes list" where
  "cap_tags = map ascii [''SW'', ''ST'', ''T'', ''P'', ''F'', ''CY'', ''C'']"

definition set_cap :: "u16 \<Rightarrow> exword_model \<Rightarrow> exword_model" where
  "set_cap c m = m\<lparr>m_capabilities := m_capabilities m OR c\<rparr>"

definition apply_tag :: "bytes \<Rightarrow> bytes \<Rightarrow> exword_model \<Rightarrow> exword_model res" where
  "apply_tag tag ptr m =
     (if tag = ascii ''SW'' then Inr (set_cap CAP_SW m)
      else if tag = ascii ''ST'' then Inr (set_cap CAP_ST m)
      else if tag = ascii ''T'' then Inr (set_cap CAP_T m)
      else if tag = ascii ''P'' then Inr (set_cap CAP_P m)
      else if tag = ascii ''F'' then Inr (set_cap CAP_F m)
      else if tag = ascii ''CY'' then
        (if 6 \<le> length ptr then Inr (set_cap CAP_EXT (m\<lparr>m_ext_model := take 6 ptr\<rparr>)) else Inl Abort)
      else Inr (set_cap (if m_capabilities m AND CAP_C2 \<noteq> 0 then CAP_C3
                         else if m_capabilities m AND CAP_C \<noteq> 0 then CAP_C2 else CAP_C) m))"

fun strlen :: "bytes \<Rightarrow> nat res" where
  "strlen [] = Inl Abort"
| "strlen (b # bs) = (if b = 0 then Inr 0 else rbind (strlen bs) (\<lambda>n. Inr (Suc n)))"

text \<open>The loop over the capability strings: \<open>ptr\<close> is the block from \<^verbatim>\<open>ptr\<close> on, \<open>left\<close> the received
  bytes from \<^verbatim>\<open>ptr\<close> on.\<close>

function capability_loop :: "nat \<Rightarrow> bytes \<Rightarrow> exword_model \<Rightarrow> exword_model res" where
  "capability_loop left ptr m =
     (if left = 0 then Inr m
      else rbind (first_match ptr cap_tags) (\<lambda>tag.
           rbind (case tag of None \<Rightarrow> Inr m | Some t \<Rightarrow> apply_tag t ptr m) (\<lambda>m1.
           rbind (strlen ptr) (\<lambda>n. capability_loop (left - (n + 1)) (drop (n + 1) ptr) m1))))"
  by auto
termination
  by (relation "measure (\<lambda>(left, _). left)") auto

declare capability_loop.simps [simp del]

text \<open>The block from \<^verbatim>\<open>h->buf->data + off\<close> on.\<close>

fun block_from :: "buf_t option \<Rightarrow> nat \<Rightarrow> bytes" where
  "block_from None off = []"
| "block_from (Some p) off = drop (data p + off) (buffer p)"

definition parse_model :: "exword_model \<Rightarrow> obex_header_element \<Rightarrow> exword_model res" where
  "parse_model m0 h =
     rbind (need (peek (h_buf h) 0 14)) (\<lambda>md.
     rbind (need (peek (h_buf h) 14 6)) (\<lambda>sm.
       capability_loop (unat (h_length h) - 23) (block_from (h_buf h) 23)
         (m0\<lparr>m_capabilities := 0, m_model := md, m_sub_model := sm\<rparr>)))"

definition exword_get_model ::
  "('u, 'c, 'd) env \<Rightarrow> 'u exword \<Rightarrow> exword_model \<Rightarrow> (exword_error \<times> exword_model \<times> 'u exword) res" where
  "exword_get_model env self m0 =
     guarded self m0 (transact env self OBEX_CMD_GET None [name_hdr Model] m0 (on_body m0 (parse_model m0)))"

section \<open>Capacity\<close>

record exword_capacity =
  total :: u64
  free :: u64

text \<open>A 64-bit load on the little-endian host and the byte swap that follows it.\<close>

definition load_le64 :: "bytes \<Rightarrow> u64" where
  "load_le64 b = push_bit 56 (ucast (b ! 7)) OR push_bit 48 (ucast (b ! 6)) OR push_bit 40 (ucast (b ! 5)) OR
     push_bit 32 (ucast (b ! 4)) OR push_bit 24 (ucast (b ! 3)) OR push_bit 16 (ucast (b ! 2)) OR
     push_bit 8 (ucast (b ! 1)) OR ucast (b ! 0)"

definition store_le64 :: "u64 \<Rightarrow> bytes" where
  "store_le64 w = map (\<lambda>i. ucast (drop_bit (8 * i) w)) [0..<8]"

definition swap_bytes :: "nat \<Rightarrow> nat \<Rightarrow> bytes \<Rightarrow> bytes" where
  "swap_bytes i j c = c[i := c ! j, j := c ! i]"

definition ntohll :: "u64 \<Rightarrow> u64" where
  "ntohll value = load_le64 (swap_bytes 3 4 (swap_bytes 2 5 (swap_bytes 1 6 (swap_bytes 0 7 (store_le64 value)))))"

definition parse_capacity :: "obex_header_element \<Rightarrow> exword_capacity res" where
  "parse_capacity h =
     (if h_length h = 24 then
        rbind (need (peek (h_buf h) 8 8)) (\<lambda>t. rbind (need (peek (h_buf h) 16 8)) (\<lambda>f.
          Inr \<lparr>total = ntohll (load_le64 t), free = ntohll (load_le64 f)\<rparr>))
      else
        rbind (need (peek (h_buf h) 0 4)) (\<lambda>t. rbind (need (peek (h_buf h) 4 4)) (\<lambda>f.
          Inr \<lparr>total = ucast (of_be32 t), free = ucast (of_be32 f)\<rparr>)))"

definition exword_get_capacity ::
  "('u, 'c, 'd) env \<Rightarrow> 'u exword \<Rightarrow> exword_capacity \<Rightarrow> (exword_error \<times> exword_capacity \<times> 'u exword) res" where
  "exword_get_capacity env self c0 =
     guarded self c0 (transact env self OBEX_CMD_GET None [name_hdr Cap] c0 (on_body c0 parse_capacity))"

section \<open>Directory listing\<close>

record exword_dirent =
  d_size :: u16
  d_flags :: u8
  d_name :: bytes

text \<open>One entry per round at offset \<open>off\<close>. A size below 3 makes the name length negative: the
  copy then runs off every block.\<close>

fun list_loop :: "alloc \<Rightarrow> buf_t option \<Rightarrow> nat \<Rightarrow> nat \<Rightarrow> exword_dirent list res" where
  "list_loop alloc b off 0 = Inr []"
| "list_loop alloc b off (Suc n) =
     rbind (need (peek b off 2)) (\<lambda>sz.
     rbind (need (peek b (off + 2) 1)) (\<lambda>fl.
       let size = unat (of_be16 sz)
       in if size < 3 then Inl Abort
          else if malloc alloc (size - 3) = None \<and> size > 3 then Inl Abort
          else rbind (need (peek b (off + 3) (size - 3))) (\<lambda>nm.
               rbind (list_loop alloc b (off + size) n) (\<lambda>es.
                 Inr (\<lparr>d_size = of_be16 sz, d_flags = hd fl, d_name = nm\<rparr> # es)))))"

text \<open>\<^verbatim>\<open>sizeof(exword_dirent_t)\<close>, packed, on the 64-bit host.\<close>

definition sizeof_dirent :: nat where "sizeof_dirent = 11"

definition parse_list :: "alloc \<Rightarrow> obex_header_element \<Rightarrow> exword_dirent list res" where
  "parse_list alloc h =
     rbind (need (peek (h_buf h) 0 2)) (\<lambda>c.
       let count = unat (of_be16 c)
       in if malloc alloc (sizeof_dirent * (count + 1)) = None then Inl Abort
          else list_loop alloc (h_buf h) 2 count)"

text \<open>The entries stay \<^verbatim>\<open>NULL\<close> unless an answer with a body came.\<close>

definition exword_list ::
  "('u, 'c, 'd) env \<Rightarrow> 'u exword \<Rightarrow> (exword_error \<times> exword_dirent list option \<times> 'u exword) res" where
  "exword_list env self =
     guarded self None (transact env self OBEX_CMD_GET None [name_hdr List] None
       (on_body None (\<lambda>h. rbind (parse_list (e_alloc env) h) (\<lambda>es. Inr (Some es)))))"

text \<open>Freeing walks the array before it is freed, also when there is none.\<close>

definition exword_free_list :: "exword_dirent list option \<Rightarrow> unit res" where
  "exword_free_list entries = rbind (need entries) (\<lambda>_. Inr ())"

section \<open>Error texts\<close>

fun exword_error_to_string :: "exword_error \<Rightarrow> string" where
  "exword_error_to_string EXWORD_SUCCESS = ''OK, Success''"
| "exword_error_to_string EXWORD_ERROR_FORBIDDEN = ''Forbidden''"
| "exword_error_to_string EXWORD_ERROR_NOT_FOUND = ''Not found''"
| "exword_error_to_string EXWORD_ERROR_INTERNAL = ''Internal server error''"
| "exword_error_to_string EXWORD_ERROR_NO_MEM = ''Insufficient memory''"
| "exword_error_to_string EXWORD_ERROR_OTHER = ''Unknown error''"

end
