(* ===== verification/Exword_Parsers.thy ===== *)
theory Exword_Parsers
  imports Exword_Commands
begin

text \<open>
  What the answer parsers of \<^verbatim>\<open>exword.c\<close> make of well-formed answers: directory listings, model
  strings, both capacity formats and downloaded files, each against an encoder of the format
  the protocol description gives.
\<close>

section \<open>Directory listings\<close>

text \<open>An entry on the wire: its size in two bytes, a flag byte and the name.\<close>

definition wf_dirent :: "exword_dirent \<Rightarrow> bool" where
  "wf_dirent d \<longleftrightarrow> unat (d_size d) = length (d_name d) + 3"

definition dirent_bytes :: "exword_dirent \<Rightarrow> bytes" where
  "dirent_bytes d = be16 (d_size d) @ [d_flags d] @ d_name d"

definition listing :: "exword_dirent list \<Rightarrow> bytes" where
  "listing ds = be16 (of_nat (length ds)) @ concat (map dirent_bytes ds)"

lemma length_dirent_bytes: "wf_dirent d \<Longrightarrow> length (dirent_bytes d) = unat (d_size d)"
  by (simp add: dirent_bytes_def wf_dirent_def)

lemma peek_mid:
  assumes "holds m (xs @ ys @ zs)"
  shows "peek m (length xs) (length ys) = Some ys"
  using peek_holds [OF assms, of "length xs" "length ys"] by simp

lemma list_loop_ok:
  assumes al: "plenty alloc"
  shows "list_all wf_dirent ds \<Longrightarrow> holds b (pre @ concat (map dirent_bytes ds) @ rest) \<Longrightarrow>
    list_loop alloc b (length pre) (length ds) = Inr ds"
proof (induction ds arbitrary: pre)
  case (Cons d ds)
  let ?tail = "concat (map dirent_bytes ds) @ rest"
  have b: "holds b (pre @ be16 (d_size d) @ [d_flags d] @ d_name d @ ?tail)"
    using Cons.prems(2) by (simp add: dirent_bytes_def [of d])
  have wf: "unat (d_size d) = length (d_name d) + 3" using Cons.prems(1) by (simp add: wf_dirent_def)
  have p1: "peek b (length pre) 2 = Some (be16 (d_size d))"
    using peek_mid [OF b] by simp
  have p2: "peek b (length pre + 2) 1 = Some [d_flags d]"
    using peek_mid [of b "pre @ be16 (d_size d)" "[d_flags d]" "d_name d @ ?tail"] b by simp
  have p3: "peek b (length pre + 3) (length (d_name d)) = Some (d_name d)"
    using peek_mid [of b "pre @ be16 (d_size d) @ [d_flags d]" "d_name d" ?tail] b by simp
  have off: "length (pre @ dirent_bytes d) = length pre + unat (d_size d)"
    by (simp add: dirent_bytes_def wf)
  have "holds b ((pre @ dirent_bytes d) @ concat (map dirent_bytes ds) @ rest)"
    using Cons.prems(2) by simp
  from Cons.IH [OF _ this] Cons.prems(1) have
    ih: "list_loop alloc b (length pre + unat (d_size d)) (length ds) = Inr ds" unfolding off by simp
  have mal: "(malloc alloc n = None) = False" for n using plenty_malloc [OF al] by auto
  show ?case using p1 p2 p3 ih wf mal by (simp add: Let_def)
qed simp



text \<open>An entry whose size field is below 3 is not rejected: the copy of its name, with a
  negative length, runs off the block.\<close>

theorem exword_list_short_entry:
  assumes "holds (h_buf h) (be16 (of_nat (Suc n)) @ be16 sz @ [fl] @ rest)" and "unat sz < 3" and "Suc n < 2 ^ 16"
  shows "parse_list alloc h = Inl Abort"
proof -
  let ?b = "h_buf h"
  have u: "unat (of_nat (Suc n) :: u16) = Suc n" using assms(3) by (intro unat_of_nat_eq) simp
  have "peek ?b 0 2 = Some (be16 (of_nat (Suc n)))"
    using peek_mid [of ?b "[]" "be16 (of_nat (Suc n))"] assms(1) by simp
  moreover have "peek ?b 2 2 = Some (be16 sz)"
    using peek_mid [of ?b "be16 (of_nat (Suc n))" "be16 sz"] assms(1) by simp
  moreover have "peek ?b 4 1 = Some [fl]"
    using peek_mid [of ?b "be16 (of_nat (Suc n)) @ be16 sz" "[fl]" rest] assms(1) by simp
  ultimately show ?thesis using assms(2) u by (simp add: parse_list_def Let_def del: of_nat_Suc)
qed

theorem exword_list_short_entry_witness:
  "parse_list (always (\<lambda>_. 0)) \<lparr>h_buf = exact_buf [0, 1, 0, 2, 0, 65], h_hi = 0x48, h_flags = 0,
     h_length = 6, body_touched = False\<rparr> = Inl Abort"
  using exword_list_short_entry [of "\<lparr>h_buf = exact_buf [0, 1, 0, 2, 0, 65], h_hi = 0x48, h_flags = 0,
     h_length = 6, body_touched = False\<rparr>" 0 2 0 "[65]" "always (\<lambda>_. 0)"]
  by (simp add: be16_def)

section \<open>Capacity\<close>

definition be64 :: "u64 \<Rightarrow> bytes" where "be64 w = rev (store_le64 w)"

lemma length_be64 [simp]: "length (be64 w) = 8"
  by (simp add: be64_def store_le64_def)

lemma bit_shifted_byte:
  "bit (push_bit k (ucast (x :: u8)) :: u64) n \<longleftrightarrow> k \<le> n \<and> n < 64 \<and> n < k + 8 \<and> bit x (n - k)"
  using bit_imp_le_length [of x "n - k"] by (auto simp: bit_simps)

lemma bit_load_le64:
  assumes "n < 64"
  shows "bit (load_le64 b) n = bit (b ! (n div 8)) (n mod 8)"
proof -
  define q r where "q = n div 8" and "r = n mod 8"
  then have n: "n = 8 * q + r" and r: "r < 8" and "q < 8" using assms by simp_all
  then have "q \<in> {0, 1, 2, 3, 4, 5, 6, 7}" by auto
  moreover have "bit (ucast (x :: u8) :: u64) m \<longleftrightarrow> m < 8 \<and> bit x m" for x m
    using bit_shifted_byte [of 0 x m] by auto
  ultimately have "bit (load_le64 b) (8 * q + r) = bit (b ! q) r"
    using r by (elim insertE emptyE) (simp_all add: load_le64_def bit_or_iff bit_shifted_byte)
  then show ?thesis by (simp add: n q_def [symmetric] r_def [symmetric] del: mult_Suc) (simp add: n r)
qed

lemma nth_store_le64: "i < 8 \<Longrightarrow> store_le64 w ! i = ucast (drop_bit (8 * i) w)"
  by (simp add: store_le64_def)

lemma load_store_le64: "load_le64 (store_le64 w) = w"
proof (rule bit_word_eqI)
  fix n assume "n < LENGTH(64)"
  then have n: "n < 64" by simp
  then have "n div 8 < 8" "8 * (n div 8) + n mod 8 = n" by simp_all
  then show "bit (load_le64 (store_le64 w)) n = bit w n"
    using n by (simp add: bit_load_le64 nth_store_le64 bit_simps)
qed

lemma byte_of_load_le64:
  assumes "i < 8"
  shows "ucast (drop_bit (8 * i) (load_le64 b)) = b ! i"
proof (rule bit_word_eqI)
  fix m assume "m < LENGTH(8)"
  then have m: "m < 8" by simp
  then have "8 * i + m < 64" "(8 * i + m) div 8 = i" "(8 * i + m) mod 8 = m" using assms by simp_all
  then show "bit (ucast (drop_bit (8 * i) (load_le64 b)) :: u8) m = bit (b ! i) m"
    using m by (simp add: bit_simps bit_load_le64)
qed

lemma store_load_le64: "length b = 8 \<Longrightarrow> store_le64 (load_le64 b) = b"
  by (rule nth_equalityI) (simp_all add: store_le64_def byte_of_load_le64)

lemma swap_all:
  assumes "length b = 8"
  shows "swap_bytes 3 4 (swap_bytes 2 5 (swap_bytes 1 6 (swap_bytes 0 7 b))) = rev b"
proof -
  obtain b0 b1 b2 b3 b4 b5 b6 b7 where "b = [b0, b1, b2, b3, b4, b5, b6, b7]"
    using assms by (auto simp: length_Suc_conv eval_nat_numeral)
  then show ?thesis by (simp add: swap_bytes_def)
qed

lemma ntohll_be64: "ntohll (load_le64 (be64 w)) = w"
proof -
  have "ntohll (load_le64 (be64 w)) = load_le64 (rev (be64 w))"
    by (simp only: ntohll_def store_load_le64 swap_all length_be64)
  then show ?thesis by (simp add: be64_def load_store_le64)
qed

text \<open>The capacity answer is read in both formats devices use: 24 bytes with two 64-bit
  big-endian counts after 8 bytes, or two 32-bit big-endian counts.\<close>

theorem exword_capacity_values:
  "(h_length h = 24 \<and> length pre = 8 \<and> holds (h_buf h) (pre @ be64 t @ be64 f) \<longrightarrow>
      parse_capacity h = Inr \<lparr>total = t, free = f\<rparr>) \<and>
   (h_length h \<noteq> 24 \<and> holds (h_buf h) (be32 t' @ be32 f' @ rest) \<longrightarrow>
      parse_capacity h = Inr \<lparr>total = ucast t', free = ucast f'\<rparr>)"
proof (intro conjI impI; elim conjE)
  assume "h_length h = 24" "length pre = 8" and b: "holds (h_buf h) (pre @ be64 t @ be64 f)"
  moreover from this have "peek (h_buf h) 8 8 = Some (be64 t)" "peek (h_buf h) 16 8 = Some (be64 f)"
    using peek_mid [of "h_buf h" pre "be64 t"] peek_mid [of "h_buf h" "pre @ be64 t" "be64 f" "[]"] by simp_all
  ultimately show "parse_capacity h = Inr \<lparr>total = t, free = f\<rparr>"
    by (simp add: parse_capacity_def ntohll_be64)
next
  assume "h_length h \<noteq> 24" and b: "holds (h_buf h) (be32 t' @ be32 f' @ rest)"
  moreover from b have "peek (h_buf h) 0 4 = Some (be32 t')" "peek (h_buf h) 4 4 = Some (be32 f')"
    using peek_mid [of "h_buf h" "[]" "be32 t'"] peek_mid [of "h_buf h" "be32 t'" "be32 f'" rest] by simp_all
  ultimately show "parse_capacity h = Inr \<lparr>total = ucast t', free = ucast f'\<rparr>"
    by (simp add: parse_capacity_def)
qed

theorem exword_capacity_values_witness:
  "parse_capacity \<lparr>h_buf = exact_buf (be32 0x1000 @ be32 0x200), h_hi = 0x48, h_flags = 0, h_length = 8,
     body_touched = False\<rparr> = Inr \<lparr>total = 0x1000, free = 0x200\<rparr>"
  using exword_capacity_values [of "\<lparr>h_buf = exact_buf (be32 0x1000 @ be32 0x200), h_hi = 0x48, h_flags = 0,
     h_length = 8, body_touched = False\<rparr>" "[]" 0 0 "0x1000" "0x200" "[]"] by simp

section \<open>Model\<close>

text \<open>What one capability string means; a C string counts up from C over C2 to C3.\<close>

definition has_tag :: "string \<Rightarrow> bytes \<Rightarrow> bool" where
  "has_tag t s \<longleftrightarrow> take (length t) s = ascii t"

definition cap_of :: "bytes \<Rightarrow> exword_model \<Rightarrow> exword_model" where
  "cap_of s m =
     (if has_tag ''SW'' s then set_cap CAP_SW m
      else if has_tag ''ST'' s then set_cap CAP_ST m
      else if has_tag ''T'' s then set_cap CAP_T m
      else if has_tag ''P'' s then set_cap CAP_P m
      else if has_tag ''F'' s then set_cap CAP_F m
      else if has_tag ''CY'' s then set_cap CAP_EXT (m\<lparr>m_ext_model := take 6 s\<rparr>)
      else if has_tag ''C'' s then
        set_cap (if m_capabilities m AND CAP_C2 \<noteq> 0 then CAP_C3
                 else if m_capabilities m AND CAP_C \<noteq> 0 then CAP_C2 else CAP_C) m
      else m)"

definition wf_cap :: "bytes \<Rightarrow> bool" where
  "wf_cap s \<longleftrightarrow> 0 \<notin> set s \<and> (has_tag ''CY'' s \<longrightarrow> 6 \<le> length s)"

definition cap_bytes :: "bytes list \<Rightarrow> bytes" where
  "cap_bytes ss = concat (map (\<lambda>s. s @ [0]) ss)"

lemma starts_with_string: "0 \<notin> set t \<Longrightarrow> starts_with (s @ 0 # rest) t = Inr (take (length t) s = t)"
proof (induction t arbitrary: s)
  case (Cons c t)
  then show ?case by (cases s) auto
qed simp

lemma first_match_string:
  "list_all (\<lambda>p. 0 \<notin> set p) ps \<Longrightarrow>
   first_match (s @ 0 # rest) ps = Inr (find (\<lambda>p. take (length p) s = p) ps)"
  by (induction ps) (simp_all add: starts_with_string)

lemma strlen_string: "0 \<notin> set s \<Longrightarrow> strlen (s @ 0 # rest) = Inr (length s)"
  by (induction s) auto

lemma apply_first:
  assumes "wf_cap s"
  shows "rbind (first_match (s @ 0 # rest) cap_tags) (\<lambda>tag.
      case tag of None \<Rightarrow> Inr m | Some t \<Rightarrow> apply_tag t (s @ 0 # rest) m) = Inr (cap_of s m)"
proof -
  have "list_all (\<lambda>p. 0 \<notin> set p) cap_tags" by (simp add: cap_tags_def ascii_def)
  then show ?thesis
    using assms unfolding first_match_string [OF \<open>list_all (\<lambda>p. 0 \<notin> set p) cap_tags\<close>]
    by (simp add: cap_tags_def apply_tag_def cap_of_def has_tag_def ascii_def wf_cap_def) auto
qed

lemma capability_loop_strings:
  "list_all wf_cap ss \<Longrightarrow> capability_loop (length (cap_bytes ss)) (cap_bytes ss @ rest) m = Inr (fold cap_of ss m)"
proof (induction ss arbitrary: m)
  case Nil
  then show ?case by (simp add: cap_bytes_def capability_loop.simps)
next
  case (Cons s ss)
  have b: "cap_bytes (s # ss) @ rest = s @ 0 # (cap_bytes ss @ rest)" by (simp add: cap_bytes_def)
  have l: "length (cap_bytes (s # ss)) = length s + 1 + length (cap_bytes ss)" by (simp add: cap_bytes_def)
  let ?ptr = "s @ 0 # (cap_bytes ss @ rest)"
  from Cons.prems have w: "wf_cap s" "0 \<notin> set s" by (simp_all add: wf_cap_def)
  obtain tag where tag: "first_match ?ptr cap_tags = Inr tag"
    and ap: "(case tag of None \<Rightarrow> Inr m | Some t \<Rightarrow> apply_tag t ?ptr m) = Inr (cap_of s m)"
    using apply_first [OF w(1), of "cap_bytes ss @ rest" m] by (auto simp: rbind_Inr_iff)
  have "capability_loop (length (cap_bytes (s # ss))) ?ptr m =
      capability_loop (length (cap_bytes ss)) (cap_bytes ss @ rest) (cap_of s m)"
    unfolding l using tag ap strlen_string [OF w(2)]
    by (subst capability_loop.simps) simp
  with Cons show ?case unfolding b by simp
qed

lemma block_from_holds:
  assumes "holds m (xs @ ys)"
  obtains junk where "block_from m (length xs) = ys @ junk"
proof -
  obtain p where p: "m = Some p" "buf_ok p" "contents p = xs @ ys" using assms by (auto simp: holds_def)
  have "drop (data p) (buffer p) = contents p @ drop (length (contents p)) (drop (data p) (buffer p))"
    using p(2) unfolding contents_def buf_ok_def by (metis append_take_drop_id length_contents contents_def p(2))
  then have "drop (length xs) (drop (data p) (buffer p)) = ys @ drop (length (contents p)) (drop (data p) (buffer p))"
    by (metis append_assoc append_eq_conv_conj p(3))
  then show thesis using that p(1) by (simp add: add.commute)
qed

text \<open>The model answer is read as it is laid out: the 14 byte model, the 6 byte sub-model and,
  from byte 23 on, zero-terminated capability strings, which are evaluated one by one in order.\<close>

theorem exword_model_parsed:
  assumes "length md = 14" and "length sm = 6" and "length gap = 3" and "list_all wf_cap ss"
    and "holds (h_buf h) (md @ sm @ gap @ cap_bytes ss)"
    and "h_length h = of_nat (23 + length (cap_bytes ss))" and "23 + length (cap_bytes ss) < 2 ^ 32"
  shows "parse_model m0 h = Inr (fold cap_of ss (m0\<lparr>m_capabilities := 0, m_model := md, m_sub_model := sm\<rparr>))"
proof -
  have "peek (h_buf h) 0 14 = Some md" "peek (h_buf h) 14 6 = Some sm"
    using peek_mid [of "h_buf h" "[]" md] peek_mid [of "h_buf h" md sm] assms by simp_all
  moreover obtain junk where "block_from (h_buf h) 23 = cap_bytes ss @ junk"
    using block_from_holds [of "h_buf h" "md @ sm @ gap" "cap_bytes ss"] assms by auto
  moreover have "unat (h_length h) = 23 + length (cap_bytes ss)"
    unfolding assms(6) using assms(7) by (intro unat_of_nat_eq) simp
  ultimately show ?thesis using capability_loop_strings [OF assms(4)] by (simp add: parse_model_def)
qed

definition demo_model :: bytes where
  "demo_model = ascii ''gy363 CASIO   '' @ ascii ''XD-B86'' @ [0, 0, 0] @ ascii ''SW'' @ [0] @ ascii ''C1'' @ [0] @ ascii ''C2'' @ [0]"

theorem exword_model_parsed_witness:
  "\<exists>m. parse_model \<lparr>m_model = [], m_sub_model = [], m_ext_model = [], m_capabilities = 0\<rparr>
     \<lparr>h_buf = exact_buf demo_model, h_hi = 0x48, h_flags = 0, h_length = 32, body_touched = False\<rparr> = Inr m \<and>
   m_capabilities m = CAP_SW OR CAP_C OR CAP_C2 \<and> m_sub_model m = ascii ''XD-B86''"
proof -
  let ?ss = "[ascii ''SW'', ascii ''C1'', ascii ''C2'']"
  let ?h = "\<lparr>h_buf = exact_buf demo_model, h_hi = 0x48, h_flags = 0, h_length = 32, body_touched = False\<rparr>"
  have d: "demo_model = ascii ''gy363 CASIO   '' @ ascii ''XD-B86'' @ [0, 0, 0] @ cap_bytes ?ss"
    by (simp add: demo_model_def cap_bytes_def)
  have w: "list_all wf_cap ?ss" by (simp add: wf_cap_def has_tag_def ascii_def)
  have b: "holds (h_buf ?h) (ascii ''gy363 CASIO   '' @ ascii ''XD-B86'' @ [0, 0, 0] @ cap_bytes ?ss)"
    unfolding d [symmetric] by simp
  have l: "h_length ?h = of_nat (23 + length (cap_bytes ?ss))" "23 + length (cap_bytes ?ss) < 2 ^ 32"
    by (simp_all add: cap_bytes_def ascii_def)
  show ?thesis
    using exword_model_parsed [OF _ _ _ w b l, of "\<lparr>m_model = [], m_sub_model = [], m_ext_model = [], m_capabilities = 0\<rparr>"]
    by (simp add: ascii_def cap_of_def has_tag_def set_cap_def CAP_SW_def CAP_C_def CAP_C2_def)
qed

section \<open>Downloads\<close>

text \<open>The queue an answered download leaves: the announced length and the body.\<close>

definition len_elem :: "obex_header_element \<Rightarrow> nat \<Rightarrow> bool" where
  "len_elem h n \<longleftrightarrow> h_hi h = OBEX_HDR_LENGTH \<and> holds (h_buf h) (be32 (of_nat n))"

definition body_elem :: "obex_header_element \<Rightarrow> bytes \<Rightarrow> bool" where
  "body_elem h d \<longleftrightarrow> h_hi h = OBEX_HDR_BODY \<and> holds (h_buf h) d \<and> unat (h_length h) = length d"

lemma get_file_length:
  assumes "len_elem h n" and "n < 2 ^ 31"
  shows "get_file_loop alloc (h # q) len buf = get_file_loop alloc q (int n) (malloc alloc (size_t_of_int (int n)))"
proof -
  have s: "sint (of_nat n :: u32) = int n" using assms(2) by (simp add: signed_of_nat signed_take_bit_int_eq_self)
  have "peek (h_buf h) 0 4 = Some (be32 (of_nat n))"
    using peek_mid [of "h_buf h" "[]" "be32 (of_nat n)" "[]"] assms(1) by (simp add: len_elem_def)
  then have "header_value h = Inr (Bq4 (of_nat n))"
    using assms(1) by (simp add: header_value_def len_elem_def obex_header_ids)
  then show ?thesis using assms(1) s by (simp add: len_elem_def)
qed

lemma get_file_body:
  assumes "body_elem h d" and "0 < n" and "n < 2 ^ 31"
  shows "get_file_loop alloc (h # q) (int n) buf =
     rbind (need buf) (\<lambda>_. rbind (need (peek (h_buf h) 0 n)) (\<lambda>bs. Inr (int n, Some bs)))"
proof -
  have "peek (h_buf h) 0 (unat (h_length h)) = Some d"
    using peek_mid [of "h_buf h" "[]" d "[]"] assms(1) by (simp add: body_elem_def)
  then have "header_value h = Inr (Bs d)"
    using assms(1) by (simp add: header_value_def body_elem_def obex_header_ids)
  moreover have "size_t_of_int (int n) = n" using assms(3) by (simp add: size_t_of_int_def)
  ultimately show ?thesis using assms by (simp add: body_elem_def obex_header_ids)
qed

text \<open>A download whose length header announces the size of the body that follows returns
  exactly the body. When the header announces more than the received block holds, the copy runs
  off the block: the announced length is trusted.\<close>

theorem exword_get_file_body:
  assumes "plenty alloc" and "len_elem hl n" and "body_elem hb d" and "0 < n" and "n < 2 ^ 31"
  shows "(n = length d \<longrightarrow> get_file_loop alloc [hl, hb] 0 None = Inr (int n, Some d)) \<and>
    (buf_total_size (h_buf hb) < n \<longrightarrow> get_file_loop alloc [hl, hb] 0 None = Inl Abort)"
proof -
  have eq: "get_file_loop alloc [hl, hb] 0 None =
     rbind (need (malloc alloc (size_t_of_int (int n)))) (\<lambda>_. rbind (need (peek (h_buf hb) 0 n)) (\<lambda>bs. Inr (int n, Some bs)))"
    using get_file_length [OF assms(2,5), of alloc "[hb]"] get_file_body [OF assms(3-5), of alloc "[]"] by simp
  obtain b where b: "malloc alloc (size_t_of_int (int n)) = Some b" using plenty_malloc [OF assms(1)] by blast
  have "peek (h_buf hb) 0 n = Some d" if "n = length d"
    using peek_mid [of "h_buf hb" "[]" d "[]"] assms(3) that by (simp add: body_elem_def)
  moreover have "peek (h_buf hb) 0 n = None" if "buf_total_size (h_buf hb) < n"
    using assms(3) that by (auto simp: body_elem_def holds_def buf_ok_def)
  ultimately show ?thesis unfolding eq b by auto
qed

theorem exword_get_file_body_witness:
  "get_file_loop (always (\<lambda>_. 0))
     [\<lparr>h_buf = exact_buf (be32 2), h_hi = OBEX_HDR_LENGTH, h_flags = 0, h_length = 4, body_touched = False\<rparr>,
      \<lparr>h_buf = exact_buf [7, 8], h_hi = OBEX_HDR_BODY, h_flags = 0, h_length = 2, body_touched = False\<rparr>] 0 None =
   Inr (2, Some [7, 8])"
proof -
  let ?hl = "\<lparr>h_buf = exact_buf (be32 2), h_hi = OBEX_HDR_LENGTH, h_flags = 0, h_length = 4, body_touched = False\<rparr>"
  let ?hb = "\<lparr>h_buf = exact_buf [7, 8], h_hi = OBEX_HDR_BODY, h_flags = 0, h_length = 2, body_touched = False\<rparr>"
  have "len_elem ?hl 2" "body_elem ?hb [7, 8]" by (simp_all add: len_elem_def body_elem_def)
  from exword_get_file_body [OF plenty_always [of "\<lambda>_. 0"] this] show ?thesis
    by (simp del: get_file_loop.simps of_nat_numeral)
qed

end
