(* ===== verification/Exword_Session.thy ===== *)
theory Exword_Session
  imports Exword_Parsers
begin

text \<open>
  The life of a device handle: every public operation of \<^verbatim>\<open>exword.c\<close> as an event, the contract all
  commands share (the status tests come first, a failed test changes nothing), the invariant of
  the handle over any sequence of events, and what polling reports and releases.
\<close>

section \<open>The handle between operations\<close>

text \<open>The status byte: bit 7 is offline; bits 0 to 2 a disconnect that was not yet reported.\<close>

definition session_inv :: "'u exword \<Rightarrow> bool" where
  "session_inv s \<longleftrightarrow> status s \<in> {0x00, 0x02, 0x80, 0x81, 0x82, 0x84} \<and>
     (exword_is_connected s \<longrightarrow> obex_ctx s \<noteq> None \<and> int_urb s)"

lemma session_inv_usable:
  "session_inv s \<Longrightarrow> status s AND 0x06 = 0 \<Longrightarrow> exword_is_connected s \<Longrightarrow> status s = 0"
  by (auto simp: session_inv_def exword_is_connected_def)

text \<open>What a request leaves of the handle: only the context and the part the callback reaches
  change.\<close>

lemma request_frame:
  assumes "request env s ob = Inr (rsp, s', ob')"
  shows "obex_ctx s' \<noteq> None \<and> int_urb s' = int_urb s \<and> status s' = status s \<and>
    notified s' = notified s \<and> disconnect_callback s' = disconnect_callback s"
  using assms by (auto simp: request_def rbind_Inr_iff)

lemma to_error_frame:
  assumes "obex_to_exword_error env s rsp = Inr (e, s')" and "status s = 0"
  shows "obex_ctx s \<noteq> None \<Longrightarrow> obex_ctx s' \<noteq> None" and "int_urb s' = int_urb s"
    and "status s' = (if rsp = 0x50 then 0x84 else 0)"
    and "notified s' = notified s" and "disconnect_callback s' = disconnect_callback s"
    and "e = EXWORD_ERROR_INTERNAL \<longleftrightarrow> rsp = 0x50"
  using assms
  by (auto simp: obex_to_exword_error_def rbind_Inr_iff Let_def EXWORD_DISCONNECT_ERROR_def
      dest!: request_frame split: if_splits option.splits)

lemma transact_frame:
  assumes "transact env s cmd nonhdr hs r0 after = Inr (e, r, s')" and "status s = 0"
  shows "obex_ctx s' \<noteq> None \<and> int_urb s' = int_urb s \<and> status s' \<in> {0, 0x84} \<and>
    notified s' = notified s \<and> disconnect_callback s' = disconnect_callback s"
proof (cases "s' = s \<and> obex_ctx s \<noteq> None")
  case True
  with assms(2) show ?thesis by simp
next
  case False
  with assms obtain ob rsp s1 ob1 where q: "request env s ob = Inr (rsp, s1, ob1)"
    and t: "obex_to_exword_error env s1 rsp = Inr (e, s')"
    by (cases nonhdr) (auto simp: transact_def rbind_Inr_iff need_Inr_iff split: option.splits)
  from request_frame [OF q] have s1: "status s1 = 0" "obex_ctx s1 \<noteq> None" "int_urb s1 = int_urb s"
    "notified s1 = notified s" "disconnect_callback s1 = disconnect_callback s" using assms(2) by auto
  show ?thesis using to_error_frame [OF t s1(1)] s1 by auto
qed

section \<open>The contract of the commands\<close>

text \<open>The handle a command leaves.\<close>

definition state_of :: "(exword_error \<times> 'r \<times> 'u exword) res \<Rightarrow> 'u exword res" where
  "state_of r = rbind r (\<lambda>(_, _, s). Inr s)"

lemma state_of_iff: "state_of r = Inr s \<longleftrightarrow> (\<exists>e x. r = Inr (e, x, s))"
  by (auto simp: state_of_def rbind_Inr_iff)

text \<open>What every command promises: on a handle with a pending error it reports an internal error,
  offline it reports not found, both without touching the handle or the output arguments; on a
  usable handle it keeps the invariant and what the disconnect notification needs.\<close>

locale command =
  fixes cmd :: "'u exword \<Rightarrow> (exword_error \<times> 'r \<times> 'u exword) res" and r0 :: 'r
  assumes pending: "status s AND 0x06 \<noteq> 0 \<Longrightarrow> cmd s = Inr (EXWORD_ERROR_INTERNAL, r0, s)"
    and offline: "status s AND 0x06 = 0 \<Longrightarrow> \<not> exword_is_connected s \<Longrightarrow>
      cmd s = Inr (EXWORD_ERROR_NOT_FOUND, r0, s)"
    and online: "status s = 0 \<Longrightarrow> obex_ctx s \<noteq> None \<Longrightarrow> int_urb s \<Longrightarrow> cmd s = Inr (e, r, s') \<Longrightarrow>
      obex_ctx s' \<noteq> None \<and> int_urb s' \<and> status s' \<in> {0, 0x84} \<and>
      notified s' = notified s \<and> disconnect_callback s' = disconnect_callback s"
begin

lemma unusable_unchanged:
  assumes "status s AND 0x06 \<noteq> 0 \<or> \<not> exword_is_connected s"
  shows "\<exists>e. cmd s = Inr (e, r0, s) \<and> e \<noteq> EXWORD_SUCCESS"
  using assms pending [of s] offline [of s] by (cases "status s AND 0x06 = 0") auto

lemma unusable_state: "status s AND 0x06 \<noteq> 0 \<or> \<not> exword_is_connected s \<Longrightarrow> state_of (cmd s) = Inr s"
  using unusable_unchanged [of s] by (auto simp: state_of_iff simp del: not_all)

lemma keeps_inv:
  assumes "session_inv s" and "cmd s = Inr (e, r, s')"
  shows "session_inv s'"
proof (cases "status s AND 0x06 \<noteq> 0 \<or> \<not> exword_is_connected s")
  case True
  from unusable_unchanged [OF this] assms show ?thesis by auto
next
  case False
  with session_inv_usable [OF assms(1)] have "status s = 0" by simp
  with online [of s e r s'] assms show ?thesis by (auto simp: session_inv_def exword_is_connected_def)
qed

lemma keeps_notified:
  assumes "session_inv s" and "cmd s = Inr (e, r, s')"
  shows "notified s' = notified s \<and> disconnect_callback s' = disconnect_callback s"
proof (cases "status s AND 0x06 \<noteq> 0 \<or> \<not> exword_is_connected s")
  case True
  from unusable_unchanged [OF this] assms show ?thesis by auto
next
  case False
  with session_inv_usable [OF assms(1)] have "status s = 0" by simp
  with online [of s e r s'] assms show ?thesis by (auto simp: session_inv_def exword_is_connected_def)
qed

end

text \<open>A command is the two tests in front of a body; the contract is what its body has to keep.\<close>

lemma guarded_command:
  fixes body :: "'u exword \<Rightarrow> (exword_error \<times> 'r \<times> 'u exword) res"
  assumes "\<And>s e r s'. status s = 0 \<Longrightarrow> obex_ctx s \<noteq> None \<Longrightarrow> int_urb s \<Longrightarrow> body s = Inr (e, r, s') \<Longrightarrow>
      obex_ctx s' \<noteq> None \<and> int_urb s' \<and> status s' \<in> {0, 0x84} \<and>
      notified s' = notified s \<and> disconnect_callback s' = disconnect_callback s"
  shows "command (\<lambda>s. guarded s r0 (body s)) r0"
proof unfold_locales
  fix s s' :: "'u exword" and e r
  assume "status s = 0" "obex_ctx s \<noteq> None" "int_urb s" "guarded s r0 (body s) = Inr (e, r, s')"
  then show "obex_ctx s' \<noteq> None \<and> int_urb s' \<and> status s' \<in> {0, 0x84} \<and>
      notified s' = notified s \<and> disconnect_callback s' = disconnect_callback s"
    using assms [of s e r s'] by (simp add: guarded_def exword_is_connected_def)
qed (simp_all add: guarded_def)

lemma transact_command: "command (\<lambda>s. guarded s r0 (transact env s c nonhdr hs r0 after)) r0"
  by (rule guarded_command) (auto dest: transact_frame)

lemma named_command:
  "command (\<lambda>s. guarded s r0 (rbind conv (\<lambda>u. case u of None \<Rightarrow> Inr (EXWORD_ERROR_OTHER, r0, s)
     | Some n \<Rightarrow> transact env s c (nonhdr n) (hs n) r0 (after n)))) r0"
  by (rule guarded_command) (auto simp: rbind_Inr_iff dest: transact_frame split: option.splits)

lemma simple_command_command: "command (\<lambda>s. simple_command env s name body) ()"
  unfolding simple_command_def by (rule transact_command)

interpretation send_file: command "\<lambda>s. exword_send_file env s filename fdata" "()" for env filename fdata
  unfolding exword_send_file_def by (rule named_command)

interpretation get_file: command "\<lambda>s. exword_get_file env s filename" "(0, None)" for env filename
  unfolding exword_get_file_def by (rule named_command)

interpretation remove_file: command "\<lambda>s. exword_remove_file env s filename u" "()" for env filename u
  unfolding exword_remove_file_def by (rule named_command)

interpretation setpath: command "\<lambda>s. exword_setpath env s path mk" "()" for env path mk
  unfolding exword_setpath_def by (rule named_command)

interpretation sd_format: command "\<lambda>s. exword_sd_format env s" "()" for env
  unfolding exword_sd_format_def by (rule simple_command_command)

interpretation unlock: command "\<lambda>s. exword_unlock env s" "()" for env
  unfolding exword_unlock_def by (rule simple_command_command)

interpretation lock: command "\<lambda>s. exword_lock env s" "()" for env
  unfolding exword_lock_def by (rule simple_command_command)

interpretation userid: command "\<lambda>s. exword_userid env s name" "()" for env name
  unfolding exword_userid_def by (rule simple_command_command)

interpretation authchallenge: command "\<lambda>s. exword_authchallenge env s ch" "()" for env ch
  unfolding exword_authchallenge_def by (rule simple_command_command)

interpretation get_model: command "\<lambda>s. exword_get_model env s m0" m0 for env m0
  unfolding exword_get_model_def by (rule transact_command)

interpretation get_capacity: command "\<lambda>s. exword_get_capacity env s c0" c0 for env c0
  unfolding exword_get_capacity_def by (rule transact_command)

interpretation list_files: command "\<lambda>s. exword_list env s" None for env
  unfolding exword_list_def by (rule transact_command)

interpretation authinfo: command "\<lambda>s. exword_authinfo env s info" info for env info
  unfolding exword_authinfo_def by (rule transact_command)

interpretation cryptkey: command "\<lambda>s. exword_cryptkey env cv s key" key for env cv key
  unfolding exword_cryptkey_def
  by (rule guarded_command) (auto simp: rbind_Inr_iff Let_def dest: transact_frame split: if_splits)

interpretation cname: command "\<lambda>s. exword_cname env s name dir" "()" for env name dir
  unfolding exword_cname_def
  by (rule guarded_command) (auto simp: rbind_Inr_iff Let_def dest: transact_frame split: if_splits)

section \<open>Sessions\<close>

datatype event =
    Connect u16
  | Disconnect
  | Poll
  | Interrupt transfer_status
  | Send_file bytes bytes
  | Get_file bytes
  | Remove_file bytes bool
  | Sd_format
  | Setpath bytes bool
  | Get_model exword_model
  | Get_capacity exword_capacity
  | List_files
  | Set_userid bytes
  | Crypt_key exword_cryptkey
  | Set_cname bytes bytes
  | Unlock_device
  | Lock_device
  | Auth_challenge bytes
  | Auth_info exword_authinfo
  | Register_xfer bool bool
  | Register_disconnect bool
  | Set_debug int

fun exec :: "('u, 'c, 'd) env \<Rightarrow> (u8 \<Rightarrow> u32) \<Rightarrow> event \<Rightarrow> 'u exword \<Rightarrow> 'u exword res" where
  "exec env cv (Connect options) s = rbind (exword_connect env s options) (\<lambda>(_, s1). Inr s1)"
| "exec env cv Disconnect s = rbind (exword_disconnect env s) (\<lambda>(_, s1). Inr s1)"
| "exec env cv Poll s = exword_poll_disconnect env s"
| "exec env cv (Interrupt t) s = Inr (exword_handle_interrupt t s)"
| "exec env cv (Send_file n d) s = state_of (exword_send_file env s n d)"
| "exec env cv (Get_file n) s = state_of (exword_get_file env s n)"
| "exec env cv (Remove_file n u) s = state_of (exword_remove_file env s n u)"
| "exec env cv Sd_format s = state_of (exword_sd_format env s)"
| "exec env cv (Setpath p mk) s = state_of (exword_setpath env s p mk)"
| "exec env cv (Get_model m) s = state_of (exword_get_model env s m)"
| "exec env cv (Get_capacity c) s = state_of (exword_get_capacity env s c)"
| "exec env cv List_files s = state_of (exword_list env s)"
| "exec env cv (Set_userid n) s = state_of (exword_userid env s n)"
| "exec env cv (Crypt_key k) s = state_of (exword_cryptkey env cv s k)"
| "exec env cv (Set_cname n d) s = state_of (exword_cname env s n d)"
| "exec env cv Unlock_device s = state_of (exword_unlock env s)"
| "exec env cv Lock_device s = state_of (exword_lock env s)"
| "exec env cv (Auth_challenge c) s = state_of (exword_authchallenge env s c)"
| "exec env cv (Auth_info i) s = state_of (exword_authinfo env s i)"
| "exec env cv (Register_xfer g p) s = Inr (exword_register_xfer_callbacks s g p)"
| "exec env cv (Register_disconnect d) s = Inr (exword_register_disconnect_callback s d)"
| "exec env cv (Set_debug n) s = Inr (exword_set_debug s n)"

text \<open>Each step has its own environment: devices come and go, memory runs out.\<close>

inductive session ::
  "(u8 \<Rightarrow> u32) \<Rightarrow> 'u exword \<Rightarrow> (('u, 'c, 'd) env \<times> event) list \<Rightarrow> 'u exword \<Rightarrow> bool" for cv where
  session_nil: "session cv s [] s"
| session_cons: "exec env cv ev s = Inr s1 \<Longrightarrow> session cv s1 evs s2 \<Longrightarrow> session cv s ((env, ev) # evs) s2"

inductive_cases session_consE: "session cv s ((env, ev) # evs) s2"
inductive_simps session_nil_iff: "session cv s [] s2"

lemma interrupt_inv: "session_inv s \<Longrightarrow> session_inv (exword_handle_interrupt t s)"
  by (cases t) (auto simp: session_inv_def exword_is_connected_def EXWORD_DISCONNECT_UNPLUGGED_def)

lemma interrupts_inv: "session_inv s \<Longrightarrow> session_inv (fold exword_handle_interrupt ts s)"
  by (induction ts arbitrary: s) (auto intro: interrupt_inv)

lemma interrupt_frame:
  "notified (exword_handle_interrupt t s) = notified s \<and>
   disconnect_callback (exword_handle_interrupt t s) = disconnect_callback s \<and>
   exword_is_connected (exword_handle_interrupt t s) = exword_is_connected s"
  by (cases t) (auto simp: exword_is_connected_def word_ao_dist EXWORD_DISCONNECT_UNPLUGGED_def)

lemma interrupts_frame:
  "notified (fold exword_handle_interrupt ts s) = notified s \<and>
   disconnect_callback (fold exword_handle_interrupt ts s) = disconnect_callback s \<and>
   exword_is_connected (fold exword_handle_interrupt ts s) = exword_is_connected s"
  by (induction ts arbitrary: s) (auto simp: interrupt_frame)

lemma connect_inv:
  assumes "session_inv s" and "exword_connect env s options = Inr (e, s')"
  shows "session_inv s'"
  using assms
  by (auto simp: exword_connect_def session_inv_def exword_is_connected_def rbind_Inr_iff Let_def
      dest!: request_frame split: if_splits option.splits)

lemma disconnect_frame:
  assumes "session_inv s" and "exword_is_connected s" and "exword_disconnect env s = Inr (e, s')"
  shows "status s' = (if status s AND 0x07 = 0 then 0x81 else 0x82)"
    and "notified s' = notified s" and "disconnect_callback s' = disconnect_callback s"
    and "e = EXWORD_SUCCESS \<Longrightarrow> obex_ctx s' = None \<and> \<not> int_urb s'"
  using assms
  by (auto simp: exword_disconnect_def session_inv_def exword_is_connected_def rbind_Inr_iff Let_def
      EXWORD_DISCONNECT_NORMAL_def dest!: request_frame split: if_splits option.splits)

lemma disconnect_inv:
  assumes "session_inv s" and "exword_disconnect env s = Inr (e, s')"
  shows "session_inv s'"
proof (cases "exword_is_connected s")
  case True
  from disconnect_frame(1) [OF assms(1) True assms(2)] show ?thesis
    by (simp add: session_inv_def exword_is_connected_def)
qed (use assms in \<open>simp add: exword_disconnect_def\<close>)

lemma send_event_simps [simp]:
  "status (send_disconnect_event s r) = status s" "obex_ctx (send_disconnect_event s r) = obex_ctx s"
  "int_urb (send_disconnect_event s r) = int_urb s" "exword_is_connected (send_disconnect_event s r) = exword_is_connected s"
  "session_inv (send_disconnect_event s r) = session_inv s"
  "disconnect_callback (send_disconnect_event s r) = disconnect_callback s"
  "notified (send_disconnect_event s r) = notified s @ (if disconnect_callback s then [r] else [])"
  by (simp_all add: send_disconnect_event_def exword_is_connected_def session_inv_def)

text \<open>What a poll sees: the handle after the interrupts that were delivered.\<close>

definition polled :: "('u, 'c, 'd) env \<Rightarrow> 'u exword \<Rightarrow> 'u exword" where
  "polled env s = (if exword_is_connected s
     then case e_events env (usb_w (xw s)) of (ev, u) \<Rightarrow>
       fold exword_handle_interrupt ev (s\<lparr>xw := (xw s)\<lparr>usb_w := u\<rparr>\<rparr>)
     else s)"

lemma polled_inv: "session_inv s \<Longrightarrow> session_inv (polled env s)"
  by (auto simp: polled_def split: prod.split intro!: interrupts_inv)
    (simp_all add: session_inv_def exword_is_connected_def)

lemma polled_frame:
  "notified (polled env s) = notified s \<and> disconnect_callback (polled env s) = disconnect_callback s \<and>
   exword_is_connected (polled env s) = exword_is_connected s"
  by (simp add: polled_def interrupts_frame split: prod.split) (simp add: exword_is_connected_def)

lemma poll_cases:
  assumes "exword_poll_disconnect env s = Inr s'"
  obtains (none) "status (polled env s) AND 0x07 = 0" "s' = polled env s"
  | (event) e s1 where "status (polled env s) AND 0x07 \<noteq> 0"
      "exword_disconnect env (send_disconnect_event (polled env s) (status (polled env s) AND 0x07)) = Inr (e, s1)"
      "s' = s1\<lparr>status := status s1 AND NOT 0x07\<rparr>"
  using assms
  by (auto simp: exword_poll_disconnect_def rbind_Inr_iff Let_def polled_def [symmetric] split: if_splits)

lemma poll_event:
  assumes "session_inv s" and "exword_poll_disconnect env s = Inr s'"
    and "status (polled env s) AND 0x07 \<noteq> 0"
  shows "status s' = 0x80" and "notified s' = notified s @
      (if disconnect_callback s then [status (polled env s) AND 0x07] else [])"
    and "disconnect_callback s' = disconnect_callback s"
    and "\<not> exword_is_connected (polled env s) \<Longrightarrow> obex_ctx s' = obex_ctx s \<and> int_urb s' = int_urb s"
proof -
  let ?p = "polled env s"
  from assms(2,3) obtain e s1 where
    d: "exword_disconnect env (send_disconnect_event ?p (status ?p AND 0x07)) = Inr (e, s1)"
    and s': "s' = s1\<lparr>status := status s1 AND NOT 0x07\<rparr>"
    by (cases rule: poll_cases) auto
  have inv: "session_inv ?p" using polled_inv [OF assms(1)] .
  note pf = polled_frame [of env s]
  have "status s' = 0x80 \<and> notified s' = notified s @
      (if disconnect_callback s then [status ?p AND 0x07] else []) \<and> disconnect_callback s' = disconnect_callback s"
  proof (cases "exword_is_connected ?p")
    case True
    with d inv disconnect_frame [OF _ _ d] s' pf show ?thesis by auto
  next
    case False
    with d inv s' pf show ?thesis
      by (auto simp: exword_disconnect_def session_inv_def exword_is_connected_def)
  qed
  then show "status s' = 0x80" "notified s' = notified s @
      (if disconnect_callback s then [status ?p AND 0x07] else [])" "disconnect_callback s' = disconnect_callback s"
    by simp_all
  show "obex_ctx s' = obex_ctx s \<and> int_urb s' = int_urb s" if "\<not> exword_is_connected ?p"
  proof -
    have "\<not> exword_is_connected s" using that pf by simp
    with that d s' show ?thesis by (auto simp: exword_disconnect_def polled_def)
  qed
qed

lemma poll_inv: "session_inv s \<Longrightarrow> exword_poll_disconnect env s = Inr s' \<Longrightarrow> session_inv s'"
proof -
  assume inv: "session_inv s" and p: "exword_poll_disconnect env s = Inr s'"
  from p show ?thesis
  proof (cases rule: poll_cases)
    case none
    then show ?thesis using polled_inv [OF inv] by simp
  next
    case (event e s1)
    from poll_event(1) [OF inv p event(1)] show ?thesis by (simp add: session_inv_def exword_is_connected_def)
  qed
qed

lemmas commands_keep_inv =
  send_file.keeps_inv get_file.keeps_inv remove_file.keeps_inv setpath.keeps_inv sd_format.keeps_inv
  unlock.keeps_inv lock.keeps_inv userid.keeps_inv authchallenge.keeps_inv get_model.keeps_inv
  get_capacity.keeps_inv list_files.keeps_inv authinfo.keeps_inv cryptkey.keeps_inv cname.keeps_inv

lemma register_inv:
  "session_inv s \<Longrightarrow> session_inv (exword_register_xfer_callbacks s g p)"
  "session_inv s \<Longrightarrow> session_inv (exword_register_disconnect_callback s d)"
  "session_inv s \<Longrightarrow> session_inv (exword_set_debug s n)"
  by (auto simp: session_inv_def exword_is_connected_def exword_register_xfer_callbacks_def
      exword_register_disconnect_callback_def exword_set_debug_def)

lemma exec_inv:
  assumes "session_inv s" and "exec env cv ev s = Inr s'"
  shows "session_inv s'"
  using assms
  by (cases ev)
    (simp_all add: state_of_iff rbind_Inr_iff,
     (blast intro: register_inv interrupt_inv dest: commands_keep_inv connect_inv disconnect_inv poll_inv)+)

lemma session_keeps_inv: "session cv s evs s' \<Longrightarrow> session_inv s \<Longrightarrow> session_inv s'"
  by (induction rule: session.induct) (auto intro: exec_inv)

section \<open>Properties\<close>

text \<open>The events that are commands to the device.\<close>

fun is_command :: "event \<Rightarrow> bool" where
  "is_command (Connect _) = False"
| "is_command Disconnect = False"
| "is_command Poll = False"
| "is_command (Interrupt _) = False"
| "is_command (Register_xfer _ _) = False"
| "is_command (Register_disconnect _) = False"
| "is_command (Set_debug _) = False"
| "is_command _ = True"

lemmas commands_unusable =
  send_file.unusable_state get_file.unusable_state remove_file.unusable_state
  setpath.unusable_state sd_format.unusable_state unlock.unusable_state
  lock.unusable_state userid.unusable_state authchallenge.unusable_state
  get_model.unusable_state get_capacity.unusable_state list_files.unusable_state
  authinfo.unusable_state cryptkey.unusable_state cname.unusable_state

lemma command_unusable:
  assumes "is_command ev" and "status s AND 0x06 \<noteq> 0 \<or> \<not> exword_is_connected s"
  shows "exec env cv ev s = Inr s"
  using assms(1) by (cases ev) (simp_all add: commands_unusable [OF assms(2)])

text \<open>For the concrete instances: a byte-to-UTF-16BE converter, and an environment with it, the
  echoing device and one configured host.\<close>

definition demo_iconv :: "bool iconv" where
  "demo_iconv = \<lparr>ic_from_locale = Some True, ic_to_locale = Some False,
     ic_conv = (\<lambda>wide inp room. let n = min (length inp) (if wide then room div 2 else room)
        in (if n = length inp then None else Some E2BIG, n,
            if wide then concat (map (\<lambda>b. [0, b]) (take n inp)) else take n inp, wide)),
     ic_reset = (\<lambda>_ _. [])\<rparr>"

definition demo_env :: "(script, bool, nat) env" where
  "demo_env = \<lparr>e_alloc = always (\<lambda>_. 0), e_lib = echo_device, e_iconv = demo_iconv, e_host = demo_host,
     e_handle = (\<lambda>_ u. u), e_urb = False, e_events = (\<lambda>u. ([], u)), e_fuel = 100\<rparr>"

definition demo_world :: "script xworld" where
  "demo_world = \<lparr>usb_w = usb demo_obex, cb_filename = None, cb_filelength = 0, cb_transferred = 0,
     put_file_cb = True, get_file_cb = False, progress = []\<rparr>"

definition demo_handle :: "u8 \<Rightarrow> script exword" where
  "demo_handle st = \<lparr>xw = demo_world,
     obex_ctx = Some \<lparr>usb = demo_world, version = OBEX_VERSION, obex_locale = 0, mtu_rx = OBEX_DEFAULT_MTU,
       mtu_tx = 40, mtu_tx_max = OBEX_MAXIMUM_MTU, tx_msg = exact_buf [], rx_msg = exact_buf [], seq_num = 0, obex_debug = 0\<rparr>,
     status = st, disconnect_callback = True, notified = [], int_urb = True, device_debug = 0\<rparr>"

lemma demo_handle_simps [simp]:
  "status (demo_handle st) = st" "notified (demo_handle st) = []" "disconnect_callback (demo_handle st)"
  "\<exists>c. obex_ctx (demo_handle st) = Some c" "int_urb (demo_handle st)" "xw (demo_handle st) = demo_world"
  "exword_is_connected (demo_handle st) = (st AND 0x80 = 0)"
  by (simp_all add: demo_handle_def exword_is_connected_def)

text \<open>C16. Over every sequence of connects, disconnects, polls, interrupts and commands on a fresh
  handle, with devices and memory coming and going: the status is one of the six legal values,
  and a handle that counts as connected has an open context and an interrupt transfer, so no
  command dereferences a missing one.\<close>

theorem exword_session_inv:
  assumes "exword_init u alloc = Some s0" and "session cv s0 evs s"
  shows "status s \<in> {0x00, 0x02, 0x80, 0x81, 0x82, 0x84} \<and>
    (exword_is_connected s \<longrightarrow> (\<exists>c. obex_ctx s = Some c) \<and> int_urb s)"
proof -
  have "session_inv s0" using assms(1)
    by (auto simp: exword_init_def session_inv_def exword_is_connected_def split: if_splits)
  from session_keeps_inv [OF assms(2) this] show ?thesis by (auto simp: session_inv_def)
qed

theorem exword_session_inv_witness:
  "\<exists>s0 s. exword_init (usb demo_obex) (always (\<lambda>_. 0)) = Some s0 \<and>
     session (\<lambda>_. 0) s0 [(demo_env, Connect 0x0220), (demo_env, Interrupt NO_DEVICE)] s \<and>
     status s \<in> {0x00, 0x02, 0x80, 0x81, 0x82, 0x84}"
proof -
  obtain s0 where s0: "exword_init (usb demo_obex) (always (\<lambda>_. 0)) = Some s0"
    by (simp add: exword_init_def malloc_def always_def)
  have "exword_connect demo_env s0 0x0220 = Inr (EXWORD_ERROR_OTHER, s0\<lparr>int_urb := False\<rparr>)"
    using s0 by (auto simp: exword_init_def exword_connect_def exword_is_connected_def demo_env_def split: if_splits)
  then have "session (\<lambda>_. 0) s0 [(demo_env, Connect 0x0220), (demo_env, Interrupt NO_DEVICE)]
      (exword_handle_interrupt NO_DEVICE (s0\<lparr>int_urb := False\<rparr>))"
    by (intro session.intros) (simp_all del: exword_handle_interrupt.simps, rule session_nil)
  with exword_session_inv [OF s0 this] s0 show ?thesis by blast
qed

text \<open>Commands on a handle that is offline or has a pending error do nothing: the handle is
  unchanged, whatever the environment.\<close>

theorem exword_unusable_unchanged:
  assumes "is_command ev" and "status s AND 0x06 \<noteq> 0 \<or> \<not> exword_is_connected s"
  shows "exec env cv ev s = Inr s"
  using command_unusable [OF assms] .

theorem exword_unusable_unchanged_witness:
  "exec demo_env (\<lambda>_. 0) List_files (demo_handle 0x80) = Inr (demo_handle 0x80)"
  by (rule exword_unusable_unchanged) simp_all

text \<open>A poll that finds a pending disconnect reports it to the callback exactly once, with its
  reason, and leaves the handle offline with nothing pending; every further poll changes nothing.\<close>

theorem exword_poll_reports_once:
  assumes "session_inv s" and "exword_poll_disconnect env s = Inr s'"
    and "status (polled env s) AND 0x07 \<noteq> 0"
  shows "notified s' = notified s @ (if disconnect_callback s then [status (polled env s) AND 0x07] else []) \<and>
    status s' = 0x80 \<and> exword_poll_disconnect env' s' = Inr s'"
proof -
  note st = poll_event(1) [OF assms]
  have "exword_poll_disconnect env' s' = Inr s'"
    by (simp add: exword_poll_disconnect_def exword_is_connected_def st)
  then show ?thesis using st poll_event(2) [OF assms] by simp
qed

theorem exword_poll_reports_once_witness:
  "\<exists>s'. exword_poll_disconnect demo_env (demo_handle 0x82) = Inr s' \<and> notified s' = [2]"
proof -
  have inv: "session_inv (demo_handle 0x82)" by (simp add: session_inv_def)
  have p: "polled demo_env (demo_handle 0x82) = demo_handle 0x82" by (simp add: polled_def)
  have "\<exists>s'. exword_poll_disconnect demo_env (demo_handle 0x82) = Inr s'"
    by (simp add: exword_poll_disconnect_def exword_disconnect_def)
  then obtain s' where "exword_poll_disconnect demo_env (demo_handle 0x82) = Inr s'" by blast
  from exword_poll_reports_once [OF inv this, of demo_env] this show ?thesis by (simp add: p)
qed

text \<open>After an internal error of the device (status 0x84) neither the poll that reports it nor
  the final deinitialisation releases anything: the open context and the interrupt transfer
  stay allocated, although the handle now counts as offline.\<close>

theorem exword_internal_error_leaks:
  assumes "session_inv s" and "status s = 0x84"
  shows "\<exists>s'. exword_poll_disconnect env s = Inr s' \<and> \<not> exword_is_connected s' \<and>
     obex_ctx s' = obex_ctx s \<and> int_urb s' = int_urb s \<and> exword_deinit env s' = Inr (EXWORD_SUCCESS, s')"
proof -
  have off: "\<not> exword_is_connected s" using assms(2) by (simp add: exword_is_connected_def)
  have p: "polled env s = s" using off by (simp add: polled_def)
  obtain s' where s': "exword_poll_disconnect env s = Inr s'"
    using off assms(2) by (simp add: exword_poll_disconnect_def exword_disconnect_def)
  have ev: "status (polled env s) AND 0x07 \<noteq> 0" by (simp add: p assms(2))
  from poll_event [OF assms(1) s' ev] s' off show ?thesis
    by (auto simp: p exword_deinit_def exword_is_connected_def)
qed

theorem exword_internal_error_leaks_witness:
  "\<exists>s'. exword_poll_disconnect demo_env (demo_handle 0x84) = Inr s' \<and> \<not> exword_is_connected s' \<and>
     obex_ctx s' \<noteq> None \<and> int_urb s'"
proof -
  have "session_inv (demo_handle 0x84)" and "status (demo_handle 0x84) = 0x84"
    by (simp_all add: session_inv_def)
  from exword_internal_error_leaks [OF this, of demo_env] show ?thesis by auto
qed

end
