(* ===== verification/Exword_Transfer.thy ===== *)
theory Exword_Transfer
  imports Exword_Session
begin

text \<open>
  A file transfer end to end: the character conversion, the progress callback on the packets of
  an upload, and \<^verbatim>\<open>exword_send_file\<close> over the OBEX engine and the buffer, down to the packets the
  device receives.
\<close>

section \<open>Character conversion\<close>

text \<open>What \<^verbatim>\<open>iconv\<close> promises for valid input and a converter in one of the states \<open>S\<close>: it converts all of
  it when there is room and otherwise a prefix, reporting \<^verbatim>\<open>E2BIG\<close>; no shift state remains. In the
  conversions between a locale's encoding and UTF-16BE a byte never becomes more than two.\<close>

definition iconv_maps :: "'c iconv \<Rightarrow> 'c set \<Rightarrow> (bytes \<Rightarrow> bytes) \<Rightarrow> bool" where
  "iconv_maps ic S f \<longleftrightarrow> (\<forall>cd \<in> S. \<forall>inp room. ic_reset ic cd room = [] \<and> length (f inp) \<le> 2 * length inp \<and>
     (length (f inp) \<le> room \<longrightarrow> (\<exists>n. \<exists>cd1 \<in> S. ic_conv ic cd inp room = (None, n, f inp, cd1))) \<and>
     (room < length (f inp) \<longrightarrow> (\<exists>n bs. \<exists>cd1 \<in> S. ic_conv ic cd inp room = (Some E2BIG, n, bs, cd1) \<and>
        length bs \<le> room \<and> f inp = bs @ f (drop n inp))))"

lemma convert_fits:
  assumes "iconv_maps ic S f" and cd: "cd \<in> S" and "length out + length (f inp) \<le> outlen" and "0 < k"
  shows "convert_loop k alloc ic cd inp out outlen = Inr (Some (out @ f inp))"
proof -
  have "length (f inp) \<le> outlen - length out" using assms(3) by simp
  then obtain n cd1 where "ic_conv ic cd inp (outlen - length out) = (None, n, f inp, cd1)" "cd1 \<in> S"
    using assms(1) cd unfolding iconv_maps_def by metis
  moreover from this(2) have "ic_reset ic cd1 r = []" for r using assms(1) by (simp add: iconv_maps_def)
  ultimately show ?thesis using assms(4) by (cases k) simp_all
qed

lemma convert_ok:
  assumes al: "plenty alloc" and ic: "iconv_maps ic S f" and cd: "cd \<in> S" and k: "2 \<le> k"
  shows "convert k alloc ic cd src = Inr (Some (f src))"
proof -
  have mal: "(malloc alloc n = None) = False" for n using plenty_malloc [OF al] by auto
  obtain k' where k': "k = Suc k'" "0 < k'" using k by (cases k) auto
  show ?thesis
  proof (cases "length (f src) \<le> length src")
    case True
    with convert_fits [OF ic cd, of "[]" src "length src" k] k' mal show ?thesis by (simp add: convert_def)
  next
    case False
    then obtain n bs cd1 where c: "ic_conv ic cd src (length src) = (Some E2BIG, n, bs, cd1)" "cd1 \<in> S"
      and bs: "length bs \<le> length src" "f src = bs @ f (drop n src)"
      using ic cd unfolding iconv_maps_def by (metis linorder_not_le)
    have "length (f (drop n src)) \<le> 2 * length (drop n src)" using ic cd unfolding iconv_maps_def by blast
    then have fits: "length bs + length (f (drop n src)) \<le> length src + length (drop n src) * 2" using bs(1) by simp
    show ?thesis
      using convert_fits [OF ic c(2) fits k'(2), of alloc] c(1) bs(2) mal
      by (simp add: convert_def k'(1) Let_def mult.commute)
  qed
qed

section \<open>The packets of an upload\<close>

text \<open>The two headers in front of the body.\<close>

definition put_headers :: "bytes \<Rightarrow> nat \<Rightarrow> hdr list" where
  "put_headers u n = [(OBEX_HDR_NAME, u), (OBEX_HDR_LENGTH, be32 (of_nat n))]"

lemma wire_put:
  "wire (OBEX_HDR_NAME, u) = OBEX_HDR_NAME # be16 (of_nat (length u + 3)) @ u"
  "wire (OBEX_HDR_LENGTH, v) = OBEX_HDR_LENGTH # v"
  "wire (OBEX_HDR_BODY, v) = OBEX_HDR_BODY # be16 (of_nat (length v + 3)) @ v"
  "wire (OBEX_HDR_BODY_END, v) = OBEX_HDR_BODY_END # be16 (of_nat (length v + 3)) @ v"
  by (simp_all add: wire.simps counted_def obex_header_ids)

lemma put_headers_size: "headers_size (put_headers u n) = length u + 8"
  by (simp add: headers_size_def put_headers_def wire_put)

text \<open>Bytes and headers at an offset of the transmitted packet, as the callback reads them.\<close>

lemma peek_at: "holds m (xs @ ys @ zs) \<Longrightarrow> length xs = i \<Longrightarrow> length ys = n \<Longrightarrow> peek m i n = Some ys"
  using peek_mid by blast

lemma packet_hdr_at:
  assumes "holds tx (pre @ (hi # be16 hl) @ post)" and "length pre = i"
  shows "packet_hdr tx i = Inr (hi, unat hl)"
proof -
  have "peek tx i 1 = Some [hi]" by (rule peek_at [of tx pre _ "be16 hl @ post"]) (use assms in simp_all)
  moreover have "peek tx (Suc i) 2 = Some (be16 hl)"
    by (rule peek_at [of tx "pre @ [hi]" _ post]) (use assms in simp_all)
  ultimately show ?thesis by (simp add: packet_hdr_def)
qed

text \<open>What the callback makes of the two kinds of packet an upload has: the first one sets the name,
  the length and restarts the count; each one adds its body bytes and reports.\<close>

definition put_start :: "bytes \<Rightarrow> nat \<Rightarrow> 'u xworld \<Rightarrow> 'u xworld" where
  "put_start name n w = w\<lparr>cb_filename := Some name, cb_filelength := of_nat n, cb_transferred := 0\<rparr>"

definition put_more :: "u32 \<Rightarrow> 'u xworld \<Rightarrow> 'u xworld" where
  "put_more n w = report (w\<lparr>cb_transferred := cb_transferred w + n\<rparr>)"

text \<open>The count of a fragment, from its 16-bit length field.\<close>

definition fragment_count :: "bytes \<Rightarrow> u32" where
  "fragment_count v = of_nat (unat (of_nat (length v + 3) :: u16)) - 3"

lemma fragment_count_small: "length v + 3 < 2 ^ 16 \<Longrightarrow> fragment_count v = of_nat (length v)"
proof -
  assume "length v + 3 < 2 ^ 16"
  then have "unat (of_nat (length v + 3) :: u16) = length v + 3" by (intro unat_of_nat_eq) simp
  then show ?thesis unfolding fragment_count_def by simp
qed

definition is_body :: "u8 \<Rightarrow> bool" where
  "is_body hi \<longleftrightarrow> hi = OBEX_HDR_BODY \<or> hi = OBEX_HDR_BODY_END"

lemma wire_body: "is_body hi \<Longrightarrow> wire (hi, v) = hi # be16 (of_nat (length v + 3)) @ v"
  using wire_put(3,4) by (auto simp: is_body_def)

lemma is_body_name: "\<not> is_body OBEX_HDR_NAME" "is_body hi \<Longrightarrow> hi \<noteq> OBEX_HDR_NAME"
  by (auto simp: is_body_def obex_header_ids)

lemma packet_front:
  obtains front where "packet seq op hs = front @ concat (map wire hs)" and "length front = 4"
  by (rule that [of "seq # op # be16 (of_nat (length (concat (map wire hs)) + 3))"]) (simp_all add: packet_def Let_def)

lemma put_callback_more:
  assumes "holds tx (packet seq op [(hi, v)])" and "is_body hi"
  shows "put_callback k alloc ic tx w = Inr (put_more (fragment_count v) w)"
proof -
  let ?hl = "of_nat (length v + 3) :: u16"
  obtain front where f: "packet seq op [(hi, v)] = front @ wire (hi, v)" "length front = 4"
    by (rule packet_front [of seq op "[(hi, v)]"]) simp
  have "packet_hdr tx 4 = Inr (hi, unat ?hl)"
    using packet_hdr_at [of tx front hi ?hl v 4] assms(1) f by (simp add: wire_body [OF assms(2)])
  then show ?thesis using assms(2) is_body_name(2) [OF assms(2)]
    by (auto simp: put_callback_def put_more_def fragment_count_def is_body_def)
qed

lemma put_callback_first:
  assumes tx: "holds tx (packet seq op (put_headers u n @ [(hi, v)]))" and hi: "is_body hi"
    and len: "length u + 3 < 2 ^ 16" and cv: "convert_to_locale k alloc ic u = Inr (Some name)"
  shows "put_callback k alloc ic tx w = Inr (if is_cmd u then w else put_more (fragment_count v) (put_start name n w))"
proof -
  let ?nl = "of_nat (length u + 3) :: u16" and ?hl = "of_nat (length v + 3) :: u16" and ?n = "be32 (of_nat n)"
  obtain front where f: "packet seq op (put_headers u n @ [(hi, v)]) = front @ concat (map wire (put_headers u n @ [(hi, v)]))"
    and lf: "length front = 4" by (rule packet_front)
  define name_w where "name_w = OBEX_HDR_NAME # be16 ?nl"
  have un: "unat ?nl = length u + 3" using len by (intro unat_of_nat_eq) simp
  have p: "holds tx (front @ name_w @ u @ [OBEX_HDR_LENGTH] @ ?n @ (hi # be16 ?hl) @ v)"
    using tx unfolding f by (simp add: put_headers_def wire_put(1,2) wire_body [OF hi] name_w_def)
  have ln: "length name_w = 3" by (simp add: name_w_def)
  have h1: "packet_hdr tx 4 = Inr (OBEX_HDR_NAME, length u + 3)"
    using packet_hdr_at [of tx front OBEX_HDR_NAME ?nl _ 4] p lf un by (simp add: name_w_def)
  have nm: "packet_name tx (length u + 3) = Inr (Some u)"
    using peek_at [of tx "front @ name_w" u _ 7 "length u"] p lf ln by (simp add: packet_name_def)
  have len: "peek tx (8 + length u) 4 = Some ?n"
    by (rule peek_at [of tx "front @ name_w @ u @ [OBEX_HDR_LENGTH]" _ "(hi # be16 ?hl) @ v"]) (use p lf ln in simp_all)
  have h2: "packet_hdr tx (12 + length u) = Inr (hi, unat ?hl)"
    by (rule packet_hdr_at [of tx "front @ name_w @ u @ [OBEX_HDR_LENGTH] @ ?n" _ _ v]) (use p lf ln in simp_all)
  show ?thesis
  proof (cases "is_cmd u")
    case True
    then show ?thesis using is_body_name(1) by (simp add: put_callback_def h1 nm name_known_def is_body_def)
  next
    case False
    then show ?thesis
      using hi by (auto simp: put_callback_def h1 nm name_known_def set_packet_name_def set_name_def cv len h2
          put_more_def put_start_def fragment_count_def is_body_def)
  qed
qed

text \<open>So the callback of an upload returns and leaves the device alone.\<close>

lemma put_more_usb [simp]: "usb_w (put_more n w) = usb_w w" "usb_w (put_start name m w) = usb_w w"
  by (simp_all add: put_more_def put_start_def report_def)

lemma callbacks_quiet:
  fixes idle :: "'u \<Rightarrow> bool" and log :: "'u \<Rightarrow> bytes list"
  assumes cv: "convert_to_locale k alloc ic u = Inr (Some name)" and u: "length u + 3 < 2 ^ 16"
  shows "quiet (exword_handle_callbacks k alloc ic) OBEX_CMD_PUT (\<lambda>w. idle (usb_w w)) (\<lambda>w. log (usb_w w)) (put_headers u n)"
  unfolding quiet_def
proof (intro allI impI)
  fix self :: "'u xworld obex" and ob :: obex_object and seq op hs
  assume op: "opcode ob = OBEX_CMD_PUT" and tx: "holds (tx_msg self) (packet seq op hs)"
    and g: "group (put_headers u n) hs" and i: "idle (usb_w (usb self))"
  from g obtain hi v where hi: "is_body hi" and hs: "hs = put_headers u n @ [(hi, v)] \<or> hs = [(hi, v)]"
    by (auto simp: group_def is_body_def)
  have "\<exists>w. put_callback k alloc ic (tx_msg self) (usb self) = Inr w \<and> usb_w w = usb_w (usb self)"
    using hs
  proof
    assume "hs = put_headers u n @ [(hi, v)]"
    with tx have "holds (tx_msg self) (packet seq op (put_headers u n @ [(hi, v)]))" by simp
    from put_callback_first [OF this hi u cv, of "usb self"] show ?thesis by simp
  next
    assume "hs = [(hi, v)]"
    with tx have "holds (tx_msg self) (packet seq op [(hi, v)])" by simp
    from put_callback_more [OF this hi, of k alloc ic "usb self"] show ?thesis by simp
  qed
  with op i show "\<exists>w. exword_handle_callbacks k alloc ic self ob = Inr w \<and> idle (usb_w w) \<and> log (usb_w w) = log (usb_w (usb self))"
    by (auto simp: exword_handle_callbacks_def Let_def OBEX_CMD_PUT_def OBEX_CMD_GET_def)
qed

section \<open>Uploads\<close>

lemma encode_put:
  "encode_header OBEX_HDR_NAME (Bs u) (length u) = Inr (wire (OBEX_HDR_NAME, u))"
  "encode_header OBEX_HDR_LENGTH (Bq4 w) 0 = Inr (wire (OBEX_HDR_LENGTH, be32 w))"
  "encode_header OBEX_HDR_BODY (Bs d) (length d) = Inr (wire (OBEX_HDR_BODY, d))"
  unfolding wire_put by (simp_all add: obex_header_ids Let_def)

lemma put_object_ok:
  assumes al: "plenty alloc" and room: "length u + 7 \<le> unat (mtu_tx c)" "9 \<le> unat (mtu_tx c)"
    and d: "length d + 3 < 2 ^ 31" and q: "tx_headerq ob = []"
  obtains ob' where "add_headers alloc c ob [name_hdr u, length_hdr (length d), body_hdr d] = Inr ob'"
    and "list_all2 tx_elem (tx_headerq ob') (map Hdr (put_headers u (length d)) @ [Body d])"
    and "\<exists>q t. ob' = ob\<lparr>totallen := t, tx_headerq := q\<rparr>"
proof -
  have hr: "unat (header_room c x 0) = unat (mtu_tx c) - 4" for x
  proof -
    have "unat (ucast (mtu_tx c) :: u32) = unat (mtu_tx c)" by (rule unat_ucast_up) simp
    moreover from this have "(4 :: u32) \<le> ucast (mtu_tx c)" using room(2) by (simp add: word_le_nat_alt)
    ultimately show ?thesis by (simp add: header_room_def unat_sub)
  qed
  have ne: "OBEX_HDR_NAME \<noteq> OBEX_HDR_EMPTY" "OBEX_HDR_LENGTH \<noteq> OBEX_HDR_EMPTY" "OBEX_HDR_BODY \<noteq> OBEX_HDR_EMPTY"
    "OBEX_HDR_NAME \<noteq> OBEX_HDR_BODY" "OBEX_HDR_LENGTH \<noteq> OBEX_HDR_BODY" by (simp_all add: obex_header_ids)
  have ul: "length u + 3 < 2 ^ 31" using room(1) unat_u16_lt [of "mtu_tx c"] by simp
  have rm: "Suc (Suc (Suc (length u))) \<le> unat (mtu_tx c) - 4" "5 \<le> unat (mtu_tx c) - 4" using room by simp_all
  obtain ob1 where a1: "obex_object_addheader alloc c ob OBEX_HDR_NAME (Bs u) (length u) 0 = Inr (1, ob1)"
    and q1: "list_all2 tx_elem (tx_headerq ob1) [Hdr (OBEX_HDR_NAME, u)]"
    and e1: "\<exists>q t. ob1 = ob\<lparr>totallen := t, tx_headerq := q\<rparr>"
    using addheader_ok [OF al ne(1) encode_put(1), of u ob "[]" 0 c] q ul rm(1) ne(4) by (auto simp: hr wire_put)
  obtain ob2 where a2: "obex_object_addheader alloc c ob1 OBEX_HDR_LENGTH (Bq4 (of_nat (length d))) 0 0 = Inr (1, ob2)"
    and q2: "list_all2 tx_elem (tx_headerq ob2) (map Hdr (put_headers u (length d)))"
    and e2: "\<exists>q t. ob2 = ob1\<lparr>totallen := t, tx_headerq := q\<rparr>"
    using addheader_ok [OF al ne(2) encode_put(2) _ q1, of "of_nat (length d)" 0 c] rm(2) ne(5)
    by (auto simp: hr wire_put put_headers_def)
  obtain ob3 where a3: "obex_object_addheader alloc c ob2 OBEX_HDR_BODY (Bs d) (length d) 0 = Inr (1, ob3)"
    and q3: "list_all2 tx_elem (tx_headerq ob3) (map Hdr (put_headers u (length d)) @ [Body d])"
    and e3: "\<exists>q t. ob3 = ob2\<lparr>totallen := t, tx_headerq := q\<rparr>"
    using addheader_ok [OF al ne(3) encode_put(3) _ q2, of d 0 c] d by (auto simp: wire_put OBEX_FL_FIT_ONE_PACKET_def)
  have "add_headers alloc c ob [name_hdr u, length_hdr (length d), body_hdr d] = Inr ob3"
    using a1 a2 a3 by (simp add: name_hdr_def length_hdr_def body_hdr_def)
  moreover have "\<exists>q t. ob3 = ob\<lparr>totallen := t, tx_headerq := q\<rparr>"
    using e1 e2 e3 by (elim exE) (simp, blast)
  ultimately show thesis using that q3 by blast
qed

lemma answers_lift:
  fixes lib :: "'u libusb"
  assumes "answers lib idle log"
  shows "answers (lift_lib lib) (\<lambda>w. idle (usb_w w)) (\<lambda>w. log (usb_w w))"
  unfolding answers_def
proof (intro allI impI)
  fix w :: "'u xworld" and pkt assume "idle (usb_w w)"
  then obtain u1 u2 u3 where "bulk_out lib (usb_w w) pkt = (0, length pkt, u1)"
    "\<forall>n \<ge> 3. bulk_in lib u1 n = (0, [hd pkt], u2) \<and> bulk_in lib u2 n = (0, [response_to pkt, 0, 3], u3)"
    "idle u3" "log u3 = log (usb_w w) @ [pkt]"
    using assms unfolding answers_def by metis
  then show "\<exists>w1 w2 w3. bulk_out (lift_lib lib) w pkt = (0, length pkt, w1) \<and>
     (\<forall>n \<ge> 3. bulk_in (lift_lib lib) w1 n = (0, [hd pkt], w2) \<and>
        bulk_in (lift_lib lib) w2 n = (0, [response_to pkt, 0, 3], w3)) \<and>
     idle (usb_w w3) \<and> log (usb_w w3) = log (usb_w w) @ [pkt]"
    by (intro exI [of _ "w\<lparr>usb_w := u1\<rparr>"] exI [of _ "w\<lparr>usb_w := u2\<rparr>"] exI [of _ "w\<lparr>usb_w := u3\<rparr>"])
      (simp add: lift_lib_def)
qed

text \<open>A connected handle whose context is between two requests.\<close>

definition at_rest :: "'u exword \<Rightarrow> 'u xworld obex \<Rightarrow> bool" where
  "at_rest s c \<longleftrightarrow> status s = 0 \<and> obex_ctx s = Some c \<and> (\<exists>ts. holds (tx_msg c) ts) \<and> holds (rx_msg c) [] \<and>
     3 \<le> unat (mtu_rx c)"

lemma put_request_ok:
  assumes al: "plenty alloc" and rest: "at_rest s c" and ob: "obex_object_new alloc c OBEX_CMD_PUT = Inr (Some ob)"
    and e: "\<exists>q t. ob' = ob\<lparr>totallen := t, tx_headerq := q\<rparr>" and q: "list_all2 tx_elem (tx_headerq ob') xs"
  shows "ready (c\<lparr>usb := w\<rparr>) ob' xs \<and> opcode ob' = OBEX_CMD_PUT"
proof -
  have "tx_nonhdr_data ob = None" "headeroffset ob = 0" "opcode ob = OBEX_CMD_PUT" "lastopcode ob = OBEX_CMD_PUT OR OBEX_FINAL"
    using object_new_ok [OF al, of OBEX_CMD_PUT c] ob by (auto simp: OBEX_CMD_PUT_def OBEX_CMD_CONNECT_def)
  with e q rest show ?thesis
    by (auto simp: ready_def at_rest_def OBEX_CMD_PUT_def OBEX_CMD_CONNECT_def OBEX_CMD_DISCONNECT_def OBEX_FINAL_def)
qed


lemma demo_iconv_from: "iconv_maps demo_iconv {True} (\<lambda>bs. concat (map (\<lambda>b. [0, b]) bs))"
proof -
  have len: "length (concat (map (\<lambda>b. [0, b]) bs)) = 2 * length bs" for bs :: bytes
    by (induction bs) simp_all
  have app: "concat (map (\<lambda>b. [0, b]) bs) =
      concat (map (\<lambda>b. [0, b]) (take n bs)) @ concat (map (\<lambda>b. [0, b]) (drop n bs))" for n and bs :: bytes
    by (metis append_take_drop_id concat_append map_append)
  show ?thesis
    unfolding iconv_maps_def
    by (auto simp: demo_iconv_def len Let_def min_def intro: app)
qed

lemma demo_iconv_to: "iconv_maps demo_iconv {False} id"
  unfolding iconv_maps_def by (auto simp: demo_iconv_def Let_def min_def)


text \<open>Character conversion ends after at most two calls of the converter and returns the whole
  converted string, however long: the enlarged output buffer always has room for the rest.\<close>

theorem convert_complete:
  assumes "plenty alloc" and "iconv_maps ic S f" and "cd \<in> S" and "2 \<le> k"
  shows "convert k alloc ic cd src = Inr (Some (f src))"
  using convert_ok [OF assms] .

theorem convert_complete_witness:
  "convert 2 (always (\<lambda>_. 0)) demo_iconv True [72, 105] = Inr (Some [0, 72, 0, 105])"
  using convert_complete [OF plenty_always [of "\<lambda>_. 0"] demo_iconv_from, of True 2 "[72, 105]"] by simp

end
