(* ===== verification/Mmio.thy ===== *)
theory Mmio
  imports Prelude "HOL-Library.State_Monad"
begin

text \<open>
  Memory-mapped devices, shared by the kernel driver and the programs that drive the same
  registers. A program runs in the state monad over a machine: an unknown device, which answers
  reads and takes writes at their widths, and the trace of accesses, newest first. Small rules
  carry an invariant or a postcondition through such a program.
\<close>

section \<open>Machines\<close>

datatype access =
    Rd8 u32 u8 | Rd16 u32 u16 | Rd32 u32 u32
  | Wr8 u32 u8 | Wr16 u32 u16 | Wr32 u32 u32

record 'w bus =
  bus_rd8 :: "u32 \<Rightarrow> 'w \<Rightarrow> u8 \<times> 'w"
  bus_rd16 :: "u32 \<Rightarrow> 'w \<Rightarrow> u16 \<times> 'w"
  bus_rd32 :: "u32 \<Rightarrow> 'w \<Rightarrow> u32 \<times> 'w"
  bus_wr8 :: "u32 \<Rightarrow> u8 \<Rightarrow> 'w \<Rightarrow> 'w"
  bus_wr16 :: "u32 \<Rightarrow> u16 \<Rightarrow> 'w \<Rightarrow> 'w"
  bus_wr32 :: "u32 \<Rightarrow> u32 \<Rightarrow> 'w \<Rightarrow> 'w"

record 'w machine =
  dev :: 'w
  trace :: "access list"

type_synonym ('w, 'z, 'a) prog = "(('w, 'z) machine_scheme, 'a) state"

definition ret :: "'a \<Rightarrow> ('s, 'a) state" where
  "ret a = State (\<lambda>s. (a, s))"

definition gets :: "('s \<Rightarrow> 'a) \<Rightarrow> ('s, 'a) state" where
  "gets f = State (\<lambda>s. (f s, s))"

definition modify :: "('s \<Rightarrow> 's) \<Rightarrow> ('s, unit) state" where
  "modify f = State (\<lambda>s. ((), f s))"

definition onlyif :: "bool \<Rightarrow> ('s, unit) state \<Rightarrow> ('s, unit) state" where
  "onlyif c m = (if c then m else ret ())"

definition readb :: "'w bus \<Rightarrow> u32 \<Rightarrow> ('w, 'z, u8) prog" where
  "readb b a = State (\<lambda>s. case bus_rd8 b a (dev s) of (v, d) \<Rightarrow> (v, s\<lparr>dev := d, trace := Rd8 a v # trace s\<rparr>))"

definition readw :: "'w bus \<Rightarrow> u32 \<Rightarrow> ('w, 'z, u16) prog" where
  "readw b a = State (\<lambda>s. case bus_rd16 b a (dev s) of (v, d) \<Rightarrow> (v, s\<lparr>dev := d, trace := Rd16 a v # trace s\<rparr>))"

definition readl :: "'w bus \<Rightarrow> u32 \<Rightarrow> ('w, 'z, u32) prog" where
  "readl b a = State (\<lambda>s. case bus_rd32 b a (dev s) of (v, d) \<Rightarrow> (v, s\<lparr>dev := d, trace := Rd32 a v # trace s\<rparr>))"

definition writeb :: "'w bus \<Rightarrow> u32 \<Rightarrow> u8 \<Rightarrow> ('w, 'z, unit) prog" where
  "writeb b a v = modify (\<lambda>s. s\<lparr>dev := bus_wr8 b a v (dev s), trace := Wr8 a v # trace s\<rparr>)"

definition writew :: "'w bus \<Rightarrow> u32 \<Rightarrow> u16 \<Rightarrow> ('w, 'z, unit) prog" where
  "writew b a v = modify (\<lambda>s. s\<lparr>dev := bus_wr16 b a v (dev s), trace := Wr16 a v # trace s\<rparr>)"

definition writel :: "'w bus \<Rightarrow> u32 \<Rightarrow> u32 \<Rightarrow> ('w, 'z, unit) prog" where
  "writel b a v = modify (\<lambda>s. s\<lparr>dev := bus_wr32 b a v (dev s), trace := Wr32 a v # trace s\<rparr>)"

section \<open>Reasoning about programs\<close>

definition triple :: "('s \<Rightarrow> bool) \<Rightarrow> ('s, 'a) state \<Rightarrow> ('a \<Rightarrow> 's \<Rightarrow> bool) \<Rightarrow> bool" where
  "triple P m Q \<longleftrightarrow> (\<forall>s. P s \<longrightarrow> (case run_state m s of (a, s') \<Rightarrow> Q a s'))"

definition keeps :: "('s \<Rightarrow> bool) \<Rightarrow> ('s, 'a) state \<Rightarrow> bool" where
  "keeps I m \<longleftrightarrow> triple I m (\<lambda>_. I)"

named_theorems keeps_rules

lemma tripleD: "triple P m Q \<Longrightarrow> run_state m s = (a, s') \<Longrightarrow> P s \<Longrightarrow> Q a s'"
  by (auto simp: triple_def)

lemma tripleI: "(\<And>s a s'. P s \<Longrightarrow> run_state m s = (a, s') \<Longrightarrow> Q a s') \<Longrightarrow> triple P m Q"
  by (auto simp: triple_def split: prod.split)

lemma triple_bind:
  assumes "triple P m R" and "\<And>a. triple (R a) (f a) Q"
  shows "triple P (m \<bind> f) Q"
  using assms by (fastforce simp: triple_def split: prod.splits)

lemma triple_pre: "triple P' m Q \<Longrightarrow> (\<And>s. P s \<Longrightarrow> P' s) \<Longrightarrow> triple P m Q"
  by (auto simp: triple_def)

lemma triple_post: "triple P m Q' \<Longrightarrow> (\<And>a s. Q' a s \<Longrightarrow> Q a s) \<Longrightarrow> triple P m Q"
  by (auto simp: triple_def split: prod.splits)

lemma keepsD: "keeps I m \<Longrightarrow> run_state m s = (a, s') \<Longrightarrow> I s \<Longrightarrow> I s'"
  by (auto simp: keeps_def dest: tripleD)

lemma keepsI: "(\<And>s a s'. I s \<Longrightarrow> run_state m s = (a, s') \<Longrightarrow> I s') \<Longrightarrow> keeps I m"
  by (auto simp: keeps_def intro: tripleI)

lemma keeps_ret [keeps_rules]: "keeps I (ret a)"
  by (auto simp: ret_def intro: keepsI)

lemma keeps_gets [keeps_rules]: "keeps I (gets f)"
  by (auto simp: gets_def intro: keepsI)

lemma keeps_bind [keeps_rules]: "keeps I m \<Longrightarrow> (\<And>a. keeps I (f a)) \<Longrightarrow> keeps I (m \<bind> f)"
  unfolding keeps_def by (rule triple_bind)

lemma keeps_modify: "(\<And>s. I s \<Longrightarrow> I (f s)) \<Longrightarrow> keeps I (modify f)"
  unfolding modify_def by (rule keepsI) auto

lemma keeps_if [keeps_rules]: "(c \<Longrightarrow> keeps I m) \<Longrightarrow> (\<not> c \<Longrightarrow> keeps I n) \<Longrightarrow> keeps I (if c then m else n)"
  by simp

lemma keeps_onlyif [keeps_rules]: "(c \<Longrightarrow> keeps I m) \<Longrightarrow> keeps I (onlyif c m)"
  by (simp add: onlyif_def keeps_ret)

lemma keeps_let [keeps_rules]: "(\<And>x. x = v \<Longrightarrow> keeps I (f x)) \<Longrightarrow> keeps I (let x = v in f x)"
  by simp

lemma keeps_case_prod [keeps_rules]: "(\<And>a b. keeps I (f a b)) \<Longrightarrow> keeps I (case p of (a, b) \<Rightarrow> f a b)"
  by (cases p) simp

lemma keeps_and: "keeps I m \<Longrightarrow> keeps J m \<Longrightarrow> keeps (\<lambda>s. I s \<and> J s) m"
  by (auto simp: keeps_def triple_def split: prod.splits)

lemma run_simps [simp]:
  "run_state (ret a) s = (a, s)"
  "run_state (gets f) s = (f s, s)"
  "run_state (modify g) s = ((), g s)"
  "run_state (onlyif c m) s = (if c then run_state m s else ((), s))"
  by (simp_all add: ret_def gets_def modify_def onlyif_def)

text \<open>Invariants of the trace: what every access has to satisfy, given the accesses before it.\<close>

fun traced :: "(access \<Rightarrow> access list \<Rightarrow> bool) \<Rightarrow> access list \<Rightarrow> bool" where
  "traced ok [] = True"
| "traced ok (x # xs) = (ok x xs \<and> traced ok xs)"

definition safe :: "(access \<Rightarrow> access list \<Rightarrow> bool) \<Rightarrow> ('w, 'z) machine_scheme \<Rightarrow> bool" where
  "safe ok s \<longleftrightarrow> traced ok (trace s)"

lemma safe_update:
  "trace s' = trace s \<Longrightarrow> safe ok s' = safe ok s"
  by (simp add: safe_def)

lemma keeps_quiet: "(\<And>s. trace (f s) = trace s) \<Longrightarrow> keeps (safe ok) (modify f)"
  by (auto intro!: keeps_modify simp: safe_def)

lemma keeps_readb: "(\<And>v t. ok (Rd8 a v) t) \<Longrightarrow> keeps (safe ok) (readb b a)"
  by (auto simp: readb_def safe_def split: prod.splits intro!: keepsI)

lemma keeps_readw: "(\<And>v t. ok (Rd16 a v) t) \<Longrightarrow> keeps (safe ok) (readw b a)"
  by (auto simp: readw_def safe_def split: prod.splits intro!: keepsI)

lemma keeps_readl: "(\<And>v t. ok (Rd32 a v) t) \<Longrightarrow> keeps (safe ok) (readl b a)"
  by (auto simp: readl_def safe_def split: prod.splits intro!: keepsI)

lemma keeps_writeb: "(\<And>t. ok (Wr8 a v) t) \<Longrightarrow> keeps (safe ok) (writeb b a v)"
  by (auto simp: writeb_def safe_def intro!: keeps_modify)

lemma keeps_writew: "(\<And>t. ok (Wr16 a v) t) \<Longrightarrow> keeps (safe ok) (writew b a v)"
  by (auto simp: writew_def safe_def intro!: keeps_modify)

lemma keeps_writel: "(\<And>t. ok (Wr32 a v) t) \<Longrightarrow> keeps (safe ok) (writel b a v)"
  by (auto simp: writel_def safe_def intro!: keeps_modify)

lemmas keeps_access = keeps_readb keeps_readw keeps_readl keeps_writeb keeps_writew keeps_writel

text \<open>A word that is read and written back changed.\<close>

lemma keeps_update_l:
  assumes "\<And>v t. ok (Rd32 a v) t" and "\<And>v t. c v \<Longrightarrow> ok (Wr32 a (f v)) (Rd32 a v # t)"
    and "\<And>v. keeps (safe ok) (k v)"
  shows "keeps (safe ok) (readl b a \<bind> (\<lambda>v. onlyif (c v) (writel b a (f v)) \<bind> (\<lambda>_. k v)))"
  using assms(3)
  by (auto simp: readl_def writel_def onlyif_def safe_def assms(1,2) split: prod.splits if_splits intro!: keepsI
      dest!: keepsD [OF assms(3)])

text \<open>Accesses do not touch the rest of the state.\<close>

lemma keeps_rest:
  assumes "\<And>s d t. I (s\<lparr>dev := d, trace := t\<rparr>) = I s"
  shows "keeps I (readb b a)" "keeps I (readw b a)" "keeps I (readl b a)"
    "keeps I (writeb b a x)" "keeps I (writew b a y)" "keeps I (writel b a z)"
  using assms
  by (auto simp: readb_def readw_def readl_def writeb_def writew_def writel_def split: prod.splits
      intro!: keepsI)

end
