(* ===== verification/Touch.thy ===== *)
theory Touch
  imports Mmio
begin

text \<open>
  The six-zone touch pad, as the kernel driver and the X program share it: zones, samples, the
  evaluation of the four converter readings, and the gesture machine both implement (two
  consistent samples press a zone, it stays latched until two polls without contact). The
  machine is an interface: what is proved of it in the locale holds for each implementation.
\<close>

section \<open>Zones and samples\<close>

datatype touch_zone =
    TOUCH_NONE | TOUCH_LEFT | TOUCH_UP | TOUCH_RIGHT | TOUCH_BUTTON_LEFT | TOUCH_DOWN | TOUCH_BUTTON_RIGHT

record touch_sample =
  sample_x :: u16
  sample_y :: u16

definition small_abs :: "int \<Rightarrow> nat" where
  "small_abs v = nat (if v < 0 then - v else v)"

definition diff16 :: "u16 \<Rightarrow> u16 \<Rightarrow> int" where
  "diff16 a b = uint a - uint b"

text \<open>The two readings of an axis are complementary up to noise; the position is half their
  difference.\<close>

definition pair_ok :: "u16 \<Rightarrow> u16 \<Rightarrow> bool" where
  "pair_ok a b \<longleftrightarrow> small_abs (1023 - uint a - uint b) \<le> 64"

definition axis_value :: "u16 \<Rightarrow> u16 \<Rightarrow> u16" where
  "axis_value hi lo = word_of_int (drop_bit 1 (diff16 hi lo + 1023)) AND 1023"

lemma ten_bits: "uint (drop_bit 6 (r :: u16)) \<le> 1023"
proof -
  have "unat (drop_bit 6 r) = unat r div 64" by (simp add: unat_drop_bit)
  moreover have "unat r < 65536" using unat_u16_lt [of r] by simp
  ultimately have "unat (drop_bit 6 r) \<le> 1023" by linarith
  then show ?thesis by (metis of_nat_le_iff of_nat_numeral uint_nat)
qed

text \<open>The mask never changes the value: readings of ten bits give a position of ten bits.\<close>

lemma axis_value_exact:
  assumes "uint a \<le> 1023" and "uint b \<le> 1023"
  shows "uint (axis_value a b) = (uint a - uint b + 1023) div 2" and "uint (axis_value a b) \<le> 1023"
proof -
  let ?v = "(uint a - uint b + 1023) div 2"
  have r: "0 \<le> ?v" "?v < 1024" using assms uint_ge_0 [of a] uint_ge_0 [of b] by linarith+
  have "axis_value a b = word_of_int ?v AND mask 10"
    by (simp add: axis_value_def diff16_def drop_bit_eq_div mask_eq_exp_minus_1)
  then have "uint (axis_value a b) = take_bit 10 (take_bit 16 ?v)"
    by (simp add: take_bit_eq_mask [symmetric] unsigned_take_bit_eq unsigned_of_int)
  also have "\<dots> = ?v" using r by (simp add: take_bit_int_eq_self)
  finally show "uint (axis_value a b) = ?v" .
  then show "uint (axis_value a b) \<le> 1023" using r by simp
qed

section \<open>The gesture machine\<close>

record gesture =
  g_candidate :: touch_zone
  g_active :: touch_zone
  g_count :: nat
  g_release :: nat
  g_repeat :: nat
  g_sample :: touch_sample

definition DEBOUNCE :: nat where "DEBOUNCE = 2"
definition RELEASE_DEBOUNCE :: nat where "RELEASE_DEBOUNCE = 2"
definition REPEAT_POLLS :: nat where "REPEAT_POLLS = 3"
definition JITTER :: nat where "JITTER = 96"

definition close :: "touch_sample \<Rightarrow> touch_sample \<Rightarrow> bool" where
  "close p q \<longleftrightarrow> small_abs (diff16 (sample_x p) (sample_x q)) \<le> JITTER \<and>
     small_abs (diff16 (sample_y p) (sample_y q)) \<le> JITTER"

definition is_button :: "touch_zone \<Rightarrow> bool" where
  "is_button z \<longleftrightarrow> z = TOUCH_BUTTON_LEFT \<or> z = TOUCH_BUTTON_RIGHT"

fun gesture_step :: "(touch_sample \<Rightarrow> touch_zone) \<Rightarrow> touch_sample option \<Rightarrow> gesture \<Rightarrow> gesture" where
  "gesture_step zone_of None g =
     (let g1 = g\<lparr>g_candidate := TOUCH_NONE, g_count := 0\<rparr>
      in if g_active g = TOUCH_NONE then g1
         else if g_release g + 1 \<ge> RELEASE_DEBOUNCE
         then g1\<lparr>g_active := TOUCH_NONE, g_release := 0, g_repeat := 0\<rparr>
         else g1\<lparr>g_release := g_release g + 1\<rparr>)"
| "gesture_step zone_of (Some p) g =
     (let g1 = g\<lparr>g_release := 0\<rparr>
      in if g_active g \<noteq> TOUCH_NONE then
           (if is_button (g_active g) then g1
            else g1\<lparr>g_repeat := (if g_repeat g + 1 \<ge> REPEAT_POLLS then 0 else g_repeat g + 1)\<rparr>)
         else let same = (zone_of p = g_candidate g \<and> close p (g_sample g));
                  n = (if same then g_count g + 1 else 1)
              in if n < DEBOUNCE then g1\<lparr>g_candidate := zone_of p, g_count := n, g_sample := p\<rparr>
                 else g1\<lparr>g_candidate := TOUCH_NONE, g_count := 0, g_sample := p, g_active := zone_of p, g_repeat := 0\<rparr>)"

lemma latched: "g_active g \<noteq> TOUCH_NONE \<Longrightarrow> g_active (gesture_step zone_of (Some p) g) = g_active g"
  by (simp add: Let_def)

lemma two_misses: "g_active (gesture_step zone_of None (gesture_step zone_of None g)) = TOUCH_NONE"
  by (simp add: Let_def RELEASE_DEBOUNCE_def)

lemma two_hits:
  assumes "zone_of p = zone_of q" and "close q p" and "g_active g = TOUCH_NONE"
  shows "g_active (gesture_step zone_of (Some q) (gesture_step zone_of (Some p) g)) = zone_of q"
  using assms by (simp add: Let_def DEBOUNCE_def)

text \<open>The candidate is the zone of the last sample, and counts it once.\<close>

definition candidate_ok :: "(touch_sample \<Rightarrow> touch_zone) \<Rightarrow> touch_sample option list \<Rightarrow> gesture \<Rightarrow> bool" where
  "candidate_ok zone_of seen g \<longleftrightarrow>
     (g_active g = TOUCH_NONE \<and> g_candidate g \<noteq> TOUCH_NONE \<longrightarrow>
        g_count g = 1 \<and> zone_of (g_sample g) = g_candidate g \<and> (\<exists>xs. seen = xs @ [Some (g_sample g)])) \<and>
     (g_active g = TOUCH_NONE \<and> g_candidate g = TOUCH_NONE \<longrightarrow> g_count g = 0)"

lemma candidate_ok_step:
  assumes "candidate_ok zone_of seen g" and "\<And>p. zone_of p \<noteq> TOUCH_NONE"
  shows "candidate_ok zone_of (seen @ [o']) (gesture_step zone_of o' g)"
  using assms by (cases o') (auto simp: candidate_ok_def Let_def DEBOUNCE_def)

lemma candidate_ok_run:
  assumes "\<And>p. zone_of p \<noteq> TOUCH_NONE"
  shows "candidate_ok zone_of seen g \<Longrightarrow> candidate_ok zone_of (seen @ os) (fold (gesture_step zone_of) os g)"
proof (induction os arbitrary: seen g)
  case (Cons o' os)
  from Cons.IH [OF candidate_ok_step [OF Cons.prems assms]] show ?case by simp
qed simp

lemma press_evidence:
  assumes "candidate_ok zone_of seen g" and "g_active g = TOUCH_NONE" and "\<And>p. zone_of p \<noteq> TOUCH_NONE"
    and "g_active (gesture_step zone_of o' g) = z" and "z \<noteq> TOUCH_NONE"
  shows "\<exists>xs p q. seen @ [o'] = xs @ [Some p, Some q] \<and> zone_of p = z \<and> zone_of q = z \<and> close q p"
proof (cases o')
  case None
  with assms show ?thesis by (simp add: Let_def)
next
  case (Some q)
  with assms(2,4,5) have same: "zone_of q = g_candidate g" "close q (g_sample g)" "zone_of q = z"
    by (auto simp: Let_def DEBOUNCE_def split: if_splits)
  with assms(1-3) obtain xs where "seen = xs @ [Some (g_sample g)]" "zone_of (g_sample g) = g_candidate g"
    by (auto simp: candidate_ok_def)
  with same Some show ?thesis by auto
qed

section \<open>The interface\<close>

locale touch_machine =
  fixes step :: "touch_sample option \<Rightarrow> 's \<Rightarrow> 's" and view :: "'s \<Rightarrow> gesture" and inv :: "'s \<Rightarrow> bool"
    and zone_of :: "touch_sample \<Rightarrow> touch_zone"
  assumes inv_step: "inv s \<Longrightarrow> inv (step o' s)"
    and refines: "inv s \<Longrightarrow> view (step o' s) = gesture_step zone_of o' (view s)"
    and zoned: "zone_of p \<noteq> TOUCH_NONE"
begin

lemma run_refines: "inv s \<Longrightarrow> inv (fold step os s) \<and> view (fold step os s) = fold (gesture_step zone_of) os (view s)"
  by (induction os arbitrary: s) (simp_all add: inv_step refines)

lemma released_after_two:
  assumes "inv s"
  shows "g_active (view (step None (step None s))) = TOUCH_NONE"
  using assms two_misses by (simp add: inv_step refines del: gesture_step.simps)

lemma pressed_after_two:
  assumes "inv s" and "g_active (view s) = TOUCH_NONE" and "zone_of p = zone_of q" and "close q p"
  shows "g_active (view (step (Some q) (step (Some p) s))) = zone_of q"
  using assms two_hits [OF assms(3,4,2)] by (simp add: inv_step refines del: gesture_step.simps)

lemma latched_zone:
  assumes "inv s" and "g_active (view s) \<noteq> TOUCH_NONE"
  shows "g_active (view (step (Some p) s)) = g_active (view s)"
  using assms latched by (simp add: refines del: gesture_step.simps)

lemma press_needs_two:
  assumes "inv s" and "g_active (view s) = TOUCH_NONE" "g_candidate (view s) = TOUCH_NONE" "g_count (view s) = 0"
    and "g_active (view (fold step os s)) = TOUCH_NONE" and "g_active (view (fold step (os @ [o']) s)) \<noteq> TOUCH_NONE"
  shows "\<exists>xs p q. os @ [o'] = xs @ [Some p, Some q] \<and> zone_of p = zone_of q \<and> close q p \<and>
    g_active (view (fold step (os @ [o']) s)) = zone_of q"
proof -
  let ?g = "fold (gesture_step zone_of) os (view s)"
  have v: "view (fold step os s) = ?g" "view (fold step (os @ [o']) s) = gesture_step zone_of o' ?g"
    using run_refines [OF assms(1)] by (simp_all add: refines del: gesture_step.simps)
  have "candidate_ok zone_of [] (view s)" using assms(3,4) by (simp add: candidate_ok_def)
  from candidate_ok_run [OF zoned this, of os] have "candidate_ok zone_of os ?g" by simp
  from press_evidence [OF this _ zoned refl, of o'] assms(5,6) obtain xs p q where
    "os @ [o'] = xs @ [Some p, Some q]" "zone_of p = g_active (gesture_step zone_of o' ?g)"
    "zone_of q = g_active (gesture_step zone_of o' ?g)" "close q p"
    unfolding v by blast
  then show ?thesis unfolding v by metis
qed

end

end
