(* ===== verification/Keypad.thy ===== *)
theory Keypad
  imports Touch "HOL-Library.Signed_Division"
begin

text \<open>
  The keypad driver of the Linux port
  (\<^verbatim>\<open>src/kernel/overlay/drivers/input/keyboard/exword-keypad.c\<close>): firmware handoff, sub-LCD, touch
  converter, key matrix, pointer emulation, the scan thread and module initialisation, one
  program per function. The file's static variables are the fields of the state, named as in
  the source; delays and log messages have no effect on it. Reports to the input core are
  recorded in \<open>events\<close>, in order.
\<close>

section \<open>Constants and data\<close>

unbundle bit_operations_syntax

definition EXWORD_KEYPAD_BASE :: u32 where "EXWORD_KEYPAD_BASE = 0xa44b0000"
definition EXWORD_MSTPCR0 :: u32 where "EXWORD_MSTPCR0 = 0xa4150030"
definition EXWORD_SNAPSHOT_BASE :: u32 where "EXWORD_SNAPSHOT_BASE = 0xac252c00"
definition EXWORD_SUBLCD_DATA :: u32 where "EXWORD_SUBLCD_DATA = 0xb8000000"
definition EXWORD_SUBLCD_PRDR :: u32 where "EXWORD_SUBLCD_PRDR = 0xa405013c"
definition EXWORD_TOUCH_PLCR :: u32 where "EXWORD_TOUCH_PLCR = 0xa4050114"
definition EXWORD_TOUCH_PLDR :: u32 where "EXWORD_TOUCH_PLDR = 0xa4050134"
definition EXWORD_TOUCH_PHCR :: u32 where "EXWORD_TOUCH_PHCR = 0xa405010e"
definition EXWORD_TOUCH_PHDR :: u32 where "EXWORD_TOUCH_PHDR = 0xa405012e"
definition EXWORD_TOUCH_PGDR :: u32 where "EXWORD_TOUCH_PGDR = 0xa405012c"
definition EXWORD_TOUCH_PSELE :: u32 where "EXWORD_TOUCH_PSELE = 0xa4050156"
definition EXWORD_TOUCH_PFC_A :: u32 where "EXWORD_TOUCH_PFC_A = 0xa40501d6"
definition EXWORD_TOUCH_PGCR :: u32 where "EXWORD_TOUCH_PGCR = 0xa405010c"
definition EXWORD_TOUCH_MSELCRA :: u32 where "EXWORD_TOUCH_MSELCRA = 0xa4050180"
definition EXWORD_TOUCH_ADDRA :: u32 where "EXWORD_TOUCH_ADDRA = 0xa4610080"
definition EXWORD_TOUCH_ADDRB :: u32 where "EXWORD_TOUCH_ADDRB = 0xa4610082"
definition EXWORD_TOUCH_ADDRC :: u32 where "EXWORD_TOUCH_ADDRC = 0xa4610084"
definition EXWORD_TOUCH_ADDRD :: u32 where "EXWORD_TOUCH_ADDRD = 0xa4610086"
definition EXWORD_TOUCH_ADCSR :: u32 where "EXWORD_TOUCH_ADCSR = 0xa4610088"
definition EXWORD_TOUCH_ADCCSR :: u32 where "EXWORD_TOUCH_ADCCSR = 0xa461008a"
definition EXWORD_TOUCH_ADCUST :: u32 where "EXWORD_TOUCH_ADCUST = 0xa461008c"
definition EXWORD_TOUCH_ADPCTL :: u32 where "EXWORD_TOUCH_ADPCTL = 0xa461008e"
definition EXWORD_TOUCH_CPG_ID :: u32 where "EXWORD_TOUCH_CPG_ID = 0xa4150000"
definition EXWORD_TOUCH_MSTPCR2 :: u32 where "EXWORD_TOUCH_MSTPCR2 = 0xa4150038"
definition EXWORD_SNAPSHOT_MAGIC :: u32 where "EXWORD_SNAPSHOT_MAGIC = 0x45584b53"
definition EXWORD_TOUCH_SNAPSHOT_MAGIC :: u32 where "EXWORD_TOUCH_SNAPSHOT_MAGIC = 0x45585453"
definition EXWORD_TOUCH_SNAPSHOT_OFFSET :: u32 where "EXWORD_TOUCH_SNAPSHOT_OFFSET = 0x28"
definition EXWORD_TOUCH_VARIANT_OFFSET :: u32 where "EXWORD_TOUCH_VARIANT_OFFSET = 0x2c"
definition EXWORD_TOUCH_CAL1_OFFSET :: u32 where "EXWORD_TOUCH_CAL1_OFFSET = 0x30"

definition EXWORD_PRIME_READS :: nat where "EXWORD_PRIME_READS = 65536"
definition EXWORD_POLL_BURST :: nat where "EXWORD_POLL_BURST = 256"
definition EXWORD_MOUSE_REPEAT_SCANS :: nat where "EXWORD_MOUSE_REPEAT_SCANS = 16384"
definition EXWORD_TOUCH_POLL_SCANS :: nat where "EXWORD_TOUCH_POLL_SCANS = 4096"
definition EXWORD_TOUCH_ADC_TIMEOUT :: nat where "EXWORD_TOUCH_ADC_TIMEOUT = 8192"
definition EXWORD_TOUCH_DEBOUNCE :: nat where "EXWORD_TOUCH_DEBOUNCE = 2"
definition EXWORD_TOUCH_RELEASE_DEBOUNCE :: nat where "EXWORD_TOUCH_RELEASE_DEBOUNCE = 2"
definition EXWORD_TOUCH_REPEAT_POLLS :: nat where "EXWORD_TOUCH_REPEAT_POLLS = 3"
definition EXWORD_SUBLCD_WIDTH :: nat where "EXWORD_SUBLCD_WIDTH = 244"
definition EXWORD_SUBLCD_HEIGHT :: nat where "EXWORD_SUBLCD_HEIGHT = 99"
definition EXWORD_SUBLCD_UI_WIDTH :: nat where "EXWORD_SUBLCD_UI_WIDTH = 240"
definition EXWORD_SUBLCD_UI_HEIGHT :: nat where "EXWORD_SUBLCD_UI_HEIGHT = 96"
definition EXWORD_KEYSC_MSTP_BIT :: nat where "EXWORD_KEYSC_MSTP_BIT = 6"
definition EXWORD_TOUCH_MSTP_BIT :: nat where "EXWORD_TOUCH_MSTP_BIT = 27"
definition EXWORD_MOUSE_TOGGLE_SCAN :: nat where "EXWORD_MOUSE_TOGGLE_SCAN = 10"
definition EXWORD_MOUSE_STEP :: int where "EXWORD_MOUSE_STEP = 4"
definition EXWORD_TOUCH_MOUSE_STEP :: int where "EXWORD_TOUCH_MOUSE_STEP = 6"
definition EXWORD_SUBLCD_DC :: u8 where "EXWORD_SUBLCD_DC = 4"
definition EXWORD_POINTER_SOURCE_KEYPAD :: u8 where "EXWORD_POINTER_SOURCE_KEYPAD = 1"
definition EXWORD_POINTER_SOURCE_TOUCH :: u8 where "EXWORD_POINTER_SOURCE_TOUCH = 2"

text \<open>Key codes and buttons by name; \<open>BTN_NONE\<close> is the 0 that \<^verbatim>\<open>exword_mouse_button\<close> returns for
  keys that are not buttons.\<close>

datatype keycode =
    KEY_1 | KEY_2 | KEY_3 | KEY_4 | KEY_5 | KEY_6 | KEY_7 | KEY_8
  | KEY_9 | KEY_0 | KEY_RESERVED | KEY_LEFTSHIFT | KEY_BACKSPACE | KEY_SPACE | KEY_ENTER | KEY_LEFTCTRL
  | KEY_MINUS | KEY_EQUAL | KEY_SLASH | KEY_DOT | KEY_UP | KEY_DOWN | KEY_LEFT | KEY_RIGHT
  | KEY_Q | KEY_W | KEY_E | KEY_R | KEY_T | KEY_Y | KEY_U | KEY_I
  | KEY_O | KEY_P | KEY_A | KEY_S | KEY_D | KEY_F | KEY_G | KEY_H
  | KEY_J | KEY_K | KEY_L | KEY_Z | KEY_X | KEY_C | KEY_V | KEY_B
  | KEY_N | KEY_M

datatype button = BTN_NONE | BTN_LEFT | BTN_MIDDLE | BTN_RIGHT

datatype input_dev = Keyboard | Pointer

datatype input_code = Code keycode | Btn button | REL_X | REL_Y

datatype input_event = Report input_dev input_code int | Sync input_dev

text \<open>Calls to the clock framework, the input core and the scheduler during initialisation.\<close>

datatype kernel_call =
    Clk_enabled | Clk_disable_unprepare | Clk_got | Clk_put
  | Allocated input_dev | Free_device input_dev | Capability input_dev input_code
  | Registered input_dev | Unregister_device input_dev | Thread_started

text \<open>What those calls answer: 0, or the negative error code.\<close>

record init_env =
  clk_get_sys :: int
  clk_prepare_enable :: int
  input_allocate_device :: "input_dev \<Rightarrow> bool"
  input_register_device :: "input_dev \<Rightarrow> int"
  kthread_run :: int

record exword_key =
  scan :: nat
  keycode :: keycode
  down :: bool

definition key_table :: "(nat \<times> keycode) list" where
  "key_table = [
     (21, KEY_1), (31, KEY_2), (41, KEY_3), (51, KEY_4), (61, KEY_5),
     (22, KEY_6), (71, KEY_7), (81, KEY_8), (83, KEY_9), (84, KEY_0),
     (10, KEY_RESERVED), (53, KEY_LEFTSHIFT), (58, KEY_BACKSPACE), (48, KEY_SPACE), (76, KEY_ENTER),
     (75, KEY_LEFTCTRL), (73, KEY_MINUS), (64, KEY_EQUAL), (74, KEY_SLASH), (68, KEY_DOT),
     (77, KEY_UP), (86, KEY_DOWN), (87, KEY_LEFT), (88, KEY_RIGHT), (23, KEY_Q),
     (33, KEY_W), (24, KEY_E), (25, KEY_R), (35, KEY_T), (57, KEY_Y),
     (26, KEY_U), (36, KEY_I), (27, KEY_O), (28, KEY_P), (43, KEY_A),
     (34, KEY_S), (44, KEY_D), (45, KEY_F), (67, KEY_G), (66, KEY_H),
     (46, KEY_J), (37, KEY_K), (38, KEY_L), (63, KEY_Z), (54, KEY_X),
     (55, KEY_C), (65, KEY_V), (85, KEY_B), (56, KEY_N), (47, KEY_M)]"

record exword_touch_calibration =
  x_origin :: int
  y_origin :: int
  x_span :: int
  y_span :: int

record 'w keypad = "'w machine" +
  exword_keys :: "exword_key list"
  exword_raw :: "u16 list"
  exword_enter_press_seen :: bool
  exword_mouse_mode :: bool
  exword_mouse_repeat_scans :: nat
  exword_pointer_button_sources :: "u8 list"
  exword_touch_cal :: exword_touch_calibration
  exword_touch_cal_valid :: bool
  exword_touch_available :: bool
  exword_touch_timeout_reported :: bool
  exword_touch_enabled :: bool
  exword_touch_prepared :: bool
  exword_touch_gpio_prepared :: bool
  exword_sublcd_supported :: bool
  exword_sublcd_enabled :: bool
  exword_touch_first_sample_reported :: bool
  exword_touch_poll_scans :: nat
  exword_touch_gesture :: gesture       \<comment> \<open>candidate, active, their counters and the last sample\<close>
  exword_sublcd_next_row :: nat
  exword_sublcd_finished :: bool
  exword_subpad_mode :: int
  applied_mode :: int                   \<comment> \<open>static in \<^verbatim>\<open>exword_service_subpad_mode\<close>\<close>
  burst :: nat                          \<comment> \<open>local of \<^verbatim>\<open>exword_scan_thread\<close>\<close>
  events :: "input_event list"
  keysc_clk :: bool                     \<comment> \<open>pointers that are not \<^verbatim>\<open>NULL\<close>\<close>
  have_input :: bool
  have_pointer :: bool
  kcalls :: "kernel_call list"

type_synonym ('w, 'a) kp = "('w keypad, 'a) state"

definition input_report :: "input_event list \<Rightarrow> ('w, unit) kp" where
  "input_report es = modify (\<lambda>s. s\<lparr>events := events s @ es\<rparr>)"

section \<open>Firmware handoff\<close>

definition exword_snapshot_reg :: "'w bus \<Rightarrow> nat \<Rightarrow> ('w, u16) kp" where
  "exword_snapshot_reg b n = readw b (EXWORD_SNAPSHOT_BASE + 4 + of_nat n * 2)"

definition exword_touch_snapshot_long :: "'w bus \<Rightarrow> u32 \<Rightarrow> ('w, int) kp" where
  "exword_touch_snapshot_long b off = do { v \<leftarrow> readl b (EXWORD_SNAPSHOT_BASE + off); ret (sint v) }"

definition exword_touch_calibration_sane :: "exword_touch_calibration \<Rightarrow> bool" where
  "exword_touch_calibration_sane cal \<longleftrightarrow>
     \<not> (x_origin cal < 0 \<or> x_origin cal > 1023 \<or> y_origin cal < 0 \<or> y_origin cal > 1023) \<and>
     \<not> (x_span cal < 128 \<or> x_span cal > 8192) \<and>
     \<not> (y_span cal < 128 \<or> y_span cal > 8192)"

definition exword_touch_read_calibration :: "'w bus \<Rightarrow> u32 \<Rightarrow> ('w, exword_touch_calibration) kp" where
  "exword_touch_read_calibration b off = do {
     xo \<leftarrow> exword_touch_snapshot_long b off;
     yo \<leftarrow> exword_touch_snapshot_long b (off + 4);
     xs \<leftarrow> exword_touch_snapshot_long b (off + 8);
     ys \<leftarrow> exword_touch_snapshot_long b (off + 12);
     ret \<lparr>x_origin = xo, y_origin = yo, x_span = xs, y_span = ys\<rparr> }"

definition exword_touch_load_firmware_setup :: "'w bus \<Rightarrow> ('w, unit) kp" where
  "exword_touch_load_firmware_setup b = do {
     magic \<leftarrow> readl b (EXWORD_SNAPSHOT_BASE + EXWORD_TOUCH_SNAPSHOT_OFFSET);
     if magic \<noteq> EXWORD_TOUCH_SNAPSHOT_MAGIC
     then modify (\<lambda>s. s\<lparr>exword_touch_cal_valid := False, exword_touch_available := False,
                        exword_sublcd_supported := False\<rparr>)
     else do {
       variant \<leftarrow> readl b (EXWORD_SNAPSHOT_BASE + EXWORD_TOUCH_VARIANT_OFFSET);
       cal \<leftarrow> exword_touch_read_calibration b EXWORD_TOUCH_CAL1_OFFSET;
       modify (\<lambda>s. s\<lparr>exword_touch_cal := cal, exword_touch_cal_valid := exword_touch_calibration_sane cal,
         exword_sublcd_supported := (variant = 1),
         exword_touch_available := (variant = 1 \<and> exword_touch_calibration_sane cal)\<rparr>) } }"

fun snapshot_regs :: "'w bus \<Rightarrow> nat list \<Rightarrow> ('w, unit) kp" where
  "snapshot_regs b [] = ret ()"
| "snapshot_regs b (n # ns) = do { _ \<leftarrow> exword_snapshot_reg b n; snapshot_regs b ns }"

definition exword_report_firmware_setup :: "'w bus \<Rightarrow> ('w, unit) kp" where
  "exword_report_firmware_setup b = do {
     magic \<leftarrow> readl b EXWORD_SNAPSHOT_BASE;
     if magic \<noteq> EXWORD_SNAPSHOT_MAGIC then ret ()
     else do {
       snapshot_regs b [0..<15];
       _ \<leftarrow> readl b (EXWORD_SNAPSHOT_BASE + 0x24);
       ret () } }"

section \<open>Secondary LCD\<close>

definition exword_sublcd_command :: "'w bus \<Rightarrow> u8 \<Rightarrow> ('w, unit) kp" where
  "exword_sublcd_command b command = do {
     prdr \<leftarrow> readb b EXWORD_SUBLCD_PRDR;
     writeb b EXWORD_SUBLCD_PRDR (prdr AND NOT EXWORD_SUBLCD_DC);
     writew b EXWORD_SUBLCD_DATA (ucast command);
     writeb b EXWORD_SUBLCD_PRDR (prdr OR EXWORD_SUBLCD_DC) }"

definition exword_sublcd_data :: "'w bus \<Rightarrow> u16 \<Rightarrow> ('w, unit) kp" where
  "exword_sublcd_data b v = writew b EXWORD_SUBLCD_DATA v"

definition exword_sublcd_set_row :: "'w bus \<Rightarrow> nat \<Rightarrow> ('w, unit) kp" where
  "exword_sublcd_set_row b y = do {
     exword_sublcd_command b 0x21; exword_sublcd_data b 6;
     exword_sublcd_command b 0x52; exword_sublcd_data b 6;
     exword_sublcd_command b 0x53; exword_sublcd_data b (of_nat (6 + EXWORD_SUBLCD_WIDTH - 1));
     exword_sublcd_command b 0x20; exword_sublcd_data b (of_nat y);
     exword_sublcd_command b 0x50; exword_sublcd_data b (of_nat y);
     exword_sublcd_command b 0x51; exword_sublcd_data b (of_nat y);
     exword_sublcd_command b 0x22 }"

definition exword_sublcd_arrow_pixel :: "touch_zone \<Rightarrow> int \<Rightarrow> int \<Rightarrow> bool" where
  "exword_sublcd_arrow_pixel zone x y =
     (let ax = x - 40; ay = y - 24 in
      case zone of
        TOUCH_LEFT \<Rightarrow> (x \<ge> 35 \<and> x \<le> 60 \<and> small_abs ay \<le> 3) \<or>
                     (x \<ge> 17 \<and> x \<le> 40 \<and> small_abs ay \<le> nat (x - 17) div 2)
      | TOUCH_UP \<Rightarrow> (y \<ge> 22 \<and> y \<le> 40 \<and> small_abs ax \<le> 3) \<or>
                   (y \<ge> 7 \<and> y \<le> 28 \<and> small_abs ax \<le> nat (y - 7) div 2)
      | TOUCH_RIGHT \<Rightarrow> (x \<ge> 20 \<and> x \<le> 45 \<and> small_abs ay \<le> 3) \<or>
                      (x \<ge> 40 \<and> x \<le> 63 \<and> small_abs ay \<le> nat (63 - x) div 2)
      | TOUCH_DOWN \<Rightarrow> (y \<ge> 8 \<and> y \<le> 26 \<and> small_abs ax \<le> 3) \<or>
                     (y \<ge> 20 \<and> y \<le> 41 \<and> small_abs ax \<le> nat (41 - y) div 2)
      | _ \<Rightarrow> False)"

definition letter_l :: "u8 list" where "letter_l = [0x10, 0x10, 0x10, 0x10, 0x10, 0x10, 0x1f]"
definition letter_r :: "u8 list" where "letter_r = [0x1e, 0x11, 0x11, 0x1e, 0x14, 0x12, 0x11]"

text \<open>\<open>None\<close> would be a read outside the glyph.\<close>

definition glyph_bit :: "u8 list \<Rightarrow> nat \<Rightarrow> nat \<Rightarrow> bool option" where
  "glyph_bit rows row column =
     (if row < length rows \<and> column \<le> 4 then Some (bit (rows ! row) (4 - column)) else None)"

definition exword_sublcd_letter_pixel :: "touch_zone \<Rightarrow> int \<Rightarrow> int \<Rightarrow> bool option" where
  "exword_sublcd_letter_pixel zone x y =
     (if zone \<noteq> TOUCH_BUTTON_LEFT \<and> zone \<noteq> TOUCH_BUTTON_RIGHT then Some False
      else if x < 30 \<or> x \<ge> 50 \<or> y < 10 \<or> y \<ge> 38 then Some False
      else glyph_bit (if zone = TOUCH_BUTTON_LEFT then letter_l else letter_r)
             (nat (y - 10) div 4) (nat (x - 30) div 4))"

definition pad_zone :: "nat \<Rightarrow> nat \<Rightarrow> touch_zone" where
  "pad_zone x y =
     (if x < 80 then (if y < 48 then TOUCH_LEFT else TOUCH_BUTTON_LEFT)
      else if x < 160 then (if y < 48 then TOUCH_UP else TOUCH_DOWN)
      else (if y < 48 then TOUCH_RIGHT else TOUCH_BUTTON_RIGHT))"

definition exword_sublcd_pad_pixel :: "nat \<Rightarrow> nat \<Rightarrow> u16 option" where
  "exword_sublcd_pad_pixel x y =
     (if x \<ge> EXWORD_SUBLCD_UI_WIDTH \<or> y \<ge> EXWORD_SUBLCD_UI_HEIGHT then Some 0x0000
      else
        let zone = pad_zone x y;
            local_x = (if x < 80 then x else if x < 160 then x - 80 else x - 160);
            local_y = (if y < 48 then y else y - 48)
        in if local_x < 2 \<or> local_x \<ge> 78 \<or> local_y < 2 \<or> local_y \<ge> 46 then Some 0xbdf7
           else let background = (if zone = TOUCH_BUTTON_LEFT \<or> zone = TOUCH_BUTTON_RIGHT then 0x2448 else 0x194f)
                in if exword_sublcd_arrow_pixel zone (int local_x) (int local_y) then Some 0xffff
                   else map_option (\<lambda>l. if l then 0xffff else background)
                          (exword_sublcd_letter_pixel zone (int local_x) (int local_y)))"

fun draw_pixels :: "'w bus \<Rightarrow> nat \<Rightarrow> nat list \<Rightarrow> ('w, unit) kp" where
  "draw_pixels b y [] = ret ()"
| "draw_pixels b y (x # xs) = do {
     exword_sublcd_data b (the (exword_sublcd_pad_pixel x y)); draw_pixels b y xs }"

definition exword_sublcd_draw_next_row :: "'w bus \<Rightarrow> ('w, bool) kp" where
  "exword_sublcd_draw_next_row b = do {
     s \<leftarrow> gets id;
     let y = exword_sublcd_next_row s;
     if exword_sublcd_finished s \<or> \<not> exword_sublcd_enabled s \<or> \<not> exword_sublcd_supported s then ret False
     else do {
       exword_sublcd_set_row b y;
       draw_pixels b y [0..<EXWORD_SUBLCD_WIDTH];
       modify (\<lambda>s. s\<lparr>exword_sublcd_next_row := y + 1\<rparr>);
       onlyif (y + 1 = EXWORD_SUBLCD_HEIGHT) (modify (\<lambda>s. s\<lparr>exword_sublcd_finished := True\<rparr>));
       ret True } }"

section \<open>Touch converter\<close>

definition exword_touch_disable :: "('w, unit) kp" where
  "exword_touch_disable = modify (\<lambda>s. s\<lparr>exword_touch_available := False, exword_touch_timeout_reported := True\<rparr>)"

definition exword_touch_open_clock :: "'w bus \<Rightarrow> ('w, bool) kp" where
  "exword_touch_open_clock b = do {
     mstp2 \<leftarrow> readl b EXWORD_TOUCH_MSTPCR2;
     onlyif (bit mstp2 EXWORD_TOUCH_MSTP_BIT)
       (writel b EXWORD_TOUCH_MSTPCR2 (unset_bit EXWORD_TOUCH_MSTP_BIT mstp2));
     mstp2 \<leftarrow> readl b EXWORD_TOUCH_MSTPCR2;
     if bit mstp2 EXWORD_TOUCH_MSTP_BIT then do { exword_touch_disable; ret False } else ret True }"

text \<open>Waiting for a busy bit to clear, with a bounded number of reads.\<close>

fun touch_wait :: "'w bus \<Rightarrow> u32 \<Rightarrow> nat \<Rightarrow> ('w, bool) kp" where
  "touch_wait b a 0 = do { exword_touch_disable; ret False }"
| "touch_wait b a (Suc n) = do {
     v \<leftarrow> readw b a; if v AND 0x2000 = 0 then ret True else touch_wait b a n }"

definition exword_touch_wait_adcsr :: "'w bus \<Rightarrow> ('w, bool) kp" where
  "exword_touch_wait_adcsr b = touch_wait b EXWORD_TOUCH_ADCSR EXWORD_TOUCH_ADC_TIMEOUT"

definition exword_touch_wait_adccsr :: "'w bus \<Rightarrow> ('w, bool) kp" where
  "exword_touch_wait_adccsr b = touch_wait b EXWORD_TOUCH_ADCCSR EXWORD_TOUCH_ADC_TIMEOUT"

definition exword_touch_base_pfc :: "'w bus \<Rightarrow> ('w, unit) kp" where
  "exword_touch_base_pfc b = do {
     writeb b EXWORD_TOUCH_PGDR 0;
     v \<leftarrow> readw b EXWORD_TOUCH_PHCR; writew b EXWORD_TOUCH_PHCR ((v AND 0xfcff) OR 0x0100);
     v \<leftarrow> readw b EXWORD_TOUCH_PLCR; writew b EXWORD_TOUCH_PLCR (v AND NOT 0x000c);
     v \<leftarrow> readw b EXWORD_TOUCH_PSELE; writew b EXWORD_TOUCH_PSELE (v AND NOT 0x0c00) }"

definition exword_touch_rest :: "'w bus \<Rightarrow> bool \<Rightarrow> ('w, bool) kp" where
  "exword_touch_rest b high = do {
     ok \<leftarrow> exword_touch_wait_adccsr b;
     if \<not> ok then ret False
     else do {
       writew b EXWORD_TOUCH_ADCUST 0;
       v \<leftarrow> readw b EXWORD_TOUCH_ADCSR; writew b EXWORD_TOUCH_ADCSR (v AND NOT 0x2000);
       writew b EXWORD_TOUCH_PGCR 0xaaaa;
       writeb b EXWORD_TOUCH_PGDR 0;
       phdr \<leftarrow> readb b EXWORD_TOUCH_PHDR;
       writeb b EXWORD_TOUCH_PHDR (if high then phdr OR 0x10 else phdr AND NOT 0x10);
       ret True } }"

fun pen_samples :: "'w bus \<Rightarrow> nat \<Rightarrow> ('w, bool) kp" where
  "pen_samples b 0 = ret True"
| "pen_samples b (Suc n) = do {
     v \<leftarrow> readb b EXWORD_TOUCH_PLDR; if bit v 1 then ret False else pen_samples b n }"

definition exword_touch_read_pen_level :: "'w bus \<Rightarrow> ('w, bool) kp" where
  "exword_touch_read_pen_level b = do {
     v \<leftarrow> readw b EXWORD_TOUCH_PLCR; writew b EXWORD_TOUCH_PLCR ((v AND NOT 0x000c) OR 0x0008);
     contact \<leftarrow> pen_samples b 5;
     exword_touch_base_pfc b;
     ret contact }"

definition exword_touch_prepare_hardware :: "'w bus \<Rightarrow> ('w, bool) kp" where
  "exword_touch_prepare_hardware b = do {
     av \<leftarrow> gets exword_touch_available;
     if \<not> av then ret False
     else do {
       ok \<leftarrow> exword_touch_open_clock b;
       if \<not> ok then ret False
       else do {
         exword_touch_base_pfc b;
         ok \<leftarrow> exword_touch_rest b True;
         if \<not> ok then ret False
         else do { _ \<leftarrow> exword_touch_read_pen_level b; ret True } } } }"

definition exword_touch_prepare_gpio_hardware :: "'w bus \<Rightarrow> ('w, bool) kp" where
  "exword_touch_prepare_gpio_hardware b = do {
     sup \<leftarrow> gets exword_sublcd_supported;
     if \<not> sup then ret False
     else do {
       exword_touch_base_pfc b;
       writew b EXWORD_TOUCH_PGCR 0xaaaa;
       writeb b EXWORD_TOUCH_PGDR 0;
       phdr \<leftarrow> readb b EXWORD_TOUCH_PHDR; writeb b EXWORD_TOUCH_PHDR (phdr OR 0x10);
       _ \<leftarrow> exword_touch_read_pen_level b;
       ret True } }"

definition exword_touch_pen_down :: "'w bus \<Rightarrow> ('w, bool) kp" where
  "exword_touch_pen_down b = exword_touch_read_pen_level b"

text \<open>The evaluation of the four readings, in the order they are read.\<close>

definition adc_sample :: "u16 \<Rightarrow> u16 \<Rightarrow> u16 \<Rightarrow> u16 \<Rightarrow> touch_sample option" where
  "adc_sample r0 r1 r2 r3 =
     (if pair_ok r0 r1 \<and> pair_ok r2 r3 then Some \<lparr>sample_x = axis_value r3 r2, sample_y = axis_value r1 r0\<rparr>
      else None)"

definition exword_touch_convert :: "'w bus \<Rightarrow> ('w, bool) kp" where
  "exword_touch_convert b = do {
     v \<leftarrow> readw b EXWORD_TOUCH_PFC_A; writew b EXWORD_TOUCH_PFC_A ((v AND 0x0fff) OR 0x5000);
     writew b EXWORD_TOUCH_PGCR 0;
     v \<leftarrow> readw b EXWORD_TOUCH_MSELCRA; writew b EXWORD_TOUCH_MSELCRA (v AND 0xfcff);
     ok \<leftarrow> exword_touch_wait_adcsr b;
     if \<not> ok then ret False
     else do {
       writew b EXWORD_TOUCH_ADCUST 0x8000;
       id \<leftarrow> readl b EXWORD_TOUCH_CPG_ID;
       let base = (if id AND 0xf = 3 then 0x01cf else 0x02cf);
       writew b EXWORD_TOUCH_ADCCSR base;
       writew b EXWORD_TOUCH_ADPCTL 0x8000;
       writew b EXWORD_TOUCH_ADCCSR (base OR 0x2000);
       exword_touch_wait_adccsr b } }"

definition exword_touch_read_adc :: "'w bus \<Rightarrow> ('w, touch_sample option) kp" where
  "exword_touch_read_adc b = do {
     ok \<leftarrow> exword_touch_open_clock b;
     if \<not> ok then ret None
     else do {
     ok \<leftarrow> exword_touch_rest b False;
     if \<not> ok then ret None
     else do {
     ok \<leftarrow> exword_touch_convert b;
     if \<not> ok then ret None
     else do {
       r0 \<leftarrow> readw b EXWORD_TOUCH_ADDRB;
       r1 \<leftarrow> readw b EXWORD_TOUCH_ADDRA;
       r2 \<leftarrow> readw b EXWORD_TOUCH_ADDRD;
       r3 \<leftarrow> readw b EXWORD_TOUCH_ADDRC;
       v \<leftarrow> readw b EXWORD_TOUCH_ADCCSR; writew b EXWORD_TOUCH_ADCCSR (v AND NOT 0xc000);
       ok \<leftarrow> exword_touch_rest b True;
       ret (if ok then adc_sample (drop_bit 6 r0) (drop_bit 6 r1) (drop_bit 6 r2) (drop_bit 6 r3) else None) } } } }"

definition exword_touch_read_sample :: "'w bus \<Rightarrow> ('w, touch_sample option) kp" where
  "exword_touch_read_sample b = do {
     av \<leftarrow> gets exword_touch_available;
     if \<not> av then ret None
     else do {
       pen \<leftarrow> exword_touch_pen_down b;
       if pen then exword_touch_read_adc b else ret None } }"

section \<open>Key matrix\<close>

fun read_words :: "'w bus \<Rightarrow> nat list \<Rightarrow> ('w, u16 list) kp" where
  "read_words b [] = ret []"
| "read_words b (i # is) = do {
     v \<leftarrow> readw b (EXWORD_KEYPAD_BASE + of_nat i * 2); vs \<leftarrow> read_words b is; ret (v # vs) }"

definition exword_read_state :: "'w bus \<Rightarrow> ('w, u16 list) kp" where
  "exword_read_state b = read_words b [0..<6]"

text \<open>Scan codes are \<^verbatim>\<open>(column + 1) * 10 + row\<close>; two rows share a word.\<close>

definition exword_key_down :: "u16 list \<Rightarrow> nat \<Rightarrow> bool" where
  "exword_key_down st sc =
     (let row = sc mod 10; column = sc div 10 - 1; w = row div 2
      in bit (st ! w) (column + 8 * (row mod 2)))"

fun prime_reads :: "'w bus \<Rightarrow> nat \<Rightarrow> u16 list \<Rightarrow> ('w, u16 list) kp" where
  "prime_reads b 0 sample = ret sample"
| "prime_reads b (Suc n) sample = do { sample \<leftarrow> exword_read_state b; prime_reads b n sample }"

definition exword_prime_scanner :: "'w bus \<Rightarrow> ('w, unit) kp" where
  "exword_prime_scanner b = do {
     sample \<leftarrow> prime_reads b EXWORD_PRIME_READS [];
     modify (\<lambda>s. s\<lparr>exword_raw := sample,
       exword_keys := map (\<lambda>k. k\<lparr>down := exword_key_down sample (scan k)\<rparr>) (exword_keys s)\<rparr>) }"

definition exword_report_enter_tap :: "('w, unit) kp" where
  "exword_report_enter_tap = input_report
     [Report Keyboard (Code KEY_ENTER) 1, Sync Keyboard, Report Keyboard (Code KEY_ENTER) 0, Sync Keyboard]"

section \<open>Pointer\<close>

definition exword_mouse_action_scan :: "nat \<Rightarrow> bool" where
  "exword_mouse_action_scan sc \<longleftrightarrow> sc \<in> {64, 75, 76, 77, 86, 87, 88}"

definition exword_mouse_button :: "nat \<Rightarrow> button" where
  "exword_mouse_button sc =
     (if sc = 76 then BTN_LEFT else if sc = 64 then BTN_MIDDLE else if sc = 75 then BTN_RIGHT else BTN_NONE)"

fun exword_pointer_button_index :: "button \<Rightarrow> int" where
  "exword_pointer_button_index BTN_LEFT = 0"
| "exword_pointer_button_index BTN_MIDDLE = 1"
| "exword_pointer_button_index BTN_RIGHT = 2"
| "exword_pointer_button_index BTN_NONE = -1"

definition exword_set_pointer_button :: "button \<Rightarrow> u8 \<Rightarrow> bool \<Rightarrow> ('w, bool) kp" where
  "exword_set_pointer_button button source dn = do {
     s \<leftarrow> gets id;
     let index = exword_pointer_button_index button;
     if index < 0 then ret False
     else do {
       let i = nat index;
       let previous = exword_pointer_button_sources s ! i;
       let current = (if dn then previous OR source else previous AND NOT source);
       modify (\<lambda>s. s\<lparr>exword_pointer_button_sources := (exword_pointer_button_sources s)[i := current]\<rparr>);
       if (previous \<noteq> 0) = (current \<noteq> 0) then ret False
       else do {
         input_report [Report Pointer (Btn button) (if current \<noteq> 0 then 1 else 0), Sync Pointer];
         ret True } } }"

definition exword_release_keypad_mouse_buttons :: "('w, unit) kp" where
  "exword_release_keypad_mouse_buttons = do {
     _ \<leftarrow> exword_set_pointer_button BTN_LEFT EXWORD_POINTER_SOURCE_KEYPAD False;
     _ \<leftarrow> exword_set_pointer_button BTN_MIDDLE EXWORD_POINTER_SOURCE_KEYPAD False;
     _ \<leftarrow> exword_set_pointer_button BTN_RIGHT EXWORD_POINTER_SOURCE_KEYPAD False;
     ret () }"

definition exword_release_mouse_keys_from_keyboard :: "('w, unit) kp" where
  "exword_release_mouse_keys_from_keyboard = input_report
     (map (\<lambda>k. Report Keyboard (Code k) 0)
        [KEY_UP, KEY_DOWN, KEY_LEFT, KEY_RIGHT, KEY_ENTER, KEY_EQUAL, KEY_LEFTCTRL] @ [Sync Keyboard])"

definition exword_toggle_mouse_mode :: "('w, unit) kp" where
  "exword_toggle_mouse_mode = do {
     modify (\<lambda>s. s\<lparr>exword_mouse_mode := \<not> exword_mouse_mode s, exword_mouse_repeat_scans := 0\<rparr>);
     mode \<leftarrow> gets exword_mouse_mode;
     if mode then exword_release_mouse_keys_from_keyboard else exword_release_keypad_mouse_buttons }"

definition report_rel :: "int \<Rightarrow> int \<Rightarrow> ('w, unit) kp" where
  "report_rel dx dy = input_report [Report Pointer REL_X dx, Report Pointer REL_Y dy, Sync Pointer]"

definition exword_report_pointer_motion :: "u16 list \<Rightarrow> ('w, bool) kp" where
  "exword_report_pointer_motion st =
     (let dx = (if exword_key_down st 87 then - EXWORD_MOUSE_STEP else 0) +
               (if exword_key_down st 88 then EXWORD_MOUSE_STEP else 0);
          dy = (if exword_key_down st 77 then - EXWORD_MOUSE_STEP else 0) +
               (if exword_key_down st 86 then EXWORD_MOUSE_STEP else 0)
      in if dx = 0 \<and> dy = 0 then ret False else do { report_rel dx dy; ret True })"

section \<open>Touch gestures\<close>

definition exword_touch_coordinate :: "bool \<Rightarrow> u16 \<Rightarrow> int \<Rightarrow> int \<Rightarrow> nat \<Rightarrow> int" where
  "exword_touch_coordinate valid raw origin span limit =
     (if \<not> valid then (uint raw * int limit) div 1024
      else let v = (uint raw - origin) * 256 sdiv span
           in if v < 0 then 0 else if v \<ge> int limit then int limit - 1 else v)"

definition zone_at :: "int \<Rightarrow> int \<Rightarrow> touch_zone" where
  "zone_at x y =
     (if y < 48 then (if x < 80 then TOUCH_LEFT else if x < 160 then TOUCH_UP else TOUCH_RIGHT)
      else (if x < 80 then TOUCH_BUTTON_LEFT else if x < 160 then TOUCH_DOWN else TOUCH_BUTTON_RIGHT))"

definition exword_touch_sample_zone :: "bool \<Rightarrow> exword_touch_calibration \<Rightarrow> touch_sample \<Rightarrow> touch_zone" where
  "exword_touch_sample_zone valid cal p = zone_at
     (exword_touch_coordinate valid (sample_x p) (x_origin cal) (x_span cal) EXWORD_SUBLCD_UI_WIDTH)
     (exword_touch_coordinate valid (sample_y p) (y_origin cal) (y_span cal) EXWORD_SUBLCD_UI_HEIGHT)"

definition exword_touch_report_motion :: "touch_zone \<Rightarrow> ('w, bool) kp" where
  "exword_touch_report_motion zone =
     (case zone of
        TOUCH_LEFT \<Rightarrow> do { report_rel (- EXWORD_TOUCH_MOUSE_STEP) 0; ret True }
      | TOUCH_UP \<Rightarrow> do { report_rel 0 (- EXWORD_TOUCH_MOUSE_STEP); ret True }
      | TOUCH_RIGHT \<Rightarrow> do { report_rel EXWORD_TOUCH_MOUSE_STEP 0; ret True }
      | TOUCH_DOWN \<Rightarrow> do { report_rel 0 EXWORD_TOUCH_MOUSE_STEP; ret True }
      | _ \<Rightarrow> ret False)"

definition exword_touch_activate_zone :: "touch_zone \<Rightarrow> ('w, bool) kp" where
  "exword_touch_activate_zone zone =
     (if zone = TOUCH_BUTTON_LEFT then exword_set_pointer_button BTN_LEFT EXWORD_POINTER_SOURCE_TOUCH True
      else if zone = TOUCH_BUTTON_RIGHT then exword_set_pointer_button BTN_RIGHT EXWORD_POINTER_SOURCE_TOUCH True
      else exword_touch_report_motion zone)"

definition set_gesture :: "(gesture \<Rightarrow> gesture) \<Rightarrow> ('w, unit) kp" where
  "set_gesture f = modify (\<lambda>s. s\<lparr>exword_touch_gesture := f (exword_touch_gesture s)\<rparr>)"

definition exword_touch_release_active :: "('w, bool) kp" where
  "exword_touch_release_active = do {
     g \<leftarrow> gets exword_touch_gesture;
     activity \<leftarrow> (if g_active g = TOUCH_BUTTON_LEFT
        then exword_set_pointer_button BTN_LEFT EXWORD_POINTER_SOURCE_TOUCH False
        else if g_active g = TOUCH_BUTTON_RIGHT
        then exword_set_pointer_button BTN_RIGHT EXWORD_POINTER_SOURCE_TOUCH False
        else ret False);
     set_gesture (\<lambda>g. g\<lparr>g_active := TOUCH_NONE, g_repeat := 0\<rparr>);
     ret activity }"

definition subpad_request :: "int \<Rightarrow> int" where
  "subpad_request requested = (if requested < 0 then 0 else requested mod 8)"

definition exword_service_subpad_mode :: "'w bus \<Rightarrow> ('w, unit) kp" where
  "exword_service_subpad_mode b = do {
     s \<leftarrow> gets id;
     let mode = subpad_request (exword_subpad_mode s);
     let want_lcd = bit mode 0;
     let want_touch = bit mode 1;
     let want_pen_probe = bit mode 2;
     if mode = applied_mode s then ret ()
     else do {
       onlyif (\<not> want_touch \<and> exword_touch_enabled s) (do {
         modify (\<lambda>s. s\<lparr>exword_touch_enabled := False\<rparr>);
         _ \<leftarrow> exword_touch_release_active;
         modify (\<lambda>s. s\<lparr>exword_touch_poll_scans := 0\<rparr>);
         set_gesture (\<lambda>g. g\<lparr>g_candidate := TOUCH_NONE, g_count := 0, g_release := 0, g_repeat := 0\<rparr>) });
       onlyif (want_lcd \<and> \<not> exword_sublcd_enabled s)
         (modify (\<lambda>s. s\<lparr>exword_sublcd_next_row := 0, exword_sublcd_finished := False\<rparr>));
       modify (\<lambda>s. s\<lparr>exword_sublcd_enabled := (want_lcd \<and> exword_sublcd_supported s)\<rparr>);
       onlyif (want_pen_probe \<and> \<not> exword_touch_gpio_prepared s) (do {
         modify (\<lambda>s. s\<lparr>exword_touch_gpio_prepared := True\<rparr>);
         _ \<leftarrow> exword_touch_prepare_gpio_hardware b;
         ret () });
       onlyif want_touch (do {
         prepared \<leftarrow> gets exword_touch_prepared;
         if \<not> prepared then do {
           modify (\<lambda>s. s\<lparr>exword_touch_prepared := True\<rparr>);
           ok \<leftarrow> exword_touch_prepare_hardware b;
           modify (\<lambda>s. s\<lparr>exword_touch_enabled := ok\<rparr>);
           onlyif ok (modify (\<lambda>s. s\<lparr>exword_touch_gpio_prepared := True\<rparr>)) }
         else modify (\<lambda>s. s\<lparr>exword_touch_enabled := exword_touch_available s\<rparr>) });
       modify (\<lambda>s. s\<lparr>applied_mode := mode\<rparr>) } }"

text \<open>The part of \<^verbatim>\<open>exword_touch_poll\<close> after the sample was read.\<close>

definition touch_missed :: "('w, bool) kp" where
  "touch_missed = do {
     set_gesture (\<lambda>g. g\<lparr>g_candidate := TOUCH_NONE, g_count := 0\<rparr>);
     g \<leftarrow> gets exword_touch_gesture;
     if g_active g \<noteq> TOUCH_NONE then do {
       set_gesture (\<lambda>g. g\<lparr>g_release := g_release g + 1\<rparr>);
       if g_release g + 1 \<ge> EXWORD_TOUCH_RELEASE_DEBOUNCE then do {
         set_gesture (\<lambda>g. g\<lparr>g_release := 0\<rparr>);
         exword_touch_release_active }
       else ret False }
     else ret False }"

definition touch_held :: "touch_zone \<Rightarrow> ('w, bool) kp" where
  "touch_held active =
     (if active \<noteq> TOUCH_BUTTON_LEFT \<and> active \<noteq> TOUCH_BUTTON_RIGHT then do {
        set_gesture (\<lambda>g. g\<lparr>g_repeat := g_repeat g + 1\<rparr>);
        g \<leftarrow> gets exword_touch_gesture;
        if g_repeat g \<ge> EXWORD_TOUCH_REPEAT_POLLS then do {
          set_gesture (\<lambda>g. g\<lparr>g_repeat := 0\<rparr>);
          exword_touch_report_motion active }
        else ret False }
      else ret False)"

definition touch_candidate :: "touch_zone \<Rightarrow> touch_sample \<Rightarrow> ('w, bool) kp" where
  "touch_candidate zone p = do {
     g \<leftarrow> gets exword_touch_gesture;
     (if zone \<noteq> g_candidate g \<or> small_abs (diff16 (sample_x p) (sample_x (g_sample g))) > 96 \<or>
        small_abs (diff16 (sample_y p) (sample_y (g_sample g))) > 96
     then set_gesture (\<lambda>g. g\<lparr>g_candidate := zone, g_count := 1\<rparr>)
     else set_gesture (\<lambda>g. g\<lparr>g_count := g_count g + 1\<rparr>));
     set_gesture (\<lambda>g. g\<lparr>g_sample := p\<rparr>);
     g \<leftarrow> gets exword_touch_gesture;
     if g_count g < EXWORD_TOUCH_DEBOUNCE then ret False
     else do {
       set_gesture (\<lambda>g. g\<lparr>g_active := zone, g_candidate := TOUCH_NONE, g_count := 0, g_repeat := 0\<rparr>);
       exword_touch_activate_zone zone } }"

definition touch_evaluate :: "touch_sample option \<Rightarrow> ('w, bool) kp" where
  "touch_evaluate r =
     (case r of None \<Rightarrow> touch_missed
      | Some p \<Rightarrow> do {
          set_gesture (\<lambda>g. g\<lparr>g_release := 0\<rparr>);
          s \<leftarrow> gets id;
          let zone = exword_touch_sample_zone (exword_touch_cal_valid s) (exword_touch_cal s) p;
          modify (\<lambda>s. s\<lparr>exword_touch_first_sample_reported := True\<rparr>);
          if g_active (exword_touch_gesture s) \<noteq> TOUCH_NONE then touch_held (g_active (exword_touch_gesture s))
          else touch_candidate zone p })"

definition exword_touch_poll :: "'w bus \<Rightarrow> ('w, bool) kp" where
  "exword_touch_poll b = do { r \<leftarrow> exword_touch_read_sample b; touch_evaluate r }"

section \<open>Scanning\<close>

record scan_flags =
  activity :: bool
  mouse_direction_edge :: bool
  sync :: bool

text \<open>The body of the key loop: the key as it is left, and the local flags.\<close>

definition scan_key :: "u16 list \<Rightarrow> exword_key \<Rightarrow> scan_flags \<Rightarrow> ('w, exword_key \<times> scan_flags) kp" where
  "scan_key sample k f =
     (let dn = exword_key_down sample (scan k); k1 = k\<lparr>down := dn\<rparr>; f1 = f\<lparr>activity := True\<rparr>
      in if dn = down k then ret (k, f)
         else if scan k = EXWORD_MOUSE_TOGGLE_SCAN then do {
           onlyif dn exword_toggle_mouse_mode;
           ret (k1, f1) }
         else do {
           mouse \<leftarrow> gets exword_mouse_mode;
           if mouse \<and> exword_mouse_action_scan (scan k) then
             (let button = exword_mouse_button (scan k)
              in if button \<noteq> BTN_NONE then do {
                   _ \<leftarrow> exword_set_pointer_button button EXWORD_POINTER_SOURCE_KEYPAD dn;
                   ret (k1, f1) }
                 else ret (k1, if dn then f1\<lparr>mouse_direction_edge := True\<rparr> else f1))
           else if keycode k = KEY_ENTER then do {
             seen \<leftarrow> gets exword_enter_press_seen;
             onlyif (dn \<or> \<not> seen) exword_report_enter_tap;
             modify (\<lambda>s. s\<lparr>exword_enter_press_seen := dn\<rparr>);
             ret (k1, f1) }
           else do {
             input_report [Report Keyboard (Code (keycode k)) (if dn then 1 else 0)];
             ret (k1, f1\<lparr>sync := True\<rparr>) } })"

fun scan_keys :: "u16 list \<Rightarrow> exword_key list \<Rightarrow> scan_flags \<Rightarrow> ('w, exword_key list \<times> scan_flags) kp" where
  "scan_keys sample [] f = ret ([], f)"
| "scan_keys sample (k # ks) f = do {
     (k1, f1) \<leftarrow> scan_key sample k f;
     (ks1, f2) \<leftarrow> scan_keys sample ks f1;
     ret (k1 # ks1, f2) }"

definition scan_motion :: "u16 list \<Rightarrow> bool \<Rightarrow> ('w, bool) kp" where
  "scan_motion sample edge = do {
     mouse \<leftarrow> gets exword_mouse_mode;
     if \<not> mouse then do { modify (\<lambda>s. s\<lparr>exword_mouse_repeat_scans := 0\<rparr>); ret False }
     else if \<not> (exword_key_down sample 77 \<or> exword_key_down sample 86 \<or> exword_key_down sample 87 \<or>
                exword_key_down sample 88)
     then do { modify (\<lambda>s. s\<lparr>exword_mouse_repeat_scans := 0\<rparr>); ret False }
     else do {
       onlyif (\<not> edge) (modify (\<lambda>s. s\<lparr>exword_mouse_repeat_scans := exword_mouse_repeat_scans s + 1\<rparr>));
       n \<leftarrow> gets exword_mouse_repeat_scans;
       if edge \<or> n \<ge> EXWORD_MOUSE_REPEAT_SCANS then do {
         modify (\<lambda>s. s\<lparr>exword_mouse_repeat_scans := 0\<rparr>);
         exword_report_pointer_motion sample }
       else ret False } }"

definition scan_touch :: "'w bus \<Rightarrow> ('w, bool) kp" where
  "scan_touch b = do {
     en \<leftarrow> gets exword_touch_enabled;
     if \<not> en then do { modify (\<lambda>s. s\<lparr>exword_touch_poll_scans := 0\<rparr>); ret False }
     else do {
       modify (\<lambda>s. s\<lparr>exword_touch_poll_scans := exword_touch_poll_scans s + 1\<rparr>);
       n \<leftarrow> gets exword_touch_poll_scans;
       if n \<ge> EXWORD_TOUCH_POLL_SCANS then do {
         modify (\<lambda>s. s\<lparr>exword_touch_poll_scans := 0\<rparr>);
         exword_touch_poll b }
       else ret False } }"

definition exword_scan_once :: "'w bus \<Rightarrow> ('w, bool) kp" where
  "exword_scan_once b = do {
     mstp0 \<leftarrow> readl b EXWORD_MSTPCR0;
     onlyif (bit mstp0 EXWORD_KEYSC_MSTP_BIT) (writel b EXWORD_MSTPCR0 (unset_bit EXWORD_KEYSC_MSTP_BIT mstp0));
     sample \<leftarrow> exword_read_state b;
     modify (\<lambda>s. s\<lparr>exword_raw := (if sample \<noteq> exword_raw s then sample else exword_raw s)\<rparr>);
     keys \<leftarrow> gets exword_keys;
     (keys1, f) \<leftarrow> scan_keys sample keys \<lparr>activity = False, mouse_direction_edge = False, sync = False\<rparr>;
     modify (\<lambda>s. s\<lparr>exword_keys := keys1\<rparr>);
     onlyif (sync f) (input_report [Sync Keyboard]);
     moved \<leftarrow> scan_motion sample (mouse_direction_edge f);
     touched \<leftarrow> scan_touch b;
     ret (activity f \<or> moved \<or> touched) }"

definition scan_iteration :: "'w bus \<Rightarrow> ('w, unit) kp" where
  "scan_iteration b = do {
     act \<leftarrow> exword_scan_once b;
     onlyif (\<not> act) (modify (\<lambda>s. s\<lparr>burst := burst s + 1\<rparr>));
     n \<leftarrow> gets burst;
     onlyif (act \<or> n = EXWORD_POLL_BURST) (do {
       modify (\<lambda>s. s\<lparr>burst := 0\<rparr>);
       exword_service_subpad_mode b;
       _ \<leftarrow> exword_sublcd_draw_next_row b;
       ret () }) }"

section \<open>Initialisation\<close>

definition ENOMEM :: int where "ENOMEM = 12"

definition kcall :: "kernel_call list \<Rightarrow> ('w, unit) kp" where
  "kcall cs = modify (\<lambda>s. s\<lparr>kcalls := kcalls s @ cs\<rparr>)"

definition init_clock :: "init_env \<Rightarrow> ('w, unit) kp" where
  "init_clock e =
     (if clk_get_sys e \<noteq> 0 then modify (\<lambda>s. s\<lparr>keysc_clk := False\<rparr>)
      else do {
        kcall [Clk_got];
        if clk_prepare_enable e \<noteq> 0
        then do { kcall [Clk_put]; modify (\<lambda>s. s\<lparr>keysc_clk := False\<rparr>) }
        else do { kcall [Clk_enabled]; modify (\<lambda>s. s\<lparr>keysc_clk := True\<rparr>) } })"

definition release_clock :: "('w, unit) kp" where
  "release_clock = do {
     c \<leftarrow> gets keysc_clk;
     onlyif c (kcall [Clk_disable_unprepare, Clk_put]) }"

definition init_hardware :: "'w bus \<Rightarrow> ('w, unit) kp" where
  "init_hardware b = do {
     mstp0 \<leftarrow> readl b EXWORD_MSTPCR0;
     writel b EXWORD_MSTPCR0 (unset_bit EXWORD_KEYSC_MSTP_BIT mstp0);
     exword_report_firmware_setup b;
     exword_touch_load_firmware_setup b;
     exword_prime_scanner b }"

definition input_capabilities :: "exword_key list \<Rightarrow> kernel_call list" where
  "input_capabilities keys =
     map (\<lambda>k. Capability Keyboard (Code (keycode k))) (filter (\<lambda>k. keycode k \<noteq> KEY_RESERVED) keys)"

definition pointer_capabilities :: "kernel_call list" where
  "pointer_capabilities = map (Capability Pointer) [REL_X, REL_Y, Btn BTN_LEFT, Btn BTN_MIDDLE, Btn BTN_RIGHT]"

definition init_start :: "'w bus \<Rightarrow> init_env \<Rightarrow> ('w, int) kp" where
  "init_start b e =
     (if kthread_run e \<noteq> 0 then do {
        kcall [Unregister_device Pointer];
        modify (\<lambda>s. s\<lparr>have_pointer := False\<rparr>);
        kcall [Unregister_device Keyboard];
        modify (\<lambda>s. s\<lparr>have_input := False\<rparr>);
        release_clock;
        ret (kthread_run e) }
      else do {
        kcall [Thread_started];
        _ \<leftarrow> readl b EXWORD_MSTPCR0;
        _ \<leftarrow> read_words b [6..<15];
        ret 0 })"

definition init_register :: "'w bus \<Rightarrow> init_env \<Rightarrow> ('w, int) kp" where
  "init_register b e =
     (if input_register_device e Keyboard \<noteq> 0 then do {
        kcall [Free_device Keyboard, Free_device Pointer];
        modify (\<lambda>s. s\<lparr>have_input := False, have_pointer := False\<rparr>);
        release_clock;
        ret (input_register_device e Keyboard) }
      else do {
        kcall [Registered Keyboard];
        if input_register_device e Pointer \<noteq> 0 then do {
          kcall [Free_device Pointer];
          modify (\<lambda>s. s\<lparr>have_pointer := False\<rparr>);
          kcall [Unregister_device Keyboard];
          modify (\<lambda>s. s\<lparr>have_input := False\<rparr>);
          release_clock;
          ret (input_register_device e Pointer) }
        else do {
          kcall [Registered Pointer];
          init_start b e } })"

definition init_devices :: "'w bus \<Rightarrow> init_env \<Rightarrow> ('w, int) kp" where
  "init_devices b e = do {
     modify (\<lambda>s. s\<lparr>have_input := input_allocate_device e Keyboard\<rparr>);
     if \<not> input_allocate_device e Keyboard then do { release_clock; ret (- ENOMEM) }
     else do {
       kcall [Allocated Keyboard];
       modify (\<lambda>s. s\<lparr>have_pointer := input_allocate_device e Pointer\<rparr>);
       if \<not> input_allocate_device e Pointer then do {
         kcall [Free_device Keyboard];
         modify (\<lambda>s. s\<lparr>have_input := False\<rparr>);
         release_clock;
         ret (- ENOMEM) }
       else do {
         kcall [Allocated Pointer];
         keys \<leftarrow> gets exword_keys;
         kcall (input_capabilities keys);
         kcall pointer_capabilities;
         init_register b e } } }"

definition exword_keypad_init :: "'w bus \<Rightarrow> init_env \<Rightarrow> ('w, int) kp" where
  "exword_keypad_init b e = do { init_clock e; init_hardware b; init_devices b e }"

text \<open>The static data before initialisation, with the module parameter as given at boot.\<close>

definition keypad_boot :: "'w \<Rightarrow> int \<Rightarrow> 'w keypad" where
  "keypad_boot d mode =
     \<lparr>dev = d, trace = [],
      exword_keys = map (\<lambda>(sc, c). \<lparr>scan = sc, keycode = c, down = False\<rparr>) key_table,
      exword_raw = replicate 6 0, exword_enter_press_seen = False, exword_mouse_mode = False,
      exword_mouse_repeat_scans = 0, exword_pointer_button_sources = [0, 0, 0],
      exword_touch_cal = \<lparr>x_origin = 0, y_origin = 0, x_span = 0, y_span = 0\<rparr>,
      exword_touch_cal_valid = False, exword_touch_available = False,
      exword_touch_timeout_reported = False, exword_touch_enabled = False,
      exword_touch_prepared = False, exword_touch_gpio_prepared = False,
      exword_sublcd_supported = False, exword_sublcd_enabled = False,
      exword_touch_first_sample_reported = False, exword_touch_poll_scans = 0,
      exword_touch_gesture = \<lparr>g_candidate = TOUCH_NONE, g_active = TOUCH_NONE, g_count = 0,
        g_release = 0, g_repeat = 0, g_sample = \<lparr>sample_x = 0, sample_y = 0\<rparr>\<rparr>,
      exword_sublcd_next_row = 0, exword_sublcd_finished = False,
      exword_subpad_mode = mode, applied_mode = -1, burst = 0, events = [],
      keysc_clk = False, have_input = False, have_pointer = False, kcalls = []\<rparr>"

text \<open>The scan thread between iterations; userspace may write any of the values \<open>V\<close> to the module
  parameter at any time.\<close>

inductive exword_scan_thread :: "'w bus \<Rightarrow> int set \<Rightarrow> 'w keypad \<Rightarrow> 'w keypad \<Rightarrow> bool" for b V where
  scan_start: "exword_scan_thread b V s s"
| scan_loop: "exword_scan_thread b V s s1 \<Longrightarrow> exword_scan_thread b V s (snd (run_state (scan_iteration b) s1))"
| scan_param: "exword_scan_thread b V s s1 \<Longrightarrow> v \<in> V \<Longrightarrow> exword_scan_thread b V s (s1\<lparr>exword_subpad_mode := v\<rparr>)"

end
