(* ===== verification/Keypad_Safety.thy ===== *)
theory Keypad_Safety
  imports Keypad
begin

text \<open>
  What the keypad driver does to the hardware. The scan thread as a whole keeps an invariant of
  the registers when four of its parts do: that is the interface \<open>scan_policy\<close>, interpreted for
  each discipline the driver follows (every shared register is read, changed in the bits that
  belong to the driver and written back; the scanner's own registers are never written; a mode
  that was not asked for leaves its hardware alone).
\<close>

section \<open>The thread\<close>

lemma keeps_gets_bind: "(\<And>s. I s \<Longrightarrow> keeps I (f (g s))) \<Longrightarrow> keeps I (gets g \<bind> f)"
  by (rule keepsI) (auto dest: keepsD)

lemma keeps_cong: "m = m' \<Longrightarrow> keeps I m' \<Longrightarrow> keeps I m"
  by simp

text \<open>The part of the state the register disciplines are about.\<close>

definition core :: "'w keypad \<Rightarrow> access list \<times> bool \<times> bool \<times> int" where
  "core s = (trace s, exword_touch_enabled s, exword_sublcd_enabled s, exword_subpad_mode s)"

lemma keeps_core_modify: "(\<And>s. core (f s) = core s) \<Longrightarrow> keeps (\<lambda>s. core s = c) (modify f)"
  by (rule keeps_modify) simp

lemmas kp_rule_set = keeps_gets keeps_ret keeps_if keeps_onlyif keeps_let keeps_case_prod keeps_bind

lemma core_emit: "keeps (\<lambda>s. core s = c) (input_report es)"
  unfolding input_report_def by (rule keeps_core_modify) (simp add: core_def)

lemma core_set_gesture: "keeps (\<lambda>s. core s = c) (set_gesture f)"
  unfolding set_gesture_def by (rule keeps_core_modify) (simp add: core_def)

lemma core_button: "keeps (\<lambda>s. core s = c) (exword_set_pointer_button bt src d)"
  unfolding exword_set_pointer_button_def Let_def
  by (rule core_emit keeps_core_modify kp_rule_set | simp add: core_def)+

lemma core_toggle: "keeps (\<lambda>s. core s = c) exword_toggle_mouse_mode"
  unfolding exword_toggle_mouse_mode_def exword_release_mouse_keys_from_keyboard_def
    exword_release_keypad_mouse_buttons_def
  by (rule core_button core_emit keeps_core_modify kp_rule_set | simp add: core_def)+

lemma core_scan_key: "keeps (\<lambda>s. core s = c) (scan_key st k f)"
  unfolding scan_key_def exword_report_enter_tap_def Let_def
  by (rule core_toggle core_button core_emit keeps_core_modify kp_rule_set | simp add: core_def)+

lemma core_scan_keys: "keeps (\<lambda>s. core s = c) (scan_keys st ks f)"
  by (induction ks arbitrary: f) (simp_all, (rule core_scan_key kp_rule_set | assumption)+)

lemma core_motion: "keeps (\<lambda>s. core s = c) (scan_motion st e)"
  unfolding scan_motion_def exword_report_pointer_motion_def report_rel_def Let_def
  by (rule core_emit keeps_core_modify kp_rule_set | simp add: core_def)+

lemma core_release: "keeps (\<lambda>s. core s = c) exword_touch_release_active"
  unfolding exword_touch_release_active_def
  by (rule core_button core_set_gesture kp_rule_set)+

locale scan_policy =
  fixes b :: "'w bus" and V :: "int set" and I :: "'w keypad \<Rightarrow> bool"
  assumes framed: "core s = core s' \<Longrightarrow> I s = I s'"
    and gate: "keeps I (readl b EXWORD_MSTPCR0 \<bind> (\<lambda>m. onlyif (bit m EXWORD_KEYSC_MSTP_BIT)
      (writel b EXWORD_MSTPCR0 (unset_bit EXWORD_KEYSC_MSTP_BIT m))))"
    and state: "keeps I (exword_read_state b)"
    and touch: "keeps I (scan_touch b)"
    and mode: "keeps I (exword_service_subpad_mode b)"
    and row: "keeps I (exword_sublcd_draw_next_row b)"
    and param: "I s \<Longrightarrow> v \<in> V \<Longrightarrow> I (s\<lparr>exword_subpad_mode := v\<rparr>)"
begin

lemma by_core:
  assumes "\<And>c. keeps (\<lambda>s. core s = c) m"
  shows "keeps I m"
proof (rule keepsI)
  fix s a s' assume "I s" and "run_state m s = (a, s')"
  then show "I s'" using framed [OF keepsD [OF assms _ refl]] by blast
qed

lemma modified: "(\<And>s. core (f s) = core s) \<Longrightarrow> keeps I (modify f)"
  by (rule by_core) (rule keeps_core_modify)

lemma once: "keeps I (exword_scan_once b)"
proof -
  have "exword_scan_once b = (readl b EXWORD_MSTPCR0 \<bind> (\<lambda>m. onlyif (bit m EXWORD_KEYSC_MSTP_BIT)
      (writel b EXWORD_MSTPCR0 (unset_bit EXWORD_KEYSC_MSTP_BIT m)))) \<bind> (\<lambda>_. do {
     sample \<leftarrow> exword_read_state b;
     modify (\<lambda>s. s\<lparr>exword_raw := (if sample \<noteq> exword_raw s then sample else exword_raw s)\<rparr>);
     keys \<leftarrow> gets exword_keys;
     (keys1, f) \<leftarrow> scan_keys sample keys \<lparr>activity = False, mouse_direction_edge = False, sync = False\<rparr>;
     modify (\<lambda>s. s\<lparr>exword_keys := keys1\<rparr>);
     onlyif (sync f) (input_report [Sync Keyboard]);
     moved \<leftarrow> scan_motion sample (mouse_direction_edge f);
     touched \<leftarrow> scan_touch b;
     ret (activity f \<or> moved \<or> touched) })"
    by (simp add: exword_scan_once_def)
  also have "keeps I \<dots>"
    by (rule gate state touch by_core [OF core_scan_keys] by_core [OF core_emit] by_core [OF core_motion] modified
        kp_rule_set | simp add: core_def)+
  finally show ?thesis .
qed

lemma iteration: "keeps I (scan_iteration b)"
  unfolding scan_iteration_def by (rule once mode row modified kp_rule_set | simp add: core_def)+

lemma thread: "exword_scan_thread b V s s' \<Longrightarrow> I s \<Longrightarrow> I s'"
proof (induction rule: exword_scan_thread.induct)
  case (scan_loop s s1)
  then show ?case using keepsD [OF iteration prod.collapse [symmetric]] by blast
qed (auto intro: param)

end

section \<open>Shared registers\<close>

text \<open>Words the driver may overwrite, and the bits it owns in the others. A word of the second
  kind is only written right after it was read, and keeps every bit outside the mask; the data
  register of port R is written around a bus cycle and refers to its last reading.\<close>

definition owned16 :: "u32 list" where
  "owned16 = [EXWORD_SUBLCD_DATA, EXWORD_TOUCH_PGCR, EXWORD_TOUCH_ADCUST, EXWORD_TOUCH_ADCCSR, EXWORD_TOUCH_ADPCTL]"

definition shared16 :: "(u32 \<times> u16) list" where
  "shared16 = [(EXWORD_TOUCH_PHCR, 0x0300), (EXWORD_TOUCH_PLCR, 0x000c), (EXWORD_TOUCH_PSELE, 0x0c00),
     (EXWORD_TOUCH_PFC_A, 0xf000), (EXWORD_TOUCH_MSELCRA, 0x0300), (EXWORD_TOUCH_ADCSR, 0x2000)]"

definition shared8 :: "(u32 \<times> u8) list" where
  "shared8 = [(EXWORD_TOUCH_PHDR, 0x10), (EXWORD_SUBLCD_PRDR, EXWORD_SUBLCD_DC)]"

definition gates32 :: "(u32 \<times> nat) list" where
  "gates32 = [(EXWORD_MSTPCR0, EXWORD_KEYSC_MSTP_BIT), (EXWORD_TOUCH_MSTPCR2, EXWORD_TOUCH_MSTP_BIT)]"

fun last_read8 :: "u32 \<Rightarrow> access list \<Rightarrow> u8 option" where
  "last_read8 a [] = None"
| "last_read8 a (Rd8 a' v # t) = (if a = a' then Some v else last_read8 a t)"
| "last_read8 a (_ # t) = last_read8 a t"

fun considerate :: "access \<Rightarrow> access list \<Rightarrow> bool" where
  "considerate (Wr32 a v) t =
     (case t of Rd32 a' w # _ \<Rightarrow> a' = a \<and> (case map_of gates32 a of Some n \<Rightarrow> v = unset_bit n w | None \<Rightarrow> False)
      | _ \<Rightarrow> False)"
| "considerate (Wr16 a v) t =
     (a \<in> set owned16 \<or>
      (case t of Rd16 a' w # _ \<Rightarrow> a' = a \<and> (case map_of shared16 a of Some m \<Rightarrow> v AND NOT m = w AND NOT m | None \<Rightarrow> False)
       | _ \<Rightarrow> False))"
| "considerate (Wr8 a v) t =
     (a = EXWORD_TOUCH_PGDR \<or>
      (case last_read8 a t of Some w \<Rightarrow> (case map_of shared8 a of Some m \<Rightarrow> v AND NOT m = w AND NOT m | None \<Rightarrow> False)
       | None \<Rightarrow> False))"
| "considerate _ t = True"

lemmas reg_defs = EXWORD_KEYPAD_BASE_def EXWORD_MSTPCR0_def EXWORD_SUBLCD_DATA_def EXWORD_SUBLCD_PRDR_def
  EXWORD_TOUCH_PLCR_def EXWORD_TOUCH_PLDR_def EXWORD_TOUCH_PHCR_def EXWORD_TOUCH_PHDR_def EXWORD_TOUCH_PGDR_def
  EXWORD_TOUCH_PSELE_def EXWORD_TOUCH_PFC_A_def EXWORD_TOUCH_PGCR_def EXWORD_TOUCH_MSELCRA_def
  EXWORD_TOUCH_ADDRA_def EXWORD_TOUCH_ADDRB_def EXWORD_TOUCH_ADDRC_def EXWORD_TOUCH_ADDRD_def
  EXWORD_TOUCH_ADCSR_def EXWORD_TOUCH_ADCCSR_def EXWORD_TOUCH_ADCUST_def EXWORD_TOUCH_ADPCTL_def
  EXWORD_TOUCH_CPG_ID_def EXWORD_TOUCH_MSTPCR2_def

lemmas policy_defs = owned16_def shared16_def shared8_def gates32_def reg_defs EXWORD_SUBLCD_DC_def

lemma outside_mask:
  fixes v c p q :: "'a::len word"
  shows "q AND c = 0 \<Longrightarrow> (v OR q) AND c = v AND c"
    and "p AND c = c \<Longrightarrow> (v AND p) AND c = v AND c"
  by (auto simp: bit_eq_iff bit_simps)

lemma keeps_rmw_w:
  assumes "\<And>v t. ok (Rd16 a v) t" and "\<And>v t. ok (Wr16 a (f v)) (Rd16 a v # t)" and "keeps (safe ok) m"
  shows "keeps (safe ok) (readw b a \<bind> (\<lambda>v. writew b a (f v) \<bind> (\<lambda>_. m)))"
  using assms
  by (auto simp: readw_def writew_def safe_def split: prod.splits intro!: keepsI dest!: keepsD [OF assms(3)])

lemma keeps_rmw_w_last:
  assumes "\<And>v t. ok (Rd16 a v) t" and "\<And>v t. ok (Wr16 a (f v)) (Rd16 a v # t)"
  shows "keeps (safe ok) (readw b a \<bind> (\<lambda>v. writew b a (f v)))"
  using assms by (auto simp: readw_def writew_def safe_def split: prod.splits intro!: keepsI)

lemma keeps_rmw_b:
  assumes "\<And>v t. ok (Rd8 a v) t" and "\<And>v t. ok (Wr8 a (f v)) (Rd8 a v # t)" and "keeps (safe ok) m"
  shows "keeps (safe ok) (readb b a \<bind> (\<lambda>v. writeb b a (f v) \<bind> (\<lambda>_. m)))"
  using assms
  by (auto simp: readb_def writeb_def safe_def split: prod.splits intro!: keepsI dest!: keepsD [OF assms(3)])

lemmas considerate_simps = policy_defs outside_mask

lemma polite_quiet: "(\<And>s. trace (f s) = trace s) \<Longrightarrow> keeps (safe considerate) (modify f)"
  by (rule keeps_quiet)

lemmas polite = keeps_rmw_w keeps_rmw_w_last keeps_rmw_b keeps_update_l keeps_access polite_quiet kp_rule_set

lemma polite_command: "keeps (safe considerate) (exword_sublcd_command b c)"
  by (rule keepsI)
    (auto simp: exword_sublcd_command_def readb_def writeb_def writew_def safe_def considerate_simps split: prod.splits)

lemma polite_set_row: "keeps (safe considerate) (exword_sublcd_set_row b y)"
  unfolding exword_sublcd_set_row_def exword_sublcd_data_def
  by (rule polite_command keeps_writew kp_rule_set | simp add: policy_defs)+

lemma polite_pixels: "keeps (safe considerate) (draw_pixels b y xs)"
  by (induction xs) (simp_all add: exword_sublcd_data_def, (rule keeps_writew kp_rule_set | assumption | simp add: policy_defs)+)

lemma polite_row: "keeps (safe considerate) (exword_sublcd_draw_next_row b)"
  unfolding exword_sublcd_draw_next_row_def Let_def
  by (rule polite_set_row polite_pixels polite_quiet kp_rule_set | simp)+

lemma polite_disable: "keeps (safe considerate) exword_touch_disable"
  unfolding exword_touch_disable_def by (rule polite_quiet) simp

lemma polite_wait: "keeps (safe considerate) (touch_wait b a n)"
  by (induction n) (simp_all, (rule polite_disable keeps_readw kp_rule_set | assumption | simp)+)

lemma polite_open_clock: "keeps (safe considerate) (exword_touch_open_clock b)"
  unfolding exword_touch_open_clock_def
  by (rule polite_disable keeps_update_l keeps_readl kp_rule_set | simp add: considerate_simps)+

lemma polite_base_pfc: "keeps (safe considerate) (exword_touch_base_pfc b)"
  unfolding exword_touch_base_pfc_def
  by (rule polite | simp add: considerate_simps)+

lemma polite_rest: "keeps (safe considerate) (exword_touch_rest b h)"
  unfolding exword_touch_rest_def exword_touch_wait_adccsr_def
  by (rule polite_wait polite | simp add: considerate_simps)+

lemma polite_pen_samples: "keeps (safe considerate) (pen_samples b n)"
  by (induction n) (simp_all, (rule keeps_readb kp_rule_set | assumption | simp)+)

lemma polite_pen: "keeps (safe considerate) (exword_touch_read_pen_level b)"
  unfolding exword_touch_read_pen_level_def
  by (rule polite_pen_samples polite_base_pfc polite | simp add: considerate_simps)+

lemma polite_prepare: "keeps (safe considerate) (exword_touch_prepare_hardware b)"
  unfolding exword_touch_prepare_hardware_def
  by (rule polite_open_clock polite_base_pfc polite_rest polite_pen kp_rule_set)+

lemma polite_gpio: "keeps (safe considerate) (exword_touch_prepare_gpio_hardware b)"
  unfolding exword_touch_prepare_gpio_hardware_def
  by (rule polite_base_pfc polite_pen polite | simp add: considerate_simps)+

lemma polite_convert: "keeps (safe considerate) (exword_touch_convert b)"
  unfolding exword_touch_convert_def exword_touch_wait_adcsr_def exword_touch_wait_adccsr_def
  by (rule polite_wait polite | simp add: considerate_simps)+

lemma polite_adc: "keeps (safe considerate) (exword_touch_read_adc b)"
  unfolding exword_touch_read_adc_def
  by (rule polite_open_clock polite_rest polite_convert polite | simp add: considerate_simps)+

lemma polite_sample: "keeps (safe considerate) (exword_touch_read_sample b)"
  unfolding exword_touch_read_sample_def exword_touch_pen_down_def
  by (rule polite_pen polite_adc kp_rule_set)+

lemma polite_words: "keeps (safe considerate) (read_words b ns)"
  by (induction ns) (simp_all, (rule keeps_readw kp_rule_set | assumption | simp)+)

text \<open>The evaluation of a sample and the pointer reports touch no register and no mode.\<close>

lemma core_touch_motion: "keeps (\<lambda>s. core s = c) (exword_touch_report_motion z)"
  unfolding exword_touch_report_motion_def report_rel_def
  by (cases z; simp; (rule core_emit kp_rule_set)+)

lemma core_missed: "keeps (\<lambda>s. core s = c) touch_missed"
  unfolding touch_missed_def by (rule core_release core_set_gesture kp_rule_set)+

lemma core_held: "keeps (\<lambda>s. core s = c) (touch_held z)"
  unfolding touch_held_def by (rule core_touch_motion core_set_gesture kp_rule_set)+

lemma core_candidate: "keeps (\<lambda>s. core s = c) (touch_candidate z p)"
  unfolding touch_candidate_def exword_touch_activate_zone_def
  by (rule core_touch_motion core_button core_set_gesture kp_rule_set)+

lemma core_evaluate: "keeps (\<lambda>s. core s = c) (touch_evaluate r)"
proof (cases r)
  case None
  then show ?thesis by (simp add: touch_evaluate_def core_missed)
next
  case (Some p)
  show ?thesis unfolding Some touch_evaluate_def option.case Let_def
    by (rule core_held core_candidate core_set_gesture keeps_core_modify kp_rule_set | simp add: core_def)+
qed

lemma safe_by_core:
  assumes "\<And>c. keeps (\<lambda>s. core s = c) m"
  shows "keeps (safe ok) m"
proof (rule keepsI)
  fix s a s' assume "safe ok s" and "run_state m s = (a, s')"
  then show "safe ok s'" using keepsD [OF assms, of s a s' "core s"] by (simp add: safe_def core_def)
qed

lemma polite_touch: "keeps (safe considerate) (scan_touch b)"
  unfolding scan_touch_def exword_touch_poll_def
  by (rule safe_by_core [OF core_evaluate] polite_sample polite_quiet kp_rule_set | simp)+

lemma polite_mode: "keeps (safe considerate) (exword_service_subpad_mode b)"
  unfolding exword_service_subpad_mode_def Let_def
  by (rule safe_by_core [OF core_release] safe_by_core [OF core_set_gesture] polite_prepare polite_gpio
      polite_quiet kp_rule_set | simp)+

interpretation considerate: scan_policy b V "safe considerate" for b :: "'w bus" and V
proof
  show "keeps (safe considerate) (readl b EXWORD_MSTPCR0 \<bind> (\<lambda>m. onlyif (bit m EXWORD_KEYSC_MSTP_BIT)
      (writel b EXWORD_MSTPCR0 (unset_bit EXWORD_KEYSC_MSTP_BIT m))))"
    by (rule keepsI) (auto simp: readl_def writel_def safe_def considerate_simps split: prod.splits if_splits)
qed (auto simp: exword_read_state_def polite_words polite_touch polite_mode polite_row safe_def core_def)

section \<open>Modes that were not asked for\<close>

fun address :: "access \<Rightarrow> u32" where
  "address (Rd8 a _) = a" | "address (Rd16 a _) = a" | "address (Rd32 a _) = a"
| "address (Wr8 a _) = a" | "address (Wr16 a _) = a" | "address (Wr32 a _) = a"

fun is_write :: "access \<Rightarrow> bool" where
  "is_write (Wr8 _ _) = True" | "is_write (Wr16 _ _) = True" | "is_write (Wr32 _ _) = True"
| "is_write _ = False"

definition converter :: "u32 list" where
  "converter = [EXWORD_TOUCH_ADDRA, EXWORD_TOUCH_ADDRB, EXWORD_TOUCH_ADDRC, EXWORD_TOUCH_ADDRD, EXWORD_TOUCH_ADCSR,
     EXWORD_TOUCH_ADCCSR, EXWORD_TOUCH_ADCUST, EXWORD_TOUCH_ADPCTL, EXWORD_TOUCH_MSTPCR2]"

definition no_adc :: "access \<Rightarrow> access list \<Rightarrow> bool" where
  "no_adc x t \<longleftrightarrow> address x \<notin> set converter"

definition gate_only :: "access \<Rightarrow> access list \<Rightarrow> bool" where
  "gate_only x t \<longleftrightarrow> is_write x \<longrightarrow> address x = EXWORD_MSTPCR0"

lemma no_adc_simps [simp]: "no_adc x t \<longleftrightarrow> address x \<notin> set converter"
  by (simp add: no_adc_def)

lemmas adc_free = keeps_access keeps_quiet kp_rule_set

lemma no_adc_pfc: "keeps (safe no_adc) (exword_touch_base_pfc b)"
  unfolding exword_touch_base_pfc_def by (rule adc_free | simp add: converter_def reg_defs)+

lemma no_adc_pen_samples: "keeps (safe no_adc) (pen_samples b n)"
  by (induction n) (simp_all, (rule adc_free | assumption | simp add: converter_def reg_defs)+)

lemma no_adc_gpio: "keeps (safe no_adc) (exword_touch_prepare_gpio_hardware b)"
  unfolding exword_touch_prepare_gpio_hardware_def exword_touch_read_pen_level_def
  by (rule no_adc_pfc no_adc_pen_samples adc_free | simp add: converter_def reg_defs)+

lemma no_adc_pixels: "keeps (safe no_adc) (draw_pixels b y xs)"
  by (induction xs) (simp_all add: exword_sublcd_data_def,
      (rule adc_free | assumption | simp add: converter_def reg_defs)+)

lemma no_adc_row: "keeps (safe no_adc) (exword_sublcd_draw_next_row b)"
  unfolding exword_sublcd_draw_next_row_def exword_sublcd_set_row_def exword_sublcd_command_def
    exword_sublcd_data_def Let_def
  by (rule no_adc_pixels adc_free | simp add: converter_def reg_defs)+

text \<open>No program on the hardware changes a mode.\<close>

definition modes :: "'w keypad \<Rightarrow> bool \<times> bool \<times> int" where
  "modes s = (exword_touch_enabled s, exword_sublcd_enabled s, exword_subpad_mode s)"

lemma modes_modify: "(\<And>s. modes (f s) = modes s) \<Longrightarrow> keeps (\<lambda>s. modes s = c) (modify f)"
  by (rule keeps_modify) simp

lemma modes_rest:
  "keeps (\<lambda>s. modes s = c) (readb b a)" "keeps (\<lambda>s. modes s = c) (readw b a)" "keeps (\<lambda>s. modes s = c) (readl b a)"
  "keeps (\<lambda>s. modes s = c) (writeb b a x)" "keeps (\<lambda>s. modes s = c) (writew b a y)" "keeps (\<lambda>s. modes s = c) (writel b a z)"
  by (rule keeps_rest; simp add: modes_def)+

lemmas modes_free = modes_rest modes_modify kp_rule_set

lemma modes_pfc: "keeps (\<lambda>s. modes s = c) (exword_touch_base_pfc b)"
  unfolding exword_touch_base_pfc_def by (rule modes_free)+

lemma modes_pen_samples: "keeps (\<lambda>s. modes s = c) (pen_samples b n)"
  by (induction n) (simp_all, (rule modes_free | assumption)+)

lemma modes_gpio: "keeps (\<lambda>s. modes s = c) (exword_touch_prepare_gpio_hardware b)"
  unfolding exword_touch_prepare_gpio_hardware_def exword_touch_read_pen_level_def
  by (rule modes_pfc modes_pen_samples modes_free)+

lemma modes_pixels: "keeps (\<lambda>s. modes s = c) (draw_pixels b y xs)"
  by (induction xs) (simp_all add: exword_sublcd_data_def, (rule modes_free | assumption)+)

lemma modes_row: "keeps (\<lambda>s. modes s = c) (exword_sublcd_draw_next_row b)"
  unfolding exword_sublcd_draw_next_row_def exword_sublcd_set_row_def exword_sublcd_command_def
    exword_sublcd_data_def Let_def
  by (rule modes_pixels modes_free | simp add: modes_def)+

lemma keeps_by_modes:
  assumes "keeps (safe ok) m" and "\<And>c. keeps (\<lambda>s. modes s = c) m"
  shows "keeps (\<lambda>s. safe ok s \<and> P (modes s)) m"
  by (rule keepsI) (use keepsD [OF assms(1)] keepsD [OF assms(2) _ refl] in auto)

definition no_touch :: "'w keypad \<Rightarrow> bool" where
  "no_touch s \<longleftrightarrow> safe no_adc s \<and> (case modes s of (en, _, m) \<Rightarrow> \<not> en \<and> \<not> bit (subpad_request m) 1)"

definition no_pad :: "'w keypad \<Rightarrow> bool" where
  "no_pad s \<longleftrightarrow> safe gate_only s \<and> modes s = (False, False, exword_subpad_mode s) \<and> subpad_request (exword_subpad_mode s) = 0"

lemma no_touch_framed: "core s = core s' \<Longrightarrow> no_touch s = no_touch s'"
  by (simp add: no_touch_def core_def modes_def safe_def)

lemma no_pad_framed: "core s = core s' \<Longrightarrow> no_pad s = no_pad s'"
  by (simp add: no_pad_def core_def modes_def safe_def)

lemma no_touch_modify: "(\<And>s. no_touch s \<Longrightarrow> trace (f s) = trace s \<and> exword_touch_enabled (f s) = exword_touch_enabled s \<and>
    exword_subpad_mode (f s) = exword_subpad_mode s) \<Longrightarrow> keeps no_touch (modify f)"
  by (rule keeps_modify) (auto simp: no_touch_def modes_def safe_def)

lemma no_touch_off: "no_touch s \<Longrightarrow> \<not> bit (subpad_request (exword_subpad_mode s)) 1 \<and> \<not> exword_touch_enabled s"
  by (simp add: no_touch_def modes_def)

lemma no_touch_gpio: "keeps no_touch (exword_touch_prepare_gpio_hardware b)"
  unfolding no_touch_def by (rule keeps_by_modes [OF no_adc_gpio modes_gpio])

lemma no_touch_mode: "keeps no_touch (exword_service_subpad_mode b)"
  unfolding exword_service_subpad_mode_def Let_def
  by (rule keeps_gets_bind, drule no_touch_off, (rule no_touch_gpio no_touch_modify kp_rule_set | simp)+)

lemma no_touch_poll: "keeps no_touch (scan_touch b)"
  unfolding scan_touch_def
  by (rule keeps_gets_bind, drule no_touch_off, (rule no_touch_modify kp_rule_set | simp)+)

lemma key_words_apart: "list_all (\<lambda>n. EXWORD_KEYPAD_BASE + of_nat n * 2 \<notin> set converter) [0..<15]"
  by code_simp

text \<open>What initialisation reads and writes.\<close>

lemma snapshot_apart: "list_all (\<lambda>n. EXWORD_SNAPSHOT_BASE + 4 + of_nat n * 2 \<notin> set converter) [0..<15]"
  by code_simp

lemma snapshot_longs_apart:
  "EXWORD_SNAPSHOT_BASE \<notin> set converter" "EXWORD_MSTPCR0 \<notin> set converter"
  "list_all (\<lambda>off. EXWORD_SNAPSHOT_BASE + off \<notin> set converter) [0x24, 0x28, 0x2c, 0x30, 0x34, 0x38, 0x3c]"
  by code_simp+

locale boot_policy =
  fixes ok :: "access \<Rightarrow> access list \<Rightarrow> bool"
  assumes read16: "a \<notin> set converter \<Longrightarrow> ok (Rd16 a v) t"
    and read32: "a \<notin> set converter \<Longrightarrow> ok (Rd32 a w) t"
    and open_gate: "ok (Wr32 EXWORD_MSTPCR0 (unset_bit EXWORD_KEYSC_MSTP_BIT w)) (Rd32 EXWORD_MSTPCR0 w # t)"
begin

lemma words: "set ns \<subseteq> set [0..<15] \<Longrightarrow> keeps (safe ok) (read_words b ns)"
proof (induction ns)
  case (Cons n ns)
  then have n: "n \<in> set [0..<15]" and ns: "set ns \<subseteq> set [0..<15]" by (simp_all only: list.set insert_subset)
  have "EXWORD_KEYPAD_BASE + of_nat n * 2 \<notin> set converter"
    using key_words_apart n unfolding list_all_iff by (rule bspec)
  with Cons.IH [OF ns] show ?case unfolding read_words.simps
    by (intro keeps_bind keeps_ret) (rule keeps_readw, rule read16)
qed (simp add: keeps_ret)

lemma snapshot: "set ns \<subseteq> set [0..<15] \<Longrightarrow> keeps (safe ok) (snapshot_regs b ns)"
proof (induction ns)
  case (Cons n ns)
  then have n: "n \<in> set [0..<15]" and ns: "set ns \<subseteq> set [0..<15]" by (simp_all only: list.set insert_subset)
  have "EXWORD_SNAPSHOT_BASE + 4 + of_nat n * 2 \<notin> set converter"
    using snapshot_apart n unfolding list_all_iff by (rule bspec)
  with Cons.IH [OF ns] show ?case unfolding snapshot_regs.simps exword_snapshot_reg_def
    by (intro keeps_bind keeps_ret) (rule keeps_readw, rule read16)
qed (simp add: keeps_ret)

lemma long: "off \<in> set [0x24, 0x28, 0x2c, 0x30, 0x34, 0x38, 0x3c] \<Longrightarrow> keeps (safe ok) (readl b (EXWORD_SNAPSHOT_BASE + off))"
  using snapshot_longs_apart(3) unfolding list_all_iff by (blast intro: keeps_readl read32)

lemma first: "keeps (safe ok) (readl b EXWORD_SNAPSHOT_BASE)"
  by (rule keeps_readl) (rule read32 [OF snapshot_longs_apart(1)])

lemma report: "keeps (safe ok) (exword_report_firmware_setup b)"
  unfolding exword_report_firmware_setup_def
  by (rule first snapshot [OF subset_refl] long kp_rule_set | simp)+

lemma touch_setup: "keeps (safe ok) (exword_touch_load_firmware_setup b)"
  unfolding exword_touch_load_firmware_setup_def exword_touch_read_calibration_def exword_touch_snapshot_long_def
    EXWORD_TOUCH_SNAPSHOT_OFFSET_def EXWORD_TOUCH_VARIANT_OFFSET_def EXWORD_TOUCH_CAL1_OFFSET_def
  by (rule long keeps_quiet kp_rule_set | simp)+

lemma prime_loop: "keeps (safe ok) (prime_reads b n st)"
  by (induction n arbitrary: st) (simp_all add: exword_read_state_def keeps_ret keeps_bind words)

lemma prime: "keeps (safe ok) (exword_prime_scanner b)"
  unfolding exword_prime_scanner_def by (rule prime_loop keeps_quiet kp_rule_set | simp)+

lemma hardware: "keeps (safe ok) (init_hardware b)"
proof -
  have "keeps (safe ok) (readl b EXWORD_MSTPCR0 \<bind> (\<lambda>m. onlyif True (writel b EXWORD_MSTPCR0 (unset_bit EXWORD_KEYSC_MSTP_BIT m))
      \<bind> (\<lambda>_. exword_report_firmware_setup b \<bind> (\<lambda>_. exword_touch_load_firmware_setup b \<bind> (\<lambda>_. exword_prime_scanner b)))))"
    by (rule keeps_update_l) (rule read32 snapshot_longs_apart open_gate report touch_setup prime kp_rule_set)+
  then show ?thesis by (simp add: init_hardware_def onlyif_def)
qed

lemma kcalls_quiet: "keeps (safe ok) (kcall cs)"
  unfolding kcall_def by (rule keeps_quiet) simp

lemma start: "keeps (safe ok) (init_start b e)"
  unfolding init_start_def release_clock_def
  by (rule kcalls_quiet words keeps_quiet keeps_readl read32 snapshot_longs_apart kp_rule_set | simp)+

lemma devices: "keeps (safe ok) (init_devices b e)"
  unfolding init_devices_def init_register_def release_clock_def
  by (rule start kcalls_quiet keeps_quiet kp_rule_set | simp)+

lemma init: "keeps (safe ok) (exword_keypad_init b e)"
  unfolding exword_keypad_init_def init_clock_def
  by (rule hardware devices kcalls_quiet keeps_quiet kp_rule_set | simp)+

end

interpretation boot_considerate: boot_policy considerate
  by unfold_locales (simp_all add: considerate_simps)

interpretation boot_no_adc: boot_policy no_adc
  by unfold_locales (simp_all add: snapshot_longs_apart)

interpretation boot_gate_only: boot_policy gate_only
  by unfold_locales (simp_all add: gate_only_def)

lemma modes_words: "keeps (\<lambda>s. modes s = c) (read_words b ns)"
  by (induction ns) (simp_all, (rule modes_free | assumption)+)

lemma gate_keeps:
  assumes "\<And>v t. ok (Rd32 EXWORD_MSTPCR0 v) t" and "\<And>v w t. ok (Wr32 EXWORD_MSTPCR0 w) (Rd32 EXWORD_MSTPCR0 v # t)"
  shows "keeps (\<lambda>s. safe ok s \<and> P (modes s)) (readl b EXWORD_MSTPCR0 \<bind> (\<lambda>m. onlyif (bit m EXWORD_KEYSC_MSTP_BIT)
      (writel b EXWORD_MSTPCR0 (unset_bit EXWORD_KEYSC_MSTP_BIT m))))"
  by (rule keepsI) (auto simp: readl_def writel_def safe_def modes_def assms split: prod.splits if_splits)

interpretation no_touch: scan_policy b "{v. \<not> bit (subpad_request v) 1}" no_touch for b :: "'w bus"
proof
  show "keeps no_touch (readl b EXWORD_MSTPCR0 \<bind> (\<lambda>m. onlyif (bit m EXWORD_KEYSC_MSTP_BIT)
      (writel b EXWORD_MSTPCR0 (unset_bit EXWORD_KEYSC_MSTP_BIT m))))"
    unfolding no_touch_def by (rule gate_keeps) (simp_all add: converter_def reg_defs)
  show "keeps no_touch (exword_read_state b)"
    unfolding no_touch_def exword_read_state_def by (rule keeps_by_modes [OF boot_no_adc.words [OF subset_trans] modes_words]) auto
  show "keeps no_touch (exword_sublcd_draw_next_row b)"
    unfolding no_touch_def by (rule keeps_by_modes [OF no_adc_row modes_row])
qed (rule no_touch_framed no_touch_poll no_touch_mode | assumption | simp add: no_touch_def modes_def safe_def)+

lemma no_pad_alt: "no_pad s \<longleftrightarrow> safe gate_only s \<and> (case modes s of (en, lcd, m) \<Rightarrow> \<not> en \<and> \<not> lcd \<and> subpad_request m = 0)"
  by (auto simp: no_pad_def modes_def)

lemma no_pad_modify: "(\<And>s. no_pad s \<Longrightarrow> trace (f s) = trace s \<and> exword_touch_enabled (f s) = exword_touch_enabled s \<and>
    exword_sublcd_enabled (f s) = exword_sublcd_enabled s \<and> exword_subpad_mode (f s) = exword_subpad_mode s) \<Longrightarrow>
    keeps no_pad (modify f)"
  by (rule keeps_modify) (auto simp: no_pad_def modes_def safe_def)

lemma no_pad_off: "no_pad s \<Longrightarrow> subpad_request (exword_subpad_mode s) = 0 \<and> \<not> exword_touch_enabled s \<and> \<not> exword_sublcd_enabled s"
  by (simp add: no_pad_def modes_def)

lemma gate_only_words: "keeps (safe gate_only) (read_words b ns)"
  by (induction ns) (simp_all, (rule keeps_readw kp_rule_set | assumption | simp add: gate_only_def)+)

interpretation no_pad: scan_policy b "{v. subpad_request v = 0}" no_pad for b :: "'w bus"
proof
  show "keeps no_pad (readl b EXWORD_MSTPCR0 \<bind> (\<lambda>m. onlyif (bit m EXWORD_KEYSC_MSTP_BIT)
      (writel b EXWORD_MSTPCR0 (unset_bit EXWORD_KEYSC_MSTP_BIT m))))"
    unfolding no_pad_alt by (rule gate_keeps) (simp_all add: gate_only_def)
  show "keeps no_pad (exword_read_state b)"
    unfolding no_pad_alt exword_read_state_def by (rule keeps_by_modes [OF gate_only_words modes_words])
  show "keeps no_pad (scan_touch b)"
    unfolding scan_touch_def
    by (rule keeps_gets_bind, drule no_pad_off, (rule no_pad_modify kp_rule_set | simp)+)
  show "keeps no_pad (exword_sublcd_draw_next_row b)"
    unfolding exword_sublcd_draw_next_row_def Let_def
    by (rule keeps_gets_bind, drule no_pad_off, (rule kp_rule_set | simp)+)
  show "keeps no_pad (exword_service_subpad_mode b)"
    unfolding exword_service_subpad_mode_def Let_def
    by (rule keeps_gets_bind, drule no_pad_off, (rule no_pad_modify kp_rule_set | simp add: no_pad_def modes_def)+)
qed (rule no_pad_framed | assumption | simp add: no_pad_def modes_def safe_def)+

section \<open>From boot\<close>

lemma modes_snapshot: "keeps (\<lambda>s. modes s = c) (snapshot_regs b ns)"
  by (induction ns) (simp_all add: exword_snapshot_reg_def, (rule modes_free | assumption)+)

lemma modes_prime: "keeps (\<lambda>s. modes s = c) (prime_reads b n st)"
  by (induction n arbitrary: st) (simp_all add: exword_read_state_def keeps_ret keeps_bind modes_words)

lemma modes_hardware: "keeps (\<lambda>s. modes s = c) (init_hardware b)"
  unfolding init_hardware_def exword_report_firmware_setup_def exword_touch_load_firmware_setup_def
    exword_touch_read_calibration_def exword_touch_snapshot_long_def exword_prime_scanner_def
  by (rule modes_snapshot modes_prime modes_free | simp add: modes_def)+

lemma modes_init: "keeps (\<lambda>s. modes s = c) (exword_keypad_init b e)"
  unfolding exword_keypad_init_def init_clock_def init_devices_def init_register_def init_start_def release_clock_def
    kcall_def
  by (rule modes_hardware modes_words modes_free | simp add: modes_def)+

lemma init_keeps:
  assumes "keeps (safe ok) (exword_keypad_init b e)" and "P (modes (keypad_boot d mode))"
  shows "safe ok (snd (run_state (exword_keypad_init b e) (keypad_boot d mode))) \<and>
    P (modes (snd (run_state (exword_keypad_init b e) (keypad_boot d mode))))"
proof -
  let ?m = "exword_keypad_init b e" and ?s = "keypad_boot d mode"
  have "safe ok ?s" by (simp add: safe_def keypad_boot_def)
  then show ?thesis
    using keepsD [OF keeps_by_modes [OF assms(1) modes_init, of P] prod.collapse [symmetric], of ?s] assms(2) by blast
qed

lemma scan_thread_mono: "exword_scan_thread b V s s' \<Longrightarrow> V \<subseteq> W \<Longrightarrow> exword_scan_thread b W s s'"
  by (induction rule: exword_scan_thread.induct) (auto intro: exword_scan_thread.intros)

lemma traced_all: "traced (\<lambda>x t. P x) t \<longleftrightarrow> (\<forall>x\<in>set t. P x)"
  by (induction t) auto

definition keysc_register :: "u32 \<Rightarrow> bool" where
  "keysc_register a \<longleftrightarrow> (\<exists>n<16. a = EXWORD_KEYPAD_BASE + 2 * of_nat n)"

lemma writable_apart:
  "list_all (\<lambda>a. list_all (\<lambda>n. a \<noteq> EXWORD_KEYPAD_BASE + 2 * of_nat n) [0..<16])
     (owned16 @ map fst shared16 @ map fst shared8 @ map fst gates32 @ [EXWORD_TOUCH_PGDR])"
  by code_simp

lemma considerate_listed:
  "considerate x t \<Longrightarrow> is_write x \<Longrightarrow>
   address x \<in> set (owned16 @ map fst shared16 @ map fst shared8 @ map fst gates32 @ [EXWORD_TOUCH_PGDR])"
  by (cases x; auto split: option.splits list.splits access.splits dest!: map_of_SomeD intro: rev_image_eqI)

lemma considerate_keysc: "traced considerate t \<Longrightarrow> x \<in> set t \<Longrightarrow> is_write x \<Longrightarrow> \<not> keysc_register (address x)"
proof (induction t)
  case (Cons y t)
  then consider "x = y" "considerate x t" | "traced considerate t" "x \<in> set t" by auto
  then show ?case
  proof cases
    case 1
    from bspec [OF writable_apart [unfolded list_all_iff] considerate_listed [OF 1(2) Cons.prems(3)]]
    show ?thesis unfolding keysc_register_def by (auto simp del: upt_Suc simp: atLeast0LessThan)
  qed (use Cons in blast)
qed simp

text \<open>A device for the examples: every register reads as ones.\<close>

definition demo_bus :: "unit bus" where
  "demo_bus = \<lparr>bus_rd8 = (\<lambda>_ d. (-1, d)), bus_rd16 = (\<lambda>_ d. (-1, d)), bus_rd32 = (\<lambda>_ d. (-1, d)),
     bus_wr8 = (\<lambda>_ _ d. d), bus_wr16 = (\<lambda>_ _ d. d), bus_wr32 = (\<lambda>_ _ d. d)\<rparr>"

definition demo_init :: init_env where
  "demo_init = \<lparr>clk_get_sys = 0, clk_prepare_enable = 0, input_allocate_device = (\<lambda>_. True),
     input_register_device = (\<lambda>_. 0), kthread_run = 0\<rparr>"



text \<open>A mode that is never asked for leaves its hardware alone: without the touch bit in the
  boot parameter and in every value written later, no register of the converter and not its
  clock gate is read or written; with no bit at all, the only register ever written is the
  clock-gate word of the key scanner.\<close>

theorem keypad_modes_isolated:
  fixes b :: "'w bus"
  assumes "exword_scan_thread b V (snd (run_state (exword_keypad_init b e) (keypad_boot d mode))) s" and "mode \<in> V"
  shows "((\<forall>v\<in>V. \<not> bit (subpad_request v) 1) \<longrightarrow> (\<forall>x\<in>set (trace s). address x \<notin> set converter)) \<and>
    ((\<forall>v\<in>V. subpad_request v = 0) \<longrightarrow> (\<forall>x\<in>set (trace s). is_write x \<longrightarrow> address x = EXWORD_MSTPCR0))"
proof (intro conjI impI)
  assume "\<forall>v\<in>V. \<not> bit (subpad_request v) 1"
  then have W: "V \<subseteq> {v. \<not> bit (subpad_request v) 1}" and m: "\<not> bit (subpad_request mode) 1" using assms(2) by auto
  from m have "no_touch (snd (run_state (exword_keypad_init b e) (keypad_boot d mode)))"
    unfolding no_touch_def by (intro init_keeps boot_no_adc.init) (simp add: modes_def keypad_boot_def)
  from no_touch.thread [OF scan_thread_mono [OF assms(1) W] this]
  show "\<forall>x\<in>set (trace s). address x \<notin> set converter" by (simp add: no_touch_def safe_def no_adc_def [abs_def] traced_all)
next
  assume "\<forall>v\<in>V. subpad_request v = 0"
  then have W: "V \<subseteq> {v. subpad_request v = 0}" and m: "subpad_request mode = 0" using assms(2) by auto
  from m have "no_pad (snd (run_state (exword_keypad_init b e) (keypad_boot d mode)))"
    unfolding no_pad_alt by (intro init_keeps boot_gate_only.init) (simp add: modes_def keypad_boot_def)
  from no_pad.thread [OF scan_thread_mono [OF assms(1) W] this]
  show "\<forall>x\<in>set (trace s). is_write x \<longrightarrow> address x = EXWORD_MSTPCR0"
    by (simp add: no_pad_def safe_def gate_only_def [abs_def] traced_all)
qed

theorem keypad_modes_isolated_witness:
  "list_all (\<lambda>x. address x \<notin> set converter) (trace (snd (run_state (scan_iteration demo_bus)
     (snd (run_state (exword_keypad_init demo_bus demo_init) (keypad_boot () 5))))))"
proof -
  have "\<not> bit (subpad_request 5) 1" by (simp add: subpad_request_def)
  then show ?thesis
    using keypad_modes_isolated [of demo_bus "{5}" demo_init "()" 5, OF scan_loop [OF scan_start]]
    by (simp add: list_all_iff)
qed

section \<open>Resources\<close>

text \<open>The life cycle the kernel interfaces prescribe; \<open>None\<close> is a misuse.\<close>

datatype device_life = Absent | Unregistered | Live

record resources =
  clk_held :: bool
  clk_on :: bool
  life :: "input_dev \<Rightarrow> device_life"
  running :: bool

fun use :: "kernel_call \<Rightarrow> resources \<Rightarrow> resources option" where
  "use Clk_got r = (if clk_held r then None else Some (r\<lparr>clk_held := True\<rparr>))"
| "use Clk_enabled r = (if clk_held r \<and> \<not> clk_on r then Some (r\<lparr>clk_on := True\<rparr>) else None)"
| "use Clk_disable_unprepare r = (if clk_on r then Some (r\<lparr>clk_on := False\<rparr>) else None)"
| "use Clk_put r = (if clk_held r \<and> \<not> clk_on r then Some (r\<lparr>clk_held := False\<rparr>) else None)"
| "use (Allocated d) r = (if life r d = Absent then Some (r\<lparr>life := (life r)(d := Unregistered)\<rparr>) else None)"
| "use (Free_device d) r = (if life r d = Unregistered then Some (r\<lparr>life := (life r)(d := Absent)\<rparr>) else None)"
| "use (Capability d c) r = (if life r d = Unregistered then Some r else None)"
| "use (Registered d) r = (if life r d = Unregistered then Some (r\<lparr>life := (life r)(d := Live)\<rparr>) else None)"
| "use (Unregister_device d) r = (if life r d = Live then Some (r\<lparr>life := (life r)(d := Absent)\<rparr>) else None)"
| "use Thread_started r = (if life r Keyboard = Live \<and> life r Pointer = Live then Some (r\<lparr>running := True\<rparr>) else None)"

fun uses :: "kernel_call list \<Rightarrow> resources \<Rightarrow> resources option" where
  "uses [] r = Some r"
| "uses (c # cs) r = Option.bind (use c r) (uses cs)"

definition nothing :: resources where
  "nothing = \<lparr>clk_held = False, clk_on = False, life = (\<lambda>_. Absent), running = False\<rparr>"

lemma uses_append [simp]: "uses (cs @ ds) r = Option.bind (uses cs r) (uses ds)"
  by (induction cs arbitrary: r) (auto split: bind_splits)

lemma uses_capabilities: "life r d = Unregistered \<Longrightarrow> uses (map (Capability d) cs) r = Some r"
  by (induction cs) simp_all

lemma uses_input_capabilities: "life r Keyboard = Unregistered \<Longrightarrow> uses (input_capabilities ks) r = Some r"
  using uses_capabilities [of r Keyboard "map (\<lambda>k. Code (keycode k)) (filter (\<lambda>k. keycode k \<noteq> KEY_RESERVED) ks)"]
  by (simp add: input_capabilities_def comp_def)

definition ledger :: "'w keypad \<Rightarrow> bool \<times> bool \<times> bool \<times> kernel_call list \<times> (nat \<times> keycode) list" where
  "ledger s = (keysc_clk s, have_input s, have_pointer s, kcalls s, map (\<lambda>k. (scan k, keycode k)) (exword_keys s))"

lemma ledger_modify: "(\<And>s. ledger (f s) = ledger s) \<Longrightarrow> keeps (\<lambda>s. ledger s = c) (modify f)"
  by (rule keeps_modify) simp

lemma ledger_rest:
  "keeps (\<lambda>s. ledger s = c) (readw b a)" "keeps (\<lambda>s. ledger s = c) (readl b a)" "keeps (\<lambda>s. ledger s = c) (writel b a z)"
  by (rule keeps_rest; simp add: ledger_def)+

lemma ledger_words: "keeps (\<lambda>s. ledger s = c) (read_words b ns)"
  by (induction ns) (simp_all, (rule ledger_rest kp_rule_set | assumption)+)

lemma ledger_prime: "keeps (\<lambda>s. ledger s = c) (prime_reads b n st)"
  by (induction n arbitrary: st) (simp_all add: exword_read_state_def keeps_ret keeps_bind ledger_words)

lemma ledger_snapshot: "keeps (\<lambda>s. ledger s = c) (snapshot_regs b ns)"
  by (induction ns) (simp_all add: exword_snapshot_reg_def, (rule ledger_rest kp_rule_set | assumption)+)

lemma ledger_hardware: "keeps (\<lambda>s. ledger s = c) (init_hardware b)"
  unfolding init_hardware_def exword_report_firmware_setup_def exword_touch_load_firmware_setup_def
    exword_touch_read_calibration_def exword_touch_snapshot_long_def exword_prime_scanner_def
  by (rule ledger_snapshot ledger_prime ledger_rest ledger_modify kp_rule_set | simp add: ledger_def)+

text \<open>What the clock and the devices leave behind, call by call.\<close>

definition holding :: "resources \<Rightarrow> 'w keypad \<Rightarrow> bool" where
  "holding r s \<longleftrightarrow> uses (kcalls s) nothing = Some r \<and> keysc_clk s = clk_on r \<and> clk_held r = clk_on r"

lemma init_clock_holding: "triple (\<lambda>s. kcalls s = []) (init_clock e)
   (\<lambda>_ s. holding (nothing\<lparr>clk_held := (clk_get_sys e = 0 \<and> clk_prepare_enable e = 0),
                           clk_on := (clk_get_sys e = 0 \<and> clk_prepare_enable e = 0)\<rparr>) s)"
  by (auto simp: triple_def init_clock_def kcall_def holding_def nothing_def)

lemma hardware_holding: "triple (holding r) (init_hardware b) (\<lambda>_. holding r)"
proof (rule tripleI)
  fix s :: "'a keypad" and a s' assume "holding r s" and "run_state (init_hardware b) s = (a, s')"
  with keepsD [OF ledger_hardware this(2) refl] show "holding r s'" by (simp add: holding_def ledger_def)
qed

definition init_outcome :: "bool \<Rightarrow> int \<Rightarrow> 'w keypad \<Rightarrow> bool" where
  "init_outcome clk r s \<longleftrightarrow> uses (kcalls s) nothing = Some
     (if r = 0 then \<lparr>clk_held = clk, clk_on = clk, life = (\<lambda>_. Live), running = True\<rparr> else nothing) \<and>
     have_input s = (r = 0) \<and> have_pointer s = (r = 0)"

lemma life_ext: "f = g \<longleftrightarrow> f Keyboard = g Keyboard \<and> f Pointer = g Pointer" for f g :: "input_dev \<Rightarrow> device_life"
  by (metis ext input_dev.exhaust)

lemma all_devices: "(\<forall>dv. P dv) \<longleftrightarrow> P Keyboard \<and> P Pointer"
  by (metis input_dev.exhaust)

definition clocked :: "bool \<Rightarrow> resources" where
  "clocked c = nothing\<lparr>clk_held := c, clk_on := c\<rparr>"

lemma clocked_simps [simp]: "clk_held (clocked c) = c" "clk_on (clocked c) = c" "life (clocked c) = (\<lambda>_. Absent)"
  "running (clocked c) = False" "clocked False = nothing"
  by (simp_all add: clocked_def nothing_def)

lemma run_words_ledger: "run_state (read_words b ns) s = (a, s') \<Longrightarrow> ledger s' = ledger s"
  by (drule keepsD [OF ledger_words _ refl])

lemma start_outcome:
  assumes "uses (kcalls s) nothing = Some (clocked c\<lparr>life := \<lambda>_. Live\<rparr>)" and "keysc_clk s = c"
    and "have_input s" and "have_pointer s" and "run_state (init_start b e) s = (r, s')"
  shows "init_outcome c r s'"
proof (cases "kthread_run e = 0")
  case True
  obtain v d where rd: "bus_rd32 b EXWORD_MSTPCR0 (dev s) = (v, d)" by (rule prod.exhaust)
  let ?s = "s\<lparr>kcalls := kcalls s @ [Thread_started], dev := d, trace := Rd32 EXWORD_MSTPCR0 v # trace s\<rparr>"
  obtain ws s1 where rw: "run_state (read_words b [6..<15]) ?s = (ws, s1)" by (rule prod.exhaust)
  with assms(5) True rd have r: "r = 0" "s' = s1"
    by (auto simp: init_start_def kcall_def readl_def simp del: upt_Suc read_words.simps split: prod.splits)
  from run_words_ledger [OF rw] r assms(1-4) show ?thesis
    by (simp add: init_outcome_def ledger_def clocked_def nothing_def)
next
  case False
  with assms show ?thesis
    by (cases c) (auto simp: init_start_def kcall_def release_clock_def init_outcome_def nothing_def clocked_def
        life_ext)
qed

lemma register_outcome:
  assumes "uses (kcalls s) nothing = Some (clocked c\<lparr>life := \<lambda>_. Unregistered\<rparr>)" and "keysc_clk s = c"
    and "have_input s" and "have_pointer s" and "run_state (init_register b e) s = (r, s')"
  shows "init_outcome c r s'"
proof (cases "input_register_device e Keyboard = 0 \<and> input_register_device e Pointer = 0")
  case True
  with assms(5) have "run_state (init_start b e) (s\<lparr>kcalls := kcalls s @ [Registered Keyboard, Registered Pointer]\<rparr>) = (r, s')"
    by (simp add: init_register_def kcall_def)
  from start_outcome [OF _ _ _ _ this, of c] assms(1-4) show ?thesis by (auto simp: clocked_def nothing_def life_ext)
next
  case False
  with assms show ?thesis
    by (cases c) (auto simp: init_register_def kcall_def release_clock_def init_outcome_def nothing_def clocked_def
        life_ext split: if_splits)
qed

lemma devices_outcome:
  assumes "uses (kcalls s) nothing = Some (clocked c)" and "keysc_clk s = c" and "\<not> have_pointer s"
    and "run_state (init_devices b e) s = (r, s')"
  shows "init_outcome c r s'"
proof (cases "input_allocate_device e Keyboard \<and> input_allocate_device e Pointer")
  case True
  let ?cs = "kcalls s @ [Allocated Keyboard, Allocated Pointer] @ input_capabilities (exword_keys s) @ pointer_capabilities"
  from True assms(4) have run: "run_state (init_register b e) (s\<lparr>have_input := True, have_pointer := True, kcalls := ?cs\<rparr>) = (r, s')"
    by (simp add: init_devices_def kcall_def)
  have "uses ?cs nothing = Some (clocked c\<lparr>life := \<lambda>_. Unregistered\<rparr>)"
    using assms(1)
    by (simp add: uses_input_capabilities uses_capabilities pointer_capabilities_def) (simp add: clocked_def nothing_def life_ext)
  with register_outcome [OF _ _ _ _ run, of c] assms(2) show ?thesis by simp
next
  case False
  with assms show ?thesis
    by (cases c) (auto simp: init_devices_def kcall_def release_clock_def init_outcome_def nothing_def clocked_def ENOMEM_def
        life_ext split: if_splits)
qed

text \<open>C22. Initialisation uses the clock, input and thread interfaces as they prescribe on every
  path, and is all or nothing: when it succeeds both input devices are registered, the scan
  thread runs and the clock is held exactly if it could be had; when it fails, in whatever
  step, everything acquired has been given back and the device pointers are cleared.\<close>

theorem keypad_init_all_or_nothing:
  assumes "run_state (exword_keypad_init b e) (keypad_boot d mode) = (r, s)"
  shows "uses (kcalls s) nothing = Some
      (if r = 0 then \<lparr>clk_held = (clk_get_sys e = 0 \<and> clk_prepare_enable e = 0),
                      clk_on = (clk_get_sys e = 0 \<and> clk_prepare_enable e = 0),
                      life = (\<lambda>_. Live), running = True\<rparr>
       else nothing) \<and>
    have_input s = (r = 0) \<and> have_pointer s = (r = 0) \<and>
    (r = 0 \<longleftrightarrow> (\<forall>dv. input_allocate_device e dv \<and> input_register_device e dv = 0) \<and> kthread_run e = 0)"
proof -
  let ?c = "clk_get_sys e = 0 \<and> clk_prepare_enable e = 0"
  obtain s1 where c: "run_state (init_clock e) (keypad_boot d mode) = ((), s1)" by (cases "run_state (init_clock e) (keypad_boot d mode)") simp
  obtain s2 where h: "run_state (init_hardware b) s1 = ((), s2)" by (cases "run_state (init_hardware b) s1") simp
  have d: "run_state (init_devices b e) s2 = (r, s)" using assms c h by (simp add: exword_keypad_init_def)
  have "kcalls (keypad_boot d mode) = []" by (simp add: keypad_boot_def)
  from tripleD [OF init_clock_holding c this] have h1: "holding (clocked ?c) s1" by (simp add: clocked_def)
  have "\<not> have_pointer s1" using c by (auto simp: init_clock_def keypad_boot_def kcall_def split: if_splits)
  with tripleD [OF hardware_holding h h1] keepsD [OF ledger_hardware h refl]
  have "init_outcome ?c r s" by (intro devices_outcome [OF _ _ _ d]) (simp_all add: holding_def ledger_def)
  moreover have "r = 0 \<longleftrightarrow> (\<forall>dv. input_allocate_device e dv \<and> input_register_device e dv = 0) \<and> kthread_run e = 0"
    unfolding all_devices using d
    by (auto simp: init_devices_def init_register_def init_start_def ENOMEM_def split: if_splits prod.splits)
  ultimately show ?thesis by (simp add: init_outcome_def)
qed

theorem keypad_init_all_or_nothing_witness:
  "fst (run_state (exword_keypad_init demo_bus (demo_init\<lparr>kthread_run := -12\<rparr>)) (keypad_boot () 0)) \<noteq> 0 \<and>
   uses (kcalls (snd (run_state (exword_keypad_init demo_bus (demo_init\<lparr>kthread_run := -12\<rparr>)) (keypad_boot () 0)))) nothing
     = Some nothing"
  using keypad_init_all_or_nothing [OF prod.collapse [symmetric],
      of demo_bus "demo_init\<lparr>kthread_run := -12\<rparr>" "()" 0] by (auto simp: demo_init_def)

end
