(* ===== verification/Keypad_Input.thy ===== *)
theory Keypad_Input
  imports Keypad_Safety
begin

text \<open>
  What the keypad driver tells the input core: pointer buttons that two sources can hold, keys
  that are never left pressed, the Enter key as taps, and the touch pad as an implementation of
  the gesture machine.
\<close>

section \<open>Reports\<close>

fun reported :: "input_dev \<Rightarrow> input_code \<Rightarrow> input_event list \<Rightarrow> int list" where
  "reported d c [] = []"
| "reported d c (Report d' c' v # es) = (if d' = d \<and> c' = c then [v] else []) @ reported d c es"
| "reported d c (Sync _ # es) = reported d c es"

definition level :: "input_dev \<Rightarrow> input_code \<Rightarrow> input_event list \<Rightarrow> int" where
  "level d c es = (if reported d c es = [] then 0 else last (reported d c es))"

fun toggles :: "int \<Rightarrow> int list \<Rightarrow> bool" where
  "toggles l [] = True"
| "toggles l (v # vs) = (v = 1 - l \<and> toggles v vs)"

lemma reported_append [simp]: "reported d c (es @ fs) = reported d c es @ reported d c fs"
  by (induction d c es rule: reported.induct) simp_all

lemma level_append: "level d c (es @ fs) = (if reported d c fs = [] then level d c es else last (reported d c fs))"
  by (simp add: level_def)

lemma toggles_append: "toggles l (vs @ ws) \<longleftrightarrow> toggles l vs \<and> toggles (if vs = [] then l else last vs) ws"
  by (induction l vs rule: toggles.induct) auto

lemma toggles_level: "toggles 0 (reported d c (es @ [Report d c v, Sync d'])) \<longleftrightarrow>
    toggles 0 (reported d c es) \<and> v = 1 - level d c es"
  by (simp add: toggles_append level_def)

section \<open>Pointer buttons\<close>

fun pad_button :: "touch_zone \<Rightarrow> button" where
  "pad_button TOUCH_BUTTON_LEFT = BTN_LEFT"
| "pad_button TOUCH_BUTTON_RIGHT = BTN_RIGHT"
| "pad_button _ = BTN_NONE"

abbreviation sources_of :: "'w keypad \<Rightarrow> button \<Rightarrow> u8" where
  "sources_of s bt \<equiv> exword_pointer_button_sources s ! nat (exword_pointer_button_index bt)"

text \<open>Button by button: the input core has been told alternately of presses and releases, last of
  the state that follows from the sources; the pad holds exactly the button \<open>A\<close>, the keys at most
  the buttons \<open>K\<close>.\<close>

definition buttons_inv :: "button \<Rightarrow> (button \<Rightarrow> bool) \<Rightarrow> 'w keypad \<Rightarrow> bool" where
  "buttons_inv A K s \<longleftrightarrow> length (exword_pointer_button_sources s) = 3 \<and>
     (\<forall>bt. bt \<noteq> BTN_NONE \<longrightarrow>
        toggles 0 (reported Pointer (Btn bt) (events s)) \<and>
        level Pointer (Btn bt) (events s) = (if sources_of s bt \<noteq> 0 then 1 else 0) \<and>
        sources_of s bt AND NOT 3 = 0 \<and>
        (bit (sources_of s bt) 1 \<longleftrightarrow> A = bt) \<and> (bit (sources_of s bt) 0 \<longrightarrow> K bt))"

lemma index_inj: "bt \<noteq> BTN_NONE \<Longrightarrow> bt' \<noteq> BTN_NONE \<Longrightarrow>
    nat (exword_pointer_button_index bt) = nat (exword_pointer_button_index bt') \<longleftrightarrow> bt = bt'"
  by (cases bt; cases bt'; simp)

lemma index_range: "bt \<noteq> BTN_NONE \<Longrightarrow> nat (exword_pointer_button_index bt) < 3 \<and> \<not> exword_pointer_button_index bt < 0"
  by (cases bt) simp_all

definition button_word :: "u8 \<Rightarrow> u8 \<Rightarrow> bool \<Rightarrow> u8" where
  "button_word w src dn = (if dn then w OR src else w AND NOT src)"

lemma set_pointer_button_run:
  assumes "bt \<noteq> BTN_NONE"
  shows "run_state (exword_set_pointer_button bt src dn) s =
    (let w = sources_of s bt; w' = button_word w src dn;
         s' = s\<lparr>exword_pointer_button_sources := (exword_pointer_button_sources s)[nat (exword_pointer_button_index bt) := w']\<rparr>
     in if (w \<noteq> 0) = (w' \<noteq> 0) then (False, s')
        else (True, s'\<lparr>events := events s @ [Report Pointer (Btn bt) (if w' \<noteq> 0 then 1 else 0), Sync Pointer]\<rparr>))"
  using index_range [OF assms]
  by (auto simp: exword_set_pointer_button_def Let_def button_word_def input_report_def)

lemma sources_updated:
  assumes "length (exword_pointer_button_sources s) = 3" and "bt \<noteq> BTN_NONE" and "bt' \<noteq> BTN_NONE"
  shows "(exword_pointer_button_sources s)[nat (exword_pointer_button_index bt) := w] ! nat (exword_pointer_button_index bt')
    = (if bt' = bt then w else sources_of s bt')"
  using assms index_range [OF assms(2)] index_inj [OF assms(3,2)] by (auto simp: nth_list_update)

lemma button_step:
  assumes inv: "buttons_inv A K s" and bt: "bt \<noteq> BTN_NONE" and run: "run_state (exword_set_pointer_button bt src dn) s = (r, s')"
    and w: "w' = button_word (sources_of s bt) src dn" and small: "w' AND NOT 3 = 0"
    and touch: "\<And>b. b \<noteq> BTN_NONE \<Longrightarrow> b \<noteq> bt \<Longrightarrow> (A' = b) = (A = b)" "bit w' 1 \<longleftrightarrow> A' = bt"
    and keys: "\<And>b. b \<noteq> bt \<Longrightarrow> K' b = K b" "bit w' 0 \<longrightarrow> K' bt"
  shows "buttons_inv A' K' s'"
proof -
  have len: "length (exword_pointer_button_sources s) = 3" using inv by (simp add: buttons_inv_def)
  have old: "toggles 0 (reported Pointer (Btn b) (events s)) \<and>
      level Pointer (Btn b) (events s) = (if sources_of s b \<noteq> 0 then 1 else 0) \<and> sources_of s b AND NOT 3 = 0 \<and>
      (bit (sources_of s b) 1 \<longleftrightarrow> A = b) \<and> (bit (sources_of s b) 0 \<longrightarrow> K b)" if "b \<noteq> BTN_NONE" for b
    using inv that unfolding buttons_inv_def by blast
  let ?new = "if (sources_of s bt \<noteq> 0) = (w' \<noteq> 0) then []
    else [Report Pointer (Btn bt) (if w' \<noteq> 0 then 1 else 0), Sync Pointer]"
  have src': "exword_pointer_button_sources s' = (exword_pointer_button_sources s)[nat (exword_pointer_button_index bt) := w']"
    and ev': "events s' = events s @ ?new"
    using run unfolding set_pointer_button_run [OF bt] w by (auto simp: Let_def split: if_splits)
  have "toggles 0 (reported Pointer (Btn b) (events s')) \<and>
      level Pointer (Btn b) (events s') = (if sources_of s' b \<noteq> 0 then 1 else 0) \<and> sources_of s' b AND NOT 3 = 0 \<and>
      (bit (sources_of s' b) 1 \<longleftrightarrow> A' = b) \<and> (bit (sources_of s' b) 0 \<longrightarrow> K' b)" if b: "b \<noteq> BTN_NONE" for b
  proof (cases "b = bt")
    case True
    have "sources_of s' bt = w'" unfolding src' sources_updated [OF len bt bt] by simp
    with True old [OF bt] small touch(2) keys(2) show ?thesis
      unfolding ev' by (auto simp: level_append toggles_append level_def split: if_splits)
  next
    case False
    have "sources_of s' b = sources_of s b" unfolding src' sources_updated [OF len bt b] using False by simp
    moreover have "reported Pointer (Btn b) ?new = []" using False by simp
    ultimately show ?thesis
      using old [OF b] touch(1) [OF b False] keys(1) [OF False] unfolding ev' by (simp only: reported_append level_append) simp
  qed
  then show ?thesis using len unfolding buttons_inv_def src' by simp
qed

lemma source_bits:
  fixes w v c :: u8
  assumes "w AND c = 0"
  shows "v AND c = 0 \<Longrightarrow> (w OR v) AND c = 0" and "(w AND v) AND c = 0"
  using assms by (auto simp: bit_eq_iff bit_simps)

lemma bit_two: "bit (2 :: u8) n \<longleftrightarrow> n = 1"
  using bit_exp_iff [where 'a = u8, of 1 n] by auto

lemmas source_defs = button_word_def EXWORD_POINTER_SOURCE_KEYPAD_def EXWORD_POINTER_SOURCE_TOUCH_def
  source_bits bit_or_iff bit_and_iff bit_not_iff bit_two bit_1_iff

lemma buttons_inv_at: "buttons_inv A K s \<Longrightarrow> bt \<noteq> BTN_NONE \<Longrightarrow> sources_of s bt AND NOT 3 = 0 \<and>
    (bit (sources_of s bt) 1 \<longleftrightarrow> A = bt) \<and> (bit (sources_of s bt) 0 \<longrightarrow> K bt)"
  unfolding buttons_inv_def by blast

lemma key_button: "bt \<noteq> BTN_NONE \<Longrightarrow>
    triple (buttons_inv A K) (exword_set_pointer_button bt EXWORD_POINTER_SOURCE_KEYPAD dn) (\<lambda>_. buttons_inv A (K(bt := dn)))"
  by (rule tripleI, frule (1) buttons_inv_at, erule (2) button_step [OF _ _ _ refl])
    (auto simp: source_defs)

lemma touch_press: "bt \<noteq> BTN_NONE \<Longrightarrow>
    triple (buttons_inv BTN_NONE K) (exword_set_pointer_button bt EXWORD_POINTER_SOURCE_TOUCH True) (\<lambda>_. buttons_inv bt K)"
  by (rule tripleI, frule (1) buttons_inv_at, erule (2) button_step [OF _ _ _ refl]) (auto simp: source_defs)

lemma touch_release: "bt \<noteq> BTN_NONE \<Longrightarrow>
    triple (buttons_inv bt K) (exword_set_pointer_button bt EXWORD_POINTER_SOURCE_TOUCH False) (\<lambda>_. buttons_inv BTN_NONE K)"
  by (rule tripleI, frule (1) buttons_inv_at, erule (2) button_step [OF _ _ _ refl]) (auto simp: source_defs)

definition pointer_inv :: "'w keypad \<Rightarrow> bool" where
  "pointer_inv s \<longleftrightarrow> buttons_inv (pad_button (g_active (exword_touch_gesture s))) (\<lambda>_. exword_mouse_mode s) s"

fun is_btn :: "input_event \<Rightarrow> bool" where
  "is_btn (Report Pointer (Btn _) _) = True"
| "is_btn _ = False"

lemma no_btn_reported: "list_all (\<lambda>e. \<not> is_btn e) es \<Longrightarrow> reported Pointer (Btn bt) es = []"
proof (induction es)
  case (Cons e es)
  then show ?case by (cases e rule: is_btn.cases) auto
qed simp

lemma buttons_inv_frame:
  assumes "exword_pointer_button_sources s' = exword_pointer_button_sources s"
    and "events s' = events s @ es" and "list_all (\<lambda>e. \<not> is_btn e) es"
  shows "buttons_inv A K s' = buttons_inv A K s"
  using assms no_btn_reported [OF assms(3)] by (simp add: buttons_inv_def level_append)

lemma button_mono: "buttons_inv A K s \<Longrightarrow> (\<And>b. K b \<Longrightarrow> K' b) \<Longrightarrow> buttons_inv A K' s"
  unfolding buttons_inv_def by blast

lemma set_pointer_button_frame:
  assumes "run_state (exword_set_pointer_button bt src dn) s = (r, s')"
  shows "exword_touch_gesture s' = exword_touch_gesture s \<and> exword_mouse_mode s' = exword_mouse_mode s \<and>
    exword_keys s' = exword_keys s \<and> exword_enter_press_seen s' = exword_enter_press_seen s \<and>
    reported Keyboard c (events s') = reported Keyboard c (events s)"
  using assms by (auto simp: exword_set_pointer_button_def Let_def input_report_def split: if_splits)

lemma pointer_inv_quiet:
  assumes "\<And>s. exword_pointer_button_sources (f s) = exword_pointer_button_sources s"
    and "\<And>s. events (f s) = events s" and "\<And>s. exword_mouse_mode (f s) = exword_mouse_mode s"
    and "\<And>s. g_active (exword_touch_gesture (f s)) = g_active (exword_touch_gesture s)"
  shows "keeps pointer_inv (modify f)"
  using assms buttons_inv_frame [of "f s" s "[]" for s] by (auto simp: pointer_inv_def intro!: keeps_modify)

lemma pointer_inv_emit: "list_all (\<lambda>e. \<not> is_btn e) es \<Longrightarrow> keeps pointer_inv (input_report es)"
  unfolding input_report_def pointer_inv_def
  by (rule keeps_modify) (simp add: buttons_inv_frame [where es = es])

lemma pointer_inv_key_button:
  assumes "run_state (exword_set_pointer_button bt EXWORD_POINTER_SOURCE_KEYPAD dn) s = (r, s')"
    and "pointer_inv s" and "exword_mouse_mode s" and "bt \<noteq> BTN_NONE"
  shows "pointer_inv s'"
  using tripleD [OF key_button [OF assms(4)] assms(1) assms(2) [unfolded pointer_inv_def]]
    set_pointer_button_frame [OF assms(1)] assms(3)
  by (auto simp: pointer_inv_def intro: button_mono)

lemma release_keypad_run:
  assumes "run_state exword_release_keypad_mouse_buttons s = (r, s')" and "buttons_inv A K s"
  shows "buttons_inv A (\<lambda>_. False) s' \<and> exword_touch_gesture s' = exword_touch_gesture s \<and>
    exword_mouse_mode s' = exword_mouse_mode s \<and> reported Keyboard c (events s') = reported Keyboard c (events s)"
proof -
  obtain r1 s1 r2 s2 r3 where
    1: "run_state (exword_set_pointer_button BTN_LEFT EXWORD_POINTER_SOURCE_KEYPAD False) s = (r1, s1)" and
    2: "run_state (exword_set_pointer_button BTN_MIDDLE EXWORD_POINTER_SOURCE_KEYPAD False) s1 = (r2, s2)" and
    3: "run_state (exword_set_pointer_button BTN_RIGHT EXWORD_POINTER_SOURCE_KEYPAD False) s2 = (r3, s')"
    using assms(1) by (auto simp: exword_release_keypad_mouse_buttons_def split: prod.splits)
  have n: "BTN_LEFT \<noteq> BTN_NONE" "BTN_MIDDLE \<noteq> BTN_NONE" "BTN_RIGHT \<noteq> BTN_NONE" by simp_all
  note b1 = tripleD [OF key_button [OF n(1)] 1 assms(2)]
  note b2 = tripleD [OF key_button [OF n(2)] 2 b1]
  have "buttons_inv A (K(BTN_LEFT := False, BTN_MIDDLE := False, BTN_RIGHT := False)) s'"
    by (rule tripleD [OF key_button [OF n(3)] 3 b2])
  moreover have "\<not> (K(BTN_LEFT := False, BTN_MIDDLE := False, BTN_RIGHT := False)) bt" if "bt \<noteq> BTN_NONE" for bt
    using that by (cases bt) simp_all
  ultimately have "buttons_inv A (\<lambda>_. False) s'" unfolding buttons_inv_def by blast
  with 1 2 3 show ?thesis by (auto dest!: set_pointer_button_frame [where c = c])
qed

lemma pointer_inv_toggle: "keeps pointer_inv exword_toggle_mouse_mode"
proof (rule keepsI)
  fix s :: "'a keypad" and r s'
  assume inv: "pointer_inv s" and run: "run_state exword_toggle_mouse_mode s = (r, s')"
  let ?s = "s\<lparr>exword_mouse_mode := \<not> exword_mouse_mode s, exword_mouse_repeat_scans := 0\<rparr>"
  have B: "buttons_inv (pad_button (g_active (exword_touch_gesture s))) (\<lambda>_. exword_mouse_mode s) ?s"
    using inv buttons_inv_frame [of ?s s "[]"] by (simp add: pointer_inv_def)
  show "pointer_inv s'"
  proof (cases "exword_mouse_mode s")
    case True
    then have "run_state exword_release_keypad_mouse_buttons ?s = (r, s')"
      using run by (simp add: exword_toggle_mouse_mode_def)
    from release_keypad_run [OF this B, of undefined] True show ?thesis by (simp add: pointer_inv_def)
  next
    case False
    then have "pointer_inv ?s" using B by (auto simp: pointer_inv_def intro: button_mono)
    moreover have "run_state exword_release_mouse_keys_from_keyboard ?s = (r, s')"
      using run False by (simp add: exword_toggle_mouse_mode_def)
    moreover have "keeps pointer_inv exword_release_mouse_keys_from_keyboard"
      unfolding exword_release_mouse_keys_from_keyboard_def by (rule pointer_inv_emit) simp
    ultimately show ?thesis by (blast dest: keepsD)
  qed
qed

lemma set_gesture_buttons:
  "run_state (set_gesture f) s = (r, s') \<Longrightarrow> buttons_inv A K s' = buttons_inv A K s \<and>
     exword_touch_gesture s' = f (exword_touch_gesture s) \<and> exword_mouse_mode s' = exword_mouse_mode s"
  using buttons_inv_frame [of s' s "[]"] by (auto simp: set_gesture_def)

lemma pointer_inv_gesture: "(\<And>g. g_active (f g) = g_active g) \<Longrightarrow> keeps pointer_inv (set_gesture f)"
  unfolding set_gesture_def by (rule pointer_inv_quiet) simp_all

lemma release_active_run:
  assumes inv: "pointer_inv s" and run: "run_state exword_touch_release_active s = (r, s')"
  shows "pointer_inv s'"
proof -
  let ?g = "exword_touch_gesture s" and ?f = "\<lambda>g. g\<lparr>g_active := TOUCH_NONE, g_repeat := 0\<rparr>"
  obtain s1 where
    one: "buttons_inv BTN_NONE (\<lambda>_. exword_mouse_mode s) s1" "exword_mouse_mode s1 = exword_mouse_mode s" and
    two: "run_state (set_gesture ?f) s1 = ((), s')"
  proof (cases "pad_button (g_active ?g) = BTN_NONE")
    case True
    then have "run_state (set_gesture ?f) s = ((), s')"
      using run by (cases "g_active ?g") (auto simp: exword_touch_release_active_def split: prod.splits)
    with inv True that show ?thesis by (simp add: pointer_inv_def)
  next
    case False
    let ?bt = "pad_button (g_active ?g)"
    obtain a s1 where b: "run_state (exword_set_pointer_button ?bt EXWORD_POINTER_SOURCE_TOUCH False) s = (a, s1)"
      by (rule prod.exhaust)
    then have "run_state (set_gesture ?f) s1 = ((), s')"
      using run False by (cases "g_active ?g") (auto simp: exword_touch_release_active_def split: prod.splits)
    moreover have "buttons_inv BTN_NONE (\<lambda>_. exword_mouse_mode s) s1"
      using tripleD [OF touch_release [OF False] b] inv by (simp add: pointer_inv_def)
    ultimately show ?thesis using set_pointer_button_frame [OF b] that by blast
  qed
  with set_gesture_buttons [OF two] show ?thesis by (simp add: pointer_inv_def)
qed

lemma pointer_inv_release: "keeps pointer_inv exword_touch_release_active"
  by (rule keepsI) (rule release_active_run)

lemma pointer_inv_touch_motion: "keeps pointer_inv (exword_touch_report_motion z)"
  unfolding exword_touch_report_motion_def report_rel_def
  by (cases z; simp; (rule pointer_inv_emit kp_rule_set | simp)+)

lemma pointer_inv_missed: "keeps pointer_inv touch_missed"
  unfolding touch_missed_def by (rule pointer_inv_release pointer_inv_gesture kp_rule_set | simp)+

lemma pointer_inv_held: "keeps pointer_inv (touch_held z)"
  unfolding touch_held_def by (rule pointer_inv_touch_motion pointer_inv_gesture kp_rule_set | simp)+

text \<open>Activating a zone when none is active.\<close>

lemma activate_run:
  assumes inv: "buttons_inv BTN_NONE (\<lambda>_. exword_mouse_mode s) s" and act: "g_active (exword_touch_gesture s) = z"
    and run: "run_state (exword_touch_activate_zone z) s = (r, s')"
  shows "pointer_inv s'"
proof (cases "pad_button z = BTN_NONE")
  case True
  then have "run_state (exword_touch_report_motion z) s = (r, s')"
    using run by (cases z) (simp_all add: exword_touch_activate_zone_def)
  moreover have "pointer_inv s" using inv act True by (simp add: pointer_inv_def)
  ultimately show ?thesis using pointer_inv_touch_motion by (blast dest: keepsD)
next
  case False
  then have b: "run_state (exword_set_pointer_button (pad_button z) EXWORD_POINTER_SOURCE_TOUCH True) s = (r, s')"
    using run by (cases z) (simp_all add: exword_touch_activate_zone_def)
  from tripleD [OF touch_press [OF False] b inv] set_pointer_button_frame [OF b, of undefined] act
  show ?thesis by (simp add: pointer_inv_def)
qed

definition idle_inv :: "'w keypad \<Rightarrow> bool" where
  "idle_inv s \<longleftrightarrow> pointer_inv s \<and> g_active (exword_touch_gesture s) = TOUCH_NONE"

lemma idle_gesture: "(\<And>g. g_active (f g) = g_active g) \<Longrightarrow> keeps idle_inv (set_gesture f)"
  unfolding idle_inv_def
  by (rule keeps_and [OF pointer_inv_gesture]) (auto simp: set_gesture_def intro!: keeps_modify)

lemma candidate_run: "triple idle_inv (touch_candidate z p) (\<lambda>_. pointer_inv)"
proof -
  have last: "triple idle_inv (do {
       set_gesture (\<lambda>g. g\<lparr>g_active := z, g_candidate := TOUCH_NONE, g_count := 0, g_repeat := 0\<rparr>);
       exword_touch_activate_zone z }) (\<lambda>_. pointer_inv)"
  proof (rule triple_bind)
    show "triple idle_inv (set_gesture (\<lambda>g. g\<lparr>g_active := z, g_candidate := TOUCH_NONE, g_count := 0, g_repeat := 0\<rparr>))
      (\<lambda>_ s. buttons_inv BTN_NONE (\<lambda>_. exword_mouse_mode s) s \<and> g_active (exword_touch_gesture s) = z)"
      by (auto intro!: tripleI simp: idle_inv_def pointer_inv_def dest!: set_gesture_buttons [where A = BTN_NONE])
  qed (auto intro!: tripleI activate_run)
  have stop: "triple idle_inv (ret False) (\<lambda>_. pointer_inv)" by (auto simp: triple_def idle_inv_def)
  have gets: "triple idle_inv (gets exword_touch_gesture) (\<lambda>_. idle_inv)" by (simp add: triple_def)
  have upd: "triple idle_inv (set_gesture f) (\<lambda>_. idle_inv)" if "\<And>g. g_active (f g) = g_active g" for f
    using idle_gesture [OF that] by (simp add: keeps_def)
  show ?thesis
    unfolding touch_candidate_def
    by (rule triple_bind [OF gets], rule triple_bind [where R = "\<lambda>_. idle_inv"], simp add: upd,
        rule triple_bind [OF upd], simp, rule triple_bind [OF gets]) (simp add: last stop)
qed

lemma pointer_inv_evaluate: "keeps pointer_inv (touch_evaluate r)"
proof (cases r)
  case None
  then show ?thesis by (simp add: touch_evaluate_def pointer_inv_missed)
next
  case (Some p)
  show ?thesis
  proof (rule keepsI)
    fix s :: "'a keypad" and a s'
    assume inv: "pointer_inv s" and run: "run_state (touch_evaluate r) s = (a, s')"
    let ?s = "s\<lparr>exword_touch_gesture := (exword_touch_gesture s)\<lparr>g_release := 0\<rparr>, exword_touch_first_sample_reported := True\<rparr>"
    let ?a = "g_active (exword_touch_gesture s)"
    have inv': "pointer_inv ?s" using inv buttons_inv_frame [of ?s s "[]"] by (simp add: pointer_inv_def)
    show "pointer_inv s'"
    proof (cases "?a = TOUCH_NONE")
      case True
      with run Some have "\<exists>z. run_state (touch_candidate z p) ?s = (a, s')"
        by (auto simp: touch_evaluate_def set_gesture_def Let_def)
      moreover have "idle_inv ?s" using inv' True by (simp add: idle_inv_def)
      ultimately show ?thesis using tripleD [OF candidate_run] by blast
    next
      case False
      with run Some have "run_state (touch_held ?a) ?s = (a, s')"
        by (auto simp: touch_evaluate_def set_gesture_def Let_def)
      with inv' pointer_inv_held show ?thesis by (blast dest: keepsD)
    qed
  qed
qed

lemma mouse_button_scan: "exword_mouse_button sc \<noteq> BTN_NONE \<Longrightarrow> exword_mouse_action_scan sc"
  by (auto simp: exword_mouse_button_def exword_mouse_action_scan_def split: if_splits)

lemma pointer_inv_scan_key: "keeps pointer_inv (scan_key st k f)"
proof (rule keepsI)
  fix s :: "'a keypad" and r s'
  assume inv: "pointer_inv s" and run: "run_state (scan_key st k f) s = (r, s')"
  let ?d = "exword_key_down st (scan k)"
  consider "s' = s" | "run_state exword_toggle_mouse_mode s = ((), s')"
    | "exword_mouse_mode s" "exword_mouse_button (scan k) \<noteq> BTN_NONE"
      "\<exists>a. run_state (exword_set_pointer_button (exword_mouse_button (scan k)) EXWORD_POINTER_SOURCE_KEYPAD ?d) s = (a, s')"
    | "run_state (do { onlyif (?d \<or> \<not> exword_enter_press_seen s) exword_report_enter_tap;
         modify (\<lambda>s. s\<lparr>exword_enter_press_seen := ?d\<rparr>) }) s = ((), s')"
    | "run_state (input_report [Report Keyboard (Code (keycode k)) (if ?d then 1 else 0)]) s = ((), s')"
    using run by (auto simp: scan_key_def Let_def split: if_splits prod.splits)
  then show "pointer_inv s'"
  proof cases
    case 4
    have "keeps pointer_inv (do { onlyif (?d \<or> \<not> exword_enter_press_seen s) exword_report_enter_tap;
         modify (\<lambda>s. s\<lparr>exword_enter_press_seen := ?d\<rparr>) })"
      unfolding exword_report_enter_tap_def by (rule pointer_inv_emit pointer_inv_quiet kp_rule_set | simp)+
    with 4 inv show ?thesis by (blast dest: keepsD)
  next
    case 5
    have "keeps pointer_inv (input_report [Report Keyboard (Code (keycode k)) (if ?d then 1 else 0)])"
      by (rule pointer_inv_emit) simp
    with 5 inv show ?thesis by (blast dest: keepsD)
  qed (use inv pointer_inv_toggle pointer_inv_key_button in \<open>blast dest: keepsD\<close>)+
qed

lemma pointer_inv_scan_keys: "keeps pointer_inv (scan_keys st ks f)"
  by (induction ks arbitrary: f) (simp_all, (rule pointer_inv_scan_key kp_rule_set | assumption)+)

lemma pointer_inv_motion: "keeps pointer_inv (scan_motion st e)"
  unfolding scan_motion_def exword_report_pointer_motion_def report_rel_def Let_def
  by (rule pointer_inv_emit pointer_inv_quiet kp_rule_set | simp)+

section \<open>Keys\<close>

text \<open>A key that the input core believes pressed is down, is not the Enter key and is not serving
  as a mouse key.\<close>

definition key_ok :: "'w keypad \<Rightarrow> exword_key \<Rightarrow> bool" where
  "key_ok s k \<longleftrightarrow> (level Keyboard (Code (keycode k)) (events s) \<noteq> 0 \<longrightarrow>
     down k \<and> keycode k \<noteq> KEY_ENTER \<and> keycode k \<noteq> KEY_RESERVED \<and>
     \<not> (exword_mouse_mode s \<and> exword_mouse_action_scan (scan k)))"

definition listed :: "exword_key \<Rightarrow> bool" where
  "listed k \<longleftrightarrow> (scan k, keycode k) \<in> set key_table"

definition mouse_codes :: "keycode list" where
  "mouse_codes = [KEY_UP, KEY_DOWN, KEY_LEFT, KEY_RIGHT, KEY_ENTER, KEY_EQUAL, KEY_LEFTCTRL]"

lemma table_facts:
  "list_all (\<lambda>(sc, c). (exword_mouse_action_scan sc = (c \<in> set mouse_codes)) \<and>
     ((sc = EXWORD_MOUSE_TOGGLE_SCAN) = (c = KEY_RESERVED)) \<and>
     (exword_mouse_action_scan sc \<longrightarrow> c \<noteq> KEY_RESERVED)) key_table"
  "distinct (map snd key_table)" "distinct (map fst key_table)"
  by code_simp+

lemma listed_facts:
  assumes "listed k"
  shows "exword_mouse_action_scan (scan k) = (keycode k \<in> set mouse_codes)"
    "scan k = EXWORD_MOUSE_TOGGLE_SCAN \<longleftrightarrow> keycode k = KEY_RESERVED"
  using table_facts(1) assms unfolding list_all_iff listed_def by auto

lemma release_reported:
  "reported Keyboard (Code c) (map (\<lambda>k. Report Keyboard (Code k) 0) ks @ [Sync Keyboard]) = replicate (count_list ks c) 0"
  by (induction ks) auto

lemma toggle_keys:
  assumes run: "run_state exword_toggle_mouse_mode s = (r, s')" and k: "listed k" "key_ok s k"
    and inv: "pointer_inv s"
  shows "key_ok s' k"
proof (cases "exword_mouse_mode s")
  case True
  let ?s = "s\<lparr>exword_mouse_mode := False, exword_mouse_repeat_scans := 0\<rparr>"
  have "buttons_inv (pad_button (g_active (exword_touch_gesture s))) (\<lambda>_. True) ?s"
    using inv True buttons_inv_frame [of ?s s "[]"] by (simp add: pointer_inv_def)
  moreover have "run_state exword_release_keypad_mouse_buttons ?s = (r, s')"
    using run True by (simp add: exword_toggle_mouse_mode_def)
  ultimately have "exword_mouse_mode s' = False"
    "reported Keyboard (Code (keycode k)) (events s') = reported Keyboard (Code (keycode k)) (events s)"
    using release_keypad_run [of ?s r s' _ _ "Code (keycode k)"] by simp_all
  then show ?thesis using k(2) by (simp add: key_ok_def level_def)
next
  case False
  then have s': "events s' = events s @ map (\<lambda>k. Report Keyboard (Code k) 0) mouse_codes @ [Sync Keyboard]" "exword_mouse_mode s'"
    using run by (auto simp: exword_toggle_mouse_mode_def exword_release_mouse_keys_from_keyboard_def input_report_def mouse_codes_def)
  have "level Keyboard (Code (keycode k)) (events s') =
      (if keycode k \<in> set mouse_codes then 0 else level Keyboard (Code (keycode k)) (events s))"
    unfolding s'(1) level_append release_reported by (auto simp: count_list_0_iff)
  then show ?thesis using k listed_facts(1) [OF k(1)] s'(2) False by (auto simp: key_ok_def)
qed

text \<open>One key: the remembered state follows the sample, and no key is left pressed.\<close>

lemma scan_key_keys:
  assumes run: "run_state (scan_key st k f) s = ((k1, f1), s')" and k: "listed k" "key_ok s k" and inv: "pointer_inv s"
  shows "k1 = k\<lparr>down := exword_key_down st (scan k)\<rparr>" and "key_ok s' k1"
    and "listed k' \<Longrightarrow> keycode k' \<noteq> keycode k \<Longrightarrow> key_ok s k' \<Longrightarrow> key_ok s' k'"
proof -
  let ?d = "exword_key_down st (scan k)"
  show k1: "k1 = k\<lparr>down := ?d\<rparr>"
    using run by (auto simp: scan_key_def Let_def split: if_splits prod.splits)
  have both: "key_ok s' k1 \<and> (listed k' \<and> keycode k' \<noteq> keycode k \<and> key_ok s k' \<longrightarrow> key_ok s' k')"
  proof (cases "?d = down k")
    case True
    with run k show ?thesis by (auto simp: scan_key_def)
  next
    case edge: False
    show ?thesis
    proof (cases "scan k = EXWORD_MOUSE_TOGGLE_SCAN")
      case True
      have lv: "level Keyboard (Code (keycode k)) (events s) = 0"
        using k listed_facts(2) [OF k(1)] True by (auto simp: key_ok_def)
      show ?thesis
      proof (cases ?d)
        case True
        with run edge \<open>scan k = _\<close> have t: "run_state exword_toggle_mouse_mode s = ((), s')"
          by (auto simp: scan_key_def Let_def split: prod.splits)
        from toggle_keys [OF t k inv] have "key_ok s' k1" using lv listed_facts(2) [OF k(1)] \<open>scan k = _\<close>
          unfolding k1 key_ok_def by simp
        with toggle_keys [OF t _ _ inv] show ?thesis by blast
      next
        case False
        with run edge \<open>scan k = _\<close> have "s' = s" by (auto simp: scan_key_def Let_def split: prod.splits)
        with lv show ?thesis unfolding k1 by (simp add: key_ok_def)
      qed
    next
      case other: False
      show ?thesis
      proof (cases "exword_mouse_mode s \<and> exword_mouse_action_scan (scan k)")
        case True
        with k have lv: "level Keyboard (Code (keycode k)) (events s) = 0" by (auto simp: key_ok_def)
        have "s' = s \<or> (\<exists>a bt src dn. run_state (exword_set_pointer_button bt src dn) s = (a, s'))"
          using run edge other True by (auto simp: scan_key_def Let_def split: if_splits prod.splits)
        then have "exword_mouse_mode s' = exword_mouse_mode s \<and> (\<forall>c. reported Keyboard c (events s') = reported Keyboard c (events s))"
          using set_pointer_button_frame by blast
        with lv show ?thesis unfolding k1 by (auto simp: key_ok_def level_def split: if_splits)
      next
        case kb: False
        have m: "exword_mouse_mode s' = exword_mouse_mode s"
          and lv': "level Keyboard (Code c) (events s') =
            (if c = keycode k then (if keycode k \<noteq> KEY_ENTER \<and> ?d then 1 else 0) else level Keyboard (Code c) (events s))" for c
          using run edge other kb k
          by (auto simp: scan_key_def Let_def exword_report_enter_tap_def input_report_def level_append key_ok_def split: if_splits)
        have "keycode k \<noteq> KEY_RESERVED" using other listed_facts(2) [OF k(1)] by simp
        with kb m lv' show ?thesis unfolding k1 by (auto simp: key_ok_def)
      qed
    qed
  qed
  then show "key_ok s' k1" by blast
  show "listed k' \<Longrightarrow> keycode k' \<noteq> keycode k \<Longrightarrow> key_ok s k' \<Longrightarrow> key_ok s' k'" using both by blast
qed

lemma scan_keys_ok:
  assumes "run_state (scan_keys st ks f) s = ((ks1, f1), s')" and "pointer_inv s"
    and "\<forall>k\<in>set ks. listed k \<and> key_ok s k" and "distinct (map keycode ks)"
  shows "ks1 = map (\<lambda>k. k\<lparr>down := exword_key_down st (scan k)\<rparr>) ks \<and> (\<forall>k\<in>set ks1. key_ok s' k) \<and>
    (\<forall>k'. listed k' \<and> keycode k' \<notin> keycode ` set ks \<and> key_ok s k' \<longrightarrow> key_ok s' k')"
  using assms
proof (induction ks arbitrary: s f ks1 f1)
  case (Cons k ks)
  obtain k2 f2 s2 ks2 where one: "run_state (scan_key st k f) s = ((k2, f2), s2)"
    and rest: "run_state (scan_keys st ks f2) s2 = ((ks2, f1), s')" and ks1: "ks1 = k2 # ks2"
    using Cons.prems(1) by (auto split: prod.splits)
  have l: "listed k" "key_ok s k" using Cons.prems(3) by auto
  note step = scan_key_keys [OF one l Cons.prems(2)]
  have "listed k2" "keycode k2 = keycode k" using l(1) step(1) by (simp_all add: listed_def)
  moreover have "pointer_inv s2" using one Cons.prems(2) pointer_inv_scan_key by (blast dest: keepsD)
  moreover have "\<forall>k'\<in>set ks. listed k' \<and> key_ok s2 k'" using Cons.prems(3,4) step(3) by (auto simp: image_iff)
  ultimately show ?case
    using Cons.IH [OF rest] Cons.prems(4) step ks1 by (auto simp: image_iff)
qed simp

lemma keys_table: "map (\<lambda>k. (scan k, keycode k)) ks = key_table \<Longrightarrow> (\<forall>k\<in>set ks. listed k) \<and> distinct (map keycode ks)"
proof
  assume t: "map (\<lambda>k. (scan k, keycode k)) ks = key_table"
  then have "set key_table = (\<lambda>k. (scan k, keycode k)) ` set ks" by (metis set_map)
  then show "\<forall>k\<in>set ks. listed k" by (auto simp: listed_def)
  from t have "map snd key_table = map keycode ks" by (metis (no_types, lifting) map_map comp_def snd_conv map_eq_conv)
  then show "distinct (map keycode ks)" using table_facts(2) by simp
qed

section \<open>The thread\<close>

definition inputs :: "'w keypad \<Rightarrow> u8 list \<times> input_event list \<times> touch_zone \<times> bool \<times> exword_key list" where
  "inputs s = (exword_pointer_button_sources s, events s, g_active (exword_touch_gesture s), exword_mouse_mode s, exword_keys s)"

definition keys_inv :: "'w keypad \<Rightarrow> bool" where
  "keys_inv s \<longleftrightarrow> pointer_inv s \<and> map (\<lambda>k. (scan k, keycode k)) (exword_keys s) = key_table \<and>
     (\<forall>k\<in>set (exword_keys s). key_ok s k)"

lemma inputs_inv: "inputs s = inputs s' \<Longrightarrow> keys_inv s = keys_inv s'"
  using buttons_inv_frame [of s s' "[]"] by (simp add: keys_inv_def pointer_inv_def inputs_def key_ok_def)

lemma keys_inv_by:
  assumes "\<And>c. keeps (\<lambda>s. inputs s = c) m"
  shows "keeps keys_inv m"
proof (rule keepsI)
  fix s a s' assume "keys_inv s" and "run_state m s = (a, s')"
  with inputs_inv [OF keepsD [OF assms this(2) refl]] show "keys_inv s'" by simp
qed

lemma inputs_modify: "(\<And>s. inputs (f s) = inputs s) \<Longrightarrow> keeps (\<lambda>s. inputs s = c) (modify f)"
  by (rule keeps_modify) simp

lemma inputs_rest:
  "keeps (\<lambda>s. inputs s = c) (readb b a)" "keeps (\<lambda>s. inputs s = c) (readw b a)" "keeps (\<lambda>s. inputs s = c) (readl b a)"
  "keeps (\<lambda>s. inputs s = c) (writeb b a x)" "keeps (\<lambda>s. inputs s = c) (writew b a y)" "keeps (\<lambda>s. inputs s = c) (writel b a z)"
  by (rule keeps_rest; simp add: inputs_def)+

lemmas inputs_free = inputs_rest inputs_modify kp_rule_set

lemma inputs_wait: "keeps (\<lambda>s. inputs s = c) (touch_wait b a n)"
  by (induction n) (simp_all add: exword_touch_disable_def, (rule inputs_free | assumption | simp add: inputs_def)+)

lemma inputs_pen_samples: "keeps (\<lambda>s. inputs s = c) (pen_samples b n)"
  by (induction n) (simp_all, (rule inputs_free | assumption)+)

lemma inputs_pixels: "keeps (\<lambda>s. inputs s = c) (draw_pixels b y xs)"
  by (induction xs) (simp_all add: exword_sublcd_data_def, (rule inputs_free | assumption)+)

lemma inputs_words: "keeps (\<lambda>s. inputs s = c) (read_words b ns)"
  by (induction ns) (simp_all, (rule inputs_free | assumption)+)

lemmas hardware_defs = exword_touch_base_pfc_def exword_touch_rest_def exword_touch_open_clock_def exword_touch_convert_def
  exword_touch_wait_adcsr_def exword_touch_wait_adccsr_def exword_touch_disable_def exword_touch_read_pen_level_def
  exword_touch_pen_down_def

lemma inputs_adc: "keeps (\<lambda>s. inputs s = c) (exword_touch_read_adc b)"
  unfolding exword_touch_read_adc_def hardware_defs Let_def
  by (rule inputs_wait inputs_free | simp add: inputs_def)+

lemma inputs_sample: "keeps (\<lambda>s. inputs s = c) (exword_touch_read_sample b)"
  unfolding exword_touch_read_sample_def hardware_defs
  by (rule inputs_adc inputs_pen_samples inputs_free)+

lemma inputs_prepare: "keeps (\<lambda>s. inputs s = c) (exword_touch_prepare_hardware b)"
  unfolding exword_touch_prepare_hardware_def hardware_defs
  by (rule inputs_wait inputs_pen_samples inputs_free | simp add: inputs_def)+

lemma inputs_gpio: "keeps (\<lambda>s. inputs s = c) (exword_touch_prepare_gpio_hardware b)"
  unfolding exword_touch_prepare_gpio_hardware_def hardware_defs
  by (rule inputs_pen_samples inputs_free | simp add: inputs_def)+

lemma inputs_row: "keeps (\<lambda>s. inputs s = c) (exword_sublcd_draw_next_row b)"
  unfolding exword_sublcd_draw_next_row_def exword_sublcd_set_row_def exword_sublcd_command_def
    exword_sublcd_data_def Let_def
  by (rule inputs_pixels inputs_free | simp add: inputs_def)+

text \<open>The touch pad does not change what the keyboard reported.\<close>

definition kbd :: "'w keypad \<Rightarrow> bool \<times> exword_key list \<times> (input_code \<Rightarrow> int list)" where
  "kbd s = (exword_mouse_mode s, exword_keys s, \<lambda>c. reported Keyboard c (events s))"

lemma kbd_inv: "kbd s = kbd s' \<Longrightarrow> key_ok s k = key_ok s' k"
  by (auto simp: kbd_def key_ok_def level_def fun_eq_iff)

lemma keys_inv_kbd:
  assumes "keeps pointer_inv m" and "\<And>c. keeps (\<lambda>s. kbd s = c) m"
  shows "keeps keys_inv m"
proof (rule keepsI)
  fix s a s' assume inv: "keys_inv s" and run: "run_state m s = (a, s')"
  have "kbd s' = kbd s" by (rule keepsD [OF assms(2) run refl])
  then show "keys_inv s'"
    using keepsD [OF assms(1) run] inv kbd_inv [of s' s] by (auto simp: keys_inv_def kbd_def)
qed

lemma kbd_modify: "(\<And>s. kbd (f s) = kbd s) \<Longrightarrow> keeps (\<lambda>s. kbd s = c) (modify f)"
  by (rule keeps_modify) simp

lemma kbd_emit: "(\<And>c. reported Keyboard c es = []) \<Longrightarrow> keeps (\<lambda>s. kbd s = c) (input_report es)"
  unfolding input_report_def by (rule kbd_modify) (simp add: kbd_def)

lemma kbd_gesture: "keeps (\<lambda>s. kbd s = c) (set_gesture f)"
  unfolding set_gesture_def by (rule kbd_modify) (simp add: kbd_def)

lemma kbd_button: "keeps (\<lambda>s. kbd s = c) (exword_set_pointer_button bt src d)"
proof (rule keepsI)
  fix s :: "'a keypad" and a s' assume k: "kbd s = c" and run: "run_state (exword_set_pointer_button bt src d) s = (a, s')"
  have "kbd s' = kbd s" unfolding kbd_def using set_pointer_button_frame [OF run] by (simp add: fun_eq_iff)
  with k show "kbd s' = c" by simp
qed

lemma kbd_touch_motion: "keeps (\<lambda>s. kbd s = c) (exword_touch_report_motion z)"
  unfolding exword_touch_report_motion_def report_rel_def
  by (cases z; simp; (rule kbd_emit kp_rule_set | simp)+)

lemma kbd_release: "keeps (\<lambda>s. kbd s = c) exword_touch_release_active"
  unfolding exword_touch_release_active_def by (rule kbd_button kbd_gesture kp_rule_set)+

lemma kbd_evaluate: "keeps (\<lambda>s. kbd s = c) (touch_evaluate r)"
  unfolding touch_evaluate_def touch_missed_def touch_held_def touch_candidate_def exword_touch_activate_zone_def Let_def
  by (cases r; simp; (rule kbd_touch_motion kbd_release kbd_button kbd_gesture kbd_modify kp_rule_set | simp add: kbd_def)+)

lemma kbd_motion: "keeps (\<lambda>s. kbd s = c) (scan_motion st e)"
  unfolding scan_motion_def exword_report_pointer_motion_def report_rel_def Let_def
  by (rule kbd_emit kbd_modify kp_rule_set | simp add: kbd_def)+

lemma keys_inv_modify: "(\<And>s. inputs (f s) = inputs s) \<Longrightarrow> keeps keys_inv (modify f)"
  by (rule keys_inv_by) (rule inputs_modify)

lemma keys_inv_touch: "keeps keys_inv (scan_touch b)"
  unfolding scan_touch_def exword_touch_poll_def
  by (rule keys_inv_kbd [OF pointer_inv_evaluate kbd_evaluate] keys_inv_by [OF inputs_sample] keys_inv_modify kp_rule_set
      | simp add: inputs_def)+

lemma keys_inv_gesture: "(\<And>g. g_active (f g) = g_active g) \<Longrightarrow> keeps keys_inv (set_gesture f)"
  by (rule keys_inv_kbd [OF pointer_inv_gesture kbd_gesture])

lemma keys_inv_mode: "keeps keys_inv (exword_service_subpad_mode b)"
  unfolding exword_service_subpad_mode_def Let_def
  by (rule keys_inv_kbd [OF pointer_inv_release kbd_release] keys_inv_gesture keys_inv_by [OF inputs_prepare]
      keys_inv_by [OF inputs_gpio] keys_inv_modify kp_rule_set | simp add: inputs_def)+

lemma keys_inv_once: "keeps keys_inv (exword_scan_once b)"
proof -
  have keys: "keeps keys_inv (do {
     keys \<leftarrow> gets exword_keys;
     (keys1, f) \<leftarrow> scan_keys sample keys f0;
     modify (\<lambda>s. s\<lparr>exword_keys := keys1\<rparr>);
     onlyif (sync f) (input_report [Sync Keyboard]);
     k f })" if k: "\<And>f. keeps keys_inv (k f)" for sample f0 and k :: "scan_flags \<Rightarrow> ('a, bool) kp"
  proof (rule keepsI)
    fix s :: "'a keypad" and r s'
    assume inv: "keys_inv s" and run: "run_state (do {
     keys \<leftarrow> gets exword_keys;
     (keys1, f) \<leftarrow> scan_keys sample keys f0;
     modify (\<lambda>s. s\<lparr>exword_keys := keys1\<rparr>);
     onlyif (sync f) (input_report [Sync Keyboard]);
     k f }) s = (r, s')"
    obtain ks1 f s1 where scan: "run_state (scan_keys sample (exword_keys s) f0) s = ((ks1, f), s1)"
      by (metis prod.exhaust)
    let ?s2 = "s1\<lparr>exword_keys := ks1, events := events s1 @ (if sync f then [Sync Keyboard] else [])\<rparr>"
    have last: "run_state (k f) ?s2 = (r, s')"
      using run scan by (auto simp: input_report_def split: if_splits)
    have p: "pointer_inv s" and t: "map (\<lambda>k. (scan k, keycode k)) (exword_keys s) = key_table"
      and ok: "\<forall>k\<in>set (exword_keys s). key_ok s k" using inv by (auto simp: keys_inv_def)
    have "pointer_inv s1" using keepsD [OF pointer_inv_scan_keys scan p] .
    then have "pointer_inv ?s2"
      using buttons_inv_frame [of ?s2 s1 "if sync f then [Sync Keyboard] else []"] by (simp add: pointer_inv_def)
    moreover have "ks1 = map (\<lambda>k. k\<lparr>down := exword_key_down sample (scan k)\<rparr>) (exword_keys s)" "\<forall>k\<in>set ks1. key_ok s1 k"
      using scan_keys_ok [OF scan p] keys_table [OF t] ok by auto
    ultimately have "keys_inv ?s2" using t by (auto simp: keys_inv_def key_ok_def level_append comp_def)
    from keepsD [OF k last this] show "keys_inv s'" .
  qed
  show ?thesis
    unfolding exword_scan_once_def exword_read_state_def
    by (rule keys keys_inv_touch keys_inv_kbd [OF pointer_inv_motion kbd_motion] keys_inv_by [OF inputs_words]
        keys_inv_by [OF inputs_rest(3)] keys_inv_by [OF inputs_rest(6)] keys_inv_modify kp_rule_set | simp add: inputs_def)+
qed

lemma keys_inv_iteration: "keeps keys_inv (scan_iteration b)"
  unfolding scan_iteration_def
  by (rule keys_inv_once keys_inv_mode keys_inv_by [OF inputs_row] keys_inv_modify kp_rule_set | simp add: inputs_def)+

lemma keys_inv_thread: "exword_scan_thread b V s s' \<Longrightarrow> keys_inv s \<Longrightarrow> keys_inv s'"
proof (induction rule: exword_scan_thread.induct)
  case (scan_loop s s1)
  then show ?case using keepsD [OF keys_inv_iteration prod.collapse [symmetric]] by blast
next
  case (scan_param s s1 v)
  then show ?case using inputs_inv [of "s1\<lparr>exword_subpad_mode := v\<rparr>" s1] by (simp add: inputs_def)
qed

section \<open>From boot\<close>

definition fresh :: "'w keypad \<Rightarrow> bool" where
  "fresh s \<longleftrightarrow> exword_pointer_button_sources s = [0, 0, 0] \<and> events s = [] \<and>
     g_active (exword_touch_gesture s) = TOUCH_NONE \<and> \<not> exword_mouse_mode s \<and>
     map (\<lambda>k. (scan k, keycode k)) (exword_keys s) = key_table"

lemma fresh_modify: "(\<And>s. fresh s \<Longrightarrow> fresh (f s)) \<Longrightarrow> keeps fresh (modify f)"
  by (rule keeps_modify)

lemma fresh_rest: "keeps fresh (readw b a)" "keeps fresh (readl b a)" "keeps fresh (writel b a z)"
  by (rule keeps_rest; simp add: fresh_def)+

lemma fresh_words: "keeps fresh (read_words b ns)"
  by (induction ns) (simp_all, (rule fresh_rest kp_rule_set | assumption)+)

lemma fresh_prime: "keeps fresh (prime_reads b n st)"
  by (induction n arbitrary: st) (simp_all add: exword_read_state_def keeps_ret keeps_bind fresh_words)

lemma fresh_snapshot: "keeps fresh (snapshot_regs b ns)"
  by (induction ns) (simp_all add: exword_snapshot_reg_def, (rule fresh_rest kp_rule_set | assumption)+)

lemma fresh_hardware: "keeps fresh (init_hardware b)"
  unfolding init_hardware_def exword_report_firmware_setup_def exword_touch_load_firmware_setup_def
    exword_touch_read_calibration_def exword_touch_snapshot_long_def exword_prime_scanner_def
  by (rule fresh_snapshot fresh_prime fresh_rest fresh_modify kp_rule_set | simp add: fresh_def comp_def)+

lemma fresh_init: "keeps fresh (exword_keypad_init b e)"
  unfolding exword_keypad_init_def init_clock_def init_devices_def init_register_def init_start_def release_clock_def kcall_def
  by (rule fresh_hardware fresh_words fresh_rest fresh_modify kp_rule_set | simp add: fresh_def)+

lemma fresh_keys_inv: "fresh s \<Longrightarrow> keys_inv s"
proof -
  assume f: "fresh s"
  have "sources_of s bt = 0" if "bt \<noteq> BTN_NONE" for bt using f that by (cases bt) (simp_all add: fresh_def)
  with f show ?thesis
    by (auto simp: keys_inv_def pointer_inv_def buttons_inv_def key_ok_def level_def fresh_def)
qed

lemma booted_inv:
  assumes "exword_scan_thread b V (snd (run_state (exword_keypad_init b e) (keypad_boot d mode))) s"
  shows "keys_inv s"
proof -
  have "fresh (keypad_boot d mode)" by (simp add: fresh_def keypad_boot_def comp_def case_prod_unfold)
  with keepsD [OF fresh_init prod.collapse [symmetric]]
  have "fresh (snd (run_state (exword_keypad_init b e) (keypad_boot d mode)))" by blast
  with keys_inv_thread [OF assms] fresh_keys_inv show ?thesis by blast
qed

text \<open>C19. Whatever the devices answer and userspace asks for, the pointer buttons stay consistent:
  for each of the three buttons the input core is told of presses and releases strictly in turn,
  the last report says whether any source still holds the button, the touch pad holds exactly
  the button of its active zone, and the keys hold a button only while mouse mode is on.\<close>

theorem keypad_buttons_consistent:
  assumes "exword_scan_thread b V (snd (run_state (exword_keypad_init b e) (keypad_boot d mode))) s" and "bt \<noteq> BTN_NONE"
  shows "toggles 0 (reported Pointer (Btn bt) (events s)) \<and>
    level Pointer (Btn bt) (events s) = (if sources_of s bt \<noteq> 0 then 1 else 0) \<and>
    (bit (sources_of s bt) 1 \<longleftrightarrow> pad_button (g_active (exword_touch_gesture s)) = bt) \<and>
    (bit (sources_of s bt) 0 \<longrightarrow> exword_mouse_mode s)"
  using booted_inv [OF assms(1)] assms(2) unfolding keys_inv_def pointer_inv_def buttons_inv_def by blast

theorem keypad_buttons_consistent_witness:
  "toggles 0 (reported Pointer (Btn BTN_LEFT) (events (snd (run_state (scan_iteration demo_bus)
     (snd (run_state (exword_keypad_init demo_bus demo_init) (keypad_boot () 3)))))))"
  using keypad_buttons_consistent [of demo_bus "{}" demo_init "()" 3, OF scan_loop [OF scan_start], of BTN_LEFT] by simp

section \<open>Keyboard mode\<close>

definition enter_tap :: "input_event list" where
  "enter_tap = [Report Keyboard (Code KEY_ENTER) 1, Sync Keyboard, Report Keyboard (Code KEY_ENTER) 0, Sync Keyboard]"

definition key_events :: "u16 list \<Rightarrow> bool \<Rightarrow> exword_key \<Rightarrow> input_event list" where
  "key_events st seen k =
     (let dn = exword_key_down st (scan k)
      in if dn = down k \<or> keycode k = KEY_RESERVED then []
         else if keycode k = KEY_ENTER then (if dn \<or> \<not> seen then enter_tap else [])
         else [Report Keyboard (Code (keycode k)) (if dn then 1 else 0)])"

definition plain_change :: "u16 list \<Rightarrow> exword_key \<Rightarrow> bool" where
  "plain_change st k \<longleftrightarrow> exword_key_down st (scan k) \<noteq> down k \<and> keycode k \<noteq> KEY_RESERVED \<and> keycode k \<noteq> KEY_ENTER"

lemma scan_key_keyboard:
  assumes "\<not> exword_mouse_mode s" and "listed k"
    and "keycode k = KEY_RESERVED \<Longrightarrow> exword_key_down st (scan k) \<longrightarrow> down k"
  obtains f1 where "run_state (scan_key st k f) s = ((k\<lparr>down := exword_key_down st (scan k)\<rparr>, f1),
      s\<lparr>events := events s @ key_events st (exword_enter_press_seen s) k,
        exword_enter_press_seen := (if keycode k = KEY_ENTER \<and> exword_key_down st (scan k) \<noteq> down k
          then exword_key_down st (scan k) else exword_enter_press_seen s)\<rparr>)"
    and "sync f1 = (sync f \<or> plain_change st k)"
proof -
  let ?d = "exword_key_down st (scan k)"
  have t: "scan k = EXWORD_MOUSE_TOGGLE_SCAN \<longleftrightarrow> keycode k = KEY_RESERVED" by (rule listed_facts(2) [OF assms(2)])
  consider "?d = down k" | "?d \<noteq> down k" "keycode k = KEY_RESERVED"
    | "?d \<noteq> down k" "keycode k \<noteq> KEY_RESERVED" "keycode k = KEY_ENTER"
    | "?d \<noteq> down k" "keycode k \<noteq> KEY_RESERVED" "keycode k \<noteq> KEY_ENTER" by blast
  then show thesis
  proof cases
    case 1
    then show ?thesis by (intro that [of f]) (simp_all add: scan_key_def key_events_def plain_change_def)
  next
    case 2
    with assms(3) t show ?thesis
      by (intro that [of "f\<lparr>activity := True\<rparr>"]) (simp_all add: scan_key_def key_events_def plain_change_def)
  next
    case 3
    with assms(1) t show ?thesis
      by (intro that [of "f\<lparr>activity := True\<rparr>"])
        (simp_all add: scan_key_def Let_def key_events_def plain_change_def exword_report_enter_tap_def input_report_def enter_tap_def)
  next
    case 4
    with assms(1) t show ?thesis
      by (intro that [of "f\<lparr>activity := True, sync := True\<rparr>"])
        (simp_all add: scan_key_def Let_def key_events_def plain_change_def input_report_def)
  qed
qed

lemma scan_keys_keyboard:
  assumes "\<not> exword_mouse_mode s" and "\<forall>k\<in>set ks. listed k" and "distinct (map keycode ks)"
    and "\<forall>k\<in>set ks. keycode k = KEY_RESERVED \<longrightarrow> exword_key_down st (scan k) \<longrightarrow> down k"
  shows "\<exists>f1 e. run_state (scan_keys st ks f) s = ((map (\<lambda>k. k\<lparr>down := exword_key_down st (scan k)\<rparr>) ks, f1),
      s\<lparr>events := events s @ concat (map (key_events st (exword_enter_press_seen s)) ks), exword_enter_press_seen := e\<rparr>) \<and>
    sync f1 = (sync f \<or> (\<exists>k\<in>set ks. plain_change st k))"
  using assms
proof (induction ks arbitrary: s f)
  case (Cons k ks)
  define e0 where "e0 = (if keycode k = KEY_ENTER \<and> exword_key_down st (scan k) \<noteq> down k
          then exword_key_down st (scan k) else exword_enter_press_seen s)"
  let ?s = "s\<lparr>events := events s @ key_events st (exword_enter_press_seen s) k, exword_enter_press_seen := e0\<rparr>"
  obtain f1 where one: "run_state (scan_key st k f) s = ((k\<lparr>down := exword_key_down st (scan k)\<rparr>, f1), ?s)"
    and f1: "sync f1 = (sync f \<or> plain_change st k)"
    using scan_key_keyboard [of s k st f] Cons.prems(1,2,4) unfolding e0_def by auto
  have same: "key_events st e0 k' = key_events st (exword_enter_press_seen s) k'" if "k' \<in> set ks" for k'
  proof -
    have "keycode k' \<noteq> KEY_ENTER \<or> keycode k \<noteq> KEY_ENTER" using that Cons.prems(3) by (auto simp: image_iff)
    then show ?thesis by (auto simp: key_events_def Let_def e0_def)
  qed
  have ev: "map (key_events st e0) ks = map (key_events st (exword_enter_press_seen s)) ks" using same by simp
  have "\<not> exword_mouse_mode ?s" "\<forall>k\<in>set ks. listed k" "distinct (map keycode ks)"
    "\<forall>k\<in>set ks. keycode k = KEY_RESERVED \<longrightarrow> exword_key_down st (scan k) \<longrightarrow> down k" using Cons.prems by simp_all
  from Cons.IH [OF this, of f1] obtain f2 e where
    rest: "run_state (scan_keys st ks f1) ?s = ((map (\<lambda>k. k\<lparr>down := exword_key_down st (scan k)\<rparr>) ks, f2),
      ?s\<lparr>events := events ?s @ concat (map (key_events st (exword_enter_press_seen ?s)) ks), exword_enter_press_seen := e\<rparr>)"
    and f2: "sync f2 = (sync f1 \<or> (\<exists>k\<in>set ks. plain_change st k))" by blast
  have "run_state (scan_keys st (k # ks) f) s = ((map (\<lambda>k. k\<lparr>down := exword_key_down st (scan k)\<rparr>) (k # ks), f2),
      s\<lparr>events := events s @ concat (map (key_events st (exword_enter_press_seen s)) (k # ks)), exword_enter_press_seen := e\<rparr>)"
    using one rest by (simp add: ev)
  moreover have "sync f2 = (sync f \<or> (\<exists>k\<in>set (k # ks). plain_change st k))" using f1 f2 by auto
  ultimately show ?case by blast
next
  case Nil
  show ?case by (simp, rule exI [of _ "exword_enter_press_seen s"], simp)
qed

text \<open>Accesses change nothing but the device and the trace.\<close>

lemma read_words_run: "\<exists>vs d t. run_state (read_words b ns) s = (vs, s\<lparr>dev := d, trace := t\<rparr>) \<and> length vs = length ns"
proof (induction ns arbitrary: s)
  case (Cons n ns)
  obtain v d where 1: "bus_rd16 b (EXWORD_KEYPAD_BASE + of_nat n * 2) (dev s) = (v, d)" by (rule prod.exhaust)
  let ?s = "s\<lparr>dev := d, trace := Rd16 (EXWORD_KEYPAD_BASE + of_nat n * 2) v # trace s\<rparr>"
  obtain vs d' t' where 2: "run_state (read_words b ns) ?s = (vs, ?s\<lparr>dev := d', trace := t'\<rparr>)" "length vs = length ns"
    using Cons.IH by blast
  with 1 show ?case by (auto simp: readw_def)
next
  case Nil
  have "s = s\<lparr>dev := dev s, trace := trace s\<rparr>" by simp
  then show ?case by (metis list.size(3) read_words.simps(1) run_simps(1))
qed

lemma gate_run: "\<exists>d t. run_state (readl b EXWORD_MSTPCR0 \<bind> (\<lambda>m. onlyif (bit m EXWORD_KEYSC_MSTP_BIT)
      (writel b EXWORD_MSTPCR0 (unset_bit EXWORD_KEYSC_MSTP_BIT m)))) s = ((), s\<lparr>dev := d, trace := t\<rparr>)"
  by (auto simp: readl_def writel_def split: prod.splits) (rule exI, rule exI, rule refl)

lemma raw_copied: "(if st \<noteq> old then st else old) = st"
  by simp

lemma scan_once_split: "exword_scan_once b = (readl b EXWORD_MSTPCR0 \<bind> (\<lambda>m. onlyif (bit m EXWORD_KEYSC_MSTP_BIT)
      (writel b EXWORD_MSTPCR0 (unset_bit EXWORD_KEYSC_MSTP_BIT m)))) \<bind> (\<lambda>_. do {
     sample \<leftarrow> exword_read_state b;
     modify (\<lambda>s. s\<lparr>exword_raw := sample\<rparr>);
     keys \<leftarrow> gets exword_keys;
     (keys1, f) \<leftarrow> scan_keys sample keys \<lparr>activity = False, mouse_direction_edge = False, sync = False\<rparr>;
     modify (\<lambda>s. s\<lparr>exword_keys := keys1\<rparr>);
     onlyif (sync f) (input_report [Sync Keyboard]);
     moved \<leftarrow> scan_motion sample (mouse_direction_edge f);
     touched \<leftarrow> scan_touch b;
     ret (activity f \<or> moved \<or> touched) })"
  by (simp add: exword_scan_once_def raw_copied)

lemma raw_modify: "(\<And>s. exword_raw (f s) = exword_raw s) \<Longrightarrow> keeps (\<lambda>s. exword_raw s = c) (modify f)"
  by (rule keeps_modify) simp

lemma raw_button: "keeps (\<lambda>s. exword_raw s = c) (exword_set_pointer_button bt src d)"
  unfolding exword_set_pointer_button_def input_report_def Let_def by (rule raw_modify kp_rule_set | simp)+

lemma raw_scan_key: "keeps (\<lambda>s. exword_raw s = c) (scan_key st k f)"
  unfolding scan_key_def exword_report_enter_tap_def exword_toggle_mouse_mode_def input_report_def Let_def
    exword_release_mouse_keys_from_keyboard_def exword_release_keypad_mouse_buttons_def
  by (rule raw_button raw_modify kp_rule_set | simp)+

lemma raw_scan_keys: "keeps (\<lambda>s. exword_raw s = c) (scan_keys st ks f)"
  by (induction ks arbitrary: f) (simp_all, (rule raw_scan_key kp_rule_set | assumption)+)

lemma raw_motion: "keeps (\<lambda>s. exword_raw s = c) (scan_motion st e)"
  unfolding scan_motion_def exword_report_pointer_motion_def report_rel_def input_report_def Let_def
  by (rule raw_modify kp_rule_set | simp)+

lemma scan_once_phases:
  assumes "run_state (exword_scan_once b) s = (act, s')" and "\<not> exword_touch_enabled s"
  obtains d t st d' t' ks f s2 m s4 where
    "run_state (readl b EXWORD_MSTPCR0 \<bind> (\<lambda>m. onlyif (bit m EXWORD_KEYSC_MSTP_BIT)
      (writel b EXWORD_MSTPCR0 (unset_bit EXWORD_KEYSC_MSTP_BIT m)))) s = ((), s\<lparr>dev := d, trace := t\<rparr>)"
    "run_state (exword_read_state b) (s\<lparr>dev := d, trace := t\<rparr>) = (st, s\<lparr>dev := d', trace := t'\<rparr>)"
    "run_state (scan_keys st (exword_keys s) \<lparr>activity = False, mouse_direction_edge = False, sync = False\<rparr>)
       (s\<lparr>dev := d', trace := t', exword_raw := st\<rparr>) = ((ks, f), s2)"
    "run_state (scan_motion st (mouse_direction_edge f))
       (s2\<lparr>exword_keys := ks, events := events s2 @ (if sync f then [Sync Keyboard] else [])\<rparr>) = (m, s4)"
    "s' = s4\<lparr>exword_touch_poll_scans := 0\<rparr>" "exword_raw s' = st"
proof -
  obtain d t where g: "run_state (readl b EXWORD_MSTPCR0 \<bind> (\<lambda>m. onlyif (bit m EXWORD_KEYSC_MSTP_BIT)
      (writel b EXWORD_MSTPCR0 (unset_bit EXWORD_KEYSC_MSTP_BIT m)))) s = ((), s\<lparr>dev := d, trace := t\<rparr>)"
    using gate_run [of b s] by auto
  obtain st d' t' where w: "run_state (exword_read_state b) (s\<lparr>dev := d, trace := t\<rparr>) = (st, s\<lparr>dev := d', trace := t'\<rparr>)"
    unfolding exword_read_state_def using read_words_run [of b "[0..<6]" "s\<lparr>dev := d, trace := t\<rparr>"] by auto
  let ?s = "s\<lparr>dev := d', trace := t', exword_raw := st\<rparr>"
  let ?f = "\<lparr>activity = False, mouse_direction_edge = False, sync = False\<rparr>"
  obtain ks f s2 where k: "run_state (scan_keys st (exword_keys s) ?f) ?s = ((ks, f), s2)" by (metis prod.exhaust)
  let ?s3 = "s2\<lparr>exword_keys := ks, events := events s2 @ (if sync f then [Sync Keyboard] else [])\<rparr>"
  obtain m s4 where m: "run_state (scan_motion st (mouse_direction_edge f)) ?s3 = (m, s4)" by (rule prod.exhaust)
  obtain u where u: "run_state (scan_touch b) s4 = (u, s')"
    using assms(1) [unfolded scan_once_split] g w k m by (auto simp: input_report_def split: if_splits prod.splits)
  have "core s4 = core ?s3" by (rule keepsD [OF core_motion m refl])
  moreover have "core s2 = core ?s" by (rule keepsD [OF core_scan_keys k refl])
  ultimately have "\<not> exword_touch_enabled s4" using assms(2) by (simp add: core_def)
  then have s': "s' = s4\<lparr>exword_touch_poll_scans := 0\<rparr>" using u by (simp add: scan_touch_def)
  have "exword_raw s4 = exword_raw ?s3" by (rule keepsD [OF raw_motion m refl])
  moreover have "exword_raw s2 = exword_raw ?s" by (rule keepsD [OF raw_scan_keys k refl])
  ultimately have "exword_raw s' = st" using s' by simp
  with g w k m s' show thesis by (rule that)
qed

lemma scan_once_reports:
  assumes "run_state (exword_scan_once b) s = (act, s')"
    and "map (\<lambda>k. (scan k, keycode k)) (exword_keys s) = key_table"
    and "\<not> exword_mouse_mode s" and "\<not> exword_touch_enabled s"
    and "\<forall>k\<in>set (exword_keys s). keycode k = KEY_RESERVED \<longrightarrow> exword_key_down (exword_raw s') (scan k) \<longrightarrow> down k"
  shows "exword_keys s' = map (\<lambda>k. k\<lparr>down := exword_key_down (exword_raw s') (scan k)\<rparr>) (exword_keys s) \<and>
    events s' = events s @ concat (map (key_events (exword_raw s') (exword_enter_press_seen s)) (exword_keys s)) @
      (if \<exists>k\<in>set (exword_keys s). plain_change (exword_raw s') k then [Sync Keyboard] else [])"
  using assms(1,4)
proof (rule scan_once_phases)
  fix d t st d' t' ks f s2 m s4
  let ?s = "s\<lparr>dev := d', trace := t', exword_raw := st\<rparr>"
  assume k: "run_state (scan_keys st (exword_keys s) \<lparr>activity = False, mouse_direction_edge = False, sync = False\<rparr>) ?s = ((ks, f), s2)"
    and m: "run_state (scan_motion st (mouse_direction_edge f))
       (s2\<lparr>exword_keys := ks, events := events s2 @ (if sync f then [Sync Keyboard] else [])\<rparr>) = (m, s4)"
    and s': "s' = s4\<lparr>exword_touch_poll_scans := 0\<rparr>" and raw: "exword_raw s' = st"
  have pre: "\<not> exword_mouse_mode ?s" "\<forall>k\<in>set (exword_keys s). listed k" "distinct (map keycode (exword_keys s))"
    "\<forall>k\<in>set (exword_keys s). keycode k = KEY_RESERVED \<longrightarrow> exword_key_down st (scan k) \<longrightarrow> down k"
    using keys_table [OF assms(2)] assms(3,5) raw by simp_all
  let ?f0 = "\<lparr>activity = False, mouse_direction_edge = False, sync = False\<rparr>"
  obtain e where s2: "s2 = ?s\<lparr>events := events ?s @ concat (map (key_events st (exword_enter_press_seen ?s)) (exword_keys s)),
        exword_enter_press_seen := e\<rparr>"
    and ks: "ks = map (\<lambda>k. k\<lparr>down := exword_key_down st (scan k)\<rparr>) (exword_keys s)"
    and sk: "sync f = (\<exists>k\<in>set (exword_keys s). plain_change st k)"
    using scan_keys_keyboard [OF pre, of ?f0] k by auto
  have "s4 = s2\<lparr>exword_keys := ks, events := events s2 @ (if sync f then [Sync Keyboard] else []), exword_mouse_repeat_scans := 0\<rparr>"
    using m assms(3) unfolding s2 by (simp add: scan_motion_def)
  then show ?thesis unfolding raw s' ks s2 using sk by simp
qed

text \<open>In keyboard mode with the touch pad off, a scan reports exactly the edges between the
  remembered keys and the new sample, in table order: a press or release report for a plain
  key, one complete tap for an Enter press or for an Enter release whose press was never seen,
  and a final synchronisation exactly if a plain key changed; and it remembers the new sample.\<close>

theorem keypad_scan_reports:
  assumes "run_state (exword_scan_once b) s = (act, s')"
    and "map (\<lambda>k. (scan k, keycode k)) (exword_keys s) = key_table"
    and "\<not> exword_mouse_mode s" and "\<not> exword_touch_enabled s"
    and "\<forall>k\<in>set (exword_keys s). keycode k = KEY_RESERVED \<longrightarrow> exword_key_down (exword_raw s') (scan k) \<longrightarrow> down k"
  shows "exword_keys s' = map (\<lambda>k. k\<lparr>down := exword_key_down (exword_raw s') (scan k)\<rparr>) (exword_keys s) \<and>
    events s' = events s @ concat (map (key_events (exword_raw s') (exword_enter_press_seen s)) (exword_keys s)) @
      (if \<exists>k\<in>set (exword_keys s). plain_change (exword_raw s') k then [Sync Keyboard] else [])"
  by (rule scan_once_reports [OF assms])

text \<open>A device on which the key 1 goes down after the clock-gate word has been read twice.\<close>

definition press_bus :: "nat bus" where
  "press_bus = \<lparr>bus_rd8 = (\<lambda>_ d. (0, d)),
     bus_rd16 = (\<lambda>a d. (if a = EXWORD_KEYPAD_BASE \<and> 2 \<le> d then 0x200 else 0, d)),
     bus_rd32 = (\<lambda>a d. (0, if a = EXWORD_MSTPCR0 then d + 1 else d)),
     bus_wr8 = (\<lambda>_ _ d. d), bus_wr16 = (\<lambda>_ _ d. d), bus_wr32 = (\<lambda>_ _ d. d)\<rparr>"

lemma press_sample:
  fixes s :: "nat keypad"
  assumes "run_state (exword_scan_once press_bus) s = (act, s')" and "\<not> exword_touch_enabled s" and "1 \<le> dev s"
  shows "exword_raw s' = [0x200, 0, 0, 0, 0, 0]"
  using assms(1,2)
proof (rule scan_once_phases)
  fix d t st d' t' ks f s2 m s4
  assume g: "run_state (readl press_bus EXWORD_MSTPCR0 \<bind> (\<lambda>m. onlyif (bit m EXWORD_KEYSC_MSTP_BIT)
      (writel press_bus EXWORD_MSTPCR0 (unset_bit EXWORD_KEYSC_MSTP_BIT m)))) s = ((), s\<lparr>dev := d, trace := t\<rparr>)"
    and w: "run_state (exword_read_state press_bus) (s\<lparr>dev := d, trace := t\<rparr>) = (st, s\<lparr>dev := d', trace := t'\<rparr>)"
    and raw: "exword_raw s' = st"
  from g have "dev (s\<lparr>dev := d, trace := t\<rparr>) = Suc (dev s)"
    by (auto simp: readl_def press_bus_def dest!: arg_cong [where f = dev])
  then have "2 \<le> d" using assms(3) by simp
  with w raw show ?thesis
    by (auto simp: exword_read_state_def upt_rec readw_def press_bus_def EXWORD_KEYPAD_BASE_def)
qed

definition boot_keys :: "exword_key list" where
  "boot_keys = map (\<lambda>(sc, c). \<lparr>scan = sc, keycode = c, down = False\<rparr>) key_table"

lemma press_events:
  "concat (map (key_events [0x200, 0, 0, 0, 0, 0] False) boot_keys) = [Report Keyboard (Code KEY_1) 1]"
  "list_ex (plain_change [0x200, 0, 0, 0, 0, 0]) boot_keys"
  "list_all (\<lambda>k. keycode k = KEY_RESERVED \<longrightarrow> exword_key_down [0x200, 0, 0, 0, 0, 0] (scan k) \<longrightarrow> down k) boot_keys"
  "map (\<lambda>k. (scan k, keycode k)) boot_keys = key_table"
  by code_simp+

lemma press_hypotheses:
  fixes s :: "nat keypad"
  assumes "exword_keys s = boot_keys" and "\<not> exword_mouse_mode s" and "\<not> exword_touch_enabled s" and "1 \<le> dev s"
    and "run_state (exword_scan_once press_bus) s = (act, s')"
  shows "exword_raw s' = [0x200, 0, 0, 0, 0, 0]" and "map (\<lambda>k. (scan k, keycode k)) (exword_keys s) = key_table"
    and "\<forall>k\<in>set (exword_keys s). keycode k = KEY_RESERVED \<longrightarrow> exword_key_down (exword_raw s') (scan k) \<longrightarrow> down k"
  using press_sample [OF assms(5,3,4)] press_events(3,4) unfolding assms(1) list_all_iff by simp_all

theorem keypad_scan_reports_witness:
  "events (snd (run_state (exword_scan_once press_bus) (keypad_boot 2 0))) = [Report Keyboard (Code KEY_1) 1, Sync Keyboard]"
proof -
  let ?s = "keypad_boot (2 :: nat) 0"
  obtain act s' where run: "run_state (exword_scan_once press_bus) ?s = (act, s')" by (rule prod.exhaust)
  have s: "exword_keys ?s = boot_keys" "\<not> exword_mouse_mode ?s" "\<not> exword_touch_enabled ?s" "1 \<le> dev ?s"
      "events ?s = []" "exword_enter_press_seen ?s = False"
    by (simp_all add: keypad_boot_def boot_keys_def)
  note h = press_hypotheses [OF s(1-4) run]
  show ?thesis
    using keypad_scan_reports [OF run h(2) s(2,3) h(3)] press_events(1,2) run
    unfolding s(1,5,6) h(1) list_ex_iff by simp
qed

text \<open>C18. No key is ever left pressed: after every scan iteration, a key the input core believes
  pressed was down in the last sample, is neither the Enter key (which is only ever tapped) nor
  the mouse-mode key, and is not a key that mouse mode has taken over.\<close>

theorem keypad_no_stuck_key:
  assumes "exword_scan_thread b V (snd (run_state (exword_keypad_init b e) (keypad_boot d mode))) s"
    and "k \<in> set (exword_keys s)" and "level Keyboard (Code (keycode k)) (events s) \<noteq> 0"
  shows "down k \<and> keycode k \<noteq> KEY_ENTER \<and> keycode k \<noteq> KEY_RESERVED \<and>
    \<not> (exword_mouse_mode s \<and> exword_mouse_action_scan (scan k))"
  using booted_inv [OF assms(1)] assms(2,3) unfolding keys_inv_def key_ok_def by blast

text \<open>On the example device the key 1 is not down while the scanner is primed, and is reported by the
  first iteration.\<close>

definition primed :: "nat keypad \<Rightarrow> bool" where
  "primed s \<longleftrightarrow> dev s = 1 \<and> fresh s \<and> \<not> exword_touch_enabled s \<and> \<not> exword_enter_press_seen s"

lemma primed_words: "triple primed (exword_read_state press_bus) (\<lambda>r s. primed s \<and> r = replicate 6 0)"
  by (simp add: triple_def exword_read_state_def upt_rec readw_def press_bus_def primed_def fresh_def
      numeral_eq_Suc)

lemma primed_reads: "triple (\<lambda>s. primed s \<and> r = replicate 6 0) (prime_reads press_bus n r) (\<lambda>r s. primed s \<and> r = replicate 6 0)"
proof (induction n arbitrary: r)
  case (Suc n)
  have "triple primed (prime_reads press_bus (Suc n) r) (\<lambda>r s. primed s \<and> r = replicate 6 0)"
    unfolding prime_reads.simps by (rule triple_bind [OF primed_words Suc.IH])
  then show ?case by (rule triple_pre) blast
qed (simp add: triple_def)

lemma primed_scanner: "triple primed (exword_prime_scanner press_bus) (\<lambda>_ s. primed s \<and> exword_keys s = boot_keys)"
proof -
  have "triple primed (prime_reads press_bus (Suc 65535) []) (\<lambda>r s. primed s \<and> r = replicate 6 0)"
    unfolding prime_reads.simps by (rule triple_bind [OF primed_words primed_reads])
  then have reads: "triple primed (prime_reads press_bus EXWORD_PRIME_READS []) (\<lambda>r s. primed s \<and> r = replicate 6 0)"
    by (simp add: EXWORD_PRIME_READS_def del: prime_reads.simps)
  have up: "\<not> exword_key_down (replicate 6 0) sc" if "sc mod 10 < 12" for sc
    using that by (simp add: exword_key_down_def Let_def)
  have keys: "map (\<lambda>k. k\<lparr>down := False\<rparr>) ks = boot_keys" if "map (\<lambda>k. (scan k, keycode k)) ks = key_table" for ks
  proof -
    have "map (\<lambda>k. k\<lparr>down := False\<rparr>) ks = map (\<lambda>(sc, c). \<lparr>scan = sc, keycode = c, down = False\<rparr>) (map (\<lambda>k. (scan k, keycode k)) ks)"
      by simp
    then show ?thesis by (simp only: that boot_keys_def)
  qed
  show ?thesis unfolding exword_prime_scanner_def
    by (rule triple_bind [OF reads]) (auto simp: triple_def primed_def fresh_def up keys comp_def press_events(4) intro!: mod_less_divisor [THEN less_trans])
qed

lemma press_booted:
  "triple (\<lambda>s. s = keypad_boot 0 0) (exword_keypad_init press_bus demo_init)
     (\<lambda>_ s. primed (s\<lparr>dev := 1\<rparr>) \<and> dev s = 2 \<and> exword_keys s = boot_keys)"
proof -
  have a: "triple (\<lambda>s. s = keypad_boot 0 0) (init_clock demo_init) (\<lambda>_ s. primed (s\<lparr>dev := 1\<rparr>) \<and> dev s = 0)"
    using press_events(4)
    by (simp add: triple_def init_clock_def demo_init_def kcall_def primed_def fresh_def keypad_boot_def boot_keys_def)
  have b: "triple (\<lambda>s. primed (s\<lparr>dev := 1\<rparr>) \<and> dev s = 0) (readl press_bus EXWORD_MSTPCR0 \<bind>
      (\<lambda>m. writel press_bus EXWORD_MSTPCR0 (unset_bit EXWORD_KEYSC_MSTP_BIT m) \<bind> (\<lambda>_. exword_report_firmware_setup press_bus \<bind>
      (\<lambda>_. exword_touch_load_firmware_setup press_bus)))) (\<lambda>_. primed)"
    by (simp add: triple_def readl_def writel_def exword_report_firmware_setup_def exword_touch_load_firmware_setup_def
        press_bus_def primed_def fresh_def EXWORD_SNAPSHOT_MAGIC_def EXWORD_TOUCH_SNAPSHOT_MAGIC_def
        EXWORD_SNAPSHOT_BASE_def EXWORD_MSTPCR0_def EXWORD_TOUCH_SNAPSHOT_OFFSET_def)
  have c: "triple (\<lambda>s. primed s \<and> exword_keys s = boot_keys) (init_devices press_bus demo_init)
      (\<lambda>_ s. primed (s\<lparr>dev := 1\<rparr>) \<and> dev s = 2 \<and> exword_keys s = boot_keys)"
    by (simp add: triple_def init_devices_def init_register_def init_start_def kcall_def demo_init_def readl_def readw_def
        press_bus_def primed_def fresh_def EXWORD_MSTPCR0_def EXWORD_KEYPAD_BASE_def press_events(4))
  have "exword_keypad_init press_bus demo_init = init_clock demo_init \<bind> (\<lambda>_. (readl press_bus EXWORD_MSTPCR0 \<bind>
      (\<lambda>m. writel press_bus EXWORD_MSTPCR0 (unset_bit EXWORD_KEYSC_MSTP_BIT m) \<bind> (\<lambda>_. exword_report_firmware_setup press_bus \<bind>
      (\<lambda>_. exword_touch_load_firmware_setup press_bus)))) \<bind> (\<lambda>_. exword_prime_scanner press_bus \<bind>
      (\<lambda>_. init_devices press_bus demo_init)))"
    by (simp add: exword_keypad_init_def init_hardware_def)
  then show ?thesis
    by (simp only:) (rule triple_bind [OF a], rule triple_bind [OF b], rule triple_bind [OF primed_scanner], rule c)
qed

lemma kbd_inputs: "(\<And>c. keeps (\<lambda>s. inputs s = c) m) \<Longrightarrow> keeps (\<lambda>s. kbd s = c) m"
proof (rule keepsI)
  fix s a s' assume i: "\<And>c. keeps (\<lambda>s. inputs s = c) m" and "kbd s = c" and run: "run_state m s = (a, s')"
  moreover have "inputs s' = inputs s" by (rule keepsD [OF i run refl])
  ultimately show "kbd s' = c" by (simp add: inputs_def kbd_def)
qed

lemma kbd_mode: "keeps (\<lambda>s. kbd s = c) (exword_service_subpad_mode b)"
  unfolding exword_service_subpad_mode_def Let_def
  by (rule kbd_release kbd_gesture kbd_inputs [OF inputs_prepare] kbd_inputs [OF inputs_gpio] kbd_modify kp_rule_set
      | simp add: kbd_def)+

lemma iteration_kbd:
  assumes "run_state (exword_scan_once b) s = (act, s1)" and "run_state (scan_iteration b) s = (u, s')"
  shows "kbd s' = kbd s1"
proof -
  have "\<exists>r. run_state (do {
     onlyif (\<not> act) (modify (\<lambda>s. s\<lparr>burst := burst s + 1\<rparr>));
     n \<leftarrow> gets burst;
     onlyif (act \<or> n = EXWORD_POLL_BURST) (do {
       modify (\<lambda>s. s\<lparr>burst := 0\<rparr>);
       exword_service_subpad_mode b;
       _ \<leftarrow> exword_sublcd_draw_next_row b;
       ret () }) }) s1 = (r, s')" (is "\<exists>r. run_state ?m s1 = (r, s')")
    using assms by (simp add: scan_iteration_def)
  moreover have "keeps (\<lambda>s. kbd s = kbd s1) ?m"
    by (rule kbd_mode kbd_inputs [OF inputs_row] kbd_modify kp_rule_set | simp add: kbd_def)+
  ultimately show ?thesis by (blast dest: keepsD)
qed

theorem keypad_no_stuck_key_witness:
  "\<exists>k\<in>set (exword_keys (snd (run_state (scan_iteration press_bus)
       (snd (run_state (exword_keypad_init press_bus demo_init) (keypad_boot 0 0)))))). keycode k = KEY_1 \<and> down k"
proof -
  let ?s0 = "snd (run_state (exword_keypad_init press_bus demo_init) (keypad_boot 0 0))"
  let ?s' = "snd (run_state (scan_iteration press_bus) ?s0)"
  have b: "primed (?s0\<lparr>dev := 1\<rparr>)" "dev ?s0 = 2" and keys: "exword_keys ?s0 = boot_keys"
    using tripleD [OF press_booted prod.collapse [symmetric] refl] by blast+
  have s0: "\<not> exword_mouse_mode ?s0" "\<not> exword_touch_enabled ?s0" "1 \<le> dev ?s0" "events ?s0 = []" "exword_enter_press_seen ?s0 = False"
    using b by (simp_all add: primed_def fresh_def)
  obtain act s1 where one: "run_state (exword_scan_once press_bus) ?s0 = (act, s1)" by (rule prod.exhaust)
  have k: "kbd ?s' = kbd s1" by (rule iteration_kbd [OF one prod.collapse [symmetric]])
  note h = press_hypotheses [OF keys s0(1-3) one]
  have one': "exword_keys s1 = map (\<lambda>k. k\<lparr>down := exword_key_down [0x200, 0, 0, 0, 0, 0] (scan k)\<rparr>) boot_keys"
    "events s1 = [Report Keyboard (Code KEY_1) 1, Sync Keyboard]"
    using scan_once_reports [OF one h(2) s0(1,2) h(3)] press_events(1,2) unfolding keys s0(4,5) h(1) list_ex_iff by simp_all
  let ?k = "\<lparr>scan = 21, keycode = KEY_1, down = True\<rparr>"
  have "?k \<in> set (map (\<lambda>k. k\<lparr>down := exword_key_down [0x200, 0, 0, 0, 0, 0] (scan k)\<rparr>) boot_keys)" by code_simp
  then have k1: "?k \<in> set (exword_keys ?s')" using k one'(1) by (simp add: kbd_def)
  have "reported Keyboard (Code KEY_1) (events ?s') = [1]"
    using k one'(2) by (simp add: kbd_def fun_eq_iff)
  then have "level Keyboard (Code (keycode ?k)) (events ?s') \<noteq> 0" by (simp add: level_def)
  from keypad_no_stuck_key [OF scan_loop [OF scan_start] k1 this] k1 show ?thesis by force
qed

end
