(* ===== verification/Keypad_Touch.thy ===== *)
theory Keypad_Touch
  imports Keypad_Input
begin

text \<open>
  The touch pad of the keypad driver: samples and coordinates stay in range, the pad drawn on the
  secondary LCD is the one that is hit-tested, polling implements the gesture machine; and two
  sequences of events after which the driver reports what it should not.
\<close>

section \<open>Gestures\<close>

definition pad_inv :: "bool \<Rightarrow> exword_touch_calibration \<Rightarrow> 'w keypad \<Rightarrow> bool" where
  "pad_inv v cal s \<longleftrightarrow> exword_touch_cal_valid s = v \<and> exword_touch_cal s = cal"

definition pad_step :: "touch_sample option \<Rightarrow> 'w keypad \<Rightarrow> 'w keypad" where
  "pad_step r s = snd (run_state (touch_evaluate r) s)"

definition pad_view :: "'w keypad \<Rightarrow> bool \<times> exword_touch_calibration \<times> gesture" where
  "pad_view s = (exword_touch_cal_valid s, exword_touch_cal s, exword_touch_gesture s)"

lemma pad_modify: "(\<And>s. pad_view (f s) = pad_view s) \<Longrightarrow> keeps (\<lambda>s. pad_view s = c) (modify f)"
  by (rule keeps_modify) simp

lemma pad_button_view: "keeps (\<lambda>s. pad_view s = c) (exword_set_pointer_button bt src d)"
  unfolding exword_set_pointer_button_def input_report_def Let_def by (rule pad_modify kp_rule_set | simp add: pad_view_def)+

lemma pad_motion_view: "keeps (\<lambda>s. pad_view s = c) (exword_touch_report_motion z)"
  unfolding exword_touch_report_motion_def report_rel_def input_report_def
  by (cases z; simp; (rule pad_modify kp_rule_set | simp add: pad_view_def)+)

lemma pad_activate_view: "keeps (\<lambda>s. pad_view s = c) (exword_touch_activate_zone z)"
  unfolding exword_touch_activate_zone_def by (rule pad_button_view pad_motion_view kp_rule_set)+

lemma view_step:
  assumes "\<And>c. keeps (\<lambda>s. pad_view s = c) m"
  shows "exword_touch_cal_valid (snd (run_state m s)) = exword_touch_cal_valid s"
    "exword_touch_cal (snd (run_state m s)) = exword_touch_cal s"
    "exword_touch_gesture (snd (run_state m s)) = exword_touch_gesture s"
  using keepsD [OF assms prod.collapse [symmetric], of s "pad_view s"] by (simp_all add: pad_view_def)

lemmas pad_frames = view_step [OF pad_button_view] view_step [OF pad_motion_view] view_step [OF pad_activate_view]

lemma snd_run_bind: "snd (run_state (m \<bind> f) s) = snd (run_state (f (fst (run_state m s))) (snd (run_state m s)))"
  by (simp split: prod.splits)

lemma release_view: "pad_view (snd (run_state exword_touch_release_active s)) =
    (exword_touch_cal_valid s, exword_touch_cal s, (exword_touch_gesture s)\<lparr>g_active := TOUCH_NONE, g_repeat := 0\<rparr>)"
  by (simp add: exword_touch_release_active_def set_gesture_def pad_view_def snd_run_bind pad_frames del: run_state_bind)

lemmas touch_consts = EXWORD_TOUCH_RELEASE_DEBOUNCE_def EXWORD_TOUCH_DEBOUNCE_def EXWORD_TOUCH_REPEAT_POLLS_def
  RELEASE_DEBOUNCE_def DEBOUNCE_def REPEAT_POLLS_def JITTER_def

lemma missed_view: "pad_view (pad_step None s) = (exword_touch_cal_valid s, exword_touch_cal s, gesture_step z None (exword_touch_gesture s))"
  by (simp add: pad_step_def touch_evaluate_def touch_missed_def set_gesture_def touch_consts Let_def release_view)
    (simp add: pad_view_def)

lemma held_view: "a \<noteq> TOUCH_NONE \<Longrightarrow> g_active (exword_touch_gesture s) = a \<Longrightarrow>
   pad_view (snd (run_state (touch_held a) s)) = (exword_touch_cal_valid s, exword_touch_cal s,
     if is_button a then exword_touch_gesture s
     else (exword_touch_gesture s)\<lparr>g_repeat := (if g_repeat (exword_touch_gesture s) + 1 \<ge> REPEAT_POLLS then 0
       else g_repeat (exword_touch_gesture s) + 1)\<rparr>)"
  by (auto simp: pad_frames touch_held_def set_gesture_def touch_consts pad_view_def is_button_def)

lemma candidate_view: "pad_view (snd (run_state (touch_candidate z p) s)) = (exword_touch_cal_valid s, exword_touch_cal s,
     (let g = exword_touch_gesture s; same = (z = g_candidate g \<and> close p (g_sample g)); n = (if same then g_count g + 1 else 1)
      in if n < DEBOUNCE then g\<lparr>g_candidate := z, g_count := n, g_sample := p\<rparr>
         else g\<lparr>g_candidate := TOUCH_NONE, g_count := 0, g_sample := p, g_active := z, g_repeat := 0\<rparr>))"
  by (auto simp: pad_frames touch_candidate_def set_gesture_def touch_consts pad_view_def Let_def close_def)

lemma some_view: "pad_view (pad_step (Some p) s) = (exword_touch_cal_valid s, exword_touch_cal s,
    gesture_step (exword_touch_sample_zone (exword_touch_cal_valid s) (exword_touch_cal s)) (Some p) (exword_touch_gesture s))"
proof -
  let ?s = "s\<lparr>exword_touch_gesture := (exword_touch_gesture s)\<lparr>g_release := 0\<rparr>, exword_touch_first_sample_reported := True\<rparr>"
  let ?a = "g_active (exword_touch_gesture s)"
  show ?thesis
  proof (cases "?a = TOUCH_NONE")
    case True
    then have "pad_step (Some p) s = snd (run_state (touch_candidate
        (exword_touch_sample_zone (exword_touch_cal_valid s) (exword_touch_cal s) p) p) ?s)"
      by (simp add: pad_step_def touch_evaluate_def set_gesture_def Let_def)
    with True show ?thesis by (simp add: candidate_view Let_def)
  next
    case False
    then have "pad_step (Some p) s = snd (run_state (touch_held ?a) ?s)"
      by (simp add: pad_step_def touch_evaluate_def set_gesture_def Let_def)
    with False show ?thesis by (simp add: held_view Let_def)
  qed
qed

lemma pad_refines: "pad_inv v cal s \<Longrightarrow> pad_view (pad_step r s) =
    (v, cal, gesture_step (exword_touch_sample_zone v cal) r (exword_touch_gesture s))"
  using missed_view [of s "exword_touch_sample_zone v cal"]
  by (cases r) (auto simp: pad_inv_def some_view simp del: gesture_step.simps)

interpretation pad: touch_machine pad_step exword_touch_gesture "pad_inv v cal" "exword_touch_sample_zone v cal"
  for v cal
proof
  show "pad_inv v cal s \<Longrightarrow> pad_inv v cal (pad_step r s)" for s :: "'a keypad" and r
    using pad_refines [of v cal s r] by (simp add: pad_inv_def pad_view_def)
  show "pad_inv v cal s \<Longrightarrow> exword_touch_gesture (pad_step r s) =
      gesture_step (exword_touch_sample_zone v cal) r (exword_touch_gesture s)" for s :: "'a keypad" and r
    using pad_refines [of v cal s r] by (simp add: pad_view_def del: gesture_step.simps)
  show "exword_touch_sample_zone v cal p \<noteq> TOUCH_NONE" for p
    by (simp add: exword_touch_sample_zone_def zone_at_def)
qed

text \<open>C20. Polling the pad implements the gesture machine: with the calibration fixed, any sequence
  of poll results leaves exactly the gesture state the machine computes; starting idle, a zone
  becomes active only through two consecutive samples of that zone that lie close together; an
  active zone does not change while there is contact; and two polls without contact release it.\<close>

theorem keypad_touch_gestures:
  fixes s :: "'w keypad"
  assumes "exword_touch_cal_valid s = v" and "exword_touch_cal s = cal"
  defines "zone_of \<equiv> exword_touch_sample_zone v cal" and "after \<equiv> \<lambda>rs. exword_touch_gesture (fold pad_step rs s)"
  shows "after rs = fold (gesture_step zone_of) rs (exword_touch_gesture s) \<and>
    (g_active (exword_touch_gesture s) = TOUCH_NONE \<and> g_candidate (exword_touch_gesture s) = TOUCH_NONE \<and>
     g_count (exword_touch_gesture s) = 0 \<and> g_active (after rs) = TOUCH_NONE \<and> g_active (after (rs @ [r])) \<noteq> TOUCH_NONE \<longrightarrow>
       (\<exists>xs p q. rs @ [r] = xs @ [Some p, Some q] \<and> zone_of p = zone_of q \<and> close q p \<and>
         g_active (after (rs @ [r])) = zone_of q)) \<and>
    (g_active (after rs) \<noteq> TOUCH_NONE \<longrightarrow> g_active (after (rs @ [Some p'])) = g_active (after rs)) \<and>
    g_active (after (rs @ [None, None])) = TOUCH_NONE"
proof (intro conjI impI)
  have inv: "pad_inv v cal s" using assms(1,2) by (simp add: pad_inv_def)
  have inv': "pad_inv v cal (fold pad_step rs s)" using pad.run_refines [OF inv] by blast
  show "after rs = fold (gesture_step zone_of) rs (exword_touch_gesture s)"
    using pad.run_refines [OF inv] unfolding after_def zone_of_def by blast
  show "g_active (after (rs @ [Some p'])) = g_active (after rs)" if "g_active (after rs) \<noteq> TOUCH_NONE"
    using pad.latched_zone [OF inv'] that unfolding after_def by simp
  show "g_active (after (rs @ [None, None])) = TOUCH_NONE"
    using pad.released_after_two [OF inv'] unfolding after_def by simp
  show "\<exists>xs p q. rs @ [r] = xs @ [Some p, Some q] \<and> zone_of p = zone_of q \<and> close q p \<and>
         g_active (after (rs @ [r])) = zone_of q"
    if "g_active (exword_touch_gesture s) = TOUCH_NONE \<and> g_candidate (exword_touch_gesture s) = TOUCH_NONE \<and>
     g_count (exword_touch_gesture s) = 0 \<and> g_active (after rs) = TOUCH_NONE \<and> g_active (after (rs @ [r])) \<noteq> TOUCH_NONE"
    using that unfolding after_def zone_of_def by (intro pad.press_needs_two [OF inv]) simp_all
qed

text \<open>A calibration and two samples in the upper left zone.\<close>

definition demo_cal :: exword_touch_calibration where
  "demo_cal = \<lparr>x_origin = 90, y_origin = 120, x_span = 896, y_span = 2048\<rparr>"

definition demo_pad :: "unit keypad" where
  "demo_pad = (keypad_boot () 2)\<lparr>exword_touch_cal := demo_cal, exword_touch_cal_valid := True\<rparr>"

theorem keypad_touch_gestures_witness:
  "g_active (exword_touch_gesture (fold pad_step
     [Some \<lparr>sample_x = 200, sample_y = 300\<rparr>, Some \<lparr>sample_x = 210, sample_y = 310\<rparr>, None] demo_pad)) = TOUCH_LEFT"
proof -
  let ?rs = "[Some \<lparr>sample_x = 200, sample_y = 300\<rparr>, Some \<lparr>sample_x = 210, sample_y = 310\<rparr>, None]"
  have "exword_touch_cal_valid demo_pad = True" "exword_touch_cal demo_pad = demo_cal"
    by (simp_all add: demo_pad_def)
  from keypad_touch_gestures [OF this, of ?rs]
  have "exword_touch_gesture (fold pad_step ?rs demo_pad) =
      fold (gesture_step (exword_touch_sample_zone True demo_cal)) ?rs (exword_touch_gesture demo_pad)" by blast
  moreover have "g_active (fold (gesture_step (exword_touch_sample_zone True demo_cal)) ?rs (exword_touch_gesture demo_pad)) = TOUCH_LEFT"
    by code_simp
  ultimately show ?thesis by simp
qed

section \<open>Coordinates\<close>

definition s32 :: "int \<Rightarrow> bool" where
  "s32 v \<longleftrightarrow> - (2 ^ 31) \<le> v \<and> v < 2 ^ 31"

text \<open>C21. A sample of the converter is a point of the pad: both components have ten bits, and for
  a calibration that passes the sanity check (or without one) the scaled coordinate is computed
  without overflow of a 32-bit integer or division by zero and lies inside the pad.\<close>

theorem keypad_touch_in_range:
  assumes "adc_sample (drop_bit 6 r0) (drop_bit 6 r1) (drop_bit 6 r2) (drop_bit 6 r3) = Some p"
    and "valid \<longrightarrow> exword_touch_calibration_sane cal"
  shows "uint (sample_x p) \<le> 1023 \<and> uint (sample_y p) \<le> 1023 \<and>
    (valid \<longrightarrow> x_span cal \<noteq> 0 \<and> y_span cal \<noteq> 0 \<and>
       s32 ((uint (sample_x p) - x_origin cal) * 256) \<and> s32 ((uint (sample_y p) - y_origin cal) * 256)) \<and>
    exword_touch_coordinate valid (sample_x p) (x_origin cal) (x_span cal) EXWORD_SUBLCD_UI_WIDTH \<in> {0..<240} \<and>
    exword_touch_coordinate valid (sample_y p) (y_origin cal) (y_span cal) EXWORD_SUBLCD_UI_HEIGHT \<in> {0..<96}"
proof -
  have x: "uint (sample_x p) \<le> 1023" and y: "uint (sample_y p) \<le> 1023"
    using assms(1) axis_value_exact(2) [OF ten_bits ten_bits] by (auto simp: adc_sample_def split: if_splits)
  have scale: "exword_touch_coordinate valid r org span limit \<in> {0..<int limit}"
    if "uint r \<le> 1023" "0 < limit" for r org span limit
  proof -
    have "0 \<le> uint r * int limit" "uint r * int limit \<le> 1023 * int limit" using that(1) by (simp_all add: mult_right_mono)
    then have "0 \<le> uint r * int limit div 1024" "uint r * int limit div 1024 < int limit" using that(2) by linarith+
    then show ?thesis using that(2) by (auto simp: exword_touch_coordinate_def Let_def)
  qed
  have small: "s32 ((uint r - org) * 256)" if "uint r \<le> 1023" "\<not> org < 0" "\<not> org > 1023" for r :: u16 and org
  proof -
    have "- 1023 \<le> uint r - org" "uint r - org \<le> 1023" using that uint_ge_0 [of r] by linarith+
    then show ?thesis by (simp add: s32_def)
  qed
  show ?thesis
    using x y scale [OF x, of EXWORD_SUBLCD_UI_WIDTH] scale [OF y, of EXWORD_SUBLCD_UI_HEIGHT] assms(2)
    by (auto simp: exword_touch_calibration_sane_def small EXWORD_SUBLCD_UI_WIDTH_def EXWORD_SUBLCD_UI_HEIGHT_def
        simp del: left_diff_distrib_numeral)
qed

theorem keypad_touch_in_range_witness:
  "exword_touch_coordinate True 500 (x_origin demo_cal) (x_span demo_cal) EXWORD_SUBLCD_UI_WIDTH \<in> {0..<240}"
proof -
  have "adc_sample (drop_bit 6 (511 * 64)) (drop_bit 6 (512 * 64)) (drop_bit 6 (523 * 64)) (drop_bit 6 (500 * 64))
      = Some \<lparr>sample_x = 500, sample_y = 512\<rparr>" by code_simp
  moreover have "exword_touch_calibration_sane demo_cal" by code_simp
  ultimately show ?thesis using keypad_touch_in_range [of "511 * 64" "512 * 64" "523 * 64" "500 * 64" "\<lparr>sample_x = 500, sample_y = 512\<rparr>" True demo_cal]
    by simp
qed

section \<open>The drawn pad\<close>

text \<open>What is drawn is what is hit: no pixel of any row needs a read outside a glyph, every
  pixel of the pad belongs to the zone a touch at that point would select, and everything
  outside the pad is black.\<close>

theorem keypad_pad_drawn:
  "\<exists>c. exword_sublcd_pad_pixel x y = Some c \<and>
     (x < EXWORD_SUBLCD_UI_WIDTH \<and> y < EXWORD_SUBLCD_UI_HEIGHT \<longrightarrow> pad_zone x y = zone_at (int x) (int y)) \<and>
     (\<not> (x < EXWORD_SUBLCD_UI_WIDTH \<and> y < EXWORD_SUBLCD_UI_HEIGHT) \<longrightarrow> c = 0)"
proof -
  have glyph: "exword_sublcd_letter_pixel z a b \<noteq> None" for z a b
  proof -
    have "glyph_bit rows (nat (b - 10) div 4) (nat (a - 30) div 4) \<noteq> None"
      if "\<not> (a < 30 \<or> a \<ge> 50 \<or> b < 10 \<or> b \<ge> 38)" "length rows = 7" for rows
      using that by (auto simp: glyph_bit_def)
    then show ?thesis by (auto simp: exword_sublcd_letter_pixel_def letter_l_def letter_r_def)
  qed
  have "pad_zone x y = zone_at (int x) (int y)" by (simp add: pad_zone_def zone_at_def)
  moreover have "exword_sublcd_pad_pixel x y \<noteq> None"
    by (simp only: exword_sublcd_pad_pixel_def Let_def split: if_split) (simp only: glyph option.map_disc_iff option.simps simp_thms)
  moreover have "\<not> (x < EXWORD_SUBLCD_UI_WIDTH \<and> y < EXWORD_SUBLCD_UI_HEIGHT) \<Longrightarrow> exword_sublcd_pad_pixel x y = Some 0"
    by (auto simp: exword_sublcd_pad_pixel_def)
  ultimately show ?thesis by auto
qed

theorem keypad_pad_drawn_witness:
  "pad_zone 100 10 = zone_at 100 10 \<and> exword_sublcd_pad_pixel 241 10 = Some 0"
  using keypad_pad_drawn [of 100 10] keypad_pad_drawn [of 241 10]
  by (simp add: EXWORD_SUBLCD_UI_WIDTH_def EXWORD_SUBLCD_UI_HEIGHT_def)

text \<open>The words sent to the LCD, oldest first, split by the state of the data/command line at the time.\<close>

fun lcd_words :: "access list \<Rightarrow> (bool \<times> u16) list" where
  "lcd_words [] = []"
| "lcd_words (Wr16 a v # t) = (if a = EXWORD_SUBLCD_DATA
     then lcd_words t @ [(case find (\<lambda>x. is_write x \<and> address x = EXWORD_SUBLCD_PRDR) t of
         Some (Wr8 _ w) \<Rightarrow> bit w 2 | _ \<Rightarrow> True, v)] else lcd_words t)"
| "lcd_words (_ # t) = lcd_words t"

definition command_words :: "u8 \<Rightarrow> u16 \<Rightarrow> (bool \<times> u16) list" where
  "command_words c v = [(False, ucast c), (True, v)]"

definition row_words :: "nat \<Rightarrow> (bool \<times> u16) list" where
  "row_words y = command_words 0x21 6 @ command_words 0x52 6 @ command_words 0x53 249 @
     command_words 0x20 (of_nat y) @ command_words 0x50 (of_nat y) @ command_words 0x51 (of_nat y) @
     [(False, 0x22)] @ map (\<lambda>x. (True, the (exword_sublcd_pad_pixel x y))) [0..<244]"

definition dc_high :: "access list \<Rightarrow> bool" where
  "dc_high t \<longleftrightarrow> (case find (\<lambda>x. is_write x \<and> address x = EXWORD_SUBLCD_PRDR) t of
     Some (Wr8 _ w) \<Rightarrow> bit w 2 | _ \<Rightarrow> True)"

definition lcd_sent :: "(bool \<times> u16) list \<Rightarrow> 'w keypad \<Rightarrow> bool" where
  "lcd_sent ws s \<longleftrightarrow> lcd_words (trace s) = ws \<and> dc_high (trace s)"

lemma sent_command: "triple (lcd_sent ws) (exword_sublcd_command b c) (\<lambda>_. lcd_sent (ws @ [(False, ucast c)]))"
  by (auto intro!: tripleI simp: exword_sublcd_command_def readb_def writeb_def writew_def lcd_sent_def dc_high_def
      EXWORD_SUBLCD_DC_def EXWORD_SUBLCD_PRDR_def EXWORD_SUBLCD_DATA_def bit_simps split: prod.splits)

lemma sent_data: "triple (lcd_sent ws) (exword_sublcd_data b v) (\<lambda>_. lcd_sent (ws @ [(True, v)]))"
  by (auto intro!: tripleI simp: exword_sublcd_data_def writew_def lcd_sent_def dc_high_def)

lemma sent_pixels: "triple (lcd_sent ws) (draw_pixels b y xs)
    (\<lambda>_. lcd_sent (ws @ map (\<lambda>x. (True, the (exword_sublcd_pad_pixel x y))) xs))"
proof (induction xs arbitrary: ws)
  case (Cons x xs)
  show ?case using triple_bind [OF sent_data Cons.IH, of ws b] by simp
qed (simp add: triple_def)

lemma sent_row: "triple (lcd_sent ws) (exword_sublcd_set_row b y \<bind> (\<lambda>_. draw_pixels b y [0..<EXWORD_SUBLCD_WIDTH]))
    (\<lambda>_. lcd_sent (ws @ row_words y))"
proof -
  have two: "triple (lcd_sent ws) (exword_sublcd_command b c \<bind> (\<lambda>_. exword_sublcd_data b v \<bind> (\<lambda>_. m))) Q"
    if "triple (lcd_sent (ws @ command_words c v)) m Q" for ws c v m Q
    using that by (intro triple_bind [OF sent_command] triple_bind [OF sent_data]) (simp add: command_words_def)
  have w: "of_nat (6 + EXWORD_SUBLCD_WIDTH - 1) = (249 :: u16)" by (simp add: EXWORD_SUBLCD_WIDTH_def)
  have last: "triple (lcd_sent ws) (exword_sublcd_command b 0x22 \<bind> (\<lambda>_. draw_pixels b y [0..<244]))
      (\<lambda>_. lcd_sent (ws @ [(False, 0x22)] @ map (\<lambda>x. (True, the (exword_sublcd_pad_pixel x y))) [0..<244]))" for ws
    using triple_bind [OF sent_command [of ws b "0x22"] sent_pixels [of _ b y "[0..<244]"]] by simp
  show ?thesis
    unfolding exword_sublcd_set_row_def w row_words_def
    apply (simp only: bind_assoc EXWORD_SUBLCD_WIDTH_def)
    apply (intro two)
    apply (rule triple_post [OF last])
    apply (simp only: append_assoc)
    done
qed

fun draw_rows :: "'w bus \<Rightarrow> nat \<Rightarrow> ('w, unit) kp" where
  "draw_rows b 0 = ret ()"
| "draw_rows b (Suc n) = do { _ \<leftarrow> exword_sublcd_draw_next_row b; draw_rows b n }"

definition lcd_ready :: "nat \<Rightarrow> (bool \<times> u16) list \<Rightarrow> 'w keypad \<Rightarrow> bool" where
  "lcd_ready y ws s \<longleftrightarrow> lcd_sent ws s \<and> exword_sublcd_enabled s \<and> exword_sublcd_supported s \<and>
     exword_sublcd_next_row s = y \<and> exword_sublcd_finished s = (y = EXWORD_SUBLCD_HEIGHT)"

definition lcd_flags :: "'w keypad \<Rightarrow> bool \<times> bool \<times> nat \<times> bool" where
  "lcd_flags s = (exword_sublcd_enabled s, exword_sublcd_supported s, exword_sublcd_next_row s, exword_sublcd_finished s)"

lemma flags_rest: "keeps (\<lambda>s. lcd_flags s = c) (readb b a)" "keeps (\<lambda>s. lcd_flags s = c) (writeb b a x)"
  "keeps (\<lambda>s. lcd_flags s = c) (writew b a y)"
  by (rule keeps_rest; simp add: lcd_flags_def)+

lemma flags_pixels: "keeps (\<lambda>s. lcd_flags s = c) (draw_pixels b y xs)"
  by (induction xs) (simp_all add: exword_sublcd_data_def, (rule flags_rest kp_rule_set | assumption)+)

lemma flags_row: "keeps (\<lambda>s. lcd_flags s = c) (exword_sublcd_set_row b y \<bind> (\<lambda>_. draw_pixels b y xs))"
  unfolding exword_sublcd_set_row_def exword_sublcd_command_def exword_sublcd_data_def
  by (rule flags_pixels flags_rest kp_rule_set)+

lemma draw_row_run:
  assumes "lcd_ready y ws s" and "y < EXWORD_SUBLCD_HEIGHT" and run: "run_state (exword_sublcd_draw_next_row b) s = (r, s')"
  shows "lcd_ready (Suc y) (ws @ row_words y) s'"
proof -
  let ?m = "exword_sublcd_set_row b y \<bind> (\<lambda>_. draw_pixels b y [0..<EXWORD_SUBLCD_WIDTH])"
  obtain s1 where m: "run_state ?m s = ((), s1)" by (cases "run_state ?m s") simp
  have s': "s' = (if Suc y = EXWORD_SUBLCD_HEIGHT then s1\<lparr>exword_sublcd_next_row := Suc y, exword_sublcd_finished := True\<rparr>
      else s1\<lparr>exword_sublcd_next_row := Suc y\<rparr>)"
    using run m assms(1,2)
    by (auto simp: exword_sublcd_draw_next_row_def Let_def lcd_ready_def split: prod.splits if_splits)
  have "lcd_sent ws s" using assms(1) by (simp add: lcd_ready_def)
  from tripleD [OF sent_row m this] keepsD [OF flags_row m refl] assms(1,2) show ?thesis
    unfolding s' by (auto simp: lcd_ready_def lcd_flags_def lcd_sent_def)
qed

lemma draw_rows_run:
  assumes "lcd_ready y ws s" and "n \<le> EXWORD_SUBLCD_HEIGHT - y" and "run_state (draw_rows b n) s = (r, s')"
  shows "lcd_ready (y + n) (ws @ concat (map row_words [y..<y + n])) s'"
  using assms
proof (induction n arbitrary: y ws s)
  case (Suc n)
  obtain a s1 where one: "run_state (exword_sublcd_draw_next_row b) s = (a, s1)" by (rule prod.exhaust)
  have "lcd_ready (Suc y) (ws @ row_words y) s1" using draw_row_run [OF Suc.prems(1) _ one] Suc.prems(2) by simp
  from Suc.IH [OF this] Suc.prems(2,3) one
  have "lcd_ready (Suc y + n) ((ws @ row_words y) @ concat (map row_words [Suc y..<Suc y + n])) s'" by simp
  moreover have "[y..<y + Suc n] = y # [Suc y..<Suc y + n]" by (simp add: upt_conv_Cons)
  ultimately show ?case by (simp only: list.map concat.simps append_assoc add_Suc_right add_Suc)
qed simp

text \<open>Drawing ends after exactly one call per row: 99 calls from the top send, for every row in
  order, the addressing commands with the data/command line low for the command bytes and high
  for everything else, and the 244 pixels of the row; they leave the pad marked finished, and
  a further call sends nothing.\<close>

theorem keypad_lcd_complete:
  fixes s :: "'w keypad"
  assumes "exword_sublcd_enabled s" and "exword_sublcd_supported s" and "exword_sublcd_next_row s = 0"
    and "\<not> exword_sublcd_finished s" and "dc_high (trace s)" and "run_state (draw_rows b 99) s = (r, s')"
  shows "lcd_words (trace s') = lcd_words (trace s) @ concat (map row_words [0..<99]) \<and>
    exword_sublcd_finished s' \<and> run_state (exword_sublcd_draw_next_row b) s' = (False, s')"
proof -
  have "lcd_ready 0 (lcd_words (trace s)) s"
    using assms by (simp add: lcd_ready_def lcd_sent_def EXWORD_SUBLCD_HEIGHT_def)
  from draw_rows_run [OF this _ assms(6)] have "lcd_ready 99 (lcd_words (trace s) @ concat (map row_words [0..<99])) s'"
    by (simp add: EXWORD_SUBLCD_HEIGHT_def del: upt_rec_numeral)
  then show ?thesis
    by (simp add: lcd_ready_def lcd_sent_def EXWORD_SUBLCD_HEIGHT_def exword_sublcd_draw_next_row_def Let_def
        del: upt_rec_numeral)
qed

theorem keypad_lcd_complete_witness:
  "exword_sublcd_finished (snd (run_state (draw_rows demo_bus 99)
     ((keypad_boot () 1)\<lparr>exword_sublcd_enabled := True, exword_sublcd_supported := True\<rparr>)))"
  using keypad_lcd_complete [of "(keypad_boot () 1)\<lparr>exword_sublcd_enabled := True, exword_sublcd_supported := True\<rparr>",
      OF _ _ _ _ _ prod.collapse [symmetric], of demo_bus]
  by (simp add: keypad_boot_def dc_high_def del: upt_rec_numeral draw_rows.simps)

section \<open>Reports that should not be\<close>

text \<open>The tap for an unmatched Enter release is meant for the Enter that launched Linux, but a
  press that served as a mouse button is not remembered either: when mouse mode is left while
  Enter is held, releasing the key types a Return.\<close>

theorem keypad_enter_after_mouse_mode:
  fixes s :: "'w keypad"
  assumes "exword_mouse_mode s" and "\<not> exword_enter_press_seen s"
    and "run_state exword_toggle_mouse_mode s = (u, s1)"
    and "keycode k = KEY_ENTER" and "scan k = 76" and "down k" and "\<not> exword_key_down st 76"
    and "run_state (scan_key st k f) s1 = (r, s2)"
  shows "events s2 = events s1 @ enter_tap"
proof -
  have "\<not> exword_mouse_mode s1 \<and> \<not> exword_enter_press_seen s1"
    using assms(1-3)
    by (auto simp: exword_toggle_mouse_mode_def exword_release_keypad_mouse_buttons_def split: prod.splits
        dest!: set_pointer_button_frame [where c = "Code KEY_ENTER"])
  with assms(4-8) show ?thesis
    by (auto simp: scan_key_def Let_def exword_report_enter_tap_def input_report_def enter_tap_def EXWORD_MOUSE_TOGGLE_SCAN_def
        split: prod.splits)
qed

theorem keypad_enter_after_mouse_mode_witness:
  "events (snd (run_state (scan_key [0, 0, 0, 0, 0, 0] \<lparr>scan = 76, keycode = KEY_ENTER, down = True\<rparr>
       \<lparr>activity = False, mouse_direction_edge = False, sync = False\<rparr>)
     (snd (run_state exword_toggle_mouse_mode ((keypad_boot () 0)\<lparr>exword_mouse_mode := True\<rparr>))))) = enter_tap"
proof -
  let ?s = "(keypad_boot () 0)\<lparr>exword_mouse_mode := True\<rparr>"
  have ev: "events (snd (run_state exword_toggle_mouse_mode ?s)) = []"
    by (simp add: keypad_boot_def exword_toggle_mouse_mode_def exword_release_keypad_mouse_buttons_def
        exword_set_pointer_button_def EXWORD_POINTER_SOURCE_KEYPAD_def)
  show ?thesis
    using keypad_enter_after_mouse_mode [OF _ _ prod.collapse [symmetric] _ _ _ _ prod.collapse [symmetric],
        of ?s "\<lparr>scan = 76, keycode = KEY_ENTER, down = True\<rparr>" "[0, 0, 0, 0, 0, 0]"
          "\<lparr>activity = False, mouse_direction_edge = False, sync = False\<rparr>"]
    by (simp only: ev append_Nil) (simp add: keypad_boot_def exword_key_down_def)
qed

definition dead :: "bool \<Rightarrow> touch_zone \<Rightarrow> 'w keypad \<Rightarrow> bool" where
  "dead E z s \<longleftrightarrow> (exword_touch_enabled s \<longrightarrow> E) \<and> \<not> exword_touch_available s \<and> exword_touch_prepared s \<and>
     g_active (exword_touch_gesture s) = z"

lemma dead_modify:
  assumes "\<And>s. exword_touch_enabled (f s) = exword_touch_enabled s" "\<And>s. exword_touch_available (f s) = exword_touch_available s"
    "\<And>s. exword_touch_prepared (f s) = exword_touch_prepared s"
    "\<And>s. g_active (exword_touch_gesture (f s)) = g_active (exword_touch_gesture s)"
  shows "keeps (dead E z) (modify f)"
  by (rule keeps_modify) (simp add: dead_def assms)

lemma dead_rest:
  "keeps (dead E z) (readb b a)" "keeps (dead E z) (readw b a)" "keeps (dead E z) (readl b a)"
  "keeps (dead E z) (writeb b a x)" "keeps (dead E z) (writew b a y)" "keeps (dead E z) (writel b a v)"
  by (rule keeps_rest; simp add: dead_def)+

lemmas dead_free = dead_rest dead_modify kp_rule_set

lemma dead_pen_samples: "keeps (dead E z) (pen_samples b n)"
  by (induction n) (simp_all, (rule dead_free | assumption)+)

lemma dead_gpio: "keeps (dead E z) (exword_touch_prepare_gpio_hardware b)"
  unfolding exword_touch_prepare_gpio_hardware_def exword_touch_base_pfc_def exword_touch_read_pen_level_def
  by (rule dead_pen_samples dead_free)+

lemma dead_pixels: "keeps (dead E z) (draw_pixels b y xs)"
  by (induction xs) (simp_all add: exword_sublcd_data_def, (rule dead_free | assumption)+)

lemma dead_row: "keeps (dead E z) (exword_sublcd_draw_next_row b)"
  unfolding exword_sublcd_draw_next_row_def exword_sublcd_set_row_def exword_sublcd_command_def
    exword_sublcd_data_def Let_def
  by (rule dead_pixels dead_free | simp)+

lemma dead_button: "keeps (dead E z) (exword_set_pointer_button bt src d)"
  unfolding exword_set_pointer_button_def input_report_def Let_def by (rule dead_free | simp)+

lemma dead_scan_keys: "keeps (dead E z) (scan_keys st ks f)"
proof (induction ks arbitrary: f)
  case (Cons k ks)
  have "keeps (dead E z) (scan_key st k f)" for f
    unfolding scan_key_def exword_report_enter_tap_def exword_toggle_mouse_mode_def input_report_def Let_def
      exword_release_mouse_keys_from_keyboard_def exword_release_keypad_mouse_buttons_def
    by (rule dead_button dead_free | simp)+
  then show ?case unfolding scan_keys.simps by (intro keeps_bind keeps_case_prod keeps_ret Cons.IH)
qed (simp add: keeps_ret)

lemma dead_words: "keeps (dead E z) (read_words b ns)"
  by (induction ns) (simp_all, (rule dead_free | assumption)+)

lemma dead_touch: "keeps (dead False z) (scan_touch b)"
  by (rule keepsI) (auto simp: scan_touch_def dead_def)

lemma dead_once: "keeps (dead False z) (exword_scan_once b)"
  unfolding exword_scan_once_def exword_read_state_def scan_motion_def exword_report_pointer_motion_def report_rel_def
    input_report_def Let_def
  by (rule dead_scan_keys dead_words dead_touch dead_free | simp)+

lemma dead_facts: "dead False z s \<Longrightarrow> \<not> exword_touch_enabled s"
  by (simp add: dead_def)

lemma dead_last: "triple (dead E z) (gets exword_touch_prepared \<bind> (\<lambda>prepared. if \<not> prepared then m
    else modify (\<lambda>s. s\<lparr>exword_touch_enabled := exword_touch_available s\<rparr>))) (\<lambda>_. dead False z)"
  by (rule tripleI) (auto simp: dead_def)

lemma dead_off: "keeps (dead False z) (gets exword_touch_prepared \<bind> (\<lambda>prepared. if \<not> prepared then m
    else modify (\<lambda>s. s\<lparr>exword_touch_enabled := exword_touch_available s\<rparr>)))"
  unfolding keeps_def by (rule dead_last)

lemma dead_mode: "keeps (dead False z) (exword_service_subpad_mode b)"
  unfolding exword_service_subpad_mode_def Let_def
  by (rule keeps_gets_bind, drule dead_facts, (rule dead_off dead_gpio dead_free | simp)+)

lemma dead_thread: "exword_scan_thread b V s s' \<Longrightarrow> dead False z s \<Longrightarrow> dead False z s'"
proof (induction rule: exword_scan_thread.induct)
  case (scan_loop s s1)
  have k: "keeps (dead False z) (scan_iteration b)"
    unfolding scan_iteration_def by (rule dead_once dead_mode dead_row dead_free | simp)+
  show ?case using keepsD [OF k prod.collapse [symmetric]] scan_loop by blast
qed (auto simp: dead_def)

lemma service_dying:
  assumes "dead True z s" and "bit (subpad_request (exword_subpad_mode s)) 1"
    and "subpad_request (exword_subpad_mode s) \<noteq> applied_mode s"
  shows "triple (\<lambda>t. t = s) (exword_service_subpad_mode b) (\<lambda>_. dead False z)"
proof -
  have k: "triple (dead E z) m (\<lambda>_. dead E z)" if "keeps (dead E z) m" for E and m :: "('a, 'b) kp"
    using that by (simp add: keeps_def)
  have g: "triple (\<lambda>t. t = s) (gets id \<bind> F) Q" if "triple (dead True z) (F s) Q" for F :: "'a keypad \<Rightarrow> ('a, 'b) kp" and Q
    using that assms(1) by (simp add: triple_def)
  have final: "triple (dead False z) (modify (\<lambda>s. s\<lparr>applied_mode := v\<rparr>)) (\<lambda>_. dead False z)" for v
    by (simp add: triple_def dead_def)
  show ?thesis
    unfolding exword_service_subpad_mode_def Let_def
    apply (rule g)
    apply (simp only: id_apply assms(2,3) simp_thms if_False)
    apply (rule triple_bind [OF k], ((rule dead_gpio dead_free | simp)+)[1])
    apply (rule triple_bind [OF k], ((rule dead_gpio dead_free | simp)+)[1])
    apply (rule triple_bind [OF k], ((rule dead_gpio dead_free | simp)+)[1])
    apply (rule triple_bind [OF k], ((rule dead_gpio dead_free | simp)+)[1])
    apply (rule triple_bind [OF _ final])
    apply (simp only: onlyif_def if_True)
    apply (rule dead_last)
    done
qed

text \<open>C23. A pad button can stay pressed for ever: when the converter has failed (so that the pad
  is no longer available) while a button zone is active, and the mode parameter is changed,
  with its touch bit still set, before the two polls that would release the button, touch
  polling is switched off without releasing it; from then on the button is reported pressed,
  whatever happens and whatever mode is requested.\<close>

theorem keypad_touch_button_stuck:
  fixes s :: "'w keypad"
  assumes "keys_inv s" and "exword_touch_enabled s" and "exword_touch_prepared s" and "\<not> exword_touch_available s"
    and "g_active (exword_touch_gesture s) = TOUCH_BUTTON_LEFT"
    and "bit (subpad_request (exword_subpad_mode s)) 1" and "subpad_request (exword_subpad_mode s) \<noteq> applied_mode s"
    and "run_state (exword_service_subpad_mode b) s = (u, s1)" and "exword_scan_thread b V s1 s2"
  shows "level Pointer (Btn BTN_LEFT) (events s2) = 1"
proof -
  let ?z = TOUCH_BUTTON_LEFT
  have "triple (\<lambda>t. t = s) (exword_service_subpad_mode b) (\<lambda>_. dead False ?z)"
    using assms(2-7) by (intro service_dying) (auto simp: dead_def)
  from tripleD [OF this assms(8) refl] have "dead False ?z s1" .
  moreover have "keys_inv s1" by (rule keepsD [OF keys_inv_mode assms(8,1)])
  ultimately have "dead False ?z s2" "keys_inv s2" using dead_thread [OF assms(9)] keys_inv_thread [OF assms(9)] by blast+
  then have a: "pad_button (g_active (exword_touch_gesture s2)) = BTN_LEFT" and p: "pointer_inv s2"
    by (simp_all add: dead_def keys_inv_def)
  from p [unfolded pointer_inv_def buttons_inv_def a, THEN conjunct2, THEN spec [of _ BTN_LEFT]]
  show ?thesis by auto
qed

lemma keys_inv_pad_step: "keys_inv s \<Longrightarrow> keys_inv (pad_step r s)"
  unfolding pad_step_def
  by (rule keepsD [OF keys_inv_kbd [OF pointer_inv_evaluate kbd_evaluate] prod.collapse [symmetric]])

text \<open>The pad after two samples in the lower left zone, a failure of the converter and a change of mode.\<close>

definition stuck_samples :: "touch_sample option list" where
  "stuck_samples = [Some \<lparr>sample_x = 200, sample_y = 800\<rparr>, Some \<lparr>sample_x = 210, sample_y = 810\<rparr>]"

definition stuck_pad :: "unit keypad" where
  "stuck_pad = (fold pad_step stuck_samples demo_pad)
     \<lparr>exword_touch_enabled := True, exword_touch_prepared := True, exword_touch_available := False,
      applied_mode := 2, exword_subpad_mode := 3\<rparr>"

theorem keypad_touch_button_stuck_witness:
  "level Pointer (Btn BTN_LEFT) (events (snd (run_state (scan_iteration demo_bus)
     (snd (run_state (exword_service_subpad_mode demo_bus) stuck_pad))))) = 1"
proof -
  have "fresh demo_pad"
    using press_events(4) by (simp add: fresh_def demo_pad_def keypad_boot_def boot_keys_def)
  then have "keys_inv (fold pad_step stuck_samples demo_pad)"
    unfolding stuck_samples_def by (simp add: keys_inv_pad_step fresh_keys_inv)
  moreover have "inputs stuck_pad = inputs (fold pad_step stuck_samples demo_pad)"
    by (simp add: stuck_pad_def inputs_def)
  ultimately have inv: "keys_inv stuck_pad" using inputs_inv by blast
  have "pad_inv True demo_cal demo_pad" by (simp add: pad_inv_def demo_pad_def)
  from pad.run_refines [OF this, of stuck_samples]
  have "exword_touch_gesture (fold pad_step stuck_samples demo_pad) =
      fold (gesture_step (exword_touch_sample_zone True demo_cal)) stuck_samples (exword_touch_gesture demo_pad)" by blast
  moreover have "g_active (fold (gesture_step (exword_touch_sample_zone True demo_cal)) stuck_samples
      (exword_touch_gesture demo_pad)) = TOUCH_BUTTON_LEFT" by code_simp
  ultimately have z: "g_active (exword_touch_gesture stuck_pad) = TOUCH_BUTTON_LEFT" by (simp add: stuck_pad_def)
  have m: "bit (subpad_request (exword_subpad_mode stuck_pad)) 1" "subpad_request (exword_subpad_mode stuck_pad) \<noteq> applied_mode stuck_pad"
    "exword_touch_enabled stuck_pad" "exword_touch_prepared stuck_pad" "\<not> exword_touch_available stuck_pad"
    by (simp_all add: stuck_pad_def subpad_request_def)
  show ?thesis
    by (rule keypad_touch_button_stuck [OF inv m(3-5) z m(1,2) prod.collapse [symmetric] scan_loop [OF scan_start [where V = "{}"]]])
qed

end
