(* ===== verification/Subpad.thy ===== *)
theory Subpad
  imports Touch
begin

text \<open>
  The touch pad mouse for X (\<^verbatim>\<open>src/x11/apps/subpad-mouse.c\<close>): it maps the port, clock and converter
  registers, saves the pin functions, polls the pad, turns it into X pointer input and puts
  everything back at the end. Registers are accessed through an arbitrary \<open>bus\<close> at their physical
  addresses; calls to the system and to the X server are answered by an arbitrary host and
  recorded in order.
\<close>

section \<open>Constants and data\<close>

unbundle bit_operations_syntax

definition PFC_PHYS :: u32 where "PFC_PHYS = 0x04050000"
definition CPG_PHYS :: u32 where "CPG_PHYS = 0x04150000"
definition ADC_PHYS :: u32 where "ADC_PHYS = 0x04610000"
definition PGCR_OFF :: u32 where "PGCR_OFF = 0x10c"
definition PHCR_OFF :: u32 where "PHCR_OFF = 0x10e"
definition PLCR_OFF :: u32 where "PLCR_OFF = 0x114"
definition PGDR_OFF :: u32 where "PGDR_OFF = 0x12c"
definition PHDR_OFF :: u32 where "PHDR_OFF = 0x12e"
definition PLDR_OFF :: u32 where "PLDR_OFF = 0x134"
definition PSELE_OFF :: u32 where "PSELE_OFF = 0x156"
definition MSELCRA_OFF :: u32 where "MSELCRA_OFF = 0x180"
definition PFC_A_OFF :: u32 where "PFC_A_OFF = 0x1d6"
definition FRQCRA_OFF :: u32 where "FRQCRA_OFF = 0x000"
definition MSTPCR2_OFF :: u32 where "MSTPCR2_OFF = 0x038"
definition ADC_CLOCK_BIT :: u32 where "ADC_CLOCK_BIT = 0x08000000"
definition ADDRA_OFF :: u32 where "ADDRA_OFF = 0x080"
definition ADDRB_OFF :: u32 where "ADDRB_OFF = 0x082"
definition ADDRC_OFF :: u32 where "ADDRC_OFF = 0x084"
definition ADDRD_OFF :: u32 where "ADDRD_OFF = 0x086"
definition ADCSR_OFF :: u32 where "ADCSR_OFF = 0x088"
definition ADCCSR_OFF :: u32 where "ADCCSR_OFF = 0x08a"
definition ADCUST_OFF :: u32 where "ADCUST_OFF = 0x08c"
definition ADPCTL_OFF :: u32 where "ADPCTL_OFF = 0x08e"
definition ADC_TIMEOUT :: nat where "ADC_TIMEOUT = 8192"
definition MOVE_STEP :: int where "MOVE_STEP = 6"
definition MOVE_REPEAT_POLLS :: nat where "MOVE_REPEAT_POLLS = 3"
definition DEBOUNCE_POLLS :: nat where "DEBOUNCE_POLLS = 2"
definition RELEASE_POLLS :: nat where "RELEASE_POLLS = 2"
definition RAW_JITTER_LIMIT :: nat where "RAW_JITTER_LIMIT = 96"
definition RAW_X_FIRST :: u16 where "RAW_X_FIRST = 349"
definition RAW_X_SECOND :: u16 where "RAW_X_SECOND = 650"
definition RAW_Y_SPLIT :: u16 where "RAW_Y_SPLIT = 522"

datatype adc_result = ADC_SAMPLE_VALID | ADC_SAMPLE_INVALID | ADC_FATAL_CLEAN | ADC_FATAL_DIRTY

record maps =
  fd :: int
  pfc :: bool                          \<comment> \<open>not \<^verbatim>\<open>MAP_FAILED\<close>\<close>
  cpg :: bool
  adc :: bool

record pfc_snapshot =
  pgcr :: u16
  phcr :: u16
  plcr :: u16
  psele :: u16
  mselcra :: u16
  pfc_a :: u16
  pgdr :: u8
  phdr :: u8

text \<open>Calls to the system and the X server; each is answered by an integer.\<close>

datatype call =
    Geteuid | Open_fb0 | Ioctl_fscreeninfo | Ioctl_vscreeninfo | Close_fb0
  | Stat_parameter | Sigfillset | Sigemptyset | Sigdelset | Sigaddset | Sigprocmask_set | Sigaction
  | Sigprocmask_block | Sigprocmask_restore
  | Open_lock | Flock | Close_lock
  | Sysconf_pagesize | Stat_devmem | Open_devmem | Mmap u32 | Munmap u32 | Close_devmem
  | Xcb_connect | Xcb_has_error | Xcb_xtest_present | Xcb_xtest_version | Xcb_flush | Xcb_disconnect
  | Fake_button bool nat | Warp_pointer int int
  | Stop_requested

record fb_info =
  fb_id :: string
  xres :: nat
  yres :: nat
  bits_per_pixel :: nat

record 'w host =
  bus_of :: "'w bus"
  answer :: "call \<Rightarrow> 'w \<Rightarrow> int \<times> 'w"
  fb_of :: "'w \<Rightarrow> fb_info"

record 'w subpad = "'w machine" +
  calls :: "call list"
  gest :: gesture
  snapshot :: pfc_snapshot
  maps :: maps
  clock_was_gated :: bool
  hardware_safe :: bool
  snapshot_valid :: bool
  clock_opened :: bool
  pfc_restored :: bool
  clock_restored :: bool
  fatal_error :: bool
  stopping_blocked :: bool
  connected :: bool
  lock_fd :: int
  exit_result :: int

type_synonym ('w, 'a) sp = "('w subpad, 'a) state"

definition oscall :: "'w host \<Rightarrow> call \<Rightarrow> ('w, int) sp" where
  "oscall h c = State (\<lambda>s. case answer h c (dev s) of (r, d) \<Rightarrow> (r, s\<lparr>dev := d, calls := calls s @ [c]\<rparr>))"

definition both :: "('s, bool) state \<Rightarrow> ('s, bool) state \<Rightarrow> ('s, bool) state" where
  "both m n = do { a \<leftarrow> m; if a then n else ret False }"      \<comment> \<open>\<^verbatim>\<open>&&\<close>\<close>

section \<open>Mappings and the environment\<close>

definition close_maps :: "'w host \<Rightarrow> ('w, unit) sp" where
  "close_maps h = do {
     m \<leftarrow> gets maps;
     onlyif (adc m) (do { _ \<leftarrow> oscall h (Munmap ADC_PHYS); ret () });
     onlyif (cpg m) (do { _ \<leftarrow> oscall h (Munmap CPG_PHYS); ret () });
     onlyif (pfc m) (do { _ \<leftarrow> oscall h (Munmap PFC_PHYS); ret () });
     onlyif (fd m \<ge> 0) (do { _ \<leftarrow> oscall h Close_devmem; ret () });
     modify (\<lambda>s. s\<lparr>maps := \<lparr>fd = -1, pfc = False, cpg = False, adc = False\<rparr>\<rparr>) }"

text \<open>A mapping fails when \<^verbatim>\<open>mmap\<close> answers \<^verbatim>\<open>MAP_FAILED\<close>, which is -1.\<close>

definition map_page :: "'w host \<Rightarrow> ((bool \<Rightarrow> bool) \<Rightarrow> maps \<Rightarrow> maps) \<Rightarrow> u32 \<Rightarrow> ('w, bool) sp" where
  "map_page h dest physical = do {
     r \<leftarrow> oscall h (Mmap physical);
     modify (\<lambda>s. s\<lparr>maps := dest (\<lambda>_. r \<noteq> -1) (maps s)\<rparr>);
     ret (r \<noteq> -1) }"

definition open_maps :: "'w host \<Rightarrow> ('w, bool) sp" where
  "open_maps h = do {
     modify (\<lambda>s. s\<lparr>maps := \<lparr>fd = -1, pfc = False, cpg = False, adc = False\<rparr>\<rparr>);
     page_size \<leftarrow> oscall h Sysconf_pagesize;
     if page_size \<noteq> 4096 then ret False
     else do {
       st \<leftarrow> oscall h Stat_devmem;
       if st \<noteq> 0 then ret False
       else do {
         f \<leftarrow> oscall h Open_devmem;
         modify (\<lambda>s. s\<lparr>maps := (maps s)\<lparr>fd := f\<rparr>\<rparr>);
         if f < 0 then ret False
         else do {
           ok \<leftarrow> both (map_page h pfc_update PFC_PHYS)
                  (both (map_page h cpg_update CPG_PHYS) (map_page h adc_update ADC_PHYS));
           if ok then ret True else do { close_maps h; ret False } } } } }"

definition expected_hardware :: "'w host \<Rightarrow> ('w, bool) sp" where
  "expected_hardware h = do {
     f \<leftarrow> oscall h Open_fb0;
     matches \<leftarrow> (if f < 0 then ret False else do {
       i \<leftarrow> oscall h Ioctl_fscreeninfo;
       if i \<noteq> 0 then ret False
       else do {
         j \<leftarrow> oscall h Ioctl_vscreeninfo;
         if j \<noteq> 0 then ret False
         else do {
           info \<leftarrow> gets (\<lambda>s. fb_of h (dev s));
           ret (fb_id info = ''EX-word LCD'' \<and> xres info = 528 \<and> yres info = 320 \<and> bits_per_pixel info = 16) } } });
     onlyif (f \<ge> 0) (do { _ \<leftarrow> oscall h Close_fb0; ret () });
     ret matches }"

text \<open>The answer of \<^verbatim>\<open>stat\<close> is 0 or minus the error number.\<close>

definition experimental_driver_absent :: "'w host \<Rightarrow> ('w, bool) sp" where
  "experimental_driver_absent h = do { r \<leftarrow> oscall h Stat_parameter; ret (r = -2) }"

definition acquire_lock :: "'w host \<Rightarrow> ('w, int) sp" where
  "acquire_lock h = do {
     f \<leftarrow> oscall h Open_lock;
     if f < 0 then ret (-1)
     else do {
       l \<leftarrow> oscall h Flock;
       if l < 0 then do { _ \<leftarrow> oscall h Close_lock; ret (-1) } else ret f } }"

fun all_ok :: "'w host \<Rightarrow> call list \<Rightarrow> ('w, bool) sp" where
  "all_ok h [] = ret True"
| "all_ok h (c # cs) = do { r \<leftarrow> oscall h c; if r < 0 then ret False else all_ok h cs }"

text \<open>Six synchronous signals are taken out of the blocked set; four stopping signals too, each
  also added to the stopping set.\<close>

definition configure_signals :: "'w host \<Rightarrow> ('w, bool) sp" where
  "configure_signals h = all_ok h
     ([Sigfillset, Sigemptyset] @ replicate 6 Sigdelset @ concat (replicate 4 [Sigaddset, Sigdelset]) @
      [Sigprocmask_set, Sigemptyset] @ replicate 4 Sigaction)"

definition block_stopping_signals :: "'w host \<Rightarrow> ('w, bool) sp" where
  "block_stopping_signals h = do { r \<leftarrow> oscall h Sigprocmask_block; ret (r \<ge> 0) }"

definition restore_signal_mask :: "'w host \<Rightarrow> ('w, bool) sp" where
  "restore_signal_mask h = do { r \<leftarrow> oscall h Sigprocmask_restore; ret (r \<ge> 0) }"

section \<open>Registers\<close>

definition rmw8 :: "'w bus \<Rightarrow> u32 \<Rightarrow> u8 \<Rightarrow> u8 \<Rightarrow> ('w, unit) sp" where
  "rmw8 b reg mk v = do { current \<leftarrow> readb b reg; writeb b reg ((current AND NOT mk) OR (v AND mk)) }"

definition rmw16 :: "'w bus \<Rightarrow> u32 \<Rightarrow> u16 \<Rightarrow> u16 \<Rightarrow> ('w, unit) sp" where
  "rmw16 b reg mk v = do { current \<leftarrow> readw b reg; writew b reg ((current AND NOT mk) OR (v AND mk)) }"

definition capture_pfc :: "'w bus \<Rightarrow> ('w, unit) sp" where
  "capture_pfc b = do {
     v1 \<leftarrow> readw b (PFC_PHYS + PGCR_OFF);
     v2 \<leftarrow> readw b (PFC_PHYS + PHCR_OFF);
     v3 \<leftarrow> readw b (PFC_PHYS + PLCR_OFF);
     v4 \<leftarrow> readb b (PFC_PHYS + PGDR_OFF);
     v5 \<leftarrow> readb b (PFC_PHYS + PHDR_OFF);
     v6 \<leftarrow> readw b (PFC_PHYS + PSELE_OFF);
     v7 \<leftarrow> readw b (PFC_PHYS + MSELCRA_OFF);
     v8 \<leftarrow> readw b (PFC_PHYS + PFC_A_OFF);
     modify (\<lambda>s. s\<lparr>snapshot := \<lparr>pgcr = v1, phcr = v2, plcr = v3, psele = v6, mselcra = v7, pfc_a = v8,
                                 pgdr = v4, phdr = v5\<rparr>\<rparr>) }"

definition base_pfc :: "'w bus \<Rightarrow> ('w, unit) sp" where
  "base_pfc b = do {
     writeb b (PFC_PHYS + PGDR_OFF) 0;
     rmw16 b (PFC_PHYS + PHCR_OFF) 0x0300 0x0100;
     rmw16 b (PFC_PHYS + PLCR_OFF) 0x000c 0;
     rmw16 b (PFC_PHYS + PSELE_OFF) 0x0c00 0 }"

fun wait_loop :: "'w bus \<Rightarrow> u32 \<Rightarrow> u16 \<Rightarrow> nat \<Rightarrow> ('w, bool) sp" where
  "wait_loop b reg mk 0 = ret False"
| "wait_loop b reg mk (Suc n) = do {
     v \<leftarrow> readw b reg; if v AND mk = 0 then ret True else wait_loop b reg mk n }"

definition wait_clear :: "'w bus \<Rightarrow> u32 \<Rightarrow> u16 \<Rightarrow> ('w, bool) sp" where
  "wait_clear b reg mk = wait_loop b reg mk ADC_TIMEOUT"

definition emergency_abort_idle :: "'w bus \<Rightarrow> ('w, bool) sp" where
  "emergency_abort_idle b = do {
     v \<leftarrow> readw b (ADC_PHYS + ADCCSR_OFF);
     writew b (ADC_PHYS + ADCCSR_OFF) (v AND NOT 0xe000);
     ok \<leftarrow> wait_clear b (ADC_PHYS + ADCCSR_OFF) 0x2000;
     if \<not> ok then ret False
     else do {
       writew b (ADC_PHYS + ADCUST_OFF) 0;
       v \<leftarrow> readw b (ADC_PHYS + ADCSR_OFF);
       writew b (ADC_PHYS + ADCSR_OFF) (v AND NOT 0x2000);
       wait_clear b (ADC_PHYS + ADCSR_OFF) 0x2000 } }"

definition normal_rest :: "'w bus \<Rightarrow> bool \<Rightarrow> ('w, bool) sp" where
  "normal_rest b high = do {
     ok \<leftarrow> wait_clear b (ADC_PHYS + ADCCSR_OFF) 0x2000;
     if \<not> ok then ret False
     else do {
       writew b (ADC_PHYS + ADCUST_OFF) 0;
       v \<leftarrow> readw b (ADC_PHYS + ADCSR_OFF);
       writew b (ADC_PHYS + ADCSR_OFF) (v AND NOT 0x2000);
       ok \<leftarrow> wait_clear b (ADC_PHYS + ADCSR_OFF) 0x2000;
       if \<not> ok then ret False
       else do {
         base_pfc b;
         writew b (PFC_PHYS + PGCR_OFF) 0xaaaa;
         writeb b (PFC_PHYS + PGDR_OFF) 0;
         rmw8 b (PFC_PHYS + PHDR_OFF) 0x10 (if high then 0x10 else 0);
         ret True } } }"

fun pen_loop :: "'w bus \<Rightarrow> nat \<Rightarrow> bool \<Rightarrow> ('w, bool) sp" where
  "pen_loop b 0 contact = ret contact"
| "pen_loop b (Suc n) contact = do {
     v \<leftarrow> readb b (PFC_PHYS + PLDR_OFF); pen_loop b n (contact \<and> v AND 0x02 = 0) }"

definition read_pen :: "'w bus \<Rightarrow> ('w, bool) sp" where
  "read_pen b = do {
     rmw16 b (PFC_PHYS + PLCR_OFF) 0x000c 0x0008;
     contact \<leftarrow> pen_loop b 5 True;
     base_pfc b;
     ret contact }"

text \<open>The readings are complementary, and the sample is computed whether they are or not.\<close>

definition adc_valid :: "u16 \<Rightarrow> u16 \<Rightarrow> u16 \<Rightarrow> u16 \<Rightarrow> bool" where
  "adc_valid b a d c \<longleftrightarrow> pair_ok b a \<and> pair_ok d c"

definition adc_point :: "u16 \<Rightarrow> u16 \<Rightarrow> u16 \<Rightarrow> u16 \<Rightarrow> touch_sample" where
  "adc_point b a d c = \<lparr>sample_x = axis_value c d, sample_y = axis_value a b\<rparr>"

definition adc_failed :: "'w bus \<Rightarrow> ('w, adc_result \<times> touch_sample) sp" where
  "adc_failed b = do {
     ok \<leftarrow> emergency_abort_idle b;
     if \<not> ok then ret (ADC_FATAL_DIRTY, \<lparr>sample_x = 0, sample_y = 0\<rparr>)
     else do {
       ok \<leftarrow> normal_rest b True;
       ret (if ok then ADC_FATAL_CLEAN else ADC_FATAL_DIRTY, \<lparr>sample_x = 0, sample_y = 0\<rparr>) } }"

definition adc_collect :: "'w bus \<Rightarrow> ('w, adc_result \<times> touch_sample) sp" where
  "adc_collect b = do {
     rb \<leftarrow> readw b (ADC_PHYS + ADDRB_OFF);
     ra \<leftarrow> readw b (ADC_PHYS + ADDRA_OFF);
     rd \<leftarrow> readw b (ADC_PHYS + ADDRD_OFF);
     rc \<leftarrow> readw b (ADC_PHYS + ADDRC_OFF);
     v \<leftarrow> readw b (ADC_PHYS + ADCCSR_OFF);
     writew b (ADC_PHYS + ADCCSR_OFF) (v AND NOT 0xc000);
     let p = adc_point (drop_bit 6 rb) (drop_bit 6 ra) (drop_bit 6 rd) (drop_bit 6 rc);
     ok \<leftarrow> normal_rest b True;
     ret (if \<not> ok then ADC_FATAL_DIRTY
          else if adc_valid (drop_bit 6 rb) (drop_bit 6 ra) (drop_bit 6 rd) (drop_bit 6 rc)
          then ADC_SAMPLE_VALID else ADC_SAMPLE_INVALID, p) }"

definition read_adc :: "'w bus \<Rightarrow> ('w, adc_result \<times> touch_sample) sp" where
  "read_adc b = do {
     ok \<leftarrow> normal_rest b False;
     if \<not> ok then ret (ADC_FATAL_DIRTY, \<lparr>sample_x = 0, sample_y = 0\<rparr>)
     else do {
       rmw16 b (PFC_PHYS + PFC_A_OFF) 0xf000 0x5000;
       writew b (PFC_PHYS + PGCR_OFF) 0;
       rmw16 b (PFC_PHYS + MSELCRA_OFF) 0x0300 0;
       ok \<leftarrow> wait_clear b (ADC_PHYS + ADCSR_OFF) 0x2000;
       if \<not> ok then adc_failed b
       else do {
         writew b (ADC_PHYS + ADCUST_OFF) 0x8000;
         id \<leftarrow> readl b (CPG_PHYS + FRQCRA_OFF);
         let base = (if id AND 0x0f = 3 then 0x01cf else 0x02cf);
         writew b (ADC_PHYS + ADCCSR_OFF) base;
         writew b (ADC_PHYS + ADPCTL_OFF) 0x8000;
         writew b (ADC_PHYS + ADCCSR_OFF) (base OR 0x2000);
         ok \<leftarrow> wait_clear b (ADC_PHYS + ADCCSR_OFF) 0x2000;
         if \<not> ok then adc_failed b else adc_collect b } } }"

definition open_adc_clock :: "'w bus \<Rightarrow> ('w, bool) sp" where
  "open_adc_clock b = do {
     current \<leftarrow> readl b (CPG_PHYS + MSTPCR2_OFF);
     let gated = (current AND ADC_CLOCK_BIT \<noteq> 0);
     modify (\<lambda>s. s\<lparr>clock_was_gated := gated\<rparr>);
     onlyif gated (do {
       current \<leftarrow> readl b (CPG_PHYS + MSTPCR2_OFF);
       writel b (CPG_PHYS + MSTPCR2_OFF) (current AND NOT ADC_CLOCK_BIT) });
     current \<leftarrow> readl b (CPG_PHYS + MSTPCR2_OFF);
     ret (current AND ADC_CLOCK_BIT = 0) }"

definition restore_adc_clock :: "'w bus \<Rightarrow> ('w, bool) sp" where
  "restore_adc_clock b = do {
     was_gated \<leftarrow> gets clock_was_gated;
     current \<leftarrow> readl b (CPG_PHYS + MSTPCR2_OFF);
     onlyif was_gated (writel b (CPG_PHYS + MSTPCR2_OFF) (current OR ADC_CLOCK_BIT));
     current \<leftarrow> readl b (CPG_PHYS + MSTPCR2_OFF);
     ret ((current AND ADC_CLOCK_BIT \<noteq> 0) = was_gated) }"

text \<open>The comparisons stop at the first difference, as \<^verbatim>\<open>&&\<close> does.\<close>

definition check16 :: "'w bus \<Rightarrow> u32 \<Rightarrow> u16 \<Rightarrow> u16 \<Rightarrow> ('w, bool) sp" where
  "check16 b reg mk v = do { r \<leftarrow> readw b reg; ret (r AND mk = v AND mk) }"

definition check8 :: "'w bus \<Rightarrow> u32 \<Rightarrow> u8 \<Rightarrow> u8 \<Rightarrow> ('w, bool) sp" where
  "check8 b reg mk v = do { r \<leftarrow> readb b reg; ret (r AND mk = v AND mk) }"

definition restore_pfc :: "'w bus \<Rightarrow> ('w, bool) sp" where
  "restore_pfc b = do {
     sn \<leftarrow> gets snapshot;
     rmw16 b (PFC_PHYS + PFC_A_OFF) 0xf000 (pfc_a sn);
     rmw16 b (PFC_PHYS + MSELCRA_OFF) 0x0300 (mselcra sn);
     rmw16 b (PFC_PHYS + PSELE_OFF) 0x0c00 (psele sn);
     rmw16 b (PFC_PHYS + PLCR_OFF) 0x000c (plcr sn);
     rmw16 b (PFC_PHYS + PHCR_OFF) 0x0300 (phcr sn);
     writeb b (PFC_PHYS + PGDR_OFF) (pgdr sn);
     writew b (PFC_PHYS + PGCR_OFF) (pgcr sn);
     rmw8 b (PFC_PHYS + PHDR_OFF) 0x10 (phdr sn);
     both (check16 b (PFC_PHYS + PGCR_OFF) 0xffff (pgcr sn))
    (both (check8 b (PFC_PHYS + PGDR_OFF) 0xff (pgdr sn))
    (both (check16 b (PFC_PHYS + PHCR_OFF) 0x0300 (phcr sn))
    (both (check16 b (PFC_PHYS + PLCR_OFF) 0x000c (plcr sn))
    (both (check16 b (PFC_PHYS + PSELE_OFF) 0x0c00 (psele sn))
    (both (check16 b (PFC_PHYS + MSELCRA_OFF) 0x0300 (mselcra sn))
    (both (check16 b (PFC_PHYS + PFC_A_OFF) 0xf000 (pfc_a sn))
          (check8 b (PFC_PHYS + PHDR_OFF) 0x10 (phdr sn)))))))) }"

section \<open>X output\<close>

definition x_checked_button :: "'w host \<Rightarrow> bool \<Rightarrow> nat \<Rightarrow> ('w, bool) sp" where
  "x_checked_button h press button = do {
     r \<leftarrow> oscall h (Fake_button press button);
     if r \<noteq> 0 then ret False
     else do { e \<leftarrow> oscall h Xcb_has_error; ret (e = 0) } }"

fun release_buttons :: "'w host \<Rightarrow> nat list \<Rightarrow> ('w, bool) sp" where
  "release_buttons h [] = ret True"
| "release_buttons h (n # ns) = do { ok \<leftarrow> x_checked_button h False n; if ok then release_buttons h ns else ret False }"

text \<open>A connection is made even when it is in error: \<^verbatim>\<open>NULL\<close> is the answer 0.\<close>

definition open_x :: "'w host \<Rightarrow> ('w, bool) sp" where
  "open_x h = do {
     c \<leftarrow> oscall h Xcb_connect;
     modify (\<lambda>s. s\<lparr>connected := (c \<noteq> 0)\<rparr>);
     if c = 0 then ret False
     else do {
       e \<leftarrow> oscall h Xcb_has_error;
       if e \<noteq> 0 then ret False
       else do {
         present \<leftarrow> oscall h Xcb_xtest_present;
         if present = 0 then ret False
         else do {
           version \<leftarrow> oscall h Xcb_xtest_version;
           if version < 2 then ret False
           else do {
             ok \<leftarrow> release_buttons h [1, 2, 3];
             if \<not> ok then ret False
             else do { f \<leftarrow> oscall h Xcb_flush; ret (f > 0) } } } } } }"

definition close_x :: "'w host \<Rightarrow> ('w, unit) sp" where
  "close_x h = do {
     c \<leftarrow> gets connected;
     onlyif c (do { _ \<leftarrow> oscall h Xcb_disconnect; ret () });
     modify (\<lambda>s. s\<lparr>connected := False\<rparr>) }"

definition emit_motion :: "'w host \<Rightarrow> int \<Rightarrow> int \<Rightarrow> ('w, bool) sp" where
  "emit_motion h dx dy = do {
     r \<leftarrow> oscall h (Warp_pointer dx dy);
     if r \<noteq> 0 then ret False
     else do { e \<leftarrow> oscall h Xcb_has_error; ret (e = 0) } }"

definition emit_button :: "'w host \<Rightarrow> nat \<Rightarrow> bool \<Rightarrow> ('w, bool) sp" where
  "emit_button h button dn = x_checked_button h dn button"

definition direction_zone :: "touch_zone \<Rightarrow> bool" where
  "direction_zone z \<longleftrightarrow> z = TOUCH_LEFT \<or> z = TOUCH_UP \<or> z = TOUCH_RIGHT \<or> z = TOUCH_DOWN"

definition emit_zone :: "'w host \<Rightarrow> touch_zone \<Rightarrow> ('w, bool) sp" where
  "emit_zone h z =
     (case z of
        TOUCH_LEFT \<Rightarrow> emit_motion h (- MOVE_STEP) 0
      | TOUCH_UP \<Rightarrow> emit_motion h 0 (- MOVE_STEP)
      | TOUCH_RIGHT \<Rightarrow> emit_motion h MOVE_STEP 0
      | TOUCH_DOWN \<Rightarrow> emit_motion h 0 MOVE_STEP
      | TOUCH_BUTTON_LEFT \<Rightarrow> emit_button h 1 True
      | TOUCH_BUTTON_RIGHT \<Rightarrow> emit_button h 3 True
      | _ \<Rightarrow> ret True)"

definition release_zone :: "'w host \<Rightarrow> touch_zone \<Rightarrow> ('w, bool) sp" where
  "release_zone h z =
     (if z = TOUCH_BUTTON_LEFT then emit_button h 1 False
      else if z = TOUCH_BUTTON_RIGHT then emit_button h 3 False
      else ret True)"

definition sample_zone :: "touch_sample \<Rightarrow> touch_zone" where
  "sample_zone p =
     (if sample_y p < RAW_Y_SPLIT
      then (if sample_x p < RAW_X_FIRST then TOUCH_LEFT
            else if sample_x p < RAW_X_SECOND then TOUCH_UP else TOUCH_RIGHT)
      else (if sample_x p < RAW_X_FIRST then TOUCH_BUTTON_LEFT
            else if sample_x p < RAW_X_SECOND then TOUCH_DOWN else TOUCH_BUTTON_RIGHT))"

section \<open>The polling loop\<close>

text \<open>The rest of an iteration once the pad has been read; the result says whether the loop goes on.\<close>

definition set_gest :: "(gesture \<Rightarrow> gesture) \<Rightarrow> ('w, unit) sp" where
  "set_gest f = modify (\<lambda>s. s\<lparr>gest := f (gest s)\<rparr>)"

definition poll_missed :: "'w host \<Rightarrow> ('w, bool) sp" where
  "poll_missed h = do {
     set_gest (\<lambda>g. g\<lparr>g_candidate := TOUCH_NONE, g_count := 0\<rparr>);
     g \<leftarrow> gets gest;
     if g_active g \<noteq> TOUCH_NONE then do {
       set_gest (\<lambda>g. g\<lparr>g_release := g_release g + 1\<rparr>);
       if g_release g + 1 \<ge> RELEASE_POLLS then do {
         ok \<leftarrow> release_zone h (g_active g);
         if \<not> ok then ret False
         else do {
           set_gest (\<lambda>g. g\<lparr>g_active := TOUCH_NONE, g_release := 0, g_repeat := 0\<rparr>);
           ret True } }
       else ret True }
     else ret True }"

definition poll_held :: "'w host \<Rightarrow> touch_zone \<Rightarrow> ('w, bool) sp" where
  "poll_held h active =
     (if direction_zone active then do {
        set_gest (\<lambda>g. g\<lparr>g_repeat := g_repeat g + 1\<rparr>);
        g \<leftarrow> gets gest;
        if g_repeat g \<ge> MOVE_REPEAT_POLLS then do {
          set_gest (\<lambda>g. g\<lparr>g_repeat := 0\<rparr>);
          emit_zone h active }
        else ret True }
      else ret True)"

definition poll_candidate :: "'w host \<Rightarrow> touch_zone \<Rightarrow> touch_sample \<Rightarrow> ('w, bool) sp" where
  "poll_candidate h zone p = do {
     g \<leftarrow> gets gest;
     (if zone \<noteq> g_candidate g \<or>
        small_abs (diff16 (sample_x p) (sample_x (g_sample g))) > RAW_JITTER_LIMIT \<or>
        small_abs (diff16 (sample_y p) (sample_y (g_sample g))) > RAW_JITTER_LIMIT
      then set_gest (\<lambda>g. g\<lparr>g_candidate := zone, g_count := 1\<rparr>)
      else set_gest (\<lambda>g. g\<lparr>g_count := g_count g + 1\<rparr>));
     set_gest (\<lambda>g. g\<lparr>g_sample := p\<rparr>);
     g \<leftarrow> gets gest;
     if g_count g \<ge> DEBOUNCE_POLLS then do {
       set_gest (\<lambda>g. g\<lparr>g_active := zone, g_candidate := TOUCH_NONE, g_count := 0, g_repeat := 0\<rparr>);
       emit_zone h zone }
     else ret True }"

definition poll_evaluate :: "'w host \<Rightarrow> touch_sample option \<Rightarrow> ('w, bool) sp" where
  "poll_evaluate h r =
     (case r of None \<Rightarrow> poll_missed h
      | Some p \<Rightarrow> do {
          set_gest (\<lambda>g. g\<lparr>g_release := 0\<rparr>);
          g \<leftarrow> gets gest;
          if g_active g \<noteq> TOUCH_NONE then poll_held h (g_active g)
          else poll_candidate h (sample_zone p) p })"

definition loop_condition :: "'w host \<Rightarrow> ('w, bool) sp" where
  "loop_condition h = do {
     stop \<leftarrow> oscall h Stop_requested;
     if stop \<noteq> 0 then ret False
     else do { e \<leftarrow> oscall h Xcb_has_error; ret (e = 0) } }"

definition set_fatal :: "('w, unit) sp" where
  "set_fatal = modify (\<lambda>s. s\<lparr>fatal_error := True\<rparr>)"

definition loop_body :: "'w host \<Rightarrow> ('w, bool) sp" where
  "loop_body h = do {
     blocked \<leftarrow> block_stopping_signals h;
     if \<not> blocked then do { set_fatal; ret False }
     else do {
       modify (\<lambda>s. s\<lparr>stopping_blocked := True\<rparr>);
       pen_down \<leftarrow> read_pen (bus_of h);
       (r, current) \<leftarrow> (if pen_down then read_adc (bus_of h)
                       else ret (ADC_SAMPLE_INVALID, \<lparr>sample_x = 0, sample_y = 0\<rparr>));
       restored \<leftarrow> restore_signal_mask h;
       if \<not> restored then do { set_fatal; ret False }
       else do {
         modify (\<lambda>s. s\<lparr>stopping_blocked := False\<rparr>);
         if pen_down \<and> r = ADC_FATAL_CLEAN then do { set_fatal; ret False }
         else if pen_down \<and> r = ADC_FATAL_DIRTY
         then do { modify (\<lambda>s. s\<lparr>hardware_safe := False\<rparr>); set_fatal; ret False }
         else poll_evaluate h (if pen_down \<and> r = ADC_SAMPLE_VALID then Some current else None) } } }"

text \<open>The loop ends in the state reached when its condition fails or it is left; it may also go on
  for ever.\<close>

inductive polling :: "'w host \<Rightarrow> 'w subpad \<Rightarrow> 'w subpad \<Rightarrow> bool" for h where
  poll_stop: "run_state (loop_condition h) s = (False, s1) \<Longrightarrow> polling h s s1"
| poll_break: "run_state (loop_condition h) s = (True, s1) \<Longrightarrow> run_state (loop_body h) s1 = (False, s2) \<Longrightarrow> polling h s s2"
| poll_next: "run_state (loop_condition h) s = (True, s1) \<Longrightarrow> run_state (loop_body h) s1 = (True, s2) \<Longrightarrow>
    polling h s2 s3 \<Longrightarrow> polling h s s3"

section \<open>The program\<close>

text \<open>Where the setup ends: with a return, or at one of the labels of \<^verbatim>\<open>main\<close>, or at the loop.\<close>

datatype setup_exit = Return int | Finished | Close_mmio | Shutdown_hardware | Loop

definition main_protected :: "'w host \<Rightarrow> ('w, setup_exit) sp" where
  "main_protected h = do {
     absent \<leftarrow> experimental_driver_absent h;
     if \<not> absent then ret Close_mmio
     else do {
       capture_pfc (bus_of h);
       modify (\<lambda>s. s\<lparr>snapshot_valid := True\<rparr>);
       opened \<leftarrow> open_adc_clock (bus_of h);
       if \<not> opened then do { _ \<leftarrow> restore_adc_clock (bus_of h); ret Close_mmio }
       else do {
         modify (\<lambda>s. s\<lparr>clock_opened := True\<rparr>);
         idle \<leftarrow> normal_rest (bus_of h) True;
         if \<not> idle then ret Close_mmio
         else do {
           modify (\<lambda>s. s\<lparr>hardware_safe := True\<rparr>);
           restored \<leftarrow> restore_signal_mask h;
           if \<not> restored then do { set_fatal; ret Shutdown_hardware }
           else do { modify (\<lambda>s. s\<lparr>stopping_blocked := False\<rparr>); ret Loop } } } } }"

definition main_open :: "'w host \<Rightarrow> ('w, setup_exit) sp" where
  "main_open h = do {
     x \<leftarrow> open_x h;
     if \<not> x then ret Finished
     else do {
       l \<leftarrow> acquire_lock h;
       modify (\<lambda>s. s\<lparr>lock_fd := l\<rparr>);
       if l < 0 then ret Finished
       else do {
         m \<leftarrow> open_maps h;
         if \<not> m then ret Finished
         else do {
           blocked \<leftarrow> block_stopping_signals h;
           if \<not> blocked then ret Close_mmio
           else do { modify (\<lambda>s. s\<lparr>stopping_blocked := True\<rparr>); main_protected h } } } } }"

definition main_setup :: "'w host \<Rightarrow> string list \<Rightarrow> ('w, setup_exit) sp" where
  "main_setup h args =
     (if length args = 1 \<and> (args = [''--help''] \<or> args = [''-h'']) then ret (Return 0)
      else if args \<noteq> [] then ret (Return 2)
      else do {
        uid \<leftarrow> oscall h Geteuid;
        fit \<leftarrow> (if uid \<noteq> 0 then ret False else both (expected_hardware h) (experimental_driver_absent h));
        if \<not> fit then ret (Return 1)
        else do {
          ok \<leftarrow> configure_signals h;
          if \<not> ok then ret (Return 1) else main_open h } })"

definition after_loop :: "'w host \<Rightarrow> ('w, unit) sp" where
  "after_loop h = do { stop \<leftarrow> oscall h Stop_requested; onlyif (stop = 0) set_fatal }"

definition shutdown_mask :: "'w host \<Rightarrow> ('w, unit) sp" where
  "shutdown_mask h = do {
     b \<leftarrow> gets stopping_blocked;
     if b then ret ()
     else do {
       ok \<leftarrow> block_stopping_signals h;
       if ok then modify (\<lambda>s. s\<lparr>stopping_blocked := True\<rparr>)
       else modify (\<lambda>s. s\<lparr>hardware_safe := False\<rparr>) } }"

definition unblock :: "'w host \<Rightarrow> ('w, unit) sp" where
  "unblock h = do {
     b \<leftarrow> gets stopping_blocked;
     onlyif b (do { _ \<leftarrow> restore_signal_mask h; modify (\<lambda>s. s\<lparr>stopping_blocked := False\<rparr>) }) }"

definition shutdown_restore :: "'w host \<Rightarrow> ('w, unit) sp" where
  "shutdown_restore h = do {
     safe \<leftarrow> gets hardware_safe;
     onlyif safe (do {
       idle \<leftarrow> normal_rest (bus_of h) True;
       if \<not> idle then modify (\<lambda>s. s\<lparr>hardware_safe := False\<rparr>)
       else do {
         ok \<leftarrow> restore_pfc (bus_of h);
         modify (\<lambda>s. s\<lparr>pfc_restored := ok\<rparr>);
         if \<not> ok then modify (\<lambda>s. s\<lparr>hardware_safe := False\<rparr>)
         else do {
           ok \<leftarrow> restore_adc_clock (bus_of h);
           modify (\<lambda>s. s\<lparr>clock_restored := ok\<rparr>) } } }) }"

definition shutdown_hardware :: "'w host \<Rightarrow> ('w, unit) sp" where
  "shutdown_hardware h = do {
     g \<leftarrow> gets gest;
     onlyif (g_active g \<noteq> TOUCH_NONE) (do { _ \<leftarrow> release_zone h (g_active g); ret () });
     safe \<leftarrow> gets hardware_safe;
     onlyif safe (do { shutdown_mask h; shutdown_restore h; unblock h });
     s \<leftarrow> gets id;
     onlyif (hardware_safe s \<and> pfc_restored s \<and> clock_restored s \<and> \<not> fatal_error s)
       (modify (\<lambda>s. s\<lparr>exit_result := 0\<rparr>)) }"

definition close_mmio :: "'w host \<Rightarrow> ('w, unit) sp" where
  "close_mmio h = do { unblock h; close_maps h }"

definition finished :: "'w host \<Rightarrow> ('w, unit) sp" where
  "finished h = do {
     l \<leftarrow> gets lock_fd;
     onlyif (l \<ge> 0) (do { _ \<leftarrow> oscall h Close_lock; ret () });
     close_x h }"

definition subpad_start :: "'w \<Rightarrow> 'w subpad" where
  "subpad_start d =
     \<lparr>dev = d, trace = [], calls = [],
      gest = \<lparr>g_candidate = TOUCH_NONE, g_active = TOUCH_NONE, g_count = 0, g_release = 0, g_repeat = 0,
              g_sample = \<lparr>sample_x = 0, sample_y = 0\<rparr>\<rparr>,
      snapshot = \<lparr>pgcr = 0, phcr = 0, plcr = 0, psele = 0, mselcra = 0, pfc_a = 0, pgdr = 0, phdr = 0\<rparr>,
      maps = \<lparr>fd = -1, pfc = False, cpg = False, adc = False\<rparr>,
      clock_was_gated = False, hardware_safe = False, snapshot_valid = False, clock_opened = False,
      pfc_restored = False, clock_restored = False, fatal_error = False, stopping_blocked = False,
      connected = False, lock_fd = -1, exit_result = 1\<rparr>"

definition exit_close :: "'w host \<Rightarrow> ('w, unit) sp" where
  "exit_close h = do { close_mmio h; finished h }"

definition exit_shutdown :: "'w host \<Rightarrow> ('w, unit) sp" where
  "exit_shutdown h = do { shutdown_hardware h; exit_close h }"

definition exit_loop :: "'w host \<Rightarrow> ('w, unit) sp" where
  "exit_loop h = do { after_loop h; exit_shutdown h }"

text \<open>The whole program, from its start to the exit code it returns and the state it leaves.\<close>

inductive subpad_main :: "'w host \<Rightarrow> string list \<Rightarrow> 'w subpad \<Rightarrow> int \<Rightarrow> 'w subpad \<Rightarrow> bool" for h args s where
  main_return: "run_state (main_setup h args) s = (Return r, s1) \<Longrightarrow> subpad_main h args s r s1"
| main_finished: "run_state (main_setup h args) s = (Finished, s1) \<Longrightarrow> run_state (finished h) s1 = ((), s2) \<Longrightarrow>
    subpad_main h args s (exit_result s2) s2"
| main_close: "run_state (main_setup h args) s = (Close_mmio, s1) \<Longrightarrow>
    run_state (exit_close h) s1 = ((), s2) \<Longrightarrow> subpad_main h args s (exit_result s2) s2"
| main_shutdown: "run_state (main_setup h args) s = (Shutdown_hardware, s1) \<Longrightarrow>
    run_state (exit_shutdown h) s1 = ((), s2) \<Longrightarrow>
    subpad_main h args s (exit_result s2) s2"
| main_loop: "run_state (main_setup h args) s = (Loop, s1) \<Longrightarrow> polling h s1 s2 \<Longrightarrow>
    run_state (exit_loop h) s2 = ((), s3) \<Longrightarrow>
    subpad_main h args s (exit_result s3) s3"

end
