(* ===== verification/Subpad_Safety.thy ===== *)
theory Subpad_Safety
  imports Subpad
begin

text \<open>
  What the touch pad mouse does to the hardware, to the X server and to the system: it changes
  only the bits it owns, puts back what it found, releases what it pressed and acquired, and
  implements the gesture machine.
\<close>

lemma keeps_gets_bind_sp: "(\<And>s. I s \<Longrightarrow> keeps I (f (g s))) \<Longrightarrow> keeps I (gets g \<bind> f)"
  by (rule keepsI) (auto dest: keepsD)

lemmas sp_rules = keeps_gets keeps_ret keeps_if keeps_onlyif keeps_let keeps_case_prod keeps_bind

lemma triple_known: "(a = v \<Longrightarrow> triple P m Q) \<Longrightarrow> triple (\<lambda>s. a = v \<and> P s) m Q"
  by (auto simp: triple_def)

lemma keeps_both: "keeps I m \<Longrightarrow> keeps I n \<Longrightarrow> keeps I (both m n)"
  unfolding both_def by (rule sp_rules | assumption)+

section \<open>Registers that hold what is written\<close>

definition ports16 :: "u32 list" where
  "ports16 = map ((+) PFC_PHYS) [PGCR_OFF, PHCR_OFF, PLCR_OFF, PSELE_OFF, MSELCRA_OFF, PFC_A_OFF]"

definition ports8 :: "u32 list" where
  "ports8 = map ((+) PFC_PHYS) [PGDR_OFF, PHDR_OFF]"

definition gate :: u32 where
  "gate = CPG_PHYS + MSTPCR2_OFF"

text \<open>The port registers and the clock-gate word keep what is written to them, and nobody else
  changes them while the program runs; their contents are read off the world by \<open>cells\<close>.\<close>

record 'w cells =
  cell16 :: "u32 \<Rightarrow> 'w \<Rightarrow> u16"
  cell8 :: "u32 \<Rightarrow> 'w \<Rightarrow> u8"
  cell32 :: "'w \<Rightarrow> u32"

definition same_cells :: "'w cells \<Rightarrow> 'w \<Rightarrow> 'w \<Rightarrow> bool" where
  "same_cells c w w' \<longleftrightarrow> (\<forall>a\<in>set ports16. cell16 c a w' = cell16 c a w) \<and>
     (\<forall>a\<in>set ports8. cell8 c a w' = cell8 c a w) \<and> cell32 c w' = cell32 c w"

definition registers_hold :: "'w host \<Rightarrow> 'w cells \<Rightarrow> bool" where
  "registers_hold h c \<longleftrightarrow> (\<forall>w a v8 v16 v32 q.
     (a \<in> set ports16 \<longrightarrow> fst (bus_rd16 (bus_of h) a w) = cell16 c a w) \<and>
     (a \<in> set ports8 \<longrightarrow> fst (bus_rd8 (bus_of h) a w) = cell8 c a w) \<and>
     fst (bus_rd32 (bus_of h) gate w) = cell32 c w \<and>
     same_cells c w (snd (bus_rd16 (bus_of h) a w)) \<and> same_cells c w (snd (bus_rd8 (bus_of h) a w)) \<and>
     same_cells c w (snd (bus_rd32 (bus_of h) a w)) \<and> same_cells c w (snd (answer h q w)) \<and>
     (\<forall>r\<in>set ports16. cell16 c r (bus_wr16 (bus_of h) a v16 w) = (if r = a then v16 else cell16 c r w)) \<and>
     (\<forall>r\<in>set ports8. cell8 c r (bus_wr16 (bus_of h) a v16 w) = cell8 c r w) \<and>
     cell32 c (bus_wr16 (bus_of h) a v16 w) = cell32 c w \<and>
     (\<forall>r\<in>set ports8. cell8 c r (bus_wr8 (bus_of h) a v8 w) = (if r = a then v8 else cell8 c r w)) \<and>
     (\<forall>r\<in>set ports16. cell16 c r (bus_wr8 (bus_of h) a v8 w) = cell16 c r w) \<and>
     cell32 c (bus_wr8 (bus_of h) a v8 w) = cell32 c w \<and>
     cell32 c (bus_wr32 (bus_of h) a v32 w) = (if a = gate then v32 else cell32 c w) \<and>
     (\<forall>r\<in>set ports16. cell16 c r (bus_wr32 (bus_of h) a v32 w) = cell16 c r w) \<and>
     (\<forall>r\<in>set ports8. cell8 c r (bus_wr32 (bus_of h) a v32 w) = cell8 c r w))"

text \<open>Agreement with the contents in a world \<open>w0\<close> outside given masks.\<close>

record masks =
  m16 :: "u32 \<Rightarrow> u16"
  m8 :: "u32 \<Rightarrow> u8"

definition agree :: "'w cells \<Rightarrow> 'w \<Rightarrow> masks \<Rightarrow> u32 \<Rightarrow> 'w \<Rightarrow> bool" where
  "agree c w0 m g w \<longleftrightarrow>
     (\<forall>a\<in>set ports16. cell16 c a w AND NOT (m16 m a) = cell16 c a w0 AND NOT (m16 m a)) \<and>
     (\<forall>a\<in>set ports8. cell8 c a w AND NOT (m8 m a) = cell8 c a w0 AND NOT (m8 m a)) \<and> cell32 c w = g"

lemma agree_same: "same_cells c w w' \<Longrightarrow> agree c w0 m g w' = agree c w0 m g w"
  by (simp add: agree_def same_cells_def)

abbreviation agrees :: "'w cells \<Rightarrow> 'w \<Rightarrow> masks \<Rightarrow> u32 \<Rightarrow> ('w, 'z) machine_scheme \<Rightarrow> bool" where
  "agrees c w0 m g \<equiv> (\<lambda>s. agree c w0 m g (dev s))"

lemma hold_reads:
  assumes "registers_hold h c"
  shows "same_cells c w (snd (bus_rd16 (bus_of h) a w))" "same_cells c w (snd (bus_rd8 (bus_of h) a w))"
    "same_cells c w (snd (bus_rd32 (bus_of h) a w))" "same_cells c w (snd (answer h q w))"
  using assms unfolding registers_hold_def by blast+

lemma hold_values:
  assumes "registers_hold h c"
  shows "a \<in> set ports16 \<Longrightarrow> fst (bus_rd16 (bus_of h) a w) = cell16 c a w"
    "a \<in> set ports8 \<Longrightarrow> fst (bus_rd8 (bus_of h) a w) = cell8 c a w" "fst (bus_rd32 (bus_of h) gate w) = cell32 c w"
  using assms unfolding registers_hold_def by blast+

lemma agree_reads:
  assumes "registers_hold h c"
  shows "keeps (agrees c w0 m g) (readb (bus_of h) a)" "keeps (agrees c w0 m g) (readw (bus_of h) a)"
    "keeps (agrees c w0 m g) (readl (bus_of h) a)" "keeps (agrees c w0 m g) (oscall h q)"
  by (auto intro!: keepsI simp: readb_def readw_def readl_def oscall_def case_prod_beta hold_reads [OF assms, THEN agree_same])

lemma agree_quiet: "(\<And>s. dev (f s) = dev s) \<Longrightarrow> keeps (agrees c w0 m g) (modify f)"
  by (rule keeps_modify) simp

text \<open>A write to a word whose bits are all owned, or to one that is no port.\<close>

lemma masked_update:
  fixes x y v k m :: "'a::len word"
  shows "x AND NOT m = y AND NOT m \<Longrightarrow> k AND NOT m = 0 \<Longrightarrow> ((x AND NOT k) OR (v AND k)) AND NOT m = y AND NOT m"
    and "x AND NOT k = y AND NOT k \<Longrightarrow> (x AND NOT k) OR (y AND k) = y"
proof -
  assume a: "x AND NOT m = y AND NOT m" "k AND NOT m = 0"
  show "((x AND NOT k) OR (v AND k)) AND NOT m = y AND NOT m"
  proof (rule bit_word_eqI)
    fix n assume "n < LENGTH('a)"
    then show "bit (((x AND NOT k) OR (v AND k)) AND NOT m) n = bit (y AND NOT m) n"
      using arg_cong [OF a(1), where f = "\<lambda>w. bit w n"] arg_cong [OF a(2), where f = "\<lambda>w. bit w n"]
      by (auto simp: bit_simps)
  qed
next
  assume a: "x AND NOT k = y AND NOT k"
  show "(x AND NOT k) OR (y AND k) = y"
    unfolding a by (rule bit_word_eqI) (auto simp: bit_simps)
qed

lemma hold_write16:
  assumes "registers_hold h c" and "agree c w0 m g w" and "r \<in> set ports16 \<Longrightarrow> v AND NOT (m16 m r) = cell16 c r w0 AND NOT (m16 m r)"
  shows "agree c w0 m g (bus_wr16 (bus_of h) r v w)"
  using assms unfolding registers_hold_def agree_def by simp

lemma hold_write8:
  assumes "registers_hold h c" and "agree c w0 m g w" and "r \<in> set ports8 \<Longrightarrow> v AND NOT (m8 m r) = cell8 c r w0 AND NOT (m8 m r)"
  shows "agree c w0 m g (bus_wr8 (bus_of h) r v w)"
  using assms unfolding registers_hold_def agree_def by simp

lemma agree_writew: "registers_hold h c \<Longrightarrow> r \<notin> set ports16 \<or> m16 m r = -1 \<Longrightarrow> keeps (agrees c w0 m g) (writew (bus_of h) r v)"
  unfolding writew_def by (rule keeps_modify) (auto intro!: hold_write16)

lemma agree_writeb: "registers_hold h c \<Longrightarrow> r \<notin> set ports8 \<or> m8 m r = -1 \<Longrightarrow> keeps (agrees c w0 m g) (writeb (bus_of h) r v)"
  unfolding writeb_def by (rule keeps_modify) (auto intro!: hold_write8)

lemma rmw16_run:
  assumes "registers_hold h c" and "r \<in> set ports16" and "agree c w0 m g w"
  shows "\<exists>w1. agree c w0 m g w1 \<and> cell16 c r w1 = fst (bus_rd16 (bus_of h) r w) \<and> w1 = snd (bus_rd16 (bus_of h) r w)"
  using agree_same [OF hold_reads(1) [OF assms(1)]] hold_reads(1) [OF assms(1), of w r] assms(2,3) hold_values(1) [OF assms(1,2)]
  by (simp add: same_cells_def)

lemma rmw8_run:
  assumes "registers_hold h c" and "r \<in> set ports8" and "agree c w0 m g w"
  shows "\<exists>w1. agree c w0 m g w1 \<and> cell8 c r w1 = fst (bus_rd8 (bus_of h) r w) \<and> w1 = snd (bus_rd8 (bus_of h) r w)"
  using agree_same [OF hold_reads(2) [OF assms(1)]] hold_reads(2) [OF assms(1), of w r] assms(2,3) hold_values(2) [OF assms(1,2)]
  by (simp add: same_cells_def)

lemma rmw16_keeps:
  assumes "registers_hold h c" and "r \<in> set ports16" and "k AND NOT (m16 m r) = 0"
  shows "keeps (agrees c w0 m g) (rmw16 (bus_of h) r k v)"
proof (rule keepsI)
  fix s s' :: "'a subpad" and a
  assume A: "agree c w0 m g (dev s)" and run: "run_state (rmw16 (bus_of h) r k v) s = (a, s')"
  obtain w1 where w1: "agree c w0 m g w1" "cell16 c r w1 = fst (bus_rd16 (bus_of h) r (dev s))"
    "w1 = snd (bus_rd16 (bus_of h) r (dev s))" using rmw16_run [OF assms(1,2) A] by blast
  have "dev s' = bus_wr16 (bus_of h) r ((cell16 c r w1 AND NOT k) OR (v AND k)) w1"
    using run w1(2,3) by (auto simp: rmw16_def readw_def writew_def case_prod_beta)
  moreover have "cell16 c r w1 AND NOT (m16 m r) = cell16 c r w0 AND NOT (m16 m r)"
    using w1(1) assms(2) by (simp add: agree_def)
  ultimately show "agree c w0 m g (dev s')"
    using hold_write16 [OF assms(1) w1(1)] masked_update(1) assms(3) by metis
qed

lemma rmw8_keeps:
  assumes "registers_hold h c" and "r \<in> set ports8" and "k AND NOT (m8 m r) = 0"
  shows "keeps (agrees c w0 m g) (rmw8 (bus_of h) r k v)"
proof (rule keepsI)
  fix s s' :: "'a subpad" and a
  assume A: "agree c w0 m g (dev s)" and run: "run_state (rmw8 (bus_of h) r k v) s = (a, s')"
  obtain w1 where w1: "agree c w0 m g w1" "cell8 c r w1 = fst (bus_rd8 (bus_of h) r (dev s))"
    "w1 = snd (bus_rd8 (bus_of h) r (dev s))" using rmw8_run [OF assms(1,2) A] by blast
  have "dev s' = bus_wr8 (bus_of h) r ((cell8 c r w1 AND NOT k) OR (v AND k)) w1"
    using run w1(2,3) by (auto simp: rmw8_def readb_def writeb_def case_prod_beta)
  moreover have "cell8 c r w1 AND NOT (m8 m r) = cell8 c r w0 AND NOT (m8 m r)"
    using w1(1) assms(2) by (simp add: agree_def)
  ultimately show "agree c w0 m g (dev s')"
    using hold_write8 [OF assms(1) w1(1)] masked_update(1) assms(3) by metis
qed

text \<open>Putting back a port: its mask becomes empty.\<close>

definition done16 :: "u32 \<Rightarrow> masks \<Rightarrow> masks" where
  "done16 r m = m\<lparr>m16 := (m16 m)(r := 0)\<rparr>"

definition done8 :: "u32 \<Rightarrow> masks \<Rightarrow> masks" where
  "done8 r m = m\<lparr>m8 := (m8 m)(r := 0)\<rparr>"

lemma put16:
  assumes "registers_hold h c" and "r \<in> set ports16" and "agree c w0 m g w"
  shows "agree c w0 (done16 r m) g (bus_wr16 (bus_of h) r (cell16 c r w0) w)"
  using assms unfolding registers_hold_def agree_def done16_def by simp

lemma put8:
  assumes "registers_hold h c" and "r \<in> set ports8" and "agree c w0 m g w"
  shows "agree c w0 (done8 r m) g (bus_wr8 (bus_of h) r (cell8 c r w0) w)"
  using assms unfolding registers_hold_def agree_def done8_def by simp

lemma within:
  fixes x y k m :: "'a::len word"
  assumes "x AND NOT m = y AND NOT m" and "m AND NOT k = 0"
  shows "x AND NOT k = y AND NOT k"
proof (rule bit_word_eqI)
  fix n assume "n < LENGTH('a)"
  then show "bit (x AND NOT k) n = bit (y AND NOT k) n"
    using arg_cong [OF assms(1), where f = "\<lambda>w. bit w n"] arg_cong [OF assms(2), where f = "\<lambda>w. bit w n"]
    by (auto simp: bit_simps)
qed

lemma rmw16_restores:
  assumes "registers_hold h c" and "r \<in> set ports16" and "m16 m r AND NOT k = 0"
  shows "triple (agrees c w0 m g) (rmw16 (bus_of h) r k (cell16 c r w0)) (\<lambda>_. agrees c w0 (done16 r m) g)"
proof (rule tripleI)
  fix s s' :: "'a subpad" and a
  assume A: "agree c w0 m g (dev s)" and run: "run_state (rmw16 (bus_of h) r k (cell16 c r w0)) s = (a, s')"
  obtain w1 where w1: "agree c w0 m g w1" "cell16 c r w1 = fst (bus_rd16 (bus_of h) r (dev s))"
    "w1 = snd (bus_rd16 (bus_of h) r (dev s))" using rmw16_run [OF assms(1,2) A] by blast
  have "dev s' = bus_wr16 (bus_of h) r ((cell16 c r w1 AND NOT k) OR (cell16 c r w0 AND k)) w1"
    using run w1(2,3) by (auto simp: rmw16_def readw_def writew_def case_prod_beta)
  moreover have "cell16 c r w1 AND NOT k = cell16 c r w0 AND NOT k"
    using w1(1) assms(2,3) by (auto simp: agree_def intro: within)
  ultimately show "agree c w0 (done16 r m) g (dev s')"
    using put16 [OF assms(1,2) w1(1)] masked_update(2) by metis
qed

lemma rmw8_restores:
  assumes "registers_hold h c" and "r \<in> set ports8" and "m8 m r AND NOT k = 0"
  shows "triple (agrees c w0 m g) (rmw8 (bus_of h) r k (cell8 c r w0)) (\<lambda>_. agrees c w0 (done8 r m) g)"
proof (rule tripleI)
  fix s s' :: "'a subpad" and a
  assume A: "agree c w0 m g (dev s)" and run: "run_state (rmw8 (bus_of h) r k (cell8 c r w0)) s = (a, s')"
  obtain w1 where w1: "agree c w0 m g w1" "cell8 c r w1 = fst (bus_rd8 (bus_of h) r (dev s))"
    "w1 = snd (bus_rd8 (bus_of h) r (dev s))" using rmw8_run [OF assms(1,2) A] by blast
  have "dev s' = bus_wr8 (bus_of h) r ((cell8 c r w1 AND NOT k) OR (cell8 c r w0 AND k)) w1"
    using run w1(2,3) by (auto simp: rmw8_def readb_def writeb_def case_prod_beta)
  moreover have "cell8 c r w1 AND NOT k = cell8 c r w0 AND NOT k"
    using w1(1) assms(2,3) by (auto simp: agree_def intro: within)
  ultimately show "agree c w0 (done8 r m) g (dev s')"
    using put8 [OF assms(1,2) w1(1)] masked_update(2) by metis
qed

lemma write16_restores:
  "registers_hold h c \<Longrightarrow> r \<in> set ports16 \<Longrightarrow>
   triple (agrees c w0 m g) (writew (bus_of h) r (cell16 c r w0)) (\<lambda>_. agrees c w0 (done16 r m) g)"
  by (rule tripleI) (auto simp: writew_def put16)

lemma write8_restores:
  "registers_hold h c \<Longrightarrow> r \<in> set ports8 \<Longrightarrow>
   triple (agrees c w0 m g) (writeb (bus_of h) r (cell8 c r w0)) (\<lambda>_. agrees c w0 (done8 r m) g)"
  by (rule tripleI) (auto simp: writeb_def put8)

section \<open>Working on the registers\<close>

definition own :: masks where
  "own = \<lparr>m16 = (\<lambda>a. if a = PFC_PHYS + PHCR_OFF then 0x0300 else if a = PFC_PHYS + PLCR_OFF then 0x000c
       else if a = PFC_PHYS + PSELE_OFF then 0x0c00 else if a = PFC_PHYS + MSELCRA_OFF then 0x0300
       else if a = PFC_PHYS + PFC_A_OFF then 0xf000 else -1),
     m8 = (\<lambda>a. if a = PFC_PHYS + PHDR_OFF then 0x10 else -1)\<rparr>"

definition clean :: masks where
  "clean = \<lparr>m16 = (\<lambda>_. 0), m8 = (\<lambda>_. 0)\<rparr>"

lemmas port_defs = ports16_def ports8_def gate_def own_def PFC_PHYS_def CPG_PHYS_def ADC_PHYS_def
  PGCR_OFF_def PHCR_OFF_def PLCR_OFF_def PGDR_OFF_def PHDR_OFF_def PLDR_OFF_def PSELE_OFF_def MSELCRA_OFF_def
  PFC_A_OFF_def FRQCRA_OFF_def MSTPCR2_OFF_def ADDRA_OFF_def ADDRB_OFF_def ADDRC_OFF_def ADDRD_OFF_def
  ADCSR_OFF_def ADCCSR_OFF_def ADCUST_OFF_def ADPCTL_OFF_def

lemma own_writew: "registers_hold h c \<Longrightarrow> r \<in> {ADC_PHYS + ADCUST_OFF, ADC_PHYS + ADCSR_OFF, ADC_PHYS + ADCCSR_OFF,
    ADC_PHYS + ADPCTL_OFF, PFC_PHYS + PGCR_OFF} \<Longrightarrow> keeps (agrees c w0 own g) (writew (bus_of h) r v)"
  by (rule agree_writew) (auto simp: port_defs)

lemma own_writeb: "registers_hold h c \<Longrightarrow> keeps (agrees c w0 own g) (writeb (bus_of h) (PFC_PHYS + PGDR_OFF) v)"
  by (rule agree_writeb) (auto simp: port_defs)

lemma own_rmw16:
  assumes "registers_hold h c"
  shows "keeps (agrees c w0 own g) (rmw16 (bus_of h) (PFC_PHYS + PHCR_OFF) 0x0300 v)"
    "keeps (agrees c w0 own g) (rmw16 (bus_of h) (PFC_PHYS + PLCR_OFF) 0x000c v)"
    "keeps (agrees c w0 own g) (rmw16 (bus_of h) (PFC_PHYS + PSELE_OFF) 0x0c00 v)"
    "keeps (agrees c w0 own g) (rmw16 (bus_of h) (PFC_PHYS + MSELCRA_OFF) 0x0300 v)"
    "keeps (agrees c w0 own g) (rmw16 (bus_of h) (PFC_PHYS + PFC_A_OFF) 0xf000 v)"
    "keeps (agrees c w0 own g) (rmw8 (bus_of h) (PFC_PHYS + PHDR_OFF) 0x10 x)"
  by (rule rmw16_keeps rmw8_keeps, rule assms, simp_all add: port_defs)+

lemma agree_wait: "registers_hold h c \<Longrightarrow> keeps (agrees c w0 m g) (wait_clear (bus_of h) r k)"
proof -
  assume H: "registers_hold h c"
  have "keeps (agrees c w0 m g) (wait_loop (bus_of h) r k n)" for n
    by (induction n) (simp_all, (rule agree_reads [OF H] sp_rules | assumption)+)
  then show ?thesis by (simp add: wait_clear_def)
qed

lemma own_base: "registers_hold h c \<Longrightarrow> keeps (agrees c w0 own g) (base_pfc (bus_of h))"
  unfolding base_pfc_def by (rule own_writeb own_rmw16 sp_rules | assumption)+

lemma own_rest: "registers_hold h c \<Longrightarrow> keeps (agrees c w0 own g) (normal_rest (bus_of h) hi)"
  unfolding normal_rest_def
  by (rule agree_wait own_base own_writeb own_writew own_rmw16 agree_reads sp_rules | assumption | simp)+

lemma own_pen: "registers_hold h c \<Longrightarrow> keeps (agrees c w0 own g) (read_pen (bus_of h))"
proof -
  assume H: "registers_hold h c"
  have "keeps (agrees c w0 own g) (pen_loop (bus_of h) n t)" for n t
    by (induction n arbitrary: t) (simp_all, (rule agree_reads [OF H] sp_rules | assumption)+)
  with H show ?thesis unfolding read_pen_def by (intro keeps_bind own_rmw16 own_base keeps_ret)
qed

lemma own_failed: "registers_hold h c \<Longrightarrow> keeps (agrees c w0 own g) (adc_failed (bus_of h))"
  unfolding adc_failed_def emergency_abort_idle_def
  by (rule own_rest agree_wait own_writew agree_reads sp_rules | assumption | simp)+

lemma own_adc: "registers_hold h c \<Longrightarrow> keeps (agrees c w0 own g) (read_adc (bus_of h))"
  unfolding read_adc_def adc_collect_def Let_def
  by (rule own_rest own_failed agree_wait own_writew own_rmw16 agree_reads sp_rules | assumption | simp)+

lemma agree_button: "registers_hold h c \<Longrightarrow> keeps (agrees c w0 m g) (x_checked_button h p n)"
  unfolding x_checked_button_def by (rule agree_reads sp_rules | assumption)+

lemma agree_emit: "registers_hold h c \<Longrightarrow> keeps (agrees c w0 m g) (emit_zone h z)"
  unfolding emit_zone_def emit_button_def emit_motion_def
  by (cases z; simp; (rule agree_button agree_reads sp_rules | assumption)+)

lemma agree_release: "registers_hold h c \<Longrightarrow> keeps (agrees c w0 m g) (release_zone h z)"
  unfolding release_zone_def emit_button_def by (rule agree_button sp_rules | assumption)+

lemma agree_gest: "keeps (agrees c w0 m g) (set_gest f)"
  unfolding set_gest_def by (rule agree_quiet) simp

lemma agree_evaluate: "registers_hold h c \<Longrightarrow> keeps (agrees c w0 m g) (poll_evaluate h r)"
  unfolding poll_evaluate_def poll_missed_def poll_held_def poll_candidate_def
  by (cases r; simp; (rule agree_emit agree_release agree_gest sp_rules | assumption)+)

lemma own_body: "registers_hold h c \<Longrightarrow> keeps (agrees c w0 own g) (loop_body h)"
  unfolding loop_body_def block_stopping_signals_def restore_signal_mask_def set_fatal_def
  by (rule own_pen own_adc agree_evaluate agree_reads agree_quiet sp_rules | assumption | simp)+

lemma agree_condition: "registers_hold h c \<Longrightarrow> keeps (agrees c w0 m g) (loop_condition h)"
  unfolding loop_condition_def by (rule agree_reads sp_rules | assumption)+

lemma polling_keeps:
  assumes "keeps I (loop_condition h)" and "keeps I (loop_body h)"
  shows "polling h s s' \<Longrightarrow> I s \<Longrightarrow> I s'"
  by (induction rule: polling.induct) (blast dest: keepsD [OF assms(1)] keepsD [OF assms(2)])+

text \<open>What was saved at the start stays.\<close>

definition saved :: "'w subpad \<Rightarrow> pfc_snapshot \<times> bool \<times> bool \<times> int" where
  "saved s = (snapshot s, clock_was_gated s, snapshot_valid s, exit_result s)"

lemma saved_modify: "(\<And>s. saved (f s) = saved s) \<Longrightarrow> keeps (\<lambda>s. saved s = v) (modify f)"
  by (rule keeps_modify) simp

lemma saved_rest:
  "keeps (\<lambda>s. saved s = v) (readb b a)" "keeps (\<lambda>s. saved s = v) (readw b a)" "keeps (\<lambda>s. saved s = v) (readl b a)"
  "keeps (\<lambda>s. saved s = v) (writeb b a x)" "keeps (\<lambda>s. saved s = v) (writew b a y)" "keeps (\<lambda>s. saved s = v) (writel b a z)"
  by (rule keeps_rest; simp add: saved_def)+

lemma saved_oscall: "keeps (\<lambda>s. saved s = v) (oscall h q)"
  by (rule keepsI) (auto simp: oscall_def saved_def case_prod_beta)

lemmas saved_free = saved_rest saved_oscall saved_modify keeps_both sp_rules

lemma saved_wait: "keeps (\<lambda>s. saved s = v) (wait_clear b r k)"
proof -
  have "keeps (\<lambda>s. saved s = v) (wait_loop b r k n)" for n
    by (induction n) (simp_all, (rule saved_free | assumption)+)
  then show ?thesis by (simp add: wait_clear_def)
qed

lemma saved_pen_loop: "keeps (\<lambda>s. saved s = v) (pen_loop b n t)"
  by (induction n arbitrary: t) (simp_all, (rule saved_free | assumption)+)

lemma saved_rest_high: "keeps (\<lambda>s. saved s = v) (normal_rest b hi)"
  unfolding normal_rest_def base_pfc_def rmw16_def rmw8_def by (rule saved_wait saved_free)+

lemma saved_adc: "keeps (\<lambda>s. saved s = v) (read_adc b)"
  unfolding read_adc_def adc_collect_def adc_failed_def emergency_abort_idle_def rmw16_def Let_def
  by (rule saved_rest_high saved_wait saved_free)+

lemma saved_button: "keeps (\<lambda>s. saved s = v) (x_checked_button h p n)"
  unfolding x_checked_button_def by (rule saved_free)+

lemma saved_release: "keeps (\<lambda>s. saved s = v) (release_zone h z)"
  unfolding release_zone_def emit_button_def by (rule saved_button saved_free)+

lemma saved_emit: "keeps (\<lambda>s. saved s = v) (emit_zone h z)"
  unfolding emit_zone_def emit_button_def emit_motion_def
  by (cases z; simp; (rule saved_button saved_free)+)

lemma saved_evaluate: "keeps (\<lambda>s. saved s = v) (poll_evaluate h r)"
  unfolding poll_evaluate_def poll_missed_def poll_held_def poll_candidate_def set_gest_def
  by (cases r; simp; (rule saved_emit saved_release saved_free | simp add: saved_def)+)

lemma saved_body: "keeps (\<lambda>s. saved s = v) (loop_body h)"
  unfolding loop_body_def block_stopping_signals_def restore_signal_mask_def set_fatal_def read_pen_def base_pfc_def rmw16_def
  by (rule saved_pen_loop saved_adc saved_evaluate saved_free | simp add: saved_def)+

lemma saved_condition: "keeps (\<lambda>s. saved s = v) (loop_condition h)"
  unfolding loop_condition_def by (rule saved_free)+

section \<open>Putting the hardware back\<close>

definition snapshot_of :: "'w cells \<Rightarrow> 'w \<Rightarrow> pfc_snapshot" where
  "snapshot_of c w = \<lparr>pgcr = cell16 c (PFC_PHYS + PGCR_OFF) w, phcr = cell16 c (PFC_PHYS + PHCR_OFF) w,
     plcr = cell16 c (PFC_PHYS + PLCR_OFF) w, psele = cell16 c (PFC_PHYS + PSELE_OFF) w,
     mselcra = cell16 c (PFC_PHYS + MSELCRA_OFF) w, pfc_a = cell16 c (PFC_PHYS + PFC_A_OFF) w,
     pgdr = cell8 c (PFC_PHYS + PGDR_OFF) w, phdr = cell8 c (PFC_PHYS + PHDR_OFF) w\<rparr>"

lemma ports_in:
  "PFC_PHYS + PGCR_OFF \<in> set ports16" "PFC_PHYS + PHCR_OFF \<in> set ports16" "PFC_PHYS + PLCR_OFF \<in> set ports16"
  "PFC_PHYS + PSELE_OFF \<in> set ports16" "PFC_PHYS + MSELCRA_OFF \<in> set ports16" "PFC_PHYS + PFC_A_OFF \<in> set ports16"
  "PFC_PHYS + PGDR_OFF \<in> set ports8" "PFC_PHYS + PHDR_OFF \<in> set ports8"
  by (simp_all add: ports16_def ports8_def)

lemma agree_clean: "agree c w0 clean (cell32 c w0) w \<longleftrightarrow> same_cells c w0 w"
  by (simp add: agree_def clean_def same_cells_def)

definition restored :: masks where
  "restored = done8 (PFC_PHYS + PHDR_OFF) (done16 (PFC_PHYS + PGCR_OFF) (done8 (PFC_PHYS + PGDR_OFF)
     (done16 (PFC_PHYS + PHCR_OFF) (done16 (PFC_PHYS + PLCR_OFF) (done16 (PFC_PHYS + PSELE_OFF)
     (done16 (PFC_PHYS + MSELCRA_OFF) (done16 (PFC_PHYS + PFC_A_OFF) own)))))))"

lemma restored_clean: "agree c w0 restored g w = agree c w0 clean g w"
proof -
  have "m16 restored a = 0" if "a \<in> set ports16" for a
    using that by (auto simp: restored_def done16_def done8_def port_defs)
  moreover have "m8 restored a = 0" if "a \<in> set ports8" for a
    using that by (auto simp: restored_def done16_def done8_def port_defs)
  ultimately show ?thesis by (simp add: agree_def clean_def)
qed

lemma agree_cells: "agree c w0 clean g w \<Longrightarrow> a \<in> set ports16 \<Longrightarrow> cell16 c a w = cell16 c a w0"
  "agree c w0 clean g w \<Longrightarrow> a' \<in> set ports8 \<Longrightarrow> cell8 c a' w = cell8 c a' w0"
  by (simp_all add: agree_def clean_def)

lemma check_passes:
  assumes "registers_hold h c"
  shows "a \<in> set ports16 \<Longrightarrow> triple (agrees c w0 clean g) (check16 (bus_of h) a k (cell16 c a w0)) (\<lambda>ok s. ok \<and> agree c w0 clean g (dev s))"
    "a' \<in> set ports8 \<Longrightarrow> triple (agrees c w0 clean g) (check8 (bus_of h) a' k' (cell8 c a' w0)) (\<lambda>ok s. ok \<and> agree c w0 clean g (dev s))"
  by (auto intro!: tripleI simp: check16_def check8_def readw_def readb_def case_prod_beta hold_values [OF assms]
      hold_reads [OF assms, THEN agree_same] agree_cells(1) [of c w0 g] agree_cells(2) [of c w0 g])

lemma both_passes:
  assumes "triple I m (\<lambda>ok s. ok \<and> I s)" and "triple I n (\<lambda>ok s. ok \<and> I s)"
  shows "triple I (both m n) (\<lambda>ok s. ok \<and> I s)"
  unfolding both_def
proof (rule triple_bind [OF assms(1)])
  fix a
  show "triple (\<lambda>s. a \<and> I s) (if a then n else ret False) (\<lambda>ok s. ok \<and> I s)"
    using assms(2) by (cases a) (simp_all add: triple_def)
qed

lemma restore_pfc_works:
  assumes "registers_hold h c"
  shows "triple (\<lambda>s. agree c w0 own g (dev s) \<and> snapshot s = snapshot_of c w0) (restore_pfc (bus_of h))
    (\<lambda>ok s. ok \<and> agree c w0 clean g (dev s))"
proof -
  let ?b = "bus_of h" and ?sn = "snapshot_of c w0"
  have sn: "triple (\<lambda>s. agree c w0 own g (dev s) \<and> snapshot s = ?sn) (gets snapshot)
      (\<lambda>v s. v = ?sn \<and> agree c w0 own g (dev s))"
    by (simp add: triple_def)
  let ?rest = "\<lambda>sn. do {
     rmw16 ?b (PFC_PHYS + PFC_A_OFF) 0xf000 (pfc_a sn);
     rmw16 ?b (PFC_PHYS + MSELCRA_OFF) 0x0300 (mselcra sn);
     rmw16 ?b (PFC_PHYS + PSELE_OFF) 0x0c00 (psele sn);
     rmw16 ?b (PFC_PHYS + PLCR_OFF) 0x000c (plcr sn);
     rmw16 ?b (PFC_PHYS + PHCR_OFF) 0x0300 (phcr sn);
     writeb ?b (PFC_PHYS + PGDR_OFF) (pgdr sn);
     writew ?b (PFC_PHYS + PGCR_OFF) (pgcr sn);
     rmw8 ?b (PFC_PHYS + PHDR_OFF) 0x10 (phdr sn) }"
  have puts: "triple (agrees c w0 own g) (?rest ?sn) (\<lambda>_. agrees c w0 restored g)"
    unfolding restored_def snapshot_of_def pfc_snapshot.select_convs
    by (rule triple_bind rmw16_restores rmw8_restores write16_restores write8_restores assms ports_in
        | simp add: done16_def done8_def port_defs)+
  have checks: "triple (agrees c w0 clean g)
    (both (check16 ?b (PFC_PHYS + PGCR_OFF) 0xffff (pgcr ?sn))
    (both (check8 ?b (PFC_PHYS + PGDR_OFF) 0xff (pgdr ?sn))
    (both (check16 ?b (PFC_PHYS + PHCR_OFF) 0x0300 (phcr ?sn))
    (both (check16 ?b (PFC_PHYS + PLCR_OFF) 0x000c (plcr ?sn))
    (both (check16 ?b (PFC_PHYS + PSELE_OFF) 0x0c00 (psele ?sn))
    (both (check16 ?b (PFC_PHYS + MSELCRA_OFF) 0x0300 (mselcra ?sn))
    (both (check16 ?b (PFC_PHYS + PFC_A_OFF) 0xf000 (pfc_a ?sn))
          (check8 ?b (PFC_PHYS + PHDR_OFF) 0x10 (phdr ?sn)))))))))
    (\<lambda>ok s. ok \<and> agree c w0 clean g (dev s))"
    unfolding snapshot_of_def pfc_snapshot.select_convs
    by (intro both_passes check_passes assms ports_in)
  have "restore_pfc ?b = gets snapshot \<bind> (\<lambda>sn. ?rest sn \<bind> (\<lambda>_.
    both (check16 ?b (PFC_PHYS + PGCR_OFF) 0xffff (pgcr sn))
    (both (check8 ?b (PFC_PHYS + PGDR_OFF) 0xff (pgdr sn))
    (both (check16 ?b (PFC_PHYS + PHCR_OFF) 0x0300 (phcr sn))
    (both (check16 ?b (PFC_PHYS + PLCR_OFF) 0x000c (plcr sn))
    (both (check16 ?b (PFC_PHYS + PSELE_OFF) 0x0c00 (psele sn))
    (both (check16 ?b (PFC_PHYS + MSELCRA_OFF) 0x0300 (mselcra sn))
    (both (check16 ?b (PFC_PHYS + PFC_A_OFF) 0xf000 (pfc_a sn))
          (check8 ?b (PFC_PHYS + PHDR_OFF) 0x10 (phdr sn))))))))))"
    by (simp add: restore_pfc_def)
  then show ?thesis
    by (simp only:) (rule triple_bind [OF sn], rule triple_known, simp only:, rule triple_bind [OF puts],
      simp only: restored_clean, rule checks)
qed

section \<open>The whole run\<close>

definition untouched :: "'w cells \<Rightarrow> 'w \<Rightarrow> 'w subpad \<Rightarrow> bool" where
  "untouched c w0 s \<longleftrightarrow> same_cells c w0 (dev s) \<and> \<not> hardware_safe s \<and> \<not> snapshot_valid s \<and> exit_result s = 1"

definition working :: "'w cells \<Rightarrow> 'w \<Rightarrow> 'w subpad \<Rightarrow> bool" where
  "working c w0 s \<longleftrightarrow> agree c w0 own (cell32 c w0 AND NOT ADC_CLOCK_BIT) (dev s) \<and>
     saved s = (snapshot_of c w0, cell32 c w0 AND ADC_CLOCK_BIT \<noteq> 0, True, 1)"

definition put_back :: "'w cells \<Rightarrow> 'w \<Rightarrow> 'w subpad \<Rightarrow> bool" where
  "put_back c w0 s \<longleftrightarrow> (exit_result s = 0 \<or> \<not> snapshot_valid s \<or> hardware_safe s \<longrightarrow> same_cells c w0 (dev s))"

text \<open>Calls to the system and changes of the program's own variables.\<close>

lemma same_cells_oscall:
  assumes "registers_hold h c"
  shows "keeps (untouched c w0) (oscall h q)" "keeps (put_back c w0) (oscall h q)"
proof -
  have S: "same_cells c w0 (snd (answer h q w)) = same_cells c w0 w" for w
    using hold_reads(4) [OF assms, of w q] by (auto simp: same_cells_def)
  show "keeps (untouched c w0) (oscall h q)" "keeps (put_back c w0) (oscall h q)"
    by (auto intro!: keepsI simp: oscall_def untouched_def put_back_def case_prod_beta S)
qed

lemma outside_modify:
  assumes "\<And>s. dev (f s) = dev s \<and> hardware_safe (f s) = hardware_safe s \<and> snapshot_valid (f s) = snapshot_valid s \<and> exit_result (f s) = exit_result s"
  shows "keeps (untouched c w0) (modify f)" "keeps (put_back c w0) (modify f)"
  using assms by (auto intro!: keeps_modify simp: untouched_def put_back_def)

lemmas outside = same_cells_oscall outside_modify keeps_both sp_rules

lemma all_ok_keeps: "(\<And>q. keeps I (oscall h q)) \<Longrightarrow> keeps I (all_ok h qs)"
  by (induction qs) (simp_all, (rule sp_rules | assumption)+)

lemma release_buttons_keeps: "(\<And>q. keeps I (oscall h q)) \<Longrightarrow> keeps I (release_buttons h ns)"
  by (induction ns) (simp_all add: x_checked_button_def, (rule sp_rules | assumption)+)

lemma untouched_opening:
  assumes "registers_hold h c"
  shows "keeps (untouched c w0) (configure_signals h)" "keeps (untouched c w0) (open_x h)"
    "keeps (untouched c w0) (acquire_lock h)" "keeps (untouched c w0) (open_maps h)"
    "keeps (untouched c w0) (expected_hardware h)" "keeps (untouched c w0) (experimental_driver_absent h)"
    "keeps (untouched c w0) (block_stopping_signals h)"
  unfolding configure_signals_def open_x_def acquire_lock_def open_maps_def map_page_def close_maps_def
    expected_hardware_def experimental_driver_absent_def block_stopping_signals_def
  by (rule all_ok_keeps release_buttons_keeps outside assms | simp)+

lemma put_back_closing:
  assumes "registers_hold h c"
  shows "keeps (put_back c w0) (exit_close h)" "keeps (put_back c w0) (unblock h)"
  unfolding exit_close_def close_mmio_def unblock_def close_maps_def finished_def close_x_def restore_signal_mask_def
  by (rule outside assms | simp)+

text \<open>Saving the ports, opening the clock and resting the converter.\<close>

lemma triple_keeps: "keeps P m \<Longrightarrow> (\<And>a. triple P (f a) Q) \<Longrightarrow> triple P (m \<bind> f) Q"
  unfolding keeps_def by (rule triple_bind)

lemma triple_if: "(b \<Longrightarrow> triple P m Q) \<Longrightarrow> (\<not> b \<Longrightarrow> triple P n Q) \<Longrightarrow> triple P (if b then m else n) Q"
  by simp

lemma triple_ret: "(\<And>s. P s \<Longrightarrow> Q a s) \<Longrightarrow> triple P (ret a) Q"
  by (simp add: triple_def)

lemma triple_conj: "triple P m Q \<Longrightarrow> keeps J m \<Longrightarrow> triple (\<lambda>s. P s \<and> J s) m (\<lambda>a s. Q a s \<and> J s)"
  by (auto simp: triple_def keeps_def split: prod.splits)

lemma triple_modify: "(\<And>s. P s \<Longrightarrow> Q () (f s)) \<Longrightarrow> triple P (modify f) Q"
  by (simp add: triple_def)

lemma read_known:
  assumes "registers_hold h c"
  shows "a \<in> set ports16 \<Longrightarrow> triple (untouched c w0) (readw (bus_of h) a) (\<lambda>v s. v = cell16 c a w0 \<and> untouched c w0 s)"
    "a' \<in> set ports8 \<Longrightarrow> triple (untouched c w0) (readb (bus_of h) a') (\<lambda>v s. v = cell8 c a' w0 \<and> untouched c w0 s)"
proof -
  have S: "same_cells c w0 (snd (bus_rd16 (bus_of h) a w)) = same_cells c w0 w"
    "same_cells c w0 (snd (bus_rd8 (bus_of h) a' w)) = same_cells c w0 w" for w
    using hold_reads(1,2) [OF assms, of w] by (auto simp: same_cells_def)
  show "a \<in> set ports16 \<Longrightarrow> triple (untouched c w0) (readw (bus_of h) a) (\<lambda>v s. v = cell16 c a w0 \<and> untouched c w0 s)"
    "a' \<in> set ports8 \<Longrightarrow> triple (untouched c w0) (readb (bus_of h) a') (\<lambda>v s. v = cell8 c a' w0 \<and> untouched c w0 s)"
    by (auto intro!: tripleI simp: readw_def readb_def case_prod_beta hold_values [OF assms] untouched_def S)
      (auto simp: same_cells_def)
qed

lemma capture_saves:
  assumes "registers_hold h c"
  shows "triple (untouched c w0) (capture_pfc (bus_of h)) (\<lambda>_ s. untouched c w0 s \<and> snapshot s = snapshot_of c w0)"
  unfolding capture_pfc_def
  by (rule read_known [OF assms] triple_bind triple_known ports_in triple_modify
      | simp add: untouched_def snapshot_of_def)+

lemma gate_lemmas:
  fixes x b :: u32
  shows "x AND b = 0 \<Longrightarrow> x AND NOT b = x" "(x AND NOT b) AND b = 0"
    "x AND ADC_CLOCK_BIT \<noteq> 0 \<Longrightarrow> (x AND NOT ADC_CLOCK_BIT) OR ADC_CLOCK_BIT = x"
proof -
  show "x AND NOT b = x" if z: "x AND b = 0"
  proof (rule bit_word_eqI)
    fix n assume "n < LENGTH(32)"
    then show "bit (x AND NOT b) n = bit x n"
      using arg_cong [OF z, of "\<lambda>w. bit w n"] by (auto simp: bit_simps)
  qed
  show "(x AND NOT b) AND b = 0" by (rule bit_word_eqI) (simp add: bit_simps)
  have p: "ADC_CLOCK_BIT = push_bit 27 1" by (simp add: ADC_CLOCK_BIT_def push_bit_eq_mult)
  have B: "bit ADC_CLOCK_BIT n \<longleftrightarrow> n = 27" for n
    unfolding p bit_push_bit_iff by (auto simp: bit_1_iff)
  assume "x AND ADC_CLOCK_BIT \<noteq> 0"
  then obtain n where "bit (x AND ADC_CLOCK_BIT) n" by (auto simp: bit_eq_iff)
  then have "bit x 27" by (auto simp: B bit_simps)
  then show "(x AND NOT ADC_CLOCK_BIT) OR ADC_CLOCK_BIT = x"
    by (intro bit_word_eqI) (auto simp: B bit_simps)
qed

lemma agree_widen: "agree c w0 clean g w \<Longrightarrow> agree c w0 m g w"
  by (simp add: agree_def clean_def)

lemma gate_read:
  assumes "registers_hold h c" and "agree c w0 m g w"
  shows "fst (bus_rd32 (bus_of h) gate w) = g \<and> agree c w0 m g (snd (bus_rd32 (bus_of h) gate w))"
  using assms(2) hold_values(3) [OF assms(1)] agree_same [OF hold_reads(3) [OF assms(1)]] by (simp add: agree_def)

lemma write_gate:
  assumes "registers_hold h c"
  shows "agree c w0 m g w \<Longrightarrow> agree c w0 m v (bus_wr32 (bus_of h) gate v w)"
  using assms unfolding registers_hold_def agree_def by simp

lemma open_clock_works:
  assumes H: "registers_hold h c"
  shows "triple (\<lambda>s. same_cells c w0 (dev s) \<and> snapshot s = snapshot_of c w0 \<and> snapshot_valid s \<and> exit_result s = 1)
     (open_adc_clock (bus_of h)) (\<lambda>ok s. ok \<and> working c w0 s)"
proof (rule tripleI)
  fix s s' :: "'a subpad" and ok
  assume P: "same_cells c w0 (dev s) \<and> snapshot s = snapshot_of c w0 \<and> snapshot_valid s \<and> exit_result s = 1"
    and run: "run_state (open_adc_clock (bus_of h)) s = (ok, s')"
  let ?x = "cell32 c w0" and ?b = "bus_of h"
  let ?w1 = "snd (bus_rd32 ?b gate (dev s))"
  note read = gate_read [OF H, where m = clean]
  have r0: "agree c w0 clean ?x (dev s)" using P by (simp add: agree_clean)
  note r1 = read [OF r0]
  note r2 = read [OF conjunct2 [OF r1]]
  note r3 = read [OF write_gate [OF H conjunct2 [OF r2]], of "?x AND NOT ADC_CLOCK_BIT"]
  show "ok \<and> working c w0 s'"
  proof (cases "?x AND ADC_CLOCK_BIT = 0")
    case True
    then show ?thesis
      using run P r1 r2 by (auto simp: open_adc_clock_def readl_def writel_def case_prod_beta gate_def [symmetric]
          working_def saved_def gate_lemmas(1) agree_widen)
  next
    case False
    then show ?thesis
      using run P r1 r2 r3 by (auto simp: open_adc_clock_def readl_def writel_def case_prod_beta gate_def [symmetric]
          working_def saved_def gate_lemmas(2) agree_widen)
  qed
qed

lemma restore_clock_works:
  assumes H: "registers_hold h c"
  shows "triple (\<lambda>s. agree c w0 clean (cell32 c w0 AND NOT ADC_CLOCK_BIT) (dev s) \<and> clock_was_gated s = (cell32 c w0 AND ADC_CLOCK_BIT \<noteq> 0))
     (restore_adc_clock (bus_of h)) (\<lambda>ok s. ok \<and> same_cells c w0 (dev s))"
proof (rule tripleI)
  fix s s' :: "'a subpad" and ok
  let ?x = "cell32 c w0" and ?b = "bus_of h"
  assume P: "agree c w0 clean (?x AND NOT ADC_CLOCK_BIT) (dev s) \<and> clock_was_gated s = (?x AND ADC_CLOCK_BIT \<noteq> 0)"
    and run: "run_state (restore_adc_clock ?b) s = (ok, s')"
  note read = gate_read [OF H, where m = clean]
  note r1 = read [OF conjunct1 [OF P]]
  note r2 = read [OF conjunct2 [OF r1]]
  note r3 = read [OF write_gate [OF H conjunct2 [OF r1]], of ?x]
  show "ok \<and> same_cells c w0 (dev s')"
  proof (cases "?x AND ADC_CLOCK_BIT = 0")
    case True
    then show ?thesis
      using run P r1 r2 by (auto simp: restore_adc_clock_def readl_def writel_def case_prod_beta gate_def [symmetric]
          gate_lemmas(1) agree_clean [symmetric])
  next
    case False
    then show ?thesis
      using run P r1 r3 by (auto simp: restore_adc_clock_def readl_def writel_def case_prod_beta gate_def [symmetric]
          gate_lemmas(2,3) agree_clean [symmetric])
  qed
qed

text \<open>The four ways the setup ends.\<close>

definition setup_post :: "'w cells \<Rightarrow> 'w \<Rightarrow> setup_exit \<Rightarrow> 'w subpad \<Rightarrow> bool" where
  "setup_post c w0 e s = (case e of Return r \<Rightarrow> same_cells c w0 (dev s) | Finished \<Rightarrow> put_back c w0 s
     | Close_mmio \<Rightarrow> put_back c w0 s | _ \<Rightarrow> working c w0 s)"

lemma untouched_back: "untouched c w0 s \<Longrightarrow> put_back c w0 s"
  by (simp add: untouched_def put_back_def)

lemma working_oscall: "registers_hold h c \<Longrightarrow> keeps (working c w0) (oscall h q)"
  unfolding working_def by (intro keeps_and agree_reads saved_oscall)

lemma working_modify: "(\<And>s. dev (f s) = dev s \<and> saved (f s) = saved s) \<Longrightarrow> keeps (working c w0) (modify f)"
  by (rule keeps_modify) (simp add: working_def)

lemma working_rest: "registers_hold h c \<Longrightarrow> keeps (working c w0) (normal_rest (bus_of h) hi)"
  unfolding working_def by (intro keeps_and own_rest saved_rest_high)

lemma safe_rest: "keeps (\<lambda>s. \<not> hardware_safe s) (normal_rest b hi)"
proof -
  have w: "keeps (\<lambda>s. \<not> hardware_safe s) (wait_loop b r k n)" for r k n
    by (induction n) (simp_all, (rule sp_rules keeps_rest | assumption | simp)+)
  show ?thesis
    unfolding normal_rest_def base_pfc_def rmw16_def rmw8_def wait_clear_def
    by (rule w sp_rules keeps_rest | simp)+
qed

lemma protected_post:
  assumes H: "registers_hold h c"
  shows "triple (untouched c w0) (main_protected h) (setup_post c w0)"
proof -
  let ?off = "\<lambda>s :: 'a subpad. \<not> hardware_safe s"
  have tail: "triple (\<lambda>s. working c w0 s \<and> ?off s) (do {
           modify (\<lambda>s. s\<lparr>hardware_safe := True\<rparr>);
           restored \<leftarrow> restore_signal_mask h;
           if \<not> restored then do { set_fatal; ret Shutdown_hardware }
           else do { modify (\<lambda>s. s\<lparr>stopping_blocked := False\<rparr>); ret Loop } }) (setup_post c w0)"
    by (rule triple_pre [where P' = "working c w0"], unfold set_fatal_def restore_signal_mask_def bind_assoc)
      (rule triple_keeps working_oscall H working_modify triple_if triple_ret keeps_ret | simp add: saved_def setup_post_def)+
  have clock: "triple (\<lambda>s. (same_cells c w0 (dev s) \<and> snapshot s = snapshot_of c w0 \<and> snapshot_valid s \<and> exit_result s = 1) \<and> ?off s)
     (open_adc_clock (bus_of h)) (\<lambda>ok s. ok = True \<and> working c w0 s \<and> ?off s)"
    by (rule triple_post [OF triple_conj [OF open_clock_works [OF H]]], unfold open_adc_clock_def)
      (rule sp_rules keeps_rest keeps_modify | simp)+
  have failed: "working c w0 s \<Longrightarrow> ?off s \<Longrightarrow> setup_post c w0 Close_mmio s" for s
    by (simp add: setup_post_def put_back_def working_def saved_def)
  have keep: "keeps (\<lambda>s. working c w0 s \<and> ?off s) (modify (clock_opened_update f))" for f
    by (rule keeps_modify) (simp add: working_def saved_def)
  show ?thesis
    unfolding main_protected_def
    apply (rule triple_keeps, rule untouched_opening [OF H])
    apply (rule triple_if, rule triple_ret, simp add: setup_post_def untouched_back)
    apply (rule triple_bind [OF capture_saves [OF H]])
    apply (rule triple_bind, rule triple_modify)
     prefer 2
     apply (rule triple_bind [OF clock], rule triple_known, simp)
     apply (rule triple_keeps, rule keep)
     apply (rule triple_keeps, rule keeps_and [OF working_rest [OF H] safe_rest])
     apply (rule triple_if, rule triple_ret, simp add: failed, rule tail)
    apply (simp add: untouched_def)
    done
qed

lemma setup_works:
  assumes H: "registers_hold h c"
  shows "triple (untouched c w0) (main_setup h args) (setup_post c w0)"
  unfolding main_setup_def main_open_def
  by (rule triple_if triple_ret triple_keeps untouched_opening outside protected_post H
     | simp add: setup_post_def untouched_back untouched_def)+

text \<open>Shutting down: what the program owned is put back unless the converter would not rest.\<close>

lemma working_release: "registers_hold h c \<Longrightarrow> keeps (working c w0) (release_zone h z)"
  unfolding working_def by (intro keeps_and agree_release saved_release)

lemma working_mask: "registers_hold h c \<Longrightarrow> keeps (working c w0) (shutdown_mask h)"
  unfolding shutdown_mask_def block_stopping_signals_def
  by (rule sp_rules working_oscall working_modify | assumption | simp add: saved_def)+

lemma ports_put_back:
  assumes H: "registers_hold h c"
  shows "triple (working c w0) (restore_pfc (bus_of h)) (\<lambda>ok s. ok = True \<and>
     agree c w0 clean (cell32 c w0 AND NOT ADC_CLOCK_BIT) (dev s) \<and> clock_was_gated s = (cell32 c w0 AND ADC_CLOCK_BIT \<noteq> 0))"
proof -
  have "keeps (\<lambda>s. saved s = v) (restore_pfc b)" for v and b :: "'a bus"
    unfolding restore_pfc_def rmw16_def rmw8_def check16_def check8_def by (rule saved_free)+
  from triple_conj [OF restore_pfc_works [OF H] this] show ?thesis
    by (rule triple_post [OF triple_pre]) (auto simp: working_def saved_def)
qed

lemma restore_back:
  assumes H: "registers_hold h c"
  shows "triple (working c w0) (shutdown_restore h) (\<lambda>_. put_back c w0)"
proof -
  have "\<not> hardware_safe s \<Longrightarrow> working c w0 s \<Longrightarrow> put_back c w0 s" for s
    by (simp add: put_back_def working_def saved_def)
  then have skip: "triple (\<lambda>s. working c w0 s \<and> \<not> hardware_safe s) (ret ()) (\<lambda>_. put_back c w0)"
    by (intro triple_ret) simp
  have clock: "triple (\<lambda>s. agree c w0 clean (cell32 c w0 AND NOT ADC_CLOCK_BIT) (dev s) \<and> clock_was_gated s = (cell32 c w0 AND ADC_CLOCK_BIT \<noteq> 0))
      (do { ok \<leftarrow> restore_adc_clock (bus_of h); modify (\<lambda>s. s\<lparr>clock_restored := ok\<rparr>) }) (\<lambda>_. put_back c w0)"
    by (rule triple_bind [OF restore_clock_works [OF H]], rule triple_modify) (simp add: put_back_def)
  have safe: "triple (working c w0) (do {
       idle \<leftarrow> normal_rest (bus_of h) True;
       if \<not> idle then modify (\<lambda>s. s\<lparr>hardware_safe := False\<rparr>)
       else do {
         ok \<leftarrow> restore_pfc (bus_of h);
         modify (\<lambda>s. s\<lparr>pfc_restored := ok\<rparr>);
         if \<not> ok then modify (\<lambda>s. s\<lparr>hardware_safe := False\<rparr>)
         else do {
           ok \<leftarrow> restore_adc_clock (bus_of h);
           modify (\<lambda>s. s\<lparr>clock_restored := ok\<rparr>) } } }) (\<lambda>_. put_back c w0)"
    apply (rule triple_keeps, rule working_rest [OF H])
    apply (rule triple_if, rule triple_modify, simp add: put_back_def working_def saved_def)
    apply (rule triple_bind [OF ports_put_back [OF H]], rule triple_known, simp)
    apply (rule triple_keeps, rule keeps_modify, simp, rule clock)
    done
  show ?thesis
    unfolding shutdown_restore_def onlyif_def
    apply (rule triple_bind [where R = "\<lambda>a s. working c w0 s \<and> a = hardware_safe s"], simp add: triple_def)
    apply (rule triple_if)
    apply (rule triple_pre [OF safe], simp)
    apply (rule triple_pre [OF skip], simp)
    done
qed

lemma shutdown_back:
  assumes H: "registers_hold h c"
  shows "triple (working c w0) (shutdown_hardware h) (\<lambda>_. put_back c w0)"
proof -
  have off: "triple (\<lambda>s. working c w0 s \<and> \<not> hardware_safe s) (ret ()) (\<lambda>_. put_back c w0)"
    by (rule triple_ret) (simp add: put_back_def working_def saved_def)
  have on: "triple (\<lambda>s. working c w0 s \<and> hardware_safe s) (do { shutdown_mask h; shutdown_restore h; unblock h }) (\<lambda>_. put_back c w0)"
    by (rule triple_pre [where P' = "working c w0"], rule triple_keeps, rule working_mask [OF H])
      (rule triple_bind, rule restore_back [OF H], rule put_back_closing(2) [OF H, unfolded keeps_def], simp)
  have result: "triple (put_back c w0) (gets id \<bind> (\<lambda>s. onlyif (hardware_safe s \<and> pfc_restored s \<and> clock_restored s \<and> \<not> fatal_error s)
       (modify (\<lambda>s. s\<lparr>exit_result := 0\<rparr>)))) (\<lambda>_. put_back c w0)"
    by (rule tripleI) (auto simp: put_back_def split: if_splits)
  show ?thesis
    unfolding shutdown_hardware_def
    apply (rule triple_keeps, rule sp_rules)
    apply (rule triple_keeps, (rule sp_rules working_release [OF H])+)
    apply (rule triple_bind [where R = "\<lambda>a s. working c w0 s \<and> a = hardware_safe s"], simp add: triple_def)
    apply (rule triple_bind [OF _ result], unfold onlyif_def)
    apply (rule triple_if)
    apply (rule triple_pre [OF on], simp)
    apply (rule triple_pre [OF off], simp)
    done
qed

lemma polling_working:
  assumes "registers_hold h c" and "polling h s s'" and "working c w0 s"
  shows "working c w0 s'"
proof -
  have "keeps (working c w0) (loop_condition h)" "keeps (working c w0) (loop_body h)"
    unfolding working_def by (intro keeps_and agree_condition own_body saved_condition saved_body assms(1))+
  then show ?thesis using polling_keeps [of "working c w0" h s s'] assms(2,3) by blast
qed

text \<open>C24. Whatever the converter, the X server and the system answer, a run of the program that
  ends with success, or before it saved the ports, or with the converter at rest, leaves every
  port register and the clock-gate word as it found them, provided these registers hold what is
  written to them and nobody else writes them meanwhile.\<close>

theorem subpad_restores:
  assumes "registers_hold h c" and "subpad_main h args (subpad_start d) r s"
    and "r = 0 \<or> \<not> snapshot_valid s \<or> hardware_safe s"
  shows "same_cells c d (dev s)"
proof -
  have u: "untouched c d (subpad_start d)" by (simp add: untouched_def subpad_start_def same_cells_def)
  have begun: "run_state (main_setup h args) (subpad_start d) = (e, s1) \<Longrightarrow> setup_post c d e s1" for e s1
    using tripleD [OF setup_works [OF assms(1)] _ u] by blast
  have close: "put_back c d s1 \<Longrightarrow> run_state (exit_close h) s1 = ((), s2) \<Longrightarrow> put_back c d s2" for s1 s2
    using keepsD [OF put_back_closing(1) [OF assms(1)]] by blast
  have shut: "working c d s1 \<Longrightarrow> run_state (exit_shutdown h) s1 = ((), s2) \<Longrightarrow> put_back c d s2" for s1 s2
    using tripleD [OF triple_bind [OF shutdown_back [OF assms(1)] put_back_closing(1) [OF assms(1), unfolded keeps_def]]]
    unfolding exit_shutdown_def by blast
  have loop: "working c d s1 \<Longrightarrow> run_state (after_loop h) s1 = (u, s2) \<Longrightarrow> working c d s2" for s1 s2 u
  proof -
    have "keeps (working c d) (after_loop h)" unfolding after_loop_def set_fatal_def
      by (rule sp_rules working_oscall [OF assms(1)] working_modify | simp add: saved_def)+
    then show "working c d s1 \<Longrightarrow> run_state (after_loop h) s1 = (u, s2) \<Longrightarrow> working c d s2" by (blast dest: keepsD)
  qed
  show ?thesis using assms(2)
  proof cases
    case main_return
    from begun [OF this] show ?thesis by (simp add: setup_post_def)
  next
    case (main_finished s1)
    have "keeps (put_back c d) (finished h)"
      unfolding finished_def close_x_def by (rule outside assms(1) | simp)+
    then have "put_back c d s"
      using begun [OF main_finished(2)] main_finished(3) by (auto simp: setup_post_def dest: keepsD)
    then show ?thesis using assms(3) main_finished(1) by (auto simp: put_back_def)
  next
    case (main_close s1)
    have "put_back c d s" using begun [OF main_close(2)] close [OF _ main_close(3)] by (simp add: setup_post_def)
    then show ?thesis using assms(3) main_close(1) by (auto simp: put_back_def)
  next
    case (main_shutdown s1)
    have "put_back c d s" using begun [OF main_shutdown(2)] shut [OF _ main_shutdown(3)] by (simp add: setup_post_def)
    then show ?thesis using assms(3) main_shutdown(1) by (auto simp: put_back_def)
  next
    case (main_loop s1 s2)
    have "working c d s2" using begun [OF main_loop(2)] polling_working [OF assms(1) main_loop(3)] by (simp add: setup_post_def)
    then have "put_back c d s" using main_loop(4) shut loop
      by (auto simp: exit_loop_def split: prod.splits)
    then show ?thesis using assms(3) main_loop(1) by (auto simp: put_back_def)
  qed
qed

text \<open>A machine whose registers are memory, and a system that lets the program run and stops it.\<close>

definition ram_bus :: "(u32 \<Rightarrow> u32) bus" where
  "ram_bus = \<lparr>bus_rd8 = (\<lambda>a w. (ucast (w a), w)), bus_rd16 = (\<lambda>a w. (ucast (w a), w)), bus_rd32 = (\<lambda>a w. (w a, w)),
     bus_wr8 = (\<lambda>a v w. if a \<in> set ports8 then w(a := ucast v) else w),
     bus_wr16 = (\<lambda>a v w. if a \<in> set ports16 then w(a := ucast v) else w),
     bus_wr32 = (\<lambda>a v w. if a = gate then w(a := v) else w)\<rparr>"

fun willing :: "call \<Rightarrow> int" where
  "willing Stat_parameter = -2"
| "willing Sysconf_pagesize = 4096"
| "willing Xcb_connect = 1"
| "willing Xcb_xtest_present = 1"
| "willing Xcb_xtest_version = 2"
| "willing Xcb_flush = 1"
| "willing Stop_requested = 1"
| "willing _ = 0"

definition ram_host :: "(u32 \<Rightarrow> u32) host" where
  "ram_host = \<lparr>bus_of = ram_bus, answer = (\<lambda>q w. (willing q, w)),
     fb_of = (\<lambda>w. \<lparr>fb_id = ''EX-word LCD'', xres = 528, yres = 320, bits_per_pixel = 16\<rparr>)\<rparr>"

definition ram_cells :: "(u32 \<Rightarrow> u32) cells" where
  "ram_cells = \<lparr>cell16 = (\<lambda>a w. ucast (w a)), cell8 = (\<lambda>a w. ucast (w a)), cell32 = (\<lambda>w. w gate)\<rparr>"

lemma ram_holds: "registers_hold ram_host ram_cells"
proof -
  have d: "set ports16 \<inter> set ports8 = {}" "gate \<notin> set ports16" "gate \<notin> set ports8" by (simp_all add: port_defs)
  have u: "ucast (ucast (v :: u16) :: u32) = v" "ucast (ucast (x :: u8) :: u32) = x" for v x
    by (rule bit_word_eqI, simp add: bit_simps)+
  show ?thesis
    using d by (auto simp: registers_hold_def same_cells_def ram_host_def ram_bus_def ram_cells_def u)
qed

lemma wait_now:
  assumes "fst (bus_rd16 b r (dev s)) AND k = 0"
  shows "run_state (wait_clear b r k) s =
     (True, s\<lparr>dev := snd (bus_rd16 b r (dev s)), trace := Rd16 r (fst (bus_rd16 b r (dev s))) # trace s\<rparr>)"
proof -
  have T: "ADC_TIMEOUT = Suc 8191" by (simp add: ADC_TIMEOUT_def)
  show ?thesis using assms unfolding wait_clear_def T wait_loop.simps by (simp add: readw_def case_prod_beta)
qed

lemmas ram_defs = ram_host_def ram_bus_def port_defs readb_def readw_def readl_def writeb_def writew_def writel_def
  rmw16_def rmw8_def oscall_def subpad_start_def ADC_CLOCK_BIT_def wait_now

lemmas run_defs = main_setup_def main_open_def main_protected_def expected_hardware_def experimental_driver_absent_def
  configure_signals_def open_x_def acquire_lock_def open_maps_def map_page_def both_def block_stopping_signals_def
  restore_signal_mask_def capture_pfc_def open_adc_clock_def normal_rest_def base_pfc_def x_checked_button_def
  loop_condition_def exit_loop_def after_loop_def exit_shutdown_def shutdown_hardware_def shutdown_mask_def
  shutdown_restore_def restore_pfc_def check16_def check8_def restore_adc_clock_def unblock_def exit_close_def
  close_mmio_def close_maps_def finished_def close_x_def

lemma rep: "replicate 6 x = [x, x, x, x, x, x]" "replicate 4 x = [x, x, x, x]"
  by (simp_all add: eval_nat_numeral)

lemma ram_run: "\<exists>s. subpad_main ram_host [] (subpad_start (\<lambda>_. 0x08000155)) 0 s"
proof -
  let ?s1 = "snd (run_state (main_setup ram_host []) (subpad_start (\<lambda>_. 0x08000155)))"
  let ?s2 = "snd (run_state (loop_condition ram_host) ?s1)"
  let ?s3 = "snd (run_state (exit_loop ram_host) ?s2)"
  have 1: "fst (run_state (main_setup ram_host []) (subpad_start (\<lambda>_. 0x08000155))) = Loop"
    by (simp add: run_defs ram_defs rep)
  have 2: "fst (run_state (loop_condition ram_host) ?s1) = False" by (simp add: loop_condition_def oscall_def ram_host_def)
  have 3: "exit_result ?s3 = 0" by (simp add: run_defs ram_defs rep)
  have "subpad_main ram_host [] (subpad_start (\<lambda>_. 0x08000155)) (exit_result ?s3) ?s3"
    by (rule main_loop [where ?s1.0 = ?s1 and ?s2.0 = ?s2]) (simp_all add: prod_eq_iff 1 2 poll_stop)
  then show ?thesis unfolding 3 by blast
qed

theorem subpad_restores_witness:
  "registers_hold ram_host ram_cells \<and>
   (\<exists>s. subpad_main ram_host [] (subpad_start (\<lambda>_. 0x08000155)) 0 s \<and> same_cells ram_cells (\<lambda>_. 0x08000155) (dev s))"
  using ram_holds ram_run subpad_restores [OF ram_holds] by blast

end
