(* ===== verification/Subpad_Pointer.thy ===== *)
theory Subpad_Pointer
  imports Subpad_Safety
begin

text \<open>
  What the touch pad mouse asks of the X server and of the system. Polling implements the shared
  gesture machine and requests exactly the pointer input its transitions call for; over a host
  that records every call and register access in order, a run touches the registers only while
  it holds the lock, the mapping and the signal mask, and gives everything back.
\<close>

section \<open>Pointer input\<close>

definition x_works :: "'w host \<Rightarrow> bool" where
  "x_works h \<longleftrightarrow> (\<forall>w n dx dy dn. fst (answer h (Fake_button dn n) w) = 0 \<and>
     fst (answer h (Warp_pointer dx dy) w) = 0 \<and> fst (answer h Xcb_has_error w) = 0)"

definition subpad_poll :: "'w host \<Rightarrow> touch_sample option \<Rightarrow> 'w subpad \<Rightarrow> 'w subpad" where
  "subpad_poll h r s = snd (run_state (poll_evaluate h r) s)"

text \<open>The requests of a press, of holding on and of a release.\<close>

fun zone_request :: "touch_zone \<Rightarrow> call list" where
  "zone_request TOUCH_LEFT = [Warp_pointer (-6) 0]"
| "zone_request TOUCH_UP = [Warp_pointer 0 (-6)]"
| "zone_request TOUCH_RIGHT = [Warp_pointer 6 0]"
| "zone_request TOUCH_DOWN = [Warp_pointer 0 6]"
| "zone_request TOUCH_BUTTON_LEFT = [Fake_button True 1]"
| "zone_request TOUCH_BUTTON_RIGHT = [Fake_button True 3]"
| "zone_request TOUCH_NONE = []"

fun release_request :: "touch_zone \<Rightarrow> call list" where
  "release_request TOUCH_BUTTON_LEFT = [Fake_button False 1]"
| "release_request TOUCH_BUTTON_RIGHT = [Fake_button False 3]"
| "release_request _ = []"

definition transition_requests :: "touch_sample option \<Rightarrow> gesture \<Rightarrow> gesture \<Rightarrow> call list" where
  "transition_requests r g g' =
     (if g_active g = TOUCH_NONE then zone_request (g_active g')
      else if g_active g' = TOUCH_NONE then release_request (g_active g)
      else if r \<noteq> None \<and> \<not> is_button (g_active g) \<and> g_repeat g' = 0 then zone_request (g_active g)
      else [])"

fun machine_requests :: "touch_sample option list \<Rightarrow> gesture \<Rightarrow> call list" where
  "machine_requests [] g = []"
| "machine_requests (r # rs) g =
     transition_requests r g (gesture_step sample_zone r g) @ machine_requests rs (gesture_step sample_zone r g)"

definition requests :: "call list \<Rightarrow> call list" where
  "requests cs = filter (\<lambda>c. c \<noteq> Xcb_has_error) cs"

lemma requests_simps [simp]: "requests (xs @ ys) = requests xs @ requests ys" "requests [] = []"
  "requests [Xcb_has_error] = []" "c \<noteq> Xcb_has_error \<Longrightarrow> requests [c] = [c]"
  "requests (c # cs) = (if c = Xcb_has_error then requests cs else c # requests cs)"
  by (simp_all add: requests_def)

text \<open>A request that succeeds is logged and leaves the program's variables alone.\<close>

lemma emit_zone_works:
  assumes "x_works h" and "run_state (emit_zone h z) s = (ok, s')"
  shows "ok \<and> gest s' = gest s \<and> requests (calls s') = requests (calls s) @ zone_request z"
  using assms
  by (cases z) (auto simp: emit_zone_def emit_motion_def emit_button_def x_checked_button_def oscall_def x_works_def
      MOVE_STEP_def case_prod_beta)

lemma release_zone_works:
  assumes "x_works h" and "run_state (release_zone h z) s = (ok, s')"
  shows "ok \<and> gest s' = gest s \<and> requests (calls s') = requests (calls s) @ release_request z"
  using assms
  by (cases z) (auto simp: release_zone_def emit_button_def x_checked_button_def oscall_def x_works_def case_prod_beta)

lemmas zone_works = emit_zone_works [OF _ prod.collapse [symmetric]] release_zone_works [OF _ prod.collapse [symmetric]]

lemmas poll_defs = subpad_poll_def poll_evaluate_def poll_missed_def poll_held_def poll_candidate_def set_gest_def
  transition_requests_def Let_def case_prod_beta

lemmas machine_constants = DEBOUNCE_POLLS_def RELEASE_POLLS_def MOVE_REPEAT_POLLS_def RAW_JITTER_LIMIT_def
  DEBOUNCE_def RELEASE_DEBOUNCE_def REPEAT_POLLS_def JITTER_def

definition polled :: "'w host \<Rightarrow> touch_sample option \<Rightarrow> 'w subpad \<Rightarrow> bool" where
  "polled h r s \<longleftrightarrow> gest (subpad_poll h r s) = gesture_step sample_zone r (gest s) \<and>
     requests (calls (subpad_poll h r s)) =
       requests (calls s) @ transition_requests r (gest s) (gesture_step sample_zone r (gest s))"

lemma poll_missed_works: "x_works h \<Longrightarrow> polled h None s"
  by (simp add: polled_def poll_defs machine_constants zone_works)

lemma poll_held_works: "x_works h \<Longrightarrow> g_active (gest s) \<noteq> TOUCH_NONE \<Longrightarrow> polled h (Some p) s"
  by (cases "g_active (gest s)")
    (simp_all add: polled_def poll_defs machine_constants zone_works direction_zone_def is_button_def)

lemma sample_zone_some: "sample_zone p \<noteq> TOUCH_NONE"
  by (simp add: sample_zone_def)

lemma poll_candidate_works: "x_works h \<Longrightarrow> g_active (gest s) = TOUCH_NONE \<Longrightarrow> polled h (Some p) s"
  by (auto simp: polled_def poll_defs machine_constants zone_works close_def not_le)

lemma poll_works: "x_works h \<Longrightarrow> polled h r s"
  by (cases r; cases "g_active (gest s) = TOUCH_NONE") (simp_all add: poll_missed_works poll_held_works poll_candidate_works)

interpretation xpad: touch_machine "subpad_poll h" gest "\<lambda>s. x_works h" sample_zone for h
  by unfold_locales (use poll_works in \<open>auto simp: polled_def sample_zone_some\<close>)

lemma poll_requests:
  "x_works h \<Longrightarrow> requests (calls (fold (subpad_poll h) rs s)) = requests (calls s) @ machine_requests rs (gest s)"
proof (induction rs arbitrary: s)
  case (Cons r rs)
  from poll_works [OF Cons.prems, of r s] Cons.IH [OF Cons.prems, of "subpad_poll h r s"]
  show ?case by (simp add: polled_def)
qed simp

text \<open>C26. As long as the X server accepts the requests, polling refines the gesture machine: any
  sequence of poll results leaves the machine's gesture state and has asked the server for exactly
  the pointer steps, presses and releases its transitions call for; starting idle, a zone becomes
  active only through two consecutive close samples of it, contact does not change it, and two
  polls without contact release it.\<close>

theorem subpad_refines_gestures:
  fixes h :: "'w host" and s :: "'w subpad"
  assumes "x_works h"
  defines "after \<equiv> \<lambda>rs. gest (fold (subpad_poll h) rs s)"
  shows "after rs = fold (gesture_step sample_zone) rs (gest s) \<and>
    requests (calls (fold (subpad_poll h) rs s)) = requests (calls s) @ machine_requests rs (gest s) \<and>
    (g_active (gest s) = TOUCH_NONE \<and> g_candidate (gest s) = TOUCH_NONE \<and> g_count (gest s) = 0 \<and>
     g_active (after rs) = TOUCH_NONE \<and> g_active (after (rs @ [r])) \<noteq> TOUCH_NONE \<longrightarrow>
       (\<exists>xs p q. rs @ [r] = xs @ [Some p, Some q] \<and> sample_zone p = sample_zone q \<and> close q p \<and>
         g_active (after (rs @ [r])) = sample_zone q)) \<and>
    (g_active (after rs) \<noteq> TOUCH_NONE \<longrightarrow> g_active (after (rs @ [Some p'])) = g_active (after rs)) \<and>
    g_active (after (rs @ [None, None])) = TOUCH_NONE"
  using xpad.run_refines [OF assms(1)] poll_requests [OF assms(1)] xpad.latched_zone [OF assms(1)]
    xpad.released_after_two [OF assms(1)] xpad.press_needs_two [OF assms(1)]
  unfolding after_def by (intro conjI impI) (simp_all del: machine_requests.simps)

theorem subpad_refines_gestures_witness:
  "x_works ram_host \<and>
   requests (calls (fold (subpad_poll ram_host)
     [Some \<lparr>sample_x = 100, sample_y = 800\<rparr>, Some \<lparr>sample_x = 110, sample_y = 810\<rparr>, None, None] (subpad_start (\<lambda>_. 0)))) =
     [Fake_button True 1, Fake_button False 1]"
proof -
  let ?rs = "[Some \<lparr>sample_x = 100, sample_y = 800\<rparr>, Some \<lparr>sample_x = 110, sample_y = 810\<rparr>, None, None]"
    and ?s = "subpad_start (\<lambda>_. 0) :: (u32 \<Rightarrow> u32) subpad"
  have w: "x_works ram_host" by (simp add: x_works_def ram_host_def)
  have "machine_requests ?rs (gest ?s) = [Fake_button True 1, Fake_button False 1]" by code_simp
  moreover have "requests (calls ?s) = []" by (simp add: subpad_start_def)
  ultimately show ?thesis
    using w subpad_refines_gestures [OF w, of ?rs ?s] by (simp del: machine_requests.simps)
qed

end
