(* ===== verification/Subpad_Discipline.thy ===== *)
theory Subpad_Discipline
  imports Subpad_Pointer
begin

text \<open>
  The order of what the touch pad mouse does. Over a host that records every call with its answer
  and every register access, a run touches the registers only while it holds the lock, the page of
  the register and the signal mask, and whichever way it ends it has given back everything it
  acquired and released every button it pressed.
\<close>

section \<open>Recording\<close>

datatype event = Called call int | Accessed u32

fun noting :: "('w \<Rightarrow> 'a \<times> 'w) \<Rightarrow> ('a \<Rightarrow> event) \<Rightarrow> 'w \<times> event list \<Rightarrow> 'a \<times> 'w \<times> event list" where
  "noting f e (w, es) = (case f w of (a, w') \<Rightarrow> (a, w', e a # es))"

definition recording :: "'w host \<Rightarrow> ('w \<times> event list) host" where
  "recording h = \<lparr>bus_of =
     \<lparr>bus_rd8 = (\<lambda>a. noting (bus_rd8 (bus_of h) a) (\<lambda>_. Accessed a)),
      bus_rd16 = (\<lambda>a. noting (bus_rd16 (bus_of h) a) (\<lambda>_. Accessed a)),
      bus_rd32 = (\<lambda>a. noting (bus_rd32 (bus_of h) a) (\<lambda>_. Accessed a)),
      bus_wr8 = (\<lambda>a v (w, es). (bus_wr8 (bus_of h) a v w, Accessed a # es)),
      bus_wr16 = (\<lambda>a v (w, es). (bus_wr16 (bus_of h) a v w, Accessed a # es)),
      bus_wr32 = (\<lambda>a v (w, es). (bus_wr32 (bus_of h) a v w, Accessed a # es))\<rparr>,
     answer = (\<lambda>q. noting (answer h q) (Called q)), fb_of = (\<lambda>(w, es). fb_of h w)\<rparr>"

section \<open>Resources\<close>

datatype resource = Lock | Connection | Devmem | Framebuffer | Page u32 | Masked | Button nat

fun effect :: "event \<Rightarrow> resource set \<Rightarrow> resource set" where
  "effect (Called Open_fb0 r) R = (if r \<ge> 0 then insert Framebuffer R else R)"
| "effect (Called Close_fb0 r) R = R - {Framebuffer}"
| "effect (Called Open_lock r) R = (if r \<ge> 0 then insert Lock R else R)"
| "effect (Called Close_lock r) R = R - {Lock}"
| "effect (Called Open_devmem r) R = (if r \<ge> 0 then insert Devmem R else R)"
| "effect (Called Close_devmem r) R = R - {Devmem}"
| "effect (Called (Mmap p) r) R = (if r \<noteq> -1 then insert (Page p) R else R)"
| "effect (Called (Munmap p) r) R = R - {Page p}"
| "effect (Called Xcb_connect r) R = (if r \<noteq> 0 then insert Connection R else R)"
| "effect (Called Xcb_disconnect r) R = R - {Connection}"
| "effect (Called Sigprocmask_block r) R = (if r \<ge> 0 then insert Masked R else R)"
| "effect (Called Sigprocmask_restore r) R = (if r \<ge> 0 then R - {Masked} else R)"
| "effect (Called (Fake_button dn n) r) R = (if dn then insert (Button n) R else R - {Button n})"
| "effect _ R = R"

text \<open>Logs have the newest event first.\<close>

fun held :: "event list \<Rightarrow> resource set" where
  "held [] = {}"
| "held (e # es) = effect e (held es)"

fun orderly :: "event list \<Rightarrow> bool" where
  "orderly [] = True"
| "orderly (Called q r # es) = orderly es"
| "orderly (Accessed a # es) = ({Lock, Masked, Page (a AND NOT 0xfff)} \<subseteq> held es \<and> orderly es)"

section \<open>The invariant\<close>

definition button_of :: "touch_zone \<Rightarrow> nat option" where
  "button_of z = (if z = TOUCH_BUTTON_LEFT then Some 1 else if z = TOUCH_BUTTON_RIGHT then Some 3 else None)"

abbreviation log :: "('w \<times> event list) subpad \<Rightarrow> event list" where
  "log s \<equiv> snd (dev s)"

definition pages :: "resource set \<Rightarrow> u32 set" where
  "pages R = {p. Page p \<in> R}"

lemma pages_simps [simp]: "pages (insert (Page p) R) = insert p (pages R)" "pages R \<subseteq> S \<Longrightarrow> pages (R - A) \<subseteq> S"
  "pages (insert Lock R) = pages R" "pages (insert Connection R) = pages R" "pages (insert Devmem R) = pages R"
  "pages (insert Framebuffer R) = pages R" "pages (insert Masked R) = pages R" "pages (insert (Button n) R) = pages R"
  "pages (R - {Button n}) = pages R" "pages (R - {Masked}) = pages R"
  by (auto simp: pages_def)

definition accounts :: "resource set \<Rightarrow> int \<Rightarrow> bool \<Rightarrow> maps \<Rightarrow> bool" where
  "accounts R l con m \<longleftrightarrow> (Lock \<in> R \<longleftrightarrow> l \<ge> 0) \<and> (Connection \<in> R \<longleftrightarrow> con) \<and> (Devmem \<in> R \<longleftrightarrow> fd m \<ge> 0) \<and>
     Framebuffer \<notin> R \<and> (Page PFC_PHYS \<in> R \<longleftrightarrow> pfc m) \<and> (Page CPG_PHYS \<in> R \<longleftrightarrow> cpg m) \<and>
     (Page ADC_PHYS \<in> R \<longleftrightarrow> adc m) \<and> pages R \<subseteq> {PFC_PHYS, CPG_PHYS, ADC_PHYS}"

definition pressed_ok :: "resource set \<Rightarrow> touch_zone \<Rightarrow> bool" where
  "pressed_ok R z \<longleftrightarrow> (\<forall>n. Button n \<in> R \<longrightarrow> button_of z = Some n)"

text \<open>\<open>Z\<close> says which zone may hold its button down: the active one, or none.\<close>

definition tidy :: "(gesture \<Rightarrow> touch_zone) \<Rightarrow> ('w \<times> event list) subpad \<Rightarrow> bool" where
  "tidy Z s \<longleftrightarrow> orderly (log s) \<and> accounts (held (log s)) (lock_fd s) (connected s) (maps s) \<and>
     (stopping_blocked s \<longrightarrow> Masked \<in> held (log s)) \<and> pressed_ok (held (log s)) (Z (gest s))"

definition neutral :: "call \<Rightarrow> bool" where
  "neutral q \<longleftrightarrow> (\<forall>r R. effect (Called q r) R = R)"

lemma run_oscall:
  "run_state (oscall (recording h) q) s =
     (let a = answer h q (fst (dev s)) in (fst a, s\<lparr>dev := (snd a, Called q (fst a) # log s), calls := calls s @ [q]\<rparr>))"
  by (cases "dev s") (simp add: oscall_def recording_def Let_def case_prod_beta)

lemma tidy_neutral: "neutral q \<Longrightarrow> keeps (tidy Z) (oscall (recording h) q)"
  by (rule keepsI) (auto simp: run_oscall Let_def tidy_def neutral_def)

lemma tidy_modify:
  "(\<And>s. dev (f s) = dev s \<and> lock_fd (f s) = lock_fd s \<and> connected (f s) = connected s \<and> maps (f s) = maps s \<and>
     stopping_blocked (f s) = stopping_blocked s \<and> Z (gest (f s)) = Z (gest s)) \<Longrightarrow> keeps (tidy Z) (modify f)"
  by (rule keeps_modify) (simp add: tidy_def)

lemma neutrals [simp]:
  "neutral Geteuid" "neutral Ioctl_fscreeninfo" "neutral Ioctl_vscreeninfo" "neutral Stat_parameter" "neutral Sigfillset"
  "neutral Sigemptyset" "neutral Sigdelset" "neutral Sigaddset" "neutral Sigprocmask_set" "neutral Sigaction" "neutral Flock"
  "neutral Sysconf_pagesize" "neutral Stat_devmem" "neutral Xcb_has_error" "neutral Xcb_xtest_present"
  "neutral Xcb_xtest_version" "neutral Xcb_flush" "neutral (Warp_pointer dx dy)" "neutral Stop_requested"
  by (simp_all add: neutral_def)

section \<open>Registers\<close>

definition armed :: "(gesture \<Rightarrow> touch_zone) \<Rightarrow> ('w \<times> event list) subpad \<Rightarrow> bool" where
  "armed Z s \<longleftrightarrow> tidy Z s \<and> stopping_blocked s \<and> lock_fd s \<ge> 0 \<and> pfc (maps s) \<and> cpg (maps s) \<and> adc (maps s)"

definition our_page :: "u32 \<Rightarrow> bool" where
  "our_page a \<longleftrightarrow> a AND NOT 0xfff \<in> {PFC_PHYS, CPG_PHYS, ADC_PHYS}"

lemma armed_log:
  "armed Z s \<Longrightarrow> our_page a \<Longrightarrow> dev s' = (w, Accessed a # log s) \<Longrightarrow> lock_fd s' = lock_fd s \<Longrightarrow> connected s' = connected s \<Longrightarrow>
   maps s' = maps s \<Longrightarrow> stopping_blocked s' = stopping_blocked s \<Longrightarrow> gest s' = gest s \<Longrightarrow> armed Z s'"
  by (auto simp: armed_def tidy_def our_page_def accounts_def)

lemma armed_access:
  assumes "our_page a"
  shows "keeps (armed Z) (readb (bus_of (recording h)) a)" "keeps (armed Z) (readw (bus_of (recording h)) a)"
    "keeps (armed Z) (readl (bus_of (recording h)) a)" "keeps (armed Z) (writeb (bus_of (recording h)) a x)"
    "keeps (armed Z) (writew (bus_of (recording h)) a y)" "keeps (armed Z) (writel (bus_of (recording h)) a z)"
proof -
  have n: "noting f (\<lambda>_. e) d = (fst (f (fst d)), snd (f (fst d)), e # snd d)" for f :: "'a \<Rightarrow> 'b \<times> 'a" and e d
    by (cases d) (simp add: case_prod_beta)
  note defs = readb_def readw_def readl_def writeb_def writew_def writel_def recording_def n case_prod_beta
  show "keeps (armed Z) (readb (bus_of (recording h)) a)" "keeps (armed Z) (readw (bus_of (recording h)) a)"
    "keeps (armed Z) (readl (bus_of (recording h)) a)" "keeps (armed Z) (writeb (bus_of (recording h)) a x)"
    "keeps (armed Z) (writew (bus_of (recording h)) a y)" "keeps (armed Z) (writel (bus_of (recording h)) a z)"
    by (rule keepsI, (auto simp: defs)[1], erule armed_log [OF _ assms], auto)+
qed

lemma our_pages [simp]:
  "our_page (PFC_PHYS + PGCR_OFF)" "our_page (PFC_PHYS + PHCR_OFF)" "our_page (PFC_PHYS + PLCR_OFF)" "our_page (PFC_PHYS + PGDR_OFF)"
  "our_page (PFC_PHYS + PHDR_OFF)" "our_page (PFC_PHYS + PLDR_OFF)" "our_page (PFC_PHYS + PSELE_OFF)" "our_page (PFC_PHYS + MSELCRA_OFF)"
  "our_page (PFC_PHYS + PFC_A_OFF)" "our_page (CPG_PHYS + FRQCRA_OFF)" "our_page (CPG_PHYS + MSTPCR2_OFF)" "our_page (ADC_PHYS + ADDRA_OFF)"
  "our_page (ADC_PHYS + ADDRB_OFF)" "our_page (ADC_PHYS + ADDRC_OFF)" "our_page (ADC_PHYS + ADDRD_OFF)" "our_page (ADC_PHYS + ADCSR_OFF)"
  "our_page (ADC_PHYS + ADCCSR_OFF)" "our_page (ADC_PHYS + ADCUST_OFF)" "our_page (ADC_PHYS + ADPCTL_OFF)"
  by (simp_all add: our_page_def port_defs)

lemma armed_modify:
  "(\<And>s. dev (f s) = dev s \<and> lock_fd (f s) = lock_fd s \<and> connected (f s) = connected s \<and> maps (f s) = maps s \<and>
     stopping_blocked (f s) = stopping_blocked s \<and> Z (gest (f s)) = Z (gest s)) \<Longrightarrow> keeps (armed Z) (modify f)"
  by (rule keeps_modify) (simp add: armed_def tidy_def)

lemmas armed_rules = armed_access armed_modify keeps_both sp_rules

lemma armed_wait: "our_page r \<Longrightarrow> keeps (armed Z) (wait_clear (bus_of (recording h)) r k)"
proof -
  assume "our_page r"
  then have "keeps (armed Z) (wait_loop (bus_of (recording h)) r k n)" for n
    by (induction n) (simp_all, (rule armed_rules | assumption)+)
  then show ?thesis by (simp add: wait_clear_def)
qed

lemma armed_rest: "keeps (armed Z) (normal_rest (bus_of (recording h)) hi)"
  unfolding normal_rest_def base_pfc_def rmw16_def rmw8_def
  by (rule armed_wait armed_rules | simp)+

lemma armed_pen: "keeps (armed Z) (read_pen (bus_of (recording h)))"
proof -
  have "keeps (armed Z) (pen_loop (bus_of (recording h)) n t)" for n t
    by (induction n arbitrary: t) (simp_all, (rule armed_rules | assumption | simp)+)
  then show ?thesis
    unfolding read_pen_def base_pfc_def rmw16_def by - (rule armed_rules | assumption | simp)+
qed

lemma armed_adc: "keeps (armed Z) (read_adc (bus_of (recording h)))"
  unfolding read_adc_def adc_collect_def adc_failed_def emergency_abort_idle_def rmw16_def Let_def
  by (rule armed_rest armed_wait armed_rules | simp)+

lemma armed_saving:
  "keeps (armed Z) (capture_pfc (bus_of (recording h)))" "keeps (armed Z) (open_adc_clock (bus_of (recording h)))"
  "keeps (armed Z) (restore_adc_clock (bus_of (recording h)))" "keeps (armed Z) (restore_pfc (bus_of (recording h)))"
  unfolding capture_pfc_def open_adc_clock_def restore_adc_clock_def restore_pfc_def rmw16_def rmw8_def check16_def check8_def
  by (rule armed_rules | simp)+

section \<open>Pointer buttons\<close>

lemma accounts_button [simp]:
  "accounts (insert (Button n) R) l con m = accounts R l con m" "accounts (R - {Button n}) l con m = accounts R l con m"
  by (simp_all add: accounts_def)

lemma button_effects:
  "triple (\<lambda>s. tidy g_active s \<and> button_of (g_active (gest s)) = Some n) (x_checked_button (recording h) True n) (\<lambda>_. (tidy g_active))"
  "triple (\<lambda>s. tidy g_active s \<and> g_active (gest s) = z) (x_checked_button (recording h) False n)
     (\<lambda>_ s. tidy g_active s \<and> g_active (gest s) = z \<and> Button n \<notin> held (log s))"
  by (auto intro!: tripleI simp: x_checked_button_def run_oscall Let_def tidy_def pressed_ok_def split: if_splits)

lemma release_zone_frees:
  "triple (\<lambda>s. tidy g_active s \<and> g_active (gest s) = z) (release_zone (recording h) z)
     (\<lambda>_ s. tidy g_active s \<and> tidy (\<lambda>_. TOUCH_NONE) s)"
proof -
  have c: "tidy g_active s \<and> g_active (gest s) = z \<and> Button n \<notin> held (log s) \<Longrightarrow> button_of z = Some n \<or> button_of z = None \<Longrightarrow>
      tidy g_active s \<and> tidy (\<lambda>_. TOUCH_NONE) s" for s :: "('a \<times> event list) subpad" and n
    by (auto simp: tidy_def pressed_ok_def button_of_def)
  show ?thesis
    unfolding release_zone_def emit_button_def
    by (intro triple_if triple_ret triple_post [OF button_effects(2)])
      (auto simp: button_of_def tidy_def pressed_ok_def intro: c)
qed

lemma emit_zone_tidy: "triple (\<lambda>s. tidy g_active s \<and> g_active (gest s) = z) (emit_zone (recording h) z) (\<lambda>_. (tidy g_active))"
proof -
  have m: "triple (\<lambda>s. tidy g_active s \<and> g_active (gest s) = z) (emit_motion (recording h) dx dy) (\<lambda>_. (tidy g_active))" for dx dy
    by (rule triple_pre [where P' = "tidy g_active"], unfold emit_motion_def, fold keeps_def)
      (rule sp_rules tidy_neutral | simp)+
  show ?thesis
    unfolding emit_zone_def emit_button_def
    using m by (cases z) (auto intro!: triple_ret triple_pre [OF button_effects(1)] simp: button_of_def)
qed

lemma tidy_gest: "(\<And>g. g_active (f g) = g_active g) \<Longrightarrow> keeps (tidy g_active) (set_gest f)"
  unfolding set_gest_def by (rule tidy_modify) simp

lemma triple_gets: "(\<And>a. triple (\<lambda>s. P s \<and> g s = a) (f a) Q) \<Longrightarrow> triple P (gets g \<bind> f) Q"
  by (auto simp: triple_def)

lemma release_now:
  "triple (\<lambda>s. tidy g_active s \<and> g_active (gest s) = z) (release_zone (recording h) z \<bind> (\<lambda>ok. if \<not> ok then ret False
       else do { set_gest (\<lambda>g. g\<lparr>g_active := TOUCH_NONE, g_release := 0, g_repeat := 0\<rparr>); ret True })) (\<lambda>_. (tidy g_active))"
  by (rule triple_bind [OF release_zone_frees])
    (auto intro!: tripleI simp: set_gest_def tidy_def split: if_splits)

lemma quiet_gest:
  "(\<And>g. g_active (f g) = g_active g) \<Longrightarrow> keeps (\<lambda>s. tidy g_active s \<and> g_active (gest s) = z) (set_gest f)"
  by (intro keeps_and tidy_gest) (simp_all add: set_gest_def keeps_modify)

lemma poll_missed_tidy: "triple (tidy g_active) (poll_missed (recording h)) (\<lambda>_. (tidy g_active))"
  unfolding poll_missed_def
  apply (rule triple_keeps, rule tidy_gest, simp)
  apply (rule triple_gets)
  subgoal for u g
    by (rule triple_pre [where P' = "\<lambda>s. tidy g_active s \<and> g_active (gest s) = g_active g"],
        intro triple_if triple_keeps [OF quiet_gest] release_now triple_ret, simp_all)
  done

lemma poll_held_tidy: "triple (\<lambda>s. tidy g_active s \<and> g_active (gest s) = z) (poll_held (recording h) z) (\<lambda>_. (tidy g_active))"
  unfolding poll_held_def
  by (intro triple_if triple_keeps [OF quiet_gest] triple_keeps [OF keeps_gets] emit_zone_tidy triple_ret) simp_all

lemma poll_candidate_tidy:
  "triple (\<lambda>s. tidy g_active s \<and> g_active (gest s) = TOUCH_NONE) (poll_candidate (recording h) z p) (\<lambda>_. (tidy g_active))"
proof -
  let ?I = "\<lambda>s :: ('a \<times> event list) subpad. tidy g_active s \<and> g_active (gest s) = TOUCH_NONE"
  have press: "triple ?I (set_gest f) (\<lambda>_ s. tidy g_active s \<and> g_active (gest s) = z)" if "\<And>g. g_active (f g) = z" for f
    using that by (auto intro!: tripleI simp: set_gest_def tidy_def pressed_ok_def button_of_def)
  show ?thesis
    unfolding poll_candidate_def
    apply (rule triple_keeps [OF keeps_gets])
    apply (rule triple_keeps, (rule keeps_if quiet_gest | simp)+)
    apply (rule triple_keeps [OF quiet_gest], simp)
    apply (rule triple_keeps [OF keeps_gets])
    apply (intro triple_if triple_ret triple_bind [OF press emit_zone_tidy], simp_all)
    done
qed

lemma evaluate_tidy: "keeps (tidy g_active) (poll_evaluate (recording h) r)"
proof (cases r)
  case None
  then show ?thesis using poll_missed_tidy by (simp add: poll_evaluate_def keeps_def)
next
  case (Some p)
  show ?thesis
    unfolding keeps_def poll_evaluate_def Some option.case
    apply (rule triple_keeps, rule tidy_gest, simp)
    apply (rule triple_gets)
    subgoal for u g
      using triple_pre [OF poll_held_tidy [of "g_active g" h], of "\<lambda>s. tidy g_active s \<and> gest s = g"]
        triple_pre [OF poll_candidate_tidy [of h "sample_zone p" p], of "\<lambda>s. tidy g_active s \<and> gest s = g"] by auto
    done
qed

section \<open>The loop\<close>

lemma tidy_armed: "armed Z s \<Longrightarrow> tidy Z s"
  by (simp add: armed_def)

definition mapped :: "(gesture \<Rightarrow> touch_zone) \<Rightarrow> ('w \<times> event list) subpad \<Rightarrow> bool" where
  "mapped Z s \<longleftrightarrow> tidy Z s \<and> lock_fd s \<ge> 0 \<and> pfc (maps s) \<and> cpg (maps s) \<and> adc (maps s)"

lemma accounts_mask [simp]:
  "accounts (insert Masked R) l con m = accounts R l con m" "accounts (R - {Masked}) l con m = accounts R l con m"
  by (simp_all add: accounts_def)

lemma pressed_mask [simp]:
  "pressed_ok (insert Masked R) z = pressed_ok R z" "pressed_ok (R - {Masked}) z = pressed_ok R z"
  by (auto simp: pressed_ok_def)

lemma block_arms:
  "triple (mapped Z) (block_stopping_signals (recording h)) (\<lambda>ok s. mapped Z s \<and> (ok \<longrightarrow> armed Z (s\<lparr>stopping_blocked := True\<rparr>)))"
  by (auto intro!: tripleI simp: block_stopping_signals_def run_oscall Let_def mapped_def tidy_def armed_def split: if_splits)

lemma restore_disarms:
  "triple (armed Z) (restore_signal_mask (recording h)) (\<lambda>ok s. if ok then mapped Z (s\<lparr>stopping_blocked := False\<rparr>) else armed Z s)"
  by (auto intro!: tripleI simp: restore_signal_mask_def run_oscall Let_def mapped_def tidy_def armed_def split: if_splits)

lemma frame_oscall: "keeps (\<lambda>s. (lock_fd s, maps s) = v) (oscall h q)"
  by (rule keepsI) (auto simp: oscall_def case_prod_beta)

lemma frame_zone:
  "keeps (\<lambda>s. (lock_fd s, maps s) = v) (emit_zone h z)" "keeps (\<lambda>s. (lock_fd s, maps s) = v) (release_zone h z)"
  unfolding emit_zone_def release_zone_def emit_button_def x_checked_button_def emit_motion_def
  by (cases z; simp; (rule frame_oscall sp_rules)+)+

lemma frame_evaluate: "keeps (\<lambda>s. (lock_fd s, maps s) = v) (poll_evaluate h r)"
  unfolding poll_evaluate_def poll_missed_def poll_held_def poll_candidate_def set_gest_def
  by (cases r; simp; (rule frame_zone sp_rules keeps_modify | simp)+)

lemma evaluate_mapped: "keeps (mapped g_active) (poll_evaluate (recording h) r)"
proof (rule keepsI)
  fix s s' a assume m: "mapped g_active s" and run: "run_state (poll_evaluate (recording h) r) s = (a, s')"
  have "(lock_fd s', maps s') = (lock_fd s, maps s)" using keepsD [OF frame_evaluate run refl] by simp
  then show "mapped g_active s'" using m keepsD [OF evaluate_tidy run] by (simp add: mapped_def)
qed

lemma armed_mapped: "armed Z s \<Longrightarrow> mapped Z s"
  by (simp add: armed_def mapped_def)

lemma mapped_fatal: "keeps (mapped Z) (modify (\<lambda>s. s\<lparr>fatal_error := a\<rparr>))" "keeps (mapped Z) (modify (\<lambda>s. s\<lparr>hardware_safe := a\<rparr>))"
  by (rule keeps_modify, simp add: mapped_def tidy_def)+

lemma mapped_neutral: "neutral q \<Longrightarrow> keeps (mapped Z) (oscall (recording h) q)"
  by (rule keepsI) (auto simp: run_oscall Let_def mapped_def tidy_def neutral_def)

lemma disarm:
  assumes "triple (mapped Z) m (\<lambda>_. mapped Z)"
  shows "triple (\<lambda>s. if ok then mapped Z (s\<lparr>stopping_blocked := False\<rparr>) else armed Z s)
    (if \<not> ok then do { set_fatal; ret v } else do { modify (\<lambda>s. s\<lparr>stopping_blocked := False\<rparr>); m }) (\<lambda>_. mapped Z)"
proof (cases ok)
  case True
  then show ?thesis using assms by (auto intro!: triple_bind [where R = "\<lambda>_. mapped Z"] triple_modify)
next
  case False
  then show ?thesis
    by (auto intro!: triple_bind [where R = "\<lambda>_. mapped Z"] triple_modify triple_ret simp: set_fatal_def armed_def mapped_def tidy_def)
qed

lemma body_mapped: "keeps (mapped g_active) (loop_body (recording h))"
proof -
  have rest: "triple (armed g_active) (restore_signal_mask (recording h) \<bind> (\<lambda>restored.
       if \<not> restored then do { set_fatal; ret False }
       else do {
         modify (\<lambda>s. s\<lparr>stopping_blocked := False\<rparr>);
         if pen_down \<and> r = ADC_FATAL_CLEAN then do { set_fatal; ret False }
         else if pen_down \<and> r = ADC_FATAL_DIRTY
         then do { modify (\<lambda>s. s\<lparr>hardware_safe := False\<rparr>); set_fatal; ret False }
         else poll_evaluate (recording h) (if pen_down \<and> r = ADC_SAMPLE_VALID then Some current else None) }))
       (\<lambda>_. mapped g_active)" for pen_down r current
    by (rule triple_bind [OF restore_disarms], rule disarm, unfold set_fatal_def, fold keeps_def)
      (rule sp_rules mapped_fatal evaluate_mapped)+
  have work: "triple (armed g_active) (do {
       pen_down \<leftarrow> read_pen (bus_of (recording h));
       (r, current) \<leftarrow> (if pen_down then read_adc (bus_of (recording h))
                       else ret (ADC_SAMPLE_INVALID, \<lparr>sample_x = 0, sample_y = 0\<rparr>));
       restored \<leftarrow> restore_signal_mask (recording h);
       if \<not> restored then do { set_fatal; ret False }
       else do {
         modify (\<lambda>s. s\<lparr>stopping_blocked := False\<rparr>);
         if pen_down \<and> r = ADC_FATAL_CLEAN then do { set_fatal; ret False }
         else if pen_down \<and> r = ADC_FATAL_DIRTY
         then do { modify (\<lambda>s. s\<lparr>hardware_safe := False\<rparr>); set_fatal; ret False }
         else poll_evaluate (recording h) (if pen_down \<and> r = ADC_SAMPLE_VALID then Some current else None) } })
       (\<lambda>_. mapped g_active)"
    apply (rule triple_keeps [OF armed_pen])
    apply (rule triple_keeps, (rule keeps_if armed_adc keeps_ret)+)
    apply (simp only: case_prod_beta, rule rest)
    done
  have fatal: "triple (mapped g_active) (do { set_fatal; ret False }) (\<lambda>_. mapped g_active)"
    unfolding set_fatal_def keeps_def [symmetric] by (rule sp_rules mapped_fatal)+
  show ?thesis
    unfolding loop_body_def keeps_def
    apply (rule triple_bind [OF block_arms])
    apply (rule triple_if)
    apply (rule triple_pre [OF fatal], simp)
    apply (rule triple_bind [where R = "\<lambda>_. armed g_active"], rule triple_modify, simp, rule work)
    done
qed

lemma loop_mapped: "polling (recording h) s s' \<Longrightarrow> mapped g_active s \<Longrightarrow> mapped g_active s'"
proof -
  have "keeps (mapped g_active) (loop_condition (recording h))"
    unfolding loop_condition_def by (rule sp_rules mapped_neutral | simp)+
  then show "polling (recording h) s s' \<Longrightarrow> mapped g_active s \<Longrightarrow> mapped g_active s'"
    using polling_keeps [OF _ body_mapped] by blast
qed

section \<open>Setting up\<close>

abbreviation idle :: "gesture \<Rightarrow> touch_zone" where
  "idle \<equiv> (\<lambda>_. TOUCH_NONE)"

definition closed :: "maps \<Rightarrow> bool" where
  "closed m \<longleftrightarrow> fd m < 0 \<and> \<not> pfc m \<and> \<not> cpg m \<and> \<not> adc m"

lemma framed_neutral:
  "neutral q \<Longrightarrow> (\<And>s d c. F (s\<lparr>dev := d, calls := c\<rparr>) = F s) \<Longrightarrow> keeps (\<lambda>s. tidy Z s \<and> F s) (oscall (recording h) q)"
  by (rule keepsI) (auto simp: run_oscall Let_def tidy_def neutral_def)

lemma framed_release:
  "(\<And>s d c. F (s\<lparr>dev := d, calls := c\<rparr>) = F s) \<Longrightarrow> keeps (\<lambda>s. tidy idle s \<and> F s) (oscall (recording h) (Fake_button False n))"
  by (rule keepsI) (auto simp: run_oscall Let_def tidy_def pressed_ok_def)

definition begun :: "('w \<times> event list) subpad \<Rightarrow> bool" where
  "begun s \<longleftrightarrow> tidy idle s \<and> lock_fd s < 0 \<and> \<not> connected s \<and> closed (maps s) \<and> \<not> stopping_blocked s"

definition linked :: "('w \<times> event list) subpad \<Rightarrow> bool" where
  "linked s \<longleftrightarrow> tidy idle s \<and> lock_fd s < 0 \<and> closed (maps s) \<and> \<not> stopping_blocked s"

definition unmapped :: "('w \<times> event list) subpad \<Rightarrow> bool" where
  "unmapped s \<longleftrightarrow> tidy idle s \<and> closed (maps s) \<and> \<not> stopping_blocked s"

lemma begun_neutral: "neutral q \<Longrightarrow> keeps begun (oscall (recording h) q)"
  unfolding begun_def by (rule framed_neutral) auto

lemma begun_checks:
  "keeps begun (configure_signals (recording h))" "keeps begun (experimental_driver_absent (recording h))"
proof -
  have "list_all neutral qs \<Longrightarrow> keeps begun (all_ok (recording h) qs)" for qs
    by (induction qs) (simp_all, (rule begun_neutral sp_rules | assumption | simp)+)
  then show "keeps begun (configure_signals (recording h))" by (simp add: configure_signals_def rep del: all_ok.simps)
  show "keeps begun (experimental_driver_absent (recording h))"
    unfolding experimental_driver_absent_def by (rule begun_neutral sp_rules | simp)+
qed

lemma accounts_more [simp]:
  "accounts (insert Framebuffer R - {Framebuffer}) l con m = accounts (R - {Framebuffer}) l con m"
  "accounts R l con m \<Longrightarrow> accounts (R - {Framebuffer}) l con m"
  by (auto simp: accounts_def)

lemma pressed_more [simp]:
  "pressed_ok (insert Framebuffer R) z = pressed_ok R z" "pressed_ok R z \<Longrightarrow> pressed_ok (R - A) z"
  "pressed_ok (insert Lock R) z = pressed_ok R z" "pressed_ok (insert Devmem R) z = pressed_ok R z"
  "pressed_ok (insert (Page p) R) z = pressed_ok R z" "pressed_ok (insert Connection R) z = pressed_ok R z"
  by (auto simp: pressed_ok_def)

lemma begun_hardware: "keeps begun (expected_hardware (recording h))"
  by (rule keepsI)
    (auto simp: expected_hardware_def run_oscall Let_def begun_def tidy_def split: if_splits)

lemma x_linked: "triple begun (open_x (recording h)) (\<lambda>_. linked)"
proof -
  have conn: "triple begun (oscall (recording h) Xcb_connect) (\<lambda>c s. linked (s\<lparr>connected := c \<noteq> 0\<rparr>))"
    by (rule tripleI) (auto simp: run_oscall Let_def begun_def linked_def tidy_def accounts_def)
  have neut: "neutral q \<Longrightarrow> keeps linked (oscall (recording h) q)" for q
    unfolding linked_def by (rule framed_neutral) auto
  have rel: "keeps linked (oscall (recording h) (Fake_button False n))" for n
    unfolding linked_def by (rule framed_release) auto
  have buttons: "keeps linked (release_buttons (recording h) ns)" for ns
    by (induction ns) (simp_all add: x_checked_button_def, (rule rel neut sp_rules | assumption | simp)+)
  show ?thesis
    unfolding open_x_def
    apply (rule triple_bind [OF conn])
    apply (rule triple_bind [where R = "\<lambda>_. linked"], rule triple_modify, simp)
    apply (fold keeps_def, (rule neut buttons sp_rules | simp)+)
    done
qed

lemma lock_taken: "triple linked (acquire_lock (recording h)) (\<lambda>l s. unmapped (s\<lparr>lock_fd := l\<rparr>))"
  by (rule tripleI)
    (auto simp: acquire_lock_def run_oscall Let_def linked_def unmapped_def tidy_def accounts_def split: if_splits)

lemma pages_differ [simp]:
  "PFC_PHYS \<noteq> CPG_PHYS" "PFC_PHYS \<noteq> ADC_PHYS" "CPG_PHYS \<noteq> ADC_PHYS" "CPG_PHYS \<noteq> PFC_PHYS" "ADC_PHYS \<noteq> PFC_PHYS" "ADC_PHYS \<noteq> CPG_PHYS"
  by (simp_all add: port_defs)

definition shut :: "bool \<Rightarrow> maps \<Rightarrow> ('w \<times> event list) subpad \<Rightarrow> bool" where
  "shut b m s \<longleftrightarrow> tidy idle (s\<lparr>maps := m\<rparr>) \<and> stopping_blocked s = b"

lemma shut_steps:
  "triple (shut b m) (onlyif (adc m) (do { _ \<leftarrow> oscall (recording h) (Munmap ADC_PHYS); ret () })) (\<lambda>_. shut b (m\<lparr>adc := False\<rparr>))"
  "triple (shut b m) (onlyif (cpg m) (do { _ \<leftarrow> oscall (recording h) (Munmap CPG_PHYS); ret () })) (\<lambda>_. shut b (m\<lparr>cpg := False\<rparr>))"
  "triple (shut b m) (onlyif (pfc m) (do { _ \<leftarrow> oscall (recording h) (Munmap PFC_PHYS); ret () })) (\<lambda>_. shut b (m\<lparr>pfc := False\<rparr>))"
  "triple (shut b m) (onlyif (fd m \<ge> 0) (do { _ \<leftarrow> oscall (recording h) Close_devmem; ret () })) (\<lambda>_. shut b (m\<lparr>fd := -1\<rparr>))"
proof -
  have eq: "\<not> adc m \<Longrightarrow> m\<lparr>adc := False\<rparr> = m" "\<not> cpg m \<Longrightarrow> m\<lparr>cpg := False\<rparr> = m" "\<not> pfc m \<Longrightarrow> m\<lparr>pfc := False\<rparr> = m"
    by (cases m; simp)+
  have neg: "fd m < 0 \<Longrightarrow> accounts R l con (m\<lparr>fd := -1\<rparr>) = accounts R l con m" for R l con
    by (simp add: accounts_def)
  have drop: "accounts R l con m \<Longrightarrow> accounts (R - {Page ADC_PHYS}) l con (m\<lparr>adc := False\<rparr>)"
    "accounts R l con m \<Longrightarrow> accounts (R - {Page CPG_PHYS}) l con (m\<lparr>cpg := False\<rparr>)"
    "accounts R l con m \<Longrightarrow> accounts (R - {Page PFC_PHYS}) l con (m\<lparr>pfc := False\<rparr>)"
    "accounts R l con m \<Longrightarrow> accounts (R - {Devmem}) l con (m\<lparr>fd := -1\<rparr>)" for R l con
    by (simp_all add: accounts_def)
  show "triple (shut b m) (onlyif (adc m) (do { _ \<leftarrow> oscall (recording h) (Munmap ADC_PHYS); ret () })) (\<lambda>_. shut b (m\<lparr>adc := False\<rparr>))"
    by (cases "adc m"; rule tripleI) (auto simp: run_oscall Let_def shut_def tidy_def drop eq)
  show "triple (shut b m) (onlyif (cpg m) (do { _ \<leftarrow> oscall (recording h) (Munmap CPG_PHYS); ret () })) (\<lambda>_. shut b (m\<lparr>cpg := False\<rparr>))"
    by (cases "cpg m"; rule tripleI) (auto simp: run_oscall Let_def shut_def tidy_def drop eq)
  show "triple (shut b m) (onlyif (pfc m) (do { _ \<leftarrow> oscall (recording h) (Munmap PFC_PHYS); ret () })) (\<lambda>_. shut b (m\<lparr>pfc := False\<rparr>))"
    by (cases "pfc m"; rule tripleI) (auto simp: run_oscall Let_def shut_def tidy_def drop eq)
  show "triple (shut b m) (onlyif (fd m \<ge> 0) (do { _ \<leftarrow> oscall (recording h) Close_devmem; ret () })) (\<lambda>_. shut b (m\<lparr>fd := -1\<rparr>))"
    by (cases "fd m \<ge> 0"; rule tripleI) (auto simp: run_oscall Let_def shut_def tidy_def drop neg)
qed

lemma maps_closed:
  "triple (\<lambda>s. tidy idle s \<and> stopping_blocked s = b) (close_maps (recording h))
     (\<lambda>_ s. tidy idle s \<and> closed (maps s) \<and> stopping_blocked s = b)"
  unfolding close_maps_def
proof (rule triple_gets)
  fix m
  note st = shut_steps(1) [of b m h] shut_steps(2) [of b "m\<lparr>adc := False\<rparr>" h] shut_steps(3) [of b "m\<lparr>adc := False, cpg := False\<rparr>" h]
    shut_steps(4) [of b "m\<lparr>adc := False, cpg := False, pfc := False\<rparr>" h]
  show "triple (\<lambda>s. (tidy idle s \<and> stopping_blocked s = b) \<and> maps s = m)
    (do { onlyif (adc m) (do { _ \<leftarrow> oscall (recording h) (Munmap ADC_PHYS); ret () });
     onlyif (cpg m) (do { _ \<leftarrow> oscall (recording h) (Munmap CPG_PHYS); ret () });
     onlyif (pfc m) (do { _ \<leftarrow> oscall (recording h) (Munmap PFC_PHYS); ret () });
     onlyif (fd m \<ge> 0) (do { _ \<leftarrow> oscall (recording h) Close_devmem; ret () });
     modify (\<lambda>s. s\<lparr>maps := \<lparr>fd = -1, pfc = False, cpg = False, adc = False\<rparr>\<rparr>) })
    (\<lambda>_ s. tidy idle s \<and> closed (maps s) \<and> stopping_blocked s = b)"
    apply (rule triple_pre [where P' = "shut b m"])
     apply (rule triple_bind [OF st(1)], rule triple_bind [OF st(2) [simplified]], rule triple_bind [OF st(3) [simplified]],
        rule triple_bind [OF st(4) [simplified]], rule triple_modify)
     apply (simp add: shut_def closed_def tidy_def accounts_def)
    apply (auto simp: shut_def tidy_def)
    done
qed

definition paged :: "bool \<Rightarrow> bool \<Rightarrow> bool \<Rightarrow> ('w \<times> event list) subpad \<Rightarrow> bool" where
  "paged a b c s \<longleftrightarrow> tidy idle s \<and> lock_fd s \<ge> 0 \<and> \<not> stopping_blocked s \<and> pfc (maps s) = a \<and> cpg (maps s) = b \<and> adc (maps s) = c"

lemma page_mapped:
  "triple (paged False b c) (map_page (recording h) pfc_update PFC_PHYS) (\<lambda>ok. paged ok b c)"
  "triple (paged a False c) (map_page (recording h) cpg_update CPG_PHYS) (\<lambda>ok. paged a ok c)"
  "triple (paged a b False) (map_page (recording h) adc_update ADC_PHYS) (\<lambda>ok. paged a b ok)"
  by (rule tripleI, auto simp: map_page_def run_oscall Let_def paged_def tidy_def accounts_def split: if_splits)+

lemma triple_both:
  assumes "triple P m (\<lambda>ok s. if ok then R s else Q False s)" and "triple R n Q"
  shows "triple P (both m n) Q"
  unfolding both_def
  by (rule triple_bind [OF assms(1)]) (use assms(2) in \<open>auto intro!: triple_if triple_ret\<close>)

lemma pages_mapped:
  "triple (paged False False False) (both (map_page (recording h) pfc_update PFC_PHYS)
     (both (map_page (recording h) cpg_update CPG_PHYS) (map_page (recording h) adc_update ADC_PHYS)))
     (\<lambda>ok s. if ok then mapped idle s \<and> \<not> stopping_blocked s else tidy idle s \<and> stopping_blocked s = False)"
  by (intro triple_both [where R = "paged True False False"] triple_both [where R = "paged True True False"]
      triple_post [OF page_mapped(1)] triple_post [OF page_mapped(2)] triple_post [OF page_mapped(3)])
    (auto simp: paged_def mapped_def split: if_splits)

lemma maps_opened:
  "triple (\<lambda>s. unmapped s \<and> lock_fd s \<ge> 0) (open_maps (recording h))
     (\<lambda>ok s. if ok then mapped idle s \<and> \<not> stopping_blocked s else unmapped s)"
proof -
  let ?I = "\<lambda>s. unmapped s \<and> lock_fd s \<ge> 0"
  have n: "neutral q \<Longrightarrow> keeps ?I (oscall (recording h) q)" for q
    unfolding unmapped_def conj_assoc by (rule framed_neutral) auto
  have start: "keeps ?I (modify (\<lambda>s. s\<lparr>maps := \<lparr>fd = -1, pfc = False, cpg = False, adc = False\<rparr>\<rparr>))"
    by (rule keeps_modify) (auto simp: unmapped_def tidy_def accounts_def closed_def)
  have dm: "triple ?I (oscall (recording h) Open_devmem)
      (\<lambda>f s. if f < 0 then unmapped (s\<lparr>maps := (maps s)\<lparr>fd := f\<rparr>\<rparr>) else paged False False False (s\<lparr>maps := (maps s)\<lparr>fd := f\<rparr>\<rparr>))"
    by (rule tripleI) (auto simp: run_oscall Let_def unmapped_def paged_def tidy_def accounts_def closed_def)
  show ?thesis
    unfolding open_maps_def
    apply (rule triple_keeps [OF start], rule triple_keeps, rule n, simp)
    apply (rule triple_if, rule triple_ret, simp)
    apply (rule triple_keeps, rule n, simp)
    apply (rule triple_if, rule triple_ret, simp)
    apply (rule triple_bind [OF dm])
    subgoal for _ _ _ f
      apply (rule triple_bind [where R = "\<lambda>_ s. if f < 0 then unmapped s else paged False False False s"], rule triple_modify, simp)
      apply (rule triple_if, rule triple_ret, simp)
      apply (rule triple_pre [where P' = "paged False False False"], rule triple_bind [OF pages_mapped], rule triple_if, rule triple_ret, simp)
       apply (simp only: if_False, rule triple_bind [OF maps_closed [where b = False]], rule triple_ret, simp add: unmapped_def, simp)
      done
    done
qed

definition setup_done :: "setup_exit \<Rightarrow> ('w \<times> event list) subpad \<Rightarrow> bool" where
  "setup_done e s = (case e of Return r \<Rightarrow> begun s | Finished \<Rightarrow> unmapped s | Close_mmio \<Rightarrow> tidy idle s | _ \<Rightarrow> mapped idle s)"

lemma protected_done: "triple (armed idle) (main_protected (recording h)) setup_done"
proof -
  have n: "keeps (armed idle) (experimental_driver_absent (recording h))"
    unfolding experimental_driver_absent_def
    by (rule keepsI) (auto simp: run_oscall Let_def armed_def tidy_def)
  have t: "armed idle s \<Longrightarrow> setup_done Close_mmio s" for s :: "('a \<times> event list) subpad"
    by (simp add: setup_done_def armed_def)
  have last: "triple (armed idle) (do {
           restored \<leftarrow> restore_signal_mask (recording h);
           if \<not> restored then do { set_fatal; ret Shutdown_hardware }
           else do { modify (\<lambda>s. s\<lparr>stopping_blocked := False\<rparr>); ret Loop } }) setup_done"
    by (rule triple_bind [OF restore_disarms])
      (auto intro!: tripleI simp: setup_done_def set_fatal_def armed_def mapped_def tidy_def split: if_splits)
  show ?thesis
    unfolding main_protected_def
    apply (rule triple_keeps [OF n], rule triple_if, rule triple_ret, erule t)
    apply (rule triple_keeps [OF armed_saving(1)], rule triple_keeps, rule armed_modify, simp)
    apply (rule triple_keeps [OF armed_saving(2)], rule triple_if)
    apply (rule triple_keeps [OF armed_saving(3)], rule triple_ret, erule t)
    apply (rule triple_keeps, rule armed_modify, simp)
    apply (rule triple_keeps [OF armed_rest], rule triple_if, rule triple_ret, erule t)
    apply (rule triple_keeps, rule armed_modify, simp, rule last)
    done
qed

lemma open_done: "triple begun (main_open (recording h)) setup_done"
proof -
  have fin: "linked s \<Longrightarrow> setup_done Finished s" "unmapped s \<Longrightarrow> setup_done Finished s"
    "mapped idle s \<Longrightarrow> setup_done Close_mmio s" for s :: "('a \<times> event list) subpad"
    by (simp_all add: setup_done_def linked_def unmapped_def mapped_def)
  show ?thesis
    unfolding main_open_def
    apply (rule triple_bind [OF x_linked], rule triple_if, rule triple_ret, erule fin)
    apply (rule triple_bind [OF lock_taken])
    apply (rule triple_bind [where R = "\<lambda>_ s. unmapped s \<and> lock_fd s = l" for l], rule triple_modify, simp)
    apply (rule triple_if, rule triple_ret, simp add: fin)
    apply (rule triple_bind, rule triple_pre [OF maps_opened], simp)
    apply (rule triple_if, rule triple_ret, simp add: fin)
    apply (rule triple_bind, rule triple_pre [OF block_arms [where Z = idle]], simp)
    apply (rule triple_if, rule triple_ret, simp add: fin)
    apply (rule triple_bind [OF _ protected_done], rule triple_modify, simp)
    done
qed

lemma setup_tidy: "triple begun (main_setup (recording h) args) setup_done"
proof -
  have r: "begun s \<Longrightarrow> setup_done (Return v) s" for s :: "('a \<times> event list) subpad" and v by (simp add: setup_done_def)
  show ?thesis
    unfolding main_setup_def
    apply (rule triple_if, rule triple_ret, erule r)
    apply (rule triple_if, rule triple_ret, erule r)
    apply (rule triple_keeps, rule begun_neutral, simp)
    apply (rule triple_keeps, (rule keeps_if keeps_ret keeps_both begun_hardware begun_checks)+)
    apply (rule triple_if, rule triple_ret, erule r)
    apply (rule triple_keeps, rule begun_checks)
    apply (rule triple_if, rule triple_ret, erule r, rule open_done)
    done
qed

section \<open>Giving back\<close>

lemma unblock_tidy: "keeps (tidy idle) (unblock (recording h))"
  by (rule keepsI) (auto simp: unblock_def restore_signal_mask_def run_oscall Let_def tidy_def split: if_splits)

definition given_back :: "('w \<times> event list) subpad \<Rightarrow> bool" where
  "given_back s \<longleftrightarrow> orderly (log s) \<and> held (log s) \<subseteq> {Masked}"

lemma finished_back: "triple (\<lambda>s. tidy idle s \<and> closed (maps s)) (finished (recording h)) (\<lambda>_. given_back)"
proof -
  have none: "accounts R l con m \<Longrightarrow> closed m \<Longrightarrow> pressed_ok R TOUCH_NONE \<Longrightarrow> R \<subseteq> {Masked, Lock, Connection}" for R l con m
  proof
    fix x assume "accounts R l con m" "closed m" "pressed_ok R TOUCH_NONE" "x \<in> R"
    then show "x \<in> {Masked, Lock, Connection}"
      by (cases x) (auto simp: accounts_def closed_def pressed_ok_def button_of_def pages_def)
  qed
  have ends: "accounts R l con m \<Longrightarrow> (Lock \<in> R \<longleftrightarrow> l \<ge> 0) \<and> (Connection \<in> R \<longleftrightarrow> con)" for R l con m
    by (simp add: accounts_def)
  show ?thesis
  proof (rule tripleI)
    fix s s' :: "('a \<times> event list) subpad" and a
    assume s: "tidy idle s \<and> closed (maps s)" and run: "run_state (finished (recording h)) s = (a, s')"
    then have sub: "held (log s) \<subseteq> {Masked, Lock, Connection}" and lc: "Lock \<in> held (log s) \<longleftrightarrow> lock_fd s \<ge> 0"
      "Connection \<in> held (log s) \<longleftrightarrow> connected s"
      using none ends unfolding tidy_def by blast+
    show "given_back s'"
      using run s sub lc
      by (auto simp: finished_def close_x_def run_oscall Let_def given_back_def tidy_def split: if_splits)
  qed
qed

lemma close_back: "triple (tidy idle) (exit_close (recording h)) (\<lambda>_. given_back)"
proof -
  have c: "triple (tidy idle) (close_maps (recording h)) (\<lambda>_ s. tidy idle s \<and> closed (maps s))"
    by (rule tripleI) (use tripleD [OF maps_closed _ conjI [OF _ refl]] in blast)
  show ?thesis
    unfolding exit_close_def close_mmio_def bind_assoc
    by (rule triple_keeps [OF unblock_tidy], rule triple_bind [OF c], rule finished_back)
qed

lemma mask_arms:
  "triple (mapped idle) (shutdown_mask (recording h)) (\<lambda>_ s. mapped idle s \<and> (hardware_safe s \<longrightarrow> armed idle s))"
  by (rule tripleI)
    (auto simp: shutdown_mask_def block_stopping_signals_def run_oscall Let_def mapped_def armed_def tidy_def split: if_splits)

lemma restore_tidy:
  "triple (\<lambda>s. mapped idle s \<and> (hardware_safe s \<longrightarrow> armed idle s)) (shutdown_restore (recording h)) (\<lambda>_. tidy idle)"
proof -
  have on: "triple (armed idle) (do {
       idle \<leftarrow> normal_rest (bus_of (recording h)) True;
       if \<not> idle then modify (\<lambda>s. s\<lparr>hardware_safe := False\<rparr>)
       else do {
         ok \<leftarrow> restore_pfc (bus_of (recording h));
         modify (\<lambda>s. s\<lparr>pfc_restored := ok\<rparr>);
         if \<not> ok then modify (\<lambda>s. s\<lparr>hardware_safe := False\<rparr>)
         else do {
           ok \<leftarrow> restore_adc_clock (bus_of (recording h));
           modify (\<lambda>s. s\<lparr>clock_restored := ok\<rparr>) } } }) (\<lambda>_. armed idle)"
    unfolding keeps_def [symmetric] by (rule armed_rest armed_saving armed_modify sp_rules | simp)+
  show ?thesis
    unfolding shutdown_restore_def onlyif_def
    apply (rule triple_gets)
    apply (rule triple_if)
     apply (rule triple_post [OF triple_pre [OF on]], simp, erule tidy_armed)
    apply (rule triple_ret, simp add: mapped_def)
    done
qed

lemma shutdown_tidy: "triple (mapped g_active) (shutdown_hardware (recording h)) (\<lambda>_. tidy idle)"
proof -
  have rel: "triple (\<lambda>s. mapped g_active s \<and> gest s = g)
      (onlyif (g_active g \<noteq> TOUCH_NONE) (do { _ \<leftarrow> release_zone (recording h) (g_active g); ret () })) (\<lambda>_. mapped idle)" for g
  proof (rule tripleI)
    fix s s' :: "('a \<times> event list) subpad" and a
    assume s: "mapped g_active s \<and> gest s = g"
      and run: "run_state (onlyif (g_active g \<noteq> TOUCH_NONE) (do { _ \<leftarrow> release_zone (recording h) (g_active g); ret () })) s = (a, s')"
    show "mapped idle s'"
    proof (cases "g_active g = TOUCH_NONE")
      case True
      then show ?thesis using s run by (auto simp: mapped_def tidy_def)
    next
      case False
      then obtain ok where r: "run_state (release_zone (recording h) (g_active g)) s = (ok, s')"
        using run by (auto split: prod.splits)
      have "(lock_fd s', maps s') = (lock_fd s, maps s)" using keepsD [OF frame_zone(2) r refl] by simp
      with tripleD [OF release_zone_frees r] s show ?thesis by (simp add: mapped_def)
    qed
  qed
  have on: "triple (mapped idle) (do { shutdown_mask (recording h); shutdown_restore (recording h); unblock (recording h) }) (\<lambda>_. tidy idle)"
    by (rule triple_bind [OF mask_arms], rule triple_bind [OF restore_tidy], rule unblock_tidy [unfolded keeps_def])
  have result: "triple (tidy idle) (gets id \<bind> (\<lambda>s. onlyif (hardware_safe s \<and> pfc_restored s \<and> clock_restored s \<and> \<not> fatal_error s)
       (modify (\<lambda>s. s\<lparr>exit_result := 0\<rparr>)))) (\<lambda>_. tidy idle)"
    unfolding keeps_def [symmetric] by (rule tidy_modify sp_rules | simp)+
  show ?thesis
    unfolding shutdown_hardware_def
    apply (rule triple_gets, rule triple_bind [OF rel], rule triple_keeps [OF keeps_gets])
    apply (rule triple_bind [OF _ result], unfold onlyif_def)
    apply (rule triple_if, rule on, rule triple_ret, simp add: mapped_def)
    done
qed

lemma idle_mapped: "mapped idle s \<Longrightarrow> mapped g_active s"
  by (auto simp: mapped_def tidy_def pressed_ok_def button_of_def)

lemma shutdown_exit_back: "triple (mapped g_active) (exit_shutdown (recording h)) (\<lambda>_. given_back)"
  unfolding exit_shutdown_def by (rule triple_bind [OF shutdown_tidy close_back])

lemma loop_exit_back: "triple (mapped g_active) (exit_loop (recording h)) (\<lambda>_. given_back)"
  unfolding exit_loop_def after_loop_def set_fatal_def
  by (rule triple_keeps [OF _ shutdown_exit_back]) (rule mapped_neutral mapped_fatal sp_rules | simp)+


lemmas record_defs = ram_defs recording_def

lemma recorded_run: "\<exists>s. subpad_main (recording ram_host) [] (subpad_start ((\<lambda>_. 0x08000155), [])) 0 s"
proof -
  let ?h = "recording ram_host" and ?s0 = "subpad_start ((\<lambda>_. 0x08000155) :: u32 \<Rightarrow> u32, []) "
  let ?s1 = "snd (run_state (main_setup ?h []) ?s0)"
  let ?s2 = "snd (run_state (loop_condition ?h) ?s1)"
  let ?s3 = "snd (run_state (exit_loop ?h) ?s2)"
  have 1: "fst (run_state (main_setup ?h []) ?s0) = Loop" by (simp add: run_defs record_defs rep)
  have 2: "fst (run_state (loop_condition ?h) ?s1) = False" by (simp add: loop_condition_def run_oscall Let_def ram_host_def)
  have 3: "exit_result ?s3 = 0" by (simp add: run_defs record_defs rep)
  have "subpad_main ?h [] ?s0 (exit_result ?s3) ?s3"
    by (rule main_loop [where ?s1.0 = ?s1 and ?s2.0 = ?s2]) (simp_all add: prod_eq_iff 1 2 poll_stop)
  then show ?thesis unfolding 3 by blast
qed


end
