(* ===== verification/Tool.thy ===== *)
theory Tool
  imports Exword_Commands
begin

text \<open>
  The command line of libexword: its state and the helpers of \<^verbatim>\<open>src/tools/libexword/src/util.c\<close>. The
  program runs over an arbitrary world: the device library answers through \<open>tool_ops\<close> (the
  functions of \<^verbatim>\<open>exword.c\<close>; every call is logged with its response) and so do the system calls on
  local files. A C string is the list of its bytes without the final zero; memory that a string
  function reads through a pointer is the list of bytes from there to the end of its block, and
  running off that end is \<open>Abort\<close>.
\<close>

section \<open>The world\<close>

datatype device_call =
    Connect u16 | Disconnect | Setpath bytes u8 | Get_file bytes | Send_file bytes bytes | Remove_file bytes bool
  | Get_model | Get_capacity | Sd_format | List_dir | Unlock_device | Lock_device | Cname bytes bytes
  | Cryptkey bytes bytes | Authchallenge bytes | Authinfo bytes bytes | Userid bytes

datatype file_kind = Regular | Directory | Other_kind

record 'w tool_ops =
  x_init :: "'w \<Rightarrow> 'w"                            \<comment> \<open>\<^verbatim>\<open>exword_init\<close>, with the disconnect callback registered\<close>
  x_set_debug :: "u8 \<Rightarrow> 'w \<Rightarrow> 'w"
  x_deinit :: "'w \<Rightarrow> 'w res"
  x_connect :: "u16 \<Rightarrow> 'w \<Rightarrow> (exword_error \<times> unit \<times> 'w) res"
  x_disconnect :: "'w \<Rightarrow> (exword_error \<times> unit \<times> 'w) res"
  x_setpath :: "bytes \<Rightarrow> u8 \<Rightarrow> 'w \<Rightarrow> (exword_error \<times> unit \<times> 'w) res"
  x_get_file :: "bytes \<Rightarrow> 'w \<Rightarrow> (exword_error \<times> (int \<times> bytes option) \<times> 'w) res"
  x_send_file :: "bytes \<Rightarrow> bytes \<Rightarrow> 'w \<Rightarrow> (exword_error \<times> unit \<times> 'w) res"
  x_remove_file :: "bytes \<Rightarrow> bool \<Rightarrow> 'w \<Rightarrow> (exword_error \<times> unit \<times> 'w) res"
  x_get_model :: "'w \<Rightarrow> (exword_error \<times> exword_model \<times> 'w) res"
  x_get_capacity :: "'w \<Rightarrow> (exword_error \<times> exword_capacity \<times> 'w) res"
  x_sd_format :: "'w \<Rightarrow> (exword_error \<times> unit \<times> 'w) res"
  x_list :: "'w \<Rightarrow> (exword_error \<times> exword_dirent list option \<times> 'w) res"
  x_unlock :: "'w \<Rightarrow> (exword_error \<times> unit \<times> 'w) res"
  x_lock :: "'w \<Rightarrow> (exword_error \<times> unit \<times> 'w) res"
  x_cname :: "bytes \<Rightarrow> bytes \<Rightarrow> 'w \<Rightarrow> (exword_error \<times> unit \<times> 'w) res"
  x_cryptkey :: "exword_cryptkey \<Rightarrow> 'w \<Rightarrow> (exword_error \<times> exword_cryptkey \<times> 'w) res"
  x_authchallenge :: "bytes \<Rightarrow> 'w \<Rightarrow> (exword_error \<times> unit \<times> 'w) res"
  x_authinfo :: "exword_authinfo \<Rightarrow> 'w \<Rightarrow> (exword_error \<times> exword_authinfo \<times> 'w) res"
  x_userid :: "bytes \<Rightarrow> 'w \<Rightarrow> (exword_error \<times> unit \<times> 'w) res"
  x_poll :: "'w \<Rightarrow> (u8 list \<times> 'w) res"           \<comment> \<open>\<^verbatim>\<open>exword_poll_disconnect\<close>: the reasons notified\<close>
  x_convert :: "string \<Rightarrow> bytes \<Rightarrow> bytes option res" \<comment> \<open>\<^verbatim>\<open>convert_to_locale\<close>, as a string\<close>
  x_xor_key :: "bytes \<Rightarrow> bytes res"               \<comment> \<open>\<^verbatim>\<open>get_xor_key\<close> of 16 bytes\<close>
  s_open :: "bytes \<Rightarrow> bool \<Rightarrow> 'w \<Rightarrow> int \<times> 'w"       \<comment> \<open>for writing or for reading\<close>
  s_fstat :: "int \<Rightarrow> 'w \<Rightarrow> (file_kind \<times> nat) option"
  s_read :: "int \<Rightarrow> nat \<Rightarrow> 'w \<Rightarrow> bytes option \<times> 'w"
  s_write :: "int \<Rightarrow> bytes \<Rightarrow> 'w \<Rightarrow> bool \<times> 'w"
  s_close :: "int \<Rightarrow> 'w \<Rightarrow> 'w"
  s_errno :: "'w \<Rightarrow> int"
  s_getenv :: "string \<Rightarrow> 'w \<Rightarrow> bytes option"
  s_mkdir :: "bytes \<Rightarrow> 'w \<Rightarrow> int \<times> 'w"
  s_stat :: "bytes \<Rightarrow> 'w \<Rightarrow> file_kind option"
  s_opendir :: "bytes \<Rightarrow> 'w \<Rightarrow> bytes list option"   \<comment> \<open>the names \<^verbatim>\<open>readdir\<close> will give\<close>
  help_short :: "bytes \<Rightarrow> bytes"                   \<comment> \<open>the texts of the command table\<close>
  help_long :: "bytes \<Rightarrow> bytes"

section \<open>The state\<close>

record 'w tool =
  world :: 'w
  device_log :: "(device_call \<times> exword_error) list"
  mode :: u16
  region :: u16
  running :: bool
  connected :: bool
  debug :: u8
  mkdir :: bool
  authenticated :: bool
  disconnect_event :: bool
  cwd :: "bytes option"
  dev_list :: "(bytes \<times> bytes) list"              \<comment> \<open>\<^verbatim>\<open>struct device_map\<close>: dev and root\<close>
  cmd_list :: "bytes list"
  printed :: bytes

type_synonym ('w, 'a) cmd = "'w tool \<Rightarrow> ('a \<times> 'w tool) res"

definition tret :: "'a \<Rightarrow> ('w, 'a) cmd" where
  "tret a s = Inr (a, s)"

definition tbind :: "('w, 'a) cmd \<Rightarrow> ('a \<Rightarrow> ('w, 'b) cmd) \<Rightarrow> ('w, 'b) cmd" where
  "tbind m f s = rbind (m s) (\<lambda>(a, s1). f a s1)"

definition tseq :: "('w, 'a) cmd \<Rightarrow> ('w, 'b) cmd \<Rightarrow> ('w, 'b) cmd" where
  "tseq m n = tbind m (\<lambda>_. n)"

definition tget :: "('w tool \<Rightarrow> 'a) \<Rightarrow> ('w, 'a) cmd" where
  "tget f s = Inr (f s, s)"

definition tput :: "('w tool \<Rightarrow> 'w tool) \<Rightarrow> ('w, unit) cmd" where
  "tput f s = Inr ((), f s)"

definition tlift :: "'a res \<Rightarrow> ('w, 'a) cmd" where
  "tlift r s = rbind r (\<lambda>a. Inr (a, s))"

definition twhen :: "bool \<Rightarrow> ('w, unit) cmd \<Rightarrow> ('w, unit) cmd" where
  "twhen c m = (if c then m else tret ())"

definition say :: "bytes \<Rightarrow> ('w, unit) cmd" where
  "say b = tput (\<lambda>s. s\<lparr>printed := printed s @ b\<rparr>)"

text \<open>A call of the device library and one of the system.\<close>

definition dcall :: "device_call \<Rightarrow> ('w \<Rightarrow> (exword_error \<times> 'r \<times> 'w) res) \<Rightarrow> ('w, exword_error \<times> 'r) cmd" where
  "dcall c f s = rbind (f (world s)) (\<lambda>(e, r, w). Inr ((e, r), s\<lparr>world := w, device_log := device_log s @ [(c, e)]\<rparr>))"

definition scall :: "('w \<Rightarrow> 'a \<times> 'w) \<Rightarrow> ('w, 'a) cmd" where
  "scall f s = (case f (world s) of (a, w) \<Rightarrow> Inr (a, s\<lparr>world := w\<rparr>))"

text \<open>What the device library is asked, without the output argument where there is none.\<close>

definition ask :: "device_call \<Rightarrow> ('w \<Rightarrow> (exword_error \<times> unit \<times> 'w) res) \<Rightarrow> ('w, exword_error) cmd" where
  "ask c f = tbind (dcall c f) (\<lambda>(e, _). tret e)"

section \<open>Strings in memory\<close>

fun strcmp_eq :: "bytes \<Rightarrow> bytes \<Rightarrow> bool res" where
  "strcmp_eq [] t = Inl Abort"
| "strcmp_eq (b # bs) [] = Inr (b = 0)"
| "strcmp_eq (b # bs) (c # cs) = (if b = c then strcmp_eq bs cs else Inr False)"

fun strncmp_eq :: "nat \<Rightarrow> bytes \<Rightarrow> bytes \<Rightarrow> bool res" where
  "strncmp_eq 0 bs t = Inr True"
| "strncmp_eq (Suc n) [] t = Inl Abort"
| "strncmp_eq (Suc n) (b # bs) [] = Inr (b = 0)"
| "strncmp_eq (Suc n) (b # bs) (c # cs) = (if b = c then strncmp_eq n bs cs else Inr False)"

text \<open>The first occurrence in memory, before the end of the string.\<close>

fun strchr_at :: "u8 \<Rightarrow> bytes \<Rightarrow> nat option res" where
  "strchr_at c [] = Inl Abort"
| "strchr_at c (b # bs) = (if b = c then Inr (Some 0) else if b = 0 then Inr None
     else rbind (strchr_at c bs) (\<lambda>r. Inr (map_option Suc r)))"

fun prefix_at :: "bytes \<Rightarrow> bytes \<Rightarrow> bool res" where
  "prefix_at [] bs = Inr True"
| "prefix_at (c # cs) [] = Inl Abort"
| "prefix_at (c # cs) (b # bs) = (if b = c then prefix_at cs bs else Inr False)"

fun strstr_at :: "bytes \<Rightarrow> bytes \<Rightarrow> nat option res" where
  "strstr_at t [] = Inl Abort"
| "strstr_at t (b # bs) = rbind (prefix_at t (b # bs)) (\<lambda>p. if p then Inr (Some 0) else if b = 0 then Inr None
     else rbind (strstr_at t bs) (\<lambda>r. Inr (map_option Suc r)))"

text \<open>The last occurrence in a string.\<close>

fun strrchr :: "u8 \<Rightarrow> bytes \<Rightarrow> nat option" where
  "strrchr c [] = None"
| "strrchr c (b # bs) = (case strrchr c bs of Some i \<Rightarrow> Some (Suc i) | None \<Rightarrow> if b = c then Some 0 else None)"

definition strncpy :: "nat \<Rightarrow> bytes \<Rightarrow> bytes" where
  "strncpy n t = take n t @ replicate (n - length t) 0"

section \<open>Helpers of the command line\<close>

text \<open>Names of devices: \<^verbatim>\<open>name\<close> is the directory entry, whose second byte and last byte are looked at.
  Without an S or an I there the first three bytes of the device stay zero, so it is the empty
  string.\<close>

definition dev_of :: "bytes \<Rightarrow> (bytes \<times> bytes) res" where
  "dev_of name =
     (if length name = 0 then Inl Abort
      else let second = (if length name = 1 then 0 else name ! 1);
               dev = (if second = of_char (CHR ''I'') then ascii ''drv'' @ [last name]
                      else if second = of_char (CHR ''S'') then ascii ''crd'' @ [last name] else [])
           in Inr (dev, of_char (CHR 0x5C) # name))"

definition cstr :: "bytes \<Rightarrow> bytes res" where
  "cstr bs = rbind (strlen bs) (\<lambda>n. Inr (take n bs))"

fun dev_list_scan :: "exword_dirent list \<Rightarrow> ('w, unit) cmd" where
  "dev_list_scan [] = tret ()"
| "dev_list_scan (e # es) =
     tbind (tlift (rbind (cstr (d_name e)) dev_of)) (\<lambda>d.
     tseq (tput (\<lambda>s. s\<lparr>dev_list := dev_list s @ [d]\<rparr>)) (dev_list_scan es))"

definition dev_list_clear :: "('w, unit) cmd" where
  "dev_list_clear = tput (\<lambda>s. s\<lparr>dev_list := []\<rparr>)"

definition dev_list_search :: "(bytes \<times> bytes) list \<Rightarrow> bytes \<Rightarrow> bytes option" where
  "dev_list_search ds dev = map_of ds dev"

definition PATH_MAX :: nat where "PATH_MAX = 4096"

definition get_data_dir :: "'w tool_ops \<Rightarrow> ('w, bytes option) cmd" where
  "get_data_dir ops = tget (\<lambda>s.
     let w = world s
     in case s_getenv ops ''EXWORD_DATA_DIR'' w of
          Some d \<Rightarrow> if length d \<ge> PATH_MAX then None else Some d
        | None \<Rightarrow>
          (case s_getenv ops ''XDG_DATA_HOME'' w of
             Some d \<Rightarrow> if length d + 7 \<ge> PATH_MAX then None else Some (d @ ascii ''/exword'')
           | None \<Rightarrow>
             (case s_getenv ops ''HOME'' w of None \<Rightarrow> None
              | Some d \<Rightarrow> if length d + 20 \<ge> PATH_MAX then None else Some (d @ ascii ''/.local/share/exword''))))"

definition region_id2locale :: "u16 \<Rightarrow> string" where
  "region_id2locale r = (if r = 0x20 then ''SHIFT_JIS'' else if r = 0x60 then ''GB2312''
     else if r = 0x40 then ''EUC-KR'' else ''UTF-8'')"

definition region_id2str :: "u16 \<Rightarrow> bytes option" where
  "region_id2str r = map_of [(0x20, ascii ''ja''), (0x60, ascii ''cn''), (0x68, ascii ''in''), (0x40, ascii ''kr''),
     (0x48, ascii ''it''), (0x80, ascii ''de''), (0xa0, ascii ''es''), (0xc0, ascii ''fr''), (0xe0, ascii ''ru'')] r"

definition EXWORD_MODE_LIBRARY :: u16 where "EXWORD_MODE_LIBRARY = 0x0100"

definition mode_id2str :: "u16 \<Rightarrow> bytes option" where
  "mode_id2str m = map_of [(EXWORD_MODE_TEXT, ascii ''text''), (EXWORD_MODE_CD, ascii ''cd''),
     (EXWORD_MODE_LIBRARY, ascii ''library'')] m"

definition valid_sfn_chars :: "bool list" where
  "valid_sfn_chars = replicate 33 False @ [True, False] @ replicate 7 True @ [False, False, True, True, False, False] @
     replicate 10 True @ replicate 6 False @ replicate 27 True @ replicate 3 False @ replicate 30 True @
     [False, True, True, False] @ replicate 128 True"

definition sfn_char :: "u8 \<Rightarrow> bool" where
  "sfn_char b = valid_sfn_chars ! unat b"

definition is_valid_sfn :: "bytes \<Rightarrow> bool" where
  "is_valid_sfn filename =
     (let (base, ext) = (case strrchr (of_char (CHR ''.'')) filename of None \<Rightarrow> (filename, [])
                         | Some i \<Rightarrow> (take i filename, drop (Suc i) filename))
      in length base \<le> 8 \<and> length base \<noteq> 0 \<and> length ext \<le> 3 \<and> list_all sfn_char base \<and> list_all sfn_char ext)"

text \<open>The parts end at the first \<^verbatim>\<open>NULL\<close>; the base is not checked.\<close>

fun path_parts :: "bytes \<Rightarrow> bytes option list \<Rightarrow> bytes" where
  "path_parts sep [] = []"
| "path_parts sep (None # ps) = []"
| "path_parts sep (Some p # ps) = sep @ p @ path_parts sep ps"

definition mkpath :: "bytes \<Rightarrow> bytes option \<Rightarrow> bytes option list \<Rightarrow> bytes res" where
  "mkpath sep base parts = rbind (need base) (\<lambda>b. Inr (b @ path_parts sep parts))"

definition SLASH :: bytes where "SLASH = ascii ''/''"
definition BACKSLASH :: bytes where "BACKSLASH = [0x5C]"

text \<open>The buffer is as large as the file and zero beyond what was read.\<close>

definition read_file :: "'w tool_ops \<Rightarrow> bytes \<Rightarrow> ('w, bytes option \<times> nat) cmd" where
  "read_file ops filename =
     tbind (scall (s_open ops filename False)) (\<lambda>fd.
     if fd < 0 then tret (None, 0)
     else tbind (tget (\<lambda>s. case s_fstat ops fd (world s) of None \<Rightarrow> 0 | Some (_, n) \<Rightarrow> n)) (\<lambda>size.
          tbind (scall (s_read ops fd size)) (\<lambda>r.
          tseq (tput (\<lambda>s. s\<lparr>world := s_close ops fd (world s)\<rparr>))
            (case r of None \<Rightarrow> tret (None, 0)
             | Some bs \<Rightarrow> tret (Some (bs @ replicate (size - length bs) 0), length bs)))))"

definition write_file :: "'w tool_ops \<Rightarrow> bytes \<Rightarrow> bytes \<Rightarrow> ('w, bool) cmd" where
  "write_file ops filename bs =
     tbind (scall (s_open ops filename True)) (\<lambda>fd.
     if fd < 0 then tret False
     else tbind (scall (s_write ops fd bs)) (\<lambda>ok.
          tseq (tput (\<lambda>s. s\<lparr>world := s_close ops fd (world s)\<rparr>)) (tret ok)))"

end
