(* ===== verification/Tool_Content.thy ===== *)
theory Tool_Content
  imports Tool
begin

text \<open>
  Add-on content of the device (\<^verbatim>\<open>src/tools/libexword/src/content.c\<close>): looking up, installing,
  removing and decrypting dictionaries and audio, and the users' keys. A sum of responses is
  zero exactly when each of them is, so \<^verbatim>\<open>rsp |= ...\<close> becomes the conjunction of the successes.
\<close>

section \<open>Looking up content\<close>

definition key1 :: bytes where
  "key1 = [0x42, 0x72, 0xb7, 0xb5, 0x9e, 0x30, 0x83, 0x45, 0xc3, 0xb5, 0x41, 0x53, 0x71, 0xc4, 0x95, 0x00]"

definition admini_list :: "bytes list" where
  "admini_list = map ascii [''admini.inf'', ''adminikr.inf'', ''adminicn.inf'', ''adminiin.inf'', ''adminiit.inf'',
     ''adminide.inf'', ''adminies.inf'', ''adminifr.inf'', ''adminiru.inf'', ''sound.inf'']"

text \<open>The index of the first list the device has, with its contents; \<open>None\<close> stands for -1.\<close>

fun read_admini :: "'w tool_ops \<Rightarrow> bytes list \<Rightarrow> nat \<Rightarrow> ('w, (nat \<times> int \<times> bytes) option) cmd" where
  "read_admini ops [] i = tret None"
| "read_admini ops (n # ns) i =
     tbind (dcall (Get_file n) (x_get_file ops n)) (\<lambda>(rsp, len, buf).
     if rsp = EXWORD_SUCCESS \<and> len > 0 then tbind (tlift (need buf)) (\<lambda>b. tret (Some (i, len, b)))
     else read_admini ops ns (Suc i))"

text \<open>The records have 180 bytes; \<open>left\<close> counts the bytes of the file from here on.\<close>

function find_entry :: "nat \<Rightarrow> bytes \<Rightarrow> bytes \<Rightarrow> bytes option res" where
  "find_entry left buf cid =
     (if left = 0 then Inr None
      else rbind (strncmp_eq 32 buf cid) (\<lambda>eq.
           if eq then (if 180 \<le> length buf then Inr (Some (take 180 buf)) else Inl Abort)
           else find_entry (left - 180) (drop 180 buf) cid))"
  by pat_completeness auto
termination by (relation "measure (\<lambda>(l, _, _). l)") auto

declare find_entry.simps [simp del]

definition find_content :: "'w tool_ops \<Rightarrow> bytes \<Rightarrow> bytes \<Rightarrow> ('w, bytes option) cmd" where
  "find_content ops root cid =
     tseq (ask (Setpath root 0) (x_setpath ops root 0))
     (tbind (read_admini ops admini_list 0) (\<lambda>r.
      case r of None \<Rightarrow> tret None
      | Some (_, len, buf) \<Rightarrow> tlift (find_entry (nat len) buf cid)))"

definition info_id :: "bytes \<Rightarrow> bytes" where "info_id a = take 32 a"
definition info_key :: "bytes \<Rightarrow> bytes" where "info_key a = take 16 (drop 32 a)"
definition info_name :: "bytes \<Rightarrow> bytes" where "info_name a = drop 48 a"

section \<open>Transferring files\<close>

definition encrypted_ext :: "bytes \<Rightarrow> bool" where
  "encrypted_ext filename =
     (case strrchr (of_char (CHR ''.'')) filename of None \<Rightarrow> False
      | Some i \<Rightarrow> drop i filename \<in> set (map ascii [''.txt'', ''.bmp'', ''.htm'', ''.TXT'', ''.BMP'', ''.HTM'']))"

definition upload_file :: "'w tool_ops \<Rightarrow> bytes \<Rightarrow> bytes \<Rightarrow> bytes \<Rightarrow> ('w, bool) cmd" where
  "upload_file ops dir name key =
     tbind (tlift (mkpath SLASH (Some dir) [Some name])) (\<lambda>filename.
     tbind (read_file ops filename) (\<lambda>(buf, length).
     case buf of None \<Rightarrow> tret False
     | Some b \<Rightarrow>
       let d = (if encrypted_ext filename then crypt_data (take length b) key else take length b)
       in tbind (ask (Send_file name d) (x_send_file ops name d)) (\<lambda>rsp. tret (rsp = EXWORD_SUCCESS))))"

text \<open>Writing a negative number of bytes, or from \<^verbatim>\<open>NULL\<close>, fails after the file was created.\<close>

definition failing_write :: "'w tool_ops \<Rightarrow> bytes \<Rightarrow> ('w, bool) cmd" where
  "failing_write ops filename =
     tbind (scall (s_open ops filename True)) (\<lambda>fd.
     if fd < 0 then tret False else tseq (tput (\<lambda>s. s\<lparr>world := s_close ops fd (world s)\<rparr>)) (tret False))"

definition download_file :: "'w tool_ops \<Rightarrow> bytes \<Rightarrow> bytes \<Rightarrow> bytes \<Rightarrow> ('w, bool) cmd" where
  "download_file ops dir name key =
     tbind (tlift (mkpath SLASH (Some dir) [Some name])) (\<lambda>filename.
     tbind (dcall (Get_file name) (x_get_file ops name)) (\<lambda>(rsp, len, buf).
     if rsp \<noteq> EXWORD_SUCCESS then tret False
     else if len < 0 then failing_write ops filename
     else case buf of
            None \<Rightarrow> if len = 0 then write_file ops filename []
                    else if encrypted_ext filename then tlift (Inl Abort) else failing_write ops filename
          | Some b \<Rightarrow> write_file ops filename (if encrypted_ext filename then crypt_data b key else b)))"

fun sum_sizes :: "'w tool_ops \<Rightarrow> bytes \<Rightarrow> bytes list \<Rightarrow> ('w, nat) cmd" where
  "sum_sizes ops dir [] = tret 0"
| "sum_sizes ops dir (n # ns) =
     tbind (tlift (mkpath SLASH (Some dir) [Some n])) (\<lambda>filename.
     tbind (scall (s_open ops filename False)) (\<lambda>fd.
     tbind (if fd < 0 then tret 0
            else tbind (tget (\<lambda>s. case s_fstat ops fd (world s) of Some (Regular, n) \<Rightarrow> n | _ \<Rightarrow> 0)) (\<lambda>size.
                 tseq (tput (\<lambda>s. s\<lparr>world := s_close ops fd (world s)\<rparr>)) (tret size))) (\<lambda>size.
     tbind (sum_sizes ops dir ns) (\<lambda>rest. tret (size + rest)))))"

text \<open>The sum of the sizes is kept in an \<^verbatim>\<open>int\<close>; \<open>None\<close> stands for -1.\<close>

definition get_size :: "'w tool_ops \<Rightarrow> bytes \<Rightarrow> ('w, int option) cmd" where
  "get_size ops dir =
     tbind (tget (\<lambda>s. s_opendir ops dir (world s))) (\<lambda>d.
     case d of None \<Rightarrow> tret None
     | Some names \<Rightarrow> tbind (sum_sizes ops dir names) (\<lambda>n. tret (Some (sint (of_nat n :: u32)))))"

text \<open>The buffers are not terminated: a search that finds nothing runs off their end.\<close>

definition get_cd_name :: "'w tool_ops \<Rightarrow> bytes \<Rightarrow> ('w, bytes option) cmd" where
  "get_cd_name ops dir =
     tbind (tlift (mkpath SLASH (Some dir) [Some (ascii ''playlist.htm'')])) (\<lambda>filename.
     tbind (read_file ops filename) (\<lambda>(buf, length).
     case buf of None \<Rightarrow> tret None
     | Some b \<Rightarrow> tbind (tlift (strchr_at 0x0d b)) (\<lambda>r. tret (map_option (\<lambda>i. take i b) r))))"

definition get_dict_name :: "'w tool_ops \<Rightarrow> bytes \<Rightarrow> ('w, bytes option) cmd" where
  "get_dict_name ops dir =
     tbind (tlift (mkpath SLASH (Some dir) [Some (ascii ''diction.htm'')])) (\<lambda>filename.
     tbind (read_file ops filename) (\<lambda>(buf, length).
     case buf of None \<Rightarrow> tret None
     | Some b \<Rightarrow>
       tbind (tlift (strstr_at (ascii ''<title>'') b)) (\<lambda>start.
       tbind (tlift (strstr_at (ascii ''</title>'') b)) (\<lambda>end'.
       tret (case (start, end') of
               (Some i, Some j) \<Rightarrow> if j < i + 7 then None else Some (take (j - (i + 7)) (drop (i + 7) b))
             | _ \<Rightarrow> None)))))"

section \<open>The users' keys\<close>

text \<open>The file is a sequence of records: the length of the name with its zero, the name, twenty
  bytes. The length is a signed character. The result is the offset of the record found.\<close>

fun user_loop :: "nat \<Rightarrow> bytes \<Rightarrow> bytes \<Rightarrow> nat \<Rightarrow> int \<Rightarrow> nat option res" where
  "user_loop 0 name buf len i = Inl Out_of_fuel"
| "user_loop (Suc k) name buf len i =
     (if i \<ge> int len then Inr None
      else if i < 0 \<or> nat i \<ge> length buf then Inl Abort
      else rbind (strcmp_eq (drop (nat i + 1) buf) name) (\<lambda>eq.
           if eq then Inr (Some (nat i))
           else user_loop k name buf len (i + 21 + sint (buf ! nat i))))"

definition find_user :: "bytes \<Rightarrow> bytes \<Rightarrow> nat \<Rightarrow> nat option res" where
  "find_user name buf len = user_loop (Suc len) name buf len 0"

definition users_file :: "'w tool_ops \<Rightarrow> ('w, bytes option) cmd" where
  "users_file ops =
     tbind (get_data_dir ops) (\<lambda>dir.
     case dir of None \<Rightarrow> tret None
     | Some d \<Rightarrow> tseq (scall (s_mkdir ops d)) (tbind (tlift (mkpath SLASH (Some d) [Some (ascii ''users.dat'')])) (\<lambda>f. tret (Some f))))"

definition ENOENT :: int where "ENOENT = 2"

definition user_record :: "bytes \<Rightarrow> bytes \<Rightarrow> bytes" where
  "user_record name key = of_nat (length name + 1) # name @ [0] @ take 20 key"

definition save_user_key :: "'w tool_ops \<Rightarrow> bytes \<Rightarrow> bytes \<Rightarrow> ('w, bool) cmd" where
  "save_user_key ops name key =
     tbind (users_file ops) (\<lambda>f.
     case f of None \<Rightarrow> tret False
     | Some file \<Rightarrow>
       tbind (read_file ops file) (\<lambda>(buf, length).
       tbind (tget (\<lambda>s. s_errno ops (world s))) (\<lambda>errno.
       if buf = None \<and> errno \<noteq> ENOENT then tret False
       else let b = (case buf of None \<Rightarrow> [] | Some b \<Rightarrow> b)
            in tbind (tlift (find_user name b length)) (\<lambda>r.
               if r \<noteq> None then tret True
               else write_file ops file (take length b @ user_record name key)))))"

definition load_user_key :: "'w tool_ops \<Rightarrow> bytes \<Rightarrow> ('w, bytes option) cmd" where
  "load_user_key ops name =
     tbind (users_file ops) (\<lambda>f.
     case f of None \<Rightarrow> tret None
     | Some file \<Rightarrow>
       tbind (read_file ops file) (\<lambda>(buf, length).
       case buf of None \<Rightarrow> tret None
       | Some b \<Rightarrow>
         tbind (tlift (find_user name b length)) (\<lambda>r.
         case r of None \<Rightarrow> tret None
         | Some i \<Rightarrow>
           let at = int i + 1 + sint (b ! i)
           in if at < 0 \<or> nat at + 20 > List.length b then tlift (Inl Abort)
              else tret (Some (take 20 (drop (nat at) b))))))"

section \<open>Decrypting\<close>

definition content_dir :: "'w tool_ops \<Rightarrow> bytes option list \<Rightarrow> ('w, bytes) cmd" where
  "content_dir ops parts =
     tbind (get_data_dir ops) (\<lambda>d.
     tbind (tget (\<lambda>s. (mode s, region s))) (\<lambda>(m, r).
     tlift (mkpath SLASH d ((if m = EXWORD_MODE_CD then Some (ascii ''sound'') else region_id2str r) # parts))))"

definition device_path :: "bytes \<Rightarrow> bytes \<Rightarrow> ('w, bytes) cmd" where
  "device_path root cid =
     tbind (tget mode) (\<lambda>m.
     tlift (mkpath BACKSLASH (Some root)
       (Some cid # (if m = EXWORD_MODE_CD then [] else [Some (ascii ''_CONTENT'')]))))"

definition skipped_ext :: "bytes \<Rightarrow> bool" where
  "skipped_ext name =
     (case strrchr (of_char (CHR ''.'')) name of None \<Rightarrow> False
      | Some i \<Rightarrow> drop i name = ascii ''.cjs'' \<or> drop i name = ascii ''.CJS'')"

fun decrypt_files :: "'w tool_ops \<Rightarrow> bytes \<Rightarrow> bytes \<Rightarrow> exword_dirent list \<Rightarrow> ('w, unit) cmd" where
  "decrypt_files ops dir key [] = tret ()"
| "decrypt_files ops dir key (e # es) =
     tseq (if d_flags e = 0
           then tbind (tlift (cstr (d_name e))) (\<lambda>name.
                if skipped_ext name then tret ()
                else tseq (say (ascii ''Decrypting '' @ name @ ascii ''...''))
                     (tbind (download_file ops dir name key) (\<lambda>ok. say (ascii (if ok then ''Done\<newline>'' else ''Failed\<newline>'')))))
           else tret ())
     (decrypt_files ops dir key es)"

definition content_decrypt :: "'w tool_ops \<Rightarrow> bytes \<Rightarrow> bytes \<Rightarrow> ('w, bool) cmd" where
  "content_decrypt ops root cid =
     tbind (content_dir ops [Some cid]) (\<lambda>dir.
     tbind (device_path root cid) (\<lambda>path.
     tbind (find_content ops root cid) (\<lambda>info.
     tbind (case info of None \<Rightarrow> tret False
            | Some _ \<Rightarrow> tbind (ask (Setpath path 0) (x_setpath ops path 0)) (\<lambda>e. tret (e = EXWORD_SUCCESS))) (\<lambda>found.
     if \<not> found then tseq (say (ascii ''No content with id '' @ cid @ ascii '' installed.\<newline>'')) (tret False)
     else tbind (tget (\<lambda>s. s_stat ops dir (world s))) (\<lambda>st.
          if st = Some Directory then tseq (say (ascii ''Local version of '' @ cid @ ascii '' already exists\<newline>'')) (tret False)
          else tbind (scall (s_mkdir ops dir)) (\<lambda>r.
               if r < 0 then tseq (say (ascii ''Failed to create local directory '' @ cid @ ascii ''\<newline>'')) (tret False)
               else tbind (tlift (rbind (need info) (\<lambda>a. x_xor_key ops (info_key a)))) (\<lambda>key.
                    tbind (dcall List_dir (x_list ops)) (\<lambda>(_, entries).
                    tseq (decrypt_files ops dir key (case entries of None \<Rightarrow> [] | Some es \<Rightarrow> es))
                    (tseq (tlift (exword_free_list entries)) (tret True))))))))))"

section \<open>Authentication\<close>

definition SD_00 :: bytes where "SD_00 = ascii ''_SD_00''"
definition SD_01 :: bytes where "SD_01 = ascii ''_SD_01''"
definition INTERNAL_PATH :: bytes where "INTERNAL_PATH = 0x5C # ascii ''_INTERNAL_00''"
definition SD_PATH :: bytes where "SD_PATH = 0x5C # ascii ''_SD_00''"
definition ALL_F :: bytes where "ALL_F = replicate 16 0x46"

text \<open>Both cards are answered on the path of the first one. The challenge block of the
  authentication request is not initialised: \<open>junk\<close>.\<close>

fun auth_cards :: "'w tool_ops \<Rightarrow> bytes \<Rightarrow> exword_authinfo \<Rightarrow> exword_dirent list \<Rightarrow> ('w, unit) cmd" where
  "auth_cards ops challenge ai [] = tret ()"
| "auth_cards ops challenge ai (e # es) =
     tbind (tlift (cstr (d_name e))) (\<lambda>name.
     if name = SD_00 \<or> name = SD_01
     then tseq (ask (Setpath SD_PATH 0) (x_setpath ops SD_PATH 0))
          (tbind (ask (Authchallenge challenge) (x_authchallenge ops challenge)) (\<lambda>rsp.
           tbind (if rsp \<noteq> EXWORD_SUCCESS then tbind (dcall (Authinfo (ai_blk1 ai) (ai_blk2 ai)) (x_authinfo ops ai)) (\<lambda>(_, ai1). tret ai1)
                  else tret ai) (\<lambda>ai1. auth_cards ops challenge ai1 es)))
     else auth_cards ops challenge ai es)"

definition content_auth :: "'w tool_ops \<Rightarrow> bytes \<Rightarrow> bytes \<Rightarrow> bytes option \<Rightarrow> ('w, bool) cmd" where
  "content_auth ops junk user auth =
     tbind (case auth of None \<Rightarrow> load_user_key ops user | Some k \<Rightarrow> tret (Some (take 20 k))) (\<lambda>c.
     case c of None \<Rightarrow> tret False
     | Some challenge \<Rightarrow>
       let ai = \<lparr>ai_blk1 = ALL_F, ai_blk2 = strncpy 24 user, ai_challenge = junk\<rparr>
       in tseq (ask (Setpath INTERNAL_PATH 0) (x_setpath ops INTERNAL_PATH 0))
          (tbind (ask (Authchallenge challenge) (x_authchallenge ops challenge)) (\<lambda>rsp.
           if rsp \<noteq> EXWORD_SUCCESS then tret False
           else tseq (ask (Setpath [] 0) (x_setpath ops [] 0))
                (tbind (dcall List_dir (x_list ops)) (\<lambda>(_, entries).
                 tseq (auth_cards ops challenge ai (case entries of None \<Rightarrow> [] | Some es \<Rightarrow> es))
                 (tseq (tlift (exword_free_list entries))
                 (tseq (ask (Userid (strncpy 16 user)) (x_userid ops (strncpy 16 user @ take 1 (drop 16 junk)))) (tret True))))))))"

definition hex_digit :: "nat \<Rightarrow> u8" where
  "hex_digit d = of_nat (if d < 10 then 48 + d else 55 + d)"

definition hex_bytes :: "bytes \<Rightarrow> bytes" where
  "hex_bytes bs = concat (map (\<lambda>b. [hex_digit (unat b div 16), hex_digit (unat b mod 16)]) bs)"

definition content_reset :: "'w tool_ops \<Rightarrow> bytes \<Rightarrow> bytes \<Rightarrow> ('w, bool) cmd" where
  "content_reset ops junk user =
     (let info = \<lparr>ai_blk1 = ALL_F, ai_blk2 = strncpy 24 user, ai_challenge = replicate 20 0\<rparr>;
          u = strncpy 16 user @ [0]
      in tseq (ask (Setpath INTERNAL_PATH 0) (x_setpath ops INTERNAL_PATH 0))
         (tbind (dcall (Authinfo (ai_blk1 info) (ai_blk2 info)) (x_authinfo ops info)) (\<lambda>(_, info1).
          tseq (ask (Userid (strncpy 16 user)) (x_userid ops u))
          (tseq (say (ascii ''User '' @ take 16 user @ ascii '' with key 0x'' @ hex_bytes (ai_challenge info1) @ ascii '' registered\<newline>''))
          (tbind (save_user_key ops user (ai_challenge info1)) (\<lambda>saved.
           tseq (twhen (\<not> saved) (say (ascii ''Warning - Failed to save authentication info!\<newline>'')))
           (content_auth ops junk user (Some (ai_challenge info1)))))))))"

section \<open>Listing\<close>

fun decimal :: "nat \<Rightarrow> bytes" where
  "decimal n = (if n < 10 then [of_nat (48 + n)] else decimal (n div 10) @ [of_nat (48 + n mod 10)])"

declare decimal.simps [simp del]

definition list_line :: "'w tool_ops \<Rightarrow> nat \<Rightarrow> bytes \<Rightarrow> bytes \<Rightarrow> ('w, unit) cmd" where
  "list_line ops i name cid =
     tbind (tget region) (\<lambda>r.
     tbind (tlift (x_convert ops (region_id2locale r) (name @ [0]))) (\<lambda>locale.
     say (decimal i @ ascii ''. '' @ (case locale of None \<Rightarrow> name | Some l \<Rightarrow> l) @ ascii '' ('' @ cid @ ascii '')\<newline>'')))"

fun list_records :: "'w tool_ops \<Rightarrow> bytes \<Rightarrow> nat \<Rightarrow> nat \<Rightarrow> ('w, unit) cmd" where
  "list_records ops buf i 0 = tret ()"
| "list_records ops buf i (Suc n) =
     tbind (tlift (cstr (drop (180 * i + 48) buf))) (\<lambda>name.
     tbind (tlift (cstr (drop (180 * i) buf))) (\<lambda>cid.
     tseq (list_line ops i name cid) (list_records ops buf (Suc i) n)))"

definition content_list_remote :: "'w tool_ops \<Rightarrow> bytes \<Rightarrow> ('w, bool) cmd" where
  "content_list_remote ops root =
     tseq (ask (Setpath root 0) (x_setpath ops root 0))
     (tbind (read_admini ops admini_list 0) (\<lambda>r.
      tseq (case r of None \<Rightarrow> tret () | Some (_, len, buf) \<Rightarrow> list_records ops buf 0 (nat (len div 180)))
      (tret True)))"

fun list_local :: "'w tool_ops \<Rightarrow> bytes \<Rightarrow> nat \<Rightarrow> bytes list \<Rightarrow> ('w, unit) cmd" where
  "list_local ops d i [] = tret ()"
| "list_local ops d i (n # ns) =
     (if take 1 n = ascii ''.'' then list_local ops d i ns
      else tbind (tlift (mkpath SLASH (Some d) [Some n])) (\<lambda>path.
           tbind (tget mode) (\<lambda>m.
           tbind (if m = EXWORD_MODE_CD then get_cd_name ops path else get_dict_name ops path) (\<lambda>name.
           case name of None \<Rightarrow> list_local ops d i ns
           | Some nm \<Rightarrow> tbind (tlift (cstr (nm @ [0]))) (\<lambda>nm'.
                        tseq (list_line ops i nm' n) (list_local ops d (Suc i) ns))))))"

definition content_list_local :: "'w tool_ops \<Rightarrow> ('w, bool) cmd" where
  "content_list_local ops =
     tbind (content_dir ops []) (\<lambda>d.
     tbind (tget (\<lambda>s. s_opendir ops d (world s))) (\<lambda>names.
     case names of None \<Rightarrow> tret False
     | Some ns \<Rightarrow> tseq (list_local ops d 0 ns) (tret True)))"

section \<open>Removing and installing\<close>

text \<open>How a sixteen-byte content key is spread over the blocks of the request.\<close>

definition content_key :: "bytes \<Rightarrow> exword_cryptkey" where
  "content_key k = \<lparr>ck_blk1 = take 2 k @ replicate 8 0 @ take 2 (drop 10 k) @ replicate 4 0,
     ck_blk2 = take 8 (drop 2 k) @ take 4 (drop 12 k), ck_key = replicate 16 0, ck_xorkey = replicate 16 0\<rparr>"

text \<open>Unlocking, naming and keying: all three requests are made, whatever the first ones say.\<close>

definition open_content :: "'w tool_ops \<Rightarrow> bytes \<Rightarrow> bytes \<Rightarrow> exword_cryptkey \<Rightarrow> ('w, bool \<times> exword_cryptkey) cmd" where
  "open_content ops name cid ck =
     tbind (ask Unlock_device (x_unlock ops)) (\<lambda>e1.
     tbind (ask (Cname name cid) (x_cname ops name cid)) (\<lambda>e2.
     tbind (dcall (Cryptkey (ck_blk1 ck) (ck_blk2 ck)) (x_cryptkey ops ck)) (\<lambda>(e3, ck1).
     tret (e1 = EXWORD_SUCCESS \<and> e2 = EXWORD_SUCCESS \<and> e3 = EXWORD_SUCCESS, ck1))))"

definition content_remove :: "'w tool_ops \<Rightarrow> bytes \<Rightarrow> bytes \<Rightarrow> ('w, bool) cmd" where
  "content_remove ops root cid =
     tbind (find_content ops root cid) (\<lambda>info.
     case info of None \<Rightarrow> tseq (say (ascii ''No content with id '' @ cid @ ascii '' installed.\<newline>'')) (tret False)
     | Some a \<Rightarrow>
       tseq (say (ascii ''Removing '' @ cid @ ascii ''...''))
       (tbind (tlift (cstr (info_name a))) (\<lambda>name.
        tbind (open_content ops name cid (content_key (info_key a))) (\<lambda>(ok, _).
        tbind (if ok then tbind (ask (Remove_file cid False) (x_remove_file ops cid False)) (\<lambda>e. tret (e = EXWORD_SUCCESS))
               else tret False) (\<lambda>removed.
        tbind (ask Lock_device (x_lock ops)) (\<lambda>e.
        let done' = (removed \<and> e = EXWORD_SUCCESS)
        in tseq (say (ascii (if done' then ''Done\<newline>'' else ''Failed\<newline>''))) (tret done')))))))"

fun install_files :: "'w tool_ops \<Rightarrow> bytes \<Rightarrow> bytes \<Rightarrow> bytes list \<Rightarrow> ('w, unit) cmd" where
  "install_files ops dir key [] = tret ()"
| "install_files ops dir key (n # ns) =
     tseq (if \<not> is_valid_sfn n then tret ()
           else tbind (tlift (mkpath SLASH (Some dir) [Some n])) (\<lambda>filename.
                tbind (tget (\<lambda>s. s_stat ops filename (world s))) (\<lambda>st.
                twhen (st = Some Regular)
                  (tseq (say (ascii ''Transferring '' @ n @ ascii ''...''))
                   (tbind (upload_file ops dir n key) (\<lambda>ok. say (ascii (if ok then ''Done\<newline>'' else ''Failed\<newline>'')))))))) 
     (install_files ops dir key ns)"

definition too_large :: "int option \<Rightarrow> exword_error \<Rightarrow> exword_capacity \<Rightarrow> bool" where
  "too_large sz rsp cap \<longleftrightarrow> rsp \<noteq> EXWORD_SUCCESS \<or>
     (case sz of None \<Rightarrow> True | Some n \<Rightarrow> (word_of_int n :: u64) \<ge> exword_capacity.free cap \<or> n < 0)"

definition install_content :: "'w tool_ops \<Rightarrow> bytes \<Rightarrow> bytes \<Rightarrow> bytes \<Rightarrow> bytes list \<Rightarrow> bytes \<Rightarrow> ('w, bool) cmd" where
  "install_content ops root cid dir names name =
     tbind (open_content ops name cid (content_key key1)) (\<lambda>(ok, ck).
     tseq (twhen ok
       (tbind (device_path root cid) (\<lambda>path.
        tseq (ask (Setpath path 1) (x_setpath ops path 1))
        (tseq (install_files ops dir (ck_xorkey ck) names)
        (tbind (tget mode) (\<lambda>m.
         twhen (m = EXWORD_MODE_LIBRARY)
           (tbind (tlift (mkpath BACKSLASH (Some root) [Some cid, Some (ascii ''_USER'')])) (\<lambda>p.
            tbind (ask (Setpath p 1) (x_setpath ops p 1)) (\<lambda>_. tret ())))))))))
     (tbind (ask Lock_device (x_lock ops)) (\<lambda>e. tret (ok \<and> e = EXWORD_SUCCESS))))"

definition content_install :: "'w tool_ops \<Rightarrow> bytes \<Rightarrow> bytes \<Rightarrow> ('w, bool) cmd" where
  "content_install ops root cid =
     tbind (find_content ops root cid) (\<lambda>info.
     if info \<noteq> None then tseq (say (ascii ''Content with id '' @ cid @ ascii '' already installed.\<newline>'')) (tret False)
     else tbind (content_dir ops [Some cid]) (\<lambda>dir.
          tbind (tget (\<lambda>s. s_opendir ops dir (world s))) (\<lambda>d.
          case d of None \<Rightarrow> tseq (say (ascii ''Can find dictionary directory '' @ cid @ ascii ''.\<newline>'')) (tret False)
          | Some names \<Rightarrow>
            tbind (get_size ops dir) (\<lambda>size.
            tbind (dcall Get_capacity (x_get_capacity ops)) (\<lambda>(rsp, cap).
            if too_large size rsp cap then tseq (say (ascii ''Insufficent space on device.\<newline>'')) (tret False)
            else tbind (tget mode) (\<lambda>m.
                 tbind (if m = EXWORD_MODE_CD then get_cd_name ops dir else get_dict_name ops dir) (\<lambda>name.
                 case name of None \<Rightarrow> tseq (say (cid @ ascii '': can't determine name\<newline>'')) (tret False)
                 | Some nm \<Rightarrow> tbind (tlift (cstr (nm @ [0]))) (\<lambda>nm'. install_content ops root cid dir names nm'))))))))"

end
