(* ===== verification/Tool_Main.thy ===== *)
theory Tool_Main
  imports Tool_Content
begin

text \<open>
  The interactive program (\<^verbatim>\<open>src/tools/libexword/src/main.c\<close>): the argument queue, every command,
  their dispatch by name and mode, and the loop that reads lines and polls the device.
\<close>

section \<open>Arguments\<close>

definition blank :: "u8 \<Rightarrow> bool" where "blank b \<longleftrightarrow> b = 0x20 \<or> b = 0x09"

fun tokens :: "bytes \<Rightarrow> bytes \<Rightarrow> bytes list" where
  "tokens cur [] = (if cur = [] then [] else [cur])"
| "tokens cur (b # bs) = (if blank b then (if cur = [] then tokens [] bs else cur # tokens [] bs) else tokens (cur @ [b]) bs)"

definition queue_arg :: "bytes option \<Rightarrow> ('w, unit) cmd" where
  "queue_arg arg = tbind (tlift (need arg)) (\<lambda>a. tput (\<lambda>s. s\<lparr>cmd_list := cmd_list s @ [a]\<rparr>))"

definition peek_arg :: "('w, bytes option) cmd" where
  "peek_arg = tget (\<lambda>s. case cmd_list s of [] \<Rightarrow> None | a # _ \<Rightarrow> Some a)"

definition dequeue_arg :: "('w, unit) cmd" where
  "dequeue_arg = tput (\<lambda>s. s\<lparr>cmd_list := tl (cmd_list s)\<rparr>)"

definition clear_arg_list :: "('w, unit) cmd" where
  "clear_arg_list = tput (\<lambda>s. s\<lparr>cmd_list := []\<rparr>)"

fun queue_all :: "bytes list \<Rightarrow> ('w, unit) cmd" where
  "queue_all [] = tret ()"
| "queue_all (t # ts) = tseq (queue_arg (Some t)) (queue_all ts)"

text \<open>The first token is queued before it is known to exist.\<close>

definition fill_arg_list :: "bytes \<Rightarrow> ('w, unit) cmd" where
  "fill_arg_list line =
     (case tokens [] line of [] \<Rightarrow> queue_arg None | t # ts \<Rightarrow> tseq (queue_arg (Some t)) (queue_all ts))"

section \<open>Paths and connections\<close>

definition is_sep :: "u8 \<Rightarrow> bool" where "is_sep b \<longleftrightarrow> b = 0x2F \<or> b = 0x5C"

definition to_backslash :: "u8 \<Rightarrow> u8" where "to_backslash b = (if b = 0x2F then 0x5C else b)"

fun normalise :: "bytes \<Rightarrow> bytes" where
  "normalise [] = []"
| "normalise [a] = [to_backslash a]"
| "normalise (a # b # r) = (if is_sep a \<and> is_sep b then normalise (b # r) else to_backslash a # normalise (b # r))"

definition set_device_path :: "'w tool_ops \<Rightarrow> bytes \<Rightarrow> bytes \<Rightarrow> u8 \<Rightarrow> ('w, exword_error) cmd" where
  "set_device_path ops device pathname mk =
     tbind (tlift (mkpath BACKSLASH (Some device) [Some pathname])) (\<lambda>p.
     let path = normalise p
     in tbind (ask (Setpath path mk) (x_setpath ops path mk)) (\<lambda>rsp.
        tseq (twhen (rsp = EXWORD_SUCCESS) (tput (\<lambda>s. s\<lparr>cwd := Some path\<rparr>))) (tret rsp)))"

definition disconnect_notify :: "u8 \<Rightarrow> ('w, unit) cmd" where
  "disconnect_notify reason =
     (if reason = EXWORD_DISCONNECT_UNPLUGGED \<or> reason = EXWORD_DISCONNECT_ERROR
      then tput (\<lambda>s. s\<lparr>disconnect_event := True\<rparr>) else tret ())"

definition disconnect_tool :: "'w tool_ops \<Rightarrow> ('w, unit) cmd" where
  "disconnect_tool ops =
     tbind (tget connected) (\<lambda>c.
     if \<not> c then tret ()
     else tbind (tget disconnect_event) (\<lambda>ev.
          tseq (twhen (\<not> ev) (say (ascii ''disconnecting...done\<newline>'')))
          (tseq (ask Disconnect (x_disconnect ops))
          (tput (\<lambda>s. s\<lparr>cwd := None, mode := 0, region := 0, connected := False, authenticated := False,
                        disconnect_event := False, dev_list := []\<rparr>)))))"

definition quit :: "'w tool_ops \<Rightarrow> ('w, unit) cmd" where
  "quit ops = tseq (tput (\<lambda>s. s\<lparr>running := False\<rparr>)) (disconnect_tool ops)"

definition parse_mode :: "bytes \<Rightarrow> u16 option" where
  "parse_mode m = map_of [(ascii ''library'', EXWORD_MODE_LIBRARY), (ascii ''text'', EXWORD_MODE_TEXT), (ascii ''cd'', EXWORD_MODE_CD)] m"

definition parse_region :: "bytes \<Rightarrow> u16 option" where
  "parse_region r = map_of [(ascii ''ja'', 0x20), (ascii ''kr'', 0x40), (ascii ''cn'', 0x60), (ascii ''in'', 0x68),
     (ascii ''it'', 0x48), (ascii ''de'', 0x80), (ascii ''es'', 0xa0), (ascii ''fr'', 0xc0), (ascii ''ru'', 0xe0)] r"

text \<open>The options of a connection from the arguments; \<open>None\<close> after an error message.\<close>

definition connect_options :: "('w, u16 option) cmd" where
  "connect_options =
     tbind peek_arg (\<lambda>md.
     case md of None \<Rightarrow> tret (Some (EXWORD_MODE_LIBRARY OR 0x20))
     | Some m \<Rightarrow>
       tseq (twhen (parse_mode m = None) (say (ascii ''Unknown 'mode': '' @ m @ ascii ''\<newline>'')))
       (tseq dequeue_arg
       (tbind peek_arg (\<lambda>rg.
        case parse_mode m of None \<Rightarrow> tret None
        | Some mo \<Rightarrow>
          (case rg of None \<Rightarrow> tret (Some (mo OR 0x20))
           | Some r \<Rightarrow>
             (case parse_region r of
                None \<Rightarrow> tseq (say (ascii ''Unknown 'region': '' @ r @ ascii ''\<newline>'')) (tret None)
              | Some re \<Rightarrow> tret (Some (mo OR re))))))))"

definition scan_devices :: "'w tool_ops \<Rightarrow> ('w, unit) cmd" where
  "scan_devices ops =
     tbind (ask (Setpath [] 0) (x_setpath ops [] 0)) (\<lambda>e.
     twhen (e = EXWORD_SUCCESS)
       (tbind (dcall List_dir (x_list ops)) (\<lambda>(e2, entries).
        twhen (e2 = EXWORD_SUCCESS)
          (tbind (tlift (need entries)) (\<lambda>es. tseq (dev_list_scan es) (tlift (exword_free_list entries)))))))"

definition connect_tool :: "'w tool_ops \<Rightarrow> ('w, unit) cmd" where
  "connect_tool ops =
     tbind (tget connected) (\<lambda>c.
     if c then tret ()
     else tbind connect_options (\<lambda>opt.
          case opt of None \<Rightarrow> tret ()
          | Some options \<Rightarrow>
            tseq (say (ascii ''connecting to device...''))
            (tbind (ask (Connect options) (x_connect ops options)) (\<lambda>e.
             if e \<noteq> EXWORD_SUCCESS then say (ascii ''device not found\<newline>'')
             else tseq (scan_devices ops)
                  (tseq (set_device_path ops INTERNAL_PATH SLASH 2)
                  (tseq (tput (\<lambda>s. s\<lparr>connected := True, mode := options AND 0xff00, region := options AND 0x00ff\<rparr>))
                  (say (ascii ''done\<newline>''))))))))"

section \<open>Simple commands\<close>

definition if_connected :: "('w, unit) cmd \<Rightarrow> ('w, unit) cmd" where
  "if_connected m = tbind (tget connected) (\<lambda>c. if c then m else tret ())"

definition say_error :: "exword_error \<Rightarrow> ('w, unit) cmd" where
  "say_error e = say (ascii (exword_error_to_string e) @ ascii ''\<newline>'')"

text \<open>-1 from the file helpers is an unknown error.\<close>

definition file_error :: "bool \<Rightarrow> exword_error" where
  "file_error ok = (if ok then EXWORD_SUCCESS else EXWORD_ERROR_OTHER)"

fun until_zero :: "bytes \<Rightarrow> bytes" where
  "until_zero [] = []"
| "until_zero (b # bs) = (if b = 0 then [] else b # until_zero bs)"

definition cap_text :: "u16 \<Rightarrow> bytes" where
  "cap_text caps = concat (map (\<lambda>(c, t). if caps AND c \<noteq> 0 then ascii t else [])
     [(CAP_ST, ''ST ''), (CAP_T, ''T ''), (CAP_SW, ''SW ''), (CAP_P, ''P ''), (CAP_F, ''F ''), (CAP_C, ''C ''), (CAP_C2, ''C''), (CAP_C3, ''C'')])"

definition model :: "'w tool_ops \<Rightarrow> ('w, unit) cmd" where
  "model ops = if_connected (
     tbind (dcall Get_model (x_get_model ops)) (\<lambda>(rsp, m).
     if rsp = EXWORD_SUCCESS
     then tseq (say (ascii ''Model: '' @ until_zero (m_model m) @ ascii ''\<newline>Sub: '' @ until_zero (m_sub_model m) @ ascii ''\<newline>''))
          (tseq (twhen (m_capabilities m AND CAP_EXT \<noteq> 0) (say (ascii ''Extended: '' @ until_zero (m_ext_model m) @ ascii ''\<newline>'')))
          (twhen (m_capabilities m AND NOT CAP_EXT \<noteq> 0) (say (ascii ''Capabilities: '' @ cap_text (m_capabilities m) @ ascii ''\<newline>''))))
     else say_error rsp))"

definition capacity :: "'w tool_ops \<Rightarrow> ('w, unit) cmd" where
  "capacity ops = if_connected (
     tbind (dcall Get_capacity (x_get_capacity ops)) (\<lambda>(rsp, c).
     if rsp = EXWORD_SUCCESS
     then say (ascii ''Capacity: '' @ decimal (unat (total c)) @ ascii '' / '' @ decimal (unat (exword_capacity.free c)) @ ascii ''\<newline>'')
     else say_error rsp))"

definition format :: "'w tool_ops \<Rightarrow> ('w, unit) cmd" where
  "format ops = if_connected (
     tseq (say (ascii ''Formatting SD Card...'')) (tbind (ask Sd_format (x_sd_format ops)) say_error))"

text \<open>The last component of a path, without trailing separators.\<close>

definition basename :: "bytes \<Rightarrow> bytes" where
  "basename p =
     (if p = [] then ascii ''.''
      else let q = rev (dropWhile (\<lambda>b. b = 0x2F) (rev p))
           in if q = [] then ascii ''/'' else rev (takeWhile (\<lambda>b. b \<noteq> 0x2F) (rev q)))"

definition send_command :: "'w tool_ops \<Rightarrow> ('w, unit) cmd" where
  "send_command ops = if_connected (
     tbind peek_arg (\<lambda>f.
     case f of None \<Rightarrow> say (ascii ''No file specified\<newline>'')
     | Some name \<Rightarrow>
       tseq (say (ascii ''uploading...''))
       (tbind (read_file ops name) (\<lambda>(buf, len).
        case buf of None \<Rightarrow> say_error (file_error False)
        | Some b \<Rightarrow> tbind (ask (Send_file (basename name) (take len b)) (x_send_file ops (basename name) (take len b))) say_error))))"

definition get_command :: "'w tool_ops \<Rightarrow> ('w, unit) cmd" where
  "get_command ops = if_connected (
     tbind peek_arg (\<lambda>f.
     case f of None \<Rightarrow> say (ascii ''No file specified\<newline>'')
     | Some name \<Rightarrow>
       tseq (say (ascii ''downloading...''))
       (tbind (dcall (Get_file (basename name)) (x_get_file ops (basename name))) (\<lambda>(rsp, len, buf).
        if rsp \<noteq> EXWORD_SUCCESS then say_error rsp
        else tbind (if len = 0 then write_file ops name []
                    else if len < 0 \<or> buf = None then failing_write ops name
                    else write_file ops name (case buf of None \<Rightarrow> [] | Some b \<Rightarrow> b)) (\<lambda>ok. say_error (file_error ok))))))"

definition delete_command :: "'w tool_ops \<Rightarrow> ('w, unit) cmd" where
  "delete_command ops = if_connected (
     tbind peek_arg (\<lambda>f.
     case f of None \<Rightarrow> say (ascii ''No file specified\<newline>'')
     | Some name \<Rightarrow>
       tseq (say (ascii ''deleting file...''))
       (tbind (if take 1 name = ascii ''*'' then ask (Remove_file (drop 1 name) True) (x_remove_file ops (drop 1 name) True)
               else ask (Remove_file name False) (x_remove_file ops name False)) say_error)))"

definition entry_line :: "'w tool_ops \<Rightarrow> exword_dirent \<Rightarrow> ('w, unit) cmd" where
  "entry_line ops e =
     tbind (if d_flags e AND 2 \<noteq> 0
            then tbind (tlift (x_convert ops ''UTF-16BE'' (d_name e))) (\<lambda>n. tbind (tlift (need n)) (\<lambda>name. tret (ascii ''*'' @ name)))
            else tlift (cstr (d_name e))) (\<lambda>name.
     say (if d_flags e AND 1 \<noteq> 0 then ascii ''<'' @ name @ ascii ''>\<newline>'' else name @ ascii ''\<newline>''))"

fun entry_lines :: "'w tool_ops \<Rightarrow> exword_dirent list \<Rightarrow> ('w, unit) cmd" where
  "entry_lines ops [] = tret ()"
| "entry_lines ops (e # es) = tseq (entry_line ops e) (entry_lines ops es)"

definition list_command :: "'w tool_ops \<Rightarrow> ('w, unit) cmd" where
  "list_command ops = if_connected (
     tbind (dcall List_dir (x_list ops)) (\<lambda>(rsp, entries).
     tseq (twhen (rsp = EXWORD_SUCCESS)
       (tseq (entry_lines ops (case entries of None \<Rightarrow> [] | Some es \<Rightarrow> es)) (tlift (exword_free_list entries))))
     (say_error rsp)))"

section \<open>Content commands\<close>

definition is_hex :: "u8 \<Rightarrow> bool" where
  "is_hex b \<longleftrightarrow> (0x30 \<le> b \<and> b \<le> 0x39) \<or> (0x41 \<le> b \<and> b \<le> 0x46) \<or> (0x61 \<le> b \<and> b \<le> 0x66)"

definition hex_value :: "u8 \<Rightarrow> u8" where
  "hex_value b = (if b \<ge> 97 then b - 87 else if b \<ge> 65 then b - 55 else b - 48)"

text \<open>\<^verbatim>\<open>sscanf(arg, "0x%40[a-fA-F0-9]", authkey)\<close>: the digits, unless there are none.\<close>

definition scan_authkey :: "bytes \<Rightarrow> bytes option" where
  "scan_authkey arg =
     (let ds = take 40 (takeWhile is_hex (drop 2 arg))
      in if take 2 arg = ascii ''0x'' \<and> ds \<noteq> [] then Some ds else None)"

fun decode_hex :: "bytes \<Rightarrow> bytes" where
  "decode_hex (a # b # r) = (push_bit 4 (hex_value a) OR hex_value b) # decode_hex r"
| "decode_hex _ = []"

text \<open>\<^verbatim>\<open>sscanf(buffer, "%s\n", user)\<close> on a block that need not be terminated.\<close>

definition space :: "u8 \<Rightarrow> bool" where "space b \<longleftrightarrow> b \<in> {0x20, 0x09, 0x0a, 0x0b, 0x0c, 0x0d}"

fun scan_token :: "bytes \<Rightarrow> bytes res" where
  "scan_token [] = Inl Abort"
| "scan_token (b # bs) = (if b = 0 \<or> space b then Inr [] else rbind (scan_token bs) (\<lambda>t. Inr (b # t)))"

fun scan_word :: "bytes \<Rightarrow> bytes res" where
  "scan_word [] = Inl Abort"
| "scan_word (b # bs) = (if space b then scan_word bs else scan_token (b # bs))"

definition auth_user :: "'w tool_ops \<Rightarrow> ('w, bytes option) cmd" where
  "auth_user ops =
     tbind peek_arg (\<lambda>a.
     case a of
       Some u \<Rightarrow> tseq dequeue_arg (tret (Some u))
     | None \<Rightarrow>
       tbind (dcall (Get_file (ascii ''user.inf'')) (x_get_file ops (ascii ''user.inf''))) (\<lambda>(rsp, len, buf).
       if rsp = EXWORD_SUCCESS then tbind (tlift (rbind (need buf) scan_word)) (\<lambda>u. tret (Some u))
       else tseq (say (ascii ''No username specified.\<newline>'')) (tret None)))"

definition try_auth :: "'w tool_ops \<Rightarrow> bytes \<Rightarrow> bytes \<Rightarrow> bytes option \<Rightarrow> ('w, unit) cmd" where
  "try_auth ops junk user key =
     tbind (content_auth ops junk user key) (\<lambda>ok.
     if ok then tseq (tput (\<lambda>s. s\<lparr>authenticated := True\<rparr>)) (say (ascii ''Authentication sucessful.\<newline>''))
     else say (ascii ''Authentication failed.\<newline>''))"

definition auth_command :: "'w tool_ops \<Rightarrow> bytes \<Rightarrow> ('w, unit) cmd" where
  "auth_command ops junk =
     tbind (auth_user ops) (\<lambda>u.
     case u of None \<Rightarrow> tret ()
     | Some user \<Rightarrow>
       tbind peek_arg (\<lambda>k.
       case k of None \<Rightarrow> try_auth ops junk user None
       | Some arg \<Rightarrow>
         (case scan_authkey arg of
            None \<Rightarrow> say (ascii ''Invalid character in authkey.\<newline>'')
          | Some ds \<Rightarrow>
            if length ds \<noteq> 40 then say (ascii ''Authkey wrong length. Must be 20 bytes.\<newline>'')
            else try_auth ops junk user (Some (decode_hex ds)))))"

definition reset_command :: "'w tool_ops \<Rightarrow> bytes \<Rightarrow> ('w, unit) cmd" where
  "reset_command ops junk =
     tbind peek_arg (\<lambda>u.
     case u of None \<Rightarrow> say (ascii ''No username specified.\<newline>'')
     | Some user \<Rightarrow> tbind (content_reset ops junk user) (\<lambda>ok. tput (\<lambda>s. s\<lparr>authenticated := ok\<rparr>)))"

definition list_content :: "'w tool_ops \<Rightarrow> bytes \<Rightarrow> ('w, unit) cmd" where
  "list_content ops root =
     tbind peek_arg (\<lambda>a.
     if a = None \<or> a = Some (ascii ''remote'') then tseq (content_list_remote ops root) (tret ())
     else if a = Some (ascii ''local'') then tseq (content_list_local ops) (tret ())
     else say (ascii ''Unknown parameter passed to list.\<newline>''))"

definition change_content :: "'w tool_ops \<Rightarrow> bytes \<Rightarrow> bytes \<Rightarrow> ('w, unit) cmd" where
  "change_content ops root subfunc =
     tbind peek_arg (\<lambda>a.
     case a of None \<Rightarrow> say (ascii ''No id specified.\<newline>'')
     | Some cid \<Rightarrow>
       if length cid \<noteq> 5 then say (ascii ''Id must be 5 characters long.\<newline>'')
       else tbind (tget authenticated) (\<lambda>ok.
            if \<not> ok then say (ascii ''Not authenticated.\<newline>'')
            else if subfunc = ascii ''decrypt'' then tseq (content_decrypt ops root cid) (tret ())
            else if subfunc = ascii ''install'' then tseq (content_install ops root cid) (tret ())
            else tseq (content_remove ops root cid) (tret ())))"

definition run_subfunction :: "'w tool_ops \<Rightarrow> bytes \<Rightarrow> bytes \<Rightarrow> bytes \<Rightarrow> ('w, unit) cmd" where
  "run_subfunction ops junk root subfunc =
     (if subfunc = ascii ''list'' then list_content ops root
      else if subfunc = ascii ''reset'' then reset_command ops junk
      else if subfunc = ascii ''auth'' then auth_command ops junk
      else if subfunc = ascii ''decrypt'' \<or> subfunc = ascii ''remove'' \<or> subfunc = ascii ''install''
      then change_content ops root subfunc
      else say (ascii ''Unknown subfunction\<newline>''))"

text \<open>The medium of the current path: everything before its second separator.\<close>

definition medium :: "bytes option \<Rightarrow> u16 \<Rightarrow> bytes res" where
  "medium c m =
     rbind (need c) (\<lambda>path.
     if path = [] then Inl Abort
     else rbind (strchr_at 0x5C (drop 1 path @ [0])) (\<lambda>r.
          rbind (need r) (\<lambda>i. Inr (take (Suc i) path @ (if m = EXWORD_MODE_CD then 0x5C # ascii ''SOUND'' else [])))))"

definition content :: "'w tool_ops \<Rightarrow> bytes \<Rightarrow> ('w, unit) cmd" where
  "content ops junk = if_connected (
     tbind (tget (\<lambda>s. (cwd s, mode s))) (\<lambda>(c, m).
     tbind (tlift (medium c m)) (\<lambda>root.
     tbind peek_arg (\<lambda>a.
     case a of None \<Rightarrow> say (ascii ''No sub-function specified.\<newline>'')
     | Some subfunc \<Rightarrow>
       tseq dequeue_arg
       (tseq (run_subfunction ops junk root subfunc)
       (tbind (tget cwd) (\<lambda>c1.
        tbind (tlift (need c1)) (\<lambda>path.
        tbind (ask (Setpath path 0) (x_setpath ops path 0)) (\<lambda>e.
        if e \<noteq> EXWORD_SUCCESS then tseq (set_device_path ops root SLASH 0) (tret ()) else tret ())))))))))"

section \<open>Paths, options and help\<close>

definition find_scheme :: "bytes \<Rightarrow> nat option res" where
  "find_scheme arg = strstr_at (ascii ''://'') (arg @ [0, 0, 0])"

definition setpath :: "'w tool_ops \<Rightarrow> ('w, unit) cmd" where
  "setpath ops = if_connected (
     tbind peek_arg (\<lambda>a.
     case a of None \<Rightarrow> say (ascii ''No path specified\<newline>'')
     | Some arg \<Rightarrow>
       tbind (tlift (find_scheme arg)) (\<lambda>r.
       case r of None \<Rightarrow> say (ascii ''Invalid argument. Format <device>://<path>\<newline>'')
       | Some i \<Rightarrow>
         tbind (tget (\<lambda>s. (dev_list_search (dev_list s) (take i arg), mkdir s))) (\<lambda>(dev, mk).
         case dev of None \<Rightarrow> say (ascii ''No such device `'' @ take i arg @ ascii ''`.\<newline>'')
         | Some root \<Rightarrow>
           tbind (set_device_path ops root (drop (i + 3) arg) (if mk then 1 else 0)) (\<lambda>rsp.
           if rsp = EXWORD_SUCCESS then tret ()
           else tseq (say_error rsp)
                (tbind (tget cwd) (\<lambda>c. tbind (tlift (need c)) (\<lambda>path. tseq (ask (Setpath path 0) (x_setpath ops path 0)) (tret ())))))))))"

text \<open>\<^verbatim>\<open>sscanf(arg, "%hhu", &debug)\<close>: a sign is accepted, large numbers wrap or saturate.\<close>

definition digits_of :: "bytes \<Rightarrow> bytes" where
  "digits_of bs = takeWhile (\<lambda>b. 0x30 \<le> b \<and> b \<le> 0x39) bs"

definition number_of :: "bytes \<Rightarrow> nat" where
  "number_of ds = foldl (\<lambda>n d. 10 * n + (unat d - 48)) 0 ds"

definition scan_hhu :: "bytes \<Rightarrow> u8 option" where
  "scan_hhu arg =
     (let neg = (take 1 arg = ascii ''-''); ds = digits_of (if neg \<or> take 1 arg = ascii ''+'' then drop 1 arg else arg)
      in if ds = [] then None
         else if number_of ds \<ge> 2 ^ 64 then Some 255
         else Some (if neg then - of_nat (number_of ds) else of_nat (number_of ds)))"

definition set_debug :: "'w tool_ops \<Rightarrow> ('w, unit) cmd" where
  "set_debug ops =
     tbind peek_arg (\<lambda>a.
     case a of None \<Rightarrow> tbind (tget debug) (\<lambda>d. say (ascii ''Debug Level: '' @ decimal (unat d) @ ascii ''\<newline>''))
     | Some arg \<Rightarrow>
       (case scan_hhu arg of None \<Rightarrow> say (ascii ''Invalid value\<newline>'')
        | Some d \<Rightarrow> if d > 5 then say (ascii ''Value should be between 0 and 5\<newline>'') else tput (\<lambda>s. s\<lparr>debug := d, world := x_set_debug ops d (world s)\<rparr>)))"

definition set_mkdir :: "('w, unit) cmd" where
  "set_mkdir =
     tbind peek_arg (\<lambda>a.
     case a of None \<Rightarrow> tbind (tget mkdir) (\<lambda>d. say (ascii ''Mkdir: '' @ decimal (if d then 1 else 0) @ ascii ''\<newline>''))
     | Some arg \<Rightarrow>
       if arg = ascii ''on'' \<or> arg = ascii ''yes'' \<or> arg = ascii ''true'' then tput (\<lambda>s. s\<lparr>mkdir := True\<rparr>)
       else if arg = ascii ''off'' \<or> arg = ascii ''no'' \<or> arg = ascii ''false'' then tput (\<lambda>s. s\<lparr>mkdir := False\<rparr>)
       else say (ascii ''Invalid value\<newline>''))"

definition set_command :: "'w tool_ops \<Rightarrow> ('w, unit) cmd" where
  "set_command ops =
     tbind peek_arg (\<lambda>a.
     case a of None \<Rightarrow> say (ascii ''No option specified\<newline>'')
     | Some opt \<Rightarrow>
       if opt = ascii ''debug'' then tseq dequeue_arg (set_debug ops)
       else if opt = ascii ''mkdir'' then tseq dequeue_arg set_mkdir
       else say (ascii ''Unknown option '' @ opt @ ascii ''\<newline>''))"

section \<open>Dispatch\<close>

text \<open>The table: names and the modes in which a command is allowed. Only \<^verbatim>\<open>help\<close> has no texts.\<close>

definition commands :: "(bytes \<times> u16) list" where
  "commands = [(ascii ''connect'', 0x700), (ascii ''disconnect'', 0x700), (ascii ''model'', 0x700), (ascii ''capacity'', 0x700),
     (ascii ''format'', 0x700), (ascii ''list'', 0x700), (ascii ''delete'', 0x700), (ascii ''send'', 0x700), (ascii ''get'', 0x700),
     (ascii ''setpath'', 0x700), (ascii ''cd'', 0x400), (ascii ''dict'', 0x100), (ascii ''set'', 0x700), (ascii ''exit'', 0x700),
     (ascii ''help'', 0x700)]"

definition help_command :: "'w tool_ops \<Rightarrow> ('w, unit) cmd" where
  "help_command ops =
     tbind peek_arg (\<lambda>a.
     case a of
       None \<Rightarrow> say (concat (map (\<lambda>(n, _). if n = ascii ''help'' then [] else help_short ops n) commands))
     | Some c \<Rightarrow>
       if map_of commands c = None then say (c @ ascii '' is not a command\<newline>'')
       else if c = ascii ''help'' then say (ascii ''No help available for '' @ c @ ascii ''\<newline>'')
       else say (help_long ops c))"

definition run_command :: "'w tool_ops \<Rightarrow> bytes \<Rightarrow> bytes \<Rightarrow> ('w, unit) cmd" where
  "run_command ops junk c =
     (if c = ascii ''connect'' then connect_tool ops
      else if c = ascii ''disconnect'' then disconnect_tool ops
      else if c = ascii ''model'' then model ops
      else if c = ascii ''capacity'' then capacity ops
      else if c = ascii ''format'' then format ops
      else if c = ascii ''list'' then list_command ops
      else if c = ascii ''delete'' then delete_command ops
      else if c = ascii ''send'' then send_command ops
      else if c = ascii ''get'' then get_command ops
      else if c = ascii ''setpath'' then setpath ops
      else if c = ascii ''cd'' \<or> c = ascii ''dict'' then content ops junk
      else if c = ascii ''set'' then set_command ops
      else if c = ascii ''exit'' then quit ops
      else help_command ops)"

definition process_command :: "'w tool_ops \<Rightarrow> bytes \<Rightarrow> ('w, unit) cmd" where
  "process_command ops junk =
     tbind peek_arg (\<lambda>a.
     tbind (tlift (need a)) (\<lambda>c.
     tbind (tget mode) (\<lambda>m.
     case map_of commands c of None \<Rightarrow> say (ascii ''Unknown command\<newline>'')
     | Some allowed \<Rightarrow>
       if allowed AND m \<noteq> 0 \<or> m = 0 then tseq dequeue_arg (run_command ops junk c)
       else say (ascii ''This option not supported in '' @ (case mode_id2str m of None \<Rightarrow> ascii ''(null)'' | Some t \<Rightarrow> t) @ ascii '' mode\<newline>''))))"

section \<open>The loop\<close>

definition create_prompt :: "bytes option \<Rightarrow> bytes" where
  "create_prompt c = (case c of None \<Rightarrow> ascii ''>> '' | Some p \<Rightarrow> p @ ascii '' >> '')"

fun notify_all :: "u8 list \<Rightarrow> ('w, unit) cmd" where
  "notify_all [] = tret ()"
| "notify_all (r # rs) = tseq (disconnect_notify r) (notify_all rs)"

definition do_events :: "'w tool_ops \<Rightarrow> ('w, unit) cmd" where
  "do_events ops =
     tbind (\<lambda>s. rbind (x_poll ops (world s)) (\<lambda>(rs, w). Inr (rs, s\<lparr>world := w\<rparr>))) (\<lambda>rs.
     tseq (notify_all rs)
     (tbind (tget disconnect_event) (\<lambda>ev. twhen ev (disconnect_tool ops))))"

definition history_file :: "'w tool_ops \<Rightarrow> ('w, bytes) cmd" where
  "history_file ops = tbind (get_data_dir ops) (\<lambda>d. tlift (mkpath SLASH d [Some (ascii ''.exword_history'')]))"

text \<open>What the program meets: the poll of the event hook, and a line or the end of the input. The
  end of the input only continues the loop.\<close>

datatype input = Poll | Line bytes | End_of_input

fun react :: "'w tool_ops \<Rightarrow> bytes \<Rightarrow> input \<Rightarrow> ('w, unit) cmd" where
  "react ops junk Poll = do_events ops"
| "react ops junk End_of_input = tret ()"
| "react ops junk (Line l) =
     (if l = [] then tret ()
      else tseq (fill_arg_list l) (tseq (process_command ops junk) clear_arg_list))"

fun interactive_loop :: "'w tool_ops \<Rightarrow> bytes \<Rightarrow> input list \<Rightarrow> ('w, unit) cmd" where
  "interactive_loop ops junk [] = tret ()"
| "interactive_loop ops junk (i # is) =
     tbind (tget running) (\<lambda>r. if r then tseq (react ops junk i) (interactive_loop ops junk is) else tret ())"

definition tool_start :: "'w \<Rightarrow> 'w tool" where
  "tool_start w = \<lparr>world = w, device_log = [], mode = 0, region = 0, running = True, connected = False, debug = 0,
     mkdir = False, authenticated = False, disconnect_event = False, cwd = None, dev_list = [], cmd_list = [], printed = []\<rparr>"

definition interactive :: "'w tool_ops \<Rightarrow> bytes \<Rightarrow> input list \<Rightarrow> ('w, unit) cmd" where
  "interactive ops junk is =
     tseq (say (ascii ''Exword dictionary tool.\<newline>Type 'help' for a list of commands.\<newline>''))
     (tseq (history_file ops)
     (tseq (tput (\<lambda>s. s\<lparr>running := True, world := x_set_debug ops (debug s) (x_init ops (world s))\<rparr>))
     (tseq (interactive_loop ops junk is)
     (tbind (tget running) (\<lambda>r.
     if r then tret ()
     else tseq (history_file ops)
       (\<lambda>s. rbind (x_deinit ops (world s)) (\<lambda>w. Inr ((), s\<lparr>world := w\<rparr>))))))))"

end
