(* ===== verification/Tool_Users.thy ===== *)
theory Tool_Users
  imports Tool_Main
begin

text \<open>
  The data of the command line tool: the file of user keys is a map in which the first entry of a
  name wins, keys survive printing and parsing, paths are normalised, and the file names that are
  transferred are short names without separators.
\<close>

lemmas tool_monad = tret_def tbind_def tseq_def tget_def tput_def tlift_def twhen_def scall_def

section \<open>The user file\<close>

text \<open>A file system: files have contents, reading gives them, writing replaces them, and making a
  directory or looking at the environment changes none.\<close>

definition files_hold :: "'w tool_ops \<Rightarrow> ('w \<Rightarrow> bytes \<Rightarrow> bytes option) \<Rightarrow> bool" where
  "files_hold ops fc \<longleftrightarrow> (\<forall>w p d b.
     (fc w p = None \<longrightarrow> fst (s_open ops p False w) < 0 \<and> s_errno ops (snd (s_open ops p False w)) = ENOENT \<and>
        fc (snd (s_open ops p False w)) = fc w) \<and>
     (fc w p = Some b \<longrightarrow> (case s_open ops p False w of (fd, w1) \<Rightarrow> fd \<ge> 0 \<and> s_fstat ops fd w1 = Some (Regular, length b) \<and>
        (case s_read ops fd (length b) w1 of (r, w2) \<Rightarrow> r = Some b \<and> fc (s_close ops fd w2) = fc w))) \<and>
     (case s_open ops p True w of (fd, w1) \<Rightarrow> fd \<ge> 0 \<and>
        (case s_write ops fd d w1 of (ok, w2) \<Rightarrow> ok \<and> fc (s_close ops fd w2) = (fc w)(p \<mapsto> d))) \<and>
     fc (snd (s_mkdir ops p w)) = fc w)"

definition data_dir_is :: "'w tool_ops \<Rightarrow> bytes \<Rightarrow> bool" where
  "data_dir_is ops d \<longleftrightarrow> length d < PATH_MAX \<and> (\<forall>w. s_getenv ops ''EXWORD_DATA_DIR'' w = Some d)"

definition user_ok :: "bytes \<times> bytes \<Rightarrow> bool" where
  "user_ok u \<longleftrightarrow> 0 \<notin> set (fst u) \<and> length (fst u) < 127 \<and> length (snd u) = 20"

definition users_bytes :: "(bytes \<times> bytes) list \<Rightarrow> bytes" where
  "users_bytes us = concat (map (\<lambda>(n, k). user_record n k) us)"

lemma strcmp_name: "0 \<notin> set n \<Longrightarrow> 0 \<notin> set m \<Longrightarrow> strcmp_eq (n @ 0 # r) m = Inr (n = m)"
  by (induction n arbitrary: m) (case_tac [!] m, auto)

lemma sint_length: "n < 127 \<Longrightarrow> sint (of_nat (n + 1) :: u8) = int n + 1"
proof -
  assume n: "n < 127"
  have "unat (of_nat (n + 1) :: u8) = n + 1" using n by (intro unat_of_nat_eq) simp
  then have "uint (of_nat (n + 1) :: u8) = int n + 1" by (simp only: uint_nat)
  moreover have "signed_take_bit 7 (int n + 1) = int n + 1" using n by (intro signed_take_bit_int_eq_self) simp_all
  ultimately show ?thesis by (simp only: sint_uint) simp
qed

lemma record_length: "user_ok (n, k) \<Longrightarrow> length (user_record n k) = length n + 22"
  by (simp add: user_record_def user_ok_def)

text \<open>The offset of the first record of a name.\<close>

fun user_offset :: "(bytes \<times> bytes) list \<Rightarrow> bytes \<Rightarrow> nat option" where
  "user_offset [] m = None"
| "user_offset ((n, k) # us) m = (if n = m then Some 0 else map_option ((+) (length n + 22)) (user_offset us m))"

lemma user_loop_finds:
  assumes "list_all user_ok us" and "0 \<notin> set m" and "length us < k"
  shows "user_loop k m (pre @ users_bytes us) (length pre + length (users_bytes us)) (int (length pre)) =
     Inr (map_option ((+) (length pre)) (user_offset us m))"
  using assms
proof (induction us arbitrary: pre k)
  case Nil
  then show ?case by (cases k) (simp_all add: users_bytes_def)
next
  case (Cons u us)
  obtain n key where u: "u = (n, key)" by (cases u)
  obtain j where k: "k = Suc j" using Cons.prems(3) by (cases k) auto
  have ok: "user_ok (n, key)" and oks: "list_all user_ok us" using Cons.prems(1) u by simp_all
  let ?buf = "pre @ users_bytes (u # us)"
  have buf: "?buf = pre @ of_nat (length n + 1) # n @ 0 # (take 20 key @ users_bytes us)"
    by (simp add: u users_bytes_def user_record_def)
  have d: "drop (length pre + 1) ?buf = n @ 0 # (take 20 key @ users_bytes us)" unfolding buf by simp
  have h: "?buf ! length pre = of_nat (length n + 1)" unfolding buf by (simp add: nth_append)
  have cmp: "strcmp_eq (drop (length pre + 1) ?buf) m = Inr (n = m)"
    unfolding d using ok Cons.prems(2) by (intro strcmp_name) (simp_all add: user_ok_def)
  have next': "int (length pre) + 21 + sint (?buf ! length pre) = int (length (pre @ user_record n key))"
    unfolding h using ok sint_length [of "length n"] record_length [OF ok] by (simp add: user_ok_def)
  have eqb: "?buf = (pre @ user_record n key) @ users_bytes us" by (simp add: u users_bytes_def)
  have len: "length pre + length (users_bytes (u # us)) = length (pre @ user_record n key) + length (users_bytes us)"
    by (simp add: u users_bytes_def)
  have ih: "user_loop j m ((pre @ user_record n key) @ users_bytes us) (length (pre @ user_record n key) + length (users_bytes us))
      (int (length (pre @ user_record n key))) = Inr (map_option ((+) (length (pre @ user_record n key))) (user_offset us m))"
    using Cons.IH [OF oks Cons.prems(2), of j "pre @ user_record n key"] Cons.prems(3) k by simp
  have inb: "\<not> int (length pre) \<ge> int (length pre + length (users_bytes (u # us)))" "\<not> length pre \<ge> length ?buf"
    by (simp_all add: u users_bytes_def user_record_def)
  show ?case
  proof (cases "n = m")
    case True
    then show ?thesis using inb cmp by (simp add: k u)
  next
    case False
    have "user_loop k m ?buf (length pre + length (users_bytes (u # us))) (int (length pre)) =
        user_loop j m ?buf (length pre + length (users_bytes (u # us))) (int (length (pre @ user_record n key)))"
      unfolding next' [symmetric] k user_loop.simps using inb cmp False by simp
    also have "\<dots> = Inr (map_option ((+) (length (pre @ user_record n key))) (user_offset us m))"
      using ih unfolding eqb len .
    finally show ?thesis
      using False record_length [OF ok] by (cases "user_offset us m") (simp_all add: u)
  qed
qed

lemma find_user_finds:
  "list_all user_ok us \<Longrightarrow> 0 \<notin> set m \<Longrightarrow> find_user m (users_bytes us) (length (users_bytes us)) = Inr (user_offset us m)"
proof -
  assume a: "list_all user_ok us" "0 \<notin> set m"
  have "length us \<le> length (users_bytes us)"
    by (induction us) (auto simp: users_bytes_def user_record_def)
  with user_loop_finds [OF a, of "Suc (length (users_bytes us))" "[]"] show ?thesis
    by (cases "user_offset us m") (simp_all add: find_user_def)
qed

lemma user_key_there:
  "list_all user_ok us \<Longrightarrow> user_offset us m = Some i \<Longrightarrow>
     \<exists>k. map_of us m = Some k \<and> i < length (users_bytes us) \<and> sint (users_bytes us ! i) = int (length m) + 1 \<and>
         i + length m + 22 \<le> length (users_bytes us) \<and> take 20 (drop (i + length m + 2) (users_bytes us)) = k"
proof (induction us arbitrary: i)
  case (Cons u us)
  obtain n k where u: "u = (n, k)" by (cases u)
  have ok: "user_ok (n, k)" and oks: "list_all user_ok us" using Cons.prems(1) u by simp_all
  have b: "users_bytes (u # us) = user_record n k @ users_bytes us" by (simp add: u users_bytes_def)
  show ?case
  proof (cases "n = m")
    case True
    then have "i = 0" using Cons.prems(2) u by simp
    then show ?thesis
      using True ok sint_length [of "length n"] unfolding b by (simp add: u user_record_def user_ok_def)
  next
    case False
    then obtain j where j: "user_offset us m = Some j" "i = length n + 22 + j" using Cons.prems(2) u by auto
    from Cons.IH [OF oks j(1)] show ?thesis
      using False j(2) record_length [OF ok] unfolding b by (auto simp: u nth_append add.assoc)
  qed
qed simp

lemma offset_none: "user_offset us m = None \<longleftrightarrow> map_of us m = None"
  by (induction us m rule: user_offset.induct) auto

lemma read_holds:
  assumes "files_hold ops fc"
  shows "fc (world s) p = Some b \<Longrightarrow> \<exists>w. read_file ops p s = Inr ((Some b, length b), s\<lparr>world := w\<rparr>) \<and> fc w = fc (world s)"
    "fc (world s) p = None \<Longrightarrow>
       \<exists>w. read_file ops p s = Inr ((None, 0), s\<lparr>world := w\<rparr>) \<and> fc w = fc (world s) \<and> s_errno ops w = ENOENT"
proof -
  assume b: "fc (world s) p = Some b"
  obtain fd w1 r w2 where o: "s_open ops p False (world s) = (fd, w1)" and r: "s_read ops fd (length b) w1 = (r, w2)"
    by (metis prod.exhaust)
  with assms b have "fd \<ge> 0" "s_fstat ops fd w1 = Some (Regular, length b)" "r = Some b" "fc (s_close ops fd w2) = fc (world s)"
    unfolding files_hold_def by fastforce+
  with o r show "\<exists>w. read_file ops p s = Inr ((Some b, length b), s\<lparr>world := w\<rparr>) \<and> fc w = fc (world s)"
    by (intro exI [of _ "s_close ops fd w2"]) (simp add: read_file_def tool_monad)
next
  assume b: "fc (world s) p = None"
  obtain fd w1 where o: "s_open ops p False (world s) = (fd, w1)" by fastforce
  with assms b have "fd < 0" "s_errno ops w1 = ENOENT" "fc w1 = fc (world s)"
    unfolding files_hold_def by (metis fst_conv snd_conv)+
  with o show "\<exists>w. read_file ops p s = Inr ((None, 0), s\<lparr>world := w\<rparr>) \<and> fc w = fc (world s) \<and> s_errno ops w = ENOENT"
    by (intro exI [of _ w1]) (simp add: read_file_def tool_monad)
qed

lemma write_holds:
  assumes "files_hold ops fc"
  shows "\<exists>w. write_file ops p b s = Inr (True, s\<lparr>world := w\<rparr>) \<and> fc w = (fc (world s))(p \<mapsto> b)"
proof -
  obtain fd w1 ok w2 where o: "s_open ops p True (world s) = (fd, w1)" and r: "s_write ops fd b w1 = (ok, w2)"
    by (metis prod.exhaust)
  have "case s_open ops p True (world s) of (fd, w1) \<Rightarrow> fd \<ge> 0 \<and>
      (case s_write ops fd b w1 of (ok, w2) \<Rightarrow> ok \<and> fc (s_close ops fd w2) = (fc (world s))(p \<mapsto> b))"
    using assms [unfolded files_hold_def, THEN spec [of _ "world s"], THEN spec [of _ p], THEN spec [of _ b]] by (elim allE conjE)
  with o r have "fd \<ge> 0" "ok" "fc (s_close ops fd w2) = (fc (world s))(p \<mapsto> b)" by simp_all
  with o r show ?thesis by (intro exI [of _ "s_close ops fd w2"]) (simp add: write_file_def tool_monad)
qed

definition users_path :: "bytes \<Rightarrow> bytes" where
  "users_path d = d @ SLASH @ ascii ''users.dat''"

lemma users_file_holds:
  assumes "files_hold ops fc" and "data_dir_is ops d"
  shows "\<exists>w. users_file ops s = Inr (Some (users_path d), s\<lparr>world := w\<rparr>) \<and> fc w = fc (world s)"
proof -
  obtain r w where m: "s_mkdir ops d (world s) = (r, w)" by fastforce
  with assms(1) have "fc w = fc (world s)" unfolding files_hold_def by (metis snd_conv)
  then show ?thesis
    using assms(2) m by (intro exI [of _ w]) (simp add: users_file_def get_data_dir_def data_dir_is_def mkpath_def users_path_def tool_monad Let_def)
qed

text \<open>The contents of the user file: absent is empty.\<close>

definition users_stored :: "('w \<Rightarrow> bytes \<Rightarrow> bytes option) \<Rightarrow> bytes \<Rightarrow> (bytes \<times> bytes) list \<Rightarrow> 'w \<Rightarrow> bool" where
  "users_stored fc d us w \<longleftrightarrow> fc w (users_path d) = Some (users_bytes us) \<or> (fc w (users_path d) = None \<and> us = [])"

lemma load_holds:
  assumes "files_hold ops fc" and "data_dir_is ops d" and "list_all user_ok us" and "users_stored fc d us (world s)" and "0 \<notin> set m"
  shows "\<exists>s1. load_user_key ops m s = Inr (map_of us m, s1)"
proof -
  obtain w where u: "users_file ops s = Inr (Some (users_path d), s\<lparr>world := w\<rparr>)" and w: "fc w = fc (world s)"
    using users_file_holds [OF assms(1,2)] by blast
  show ?thesis
  proof (cases "fc w (users_path d)")
    case None
    then have "us = []" using assms(4) w by (simp add: users_stored_def)
    moreover obtain w1 where "read_file ops (users_path d) (s\<lparr>world := w\<rparr>) = Inr ((None, 0), s\<lparr>world := w\<rparr>\<lparr>world := w1\<rparr>)"
      using read_holds(2) [OF assms(1), of "s\<lparr>world := w\<rparr>" "users_path d"] None by auto
    ultimately show ?thesis using u by (simp add: load_user_key_def tool_monad)
  next
    case (Some b)
    then have b: "b = users_bytes us" using assms(4) w by (simp add: users_stored_def)
    obtain w1 where r: "read_file ops (users_path d) (s\<lparr>world := w\<rparr>) = Inr ((Some b, length b), s\<lparr>world := w\<rparr>\<lparr>world := w1\<rparr>)"
      using read_holds(1) [OF assms(1), of "s\<lparr>world := w\<rparr>" "users_path d" b] Some by auto
    have f: "find_user m b (length b) = Inr (user_offset us m)" unfolding b by (rule find_user_finds [OF assms(3,5)])
    show ?thesis
    proof (cases "user_offset us m")
      case None
      then show ?thesis using u r f offset_none [of us m] by (simp add: load_user_key_def tool_monad)
    next
      case (Some i)
      from user_key_there [OF assms(3) this] obtain k where k: "map_of us m = Some k" "sint (b ! i) = int (length m) + 1"
        "i + length m + 22 \<le> length b" "take 20 (drop (i + length m + 2) b) = k" unfolding b by blast
      have n: "nat (int i + 1 + sint (b ! i)) = i + length m + 2" "\<not> int i + 1 + sint (b ! i) < 0" using k(2) by simp_all
      show ?thesis using u r f k(1,3,4) n Some by (simp add: load_user_key_def tool_monad Let_def)
    qed
  qed
qed

lemma save_holds:
  assumes "files_hold ops fc" and "data_dir_is ops d" and "list_all user_ok us" and "users_stored fc d us (world s)" and "user_ok (m, key)"
  shows "\<exists>s1. save_user_key ops m key s = Inr (True, s1) \<and>
    users_stored fc d (if map_of us m = None then us @ [(m, key)] else us) (world s1)"
proof -
  obtain w where u: "users_file ops s = Inr (Some (users_path d), s\<lparr>world := w\<rparr>)" and w: "fc w = fc (world s)"
    using users_file_holds [OF assms(1,2)] by blast
  obtain buf w1 where r: "read_file ops (users_path d) (s\<lparr>world := w\<rparr>) = Inr ((buf, length (users_bytes us)), s\<lparr>world := w1\<rparr>)"
    and w1: "fc w1 = fc w" and buf: "buf = Some (users_bytes us) \<or> (buf = None \<and> us = [] \<and> s_errno ops w1 = ENOENT)"
  proof (cases "fc w (users_path d)")
    case None
    then have "us = []" using assms(4) w by (simp add: users_stored_def)
    moreover obtain w1 where "read_file ops (users_path d) (s\<lparr>world := w\<rparr>) = Inr ((None, 0), s\<lparr>world := w1\<rparr>)" "fc w1 = fc w" "s_errno ops w1 = ENOENT"
      using read_holds(2) [OF assms(1), of "s\<lparr>world := w\<rparr>" "users_path d"] None by auto
    ultimately show thesis by (intro that [of None w1]) (simp_all add: users_bytes_def)
  next
    case (Some b)
    then have b: "b = users_bytes us" using assms(4) w by (simp add: users_stored_def)
    obtain w1 where "read_file ops (users_path d) (s\<lparr>world := w\<rparr>) = Inr ((Some b, length b), s\<lparr>world := w1\<rparr>)" "fc w1 = fc w"
      using read_holds(1) [OF assms(1), of "s\<lparr>world := w\<rparr>" "users_path d" b] Some by auto
    then show thesis using b by (intro that [of "Some b" w1]) simp_all
  qed
  let ?b = "case buf of None \<Rightarrow> [] | Some b \<Rightarrow> b"
  have bb: "?b = users_bytes us" using buf by (auto simp: users_bytes_def)
  have f: "find_user m ?b (length (users_bytes us)) = Inr (user_offset us m)"
    unfolding bb using assms(5) by (intro find_user_finds [OF assms(3)]) (simp add: user_ok_def)
  obtain w2 where w2: "write_file ops (users_path d) (users_bytes us @ user_record m key) (s\<lparr>world := w1\<rparr>) = Inr (True, s\<lparr>world := w2\<rparr>)"
    "fc w2 = (fc w1)(users_path d \<mapsto> users_bytes us @ user_record m key)"
    using write_holds [OF assms(1), of "users_path d" "users_bytes us @ user_record m key" "s\<lparr>world := w1\<rparr>"] by auto
  have err: "\<not> (buf = None \<and> s_errno ops w1 \<noteq> ENOENT)" using buf by auto
  show ?thesis
  proof (cases "map_of us m")
    case None
    then have "user_offset us m = None" by (simp add: offset_none)
    moreover have "users_bytes (us @ [(m, key)]) = users_bytes us @ user_record m key" by (simp add: users_bytes_def)
    ultimately show ?thesis using u r f err w2 None bb
      by (intro exI [of _ "s\<lparr>world := w2\<rparr>"]) (simp add: save_user_key_def tool_monad users_stored_def Let_def)
  next
    case (Some k)
    then have "user_offset us m \<noteq> None" using offset_none [of us m] by simp
    then show ?thesis using u r f err Some w1 w assms(4)
      by (intro exI [of _ "s\<lparr>world := w1\<rparr>"]) (auto simp: save_user_key_def tool_monad users_stored_def Let_def)
  qed
qed

text \<open>C28. The file of user keys is a map in which the first entry of a name wins: saving a key always
  succeeds, and afterwards looking up any name gives the key it had before, or the new key if
  the saved name was new. In particular the key of a known user is never replaced.\<close>

theorem user_keys_refine_map:
  assumes "files_hold ops fc" and "data_dir_is ops d" and "list_all user_ok us" and "users_stored fc d us (world s)"
    and "user_ok (name, key)" and "0 \<notin> set other"
  shows "\<exists>s1 s2. save_user_key ops name key s = Inr (True, s1) \<and>
    load_user_key ops other s1 = Inr (map_of (us @ [(name, key)]) other, s2)"
proof -
  let ?us = "if map_of us name = None then us @ [(name, key)] else us"
  obtain s1 where s1: "save_user_key ops name key s = Inr (True, s1)" "users_stored fc d ?us (world s1)"
    using save_holds [OF assms(1-5)] by blast
  have "list_all user_ok ?us" using assms(3,5) by simp
  from load_holds [OF assms(1,2) this s1(2) assms(6)] obtain s2 where "load_user_key ops other s1 = Inr (map_of ?us other, s2)" by blast
  moreover have "map_of ?us other = map_of (us @ [(name, key)]) other" by (auto simp: map_add_def split: option.splits)
  ultimately show ?thesis using s1(1) by metis
qed

text \<open>A disk that remembers its files and the path opened last, and a device that agrees to everything.\<close>

type_synonym disk = "(bytes \<Rightarrow> bytes option) \<times> bytes"

definition disk_ops :: "disk tool_ops" where
  "disk_ops = \<lparr>x_init = (\<lambda>w. w), x_set_debug = (\<lambda>_ w. w), x_deinit = Inr, x_connect = (\<lambda>_ w. Inr (EXWORD_SUCCESS, (), w)), x_disconnect = (\<lambda>w. Inr (EXWORD_SUCCESS, (), w)),
     x_setpath = (\<lambda>_ _ w. Inr (EXWORD_SUCCESS, (), w)), x_get_file = (\<lambda>_ w. Inr (EXWORD_SUCCESS, (0, None), w)),
     x_send_file = (\<lambda>_ _ w. Inr (EXWORD_SUCCESS, (), w)), x_remove_file = (\<lambda>_ _ w. Inr (EXWORD_SUCCESS, (), w)),
     x_get_model = (\<lambda>w. Inr (EXWORD_SUCCESS, \<lparr>m_model = [], m_sub_model = [], m_ext_model = [], m_capabilities = 0\<rparr>, w)),
     x_get_capacity = (\<lambda>w. Inr (EXWORD_SUCCESS, \<lparr>total = 0, free = 0\<rparr>, w)), x_sd_format = (\<lambda>w. Inr (EXWORD_SUCCESS, (), w)),
     x_list = (\<lambda>w. Inr (EXWORD_SUCCESS, Some [], w)), x_unlock = (\<lambda>w. Inr (EXWORD_SUCCESS, (), w)),
     x_lock = (\<lambda>w. Inr (EXWORD_SUCCESS, (), w)), x_cname = (\<lambda>_ _ w. Inr (EXWORD_SUCCESS, (), w)),
     x_cryptkey = (\<lambda>k w. Inr (EXWORD_SUCCESS, k, w)), x_authchallenge = (\<lambda>_ w. Inr (EXWORD_SUCCESS, (), w)),
     x_authinfo = (\<lambda>i w. Inr (EXWORD_SUCCESS, i, w)), x_userid = (\<lambda>_ w. Inr (EXWORD_SUCCESS, (), w)),
     x_poll = (\<lambda>w. Inr ([], w)), x_convert = (\<lambda>_ b. Inr (Some b)), x_xor_key = (\<lambda>k. Inr k),
     s_open = (\<lambda>p wr (f, q). if wr then (3, f(p \<mapsto> []), p) else (if f p = None then -1 else 3, f, p)),
     s_fstat = (\<lambda>_ (f, q). map_option (\<lambda>b. (Regular, length b)) (f q)),
     s_read = (\<lambda>_ n (f, q). (map_option (take n) (f q), f, q)), s_write = (\<lambda>_ b (f, q). (True, f(q \<mapsto> b), q)),
     s_close = (\<lambda>_ w. w), s_errno = (\<lambda>_. 2), s_getenv = (\<lambda>v _. if v = ''EXWORD_DATA_DIR'' then Some (ascii ''/d'') else None),
     s_mkdir = (\<lambda>_ w. (0, w)), s_stat = (\<lambda>p (f, q). map_option (\<lambda>_. Regular) (f p)), s_opendir = (\<lambda>_ _. None),
     help_short = (\<lambda>_. []), help_long = (\<lambda>_. [])\<rparr>"

lemma disk_holds: "files_hold disk_ops fst" "data_dir_is disk_ops (ascii ''/d'')"
  by (auto simp: files_hold_def data_dir_is_def disk_ops_def ENOENT_def PATH_MAX_def ascii_def)

theorem user_keys_refine_map_witness:
  "\<exists>s1 s2. save_user_key disk_ops (ascii ''ann'') (replicate 20 7) (tool_start (\<lambda>_. None, [])) = Inr (True, s1) \<and>
     load_user_key disk_ops (ascii ''ann'') s1 = Inr (Some (replicate 20 7), s2)"
proof -
  let ?s = "tool_start (\<lambda>_. None, []) :: disk tool"
  have ok: "user_ok (ascii ''ann'', replicate 20 7)" by (simp add: user_ok_def ascii_def)
  have st: "users_stored fst (ascii ''/d'') [] (world ?s)" by (simp add: users_stored_def tool_start_def)
  have z: "0 \<notin> set (ascii ''ann'')" by (simp add: ascii_def)
  from user_keys_refine_map [OF disk_holds _ st ok z] show ?thesis by simp
qed

section \<open>Keys as text\<close>

lemma unat_lt_div [simp]: "unat (b :: u8) div 16 < 16"
proof -
  have "unat b < 2 ^ LENGTH(8)" by (rule unsigned_less)
  then show ?thesis by simp
qed

lemma hex_digit_cases:
  assumes "d < 16"
  shows "hex_value (hex_digit d) = of_nat d" and "is_hex (hex_digit d)"
proof -
  have "\<forall>d \<in> set [0..<16]. hex_value (hex_digit d) = of_nat d \<and> is_hex (hex_digit d)" by code_simp
  then show "hex_value (hex_digit d) = of_nat d" and "is_hex (hex_digit d)" using assms by simp_all
qed

lemma byte_of_nibbles: "push_bit 4 (of_nat (unat b div 16)) OR of_nat (unat b mod 16) = (b :: u8)"
proof -
  have "unat (drop_bit 4 b) = unat b div 16" by (simp add: unat_drop_bit)
  then have "of_nat (unat b div 16) = (of_nat (unat (drop_bit 4 b)) :: u8)" by (simp only:)
  then have "of_nat (unat b div 16) = drop_bit 4 b" by simp
  moreover have "unat (take_bit 4 b) = unat b mod 16" by (simp add: take_bit_eq_mod unat_mod)
  then have "of_nat (unat b mod 16) = (of_nat (unat (take_bit 4 b)) :: u8)" by (simp only:)
  then have "of_nat (unat b mod 16) = take_bit 4 b" by simp
  moreover have "push_bit 4 (drop_bit 4 b) OR take_bit 4 b = b"
    by (rule bit_word_eqI) (auto simp: bit_simps)
  ultimately show ?thesis by simp
qed

text \<open>The key that resetting a device prints can be typed back: for every key of twenty bytes the
  text after \<^verbatim>\<open>0x\<close> is accepted by the parser of the authentication command, with nothing
  lost, and decodes to the key.\<close>

theorem authkey_roundtrip:
  assumes "length key = 20"
  shows "scan_authkey (ascii ''0x'' @ hex_bytes key) = Some (hex_bytes key) \<and> length (hex_bytes key) = 40 \<and>
    decode_hex (hex_bytes key) = key"
proof -
  have len: "length (hex_bytes k) = 2 * length k" for k by (induction k) (simp_all add: hex_bytes_def)
  have hex: "list_all is_hex (hex_bytes k)" for k
    by (induction k) (simp_all add: hex_bytes_def hex_digit_cases unat_lt_div)
  have dec: "decode_hex (hex_bytes k) = k" for k
    by (induction k) (simp_all add: hex_bytes_def hex_digit_cases byte_of_nibbles unat_lt_div)
  have "takeWhile is_hex (hex_bytes key) = hex_bytes key"
    by (rule iffD2 [OF takeWhile_eq_all_conv]) (use hex [of key] in \<open>simp add: list_all_iff\<close>)
  then show ?thesis using len [of key] dec [of key] assms
    by (auto simp add: scan_authkey_def ascii_def Let_def simp del: takeWhile_eq_all_conv)
qed

theorem authkey_roundtrip_witness:
  "decode_hex (hex_bytes (map of_nat [0..<20])) = map of_nat [0..<20]"
  using authkey_roundtrip [of "map of_nat [0..<20]"] by simp

section \<open>Paths\<close>

fun components :: "bytes \<Rightarrow> bytes \<Rightarrow> bytes list" where
  "components cur [] = (if cur = [] then [] else [cur])"
| "components cur (b # bs) =
     (if is_sep b then (if cur = [] then components [] bs else cur # components [] bs) else components (cur @ [b]) bs)"

definition normal_path :: "bytes \<Rightarrow> bool" where
  "normal_path p \<longleftrightarrow> 0x2F \<notin> set p \<and> successively (\<lambda>a b. \<not> (a = 0x5C \<and> b = 0x5C)) p"

lemma sep_backslash [simp]: "is_sep (to_backslash a) = is_sep a" "\<not> is_sep a \<Longrightarrow> to_backslash a = a" "to_backslash a \<noteq> 0x2F"
  "to_backslash a = 0x5C \<longleftrightarrow> is_sep a" "is_sep 0x5C" "is_sep 0x2F"
  by (simp_all add: is_sep_def to_backslash_def)

lemma components_normalise: "components cur (normalise p) = components cur p"
  by (induction p arbitrary: cur rule: normalise.induct) (auto split: if_splits)

lemma normalise_head: "p \<noteq> [] \<Longrightarrow> normalise p \<noteq> [] \<and> hd (normalise p) = to_backslash (hd p)"
proof (induction p rule: normalise.induct)
  case (3 a b r)
  then show ?case by (auto simp: to_backslash_def is_sep_def)
qed simp_all

lemma normalise_normal: "normal_path (normalise p)"
proof (induction p rule: normalise.induct)
  case (3 a b r)
  then show ?case
    using normalise_head [of "b # r"] by (cases "normalise (b # r)") (auto simp: normal_path_def)
qed (simp_all add: normal_path_def)

lemma normal_fixed: "normal_path p \<Longrightarrow> normalise p = p"
  by (induction p rule: normalise.induct) (auto simp: normal_path_def to_backslash_def is_sep_def)

text \<open>Changing the path on the device sends one request, whose path has no slash and no empty
  component, names the same components as the medium and the path typed, and does not change
  when it is normalised again; the tool remembers exactly that path if the device accepts it.\<close>

theorem setpath_normalised:
  assumes "set_device_path ops device p mk s = Inr (rsp, s')"
  shows "\<exists>path. device_log s' = device_log s @ [(Setpath path mk, rsp)] \<and> normal_path path \<and> normalise path = path \<and>
    components [] path = components [] (device @ BACKSLASH @ p) \<and>
    cwd s' = (if rsp = EXWORD_SUCCESS then Some path else cwd s)"
proof -
  let ?path = "normalise (device @ BACKSLASH @ p)"
  have "device_log s' = device_log s @ [(Setpath ?path mk, rsp)] \<and> cwd s' = (if rsp = EXWORD_SUCCESS then Some ?path else cwd s)"
    using assms by (auto simp: set_device_path_def tool_monad mkpath_def ask_def dcall_def rbind_Inr_iff Let_def split: if_splits)
  then show ?thesis
    using normalise_normal normal_fixed [OF normalise_normal] components_normalise by blast
qed

theorem setpath_normalised_witness:
  "\<exists>s'. set_device_path disk_ops INTERNAL_PATH (ascii ''a//b'') 0 (tool_start (\<lambda>_. None, [])) = Inr (EXWORD_SUCCESS, s') \<and>
     (\<exists>path. cwd s' = Some path \<and> normal_path path)"
proof -
  let ?s = "tool_start (\<lambda>_. None, []) :: disk tool"
  obtain s' where r: "set_device_path disk_ops INTERNAL_PATH (ascii ''a//b'') 0 ?s = Inr (EXWORD_SUCCESS, s')"
    by (simp add: set_device_path_def tool_monad mkpath_def ask_def dcall_def disk_ops_def Let_def)
  from setpath_normalised [OF this] r show ?thesis by auto
qed

section \<open>Short names\<close>

definition legal_char :: "u8 \<Rightarrow> bool" where
  "legal_char c \<longleftrightarrow> c > 32 \<and> c \<noteq> 127 \<and> c \<notin> set (ascii ''\"*+./:;<=>?[]|'') \<and> c \<noteq> 0x5C"

lemma sfn_char_legal: "sfn_char c = legal_char c"
proof -
  let ?P = "\<lambda>n. valid_sfn_chars ! n \<longleftrightarrow> n > 32 \<and> n \<notin> {34, 42, 43, 46, 47, 58, 59, 60, 61, 62, 63, 91, 92, 93, 124, 127}"
  have L: "list_all ?P [2..<256]" by (simp add: upt_rec_numeral valid_sfn_chars_def nth_append)
  have z: "?P 0" "?P 1" by (simp_all add: valid_sfn_chars_def nth_append)
  have t: "?P n" if "n < 256" for n
  proof (cases "n < 2")
    case True
    then have "n = 0 \<or> n = 1" by linarith
    then show ?thesis using z by (elim disjE) (simp_all only:)
  next
    case False
    with that have "n \<in> set [2..<256]" unfolding set_upt by (simp add: not_less)
    with L show ?thesis unfolding list_all_iff by (rule bspec)
  qed
  have "unat c < 2 ^ LENGTH(8)" by (rule unsigned_less)
  then show ?thesis
    by (simp add: sfn_char_def legal_char_def t ascii_def word_less_nat_alt word_unat_eq_iff) (simp only: conj_ac)
qed

lemma strrchr_None: "strrchr c n = None \<longleftrightarrow> c \<notin> set n"
  by (induction n) (auto split: option.splits)

lemma strrchr_split: "strrchr c n = Some i \<Longrightarrow> n = take i n @ c # drop (Suc i) n"
  by (induction n arbitrary: i) (auto split: option.splits if_splits)

lemma strrchr_last: "c \<notin> set ys \<Longrightarrow> strrchr c (xs @ c # ys) = Some (length xs)"
  by (induction xs) (simp_all add: strrchr_None [THEN iffD2])

text \<open>The names content is installed under are exactly the short file names: one to eight legal
  characters, optionally a dot and up to three more; none of them is a separator, a dot or a
  control character, so no name leads out of the directory.\<close>

theorem short_names_exact:
  "is_valid_sfn n \<longleftrightarrow> (\<exists>base ext. length base \<in> {1..8} \<and> length ext \<le> 3 \<and>
     (n = base \<and> ext = [] \<or> n = base @ ascii ''.'' @ ext) \<and> list_all legal_char (base @ ext))"
proof -
  let ?dot = "of_char (CHR ''.'') :: u8"
  have nd: "\<not> legal_char ?dot" by (simp add: legal_char_def ascii_def)
  have sp: "is_valid_sfn n \<longleftrightarrow> (case strrchr ?dot n of
      None \<Rightarrow> length n \<in> {1..8} \<and> list_all legal_char n
    | Some i \<Rightarrow> length (take i n) \<in> {1..8} \<and> length (drop (Suc i) n) \<le> 3 \<and> list_all legal_char (take i n) \<and> list_all legal_char (drop (Suc i) n))"
    by (auto simp: is_valid_sfn_def sfn_char_legal list_all_iff Suc_le_eq split: option.splits)
  show ?thesis
  proof
    assume v: "is_valid_sfn n"
    show "\<exists>base ext. length base \<in> {1..8} \<and> length ext \<le> 3 \<and>
     (n = base \<and> ext = [] \<or> n = base @ ascii ''.'' @ ext) \<and> list_all legal_char (base @ ext)"
    proof (cases "strrchr ?dot n")
      case None
      then show ?thesis using v unfolding sp by (intro exI [of _ n] exI [of _ "[]"]) simp
    next
      case (Some i)
      then have "n = take i n @ ?dot # drop (Suc i) n" by (rule strrchr_split)
      then show ?thesis using v Some unfolding sp
        by (intro exI [of _ "take i n"] exI [of _ "drop (Suc i) n"]) (simp add: ascii_def)
    qed
  next
    assume "\<exists>base ext. length base \<in> {1..8} \<and> length ext \<le> 3 \<and>
     (n = base \<and> ext = [] \<or> n = base @ ascii ''.'' @ ext) \<and> list_all legal_char (base @ ext)"
    then obtain base ext where b: "length base \<in> {1..8}" "length ext \<le> 3" "list_all legal_char (base @ ext)"
      and n: "n = base \<and> ext = [] \<or> n = base @ ascii ''.'' @ ext" by blast
    have free: "?dot \<notin> set base" "?dot \<notin> set ext" using b(3) nd by (auto simp: list_all_iff)
    show "is_valid_sfn n"
    proof (cases "n = base \<and> ext = []")
      case True
      then have "strrchr ?dot n = None" using free(1) by (simp add: strrchr_None)
      then show ?thesis using True b unfolding sp by simp
    next
      case False
      then have e: "n = base @ ?dot # ext" using n by (auto simp: ascii_def)
      have "strrchr ?dot n = Some (length base)" unfolding e by (rule strrchr_last [OF free(2)])
      then show ?thesis using b e unfolding sp by simp
    qed
  qed
qed

end
