(* ===== verification/Tool_Safety.thy ===== *)
theory Tool_Safety
  imports Tool_Users
begin

text \<open>
  Sessions of the command line tool, over every device and every sequence of inputs: what may be
  asked of the device when, and the inputs that bring the tool down.
\<close>

section \<open>Reasoning about commands\<close>

definition ctriple :: "('w tool \<Rightarrow> bool) \<Rightarrow> ('w, 'a) cmd \<Rightarrow> ('a \<Rightarrow> 'w tool \<Rightarrow> bool) \<Rightarrow> bool" where
  "ctriple P m Q \<longleftrightarrow> (\<forall>s a s'. P s \<longrightarrow> m s = Inr (a, s') \<longrightarrow> Q a s')"

definition ckeeps :: "('w tool \<Rightarrow> bool) \<Rightarrow> ('w, 'a) cmd \<Rightarrow> bool" where
  "ckeeps I m \<longleftrightarrow> ctriple I m (\<lambda>_. I)"

lemma ctripleI: "(\<And>s a s'. P s \<Longrightarrow> m s = Inr (a, s') \<Longrightarrow> Q a s') \<Longrightarrow> ctriple P m Q"
  by (auto simp: ctriple_def)

lemma ctripleD: "ctriple P m Q \<Longrightarrow> m s = Inr (a, s') \<Longrightarrow> P s \<Longrightarrow> Q a s'"
  by (auto simp: ctriple_def)

lemma ctriple_bind: "ctriple P m R \<Longrightarrow> (\<And>a. ctriple (R a) (f a) Q) \<Longrightarrow> ctriple P (tbind m f) Q"
  by (fastforce simp: ctriple_def tbind_def rbind_Inr_iff)

lemma ctriple_seq: "ctriple P m (\<lambda>_. R) \<Longrightarrow> ctriple R n Q \<Longrightarrow> ctriple P (tseq m n) Q"
  unfolding tseq_def by (rule ctriple_bind)

lemma ctriple_pre: "ctriple P' m Q \<Longrightarrow> (\<And>s. P s \<Longrightarrow> P' s) \<Longrightarrow> ctriple P m Q"
  by (auto simp: ctriple_def)

lemma ctriple_post: "ctriple P m Q' \<Longrightarrow> (\<And>a s. Q' a s \<Longrightarrow> Q a s) \<Longrightarrow> ctriple P m Q"
  by (auto simp: ctriple_def)

lemma ctriple_keeps: "ckeeps P m \<Longrightarrow> (\<And>a. ctriple P (f a) Q) \<Longrightarrow> ctriple P (tbind m f) Q"
  unfolding ckeeps_def by (rule ctriple_bind)

lemma ctriple_keeps_seq: "ckeeps P m \<Longrightarrow> ctriple P n Q \<Longrightarrow> ctriple P (tseq m n) Q"
  unfolding ckeeps_def by (rule ctriple_seq)

lemma ctriple_ret: "(\<And>s. P s \<Longrightarrow> Q a s) \<Longrightarrow> ctriple P (tret a) Q"
  by (simp add: ctriple_def tret_def)

lemma ctriple_put: "(\<And>s. P s \<Longrightarrow> Q () (f s)) \<Longrightarrow> ctriple P (tput f) Q"
  by (simp add: ctriple_def tput_def)

lemma ctriple_get: "(\<And>a. ctriple (\<lambda>s. P s \<and> f s = a) (g a) Q) \<Longrightarrow> ctriple P (tbind (tget f) g) Q"
  by (auto simp: ctriple_def tbind_def tget_def)

lemma ctriple_if: "(b \<Longrightarrow> ctriple P m Q) \<Longrightarrow> (\<not> b \<Longrightarrow> ctriple P n Q) \<Longrightarrow> ctriple P (if b then m else n) Q"
  by simp

lemma ckeepsD: "ckeeps I m \<Longrightarrow> m s = Inr (a, s') \<Longrightarrow> I s \<Longrightarrow> I s'"
  unfolding ckeeps_def by (rule ctripleD)

lemma ckeeps_bind: "ckeeps I m \<Longrightarrow> (\<And>a. ckeeps I (f a)) \<Longrightarrow> ckeeps I (tbind m f)"
  unfolding ckeeps_def by (rule ctriple_bind)

lemma ckeeps_seq: "ckeeps I m \<Longrightarrow> ckeeps I n \<Longrightarrow> ckeeps I (tseq m n)"
  unfolding ckeeps_def by (rule ctriple_seq)

lemma ckeeps_basic: "ckeeps I (tret a)" "ckeeps I (tget f)" "ckeeps I (tlift r)"
  by (auto simp: ckeeps_def ctriple_def tret_def tget_def tlift_def rbind_Inr_iff)

lemma ckeeps_when: "(c \<Longrightarrow> ckeeps I m) \<Longrightarrow> ckeeps I (twhen c m)"
  by (simp add: twhen_def ckeeps_basic)

lemma ckeeps_if: "(c \<Longrightarrow> ckeeps I m) \<Longrightarrow> (\<not> c \<Longrightarrow> ckeeps I n) \<Longrightarrow> ckeeps I (if c then m else n)"
  by simp

lemma ckeeps_option: "(r = None \<Longrightarrow> ckeeps I m) \<Longrightarrow> (\<And>a. r = Some a \<Longrightarrow> ckeeps I (f a)) \<Longrightarrow> ckeeps I (case r of None \<Rightarrow> m | Some a \<Rightarrow> f a)"
  by (cases r) simp_all

lemma ckeeps_list: "ckeeps I m \<Longrightarrow> (\<And>a as. ckeeps I (f a as)) \<Longrightarrow> ckeeps I (case r of [] \<Rightarrow> m | a # as \<Rightarrow> f a as)"
  by (cases r) simp_all

lemma ckeeps_prod: "(\<And>a b. ckeeps I (f a b)) \<Longrightarrow> ckeeps I (case p of (a, b) \<Rightarrow> f a b)"
  by (cases p) simp

lemma ckeeps_let: "ckeeps I (f v) \<Longrightarrow> ckeeps I (let x = v in f x)"
  by simp

lemmas ckeeps_rules = ckeeps_basic ckeeps_when ckeeps_if ckeeps_option ckeeps_prod ckeeps_let ckeeps_seq ckeeps_bind

section \<open>What may be asked\<close>

text \<open>The watch: whether the device has accepted a challenge since it was connected, and whether its
  content is unlocked. Content is only unlocked after a challenge was accepted; names and keys of
  content are only set while it is unlocked; and it is locked again.\<close>

fun watch :: "device_call \<times> exword_error \<Rightarrow> bool \<times> bool \<Rightarrow> (bool \<times> bool) option" where
  "watch (Connect op, e) (a, u) = Some (False, u)"
| "watch (Disconnect, e) (a, u) = Some (False, u)"
| "watch (Authchallenge c, e) (a, u) = Some (a \<or> e = EXWORD_SUCCESS, u)"
| "watch (Unlock_device, e) (a, u) = (if a \<and> \<not> u then Some (a, True) else None)"
| "watch (Lock_device, e) (a, u) = (if u then Some (a, False) else None)"
| "watch (Cname n c, e) (a, u) = (if u then Some (a, u) else None)"
| "watch (Cryptkey b1 b2, e) (a, u) = (if u then Some (a, u) else None)"
| "watch (_, e) v = Some v"

fun watched :: "(device_call \<times> exword_error) list \<Rightarrow> bool \<times> bool \<Rightarrow> (bool \<times> bool) option" where
  "watched [] v = Some v"
| "watched (c # cs) v = (case watch c v of None \<Rightarrow> None | Some v1 \<Rightarrow> watched cs v1)"

lemma watched_snoc: "watched (cs @ [c]) v = (case watched cs v of None \<Rightarrow> None | Some v1 \<Rightarrow> watch c v1)"
  by (induction cs arbitrary: v) (auto split: option.splits)

definition still :: "bool \<times> bool \<Rightarrow> bool \<Rightarrow> bool \<Rightarrow> 'w tool \<Rightarrow> bool" where
  "still v x y s \<longleftrightarrow> watched (device_log s) (False, False) = Some v \<and> authenticated s = x \<and> connected s = y"

definition plain :: "device_call \<Rightarrow> bool" where
  "plain c \<longleftrightarrow> (\<forall>e v. watch (c, e) v = Some v)"

lemma plain_calls [simp]:
  "plain (Setpath p m)" "plain (Get_file n)" "plain (Send_file n d)" "plain (Remove_file n b)" "plain Get_model" "plain Get_capacity"
  "plain Sd_format" "plain List_dir" "plain (Authinfo b1 b2)" "plain (Userid u)"
  by (simp_all add: plain_def)

lemma still_put: "(\<And>s. device_log (f s) = device_log s \<and> authenticated (f s) = authenticated s \<and> connected (f s) = connected s) \<Longrightarrow>
    ckeeps (still v x y) (tput f)"
  by (simp add: ckeeps_def ctriple_def tput_def still_def)

lemma still_say: "ckeeps (still v x y) (say b)"
  unfolding say_def by (rule still_put) simp

lemma still_scall: "ckeeps (still v x y) (scall f)"
  by (auto simp: ckeeps_def ctriple_def scall_def still_def split: prod.splits)

lemma still_dcall: "plain c \<Longrightarrow> ckeeps (still v x y) (dcall c f)"
  by (cases v) (auto simp: ckeeps_def ctriple_def dcall_def still_def rbind_Inr_iff watched_snoc plain_def)

lemma still_ask: "plain c \<Longrightarrow> ckeeps (still v x y) (ask c f)"
  unfolding ask_def by (rule ckeeps_rules still_dcall | assumption)+

lemmas still_rules = still_say still_scall still_dcall still_ask still_put ckeeps_rules

lemma still_files:
  "ckeeps (still v x y) (read_file ops f)" "ckeeps (still v x y) (write_file ops f b)" "ckeeps (still v x y) (failing_write ops f)"
  unfolding read_file_def write_file_def failing_write_def by (rule still_rules | simp)+

lemma still_find: "ckeeps (still v x y) (read_admini ops ns i)" "ckeeps (still v x y) (find_content ops root cid)"
proof -
  have r: "ckeeps (still v x y) (read_admini ops ns i)" for ns i
    by (induction ns arbitrary: i) (simp_all, (rule still_rules | assumption | simp)+)
  show "ckeeps (still v x y) (read_admini ops ns i)" "ckeeps (still v x y) (find_content ops root cid)"
    unfolding find_content_def by (rule r still_rules | simp)+
qed

lemma still_transfer:
  "ckeeps (still v x y) (upload_file ops dir n k)" "ckeeps (still v x y) (download_file ops dir n k)"
  unfolding upload_file_def download_file_def by (rule still_files still_rules | simp)+

lemma still_names:
  "ckeeps (still v x y) (get_cd_name ops dir)" "ckeeps (still v x y) (get_dict_name ops dir)"
  unfolding get_cd_name_def get_dict_name_def by (rule still_files still_rules | simp)+

lemma still_size: "ckeeps (still v x y) (get_size ops dir)"
proof -
  have "ckeeps (still v x y) (sum_sizes ops dir ns)" for ns
    by (induction ns) (simp_all, (rule still_rules | assumption | simp)+)
  then show ?thesis unfolding get_size_def by - (rule still_rules | assumption | simp)+
qed

lemma still_dirs: "ckeeps (still v x y) (get_data_dir ops)" "ckeeps (still v x y) (content_dir ops ps)"
    "ckeeps (still v x y) (device_path root cid)" "ckeeps (still v x y) (users_file ops)"
  unfolding content_dir_def device_path_def get_data_dir_def users_file_def by (rule still_rules | simp)+

lemma still_users: "ckeeps (still v x y) (save_user_key ops n k)" "ckeeps (still v x y) (load_user_key ops n)"
  unfolding save_user_key_def load_user_key_def by (rule still_dirs still_files still_rules | simp)+

lemma still_decrypt: "ckeeps (still v x y) (content_decrypt ops root cid)"
proof -
  have "ckeeps (still v x y) (decrypt_files ops dir k es)" for dir k es
    by (induction es) (simp_all only: decrypt_files.simps, (rule still_transfer still_rules | assumption | simp)+)
  then show ?thesis
    unfolding content_decrypt_def by - (rule still_dirs still_find still_rules | assumption | simp)+
qed

lemma still_list_line: "ckeeps (still v x y) (list_line ops i n c)"
  unfolding list_line_def by (rule still_rules | simp)+

lemma still_lists: "ckeeps (still v x y) (content_list_remote ops root)" "ckeeps (still v x y) (content_list_local ops)"
proof -
  have r: "ckeeps (still v x y) (list_records ops b i n)" for b i n
    by (induction n arbitrary: i) (simp_all, (rule still_list_line still_rules | assumption | simp)+)
  have l: "ckeeps (still v x y) (list_local ops d i ns)" for d i ns
    by (induction ns arbitrary: i) (simp_all only: list_local.simps, (rule still_list_line still_names still_rules | assumption | simp)+)
  show "ckeeps (still v x y) (content_list_remote ops root)" "ckeeps (still v x y) (content_list_local ops)"
    unfolding content_list_remote_def content_list_local_def
    by (rule r l still_find still_dirs still_rules | simp)+
qed

section \<open>Unlocking and locking\<close>

lemma unlock_step: "ctriple (still (True, False) x y) (ask Unlock_device f) (\<lambda>_. still (True, True) x y)"
  "ctriple (still (True, True) x y) (ask Lock_device f) (\<lambda>_. still (True, False) x y)"
  by (auto simp: ctriple_def ask_def dcall_def tbind_def tret_def still_def rbind_Inr_iff watched_snoc)

lemma unlocked_steps: "ckeeps (still (True, True) x y) (ask (Cname n c) f)" "ckeeps (still (True, True) x y) (dcall (Cryptkey b1 b2) g)"
  by (auto simp: ckeeps_def ctriple_def ask_def dcall_def tbind_def tret_def still_def rbind_Inr_iff watched_snoc)

lemma opened: "ctriple (still (True, False) x y) (open_content ops n c ck) (\<lambda>_. still (True, True) x y)"
  unfolding open_content_def
  by (rule ctriple_bind [OF unlock_step(1)], fold ckeeps_def) (rule unlocked_steps ckeeps_rules)+

lemma remove_locks: "ckeeps (still (True, False) x y) (content_remove ops root cid)"
proof -
  have rest: "ctriple (still (True, False) x y) (tbind (open_content ops n cid ck) (\<lambda>(ok, _).
        tbind (if ok then tbind (ask (Remove_file cid False) (x_remove_file ops cid False)) (\<lambda>e. tret (e = EXWORD_SUCCESS))
               else tret False) (\<lambda>removed.
        tbind (ask Lock_device (x_lock ops)) (\<lambda>e.
        let done' = (removed \<and> e = EXWORD_SUCCESS)
        in tseq (say (ascii (if done' then ''Done\<newline>'' else ''Failed\<newline>''))) (tret done'))))) (\<lambda>_. still (True, False) x y)" for n ck
    apply (rule ctriple_bind [OF opened])
    subgoal for r
      apply (cases r, simp only: prod.case)
      apply (rule ctriple_keeps, (rule still_rules | simp)+)
      apply (rule ctriple_bind [OF unlock_step(2)], fold ckeeps_def, (rule still_rules | simp)+)
      done
    done
  show ?thesis
    unfolding content_remove_def
    by (rule still_find still_rules rest [folded ckeeps_def] | simp)+
qed

lemma install_locks: "ckeeps (still (True, False) x y) (content_install ops root cid)"
proof -
  have files: "ckeeps (still v x y) (install_files ops dir k ns)" for v dir k ns
    by (induction ns) (simp_all only: install_files.simps, (rule still_transfer still_rules | assumption | simp)+)
  have "ckeeps (still (True, False) x y) (install_content ops root cid dir ns nm)" for dir ns nm
    unfolding install_content_def ckeeps_def
    apply (rule ctriple_bind [OF opened])
    subgoal for r
      apply (cases r, simp only: prod.case)
      apply (rule ctriple_keeps_seq, (rule files still_dirs still_rules | simp)+)
      apply (rule ctriple_bind [OF unlock_step(2)], rule ctriple_ret, assumption)
      done
    done
  then show ?thesis
    unfolding content_install_def
    by - (rule still_find still_dirs still_size still_names still_rules | assumption | simp)+
qed

section \<open>Authentication\<close>

definition admitted :: "bool \<Rightarrow> bool \<Rightarrow> bool \<Rightarrow> 'w tool \<Rightarrow> bool" where
  "admitted b x y s \<longleftrightarrow> (\<exists>a. still (a, False) x y s \<and> (b \<longrightarrow> a))"

lemma challenge_step: "ctriple (admitted b x y) (ask (Authchallenge c) f) (\<lambda>e. admitted (b \<or> e = EXWORD_SUCCESS) x y)"
  by (auto simp: ctriple_def ask_def dcall_def tbind_def tret_def admitted_def still_def rbind_Inr_iff watched_snoc)

lemma admitted_keeps: "(\<And>a. ckeeps (still (a, False) x y) m) \<Longrightarrow> ckeeps (admitted b x y) m"
  by (fastforce simp: ckeeps_def ctriple_def admitted_def)

lemma admitted_weaken: "admitted b x y s \<Longrightarrow> (b' \<longrightarrow> b) \<Longrightarrow> admitted b' x y s"
  by (auto simp: admitted_def)

lemma cards_admitted: "ckeeps (admitted True x y) (auth_cards ops c ai es)"
proof (induction es arbitrary: ai)
  case Nil
  then show ?case by (simp add: ckeeps_basic)
next
  case (Cons e es)
  have ch: "ckeeps (admitted True x y) (ask (Authchallenge c) (x_authchallenge ops c))"
    unfolding ckeeps_def by (rule ctriple_post [OF challenge_step]) simp
  have p: "ckeeps (admitted True x y) (ask (Setpath q 0) (x_setpath ops q 0))" "ckeeps (admitted True x y) (dcall (Authinfo b1 b2) g)" for q b1 b2 g
    by (rule admitted_keeps, rule still_rules, simp)+
  show ?case
    by (simp, (rule ch p Cons.IH ckeeps_rules)+)
qed

lemma auth_admits:
  "ctriple (admitted b x y) (content_auth ops junk u k) (\<lambda>ok. admitted (b \<or> ok) x y)"
proof -
  have l: "ckeeps (admitted b x y) (case k of None \<Rightarrow> load_user_key ops u | Some k \<Rightarrow> tret (Some (take 20 k)))"
    by (rule admitted_keeps) (rule still_users still_rules)+
  have p: "plain c \<Longrightarrow> ckeeps (admitted b' x y) (ask c f)" "plain c \<Longrightarrow> ckeeps (admitted b' x y) (dcall c g)" for b' c f and g :: "'a \<Rightarrow> (exword_error \<times> exword_dirent list option \<times> 'a) res"
    by (rule admitted_keeps, rule still_rules, assumption)+
  have after: "ctriple (admitted True x y) (tseq (ask (Setpath [] 0) (x_setpath ops [] 0))
                (tbind (dcall List_dir (x_list ops)) (\<lambda>(_, entries).
                 tseq (auth_cards ops challenge ai (case entries of None \<Rightarrow> [] | Some es \<Rightarrow> es))
                 (tseq (tlift (exword_free_list entries))
                 (tseq (ask (Userid (strncpy 16 u)) (x_userid ops (strncpy 16 u @ take 1 (drop 16 junk)))) (tret True))))))
      (\<lambda>ok. admitted (b \<or> ok) x y)" for challenge ai
    apply (rule ctriple_post [where Q' = "\<lambda>_. admitted True x y"], fold ckeeps_def)
     apply (rule p cards_admitted ckeeps_rules | simp)+
    apply (erule admitted_weaken, simp)
    done
  show ?thesis
    unfolding content_auth_def Let_def
    apply (rule ctriple_keeps [OF l])
    subgoal for c
      apply (cases c)
       apply (simp, rule ctriple_ret, simp)
      apply (simp only: option.case)
      apply (rule ctriple_keeps_seq, rule p, simp)
      apply (rule ctriple_bind [OF challenge_step])
      apply (rule ctriple_if)
       apply (rule ctriple_ret, erule admitted_weaken, simp)
      apply (rule ctriple_pre [OF after], erule admitted_weaken, simp)
      done
    done
qed

section \<open>Commands\<close>

definition online :: "'w tool \<Rightarrow> bool" where
  "online s \<longleftrightarrow> (\<exists>x. admitted x x True s)"

definition in_order :: "'w tool \<Rightarrow> bool" where
  "in_order s \<longleftrightarrow> online s \<or> (\<exists>a. still (a, False) False False s)"

lemma online_keeps: "(\<And>v x y. ckeeps (still v x y) m) \<Longrightarrow> ckeeps online m"
  by (fastforce simp: ckeeps_def ctriple_def online_def admitted_def)

lemma in_order_keeps: "(\<And>v x y. ckeeps (still v x y) m) \<Longrightarrow> ckeeps in_order m"
  by (fastforce simp: ckeeps_def ctriple_def in_order_def online_def admitted_def)

lemma args_still: "ckeeps (still v x y) peek_arg" "ckeeps (still v x y) dequeue_arg" "ckeeps (still v x y) clear_arg_list"
    "ckeeps (still v x y) (queue_arg a)" "ckeeps (still v x y) (queue_all ts)" "ckeeps (still v x y) (fill_arg_list l)"
proof -
  have q: "ckeeps (still v x y) (queue_arg a)" for a unfolding queue_arg_def by (rule still_rules | simp)+
  have qs: "ckeeps (still v x y) (queue_all ts)" for ts by (induction ts) (simp_all only: queue_all.simps, (rule q still_rules | assumption)+)
  show "ckeeps (still v x y) peek_arg" "ckeeps (still v x y) dequeue_arg" "ckeeps (still v x y) clear_arg_list"
    "ckeeps (still v x y) (queue_arg a)" "ckeeps (still v x y) (queue_all ts)" "ckeeps (still v x y) (fill_arg_list l)"
    unfolding peek_arg_def dequeue_arg_def clear_arg_list_def fill_arg_list_def
    by (rule q qs still_rules ckeeps_list | simp)+
qed

lemma still_setpath: "ckeeps (still v x y) (set_device_path ops d p m)"
  unfolding set_device_path_def by (rule still_rules | simp)+

lemma still_set: "ckeeps (still v x y) (set_command ops)"
  unfolding set_command_def set_debug_def set_mkdir_def by (rule args_still still_rules | simp)+

lemma still_help: "ckeeps (still v x y) (help_command ops)"
  unfolding help_command_def by (rule args_still still_rules | simp)+

lemma still_error: "ckeeps (still v x y) (say_error e)"
  unfolding say_error_def by (rule still_rules)

lemma still_simple:
  "ckeeps (still v x y) (model ops)" "ckeeps (still v x y) (capacity ops)" "ckeeps (still v x y) (format ops)"
  "ckeeps (still v x y) (send_command ops)" "ckeeps (still v x y) (get_command ops)" "ckeeps (still v x y) (delete_command ops)"
  "ckeeps (still v x y) (setpath ops)"
  unfolding model_def capacity_def format_def send_command_def get_command_def delete_command_def setpath_def if_connected_def
  by (rule args_still still_error still_files still_setpath still_rules | simp)+

lemma still_list: "ckeeps (still v x y) (list_command ops)"
proof -
  have "ckeeps (still v x y) (entry_lines ops es)" for es
    by (induction es) (simp_all only: entry_lines.simps entry_line_def, (rule still_rules | assumption)+)
  then show ?thesis unfolding list_command_def if_connected_def
    by - (rule still_error still_rules | assumption | simp)+
qed

lemma reset_online: "ckeeps online (reset_command ops junk)"
proof -
  have pre: "ctriple (admitted x x True) (content_reset ops junk u) (\<lambda>ok. admitted ok x True)" for x u
    unfolding content_reset_def Let_def
    apply (rule ctriple_keeps_seq, rule admitted_keeps, rule still_rules, simp)
    apply (rule ctriple_keeps, rule admitted_keeps, rule still_rules, simp)
    subgoal for r
      apply (cases r, simp only: prod.case)
      apply (rule ctriple_keeps_seq, rule admitted_keeps, rule still_rules, simp)
      apply (rule ctriple_keeps_seq, rule admitted_keeps, rule still_rules)
      apply (rule ctriple_keeps, rule admitted_keeps, rule still_users)
      apply (rule ctriple_keeps_seq, rule admitted_keeps, (rule still_rules)+)
      apply (rule ctriple_post [OF auth_admits], erule admitted_weaken, simp)
      done
    done
  have setb: "ctriple (admitted ok x True) (tput (\<lambda>s. s\<lparr>authenticated := ok\<rparr>)) (\<lambda>_. online)" for ok x
    by (rule ctriple_put) (auto simp: online_def admitted_def still_def)
  have "ctriple online (tbind (content_reset ops junk u) (\<lambda>ok. tput (\<lambda>s. s\<lparr>authenticated := ok\<rparr>))) (\<lambda>_. online)" for u
  proof (rule ctripleI)
    fix s a s' assume o: "online s" and run: "tbind (content_reset ops junk u) (\<lambda>ok. tput (\<lambda>s. s\<lparr>authenticated := ok\<rparr>)) s = Inr (a, s')"
    from o obtain x where "admitted x x True s" by (auto simp: online_def)
    with ctripleD [OF ctriple_bind [OF pre setb] run] show "online s'" by blast
  qed
  then have "ckeeps online (tbind (content_reset ops junk u) (\<lambda>ok. tput (\<lambda>s. s\<lparr>authenticated := ok\<rparr>)))" for u
    by (simp add: ckeeps_def)
  then show ?thesis
    unfolding reset_command_def
    by - (rule online_keeps [OF args_still(1)] online_keeps [OF still_say] ckeeps_option | assumption | rule ckeeps_bind)+
qed

lemma auth_online: "ckeeps online (auth_command ops junk)"
proof -
  have user: "ckeeps (still v x y) (auth_user ops)" for v x y
    unfolding auth_user_def by (rule args_still still_rules | simp)+
  have "ckeeps online (try_auth ops junk u k)" for u k
  proof -
    have "ctriple (admitted x x True) (try_auth ops junk u k) (\<lambda>_. online)" for x
      unfolding try_auth_def
      apply (rule ctriple_bind [OF auth_admits])
      apply (rule ctriple_if)
       apply (rule ctriple_seq [where R = online], rule ctriple_put)
        apply (auto simp: online_def admitted_def still_def)[1]
       apply (rule online_keeps [OF still_say, unfolded ckeeps_def])
      apply (rule ctriple_pre [OF online_keeps [OF still_say, unfolded ckeeps_def]])
      apply (auto simp: online_def)
      done
    then show ?thesis unfolding ckeeps_def online_def ctriple_def by blast
  qed
  then show ?thesis
    unfolding auth_command_def
    by - (rule ckeeps_rules online_keeps [OF args_still(1)] online_keeps [OF still_say] online_keeps [OF user] | assumption)+
qed

lemma change_online: "ckeeps online (change_content ops root sub)"
proof -
  have run: "ctriple (\<lambda>s. online s \<and> authenticated s = ok) (if \<not> ok then say b
            else if sub = ascii ''decrypt'' then tseq (content_decrypt ops root cid) (tret ())
            else if sub = ascii ''install'' then tseq (content_install ops root cid) (tret ())
            else tseq (content_remove ops root cid) (tret ())) (\<lambda>_. online)" for ok b cid
  proof (cases ok)
    case False
    then show ?thesis by (auto intro: ctriple_pre [OF online_keeps [OF still_say, unfolded ckeeps_def]])
  next
    case True
    have "ckeeps (still (True, False) True True) (if sub = ascii ''decrypt'' then tseq (content_decrypt ops root cid) (tret ())
            else if sub = ascii ''install'' then tseq (content_install ops root cid) (tret ())
            else tseq (content_remove ops root cid) (tret ()))"
      by (rule still_decrypt install_locks remove_locks ckeeps_rules)+
    then have "ctriple (still (True, False) True True) (if sub = ascii ''decrypt'' then tseq (content_decrypt ops root cid) (tret ())
            else if sub = ascii ''install'' then tseq (content_install ops root cid) (tret ())
            else tseq (content_remove ops root cid) (tret ())) (\<lambda>_. online)"
      unfolding ckeeps_def by (rule ctriple_post) (auto simp: online_def admitted_def)
    then show ?thesis
      by (simp only: True simp_thms if_False) (erule ctriple_pre, auto simp: online_def admitted_def still_def)
  qed
  have "ckeeps online (tbind (tget authenticated) (\<lambda>ok. if \<not> ok then say b
            else if sub = ascii ''decrypt'' then tseq (content_decrypt ops root cid) (tret ())
            else if sub = ascii ''install'' then tseq (content_install ops root cid) (tret ())
            else tseq (content_remove ops root cid) (tret ())))" for b cid
    unfolding ckeeps_def by (rule ctriple_get) (rule run)
  then show ?thesis
    unfolding change_content_def
    by - (rule online_keeps [OF args_still(1)] online_keeps [OF still_say] ckeeps_option ckeeps_if | assumption | rule ckeeps_bind)+
qed

lemma subfunction_online: "ckeeps online (run_subfunction ops junk root sub)"
proof -
  have "ckeeps (still v x y) (list_content ops root)" for v x y
    unfolding list_content_def by (rule args_still still_lists still_rules)+
  then show ?thesis
    unfolding run_subfunction_def
    by - (rule online_keeps change_online reset_online auth_online online_keeps [OF still_say] ckeeps_if | assumption)+
qed

section \<open>Sessions\<close>

lemma in_order_connected: "ckeeps online m \<Longrightarrow> ckeeps in_order (if_connected m)"
  unfolding if_connected_def ckeeps_def
  by (rule ctriple_get, rule ctriple_if)
     (auto simp: ctriple_def tret_def in_order_def online_def admitted_def still_def)

lemma content_in_order: "ckeeps in_order (content ops junk)"
  unfolding content_def
  by (rule in_order_connected)
     (rule subfunction_online ckeeps_rules online_keeps [OF args_still(1)] online_keeps [OF args_still(2)]
        online_keeps [OF still_setpath] online_keeps [OF still_say] online_keeps [OF still_ask] | simp)+

lemma disconnect_step: "ckeeps in_order (disconnect_tool ops)"
proof -
  have "ctriple (still (a, False) x y) (ask Disconnect (x_disconnect ops)) (\<lambda>_. still (False, False) x y)" for a x y
    by (auto simp: ctriple_def ask_def dcall_def tbind_def tret_def still_def rbind_Inr_iff watched_snoc)
  note gone = this
  have "ctriple (still (a, False) x True)
      (tseq (twhen (\<not> ev) (say (ascii ''disconnecting...done\<newline>'')))
      (tseq (ask Disconnect (x_disconnect ops))
      (tput (\<lambda>s. s\<lparr>cwd := None, mode := 0, region := 0, connected := False, authenticated := False,
                    disconnect_event := False, dev_list := []\<rparr>)))) (\<lambda>_. in_order)" for a x ev
    by (rule ctriple_keeps_seq, (rule still_rules)+, rule ctriple_seq [OF gone], rule ctriple_put)
       (auto simp: in_order_def still_def)
  then have run: "ctriple online (tbind (tget disconnect_event) (\<lambda>ev. tseq (twhen (\<not> ev) (say (ascii ''disconnecting...done\<newline>'')))
      (tseq (ask Disconnect (x_disconnect ops))
      (tput (\<lambda>s. s\<lparr>cwd := None, mode := 0, region := 0, connected := False, authenticated := False,
                    disconnect_event := False, dev_list := []\<rparr>))))) (\<lambda>_. in_order)"
    by - (rule ctriple_get, fastforce simp: ctriple_def online_def admitted_def)
  show ?thesis
    unfolding disconnect_tool_def ckeeps_def
    by (rule ctriple_get, rule ctriple_if, rule ctriple_ret, simp, rule ctriple_pre [OF run])
       (auto simp: in_order_def still_def)
qed

lemma quit_in_order: "ckeeps in_order (quit ops)"
  unfolding quit_def by (rule ckeeps_seq disconnect_step in_order_keeps still_put | simp)+

lemma still_options: "ckeeps (still v x y) connect_options"
  unfolding connect_options_def by (rule args_still still_rules | simp)+

lemma still_scan: "ckeeps (still v x y) (scan_devices ops)"
proof -
  have "ckeeps (still v x y) (dev_list_scan es)" for es
    by (induction es) (simp_all only: dev_list_scan.simps, (rule still_rules | assumption | simp)+)
  then show ?thesis
    unfolding scan_devices_def by - (rule still_rules | assumption | simp)+
qed

lemma offline: "in_order s \<Longrightarrow> connected s = c \<Longrightarrow> \<not> c \<Longrightarrow> (\<And>a. still (a, False) False False s \<Longrightarrow> R) \<Longrightarrow> R"
  by (auto simp: in_order_def online_def admitted_def still_def)

lemma connect_in_order: "ckeeps in_order (connect_tool ops)"
proof -
  have dial: "ctriple (still (a, False) False False) (ask (Connect op) (x_connect ops op)) (\<lambda>_. still (False, False) False False)" for a op
    by (auto simp: ctriple_def ask_def dcall_def tbind_def tret_def still_def rbind_Inr_iff watched_snoc)
  have open': "ctriple (still (False, False) False False) (tput (\<lambda>s. s\<lparr>connected := True, mode := op AND 0xff00, region := op AND 0x00ff\<rparr>)) (\<lambda>_. online)" for op
    by (rule ctriple_put) (auto simp: online_def admitted_def still_def)
  have "ctriple (still (False, False) False False) (if e \<noteq> EXWORD_SUCCESS then say (ascii ''device not found\<newline>'')
             else tseq (scan_devices ops)
                  (tseq (set_device_path ops INTERNAL_PATH SLASH 2)
                  (tseq (tput (\<lambda>s. s\<lparr>connected := True, mode := op AND 0xff00, region := op AND 0x00ff\<rparr>))
                  (say (ascii ''done\<newline>''))))) (\<lambda>_. in_order)" for e op
    apply (rule ctriple_if)
     apply (rule ctriple_post [OF still_say [unfolded ckeeps_def]], auto simp: in_order_def)[1]
    apply (rule ctriple_keeps_seq [OF still_scan], rule ctriple_keeps_seq [OF still_setpath])
    apply (rule ctriple_seq [OF open'])
    apply (rule ctriple_post [OF online_keeps [OF still_say, unfolded ckeeps_def]], simp add: in_order_def)
    done
  note finish = this
  have "ctriple (still (a, False) False False) (tbind connect_options (\<lambda>opt.
          case opt of None \<Rightarrow> tret ()
          | Some options \<Rightarrow>
            tseq (say (ascii ''connecting to device...''))
            (tbind (ask (Connect options) (x_connect ops options)) (\<lambda>e.
             if e \<noteq> EXWORD_SUCCESS then say (ascii ''device not found\<newline>'')
             else tseq (scan_devices ops)
                  (tseq (set_device_path ops INTERNAL_PATH SLASH 2)
                  (tseq (tput (\<lambda>s. s\<lparr>connected := True, mode := options AND 0xff00, region := options AND 0x00ff\<rparr>))
                  (say (ascii ''done\<newline>'')))))))) (\<lambda>_. in_order)" for a
    apply (rule ctriple_keeps [OF still_options])
    subgoal for r
      apply (cases r; simp only: option.case)
       apply (rule ctriple_ret, auto simp: in_order_def)[1]
      apply (rule ctriple_keeps_seq [OF still_say], rule ctriple_bind [OF dial], rule finish)
      done
    done
  note run = this
  show ?thesis
    unfolding connect_tool_def ckeeps_def
    apply (rule ctriple_get, rule ctriple_if, rule ctriple_ret, simp)
    apply (rule ctripleI, elim conjE, erule (2) offline)
    apply (erule (1) ctripleD [OF run])
    done
qed

lemma events_in_order: "ckeeps in_order (do_events ops)"
proof -
  have "ckeeps (still v x y) (notify_all rs)" for v x y rs
    by (induction rs) (simp_all only: notify_all.simps disconnect_notify_def, (rule still_rules | assumption | simp)+)
  note n = in_order_keeps [OF this]
  have p: "ckeeps in_order (\<lambda>s. rbind (x_poll ops (world s)) (\<lambda>(rs, w). Inr (rs, s\<lparr>world := w\<rparr>)))"
    by (rule in_order_keeps) (auto simp: ckeeps_def ctriple_def still_def rbind_Inr_iff)
  show ?thesis
    unfolding do_events_def by (rule n p disconnect_step ckeeps_rules)+
qed

lemma react_in_order: "ckeeps in_order (react ops junk i)"
proof -
  have "ckeeps in_order (process_command ops junk)"
    unfolding process_command_def run_command_def
    by (rule connect_in_order disconnect_step quit_in_order content_in_order in_order_keeps [OF still_help] in_order_keeps [OF still_set]
      in_order_keeps [OF still_list] in_order_keeps [OF still_simple(1)] in_order_keeps [OF still_simple(2)] in_order_keeps [OF still_simple(3)]
      in_order_keeps [OF still_simple(4)] in_order_keeps [OF still_simple(5)] in_order_keeps [OF still_simple(6)]
      in_order_keeps [OF still_simple(7)] in_order_keeps [OF args_still(1)] in_order_keeps [OF args_still(2)] in_order_keeps [OF still_say] ckeeps_rules)+
  note c = this
  show ?thesis
    by (cases i; simp only: react.simps)
       (rule c events_in_order in_order_keeps [OF args_still(3)] in_order_keeps [OF args_still(6)] ckeeps_rules)+
qed

lemma loop_in_order: "ckeeps in_order (interactive_loop ops junk is)"
  by (induction "is") (simp_all only: interactive_loop.simps, (rule react_in_order ckeeps_rules | assumption)+)



section \<open>Inputs that bring the tool down\<close>

lemma tokens_blank: "list_all blank l \<Longrightarrow> tokens [] l = []"
  by (induction l) simp_all

text \<open>A line that holds only blanks and is not empty ends the program: the splitter queues the
  first token without asking whether there is one.\<close>

theorem tool_blank_line_crashes:
  assumes "l \<noteq> []" and "list_all blank l"
  shows "react ops junk (Line l) s = Inl Abort"
  using assms by (simp add: fill_arg_list_def tokens_blank queue_arg_def tool_monad)

theorem tool_blank_line_crashes_witness:
  "react disk_ops [] (Line (ascii '' '')) (tool_start (\<lambda>_. None, [])) = Inl Abort"
  by (rule tool_blank_line_crashes) (simp_all add: blank_def ascii_def)

text \<open>A device that accepts the connection but refuses its paths leaves the tool connected with
  no current path, and the content commands then read through that missing path.\<close>

theorem tool_connected_without_path:
  assumes "x_connect ops (EXWORD_MODE_LIBRARY OR 0x20) w = Inr (EXWORD_SUCCESS, (), w1)"
    and "\<And>p m v. x_setpath ops p m v = Inr (EXWORD_ERROR_OTHER, (), v)"
  shows "\<exists>s. connect_tool ops (tool_start w) = Inr ((), s) \<and> connected s \<and> cwd s = None \<and> content ops junk s = Inl Abort"
proof -
  have "content ops junk s = Inl Abort" if "connected s" "cwd s = None" for s
    using that by (simp add: content_def if_connected_def medium_def tool_monad)
  moreover have "\<exists>s. connect_tool ops (tool_start w) = Inr ((), s) \<and> connected s \<and> cwd s = None"
    using assms by (simp add: connect_tool_def connect_options_def peek_arg_def scan_devices_def set_device_path_def mkpath_def
      tool_start_def say_def tool_monad ask_def dcall_def Let_def)
  ultimately show ?thesis by blast
qed

theorem tool_connected_without_path_witness:
  "\<exists>s. connect_tool (disk_ops\<lparr>x_setpath := \<lambda>_ _ w. Inr (EXWORD_ERROR_OTHER, (), w)\<rparr>) (tool_start (\<lambda>_. None, [])) = Inr ((), s) \<and>
     connected s \<and> cwd s = None \<and> content (disk_ops\<lparr>x_setpath := \<lambda>_ _ w. Inr (EXWORD_ERROR_OTHER, (), w)\<rparr>) [] s = Inl Abort"
  by (rule tool_connected_without_path) (simp_all add: disk_ops_def)

end
