(* ===== verification/X_Model.thy ===== *)
theory X_Model
  imports Prelude
begin

text \<open>
  What the programs of the desktop (\<^verbatim>\<open>src/x11/apps\<close>) use of Xlib and of \<^verbatim>\<open>printf\<close>: the drawing requests
  in the order they are sent, the events, key symbols, and numbers as text. Pixel values are
  whatever the server allocated.
\<close>

type_synonym pixel = nat

datatype drawable = Window_pixels | Buffer_pixels

datatype xcall =
    Set_foreground pixel
  | Fill_rectangle drawable int int int int
  | Draw_rectangle drawable int int int int
  | Fill_arc drawable int int int int
  | Draw_arc drawable int int int int
  | Draw_string drawable int int string
  | Copy_area int int
  | Flush

datatype keysym =
    XK_Up | XK_Down | XK_Left | XK_Right | XK_Return | XK_KP_Enter | XK_Escape | XK_BackSpace | XK_Prior | XK_Next
  | XK_Home | XK_End | XK_F5 | XK_letter char | XK_other nat

fun digits :: "nat \<Rightarrow> string" where
  "digits n = (if n < 10 then [char_of (48 + n)] else digits (n div 10) @ [char_of (48 + n mod 10)])"

declare digits.simps [simp del]

definition int_text :: "int \<Rightarrow> string" where
  "int_text i = (if i < 0 then CHR ''-'' # digits (nat (- i)) else digits (nat i))"

text \<open>A rectangle that lies inside a window of the given size.\<close>

definition inside :: "int \<Rightarrow> int \<Rightarrow> int \<Rightarrow> int \<Rightarrow> int \<Rightarrow> int \<Rightarrow> bool" where
  "inside W H x y w h \<longleftrightarrow> 0 \<le> x \<and> 0 \<le> y \<and> 0 \<le> w \<and> 0 \<le> h \<and> x + w \<le> W \<and> y + h \<le> H"

fun drawn_inside :: "int \<Rightarrow> int \<Rightarrow> xcall \<Rightarrow> bool" where
  "drawn_inside W H (Fill_rectangle d x y w h) = inside W H x y w h"
| "drawn_inside W H (Draw_rectangle d x y w h) = inside W H x y (w + 1) (h + 1)"
| "drawn_inside W H (Fill_arc d x y w h) = inside W H x y w h"
| "drawn_inside W H (Draw_arc d x y w h) = inside W H x y (w + 1) (h + 1)"
| "drawn_inside W H (Draw_string d x y t) = (0 \<le> x \<and> x < W \<and> 0 \<le> y \<and> y < H)"
| "drawn_inside W H (Copy_area w h) = inside W H 0 0 w h"
| "drawn_inside W H (Set_foreground c) = True"
| "drawn_inside W H Flush = True"

text \<open>\<^verbatim>\<open>snprintf\<close> into a block of \<open>n\<close> bytes.\<close>

definition snprintf :: "nat \<Rightarrow> string \<Rightarrow> string" where
  "snprintf n t = take (n - 1) t"

end
