(* ===== verification/Snake.thy ===== *)
theory Snake
  imports X_Model
begin

text \<open>
  The snake game (\<^verbatim>\<open>src/x11/apps/snake.c\<close>): the rules, the drawing and the event loop, over any random
  number generator and any file system for the score notice. A game refines the moves of a list
  of cells; the snake stays on the board and never bites its own neck.
\<close>

section \<open>The game\<close>

definition GRID_W :: int where "GRID_W = 30"
definition GRID_H :: int where "GRID_H = 18"
definition CELL :: int where "CELL = 12"
definition HEADER :: int where "HEADER = 25"
definition WIDTH :: int where "WIDTH = GRID_W * CELL"
definition HEIGHT :: int where "HEIGHT = HEADER + GRID_H * CELL"
definition MAX_SNAKE :: nat where "MAX_SNAKE = nat (GRID_W * GRID_H)"

record point =
  px :: int
  py :: int

record game =
  body :: "point list"      \<comment> \<open>the array of \<^verbatim>\<open>MAX_SNAKE\<close> points\<close>
  len :: nat
  dx :: int
  dy :: int
  next_dx :: int
  next_dy :: int
  food :: point
  score :: int
  paused :: bool
  over :: bool

definition short :: "int \<Rightarrow> int" where
  "short n = signed_take_bit 15 n"

text \<open>The world answers \<^verbatim>\<open>rand\<close> (not negative) and keeps the files of the notice.\<close>

record 'w snake_env =
  rand_of :: "'w \<Rightarrow> nat \<times> 'w"
  getpid :: int
  fopen_w :: "string \<Rightarrow> 'w \<Rightarrow> bool \<times> 'w"
  fputs_close :: "string \<Rightarrow> string \<Rightarrow> 'w \<Rightarrow> 'w"
  rename_file :: "string \<Rightarrow> string \<Rightarrow> 'w \<Rightarrow> 'w"

definition occupies :: "game \<Rightarrow> int \<Rightarrow> int \<Rightarrow> bool" where
  "occupies g a b = list_ex (\<lambda>p. px p = a \<and> py p = b) (take (len g) (body g))"

fun place_attempts :: "nat \<Rightarrow> 'w snake_env \<Rightarrow> game \<Rightarrow> 'w \<Rightarrow> game \<times> 'w" where
  "place_attempts 0 env g w = (g, w)"
| "place_attempts (Suc n) env g w =
     (let (r1, w1) = rand_of env w; (r2, w2) = rand_of env w1; a = int r1 mod GRID_W; b = int r2 mod GRID_H
      in if \<not> occupies g a b then (g\<lparr>food := \<lparr>px = short a, py = short b\<rparr>\<rparr>, w2) else place_attempts n env g w2)"

definition place_food :: "'w snake_env \<Rightarrow> game \<Rightarrow> 'w \<Rightarrow> game \<times> 'w" where
  "place_food env g w = place_attempts MAX_SNAKE env g w"

text \<open>The game of all zero bytes, and a new one.\<close>

definition zero_game :: game where
  "zero_game = \<lparr>body = replicate MAX_SNAKE \<lparr>px = 0, py = 0\<rparr>, len = 0, dx = 0, dy = 0, next_dx = 0, next_dy = 0,
     food = \<lparr>px = 0, py = 0\<rparr>, score = 0, paused = False, over = False\<rparr>"

fun lay_body :: "nat \<Rightarrow> nat \<Rightarrow> point list \<Rightarrow> point list" where
  "lay_body 0 i b = b"
| "lay_body (Suc n) i b = lay_body n (Suc i) (b[i := \<lparr>px = short (GRID_W div 2 - int i), py = GRID_H div 2\<rparr>])"

definition reset_game :: "'w snake_env \<Rightarrow> 'w \<Rightarrow> game \<times> 'w" where
  "reset_game env w =
     (let g = zero_game\<lparr>len := 5, dx := 1, next_dx := 1\<rparr>
      in place_food env (g\<lparr>body := lay_body (len g) 0 (body g)\<rparr>) w)"

definition notice_score :: "'w snake_env \<Rightarrow> int \<Rightarrow> 'w \<Rightarrow> 'w" where
  "notice_score env sc w =
     (let temporary = snprintf 64 (''/tmp/holo-notify.snake.'' @ int_text (getpid env));
          (ok, w1) = fopen_w env temporary w
      in if \<not> ok then w1
         else rename_file env temporary ''/tmp/holo-notify''
                (fputs_close env temporary (''Snake game over - score '' @ int_text sc @ ''\<newline>'') w1))"

text \<open>The shift of the body: \<^verbatim>\<open>for (i = length - 1; i > 0; i--) body[i] = body[i - 1]\<close>.\<close>

fun shift_body :: "nat \<Rightarrow> point list \<Rightarrow> point list" where
  "shift_body 0 b = b"
| "shift_body (Suc i) b = shift_body i (b[Suc i := b ! i])"

definition off_board :: "point \<Rightarrow> bool" where
  "off_board p \<longleftrightarrow> px p < 0 \<or> px p \<ge> GRID_W \<or> py p < 0 \<or> py p \<ge> GRID_H"

definition step :: "'w snake_env \<Rightarrow> game \<Rightarrow> 'w \<Rightarrow> game \<times> 'w" where
  "step env g w =
     (if paused g \<or> over g then (g, w)
      else let g1 = g\<lparr>dx := next_dx g, dy := next_dy g\<rparr>;
               head = \<lparr>px = short (px (body g1 ! 0) + dx g1), py = short (py (body g1 ! 0) + dy g1)\<rparr>
           in if off_board head \<or> occupies g1 (px head) (py head)
              then (g1\<lparr>over := True\<rparr>, notice_score env (score g1) w)
              else let ate = (px head = px (food g1) \<and> py head = py (food g1));
                       n = (if ate \<and> len g1 < MAX_SNAKE then Suc (len g1) else len g1);
                       g2 = g1\<lparr>len := n, body := (shift_body (n - 1) (body g1))[0 := head]\<rparr>
                   in if ate then place_food env (g2\<lparr>score := score g2 + 10\<rparr>) w else (g2, w))"

definition direction :: "game \<Rightarrow> int \<Rightarrow> int \<Rightarrow> game" where
  "direction g a b = (if a \<noteq> - dx g \<or> b \<noteq> - dy g then g\<lparr>next_dx := a, next_dy := b\<rparr> else g)"

section \<open>Keys, drawing and the loop\<close>

definition handle_key :: "'w snake_env \<Rightarrow> keysym \<Rightarrow> game \<Rightarrow> 'w \<Rightarrow> bool \<times> game \<times> 'w" where
  "handle_key env k g w =
     (if k \<in> {XK_Up, XK_letter CHR ''w'', XK_letter CHR ''W'', XK_letter CHR ''k''} then (True, direction g 0 (-1), w)
      else if k \<in> {XK_Down, XK_letter CHR ''s'', XK_letter CHR ''S'', XK_letter CHR ''j''} then (True, direction g 0 1, w)
      else if k \<in> {XK_Left, XK_letter CHR ''a'', XK_letter CHR ''A'', XK_letter CHR ''h''} then (True, direction g (-1) 0, w)
      else if k \<in> {XK_Right, XK_letter CHR ''d'', XK_letter CHR ''D'', XK_letter CHR ''l''} then (True, direction g 1 0, w)
      else if k \<in> {XK_letter CHR '' '', XK_letter CHR ''p'', XK_letter CHR ''P''} then (True, g\<lparr>paused := \<not> paused g\<rparr>, w)
      else if k \<in> {XK_Return, XK_KP_Enter} then (if over g then (True, reset_game env w) else (True, g, w))
      else if k \<in> {XK_letter CHR ''q'', XK_letter CHR ''Q'', XK_Escape} then (False, g, w)
      else (True, g, w))"

record ui =
  dark :: pixel
  panel :: pixel
  cyan :: pixel
  blue :: pixel
  white :: pixel
  wm_delete :: nat

text \<open>Allocated by name, with the fallbacks of \<^verbatim>\<open>main\<close>.\<close>

definition color :: "(string \<Rightarrow> pixel option) \<Rightarrow> string \<Rightarrow> pixel \<Rightarrow> pixel" where
  "color alloc name fallback = (case alloc name of None \<Rightarrow> fallback | Some p \<Rightarrow> p)"

definition open_ui :: "(string \<Rightarrow> pixel option) \<Rightarrow> pixel \<Rightarrow> pixel \<Rightarrow> nat \<Rightarrow> ui" where
  "open_ui alloc black_pixel white_pixel delete_atom =
     (let d = color alloc ''#111111'' black_pixel; c = color alloc ''#0099cc'' white_pixel
      in \<lparr>dark = d, panel = color alloc ''#242424'' d, cyan = c, blue = color alloc ''#225a70'' c, white = white_pixel,
          wm_delete = delete_atom\<rparr>)"

definition fill :: "pixel \<Rightarrow> int \<Rightarrow> int \<Rightarrow> int \<Rightarrow> int \<Rightarrow> xcall list" where
  "fill p a b w h = [Set_foreground p, Fill_rectangle Buffer_pixels a b w h]"

definition title_text :: "game \<Rightarrow> string" where
  "title_text g = snprintf 64 (''SNAKE   Score '' @ int_text (score g) @ (if paused g then ''   PAUSED'' else '''') @
     (if over g then ''   GAME OVER - ENTER restarts'' else ''''))"

fun draw_body :: "ui \<Rightarrow> game \<Rightarrow> nat \<Rightarrow> xcall list" where
  "draw_body u g 0 = []"
| "draw_body u g (Suc i) =
     fill (if i = 0 then white u else blue u) (px (body g ! i) * CELL + 1) (HEADER + py (body g ! i) * CELL + 1) (CELL - 2) (CELL - 2)
       @ draw_body u g i"

definition draw :: "ui \<Rightarrow> game \<Rightarrow> xcall list" where
  "draw u g =
     fill (dark u) 0 0 WIDTH HEIGHT @ fill (panel u) 0 0 WIDTH HEADER @ fill (cyan u) 0 (HEADER - 2) WIDTH 2 @
     [Set_foreground (white u), Draw_string Buffer_pixels 7 17 (title_text g)] @
     fill (cyan u) (px (food g) * CELL + 3) (HEADER + py (food g) * CELL + 3) (CELL - 6) (CELL - 6) @
     draw_body u g (len g) @
     [Set_foreground (cyan u), Draw_rectangle Buffer_pixels 0 HEADER (WIDTH - 1) (GRID_H * CELL - 1), Copy_area WIDTH HEIGHT, Flush]"

datatype xevent = Expose nat | KeyPress keysym | ButtonPress | ClientMessage nat | Other_event

record 'w playing =
  game_of :: game
  world_of :: 'w
  running :: bool
  calls :: "xcall list"

definition handle_event :: "'w snake_env \<Rightarrow> ui \<Rightarrow> xevent \<Rightarrow> 'w playing \<Rightarrow> 'w playing" where
  "handle_event env u e s =
     (case e of
        Expose c \<Rightarrow> if c = 0 then s\<lparr>calls := calls s @ draw u (game_of s)\<rparr> else s
      | KeyPress k \<Rightarrow> (case handle_key env k (game_of s) (world_of s) of (r, g, w) \<Rightarrow> s\<lparr>running := r, game_of := g, world_of := w\<rparr>)
      | ButtonPress \<Rightarrow> if over (game_of s) then (case reset_game env (world_of s) of (g, w) \<Rightarrow> s\<lparr>game_of := g, world_of := w\<rparr>) else s
      | ClientMessage a \<Rightarrow> if a = wm_delete u then s\<lparr>running := False\<rparr> else s
      | Other_event \<Rightarrow> s)"

fun pending_events :: "'w snake_env \<Rightarrow> ui \<Rightarrow> xevent list \<Rightarrow> 'w playing \<Rightarrow> 'w playing" where
  "pending_events env u [] s = s"
| "pending_events env u (e # es) s = (if running s then pending_events env u es (handle_event env u e s) else s)"

text \<open>One turn of the loop: \<^verbatim>\<open>select\<close> ran out or did not, then the pending events.\<close>

definition turn :: "'w snake_env \<Rightarrow> ui \<Rightarrow> bool \<times> xevent list \<Rightarrow> 'w playing \<Rightarrow> 'w playing" where
  "turn env u t s =
     (let s1 = (if fst t then (case step env (game_of s) (world_of s) of (g, w) \<Rightarrow> s\<lparr>game_of := g, world_of := w, calls := calls s @ draw u g\<rparr>)
                else s)
      in pending_events env u (snd t) s1)"

fun play :: "'w snake_env \<Rightarrow> ui \<Rightarrow> (bool \<times> xevent list) list \<Rightarrow> 'w playing \<Rightarrow> 'w playing" where
  "play env u [] s = s"
| "play env u (t # ts) s = (if running s then play env u ts (turn env u t s) else s)"

definition snake_main :: "'w snake_env \<Rightarrow> ui \<Rightarrow> (bool \<times> xevent list) list \<Rightarrow> 'w \<Rightarrow> 'w playing" where
  "snake_main env u ts w =
     (case reset_game env w of (g, w1) \<Rightarrow> play env u ts \<lparr>game_of = g, world_of = w1, running = True, calls = draw u g\<rparr>)"

section \<open>The rules\<close>

type_synonym cell = "int \<times> int"

definition cell :: "point \<Rightarrow> cell" where "cell p = (px p, py p)"

definition cells :: "game \<Rightarrow> cell list" where "cells g = map cell (take (len g) (body g))"

definition board :: "cell set" where "board = {0..<GRID_W} \<times> {0..<GRID_H}"

definition ahead :: "cell \<Rightarrow> cell \<Rightarrow> cell" where "ahead c d = (fst c + fst d, snd c + snd d)"

text \<open>A move of the snake that lies on the cells \<open>cs\<close>, head first: \<open>None\<close> when it dies.\<close>

definition move :: "cell list \<Rightarrow> cell \<Rightarrow> cell \<Rightarrow> cell list option" where
  "move cs d f =
     (let h = ahead (hd cs) d
      in if h \<notin> board \<or> h \<in> set cs then None else Some (h # (if h = f then cs else butlast cs)))"

definition unit_dir :: "cell \<Rightarrow> bool" where "unit_dir d \<longleftrightarrow> d \<in> {(1, 0), (-1, 0), (0, 1), (0, -1)}"

fun chain :: "cell list \<Rightarrow> bool" where
  "chain (a # b # r) = ((\<exists>d. unit_dir d \<and> a = ahead b d) \<and> chain (b # r))"
| "chain _ = True"

text \<open>The well-formed games: the snake lies on the board without crossing itself, in one piece, at
  least five long, heading away from its neck and not about to turn back; the food is on the
  board and the score is ten points for each cell gained.\<close>

definition good_game :: "game \<Rightarrow> bool" where
  "good_game g \<longleftrightarrow>
     length (body g) = MAX_SNAKE \<and> 5 \<le> len g \<and> len g \<le> MAX_SNAKE \<and>
     set (cells g) \<subseteq> board \<and> distinct (cells g) \<and> chain (cells g) \<and>
     unit_dir (dx g, dy g) \<and> unit_dir (next_dx g, next_dy g) \<and> (next_dx g, next_dy g) \<noteq> (- dx g, - dy g) \<and>
     (\<not> over g \<longrightarrow> cells g ! 0 = ahead (cells g ! 1) (dx g, dy g)) \<and>
     cell (food g) \<in> board \<and> score g = 10 * (int (len g) - 5)"

lemma short_id [simp]: "- 32768 \<le> n \<Longrightarrow> n < 32768 \<Longrightarrow> short n = n"
  by (simp add: short_def signed_take_bit_int_eq_self)

lemma occupies_cells: "occupies g a b \<longleftrightarrow> (a, b) \<in> set (cells g)"
  by (auto simp: occupies_def cells_def cell_def list_ex_iff image_iff)

lemma length_shift [simp]: "length (shift_body i b) = length b"
  by (induction i arbitrary: b) simp_all

lemma shift_nth: "i < length b \<Longrightarrow> j < length b \<Longrightarrow> shift_body i b ! j = (if 0 < j \<and> j \<le> i then b ! (j - 1) else b ! j)"
proof (induction i arbitrary: b)
  case 0
  then show ?case by simp
next
  case (Suc i)
  show ?case
  proof (cases "j = Suc i")
    case True
    with Suc show ?thesis by simp
  next
    case False
    with Suc show ?thesis by (auto simp: nth_list_update)
  qed
qed

lemma moved_body: "n < length b \<Longrightarrow> take (Suc n) ((shift_body n b)[0 := h]) = h # take n b"
proof (rule nth_equalityI)
  assume n: "n < length b"
  then show "length (take (Suc n) ((shift_body n b)[0 := h])) = length (h # take n b)" by simp
  fix i assume "i < length (take (Suc n) ((shift_body n b)[0 := h]))"
  with n have i: "i \<le> n" "i < length b" by simp_all
  with n show "take (Suc n) ((shift_body n b)[0 := h]) ! i = (h # take n b) ! i"
    by (cases i) (simp_all add: shift_nth)
qed

lemma chain_butlast: "chain cs \<Longrightarrow> chain (butlast cs)"
proof (induction cs rule: chain.induct)
  case (1 a b r)
  then show ?case by (cases r) auto
qed simp_all

lemma board_finite: "finite board" "card board = MAX_SNAKE"
  by (simp_all add: board_def MAX_SNAKE_def GRID_W_def GRID_H_def)

lemma good_cells:
  assumes "good_game g"
  shows "length (cells g) = len g" "cells g \<noteq> []" "hd (cells g) = cell (body g ! 0)" "hd (cells g) = cells g ! 0" "hd (cells g) \<in> board"
proof -
  show l: "length (cells g) = len g" using assms by (simp add: good_game_def cells_def)
  with assms show n: "cells g \<noteq> []" by (auto simp: good_game_def)
  then show "hd (cells g) = cells g ! 0" by (simp add: hd_conv_nth)
  have "take (len g) (body g) \<noteq> []" using n by (simp add: cells_def)
  then show "hd (cells g) = cell (body g ! 0)" by (simp add: cells_def hd_map hd_conv_nth)
  from n have "hd (cells g) \<in> set (cells g)" by simp
  with assms show "hd (cells g) \<in> board" by (auto simp: good_game_def)
qed

lemma room_left:
  assumes "good_game g" "h \<in> board" "h \<notin> set (cells g)"
  shows "len g < MAX_SNAKE"
proof -
  have "card (set (h # cells g)) \<le> card board"
    using assms by (intro card_mono) (auto simp: board_finite good_game_def)
  moreover have "card (set (cells g)) = len g"
    using distinct_card [of "cells g"] good_cells(1) [OF assms(1)] assms(1) by (simp add: good_game_def)
  ultimately show ?thesis using assms(3) by (simp add: board_finite)
qed

lemma place_keeps: "(place_food env g w) = (g', w') \<Longrightarrow> \<exists>f. g' = g\<lparr>food := f\<rparr> \<and> (cell (food g) \<in> board \<longrightarrow> cell f \<in> board)"
proof -
  have "place_attempts n env g w = (g', w') \<Longrightarrow> \<exists>f. g' = g\<lparr>food := f\<rparr> \<and> (cell (food g) \<in> board \<longrightarrow> cell f \<in> board)" for n
  proof (induction n arbitrary: w)
    case 0
    then show ?case by (auto intro!: exI [of _ "food g"])
  next
    case (Suc n)
    have r: "0 \<le> int r mod GRID_W" "int r mod GRID_W < GRID_W" "0 \<le> int r mod GRID_H" "int r mod GRID_H < GRID_H" for r
      by (simp_all add: GRID_W_def GRID_H_def)
    have s: "short (int r mod GRID_W) = int r mod GRID_W" "short (int r mod GRID_H) = int r mod GRID_H" for r
      using r [of r] by (simp_all add: GRID_W_def GRID_H_def)
    from Suc show ?case
      by (auto simp: Let_def s cell_def board_def r split: prod.splits if_splits)
  qed
  then show "place_food env g w = (g', w') \<Longrightarrow> \<exists>f. g' = g\<lparr>food := f\<rparr> \<and> (cell (food g) \<in> board \<longrightarrow> cell f \<in> board)"
    unfolding place_food_def .
qed

lemma good_food: "good_game g \<Longrightarrow> place_food env g w = (g', w') \<Longrightarrow> good_game g'"
  using place_keeps [of env g w g' w'] by (auto simp: good_game_def cells_def)

lemma length_lay [simp]: "length (lay_body n i b) = length b"
  by (induction n arbitrary: i b) simp_all

lemma reset_good: "reset_game env w = (g, w') \<Longrightarrow> good_game g"
proof -
  let ?g = "zero_game\<lparr>len := 5, dx := 1, next_dx := 1\<rparr>"
  have l: "lay_body 5 0 (body ?g) = map (\<lambda>i. \<lparr>px = 15 - int i, py = 9\<rparr>) [0..<5] @ replicate 535 \<lparr>px = 0, py = 0\<rparr>"
    by (simp add: zero_game_def MAX_SNAKE_def GRID_W_def GRID_H_def numeral_eq_Suc)
  have c: "cells (?g\<lparr>body := lay_body 5 0 (body ?g)\<rparr>) = [(15, 9), (14, 9), (13, 9), (12, 9), (11, 9)]"
    unfolding l by (simp add: cells_def cell_def upt_conv_Cons numeral_eq_Suc)
  have "good_game (?g\<lparr>body := lay_body 5 0 (body ?g)\<rparr>)"
    unfolding good_game_def c
    by (simp add: l) (simp add: MAX_SNAKE_def GRID_W_def GRID_H_def board_def unit_dir_def ahead_def zero_game_def cell_def)
  then show "reset_game env w = (g, w') \<Longrightarrow> good_game g"
    unfolding reset_game_def by (auto simp: Let_def intro: good_food)
qed

section \<open>Steps\<close>

lemma cells_simps [simp]:
  "cells (g\<lparr>dx := a, dy := b\<rparr>) = cells g" "cells (g\<lparr>over := c\<rparr>) = cells g" "cells (g\<lparr>food := f\<rparr>) = cells g"
  "cells (g\<lparr>score := k\<rparr>) = cells g" "cells (g\<lparr>paused := c\<rparr>) = cells g" "cells (g\<lparr>next_dx := a, next_dy := b\<rparr>) = cells g"
  by (simp_all add: cells_def)

lemma ahead_short:
  assumes "c \<in> board" "unit_dir d"
  shows "short (fst c + fst d) = fst (ahead c d)" "short (snd c + snd d) = snd (ahead c d)"
  using assms by (auto simp: board_def unit_dir_def ahead_def GRID_W_def GRID_H_def)

lemma off_board_iff: "off_board p \<longleftrightarrow> cell p \<notin> board"
  by (auto simp: off_board_def cell_def board_def)

text \<open>What a step of a running game does, over the cells: the two outcomes of \<open>move\<close>.\<close>

lemma step_cases:
  assumes good: "good_game g" and run: "\<not> paused g" "\<not> over g" and s: "step env g w = (g', w')"
  defines "h \<equiv> ahead (hd (cells g)) (next_dx g, next_dy g)"
  shows "(move (cells g) (next_dx g, next_dy g) (cell (food g)) = None \<and> g' = g\<lparr>dx := next_dx g, dy := next_dy g, over := True\<rparr>) \<or>
    (\<exists>cs b n f. move (cells g) (next_dx g, next_dy g) (cell (food g)) = Some cs \<and>
       g' = g\<lparr>dx := next_dx g, dy := next_dy g, body := b, len := n, food := f,
              score := score g + (if h = cell (food g) then 10 else 0)\<rparr> \<and>
       length b = length (body g) \<and> n \<le> length b \<and> n = length cs \<and> map cell (take n b) = cs \<and> cell f \<in> board)"
proof -
  let ?d = "(next_dx g, next_dy g)" and ?g1 = "g\<lparr>dx := next_dx g, dy := next_dy g\<rparr>"
  let ?head = "\<lparr>px = short (px (body g ! 0) + next_dx g), py = short (py (body g ! 0) + next_dy g)\<rparr>"
  note c = good_cells [OF good]
  have head: "cell ?head = h"
  proof -
    have "hd (cells g) = (px (body g ! 0), py (body g ! 0))" using c(3) by (simp add: cell_def)
    then show ?thesis using ahead_short [OF c(5), of ?d] good by (simp add: h_def good_game_def cell_def)
  qed
  have fin: "cell (food g) \<in> board" using good by (simp add: good_game_def)
  show ?thesis
  proof (cases "h \<notin> board \<or> h \<in> set (cells g)")
    case True
    then have "off_board ?head \<or> occupies ?g1 (px ?head) (py ?head)"
      using head by (simp add: off_board_iff occupies_cells) (simp add: cell_def)
    with s run have "g' = ?g1\<lparr>over := True\<rparr>" by (simp add: step_def Let_def)
    with True show ?thesis by (simp add: move_def Let_def h_def)
  next
    case False
    then have free: "\<not> off_board ?head" "\<not> occupies ?g1 (px ?head) (py ?head)"
      using head by (simp_all add: off_board_iff occupies_cells) (simp add: cell_def)
    from False have room: "len g < MAX_SNAKE" by (intro room_left [OF good]) auto
    let ?ate = "h = cell (food g)"
    let ?n = "if ?ate then Suc (len g) else len g"
    let ?b = "(shift_body (?n - 1) (body g))[0 := ?head]"
    have ate: "(px ?head = px (food g) \<and> py ?head = py (food g)) \<longleftrightarrow> ?ate"
      using head by (auto simp: cell_def)
    have b: "length ?b = length (body g)" "?n \<le> length ?b" using good room by (simp_all add: good_game_def)
    have pos: "0 < len g" and lim: "length (body g) = MAX_SNAKE" using good by (simp_all add: good_game_def)
    have "take ?n ?b = ?head # take (?n - 1) (body g)"
      using moved_body [of "?n - 1" "body g" ?head] pos lim room by (cases ?ate) simp_all
    moreover have "butlast (cells g) = map cell (take (len g - 1) (body g))"
      using lim room by (simp add: cells_def map_butlast [symmetric] butlast_take)
    ultimately have cs: "map cell (take ?n ?b) = h # (if ?ate then cells g else butlast (cells g))"
      using head by (simp add: cells_def)
    from False have mv: "move (cells g) ?d (cell (food g)) = Some (h # (if ?ate then cells g else butlast (cells g)))"
      by (simp add: move_def Let_def h_def)
    have len: "?n = length (h # (if ?ate then cells g else butlast (cells g)))" using c(1) pos by simp
    let ?g2 = "?g1\<lparr>len := ?n, body := ?b\<rparr>"
    have "step env g w = (if ?ate then place_food env (?g2\<lparr>score := score g + 10\<rparr>) w else (?g2, w))"
      using run free room ate by (simp add: step_def Let_def)
    note st = this
    have "\<exists>f. g' = ?g2\<lparr>food := f, score := score g + (if ?ate then 10 else 0)\<rparr> \<and> cell f \<in> board"
    proof (cases ?ate)
      case True
      with s st have "place_food env (?g2\<lparr>score := score g + 10\<rparr>) w = (g', w')" by simp
      from place_keeps [OF this] fin obtain f where "g' = ?g2\<lparr>score := score g + 10, food := f\<rparr>" "cell f \<in> board" by auto
      with True show ?thesis by (intro exI [of _ f]) simp
    next
      case False
      with s st have "g' = ?g2" by simp
      with False fin show ?thesis by (intro exI [of _ "food g"]) simp
    qed
    then obtain f where "g' = ?g2\<lparr>food := f, score := score g + (if ?ate then 10 else 0)\<rparr>" "cell f \<in> board" by blast
    then have "g' = g\<lparr>dx := next_dx g, dy := next_dy g, body := ?b, len := ?n, food := f, score := score g + (if ?ate then 10 else 0)\<rparr>" "cell f \<in> board"
      by simp_all
    note upd = this
    show ?thesis
      by (rule disjI2, intro exI conjI, rule mv, rule upd(1), rule b(1), rule b(2), rule len, rule cs, rule upd(2))
  qed
qed

lemma step_good:
  assumes good: "good_game g" and s: "step env g w = (g', w')"
  shows "good_game g'"
proof (cases "paused g \<or> over g")
  case True
  with s good show ?thesis by (simp add: step_def)
next
  case False
  let ?d = "(next_dx g, next_dy g)" and ?cs = "cells g"
  note c = good_cells [OF good]
  have u: "unit_dir ?d" "\<not> (next_dx g = 0 \<and> next_dy g = 0)" using good by (auto simp: good_game_def unit_dir_def)
  from step_cases [OF good _ _ s] False consider
      (dead) "g' = g\<lparr>dx := next_dx g, dy := next_dy g, over := True\<rparr>"
    | (moves) cs b n f where "move ?cs ?d (cell (food g)) = Some cs"
        "g' = g\<lparr>dx := next_dx g, dy := next_dy g, body := b, len := n, food := f,
              score := score g + (if ahead (hd ?cs) ?d = cell (food g) then 10 else 0)\<rparr>"
        "length b = length (body g)" "n \<le> length b" "n = length cs" "map cell (take n b) = cs" "cell f \<in> board"
    by blast
  then show ?thesis
  proof cases
    case dead
    with good u show ?thesis by (auto simp: good_game_def cells_def)
  next
    case moves
    let ?h = "ahead (hd ?cs) ?d" and ?rest = "if ahead (hd ?cs) ?d = cell (food g) then ?cs else butlast ?cs"
    from moves(1) have cs: "cs = ?h # ?rest" and h: "?h \<in> board" "?h \<notin> set ?cs"
      by (auto simp: move_def Let_def split: if_splits)
    have five: "5 \<le> length ?cs" using good c(1) by (simp add: good_game_def)
    have bl: "butlast ?cs \<noteq> []" "hd (butlast ?cs) = hd ?cs"
    proof -
      from five obtain a b r where "?cs = a # b # r" by (cases ?cs; cases "tl ?cs") auto
      then show "butlast ?cs \<noteq> []" "hd (butlast ?cs) = hd ?cs" by simp_all
    qed
    have good_cs: "distinct ?cs" "chain ?cs" using good by (simp_all add: good_game_def)
    have rest: "set ?rest \<subseteq> set ?cs" "distinct ?rest" "chain ?rest" "?rest \<noteq> []" "hd ?rest = hd ?cs"
      using bl c(2) good_cs by (simp_all add: distinct_butlast chain_butlast) (auto dest: in_set_butlastD)
    have ch: "chain cs"
      unfolding cs using rest(3-5) u(1) by (cases ?rest) auto
    have g': "cells g' = cs" using moves by (simp add: cells_def)
    have front: "cs ! 0 = ahead (cs ! 1) ?d" using rest(4,5) by (simp add: cs hd_conv_nth)
    have n: "5 \<le> n" "int n = int (len g) + (if ?h = cell (food g) then 1 else 0)"
      using moves(5) five c(1) by (auto simp: cs)
    show ?thesis
      unfolding good_game_def g'
      using moves(2-7) good n front ch u rest(1,2) h
      by (auto simp: good_game_def cs)
  qed
qed

lemma direction_good: "good_game g \<Longrightarrow> unit_dir (a, b) \<Longrightarrow> good_game (direction g a b)"
  by (auto simp: direction_def good_game_def)

lemma key_good: "good_game g \<Longrightarrow> good_game (fst (snd (handle_key env k g w)))"
proof -
  assume good: "good_game g"
  have split: "good_game (fst (snd (if c then p else q)))"
    if "good_game (fst (snd p))" "good_game (fst (snd q))" for c and p q :: "bool \<times> game \<times> 'a" using that by simp
  have p: "good_game (g\<lparr>paused := c\<rparr>)" for c using good by (simp add: good_game_def)
  have d: "unit_dir (0, -1)" "unit_dir (0, 1)" "unit_dir (-1, 0)" "unit_dir (1, 0)" by (simp_all add: unit_dir_def)
  have r: "good_game (fst (reset_game env w))" by (cases "reset_game env w") (simp add: reset_good)
  show ?thesis
    unfolding handle_key_def
    by (intro split; simp only: fst_conv snd_conv; (rule good p r direction_good [OF good] d)+)
qed

section \<open>Playing\<close>

lemma event_good: "good_game (game_of s) \<Longrightarrow> good_game (game_of (handle_event env u e s))"
  using key_good [of "game_of s" env _ "world_of s"] reset_good [of env "world_of s"]
  by (cases e) (auto simp: handle_event_def split: prod.splits, metis fst_conv snd_conv)

lemma pending_good: "good_game (game_of s) \<Longrightarrow> good_game (game_of (pending_events env u es s))"
  by (induction es arbitrary: s) (simp_all add: event_good)

lemma turn_good: "good_game (game_of s) \<Longrightarrow> good_game (game_of (turn env u t s))"
  unfolding turn_def Let_def by (rule pending_good) (auto split: prod.splits intro: step_good)

text \<open>C29. Whatever numbers \<^verbatim>\<open>rand\<close> gives and whatever is pressed, the game stays well formed: no array index
  leaves the body, the snake lies on the board in one piece without crossing itself, it never
  turns back into its neck, the food is on the board and the score is ten points for each cell
  gained.\<close>

theorem snake_stays_good: "good_game (game_of (snake_main env u ts w))"
proof -
  have "good_game (game_of s) \<Longrightarrow> good_game (game_of (play env u ts s))" for s
    by (induction ts arbitrary: s) (simp_all add: turn_good)
  then show ?thesis by (simp add: snake_main_def reset_good split: prod.split)
qed

text \<open>C30. A step of a running game is exactly a move of the snake's cells: it dies when its head would
  leave the board or meet the snake, and otherwise goes one cell ahead, growing and scoring ten
  points when that cell holds the food. The cell just behind the head is never the one it dies on.\<close>

theorem snake_step_refines_move:
  assumes "good_game g" and "\<not> paused g" and "\<not> over g" and "step env g w = (g', w')"
  shows "(if over g' then None else Some (cells g')) = move (cells g) (next_dx g, next_dy g) (cell (food g)) \<and>
    score g' - score g = (if len g' = len g then 0 else 10) \<and>
    ahead (hd (cells g)) (next_dx g, next_dy g) \<noteq> cells g ! 1"
proof -
  let ?d = "(next_dx g, next_dy g)"
  note c = good_cells [OF assms(1)]
  have "5 \<le> len g" using assms(1) by (simp add: good_game_def)
  then have ne: "len g \<noteq> 0" by simp
  from step_cases [OF assms] have
    "(if over g' then None else Some (cells g')) = move (cells g) ?d (cell (food g)) \<and> score g' - score g = (if len g' = len g then 0 else 10)"
  proof (elim disjE exE conjE, goal_cases)
    case 1
    with assms(3) show ?case by simp
  next
    case (2 cs b n f)
    then have cs: "cs = ahead (hd (cells g)) ?d # (if ahead (hd (cells g)) ?d = cell (food g) then cells g else butlast (cells g))"
      by (auto simp: move_def Let_def split: if_splits)
    have "cells g' = cs" using 2 by (simp add: cells_def)
    moreover have "len g' = length cs" "over g' = over g" "score g' = score g + (if ahead (hd (cells g)) ?d = cell (food g) then 10 else 0)"
      using 2 by simp_all
    ultimately show ?case using 2(1) assms(3) c(1) ne cs by simp
  qed
  moreover have "ahead (hd (cells g)) ?d \<noteq> cells g ! 1"
    using assms(1,3) c(4) by (auto simp: good_game_def ahead_def prod_eq_iff)
  ultimately show ?thesis by blast
qed

text \<open>The world of the examples: numbers counting up, and the last notice.\<close>

definition counting_env :: "(nat \<times> string) snake_env" where
  "counting_env = \<lparr>rand_of = (\<lambda>(n, t). (n, Suc n, t)), getpid = 7, fopen_w = (\<lambda>_ w. (True, w)), fputs_close = (\<lambda>_ t (n, _). (n, t)),
     rename_file = (\<lambda>_ _ w. w)\<rparr>"

theorem snake_step_refines_move_witness:
  "\<exists>g w g' w'. reset_game counting_env (3, []) = (g, w) \<and> step counting_env g (5, []) = (g', w') \<and>
     (if over g' then None else Some (cells g')) = move (cells g) (next_dx g, next_dy g) (cell (food g))"
proof -
  obtain g w where g: "reset_game counting_env (3, []) = (g, w)" by (cases "reset_game counting_env (3, [])")
  obtain g' w' where s: "step counting_env g (5, []) = (g', w')" by (cases "step counting_env g (5, [])")
  have "\<not> paused g" "\<not> over g"
    using g place_keeps [of counting_env _ "(3, [])" g w] by (force simp: reset_game_def Let_def zero_game_def)+
  from snake_step_refines_move [OF reset_good [OF g] this s] g s show ?thesis by blast
qed

section \<open>Drawing\<close>

lemma cell_drawn: "c \<in> board \<Longrightarrow> 0 \<le> k \<Longrightarrow> 0 \<le> m \<Longrightarrow> k + m \<le> CELL \<Longrightarrow>
    inside WIDTH HEIGHT (fst c * CELL + k) (HEADER + snd c * CELL + k) m m \<and> HEADER \<le> HEADER + snd c * CELL + k"
  by (auto simp: inside_def board_def GRID_W_def GRID_H_def CELL_def HEADER_def WIDTH_def HEIGHT_def)

text \<open>In every well-formed game everything is drawn inside the window, and the snake and the food
  never over the header.\<close>

theorem snake_drawn_inside:
  assumes "good_game g"
  shows "list_all (drawn_inside WIDTH HEIGHT) (draw u g)"
proof -
  have b: "cell (body g ! i) \<in> board" if "i < len g" for i
  proof -
    have "length (cells g) = len g" by (rule good_cells(1) [OF assms])
    with that have "cells g ! i \<in> set (cells g)" by simp
    moreover have "cells g ! i = cell (body g ! i)" using that assms by (simp add: cells_def good_game_def)
    ultimately show ?thesis using assms by (auto simp: good_game_def)
  qed
  have body: "n \<le> len g \<Longrightarrow> list_all (drawn_inside WIDTH HEIGHT) (draw_body u g n)" for n
  proof (induction n)
    case (Suc n)
    then show ?case using cell_drawn [OF b [of n], of 1 "CELL - 2"] by (simp add: fill_def cell_def CELL_def)
  qed simp
  have "cell (food g) \<in> board" using assms by (simp add: good_game_def)
  from cell_drawn [OF this, of 3 "CELL - 6"] body [of "len g"] show ?thesis
    by (simp add: draw_def fill_def cell_def CELL_def)
       (simp add: inside_def WIDTH_def HEIGHT_def HEADER_def GRID_W_def GRID_H_def CELL_def)
qed

theorem snake_drawn_inside_witness:
  "list_all (drawn_inside WIDTH HEIGHT) (draw (open_ui (\<lambda>_. None) 0 1 2) (fst (reset_game counting_env (3, []))))"
  by (rule snake_drawn_inside) (cases "reset_game counting_env (3, [])", simp add: reset_good)

end
