(* ===== verification/Framebuffer.thy ===== *)
theory Framebuffer
  imports Mmio
begin

text \<open>
  The framebuffer driver (\<^verbatim>\<open>src/kernel/overlay/drivers/video/fbdev/exwordfb.c\<close>): the transfer of a frame to
  the panel over an arbitrary register bus, the operations that draw, the work item that batches
  their refreshes, and initialisation. The drawing helpers of the kernel only count frames here;
  the work queue behaves as the kernel documents it: a queued item runs once, is no longer
  pending while it runs, and \<^verbatim>\<open>cancel_work_sync\<close> waits for a running one.
\<close>

section \<open>The panel\<close>

definition EXWORD_WIDTH :: nat where "EXWORD_WIDTH = 528"
definition EXWORD_HEIGHT :: nat where "EXWORD_HEIGHT = 320"
definition EXWORD_LINE_LENGTH :: nat where "EXWORD_LINE_LENGTH = EXWORD_WIDTH * 2"
definition EXWORD_VRAM_SIZE :: nat where "EXWORD_VRAM_SIZE = EXWORD_LINE_LENGTH * EXWORD_HEIGHT"
definition EXWORD_VRAM_P2 :: u32 where "EXWORD_VRAM_P2 = 0xac200000"
definition EXWORD_VRAM_PHYS :: u32 where "EXWORD_VRAM_PHYS = 0x0c200000"
definition EXWORD_LCDC :: u32 where "EXWORD_LCDC = 0xb4000000"
definition EXWORD_PORTR :: u32 where "EXWORD_PORTR = 0xa405013c"
definition EXWORD_SAR3 :: u32 where "EXWORD_SAR3 = 0xfe008050"
definition EXWORD_DAR3 :: u32 where "EXWORD_DAR3 = 0xfe008054"
definition EXWORD_TCR3 :: u32 where "EXWORD_TCR3 = 0xfe008058"
definition EXWORD_CHCR3 :: u32 where "EXWORD_CHCR3 = 0xfe00805c"
definition EXWORD_DMAOR :: u32 where "EXWORD_DMAOR = 0xfe008060"

text \<open>What the work item's function is about to do.\<close>

datatype worker = Idle | Sampling | Yielded u32 | Refreshing

record 'w fb = "'w machine" +
  pseudo_palette :: "u32 list"
  refresh_generation :: u32
  work_pending :: bool
  work_state :: worker
  drawing :: nat       \<comment> \<open>callers that have drawn and not yet queued a refresh\<close>
  panning :: nat       \<comment> \<open>callers of \<^verbatim>\<open>pan_display\<close> that have cancelled and not yet refreshed\<close>
  frame :: nat         \<comment> \<open>how often the memory of the frame was changed\<close>
  shown :: nat         \<comment> \<open>the frame of the last transfer\<close>

fun dma_wait :: "'w bus \<Rightarrow> nat \<Rightarrow> ('w, 'z, unit) prog" where
  "dma_wait b 0 = ret ()"
| "dma_wait b (Suc n) = do {
     v \<leftarrow> readl b EXWORD_CHCR3;
     if v AND 2 \<noteq> 0 \<or> n = 0 then ret () else dma_wait b n }"

definition exwordfb_refresh :: "'w bus \<Rightarrow> ('w fb, unit) state" where
  "exwordfb_refresh b = do {
     portr \<leftarrow> readb b EXWORD_PORTR;
     _ \<leftarrow> writeb b EXWORD_PORTR (portr AND NOT 0x10);
     _ \<leftarrow> writew b EXWORD_LCDC 0x2c;
     _ \<leftarrow> writeb b EXWORD_PORTR (portr OR 0x10);
     _ \<leftarrow> writel b EXWORD_TCR3 (of_nat ((EXWORD_WIDTH * EXWORD_HEIGHT) div 16));
     _ \<leftarrow> writel b EXWORD_SAR3 EXWORD_VRAM_PHYS;
     _ \<leftarrow> writel b EXWORD_DAR3 (EXWORD_LCDC AND 0x1fffffff);
     dmaor \<leftarrow> readw b EXWORD_DMAOR;
     _ \<leftarrow> writew b EXWORD_DMAOR (dmaor AND NOT 1);
     _ \<leftarrow> writel b EXWORD_CHCR3 0x40101401;
     _ \<leftarrow> writew b EXWORD_DMAOR (dmaor OR 1);
     _ \<leftarrow> dma_wait b 1000000;
     modify (\<lambda>s. s\<lparr>shown := frame s\<rparr>) }"

section \<open>Drawing and refreshing\<close>

definition exwordfb_queue_refresh :: "'w fb \<Rightarrow> 'w fb" where
  "exwordfb_queue_refresh s = s\<lparr>refresh_generation := refresh_generation s + 1, work_pending := True\<rparr>"

definition EINVAL :: int where "EINVAL = 22"
definition ENOMEM :: int where "ENOMEM = 12"

definition exwordfb_setcolreg :: "u32 \<Rightarrow> u32 \<Rightarrow> u32 \<Rightarrow> u32 \<Rightarrow> 'w fb \<Rightarrow> int \<times> 'w fb" where
  "exwordfb_setcolreg regno red green blue s =
     (if regno \<ge> 16 then (- EINVAL, s)
      else (0, s\<lparr>pseudo_palette := (pseudo_palette s)[unat regno :=
             (red AND 0xf800) OR drop_bit 5 (green AND 0xfc00) OR drop_bit 11 (blue AND 0xf800)]\<rparr>))"

text \<open>\<^verbatim>\<open>fillrect\<close>, \<^verbatim>\<open>copyarea\<close>, \<^verbatim>\<open>imageblit\<close> and \<^verbatim>\<open>write\<close> draw first and queue afterwards; another task may run
  in between. \<open>draw_begin\<close> is the helper of the kernel, the queueing ends the operation.\<close>

definition draw_begin :: "'w fb \<Rightarrow> 'w fb" where
  "draw_begin s = s\<lparr>frame := Suc (frame s), drawing := Suc (drawing s)\<rparr>"

definition draw_end :: "'w fb \<Rightarrow> 'w fb" where
  "draw_end s = exwordfb_queue_refresh (s\<lparr>drawing := drawing s - 1\<rparr>)"

definition exwordfb_fillrect :: "'w fb \<Rightarrow> 'w fb" where "exwordfb_fillrect s = draw_end (draw_begin s)"
definition exwordfb_copyarea :: "'w fb \<Rightarrow> 'w fb" where "exwordfb_copyarea s = draw_end (draw_begin s)"
definition exwordfb_imageblit :: "'w fb \<Rightarrow> 'w fb" where "exwordfb_imageblit s = draw_end (draw_begin s)"

definition exwordfb_write :: "int \<Rightarrow> 'w fb \<Rightarrow> int \<times> 'w fb" where
  "exwordfb_write written s = (written, if written > 0 then draw_end (draw_begin s) else s)"

definition FB_BLANK_UNBLANK :: int where "FB_BLANK_UNBLANK = 0"

definition exwordfb_blank :: "int \<Rightarrow> 'w fb \<Rightarrow> int \<times> 'w fb" where
  "exwordfb_blank bl s = (0, if bl = FB_BLANK_UNBLANK then exwordfb_queue_refresh s else s)"

text \<open>\<^verbatim>\<open>pan_display\<close>, before and after the cancellation returned.\<close>

definition cancel_work_sync :: "'w fb \<Rightarrow> 'w fb" where
  "cancel_work_sync s = s\<lparr>work_pending := False, panning := Suc (panning s)\<rparr>"

definition pan_refresh :: "'w bus \<Rightarrow> 'w fb \<Rightarrow> 'w fb" where
  "pan_refresh b s = snd (run_state (exwordfb_refresh b) (s\<lparr>panning := panning s - 1\<rparr>))"

definition exwordfb_pan_display :: "'w bus \<Rightarrow> 'w fb \<Rightarrow> int \<times> 'w fb" where
  "exwordfb_pan_display b s = (0, pan_refresh b (cancel_work_sync s))"

text \<open>The work item: started by the queue, then the loop of \<^verbatim>\<open>exwordfb_refresh_work\<close>, one turn per step.\<close>

definition exwordfb_refresh_work :: "'w bus \<Rightarrow> 'w fb \<Rightarrow> 'w fb" where
  "exwordfb_refresh_work b s =
     (case work_state s of
        Idle \<Rightarrow> if work_pending s then s\<lparr>work_pending := False, work_state := Sampling\<rparr> else s
      | Sampling \<Rightarrow> s\<lparr>work_state := Yielded (refresh_generation s)\<rparr>
      | Yielded g \<Rightarrow> s\<lparr>work_state := (if g \<noteq> refresh_generation s then Sampling else Refreshing)\<rparr>
      | Refreshing \<Rightarrow> (snd (run_state (exwordfb_refresh b) s))\<lparr>work_state := Idle\<rparr>)"

inductive fb_step :: "'w bus \<Rightarrow> 'w fb \<Rightarrow> 'w fb \<Rightarrow> bool" for b where
  Draw: "fb_step b s (draw_begin s)"
| Queue: "drawing s > 0 \<Longrightarrow> fb_step b s (draw_end s)"
| Blank: "fb_step b s (snd (exwordfb_blank bl s))"
| Setcolreg: "fb_step b s (snd (exwordfb_setcolreg regno r g bl s))"
| Cancel: "work_state s = Idle \<Longrightarrow> fb_step b s (cancel_work_sync s)"
| Pan: "panning s > 0 \<Longrightarrow> fb_step b s (pan_refresh b s)"
| Work: "fb_step b s (exwordfb_refresh_work b s)"

inductive_cases fb_stepE: "fb_step b s s'"

section \<open>Initialisation\<close>

record fb_fix =
  smem_start :: u32
  smem_len :: nat
  line_length :: nat

record fb_var =
  xres :: nat
  yres :: nat
  bits_per_pixel :: nat
  red_field :: "nat \<times> nat"        \<comment> \<open>offset and length\<close>
  green_field :: "nat \<times> nat"
  blue_field :: "nat \<times> nat"

record fb_info =
  fix_info :: fb_fix
  var_info :: fb_var
  screen_base :: u32
  screen_size :: nat

definition exwordfb_info :: fb_info where
  "exwordfb_info = \<lparr>
     fix_info = \<lparr>smem_start = EXWORD_VRAM_PHYS, smem_len = EXWORD_VRAM_SIZE, line_length = EXWORD_LINE_LENGTH\<rparr>,
     var_info = \<lparr>xres = EXWORD_WIDTH, yres = EXWORD_HEIGHT, bits_per_pixel = 16, red_field = (11, 5), green_field = (5, 6),
                 blue_field = (0, 5)\<rparr>,
     screen_base = EXWORD_VRAM_P2, screen_size = EXWORD_VRAM_SIZE\<rparr>"

datatype fb_call = Framebuffer_alloc | Alloc_cmap | Register fb_info | Dealloc_cmap | Framebuffer_release

definition fb_boot :: "'w \<Rightarrow> 'w fb" where
  "fb_boot w = \<lparr>dev = w, trace = [], pseudo_palette = replicate 16 0, refresh_generation = 0, work_pending = False, work_state = Idle,
     drawing = 0, panning = 0, frame = 0, shown = 0\<rparr>"

text \<open>The answers of the kernel: whether the allocation succeeded and the two error codes.\<close>

definition exwordfb_init :: "'w bus \<Rightarrow> bool \<Rightarrow> int \<Rightarrow> int \<Rightarrow> 'w \<Rightarrow> int \<times> fb_call list \<times> 'w fb option" where
  "exwordfb_init b allocated cmap_error register_error w =
     (if \<not> allocated then (- ENOMEM, [Framebuffer_alloc], None)
      else if cmap_error \<noteq> 0 then (cmap_error, [Framebuffer_alloc, Alloc_cmap, Framebuffer_release], None)
      else if register_error \<noteq> 0
      then (register_error, [Framebuffer_alloc, Alloc_cmap, Register exwordfb_info, Dealloc_cmap, Framebuffer_release], None)
      else (0, [Framebuffer_alloc, Alloc_cmap, Register exwordfb_info], Some (snd (run_state (exwordfb_refresh b) (fb_boot w)))))"

section \<open>The transfer\<close>

text \<open>The readings of a wait, newest first: up to \<open>n\<close> of them, stopped by the first that shows the end.\<close>

definition polled :: "nat \<Rightarrow> u32 list \<Rightarrow> bool" where
  "polled n vs \<longleftrightarrow> 0 < length vs \<and> length vs \<le> n \<and> list_all (\<lambda>v. v AND 2 = 0) (tl vs) \<and> (hd vs AND 2 \<noteq> 0 \<or> length vs = n)"

lemma dma_wait_trace:
  "\<exists>vs d. run_state (dma_wait b (Suc n)) s = ((), s\<lparr>dev := d, trace := map (Rd32 EXWORD_CHCR3) vs @ trace s\<rparr>) \<and>
     0 < length vs \<and> length vs \<le> Suc n \<and> list_all (\<lambda>v. v AND 2 = 0) (tl vs) \<and> (hd vs AND 2 \<noteq> 0 \<or> length vs = Suc n)"
proof (induction n arbitrary: s)
  case 0
  obtain v d where r: "bus_rd32 b EXWORD_CHCR3 (dev s) = (v, d)" by (cases "bus_rd32 b EXWORD_CHCR3 (dev s)")
  show ?case by (rule exI [of _ "[v]"], rule exI [of _ d]) (simp add: readl_def r)
next
  case (Suc n)
  obtain v d where r: "bus_rd32 b EXWORD_CHCR3 (dev s) = (v, d)" by (cases "bus_rd32 b EXWORD_CHCR3 (dev s)")
  show ?case
  proof (cases "v AND 2 = 0")
    case False
    then show ?thesis by (intro exI [of _ "[v]"] exI [of _ d]) (simp add: readl_def r)
  next
    case True
    let ?s = "s\<lparr>dev := d, trace := Rd32 EXWORD_CHCR3 v # trace s\<rparr>"
    from Suc.IH [of ?s] obtain vs d' where ih:
      "run_state (dma_wait b (Suc n)) ?s = ((), ?s\<lparr>dev := d', trace := map (Rd32 EXWORD_CHCR3) vs @ trace ?s\<rparr>)"
      "0 < length vs" "length vs \<le> Suc n" "list_all (\<lambda>v. v AND 2 = 0) (tl vs)" "hd vs AND 2 \<noteq> 0 \<or> length vs = Suc n"
      by blast
    have run: "run_state (dma_wait b (Suc (Suc n))) s = run_state (dma_wait b (Suc n)) ?s"
      by (subst dma_wait.simps(2)) (simp add: readl_def r True del: dma_wait.simps)
    have "tl (vs @ [v]) = tl vs @ [v]" "hd (vs @ [v]) = hd vs" using ih(2) by (cases vs; simp)+
    then show ?thesis
      using ih run True by (intro exI [of _ "vs @ [v]"] exI [of _ d']) simp
  qed
qed

lemma refresh_trace:
  "\<exists>portr dmaor vs d. run_state (exwordfb_refresh b) s = ((), s\<lparr>dev := d, shown := frame s,
     trace := map (Rd32 EXWORD_CHCR3) vs @
       [Wr16 EXWORD_DMAOR (dmaor OR 1), Wr32 EXWORD_CHCR3 0x40101401, Wr16 EXWORD_DMAOR (dmaor AND NOT 1), Rd16 EXWORD_DMAOR dmaor,
        Wr32 EXWORD_DAR3 0x14000000, Wr32 EXWORD_SAR3 (smem_start (fix_info exwordfb_info)),
        Wr32 EXWORD_TCR3 (of_nat (smem_len (fix_info exwordfb_info) div 32)),
        Wr8 EXWORD_PORTR (portr OR 0x10), Wr16 EXWORD_LCDC 0x2c, Wr8 EXWORD_PORTR (portr AND NOT 0x10), Rd8 EXWORD_PORTR portr] @ trace s\<rparr>) \<and>
     polled 1000000 vs \<and> 32 dvd smem_len (fix_info exwordfb_info)"
proof -
  have million: "(1000000 :: nat) = Suc 999999" by simp
  have dar: "EXWORD_LCDC AND 0x1fffffff = 0x14000000" by (simp add: EXWORD_LCDC_def)
  have tcr: "EXWORD_WIDTH * EXWORD_HEIGHT div 16 = smem_len (fix_info exwordfb_info) div 32" "32 dvd smem_len (fix_info exwordfb_info)"
    by (simp_all add: exwordfb_info_def EXWORD_VRAM_SIZE_def EXWORD_LINE_LENGTH_def EXWORD_WIDTH_def EXWORD_HEIGHT_def)
  have sar: "smem_start (fix_info exwordfb_info) = EXWORD_VRAM_PHYS" by (simp add: exwordfb_info_def)
  obtain portr d1 where p: "bus_rd8 b EXWORD_PORTR (dev s) = (portr, d1)" by (cases "bus_rd8 b EXWORD_PORTR (dev s)")
  let ?d2 = "bus_wr32 b EXWORD_DAR3 0x14000000 (bus_wr32 b EXWORD_SAR3 EXWORD_VRAM_PHYS
     (bus_wr32 b EXWORD_TCR3 (of_nat (smem_len (fix_info exwordfb_info) div 32))
     (bus_wr8 b EXWORD_PORTR (portr OR 0x10) (bus_wr16 b EXWORD_LCDC 0x2c (bus_wr8 b EXWORD_PORTR (portr AND NOT 0x10) d1)))))"
  obtain dmaor d3 where q: "bus_rd16 b EXWORD_DMAOR ?d2 = (dmaor, d3)" by (cases "bus_rd16 b EXWORD_DMAOR ?d2")
  let ?d4 = "bus_wr16 b EXWORD_DMAOR (dmaor OR 1) (bus_wr32 b EXWORD_CHCR3 0x40101401 (bus_wr16 b EXWORD_DMAOR (dmaor AND NOT 1) d3))"
  let ?t = "[Wr16 EXWORD_DMAOR (dmaor OR 1), Wr32 EXWORD_CHCR3 0x40101401, Wr16 EXWORD_DMAOR (dmaor AND NOT 1), Rd16 EXWORD_DMAOR dmaor,
        Wr32 EXWORD_DAR3 0x14000000, Wr32 EXWORD_SAR3 EXWORD_VRAM_PHYS,
        Wr32 EXWORD_TCR3 (of_nat (smem_len (fix_info exwordfb_info) div 32)),
        Wr8 EXWORD_PORTR (portr OR 0x10), Wr16 EXWORD_LCDC 0x2c, Wr8 EXWORD_PORTR (portr AND NOT 0x10), Rd8 EXWORD_PORTR portr] @ trace s"
  from dma_wait_trace [of b 999999 "s\<lparr>dev := ?d4, trace := ?t\<rparr>"] obtain vs d where w:
    "run_state (dma_wait b 1000000) (s\<lparr>dev := ?d4, trace := ?t\<rparr>) =
       ((), s\<lparr>dev := d, trace := map (Rd32 EXWORD_CHCR3) vs @ ?t\<rparr>)"
    and vs: "0 < length vs" "length vs \<le> 1000000" "list_all (\<lambda>v. v AND 2 = 0) (tl vs)" "hd vs AND 2 \<noteq> 0 \<or> length vs = 1000000"
    unfolding million by auto
  have "run_state (exwordfb_refresh b) s = ((), s\<lparr>dev := d, shown := frame s, trace := map (Rd32 EXWORD_CHCR3) vs @ ?t\<rparr>)"
    using q w unfolding exwordfb_refresh_def
    by (simp add: readb_def writeb_def writew_def writel_def readw_def p dar tcr del: dma_wait.simps)
  with vs tcr(2) show ?thesis unfolding sar polled_def by blast
qed

text \<open>C32. Refreshing the panel, for every device: the command port is switched by one bit of the port
  register, which keeps its other bits; the DMA channel is programmed, while disabled by its own
  bit only, with the start of the frame, the panel's data port and exactly the number of 32-byte
  units of a frame; and the wait for its end reads the control register at most a million times,
  stopping at the first reading that says so.\<close>

theorem fb_refresh_transfer:
  "\<exists>portr dmaor vs d. run_state (exwordfb_refresh b) s = ((), s\<lparr>dev := d, shown := frame s,
     trace := map (Rd32 EXWORD_CHCR3) vs @
       [Wr16 EXWORD_DMAOR (dmaor OR 1), Wr32 EXWORD_CHCR3 0x40101401, Wr16 EXWORD_DMAOR (dmaor AND NOT 1), Rd16 EXWORD_DMAOR dmaor,
        Wr32 EXWORD_DAR3 0x14000000, Wr32 EXWORD_SAR3 (smem_start (fix_info exwordfb_info)),
        Wr32 EXWORD_TCR3 (of_nat (smem_len (fix_info exwordfb_info) div 32)),
        Wr8 EXWORD_PORTR (portr OR 0x10), Wr16 EXWORD_LCDC 0x2c, Wr8 EXWORD_PORTR (portr AND NOT 0x10), Rd8 EXWORD_PORTR portr] @ trace s\<rparr>) \<and>
     polled 1000000 vs \<and> 32 dvd smem_len (fix_info exwordfb_info)"
  by (rule refresh_trace)

section \<open>No frame is lost\<close>

lemma refresh_shows:
  obtains d t where "run_state (exwordfb_refresh b) s = ((), s\<lparr>dev := d, trace := t, shown := frame s\<rparr>)"
proof -
  from refresh_trace [of b s] obtain d t where
    "run_state (exwordfb_refresh b) s = ((), s\<lparr>dev := d, shown := frame s, trace := t\<rparr>)" by blast
  then have "run_state (exwordfb_refresh b) s = ((), s\<lparr>dev := d, trace := t, shown := frame s\<rparr>)" by simp
  then show thesis by (rule that)
qed

text \<open>Nothing that was drawn can be forgotten: unless a caller is still about to queue, the panel shows
  the frame, or a refresh is queued, running or about to be done by \<^verbatim>\<open>pan_display\<close>.\<close>

definition nothing_lost :: "'w fb \<Rightarrow> bool" where
  "nothing_lost s \<longleftrightarrow> drawing s > 0 \<or> shown s = frame s \<or> work_pending s \<or> work_state s \<noteq> Idle \<or> panning s > 0"

lemma step_nothing_lost: "fb_step b s s' \<Longrightarrow> nothing_lost s \<Longrightarrow> nothing_lost s'"
proof (induction rule: fb_step.induct)
  case (Pan s)
  obtain d t where "run_state (exwordfb_refresh b) (s\<lparr>panning := panning s - 1\<rparr>) =
      ((), s\<lparr>panning := panning s - 1, dev := d, trace := t, shown := frame s\<rparr>)"
    by (rule refresh_shows [of b "s\<lparr>panning := panning s - 1\<rparr>"]) simp
  then show ?case by (simp add: nothing_lost_def pan_refresh_def)
next
  case (Work s)
  obtain d t where "run_state (exwordfb_refresh b) s = ((), s\<lparr>dev := d, trace := t, shown := frame s\<rparr>)" by (rule refresh_shows)
  with Work show ?case
    by (cases "work_state s") (auto simp: nothing_lost_def exwordfb_refresh_work_def)
qed (auto simp: nothing_lost_def draw_begin_def draw_end_def exwordfb_queue_refresh_def exwordfb_blank_def exwordfb_setcolreg_def
      cancel_work_sync_def split: if_splits)

definition quiet :: "'w fb \<Rightarrow> bool" where
  "quiet s \<longleftrightarrow> shown s = frame s \<and> \<not> work_pending s \<and> work_state s = Idle"

lemma work_frame [simp]: "frame (exwordfb_refresh_work b s) = frame s" "drawing (exwordfb_refresh_work b s) = drawing s"
  "panning (exwordfb_refresh_work b s) = panning s"
proof -
  obtain d t where "run_state (exwordfb_refresh b) s = ((), s\<lparr>dev := d, trace := t, shown := frame s\<rparr>)" by (rule refresh_shows)
  then show "frame (exwordfb_refresh_work b s) = frame s" "drawing (exwordfb_refresh_work b s) = drawing s"
    "panning (exwordfb_refresh_work b s) = panning s"
    by (cases "work_state s"; simp add: exwordfb_refresh_work_def)+
qed

text \<open>How many more turns of the work item it takes until it rests.\<close>

fun turns :: "'w fb \<Rightarrow> nat" where
  "turns s = (if work_pending s then 4 else 0) +
     (case work_state s of Idle \<Rightarrow> 0 | Sampling \<Rightarrow> 3 | Yielded g \<Rightarrow> if g = refresh_generation s then 2 else 4 | Refreshing \<Rightarrow> 1)"

lemma work_turns:
  assumes "nothing_lost s" "drawing s = 0" "panning s = 0"
  shows "turns (exwordfb_refresh_work b s) = turns s - 1" "turns s = 0 \<Longrightarrow> quiet s"
proof -
  obtain d t where "run_state (exwordfb_refresh b) s = ((), s\<lparr>dev := d, trace := t, shown := frame s\<rparr>)" by (rule refresh_shows)
  then show "turns (exwordfb_refresh_work b s) = turns s - 1"
    by (cases "work_state s") (simp_all add: exwordfb_refresh_work_def)
  show "turns s = 0 \<Longrightarrow> quiet s"
    using assms by (auto simp: nothing_lost_def quiet_def split: worker.splits if_splits)
qed

lemma work_settles:
  "nothing_lost s \<Longrightarrow> drawing s = 0 \<Longrightarrow> panning s = 0 \<Longrightarrow> turns s \<le> n \<Longrightarrow>
   quiet ((exwordfb_refresh_work b ^^ n) s) \<and> frame ((exwordfb_refresh_work b ^^ n) s) = frame s"
proof (induction n arbitrary: s)
  case 0
  then show ?case using work_turns(2) by simp
next
  case (Suc n)
  let ?s = "exwordfb_refresh_work b s"
  have "nothing_lost ?s" by (rule step_nothing_lost [OF fb_step.Work Suc.prems(1)])
  moreover have "turns ?s \<le> n" using work_turns(1) [OF Suc.prems(1-3)] Suc.prems(4) by simp
  ultimately show ?case
    using Suc.IH [of ?s] Suc.prems(2,3) by (simp add: funpow_swap1)
qed

lemma init_quiet:
  assumes "exwordfb_init b True 0 0 w = (0, calls, Some s0)"
  shows "quiet s0 \<and> drawing s0 = 0 \<and> panning s0 = 0"
proof -
  obtain d t where "run_state (exwordfb_refresh b) (fb_boot w) = ((), (fb_boot w)\<lparr>dev := d, trace := t, shown := frame (fb_boot w)\<rparr>)"
    by (rule refresh_shows)
  with assms have "s0 = (fb_boot w)\<lparr>dev := d, trace := t, shown := frame (fb_boot w)\<rparr>" by (simp add: exwordfb_init_def)
  then show ?thesis by (simp add: quiet_def fb_boot_def)
qed


definition plain_bus :: "unit bus" where
  "plain_bus = \<lparr>bus_rd8 = (\<lambda>_ w. (0, w)), bus_rd16 = (\<lambda>_ w. (0, w)), bus_rd32 = (\<lambda>_ w. (2, w)), bus_wr8 = (\<lambda>_ _ w. w),
     bus_wr16 = (\<lambda>_ _ w. w), bus_wr32 = (\<lambda>_ _ w. w)\<rparr>"


section \<open>Colours\<close>

text \<open>A colour register holds the colour in the panel's format: the five, six and five upper bits of the
  sixteen-bit components at the places the driver announces for them; a register past the
  palette is refused and changes nothing.\<close>

theorem fb_palette_rgb565:
  "exwordfb_setcolreg regno red green blue s =
     (if unat regno < 16
      then (0, s\<lparr>pseudo_palette := (pseudo_palette s)[unat regno :=
             push_bit (fst (red_field (var_info exwordfb_info))) (take_bit (snd (red_field (var_info exwordfb_info))) (drop_bit 11 red)) OR
             push_bit (fst (green_field (var_info exwordfb_info))) (take_bit (snd (green_field (var_info exwordfb_info))) (drop_bit 10 green)) OR
             push_bit (fst (blue_field (var_info exwordfb_info))) (take_bit (snd (blue_field (var_info exwordfb_info))) (drop_bit 11 blue))]\<rparr>)
      else (- EINVAL, s))"
proof -
  have m: "(0xf800 :: u32) = push_bit 11 (mask 5)" "(0xfc00 :: u32) = push_bit 10 (mask 6)" by (simp_all add: mask_eq_exp_minus_1)
  have r: "red AND 0xf800 = push_bit 11 (take_bit 5 (drop_bit 11 red))"
    unfolding m by (rule bit_word_eqI) (auto simp: bit_simps)
  have g: "drop_bit 5 (green AND 0xfc00) = push_bit 5 (take_bit 6 (drop_bit 10 green))"
    unfolding m by (rule bit_word_eqI) (auto simp: bit_simps)
  have b: "drop_bit 11 (blue AND 0xf800) = push_bit 0 (take_bit 5 (drop_bit 11 blue))"
    unfolding m by (rule bit_word_eqI) (auto simp: bit_simps)
  have c: "regno \<ge> 16 \<longleftrightarrow> \<not> unat regno < 16" by (simp add: word_le_nat_alt not_less)
  show ?thesis unfolding exwordfb_setcolreg_def r g b c by (simp add: exwordfb_info_def)
qed

end
