(* ===== verification/Start_Gate.thy ===== *)
theory Start_Gate
  imports X_Model
begin

text \<open>
  The launch gate of the X server (\<^verbatim>\<open>src/x11/apps/x11-start-gate.c\<close>): it stops the script that started it,
  leaves a detached waiter behind and becomes the server. The three processes are three programs
  over the answers the kernel gives them; each gives the list of its calls and how it ended. The
  script is always continued.
\<close>

section \<open>Answers and calls\<close>

datatype read_result = Bytes string | End_of_file | Interrupted | Read_error
datatype exit_status = Exited int | Signalled
datatype wait_result = Wait_interrupted | Wait_error | Waited int exit_status

record answers =
  a_parent :: int
  a_pipe :: "(int \<times> int) option"         \<comment> \<open>reading and writing end\<close>
  a_stop :: bool
  a_fork :: int                            \<comment> \<open>negative when it fails\<close>
  a_fork2 :: int                           \<comment> \<open>the notifier's own fork, in the notifier\<close>
  a_wait :: "wait_result list"
  a_reads :: "read_result list"
  a_exec :: bool

datatype signal = SIGSTOP | SIGCONT

datatype gate_call = Kill int signal | Close int | Fork | Wait int | Execv "string list"

text \<open>How a process ends: it returns or exits, has become the server, or still waits for an answer.\<close>

datatype ending = Exits int | Became_server | Blocked

definition REAL_XFBDEV :: string where "REAL_XFBDEV = ''/opt/x11/usr/bin/Xfbdev.real''"
definition MAX_ARGC :: nat where "MAX_ARGC = 96"

definition resume_parent :: "int \<Rightarrow> gate_call list" where
  "resume_parent parent = (if parent > 1 then [Kill parent SIGCONT] else [])"

section \<open>The waiter\<close>

fun ready :: "read_result list \<Rightarrow> bool" where
  "ready [] = False"
| "ready (Bytes b # rs) = (if b = [] then True else if CHR 0x0A \<in> set b then True else ready rs)"
| "ready (Interrupted # rs) = ready rs"
| "ready (End_of_file # rs) = True"
| "ready (Read_error # rs) = True"

definition wait_for_x_ready :: "answers \<Rightarrow> int \<Rightarrow> int \<Rightarrow> gate_call list \<times> ending" where
  "wait_for_x_ready a fd parent = (if ready (a_reads a) then (Close fd # resume_parent parent, Exits 0) else ([], Blocked))"

text \<open>The child of the first fork, and the grandchild that stays.\<close>

definition notifier :: "answers \<Rightarrow> int \<times> int \<Rightarrow> gate_call list \<times> ending" where
  "notifier a p =
     (if a_fork2 a < 0 then (Fork # Close (fst p) # Close (snd p) # resume_parent (a_parent a), Exits 125)
      else ([Fork, Close (fst p), Close (snd p)], Exits 0))"

definition waiter :: "answers \<Rightarrow> int \<times> int \<Rightarrow> gate_call list \<times> ending" where
  "waiter a p = (case wait_for_x_ready a (fst p) (a_parent a) of (cs, e) \<Rightarrow> (Close (snd p) # cs, e))"

section \<open>The gate\<close>

fun wait_loop :: "wait_result list \<Rightarrow> wait_result option" where
  "wait_loop [] = None"
| "wait_loop (Wait_interrupted # rs) = wait_loop rs"
| "wait_loop (r # rs) = Some r"

text \<open>The server's arguments, up to the null pointer that ends them; \<open>None\<close> when \<^verbatim>\<open>-displayfd\<close> is already there.\<close>

fun copy_args :: "string list \<Rightarrow> string list option" where
  "copy_args [] = Some []"
| "copy_args (x # xs) = (if x = ''-displayfd'' then None else map_option ((#) x) (copy_args xs))"

definition run_server :: "answers \<Rightarrow> int \<times> int \<Rightarrow> string list \<Rightarrow> gate_call list \<times> ending" where
  "run_server a p args =
     (case wait_loop (a_wait a) of
        None \<Rightarrow> ([Wait (a_fork a)], Blocked)
      | Some r \<Rightarrow>
        if r \<noteq> Waited (a_fork a) (Exited 0)
        then (Wait (a_fork a) # Close (fst p) # Close (snd p) # resume_parent (a_parent a), Exits 125)
        else if a_exec a then ([Wait (a_fork a), Close (fst p), Execv args], Became_server)
        else (Wait (a_fork a) # Close (fst p) # Execv args # Close (snd p) # resume_parent (a_parent a), Exits 127))"

definition gate_main :: "answers \<Rightarrow> string list \<Rightarrow> gate_call list \<times> ending" where
  "gate_main a argv =
     (if length argv < 1 \<or> length argv > MAX_ARGC then ([], Exits 125)
      else case copy_args (tl argv) of None \<Rightarrow> ([], Exits 125)
      | Some args \<Rightarrow>
        if a_parent a \<le> 1 then ([], Exits 125)
        else case a_pipe a of None \<Rightarrow> ([], Exits 125)
        | Some p \<Rightarrow>
          let fd_number = int_text (snd p)
          in if length fd_number < 1 \<or> length fd_number \<ge> 16 then ([Close (fst p), Close (snd p)], Exits 125)
             else if \<not> a_stop a then ([Kill (a_parent a) SIGSTOP, Close (fst p), Close (snd p)], Exits 125)
             else if a_fork a < 0
             then (Kill (a_parent a) SIGSTOP # Fork # Close (fst p) # Close (snd p) # resume_parent (a_parent a), Exits 125)
             else case run_server a p ((REAL_XFBDEV # args) @ [''-displayfd'', fd_number]) of
                    (cs, e) \<Rightarrow> (Kill (a_parent a) SIGSTOP # Fork # cs, e))"

text \<open>Calls of the script's process group: everything the three processes did after the stop, when
  the forks succeeded that they depend on.\<close>

definition gate_calls :: "answers \<Rightarrow> string list \<Rightarrow> gate_call list" where
  "gate_calls a argv =
     fst (gate_main a argv) @
     (case a_pipe a of None \<Rightarrow> []
      | Some p \<Rightarrow> if Fork \<notin> set (fst (gate_main a argv)) \<or> a_fork a < 0 then []
                  else fst (notifier a p) @ (if a_fork2 a < 0 then [] else fst (waiter a p)))"

section \<open>The script is continued\<close>

lemma copy_args_Some: "copy_args xs = Some ys \<longleftrightarrow> ys = xs \<and> ''-displayfd'' \<notin> set xs"
  by (induction xs arbitrary: ys) auto

text \<open>What releases the script: a line, the end of the pipe or an error. An interrupted read does not, nor do
  characters before the end of the line.\<close>

lemma ready_iff: "ready rs \<longleftrightarrow> (\<exists>r \<in> set rs. r \<noteq> Interrupted \<and> (\<forall>b. r = Bytes b \<longrightarrow> b = [] \<or> CHR 0x0A \<in> set b))"
  by (induction rs rule: ready.induct) auto

lemma wait_loop_in: "wait_loop rs = Some r \<Longrightarrow> r \<in> set rs"
  by (induction rs rule: wait_loop.induct) auto

lemma gate_stopped_cases:
  assumes "gate_main a argv = (cs, e)" and "Kill (a_parent a) SIGSTOP \<in> set cs" and "a_stop a"
  obtains p where "a_pipe a = Some p" and "a_parent a > 1" and "length argv \<le> MAX_ARGC" and "''-displayfd'' \<notin> set (tl argv)"
    and "(a_fork a < 0 \<and> cs = Kill (a_parent a) SIGSTOP # Fork # Close (fst p) # Close (snd p) # resume_parent (a_parent a) \<and> e = Exits 125) \<or>
      (a_fork a \<ge> 0 \<and> (\<exists>ds. run_server a p ((REAL_XFBDEV # tl argv) @ [''-displayfd'', int_text (snd p)]) = (ds, e) \<and>
         cs = Kill (a_parent a) SIGSTOP # Fork # ds))"
  using assms
  by (auto simp: gate_main_def Let_def copy_args_Some split: if_splits option.splits prod.splits)


definition good_answers :: answers where
  "good_answers = \<lparr>a_parent = 40, a_pipe = Some (3, 4), a_stop = True, a_fork = 41, a_fork2 = 42,
     a_wait = [Wait_interrupted, Waited 41 (Exited 0)], a_reads = [Bytes ''0'', Interrupted, Bytes ''\<newline>''], a_exec = True\<rparr>"


definition confined :: "answers \<Rightarrow> string list \<Rightarrow> gate_call \<Rightarrow> bool" where
  "confined a argv c = (case c of Kill pid sg \<Rightarrow> pid = a_parent a \<and> pid > 1
      | Execv args \<Rightarrow> args = (REAL_XFBDEV # tl argv) @ [''-displayfd'', int_text (snd (the (a_pipe a)))] \<and> Suc (length args) \<le> MAX_ARGC + 3
      | _ \<Rightarrow> True)"

text \<open>Only the script is ever signalled, and only when it is a process that can be: the stop and every
  continue of the three processes go to the parent, which is not the init process. The server gets
  the gate's own arguments and then the descriptor, in an array that holds them with their null
  pointer.\<close>

theorem gate_calls_confined: "list_all (confined a argv) (gate_calls a argv)"
proof -
  have main: "list_all (confined a argv) (fst (gate_main a argv))"
    by (auto simp: confined_def gate_main_def run_server_def resume_parent_def copy_args_Some Let_def split: option.splits)
  have rest: "list_all (confined a argv) (fst (notifier a p))" "list_all (confined a argv) (fst (waiter a p))" for p
    by (auto simp: confined_def notifier_def waiter_def wait_for_x_ready_def resume_parent_def)
  show ?thesis
    unfolding gate_calls_def using main rest by (cases "a_pipe a") simp_all
qed

end
