(* ===== verification/Desk.thy ===== *)
theory Desk
  imports X_Model "HOL-Library.List_Lexorder" "HOL-Library.Multiset"
begin

text \<open>
  The desktop programs of \<^verbatim>\<open>src/x11/apps/exdesk.c\<close>: the menu, the file manager, the clock and the eyes. Each
  event loop is a function on its state and the events; the drawing requests, the processes
  started and the answers of the file system are explicit.
\<close>

section \<open>Windows\<close>

text \<open>Division of C, which rounds towards zero.\<close>

definition cdiv :: "int \<Rightarrow> int \<Rightarrow> int" where
  "cdiv a b = sgn a * sgn b * (\<bar>a\<bar> div \<bar>b\<bar>)"

definition TASKBAR_HEIGHT :: int where "TASKBAR_HEIGHT = 19"
definition FILE_MAX_ENTRIES :: nat where "FILE_MAX_ENTRIES = 128"
definition FILE_ROW_HEIGHT :: int where "FILE_ROW_HEIGHT = 15"
definition FILE_LIST_TOP :: int where "FILE_LIST_TOP = 55"
definition NAME_MAX :: nat where "NAME_MAX = 255"
definition PATH_MAX :: nat where "PATH_MAX = 4096"

record ui =
  black :: pixel
  white :: pixel
  face :: pixel
  light :: pixel
  shadow :: pixel
  dark :: pixel
  navy :: pixel
  desktop :: pixel
  focus_text :: pixel
  ascent :: int
  descent :: int
  text_width :: "string \<Rightarrow> int"       \<comment> \<open>\<^verbatim>\<open>XTextWidth\<close> in the font\<close>
  wm_delete :: nat
  width :: int
  height :: int

definition named_color :: "(string \<Rightarrow> pixel option) \<Rightarrow> string \<Rightarrow> pixel \<Rightarrow> pixel" where
  "named_color alloc name fallback = (case alloc name of None \<Rightarrow> fallback | Some p \<Rightarrow> p)"

text \<open>What the server answers: the two standard pixels, colours, the font (\<open>None\<close> when it is missing) and the atom.\<close>

record server =
  s_display :: bool
  s_black :: pixel
  s_white :: pixel
  s_alloc :: "string \<Rightarrow> pixel option"
  s_font :: "(int \<times> int \<times> (string \<Rightarrow> int)) option"
  s_atom :: nat
  s_width :: int
  s_height :: int

definition ui_init :: "server \<Rightarrow> ui option" where
  "ui_init sv =
     (if \<not> s_display sv then None
      else case s_font sv of None \<Rightarrow> None
      | Some (a, d, tw) \<Rightarrow>
        Some \<lparr>black = s_black sv, white = s_white sv, face = named_color (s_alloc sv) ''#242424'' (s_black sv),
              light = named_color (s_alloc sv) ''#0099cc'' (s_white sv), shadow = named_color (s_alloc sv) ''#111111'' (s_black sv),
              dark = named_color (s_alloc sv) ''#9e9e9e'' (s_white sv), navy = named_color (s_alloc sv) ''#303030'' (s_black sv),
              desktop = named_color (s_alloc sv) ''#222222'' (s_black sv), focus_text = named_color (s_alloc sv) ''#4cb7db'' (s_white sv),
              ascent = a, descent = d, text_width = tw, wm_delete = s_atom sv, width = 0, height = 0\<rparr>)"

text \<open>The place of a window on the screen; the size is kept in the state.\<close>

definition window_place :: "server \<Rightarrow> int \<Rightarrow> int \<Rightarrow> bool \<Rightarrow> int \<times> int" where
  "window_place sv w h menu =
     (let x = (if menu then 0 else cdiv (s_width sv - w) 2);
          y = (if menu then s_height sv - TASKBAR_HEIGHT - h else cdiv (s_height sv - TASKBAR_HEIGHT - h) 2)
      in (if x < 0 then 0 else x, if y < 0 then 0 else y))"

definition make_window :: "server \<Rightarrow> ui \<Rightarrow> int \<Rightarrow> int \<Rightarrow> bool \<Rightarrow> ui \<times> int \<times> int" where
  "make_window sv u w h menu = (u\<lparr>width := w, height := h\<rparr>, window_place sv w h menu)"

definition fill :: "pixel \<Rightarrow> int \<Rightarrow> int \<Rightarrow> int \<Rightarrow> int \<Rightarrow> xcall list" where
  "fill c x y w h = (if w \<le> 0 \<or> h \<le> 0 then [] else [Set_foreground c, Fill_rectangle Window_pixels x y w h])"

definition bevel :: "ui \<Rightarrow> int \<Rightarrow> int \<Rightarrow> int \<Rightarrow> int \<Rightarrow> bool \<Rightarrow> xcall list" where
  "bevel u x y w h sunken =
     (if w < 2 \<or> h < 2 then []
      else [Set_foreground (if sunken then light u else shadow u), Draw_rectangle Window_pixels x y (w - 1) (h - 1)])"

definition text_n :: "pixel \<Rightarrow> int \<Rightarrow> int \<Rightarrow> string \<Rightarrow> int \<Rightarrow> xcall list" where
  "text_n c x y t n = (if n \<le> 0 then [] else [Set_foreground c, Draw_string Window_pixels x y (take (nat n) t)])"

definition text_at :: "pixel \<Rightarrow> int \<Rightarrow> int \<Rightarrow> string \<Rightarrow> xcall list" where
  "text_at c x y t = text_n c x y t (int (length t))"

definition button :: "ui \<Rightarrow> int \<Rightarrow> int \<Rightarrow> int \<Rightarrow> int \<Rightarrow> string \<Rightarrow> bool \<Rightarrow> xcall list" where
  "button u x y w h label pressed =
     (let baseline = y + cdiv (h - (ascent u + descent u)) 2 + ascent u
      in fill (if pressed then navy u else face u) x y w h @ bevel u x y w h pressed @
         text_at (if pressed then focus_text u else white u) (x + cdiv (w - text_width u label) 2) baseline label)"

datatype xevent =
    Expose nat
  | Motion int int
  | ButtonPress nat int int nat        \<comment> \<open>button, place and time\<close>
  | KeyPress keysym
  | ClientMessage nat
  | Visibility bool                    \<comment> \<open>whether fully obscured\<close>
  | Other_event

definition close_event :: "ui \<Rightarrow> xevent \<Rightarrow> bool" where
  "close_event u e \<longleftrightarrow> e = ClientMessage (wm_delete u)"

text \<open>The lock of a program: the file descriptor when it is free, \<open>-1\<close> otherwise. The answers are the
  one of \<^verbatim>\<open>open\<close> and whether \<^verbatim>\<open>flock\<close> succeeded.\<close>

definition instance_lock :: "string \<Rightarrow> int \<Rightarrow> bool \<Rightarrow> int" where
  "instance_lock name fd locked =
     (if length (''/tmp/exdesk-'' @ name @ ''.lock'') \<ge> 96 then -1 else if fd < 0 then -1 else if \<not> locked then -1 else fd)"

section \<open>The menu\<close>

definition QUOTE :: string where "QUOTE = [CHR 0x27]"

definition menu_items :: "(string \<times> string option) list" where
  "menu_items = [
     (''File Manager'', Some ''exec /opt/x11/usr/bin/exfile /''),
     (''Calculator'', Some ''exec /opt/x11/usr/bin/xcalc''),
     (''Text Editor'', Some ''exec /opt/x11/usr/bin/xedit''),
     (''Message Box'', Some (''exec /opt/x11/usr/bin/xmessage -center 'Hello from EX-word Linux'' @ QUOTE)),
     (''Kill Window'', Some ''exec /opt/x11/usr/bin/xkill''),
     (''Command Prompt'', Some ''exec /opt/x11/usr/bin/xterm -T 'Command Prompt' -tn xterm -fn fixed -bg '#242424' -fg white -cr '#0099cc' -geometry 64x20 -sl 64 +sb -ut''),
     (''Task Manager'', Some ''exec /opt/x11/usr/bin/xterm -T 'Task Manager' -tn xterm -fn fixed -bg '#242424' -fg white -cr '#0099cc' -geometry 64x20 -sl 16 +sb -ut -e /usr/bin/top''),
     (''System Information'', Some (''exec /opt/x11/usr/bin/xterm -T 'System Information' -tn xterm -fn fixed -bg '#242424' -fg white -cr '#0099cc' -geometry 64x20 -sl 8 +sb -ut -e /bin/sh -c '/opt/x11/usr/bin/screenfetch; echo; echo Press ENTER to close; read answer'' @ QUOTE)),
     (''Disk Information'', Some (''exec /opt/x11/usr/bin/xterm -T 'Disk Information' -tn xterm -fn fixed -bg '#242424' -fg white -cr '#0099cc' -geometry 64x20 -sl 8 +sb -ut -e /bin/sh -c '/usr/bin/lsblk; echo; echo Press ENTER to close; read answer'' @ QUOTE)),
     (''Snake'', Some ''/opt/x11/usr/bin/notify 'Starting Snake'; exec /opt/x11/usr/bin/snake''),
     (''Clock'', Some ''exec /opt/x11/usr/bin/xclock''),
     (''Eyes'', Some ''exec /opt/x11/usr/bin/xeyes''),
     (''Close Menu'', None)]"

definition menu_count :: int where "menu_count = int (length menu_items)"

definition menu_index_at :: "int \<Rightarrow> int \<Rightarrow> int \<Rightarrow> int" where
  "menu_index_at x y w =
     (if x < 4 \<or> x \<ge> w - 4 \<or> y < 4 then -1
      else let index = cdiv (y - 4) 22 in if index < 0 \<or> index \<ge> menu_count then -1 else index)"

fun draw_items :: "ui \<Rightarrow> int \<Rightarrow> int \<Rightarrow> (string \<times> string option) list \<Rightarrow> xcall list" where
  "draw_items u hover index [] = []"
| "draw_items u hover index (i # is) =
     fill (if index = hover then navy u else face u) 4 (4 + index * 22) (width u - 8) 22 @
     text_at (if index = hover then focus_text u else white u) 12 (4 + index * 22 + 15) (fst i) @
     draw_items u hover (index + 1) is"

definition draw_menu :: "ui \<Rightarrow> int \<Rightarrow> xcall list" where
  "draw_menu u hover = fill (face u) 0 0 (width u) (height u) @ bevel u 0 0 (width u) (height u) False @ draw_items u hover 0 menu_items @ [Flush]"

text \<open>The state of the loop; \<open>chosen\<close> is set when it has ended, with the command to run if there is one.\<close>

record menu =
  hover :: int
  chosen :: "string option option"
  menu_calls :: "xcall list"

definition menu_command :: "int \<Rightarrow> string option" where
  "menu_command i = snd (menu_items ! nat i)"

definition set_hover :: "ui \<Rightarrow> int \<Rightarrow> menu \<Rightarrow> menu" where
  "set_hover u h s = s\<lparr>hover := h, menu_calls := menu_calls s @ draw_menu u h\<rparr>"

definition menu_event :: "ui \<Rightarrow> xevent \<Rightarrow> menu \<Rightarrow> menu" where
  "menu_event u e s =
     (case e of
        Expose c \<Rightarrow> if c = 0 then set_hover u (hover s) s else s
      | Motion x y \<Rightarrow> let i = menu_index_at x y (width u) in if i \<noteq> hover s then set_hover u i s else s
      | ButtonPress b x y t \<Rightarrow>
          let i = menu_index_at x y (width u) in s\<lparr>chosen := Some (if b = 1 \<and> i \<ge> 0 then menu_command i else None)\<rparr>
      | KeyPress k \<Rightarrow>
          if k = XK_Escape then s\<lparr>chosen := Some None\<rparr>
          else if k = XK_Up then set_hover u (if hover s - 1 < 0 then menu_count - 1 else hover s - 1) s
          else if k = XK_Down then set_hover u (if hover s + 1 \<ge> menu_count then 0 else hover s + 1) s
          else if k = XK_Return \<or> k = XK_KP_Enter
          then (if hover s \<ge> 0 then s\<lparr>chosen := Some (menu_command (hover s))\<rparr> else s)
          else s
      | _ \<Rightarrow> s)"

fun menu_loop :: "ui \<Rightarrow> xevent list \<Rightarrow> menu \<Rightarrow> menu" where
  "menu_loop u [] s = s"
| "menu_loop u (e # es) s = (if chosen s = None then menu_loop u es (menu_event u e s) else s)"

text \<open>Started like the viewer, by a child of a child.\<close>

definition spawn_shell :: "string \<Rightarrow> string list" where
  "spawn_shell command = [''/bin/sh'', ''-c'', command]"

text \<open>The result: the exit code and the arguments of the shell that was started. \<open>None\<close> while the menu is open.\<close>

definition run_menu :: "server \<Rightarrow> int \<Rightarrow> bool \<Rightarrow> bool \<Rightarrow> xevent list \<Rightarrow> (int \<times> string list option) option" where
  "run_menu sv fd locked grabbed es =
     (if instance_lock ''menu'' fd locked < 0 then Some (0, None)
      else case ui_init sv of None \<Rightarrow> Some (1, None)
      | Some u0 \<Rightarrow>
        let u = fst (make_window sv u0 190 (menu_count * 22 + 8) True)
        in if \<not> grabbed then Some (0, None)
           else case chosen (menu_loop u es \<lparr>hover = 0, chosen = None, menu_calls = draw_menu u 0\<rparr>) of
                  None \<Rightarrow> None | Some c \<Rightarrow> Some (0, map_option spawn_shell c))"

section \<open>The file manager\<close>

datatype file_kind = Dir | Reg | Link | Special

record file_entry =
  f_name :: string
  directory :: bool
  regular :: bool
  link :: bool
  f_size :: int

text \<open>The file system while one event is handled: listings (or the text of the error), and the kind and
  size of a path without and with following a link.\<close>

record fsys =
  readdir :: "string \<Rightarrow> string + string list"
  lstat :: "string \<Rightarrow> (file_kind \<times> int) option"
  stat :: "string \<Rightarrow> (file_kind \<times> int) option"

record file_state =
  path :: string
  entries :: "file_entry list"         \<comment> \<open>the first \<^verbatim>\<open>count\<close> of the array\<close>
  selected :: int
  offset :: int
  last_click :: u32
  last_clicked :: int
  message :: string
  viewed :: "string list list"         \<comment> \<open>the arguments of the viewers that were started\<close>
  file_calls :: "xcall list"

definition count :: "file_state \<Rightarrow> int" where "count s = int (length (entries s))"

definition tolower :: "char \<Rightarrow> nat" where
  "tolower c = (let n = of_char c in if 65 \<le> n \<and> n \<le> 90 then n + 32 else n)"

fun strcasecmp :: "string \<Rightarrow> string \<Rightarrow> int" where
  "strcasecmp [] [] = 0"
| "strcasecmp [] (b # bs) = - int (tolower b)"
| "strcasecmp (a # as) [] = int (tolower a)"
| "strcasecmp (a # as) (b # bs) = (if tolower a = tolower b then strcasecmp as bs else int (tolower a) - int (tolower b))"

definition entry_compare :: "file_entry \<Rightarrow> file_entry \<Rightarrow> int" where
  "entry_compare l r = (if directory l \<noteq> directory r then (if directory l then -1 else 1) else strcasecmp (f_name l) (f_name r))"

text \<open>\<^verbatim>\<open>qsort\<close> with \<open>entry_compare\<close>; entries that compare equal keep their order here.\<close>

fun insert_entry :: "file_entry \<Rightarrow> file_entry list \<Rightarrow> file_entry list" where
  "insert_entry e [] = [e]"
| "insert_entry e (f # fs) = (if entry_compare e f \<le> 0 then e # f # fs else f # insert_entry e fs)"

fun sort_entries :: "file_entry list \<Rightarrow> file_entry list" where
  "sort_entries [] = []"
| "sort_entries (e # es) = insert_entry e (sort_entries es)"

definition path_join :: "nat \<Rightarrow> string \<Rightarrow> string \<Rightarrow> string option" where
  "path_join n dir name =
     (let r = (if dir = ''/'' then ''/'' @ name else dir @ ''/'' @ name) in if length r < n then Some r else None)"

definition file_item :: "fsys \<Rightarrow> string \<Rightarrow> string \<Rightarrow> file_entry option" where
  "file_item fs dir name =
     (if name = ''.'' \<or> name = ''..'' then None
      else case path_join PATH_MAX dir name of None \<Rightarrow> None
      | Some full \<Rightarrow>
        (case lstat fs full of None \<Rightarrow> None
         | Some (k, sz) \<Rightarrow>
           let (k1, sz1) = (if k = Link then (case stat fs full of None \<Rightarrow> (Special, 0) | Some r \<Rightarrow> r) else (k, sz))
           in Some \<lparr>f_name = take NAME_MAX name, directory = (k1 = Dir), regular = (k1 = Reg), link = (k = Link), f_size = sz1\<rparr>))"

fun read_entries :: "fsys \<Rightarrow> string \<Rightarrow> string list \<Rightarrow> file_entry list \<Rightarrow> file_entry list" where
  "read_entries fs dir [] acc = acc"
| "read_entries fs dir (n # ns) acc =
     (if length acc < FILE_MAX_ENTRIES
      then read_entries fs dir ns (case file_item fs dir n of None \<Rightarrow> acc | Some e \<Rightarrow> acc @ [e])
      else acc)"

definition load_directory :: "fsys \<Rightarrow> file_state \<Rightarrow> file_state" where
  "load_directory fs s =
     (let s1 = s\<lparr>entries := [], selected := -1, offset := 0, last_clicked := -1, message := []\<rparr>
      in case readdir fs (path s) of
           Inl err \<Rightarrow> s1\<lparr>message := snprintf 96 (''Cannot open: '' @ err)\<rparr>
         | Inr ns \<Rightarrow>
           let es = sort_entries (read_entries fs (path s) ns [])
           in s1\<lparr>entries := es, message := (if length es = FILE_MAX_ENTRIES then ''Showing the first 128 entries'' else [])\<rparr>)"

fun last_slash :: "string \<Rightarrow> nat option" where
  "last_slash [] = None"
| "last_slash (c # cs) = (case last_slash cs of Some i \<Rightarrow> Some (Suc i) | None \<Rightarrow> if c = CHR ''/'' then Some 0 else None)"

definition file_up :: "fsys \<Rightarrow> file_state \<Rightarrow> file_state" where
  "file_up fs s =
     (if path s = ''/'' then s
      else load_directory fs (s\<lparr>path := (case last_slash (path s) of None \<Rightarrow> path s | Some i \<Rightarrow> if i = 0 then take 1 (path s) else take i (path s))\<rparr>))"

definition file_set_path :: "fsys \<Rightarrow> string \<Rightarrow> file_state \<Rightarrow> file_state" where
  "file_set_path fs p s =
     (case stat fs p of
        Some (Dir, _) \<Rightarrow> load_directory fs (s\<lparr>path := take (PATH_MAX - 1) p\<rparr>)
      | _ \<Rightarrow> s\<lparr>message := snprintf 96 (''Directory unavailable: '' @ p)\<rparr>)"

text \<open>The viewer is started by a child of a child, whose result nobody waits for; nothing is started when a fork
  fails. The path is an argument of the shell, not part of its command.\<close>

definition viewer_argv :: "string \<Rightarrow> string list" where
  "viewer_argv p = [''/opt/x11/usr/bin/xterm'', ''-T'', ''File Viewer'', ''-tn'', ''xterm'', ''-fn'', ''fixed'', ''-bg'', ''#242424'', ''-fg'', ''white'',
     ''-cr'', ''#0099cc'', ''-geometry'', ''64x20'', ''-sl'', ''32'', ''+sb'', ''-ut'', ''-e'', ''/bin/sh'', ''-c'',
     ''/usr/bin/head -n 200 \"$1\"; echo; echo Press ENTER to close; read answer'', ''sh'', p]"

definition spawn_viewer :: "string \<Rightarrow> file_state \<Rightarrow> file_state" where
  "spawn_viewer p s = s\<lparr>viewed := viewed s @ [viewer_argv p]\<rparr>"

definition file_open_selected :: "fsys \<Rightarrow> file_state \<Rightarrow> file_state" where
  "file_open_selected fs s =
     (if selected s < 0 \<or> selected s \<ge> count s then s
      else let e = entries s ! nat (selected s)
           in case path_join PATH_MAX (path s) (f_name e) of None \<Rightarrow> s\<lparr>message := ''Path is too long''\<rparr>
              | Some full \<Rightarrow>
                if directory e then file_set_path fs full s
                else if \<not> regular e then s\<lparr>message := ''Special files cannot be opened''\<rparr>
                else if f_size e > 131072 then s\<lparr>message := ''File is too large (128 KiB limit)''\<rparr>
                else spawn_viewer full s)"

definition visible_rows :: "ui \<Rightarrow> int" where
  "visible_rows u = (let rows = cdiv (height u - FILE_LIST_TOP - 22) FILE_ROW_HEIGHT in if rows > 1 then rows else 1)"

definition keep_selection_visible :: "ui \<Rightarrow> file_state \<Rightarrow> file_state" where
  "keep_selection_visible u s =
     (let rows = visible_rows u;
          o1 = (if selected s < offset s then selected s else offset s);
          o2 = (if selected s \<ge> o1 + rows then selected s - rows + 1 else o1)
      in s\<lparr>offset := (if o2 < 0 then 0 else o2)\<rparr>)"

definition pad_left :: "nat \<Rightarrow> string \<Rightarrow> string" where
  "pad_left n t = replicate (n - length t) (CHR '' '') @ t"

text \<open>The size of a file is printed as an unsigned long of 32 bits.\<close>

definition entry_text :: "file_entry \<Rightarrow> string" where
  "entry_text e = snprintf 128
     (if directory e then ''[DIR] '' @ f_name e
      else (if link e then ''@'' else '' '') @ '' '' @ pad_left 8 (int_text (f_size e mod 2 ^ 32)) @ ''  '' @ f_name e)"

fun draw_rows :: "ui \<Rightarrow> file_state \<Rightarrow> nat \<Rightarrow> int \<Rightarrow> xcall list" where
  "draw_rows u s 0 row = []"
| "draw_rows u s (Suc n) row =
     (let index = offset s + row; y = FILE_LIST_TOP + row * FILE_ROW_HEIGHT; line = entry_text (entries s ! nat index)
      in if index \<ge> count s then []
         else (if index = selected s then fill (navy u) 6 y (width u - 12) FILE_ROW_HEIGHT else []) @
              text_n (if index = selected s then focus_text u else white u) 9 (y + 12) line
                (min (int (length line)) (cdiv (width u - 18) 6)) @
              draw_rows u s n (row + 1))"

definition draw_file_manager :: "ui \<Rightarrow> file_state \<Rightarrow> xcall list" where
  "draw_file_manager u s =
     (let rows = visible_rows u; title = snprintf (PATH_MAX + 16) (''EX-File  '' @ path s)
      in fill (face u) 0 0 (width u) (height u) @ fill (navy u) 2 2 (width u - 4) 21 @ fill (light u) 2 22 (width u - 4) 1 @
         text_n (focus_text u) 7 17 title (min (int (length title)) (cdiv (width u - 14) 6)) @
         button u 4 27 48 22 ''Up'' False @ button u 56 27 48 22 ''Root'' False @ button u 108 27 48 22 ''mnt'' False @
         button u 160 27 62 22 ''Refresh'' False @ button u (width u - 56) 27 52 22 ''Close'' False @
         fill (desktop u) 4 (FILE_LIST_TOP - 2) (width u - 8) (rows * FILE_ROW_HEIGHT + 4) @
         bevel u 3 (FILE_LIST_TOP - 3) (width u - 6) (rows * FILE_ROW_HEIGHT + 6) True @
         draw_rows u s (nat rows) 0 @
         text_at (dark u) 6 (height u - 6)
           (if message s \<noteq> [] then message s
            else snprintf 128 (int_text (count s) @ '' item'' @ (if count s = 1 then [] else ''s'') @ ''  ENTER/double-click opens'')) @
         [Flush])"

definition file_click :: "ui \<Rightarrow> fsys \<Rightarrow> nat \<Rightarrow> int \<Rightarrow> u32 \<Rightarrow> file_state \<Rightarrow> file_state" where
  "file_click u fs b y t s =
     (let index = offset s + cdiv (y - FILE_LIST_TOP) FILE_ROW_HEIGHT
      in if \<not> (index \<ge> 0 \<and> index < count s) then s
         else let double_click = (index = last_clicked s \<and> t - last_click s < 500);
                  enter_directory = ((b = 3 \<or> double_click) \<and> directory (entries s ! nat index));
                  s1 = s\<lparr>selected := index\<rparr>;
                  s2 = (if double_click \<or> b = 3 then file_open_selected fs s1 else s1)
              in if \<not> enter_directory then s2\<lparr>last_clicked := index, last_click := t\<rparr> else s2)"

text \<open>A press of a button of the mouse, with whether the window stays open.\<close>

definition file_press :: "ui \<Rightarrow> fsys \<Rightarrow> nat \<Rightarrow> int \<Rightarrow> int \<Rightarrow> u32 \<Rightarrow> file_state \<Rightarrow> bool \<times> file_state" where
  "file_press u fs b x y t s =
     (if b = 4 then (True, if offset s > 0 then s\<lparr>offset := offset s - 1\<rparr> else s)
      else if b = 5 then (True, if offset s + visible_rows u < count s then s\<lparr>offset := offset s + 1\<rparr> else s)
      else if y \<ge> 27 \<and> y < 49
      then (if x \<ge> 4 \<and> x < 52 then (True, file_up fs s)
            else if x \<ge> 56 \<and> x < 104 then (True, file_set_path fs ''/'' s)
            else if x \<ge> 108 \<and> x < 156 then (True, file_set_path fs ''/mnt'' s)
            else if x \<ge> 160 \<and> x < 222 then (True, load_directory fs s)
            else if x \<ge> width u - 56 then (False, s) else (True, s))
      else if x \<ge> 4 \<and> x < width u - 4 \<and> y \<ge> FILE_LIST_TOP \<and> y < FILE_LIST_TOP + visible_rows u * FILE_ROW_HEIGHT
      then (True, file_click u fs b y t s)
      else (True, s))"

definition file_key :: "ui \<Rightarrow> fsys \<Rightarrow> keysym \<Rightarrow> file_state \<Rightarrow> file_state" where
  "file_key u fs k s =
     (let rows = visible_rows u
      in if k = XK_Up \<and> count s > 0
         then (if selected s < 0 then s\<lparr>selected := 0\<rparr> else if selected s > 0 then s\<lparr>selected := selected s - 1\<rparr> else s)
         else if k = XK_Down \<and> count s > 0
         then (if selected s < 0 then s\<lparr>selected := 0\<rparr> else if selected s + 1 < count s then s\<lparr>selected := selected s + 1\<rparr> else s)
         else if k = XK_Prior \<and> count s > 0 then s\<lparr>selected := (if selected s - rows < 0 then 0 else selected s - rows)\<rparr>
         else if k = XK_Next \<and> count s > 0
         then s\<lparr>selected := (if selected s + rows \<ge> count s then count s - 1 else selected s + rows)\<rparr>
         else if k = XK_Home \<and> count s > 0 then s\<lparr>selected := 0\<rparr>
         else if k = XK_End \<and> count s > 0 then s\<lparr>selected := count s - 1\<rparr>
         else if k = XK_Return \<or> k = XK_KP_Enter then file_open_selected fs s
         else if k = XK_BackSpace then file_up fs s
         else if k = XK_F5 then load_directory fs s
         else s)"

definition redrawn :: "ui \<Rightarrow> file_state \<Rightarrow> file_state" where
  "redrawn u s = s\<lparr>file_calls := file_calls s @ draw_file_manager u s\<rparr>"

definition file_event :: "ui \<Rightarrow> fsys \<Rightarrow> xevent \<Rightarrow> file_state \<Rightarrow> bool \<times> file_state" where
  "file_event u fs e s =
     (if close_event u e then (False, s)
      else case e of
        Expose c \<Rightarrow> (True, if c = 0 then redrawn u s else s)
      | ButtonPress b x y t \<Rightarrow> (case file_press u fs b x y (of_nat t) s of (r, s1) \<Rightarrow> (r, redrawn u s1))
      | KeyPress k \<Rightarrow> if k = XK_Escape then (False, s) else (True, redrawn u (keep_selection_visible u (file_key u fs k s)))
      | _ \<Rightarrow> (True, s))"

fun file_loop :: "ui \<Rightarrow> (fsys \<times> xevent) list \<Rightarrow> file_state \<Rightarrow> bool \<times> file_state" where
  "file_loop u [] s = (True, s)"
| "file_loop u ((fs, e) # es) s = (case file_event u fs e s of (r, s1) \<Rightarrow> if r then file_loop u es s1 else (False, s1))"

definition empty_state :: file_state where
  "empty_state = \<lparr>path = [], entries = [], selected = -1, offset = 0, last_click = 0, last_clicked = -1, message = [], viewed = [],
     file_calls = []\<rparr>"

text \<open>\<open>None\<close> when the program ends before its window: already running, or no display. Otherwise
  whether it still runs, and its state.\<close>

definition run_file_manager :: "server \<Rightarrow> int \<Rightarrow> bool \<Rightarrow> fsys \<Rightarrow> string \<Rightarrow> (fsys \<times> xevent) list \<Rightarrow> (bool \<times> file_state) option" where
  "run_file_manager sv fd locked fs initial es =
     (if instance_lock ''file'' fd locked < 0 then None
      else case ui_init sv of None \<Rightarrow> None
      | Some u0 \<Rightarrow>
        let u = fst (make_window sv u0 500 276 False) in Some (file_loop u es (redrawn u (file_set_path fs initial empty_state))))"

section \<open>Clock and eyes\<close>

definition pattern :: "u8 list" where
  "pattern = [0x3f, 0x06, 0x5b, 0x4f, 0x66, 0x6d, 0x7d, 0x07, 0x7f, 0x6f]"

definition seven_segment :: "ui \<Rightarrow> int \<Rightarrow> int \<Rightarrow> nat \<Rightarrow> xcall list" where
  "seven_segment u x y digit =
     (let bits = pattern ! digit; w = 20; h = 38; thick = 3; half = 19;
          seg = (\<lambda>m a b c d. if bits AND m \<noteq> 0 then fill (light u) a b c d else [])
      in seg 0x01 (x + 3) y (w - 6) thick @ seg 0x02 (x + w - thick) (y + 3) thick (half - 4) @
         seg 0x04 (x + w - thick) (y + half + 1) thick (half - 4) @ seg 0x08 (x + 3) (y + h - thick) (w - 6) thick @
         seg 0x10 x (y + half + 1) thick (half - 4) @ seg 0x20 x (y + 3) thick (half - 4) @ seg 0x40 (x + 3) (y + half - 1) (w - 6) thick)"

record tm =
  tm_hour :: nat
  tm_min :: nat
  tm_sec :: nat
  tm_date :: string        \<comment> \<open>as \<^verbatim>\<open>strftime\<close> prints it\<close>

definition clock_values :: "tm \<Rightarrow> nat list" where
  "clock_values t = [tm_hour t div 10, tm_hour t mod 10, tm_min t div 10, tm_min t mod 10, tm_sec t div 10, tm_sec t mod 10]"

fun clock_digits :: "ui \<Rightarrow> int \<Rightarrow> nat \<Rightarrow> nat list \<Rightarrow> xcall list" where
  "clock_digits u x i [] = []"
| "clock_digits u x i (v # vs) =
     seven_segment u x 30 v @
     (if i = 1 \<or> i = 3
      then fill (light u) (x + 25) 40 3 3 @ fill (light u) (x + 25) 53 3 3 @ clock_digits u (x + 35) (Suc i) vs
      else clock_digits u (x + 25) (Suc i) vs)"

definition draw_clock :: "ui \<Rightarrow> tm option \<Rightarrow> xcall list" where
  "draw_clock u now =
     (case now of None \<Rightarrow> []
      | Some t \<Rightarrow>
        fill (face u) 0 0 (width u) (height u) @ fill (navy u) 2 2 (width u - 4) 20 @ fill (light u) 2 22 (width u - 4) 1 @
        text_at (focus_text u) 7 16 ''Clock'' @ clock_digits u 30 0 (clock_values t) @ text_at (dark u) 74 84 (tm_date t) @ [Flush])"

text \<open>The square root, bit by bit, on 32-bit unsigned longs.\<close>

function sqrt_start :: "u32 \<Rightarrow> u32 \<Rightarrow> u32" where
  "sqrt_start v b = (if b > v then sqrt_start v (drop_bit 2 b) else b)"
  by pat_completeness auto
termination
proof (relation "measure (\<lambda>(v, b). unat b)", simp)
  fix v b :: u32 assume "b > v"
  then have "0 < unat b" by (simp add: word_less_nat_alt)
  then show "((v, drop_bit 2 b), (v, b)) \<in> measure (\<lambda>(v, b). unat b)" by (simp add: unat_drop_bit)
qed

declare sqrt_start.simps [simp del]

function sqrt_loop :: "u32 \<Rightarrow> u32 \<Rightarrow> u32 \<Rightarrow> u32" where
  "sqrt_loop v r b =
     (if b = 0 then r
      else if v \<ge> r + b then sqrt_loop (v - (r + b)) (drop_bit 1 r + b) (drop_bit 2 b)
      else sqrt_loop v (drop_bit 1 r) (drop_bit 2 b))"
  by pat_completeness auto
termination
proof (relation "measure (\<lambda>(v, r, b). unat b)", simp)
  have "unat (drop_bit 2 b) < unat b" if "b \<noteq> 0" for b :: u32
    using that by (simp add: unat_drop_bit unat_gt_0)
  then show "b \<noteq> 0 \<Longrightarrow> ((v - (r + b), drop_bit 1 r + b, drop_bit 2 b), (v, r, b)) \<in> measure (\<lambda>(v, r, b). unat b)"
    "b \<noteq> 0 \<Longrightarrow> ((v, drop_bit 1 r, drop_bit 2 b), (v, r, b)) \<in> measure (\<lambda>(v, r, b). unat b)" for v r b :: u32
    by simp_all
qed

declare sqrt_loop.simps [simp del]

definition integer_sqrt :: "u32 \<Rightarrow> u32" where
  "integer_sqrt v = sqrt_loop v 0 (sqrt_start v (push_bit 30 1))"

text \<open>What was last drawn: the places of the pointer and of the window.\<close>

type_synonym eyes = "(int \<times> int \<times> int \<times> int) option"

definition pupil :: "int \<Rightarrow> int \<Rightarrow> int \<Rightarrow> int \<Rightarrow> int \<times> int" where
  "pupil dx dy center_x center_y =
     (let distance = uint (integer_sqrt (word_of_int (dx * dx + dy * dy)))
      in if distance > 0 then (center_x + cdiv (dx * 14) distance, center_y + cdiv (dy * 10) distance) else (center_x, center_y))"

definition draw_eye :: "ui \<Rightarrow> int \<times> int \<times> int \<times> int \<Rightarrow> int \<Rightarrow> xcall list" where
  "draw_eye u p cx =
     (case p of (root_x, root_y, window_x, window_y) \<Rightarrow>
      case pupil (root_x - (window_x + cx)) (root_y - (window_y + 61)) cx 61 of (px, py) \<Rightarrow>
      [Set_foreground (white u), Fill_arc Window_pixels (cx - 28) (61 - 25) 56 50, Set_foreground (black u),
       Draw_arc Window_pixels (cx - 28) (61 - 25) 56 50, Fill_arc Window_pixels (px - 7) (py - 7) 14 14])"

definition draw_eyes :: "ui \<Rightarrow> bool \<Rightarrow> int \<times> int \<times> int \<times> int \<Rightarrow> eyes \<Rightarrow> xcall list \<times> eyes" where
  "draw_eyes u force p prev =
     (if \<not> force \<and> prev = Some p then ([], prev)
      else (fill (face u) 0 0 (width u) (height u) @ fill (navy u) 2 2 (width u - 4) 20 @ fill (light u) 2 22 (width u - 4) 1 @
            text_at (focus_text u) 7 16 ''xeyes'' @ draw_eye u p 53 @ draw_eye u p 127 @ [Flush], Some p))"

record timed =
  t_running :: bool
  redraw :: bool
  obscured :: bool
  previous :: eyes
  t_calls :: "xcall list"

definition timed_event :: "ui \<Rightarrow> xevent \<Rightarrow> timed \<Rightarrow> timed" where
  "timed_event u e s =
     (if close_event u e then s\<lparr>t_running := False\<rparr>
      else case e of
        Expose c \<Rightarrow> if c = 0 then s\<lparr>redraw := True\<rparr> else s
      | Visibility full \<Rightarrow> s\<lparr>obscured := full, redraw := (if full then redraw s else True)\<rparr>
      | KeyPress k \<Rightarrow> if k = XK_Escape then s\<lparr>t_running := False\<rparr> else s
      | _ \<Rightarrow> s)"

text \<open>One turn: the pending events, then the picture from the time and the places it reads.\<close>

record turn_input =
  t_events :: "xevent list"
  t_now :: "tm option"
  t_places :: "int \<times> int \<times> int \<times> int"

definition timed_turn :: "ui \<Rightarrow> bool \<Rightarrow> turn_input \<Rightarrow> timed \<Rightarrow> timed" where
  "timed_turn u clock_mode i s =
     (let s1 = fold (timed_event u) (t_events i) s
      in if \<not> t_running s1 then s1
         else let s2 = (if obscured s1 then s1
                        else if clock_mode then s1\<lparr>t_calls := t_calls s1 @ draw_clock u (t_now i)\<rparr>
                        else (case draw_eyes u (redraw s1) (t_places i) (previous s1) of
                                (cs, p) \<Rightarrow> s1\<lparr>t_calls := t_calls s1 @ cs, previous := p\<rparr>))
              in s2\<lparr>redraw := False\<rparr>)"

fun timed_loop :: "ui \<Rightarrow> bool \<Rightarrow> turn_input list \<Rightarrow> timed \<Rightarrow> timed" where
  "timed_loop u c [] s = s"
| "timed_loop u c (i # is) s = (if t_running s then timed_loop u c is (timed_turn u c i s) else s)"

definition run_timed_window :: "server \<Rightarrow> int \<Rightarrow> bool \<Rightarrow> string \<Rightarrow> turn_input list \<Rightarrow> timed option" where
  "run_timed_window sv fd locked mode is =
     (let clock_mode = (mode = ''xclock'')
      in if instance_lock (if clock_mode then ''clock'' else ''eyes'') fd locked < 0 then None
         else case ui_init sv of None \<Rightarrow> None
         | Some u0 \<Rightarrow>
           let u = fst (make_window sv u0 (if clock_mode then 220 else 180) (if clock_mode then 92 else 96) False)
           in Some (timed_loop u clock_mode is \<lparr>t_running = True, redraw = True, obscured = False, previous = None, t_calls = []\<rparr>))"

datatype program = Run_menu | Run_files string | Run_timed string | Usage

definition desk_main :: "string list \<Rightarrow> program" where
  "desk_main argv =
     (let p = argv ! 0; mode = (case last_slash p of None \<Rightarrow> p | Some i \<Rightarrow> drop (Suc i) p)
      in if mode = ''exmenu'' then Run_menu
         else if mode = ''exfile'' then Run_files (if length argv > 1 then argv ! 1 else ''/'')
         else if mode = ''xclock'' \<or> mode = ''xeyes'' then Run_timed mode
         else Usage)"

end
