(* ===== verification/Desk_Facts.thy ===== *)
theory Desk_Facts
  imports Desk
begin

text \<open>
  Correctness of the desktop programs: the square root and the eyes, the order of listings, the
  state of the file manager under every sequence of events, the menu and the clock.
\<close>

section \<open>The square root\<close>

text \<open>At the bit \<open>4 ^ k\<close> the root is known down to \<open>2 ^ (k + 1)\<close>: \<open>q\<close> is what is known, \<open>v\<close> what is left of the
  number and \<open>r\<close> is \<open>q\<close> shifted.\<close>

definition sqrt_inv :: "nat \<Rightarrow> nat \<Rightarrow> nat \<Rightarrow> u32 \<Rightarrow> u32 \<Rightarrow> bool" where
  "sqrt_inv n k q v r \<longleftrightarrow> unat r = q * 2 ^ k \<and> unat v + q\<^sup>2 = n \<and> n < (q + 2 ^ k)\<^sup>2 \<and> 2 ^ k dvd q \<and> n < 2 ^ 32"

lemma sqrt_sum_small:
  assumes "sqrt_inv n (Suc k) q v r" "unat b = 4 ^ k" "k \<le> 15"
  shows "unat (r + b) = 2 * q * 2 ^ k + 4 ^ k"
proof -
  have "q\<^sup>2 < (2 ^ 16)\<^sup>2" using assms(1) by (simp add: sqrt_inv_def)
  then have q: "q < 2 ^ 16" by (rule power_less_imp_less_base) simp
  have "(2 :: nat) ^ Suc k dvd 2 ^ 16" using assms(3) by (intro le_imp_power_dvd) simp
  with assms(1) have "2 ^ Suc k dvd 2 ^ 16 - q" by (simp add: sqrt_inv_def dvd_diff_nat)
  with q have "2 ^ Suc k \<le> 2 ^ 16 - q" by (intro dvd_imp_le) simp_all
  then have "q + 2 ^ k < 2 ^ 16" using q by simp
  then have "(q + 2 ^ k)\<^sup>2 < (2 ^ 16)\<^sup>2" by (rule power_strict_mono) simp_all
  moreover have "(4 :: nat) ^ k = (2 ^ k)\<^sup>2" by (simp add: power2_eq_square flip: power_mult_distrib)
  ultimately have "2 * q * 2 ^ k + 4 ^ k < (2 :: nat) ^ 32" by (simp add: power2_sum)
  moreover have "unat r + unat b = 2 * q * 2 ^ k + 4 ^ k" using assms(1,2) by (simp add: sqrt_inv_def)
  ultimately show ?thesis by (simp add: unat_word_ariths)
qed

lemma sqrt_step:
  assumes inv: "sqrt_inv n (Suc k) q v r" and b: "unat b = 4 ^ k" and k: "k \<le> 15"
  shows "\<exists>q' v' r'. sqrt_loop v r b = sqrt_loop v' r' (drop_bit 2 b) \<and> sqrt_inv n k q' v' r'"
proof -
  note sum = sqrt_sum_small [OF assms]
  have sq: "(q + 2 ^ k)\<^sup>2 = q\<^sup>2 + 2 * q * 2 ^ k + 4 ^ k" for q :: nat
    by (simp add: power2_sum power2_eq_square algebra_simps flip: power_mult_distrib)
  have b0: "b \<noteq> 0" using b by (metis power_not_zero unat_0 zero_neq_numeral)
  have half: "unat (drop_bit 1 r) = q * 2 ^ k" using inv by (simp add: sqrt_inv_def unat_drop_bit)
  have dvd: "2 ^ k dvd q" using inv by (auto simp: sqrt_inv_def intro: dvd_trans [OF le_imp_power_dvd])
  show ?thesis
  proof (cases "v \<ge> r + b")
    case True
    then have le: "unat (r + b) \<le> unat v" by (simp add: word_le_nat_alt)
    then have v': "unat (v - (r + b)) = unat v - (2 * q * 2 ^ k + 4 ^ k)" by (simp add: unat_sub True sum)
    have "unat (r + b) < 2 ^ LENGTH(32)" by (rule unsigned_less)
    then have "q * 2 ^ k + 4 ^ k < 2 ^ 32" using sum by simp
    then have r': "unat (drop_bit 1 r + b) = q * 2 ^ k + 4 ^ k" using half b by (simp add: unat_word_ariths)
    have "unat (drop_bit 1 r + b) = (q + 2 ^ k) * 2 ^ k"
      unfolding r' by (simp add: algebra_simps flip: power_mult_distrib)
    moreover have "unat (v - (r + b)) + (q + 2 ^ k)\<^sup>2 = n"
      using inv le unfolding v' sq by (simp add: sqrt_inv_def sum)
    moreover have "n < (q + 2 ^ k + 2 ^ k)\<^sup>2" using inv by (simp add: sqrt_inv_def add.assoc mult_2)
    ultimately have "sqrt_inv n k (q + 2 ^ k) (v - (r + b)) (drop_bit 1 r + b)"
      using inv dvd by (simp add: sqrt_inv_def)
    moreover have "sqrt_loop v r b = sqrt_loop (v - (r + b)) (drop_bit 1 r + b) (drop_bit 2 b)"
      by (subst sqrt_loop.simps) (simp add: b0 True)
    ultimately show ?thesis by blast
  next
    case False
    then have "unat v < 2 * q * 2 ^ k + 4 ^ k" by (simp add: word_le_nat_alt sum not_le)
    then have "n < (q + 2 ^ k)\<^sup>2" using inv unfolding sq by (simp add: sqrt_inv_def)
    then have "sqrt_inv n k q v (drop_bit 1 r)" using inv half dvd by (simp add: sqrt_inv_def)
    moreover have "sqrt_loop v r b = sqrt_loop v (drop_bit 1 r) (drop_bit 2 b)"
      by (subst sqrt_loop.simps) (simp add: b0 False)
    ultimately show ?thesis by blast
  qed
qed

lemma sqrt_loop_correct:
  "sqrt_inv n (Suc k) q v r \<Longrightarrow> unat b = 4 ^ k \<Longrightarrow> k \<le> 15 \<Longrightarrow>
   (unat (sqrt_loop v r b))\<^sup>2 \<le> n \<and> n < (unat (sqrt_loop v r b) + 1)\<^sup>2"
proof (induction k arbitrary: q v r b)
  case 0
  from sqrt_step [OF this] obtain q' v' r' where s: "sqrt_loop v r b = sqrt_loop v' r' (drop_bit 2 b)" "sqrt_inv n 0 q' v' r'" by blast
  have "unat (drop_bit 2 b) = 0" using 0 by (simp add: unat_drop_bit)
  then have "drop_bit 2 b = 0" by (simp add: unat_eq_zero)
  then have "sqrt_loop v r b = r'" unfolding s(1) by (subst sqrt_loop.simps) simp
  with s(2) show ?case by (auto simp: sqrt_inv_def)
next
  case (Suc k)
  from sqrt_step [OF Suc.prems] obtain q' v' r' where s: "sqrt_loop v r b = sqrt_loop v' r' (drop_bit 2 b)" "sqrt_inv n (Suc k) q' v' r'" by blast
  have "unat (drop_bit 2 b) = 4 ^ k" using Suc.prems by (simp add: unat_drop_bit)
  from Suc.IH [OF s(2) this] Suc.prems(3) s(1) show ?case by simp
qed

lemma sqrt_start_correct:
  "unat b = 4 ^ k \<Longrightarrow> unat v < 4 ^ Suc k \<Longrightarrow> v \<noteq> 0 \<Longrightarrow>
   \<exists>j \<le> k. unat (sqrt_start v b) = 4 ^ j \<and> unat v < 4 ^ Suc j"
proof (induction k arbitrary: b)
  case 0
  then have "\<not> b > v" by (simp add: word_less_nat_alt unat_gt_0 not_less Suc_le_eq)
  with 0 show ?case by (auto simp: sqrt_start.simps)
next
  case (Suc k)
  show ?case
  proof (cases "b > v")
    case True
    then have "unat v < 4 ^ Suc k" using Suc.prems by (simp add: word_less_nat_alt)
    moreover have "unat (drop_bit 2 b) = 4 ^ k" using Suc.prems by (simp add: unat_drop_bit)
    ultimately show ?thesis using Suc.IH [of "drop_bit 2 b"] Suc.prems(3) True
      by (subst sqrt_start.simps) (auto intro: le_SucI)
  next
    case False
    with Suc.prems show ?thesis by (auto simp: sqrt_start.simps)
  qed
qed

lemma sqrt_zero: "integer_sqrt 0 = 0"
  by (simp add: integer_sqrt_def sqrt_start.simps sqrt_loop.simps)

lemma integer_sqrt_bounds: "(unat (integer_sqrt v))\<^sup>2 \<le> unat v \<and> unat v < (unat (integer_sqrt v) + 1)\<^sup>2"
proof (cases "v = 0")
  case True
  then show ?thesis by (simp add: sqrt_zero)
next
  case False
  have "unat v < 2 ^ LENGTH(32)" by (rule unsigned_less)
  then have "unat v < 4 ^ Suc 15" by simp
  from sqrt_start_correct [OF _ this False, of "push_bit 30 1"] obtain j where
    j: "j \<le> 15" "unat (sqrt_start v (push_bit 30 1)) = 4 ^ j" "unat v < 4 ^ Suc j" by auto
  have "(4 :: nat) ^ Suc j = (2 ^ Suc j)\<^sup>2" by (simp add: power2_eq_square flip: power_mult_distrib)
  then have "sqrt_inv (unat v) (Suc j) 0 v 0" using j(3) \<open>unat v < 2 ^ LENGTH(32)\<close> by (simp add: sqrt_inv_def)
  from sqrt_loop_correct [OF this j(2,1)] show ?thesis by (simp add: integer_sqrt_def)
qed

text \<open>C35. The square root that places the pupils is the integer square root, for every 32-bit number.\<close>

theorem desk_integer_sqrt: "(unat (integer_sqrt v))\<^sup>2 \<le> unat v \<and> unat v < (unat (integer_sqrt v) + 1)\<^sup>2"
  by (rule integer_sqrt_bounds)

section \<open>The eyes\<close>

lemma abs_cdiv: "b \<noteq> 0 \<Longrightarrow> \<bar>cdiv a b\<bar> = \<bar>a\<bar> div \<bar>b\<bar>"
  by (cases "a = 0") (simp_all add: cdiv_def abs_mult pos_imp_zdiv_nonneg_iff)

lemma cdiv_nonneg: "0 \<le> a \<Longrightarrow> 0 < b \<Longrightarrow> cdiv a b = a div b"
  by (cases "a = 0") (simp_all add: cdiv_def)

lemma scaled_step:
  assumes "\<bar>a\<bar> \<le> d" "0 < d" "0 \<le> c"
  shows "\<bar>cdiv (a * c) d\<bar> \<le> c"
proof -
  have "\<bar>a * c\<bar> div d \<le> (d * c) div d"
    using assms by (intro zdiv_mono1) (simp_all add: abs_mult mult_right_mono)
  with assms show ?thesis by (simp add: abs_cdiv)
qed

lemma pupil_near:
  assumes "\<bar>dx\<bar> \<le> 32767" "\<bar>dy\<bar> \<le> 32767" and p: "pupil dx dy cx cy = (a, b)"
  shows "\<bar>a - cx\<bar> \<le> 14 \<and> \<bar>b - cy\<bar> \<le> 10"
proof -
  have wide: "(32767 * 32767 + 32767 * 32767 :: int) < 2 ^ 32" by simp
  let ?w = "word_of_int (dx * dx + dy * dy) :: u32"
  let ?d = "uint (integer_sqrt ?w)"
  have m: "dx * dx \<le> 32767 * 32767" "dy * dy \<le> 32767 * 32767"
    using assms(1,2) abs_le_square_iff [of dx 32767] abs_le_square_iff [of dy 32767] by (simp_all add: power2_eq_square)
  moreover have "uint (word_of_int n :: u32) = n" if "0 \<le> n" "n < 2 ^ 32" for n
    using that by (simp add: uint_word_of_int_eq take_bit_int_eq_self)
  moreover have "0 \<le> dx * dx + dy * dy" by simp
  ultimately have w: "uint ?w = dx * dx + dy * dy" by (metis add_mono_thms_linordered_semiring(1) order_le_less_trans wide)
  have "int (unat ?w) < int ((unat (integer_sqrt ?w) + 1)\<^sup>2)"
    unfolding of_nat_less_iff using integer_sqrt_bounds by blast
  then have "dx * dx + dy * dy < (?d + 1)\<^sup>2"
    using w by (simp add: algebra_simps flip: uint_nat)
  then have "dx\<^sup>2 < (?d + 1)\<^sup>2" "dy\<^sup>2 < (?d + 1)\<^sup>2"
    using zero_le_power2 [of dx] zero_le_power2 [of dy] unfolding power2_eq_square [of dx] power2_eq_square [of dy] by linarith+
  then have d: "\<bar>dx\<bar> \<le> ?d" "\<bar>dy\<bar> \<le> ?d"
    using abs_le_square_iff [of "?d + 1" dx] abs_le_square_iff [of "?d + 1" dy] by (simp_all add: not_le [symmetric])
  show ?thesis
  proof (cases "?d > 0")
    case True
    from scaled_step [OF d(1) True, of 14] scaled_step [OF d(2) True, of 10] p True show ?thesis
      by (auto simp: pupil_def Let_def)
  next
    case False
    with p show ?thesis by (auto simp: pupil_def Let_def)
  qed
qed

section \<open>Listings\<close>

lemma strcasecmp_key:
  "CHR 0x00 \<notin> set s \<Longrightarrow> CHR 0x00 \<notin> set t \<Longrightarrow> strcasecmp s t \<le> 0 \<longleftrightarrow> map tolower s \<le> map tolower t"
proof (induction s t rule: strcasecmp.induct)
  case (3 a as)
  then have "of_char a \<noteq> (of_char (CHR 0x00) :: nat)" unfolding of_char_eq_iff by auto
  then have "tolower a \<noteq> 0" by (simp add: tolower_def Let_def)
  then show ?case by simp
qed (auto simp: list_less_def)

definition before :: "file_entry \<Rightarrow> file_entry \<Rightarrow> bool" where
  "before l r \<longleftrightarrow> (directory l \<and> \<not> directory r) \<or> (directory l = directory r \<and> map tolower (f_name l) \<le> map tolower (f_name r))"

definition plain_name :: "file_entry \<Rightarrow> bool" where
  "plain_name e \<longleftrightarrow> CHR 0x00 \<notin> set (f_name e)"

lemma compare_before: "plain_name l \<Longrightarrow> plain_name r \<Longrightarrow> entry_compare l r \<le> 0 \<longleftrightarrow> before l r"
  by (auto simp: entry_compare_def before_def plain_name_def strcasecmp_key)

lemma before_trans: "before a b \<Longrightarrow> before b c \<Longrightarrow> before a c"
  by (auto simp: before_def)

lemma before_total: "before a b \<or> before b a"
  by (auto simp: before_def)

lemma mset_insert_entry: "mset (insert_entry e es) = add_mset e (mset es)"
  by (induction es) auto

lemma mset_sort_entries: "mset (sort_entries es) = mset es"
  by (induction es) (simp_all add: mset_insert_entry)

lemma set_insert_entry: "set (insert_entry e es) = insert e (set es)"
  by (metis mset_insert_entry set_mset_add_mset_insert set_mset_mset)

lemma sorted_insert_entry:
  "list_all plain_name (e # es) \<Longrightarrow> sorted_wrt before es \<Longrightarrow> sorted_wrt before (insert_entry e es)"
proof (induction es)
  case (Cons f fs)
  show ?case
  proof (cases "before e f")
    case True
    with Cons show ?thesis by (auto simp: compare_before intro: before_trans)
  next
    case False
    with before_total [of e f] Cons show ?thesis by (auto simp: compare_before set_insert_entry)
  qed
qed simp

lemma sorted_sort_entries: "list_all plain_name es \<Longrightarrow> sorted_wrt before (sort_entries es)"
proof (induction es)
  case (Cons e es)
  have "set (sort_entries es) = set es" by (metis mset_sort_entries set_mset_mset)
  with Cons show ?case by (auto intro!: sorted_insert_entry simp: list_all_iff)
qed simp

lemma item_name: "file_item fs dir n = Some e \<Longrightarrow> CHR 0x00 \<notin> set n \<Longrightarrow> plain_name e"
  by (auto simp: file_item_def plain_name_def Let_def split: if_splits option.splits prod.splits dest: in_set_takeD)

lemma read_entries_names:
  "list_all (\<lambda>n. CHR 0x00 \<notin> set n) ns \<Longrightarrow> list_all plain_name acc \<Longrightarrow> list_all plain_name (read_entries fs dir ns acc)"
  by (induction ns arbitrary: acc) (simp_all add: item_name split: option.split)

text \<open>Loading a directory gives at most 128 of its entries, exactly those read, sorted: directories first and
  each group by name without regard to case. Names from a directory hold no zero byte.\<close>

theorem desk_listing_sorted:
  assumes "readdir fs (path s) = Inr ns" and "list_all (\<lambda>n. CHR 0x00 \<notin> set n) ns"
  shows "sorted_wrt (\<lambda>a b. entry_compare a b \<le> 0) (entries (load_directory fs s)) \<and>
    mset (entries (load_directory fs s)) = mset (read_entries fs (path s) ns [])"
proof -
  let ?es = "read_entries fs (path s) ns []"
  have e: "entries (load_directory fs s) = sort_entries ?es" using assms(1) by (simp add: load_directory_def Let_def)
  have p: "list_all plain_name ?es" using read_entries_names [OF assms(2)] by simp
  have "set (sort_entries ?es) = set ?es" by (metis mset_sort_entries set_mset_mset)
  then have "sorted_wrt (\<lambda>a b. entry_compare a b \<le> 0) (sort_entries ?es)"
    using p by (intro sorted_wrt_mono_rel [OF _ sorted_sort_entries]) (auto simp: compare_before list_all_iff)
  then show ?thesis by (simp add: e mset_sort_entries)
qed

definition small_fs :: fsys where
  "small_fs = \<lparr>readdir = (\<lambda>_. Inr [''.'', ''b'', ''A'', ''sub'']), lstat = (\<lambda>p. Some (if p = ''/sub'' then Dir else Reg, 10)),
     stat = (\<lambda>p. Some (Dir, 0))\<rparr>"

theorem desk_listing_sorted_witness:
  "sorted_wrt (\<lambda>a b. entry_compare a b \<le> 0) (entries (load_directory small_fs (empty_state\<lparr>path := ''/''\<rparr>))) \<and>
   map f_name (entries (load_directory small_fs (empty_state\<lparr>path := ''/''\<rparr>))) = [''sub'', ''A'', ''b'']"
proof -
  let ?s = "empty_state\<lparr>path := ''/''\<rparr>"
  have r: "readdir small_fs (path ?s) = Inr [''.'', ''b'', ''A'', ''sub'']" by (simp add: small_fs_def)
  have "map f_name (entries (load_directory small_fs ?s)) = [''sub'', ''A'', ''b'']" by code_simp
  with desk_listing_sorted [OF r] show ?thesis by simp
qed

section \<open>The file manager\<close>

text \<open>A well-formed state: the listing fits its array, selection and last click are entries or none, the list is
  scrolled to an entry, and the texts fit theirs.\<close>

definition file_ok :: "file_state \<Rightarrow> bool" where
  "file_ok s \<longleftrightarrow> length (entries s) \<le> FILE_MAX_ENTRIES \<and> -1 \<le> selected s \<and> selected s < count s \<and>
     0 \<le> offset s \<and> (offset s = 0 \<or> offset s < count s) \<and> -1 \<le> last_clicked s \<and> last_clicked s < count s \<and>
     length (path s) < PATH_MAX \<and> length (message s) < 96"

lemma rows_pos: "0 < visible_rows u"
  by (simp add: visible_rows_def Let_def)

lemma read_entries_bound: "length acc \<le> FILE_MAX_ENTRIES \<Longrightarrow> length (read_entries fs dir ns acc) \<le> FILE_MAX_ENTRIES"
  by (induction ns arbitrary: acc) (simp_all split: option.split)

lemma length_sort_entries: "length (sort_entries es) = length es"
  by (metis mset_sort_entries size_mset)

lemma load_ok: "length (path s) < PATH_MAX \<Longrightarrow> file_ok (load_directory fs s)"
  using read_entries_bound [of "[]" fs "path s"]
  by (auto simp: load_directory_def Let_def file_ok_def count_def snprintf_def length_sort_entries split: sum.split)

lemma message_ok: "file_ok s \<Longrightarrow> length m < 96 \<Longrightarrow> file_ok (s\<lparr>message := m\<rparr>)"
  by (simp add: file_ok_def count_def)

lemma set_path_ok: "file_ok s \<Longrightarrow> file_ok (file_set_path fs p s)"
proof -
  assume s: "file_ok s"
  have "length (take (PATH_MAX - 1) p) < PATH_MAX" by (simp add: PATH_MAX_def)
  then have "file_ok (load_directory fs (s\<lparr>path := take (PATH_MAX - 1) p\<rparr>))" by (simp add: load_ok)
  moreover have "file_ok (s\<lparr>message := snprintf 96 (''Directory unavailable: '' @ p)\<rparr>)"
    by (rule message_ok [OF s]) (simp add: snprintf_def)
  ultimately show ?thesis by (simp add: file_set_path_def split: option.split prod.split file_kind.split)
qed

lemma last_slash_less: "last_slash p = Some i \<Longrightarrow> i < length p"
  by (induction p arbitrary: i) (auto split: option.splits if_splits)

lemma up_ok: "file_ok s \<Longrightarrow> file_ok (file_up fs s)"
  by (auto simp: file_up_def file_ok_def [of s] intro!: load_ok split: option.split dest: last_slash_less)

lemma open_ok: "file_ok s \<Longrightarrow> file_ok (file_open_selected fs s)"
  unfolding file_open_selected_def Let_def spawn_viewer_def
  by (auto intro!: set_path_ok message_ok split: option.split) (simp add: file_ok_def count_def)

lemma visible_ok:
  assumes "file_ok s"
  shows "file_ok (keep_selection_visible u s)"
    and "selected s \<ge> 0 \<Longrightarrow> offset (keep_selection_visible u s) \<le> selected s \<and> selected s < offset (keep_selection_visible u s) + visible_rows u"
  using assms rows_pos [of u] by (auto simp: keep_selection_visible_def Let_def file_ok_def count_def)

lemma ok_if: "(c \<Longrightarrow> file_ok a) \<Longrightarrow> (\<not> c \<Longrightarrow> file_ok b) \<Longrightarrow> file_ok (if c then a else b)"
  by simp

lemma select_ok: "file_ok s \<Longrightarrow> -1 \<le> i \<Longrightarrow> i < count s \<Longrightarrow> file_ok (s\<lparr>selected := i\<rparr>)"
  by (simp add: file_ok_def count_def)

lemma key_ok:
  assumes s: "file_ok s"
  shows "file_ok (file_key u fs k s)"
proof -
  have b: "-1 \<le> selected s" "selected s < count s" "length (path s) < PATH_MAX" using s by (simp_all add: file_ok_def)
  show ?thesis
    unfolding file_key_def Let_def
    apply (insert b rows_pos [of u])
    apply (intro ok_if)
                  apply (rule s open_ok [OF s] up_ok [OF s] load_ok | assumption | (rule select_ok [OF s]; simp))+
    done
qed

lemma open_entries:
  "\<not> directory (entries s ! nat (selected s)) \<Longrightarrow> entries (file_open_selected fs s) = entries s"
  by (simp add: file_open_selected_def Let_def spawn_viewer_def split: option.split)

lemma click_ok:
  assumes s: "file_ok s"
  shows "file_ok (file_click u fs b y t s)"
proof -
  let ?i = "offset s + cdiv (y - FILE_LIST_TOP) FILE_ROW_HEIGHT"
  show ?thesis
  proof (cases "?i \<ge> 0 \<and> ?i < count s")
    case False
    with s show ?thesis by (simp add: file_click_def Let_def)
  next
    case True
    let ?s1 = "s\<lparr>selected := ?i\<rparr>"
    let ?dc = "?i = last_clicked s \<and> t - last_click s < 500"
    let ?s2 = "if ?dc \<or> b = 3 then file_open_selected fs ?s1 else ?s1"
    have s1: "file_ok ?s1" using True by (intro select_ok s) simp_all
    then have s2: "file_ok ?s2" by (simp add: open_ok)
    have "file_ok (?s2\<lparr>last_clicked := ?i, last_click := t\<rparr>)" if "\<not> ((b = 3 \<or> ?dc) \<and> directory (entries s ! nat ?i))"
    proof -
      have "entries ?s2 = entries s" using that open_entries [of ?s1 fs] by auto
      then have "count ?s2 = count s" by (simp add: count_def)
      with s2 True show ?thesis by (simp add: file_ok_def count_def)
    qed
    with s2 True show ?thesis unfolding file_click_def Let_def by simp
  qed
qed

lemma press_ok: "file_ok s \<Longrightarrow> file_ok (snd (file_press u fs b x y t s))"
proof -
  assume s: "file_ok s"
  have p: "length (path s) < PATH_MAX" using s by (simp add: file_ok_def)
  have o: "offset s > 0 \<Longrightarrow> file_ok (s\<lparr>offset := offset s - 1\<rparr>)"
    "offset s + visible_rows u < count s \<Longrightarrow> file_ok (s\<lparr>offset := offset s + 1\<rparr>)"
    using s rows_pos [of u] by (auto simp: file_ok_def count_def)
  show ?thesis
    unfolding file_press_def if_distrib [of snd] snd_conv
    by (intro ok_if) (rule o s up_ok [OF s] set_path_ok [OF s] load_ok [OF p] click_ok [OF s] | assumption)+
qed

lemma event_ok: "file_ok s \<Longrightarrow> file_ok (snd (file_event u fs e s))"
proof -
  have r: "file_ok (redrawn u s) = file_ok s" for s by (simp add: redrawn_def file_ok_def count_def)
  assume s: "file_ok s"
  have p: "file_ok s1" if "file_press u fs b x y t s = (c, s1)" for b x y t c s1
    using press_ok [OF s, of u fs b x y t] that by simp
  from s show ?thesis
    by (cases e) (auto simp: file_event_def r key_ok visible_ok split: prod.splits dest: p)
qed

text \<open>C34. The file manager keeps its state well formed whatever the file system answers and whatever the user
  does: the listing never outgrows its 128 entries, the selection, the scroll position and the last click
  always name an entry or nothing, and paths and messages fit their buffers.\<close>

theorem desk_file_manager_ok:
  assumes "run_file_manager sv fd locked fs initial es = Some (r, s)"
  shows "file_ok s"
proof -
  have l: "file_ok s \<Longrightarrow> file_ok (snd (file_loop u es s))" for u s
  proof (induction u es s rule: file_loop.induct)
    case (2 u fs e es s)
    then show ?case using event_ok [of s u fs e] by (auto split: prod.split)
  qed simp
  have "file_ok empty_state" by (simp add: file_ok_def empty_state_def count_def PATH_MAX_def)
  then have "file_ok (redrawn u (file_set_path fs initial empty_state))" for u
    using set_path_ok [of empty_state fs initial] by (simp add: redrawn_def file_ok_def count_def)
  note start = l [OF this]
  from assms obtain u where "file_loop u es (redrawn u (file_set_path fs initial empty_state)) = (r, s)"
    by (auto simp: run_file_manager_def Let_def split: if_splits option.splits)
  with start [of u u] show ?thesis by simp
qed

definition plain_server :: server where
  "plain_server = \<lparr>s_display = True, s_black = 0, s_white = 1, s_alloc = (\<lambda>_. None), s_font = Some (10, 2, \<lambda>t. 6 * int (length t)),
     s_atom = 9, s_width = 528, s_height = 320\<rparr>"

theorem desk_file_manager_ok_witness:
  "\<exists>s. run_file_manager plain_server 3 True small_fs ''/'' [(small_fs, KeyPress XK_Next), (small_fs, ClientMessage 9)] = Some (False, s) \<and>
     file_ok s \<and> selected s = 2"
proof -
  let ?run = "run_file_manager plain_server 3 True small_fs ''/'' [(small_fs, KeyPress XK_Next), (small_fs, ClientMessage 9)]"
  have c: "(case ?run of None \<Rightarrow> False | Some (r, s) \<Rightarrow> \<not> r \<and> selected s = 2)" by code_simp
  then obtain s where "?run = Some (False, s)" "selected s = 2" by (auto split: option.splits)
  with desk_file_manager_ok [OF this(1)] show ?thesis by blast
qed

text \<open>What opening an entry may start: the viewer, on a regular file of the listing of at most 128 KiB.\<close>

lemma viewed_load [simp]: "viewed (load_directory fs s) = viewed s"
  by (simp add: load_directory_def Let_def split: sum.split)

lemma viewed_set_path [simp]: "viewed (file_set_path fs p s) = viewed s"
  by (simp add: file_set_path_def split: option.split prod.split file_kind.split)

lemma viewed_up [simp]: "viewed (file_up fs s) = viewed s"
  by (simp add: file_up_def)

definition viewable :: "file_state \<Rightarrow> string list \<Rightarrow> bool" where
  "viewable s args \<longleftrightarrow> (\<exists>e \<in> set (entries s). regular e \<and> \<not> directory e \<and> f_size e \<le> 131072 \<and>
     (\<exists>p. path_join PATH_MAX (path s) (f_name e) = Some p \<and> args = viewer_argv p))"

definition opens :: "file_state \<Rightarrow> file_state \<Rightarrow> bool" where
  "opens s s' \<longleftrightarrow> viewed s' = viewed s \<or> (\<exists>p. viewed s' = viewed s @ [p] \<and> viewable s p)"

lemma opens_same: "viewed s' = viewed s \<Longrightarrow> opens s s'"
  by (simp add: opens_def)

lemma opens_open: "opens s (file_open_selected fs s)"
proof -
  have "entries s ! nat (selected s) \<in> set (entries s)" if "\<not> (selected s < 0 \<or> selected s \<ge> count s)"
    using that by (intro nth_mem) (simp add: count_def nat_less_iff)
  then show ?thesis
    by (auto simp: file_open_selected_def Let_def spawn_viewer_def viewable_def opens_def split: option.split)
qed

lemma opens_click: "opens s (file_click u fs b y t s)"
proof -
  let ?i = "offset s + cdiv (y - FILE_LIST_TOP) FILE_ROW_HEIGHT"
  have v: "viewable (s\<lparr>selected := ?i\<rparr>) p = viewable s p" for p by (simp add: viewable_def)
  have "viewed (file_click u fs b y t s) = viewed s \<or> viewed (file_click u fs b y t s) = viewed (file_open_selected fs (s\<lparr>selected := ?i\<rparr>))"
    by (auto simp: file_click_def Let_def)
  with opens_open [of "s\<lparr>selected := ?i\<rparr>" fs] show ?thesis by (auto simp: opens_def v)
qed

lemma opens_if: "opens s a \<Longrightarrow> opens s b \<Longrightarrow> opens s (if c then a else b)"
  by simp

lemma opens_press: "opens s (snd (file_press u fs b x y t s))"
  unfolding file_press_def if_distrib [of snd] snd_conv
  by (intro opens_if) (rule opens_click opens_same, simp?)+

lemma opens_key: "opens s (file_key u fs k s)"
  unfolding file_key_def Let_def
  by (intro opens_if) (rule opens_open | rule opens_same, simp)+

text \<open>Handling an event starts at most one viewer, and only on a regular file of the current listing that has at
  most 128 KiB, by its full path.\<close>

theorem desk_viewer_confined: "opens s (snd (file_event u fs e s))"
proof -
  have p: "opens s s1" if "file_press u fs b x y t s = (c, s1)" for b x y t c s1
    using opens_press [of s u fs b x y t] that by simp
  have r: "opens s (redrawn u s1) = opens s s1" "opens s (keep_selection_visible u s1) = opens s s1" for s1
    by (simp_all add: opens_def redrawn_def keep_selection_visible_def Let_def)
  show ?thesis
    by (cases e) (auto simp: file_event_def r opens_key opens_same split: prod.splits dest: p)
qed

section \<open>The menu\<close>

lemma menu_index_range: "menu_index_at x y w = -1 \<or> (0 \<le> menu_index_at x y w \<and> menu_index_at x y w < menu_count)"
  by (simp add: menu_index_at_def Let_def)

definition menu_ok :: "menu \<Rightarrow> bool" where
  "menu_ok s \<longleftrightarrow> -1 \<le> hover s \<and> hover s < menu_count \<and> (\<forall>c. chosen s = Some (Some c) \<longrightarrow> Some c \<in> snd ` set menu_items)"

lemma command_listed: "0 \<le> i \<Longrightarrow> i < menu_count \<Longrightarrow> menu_command i = Some c \<Longrightarrow> Some c \<in> snd ` set menu_items"
  unfolding menu_command_def menu_count_def by (metis image_eqI nth_mem nat_less_iff)

lemma menu_event_ok: "menu_ok s \<Longrightarrow> menu_ok (menu_event u e s)"
proof -
  assume s: "menu_ok s"
  have pos: "0 < menu_count" by (simp add: menu_count_def menu_items_def)
  have h: "menu_ok (set_hover u i s)" if "-1 \<le> i" "i < menu_count" for i
    using s that by (simp add: menu_ok_def set_hover_def)
  have c: "menu_ok (s\<lparr>chosen := Some (menu_command i)\<rparr>)" if "0 \<le> i" "i < menu_count" for i
    using s that command_listed [OF that] by (auto simp: menu_ok_def)
  have n: "menu_ok (s\<lparr>chosen := Some None\<rparr>)" using s by (simp add: menu_ok_def)
  have b: "-1 \<le> hover s" "hover s < menu_count" using s by (simp_all add: menu_ok_def)
  show ?thesis
  proof (cases e)
    case (Motion x y)
    with s h menu_index_range [of x y "width u"] pos show ?thesis by (auto simp: menu_event_def Let_def)
  next
    case (ButtonPress k x y t)
    with c n menu_index_range [of x y "width u"] show ?thesis by (auto simp: menu_event_def Let_def)
  next
    case (KeyPress k)
    with s h c n b pos show ?thesis by (simp add: menu_event_def)
  qed (use s h b in \<open>simp_all add: menu_event_def\<close>)
qed

text \<open>The menu only ever starts a command of its table, whatever is pressed where: the entry under the pointer and
  the highlighted one are always inside the table.\<close>

theorem desk_menu_listed:
  assumes "run_menu sv fd locked grabbed es = Some (code, Some args)"
  shows "\<exists>c. args = spawn_shell c \<and> Some c \<in> snd ` set menu_items"
proof -
  have l: "menu_ok s \<Longrightarrow> menu_ok (menu_loop u es s)" for u s
    by (induction es arbitrary: s) (simp_all add: menu_event_ok)
  have "menu_ok \<lparr>hover = 0, chosen = None, menu_calls = k\<rparr>" for k
    by (simp add: menu_ok_def menu_count_def menu_items_def)
  note m = l [OF this]
  from assms obtain u k c where "chosen (menu_loop u es \<lparr>hover = 0, chosen = None, menu_calls = k\<rparr>) = Some (Some c)" "args = spawn_shell c"
    by (auto simp: run_menu_def Let_def split: if_splits option.splits)
  with m [of u k] show ?thesis by (auto simp: menu_ok_def)
qed

theorem desk_menu_listed_witness:
  "\<exists>c. spawn_shell ''exec /opt/x11/usr/bin/xeyes'' = spawn_shell c \<and> Some c \<in> snd ` set menu_items"
proof -
  have r: "run_menu plain_server 3 True True [KeyPress XK_Up, KeyPress XK_Up, KeyPress XK_Return] =
      Some (0, Some (spawn_shell ''exec /opt/x11/usr/bin/xeyes''))"
    by code_simp
  from desk_menu_listed [OF r] show ?thesis .
qed

section \<open>Inside the window\<close>

text \<open>Wherever the pointer is, the pupils stay inside the whites of the eyes and everything is drawn inside the
  window; distances up to 32767 pixels are computed without overflow.\<close>

theorem desk_eyes_inside:
  assumes "width u = 180" and "height u = 96" and "\<bar>rx - (wx + 53)\<bar> \<le> 32767" and "\<bar>rx - (wx + 127)\<bar> \<le> 32767" and "\<bar>ry - (wy + 61)\<bar> \<le> 32767"
  shows "list_all (drawn_inside 180 96) (fst (draw_eyes u force (rx, ry, wx, wy) prev))"
proof -
  have eye: "list_all (drawn_inside 180 96) (draw_eye u (rx, ry, wx, wy) cx)"
    if c: "cx = 53 \<or> cx = 127" "\<bar>rx - (wx + cx)\<bar> \<le> 32767" for cx
  proof -
    obtain a b where p: "pupil (rx - (wx + cx)) (ry - (wy + 61)) cx 61 = (a, b)" by (cases "pupil (rx - (wx + cx)) (ry - (wy + 61)) cx 61")
    from pupil_near [OF c(2) assms(5) p] c(1) show ?thesis
      by (auto simp: draw_eye_def p inside_def)
  qed
  from eye [of 53] eye [of 127] assms(1-4) show ?thesis
    by (simp add: draw_eyes_def fill_def text_at_def text_n_def inside_def)
qed

theorem desk_eyes_inside_witness:
  "list_all (drawn_inside 180 96) (fst (draw_eyes (fst (make_window plain_server (the (ui_init plain_server)) 180 96 False)) True (500, 300, 20, 30) None))"
  by (rule desk_eyes_inside) (simp_all add: make_window_def)

end
