(* ===== verification/Diag_Machine.thy ===== *)
theory Diag_Machine
  imports Mmio X_Model "HOL-Library.Monad_Syntax"
begin

text \<open>
  What the hardware diagnostics (\<^verbatim>\<open>src/x11/apps/sublcd-test.c\<close>, \<^verbatim>\<open>src/x11/apps/touchdiag.c\<close>) run on: system
  calls, register accesses through mappings of \<^verbatim>\<open>/dev/mem\<close>, barriers and printed text, recorded in one
  log, newest first. The kernel's answers are arbitrary; a negative one is a failure and minus
  the error number.
\<close>

unbundle bit_operations_syntax

section \<open>Constants\<close>

definition SUBPAD_ABSENT :: int where "SUBPAD_ABSENT = - 2"       \<comment> \<open>minus \<^verbatim>\<open>ENOENT\<close>\<close>
definition ENODEV :: int where "ENODEV = 19"
definition KD_TEXT :: int where "KD_TEXT = 0"
definition KD_GRAPHICS :: int where "KD_GRAPHICS = 1"

definition MAP_FAILED :: u32 where "MAP_FAILED = 0xffffffff"

section \<open>The machine\<close>

datatype stream = Stdout | Stderr

datatype diag_call =
    Geteuid | Open_parameter | Read_parameter | Close_parameter | Stat_parameter | Stat_devmem
  | Open_fb0 bool | Fb_fscreeninfo | Fb_vscreeninfo | Fb_pan | Close_fb0
  | Isatty | Kdgetmode | Kdsetmode int | Fstat_tty | Vt_getstate
  | Sysconf_pagesize | Open_devmem bool | Mmap u32 u32 bool | Munmap u32 | Close_devmem
  | Open_lock | Flock | Close_lock | Fflush
  | Sigfillset | Sigdelset | Sigprocmask_block | Sigprocmask_setmask
  | Sched_yield

datatype event = Called diag_call int | Accessed access | Said stream string | Barrier

record screeninfo =
  fix_id :: string
  fb_xres :: nat
  fb_yres :: nat
  fb_bits :: nat

record tty =
  tty_char :: bool
  tty_major :: nat
  tty_minor :: nat

record 'w diag_host =
  sys_bus :: "'w bus"
  sys_answer :: "diag_call \<Rightarrow> 'w \<Rightarrow> int \<times> 'w"
  parameter_text :: "'w \<Rightarrow> string"
  devmem_char :: "'w \<Rightarrow> bool"
  screen :: "'w \<Rightarrow> screeninfo"
  console_mode :: "'w \<Rightarrow> int"
  tty_of :: "'w \<Rightarrow> tty"
  active_vt :: "'w \<Rightarrow> nat"
  strerror :: "int \<Rightarrow> string"

record 'w diag =
  world :: 'w
  log :: "event list"

type_synonym ('w, 'a) dg = "('w diag, 'a) state"

definition syscall :: "'w diag_host \<Rightarrow> diag_call \<Rightarrow> ('w, int) dg" where
  "syscall h c = State (\<lambda>s. case sys_answer h c (world s) of (r, w) \<Rightarrow> (r, s\<lparr>world := w, log := Called c r # log s\<rparr>))"

definition log_event :: "event \<Rightarrow> ('w, unit) dg" where
  "log_event e = modify (\<lambda>s. s\<lparr>log := e # log s\<rparr>)"

definition say :: "stream \<Rightarrow> string \<Rightarrow> ('w, unit) dg" where
  "say out t = log_event (Said out t)"

definition mmio_read8 :: "'w diag_host \<Rightarrow> u32 \<Rightarrow> ('w, u8) dg" where
  "mmio_read8 h a = State (\<lambda>s. case bus_rd8 (sys_bus h) a (world s) of
     (v, w) \<Rightarrow> (v, s\<lparr>world := w, log := Accessed (Rd8 a v) # log s\<rparr>))"

definition mmio_write8 :: "'w diag_host \<Rightarrow> u32 \<Rightarrow> u8 \<Rightarrow> ('w, unit) dg" where
  "mmio_write8 h a v = modify (\<lambda>s. s\<lparr>world := bus_wr8 (sys_bus h) a v (world s), log := Accessed (Wr8 a v) # log s\<rparr>)"

definition mmio_write16 :: "'w diag_host \<Rightarrow> u32 \<Rightarrow> u16 \<Rightarrow> ('w, unit) dg" where
  "mmio_write16 h a v = modify (\<lambda>s. s\<lparr>world := bus_wr16 (sys_bus h) a v (world s), log := Accessed (Wr16 a v) # log s\<rparr>)"

definition mmio_read16 :: "'w diag_host \<Rightarrow> u32 \<Rightarrow> ('w, u16) dg" where
  "mmio_read16 h a = State (\<lambda>s. case bus_rd16 (sys_bus h) a (world s) of
     (v, w) \<Rightarrow> (v, s\<lparr>world := w, log := Accessed (Rd16 a v) # log s\<rparr>))"

definition mmio_read32 :: "'w diag_host \<Rightarrow> u32 \<Rightarrow> ('w, u32) dg" where
  "mmio_read32 h a = State (\<lambda>s. case bus_rd32 (sys_bus h) a (world s) of
     (v, w) \<Rightarrow> (v, s\<lparr>world := w, log := Accessed (Rd32 a v) # log s\<rparr>))"

definition mmio_write32 :: "'w diag_host \<Rightarrow> u32 \<Rightarrow> u32 \<Rightarrow> ('w, unit) dg" where
  "mmio_write32 h a v = modify (\<lambda>s. s\<lparr>world := bus_wr32 (sys_bus h) a v (world s), log := Accessed (Wr32 a v) # log s\<rparr>)"

definition io_barrier :: "('w, unit) dg" where
  "io_barrier = log_event Barrier"

section \<open>Text\<close>

abbreviation NL :: char where "NL \<equiv> CHR 0x0A"

definition line :: "string \<Rightarrow> string" where
  "line t = t @ [NL]"

definition hex_digit :: "nat \<Rightarrow> char" where
  "hex_digit n = char_of (if n < 10 then 48 + n else 87 + n)"

fun hex :: "nat \<Rightarrow> nat \<Rightarrow> string" where
  "hex 0 n = []"
| "hex (Suc w) n = hex w (n div 16) @ [hex_digit (n mod 16)]"

definition nat_text :: "nat \<Rightarrow> string" where
  "nat_text n = int_text (int n)"

text \<open>The page a call answers with; a failure is \<^verbatim>\<open>MAP_FAILED\<close>.\<close>

definition page_of :: "int \<Rightarrow> u32" where
  "page_of r = (if r < 0 then MAP_FAILED else word_of_int r)"

text \<open>A condition of an \<^verbatim>\<open>||\<close> chain: the number of the error when it stops the chain, 0 without one.\<close>

definition first_failure :: "('w, int option) dg list \<Rightarrow> ('w, int option) dg" where
  "first_failure ms = foldr (\<lambda>m rest. do { e \<leftarrow> m; if e = None then rest else ret e }) ms (ret None)"

definition fails :: "'w diag_host \<Rightarrow> diag_call \<Rightarrow> ('w, int option) dg" where
  "fails h c = do { r \<leftarrow> syscall h c; ret (if r < 0 then Some (- r) else None) }"

definition unless :: "'w diag_host \<Rightarrow> ('w \<Rightarrow> bool) \<Rightarrow> ('w, int option) dg" where
  "unless h p = do { ok \<leftarrow> gets (\<lambda>s. p (world s)); ret (if ok then None else Some 0) }"

definition fit_screen :: "screeninfo \<Rightarrow> bool" where
  "fit_screen i \<longleftrightarrow> fix_id i = ''EX-word LCD'' \<and> fb_xres i = 528 \<and> fb_yres i = 320 \<and> fb_bits i = 16"

definition diag_start :: "'w \<Rightarrow> 'w diag" where
  "diag_start w = \<lparr>world = w, log = []\<rparr>"

end
