(* ===== verification/Diag_Rules.thy ===== *)
theory Diag_Rules
  imports Keypad_Safety Subpad_Safety Diag_Machine
begin

text \<open>
  Reasoning about the hardware diagnostics: what a program holds after the calls it made, and rules
  that carry this through a program. Every register access is checked against what is held when
  it happens.
\<close>

section \<open>Runs\<close>

lemma run_diag:
  "run_state (syscall h c) s = (fst (sys_answer h c (world s)),
     s\<lparr>world := snd (sys_answer h c (world s)), log := Called c (fst (sys_answer h c (world s))) # log s\<rparr>)"
  "run_state (log_event e) s = ((), s\<lparr>log := e # log s\<rparr>)"
  "run_state (mmio_read8 h a) s = (fst (bus_rd8 (sys_bus h) a (world s)),
     s\<lparr>world := snd (bus_rd8 (sys_bus h) a (world s)), log := Accessed (Rd8 a (fst (bus_rd8 (sys_bus h) a (world s)))) # log s\<rparr>)"
  "run_state (mmio_write8 h a v) s = ((), s\<lparr>world := bus_wr8 (sys_bus h) a v (world s), log := Accessed (Wr8 a v) # log s\<rparr>)"
  "run_state (mmio_write16 h a x) s = ((), s\<lparr>world := bus_wr16 (sys_bus h) a x (world s), log := Accessed (Wr16 a x) # log s\<rparr>)"
  "run_state (mmio_read16 h a) s = (fst (bus_rd16 (sys_bus h) a (world s)),
     s\<lparr>world := snd (bus_rd16 (sys_bus h) a (world s)), log := Accessed (Rd16 a (fst (bus_rd16 (sys_bus h) a (world s)))) # log s\<rparr>)"
  "run_state (mmio_read32 h a) s = (fst (bus_rd32 (sys_bus h) a (world s)),
     s\<lparr>world := snd (bus_rd32 (sys_bus h) a (world s)), log := Accessed (Rd32 a (fst (bus_rd32 (sys_bus h) a (world s)))) # log s\<rparr>)"
  "run_state (mmio_write32 h a y) s = ((), s\<lparr>world := bus_wr32 (sys_bus h) a y (world s), log := Accessed (Wr32 a y) # log s\<rparr>)"
  by (simp_all add: syscall_def log_event_def mmio_read8_def mmio_write8_def mmio_write16_def mmio_read16_def mmio_read32_def
      mmio_write32_def case_prod_beta)

lemma keeps_first: "\<forall>m \<in> set ms. keeps I m \<Longrightarrow> keeps I (first_failure ms)"
  by (induction ms) (simp_all add: first_failure_def keeps_ret keeps_bind)

lemma first_failure_Cons: "first_failure (m # ms) = m \<bind> (\<lambda>e. if e = None then first_failure ms else ret e)"
  unfolding first_failure_def by simp

lemma first_triple:
  assumes "\<forall>m \<in> set ms. keeps I m" and "triple I n Q" and "\<And>e s. e \<noteq> None \<Longrightarrow> I s \<Longrightarrow> Q e s"
  shows "triple I (first_failure (ms @ [n])) Q"
  using assms(1)
proof (induction ms)
  case Nil
  show ?case unfolding first_failure_def
    by simp (rule triple_bind [OF assms(2)], auto intro!: triple_ret)
next
  case (Cons m ms)
  have "triple I (m \<bind> (\<lambda>e. if e = None then first_failure (ms @ [n]) else ret e)) Q"
    by (rule triple_keeps) (use Cons in \<open>auto intro!: triple_if triple_ret assms(3)\<close>)
  then show ?case by (simp only: append_Cons first_failure_Cons)
qed

lemma triple_ex:
  assumes "\<And>s. P s \<Longrightarrow> \<exists>R. c R \<and> H R s" and "\<And>R. c R \<Longrightarrow> triple (H R) m Q"
  shows "triple P m Q"
proof (rule tripleI)
  fix s a s' assume "P s" and run: "run_state m s = (a, s')"
  then obtain R where "c R" "H R s" using assms(1) by blast
  then show "Q a s'" using tripleD [OF assms(2) run] by blast
qed

section \<open>Resources\<close>

datatype resource = Lock_file | Locked | Devmem | Mapping u32 u32 u32 bool | Framebuffer | Parameter | Quiet | Masked | Absent

fun mapped_at :: "u32 \<Rightarrow> resource \<Rightarrow> bool" where
  "mapped_at v (Mapping p b z t) = (p = v)"
| "mapped_at v _ = False"

text \<open>\<open>Absent\<close> is the last answer about the kernel's driver, not a resource that has to be given back.\<close>

fun effect :: "event \<Rightarrow> resource set \<Rightarrow> resource set" where
  "effect (Called Open_parameter r) R =
     (if r \<ge> 0 then insert Parameter (R - {Absent}) else if r = SUBPAD_ABSENT then insert Absent R else R - {Absent})"
| "effect (Called Close_parameter r) R = R - {Parameter}"
| "effect (Called Stat_parameter r) R = (if r = SUBPAD_ABSENT then insert Absent R else R - {Absent})"
| "effect (Called (Open_fb0 t) r) R = (if r \<ge> 0 then insert Framebuffer R else R)"
| "effect (Called Close_fb0 r) R = R - {Framebuffer}"
| "effect (Called (Kdsetmode m) r) R = (if r \<ge> 0 then (if m = KD_TEXT then R - {Quiet} else insert Quiet R) else R)"
| "effect (Called (Open_devmem t) r) R = (if r \<ge> 0 then insert Devmem R else R)"
| "effect (Called Close_devmem r) R = R - {Devmem}"
| "effect (Called (Mmap b z t) r) R = (if page_of r \<noteq> MAP_FAILED then insert (Mapping (page_of r) b z t) R else R)"
| "effect (Called (Munmap v) r) R = {x \<in> R. \<not> mapped_at v x}"
| "effect (Called Open_lock r) R = (if r \<ge> 0 then insert Lock_file R else R)"
| "effect (Called Flock r) R = (if r \<ge> 0 then insert Locked R else R)"
| "effect (Called Close_lock r) R = R - {Lock_file, Locked}"
| "effect (Called Sigprocmask_block r) R = (if r \<ge> 0 then insert Masked R else R)"
| "effect (Called Sigprocmask_setmask r) R = (if r \<ge> 0 then R - {Masked} else R)"
| "effect _ R = R"

fun held :: "event list \<Rightarrow> resource set" where
  "held [] = {}"
| "held (e # es) = effect e (held es)"

text \<open>Every access was allowed by what was held.\<close>

fun orderly :: "(access \<Rightarrow> resource set \<Rightarrow> bool) \<Rightarrow> event list \<Rightarrow> bool" where
  "orderly ok [] = True"
| "orderly ok (Accessed a # es) = (ok a (held es) \<and> orderly ok es)"
| "orderly ok (_ # es) = orderly ok es"

definition accounted :: "(access \<Rightarrow> resource set \<Rightarrow> bool) \<Rightarrow> resource set \<Rightarrow> 'w diag \<Rightarrow> bool" where
  "accounted ok R s \<longleftrightarrow> orderly ok (log s) \<and> held (log s) = R"

lemma accounted_call: "triple (accounted ok R) (syscall h c) (\<lambda>r. accounted ok (effect (Called c r) R))"
  by (auto intro!: tripleI simp: run_diag accounted_def)

lemma accounted_say: "keeps (accounted ok R) (say out t)" "keeps (accounted ok R) io_barrier"
  by (auto intro!: keepsI simp: run_diag say_def io_barrier_def accounted_def)

lemma accounted_neutral: "(\<And>r. effect (Called c r) R = R) \<Longrightarrow> keeps (accounted ok R) (syscall h c)"
  unfolding keeps_def by (rule triple_post [OF accounted_call]) simp

lemma accounted_access:
  "(\<And>v. ok (Rd8 a v) R) \<Longrightarrow> keeps (accounted ok R) (mmio_read8 h a)"
  "(\<And>v. ok (Rd16 a v) R) \<Longrightarrow> keeps (accounted ok R) (mmio_read16 h a)"
  "(\<And>v. ok (Rd32 a v) R) \<Longrightarrow> keeps (accounted ok R) (mmio_read32 h a)"
  "ok (Wr8 a x) R \<Longrightarrow> keeps (accounted ok R) (mmio_write8 h a x)"
  "ok (Wr16 a y) R \<Longrightarrow> keeps (accounted ok R) (mmio_write16 h a y)"
  "ok (Wr32 a z) R \<Longrightarrow> keeps (accounted ok R) (mmio_write32 h a z)"
  by (auto intro!: keepsI simp: run_diag accounted_def)

lemma accounted_fails: "(\<And>r. effect (Called c r) R = R) \<Longrightarrow> keeps (accounted ok R) (fails h c)"
  unfolding fails_def by (rule keeps_bind accounted_neutral keeps_ret | simp)+

lemma accounted_unless: "keeps (accounted ok R) (unless h p)"
  unfolding unless_def by (rule keeps_bind keeps_gets keeps_ret)+

section \<open>Resources of one program\<close>

text \<open>What may be held around the opening and closing of the mappings.\<close>

definition settled :: "resource set \<Rightarrow> bool" where
  "settled R \<longleftrightarrow> R \<subseteq> {Lock_file, Locked, Quiet, Masked, Absent}"

lemma settledI [simp]: "settled {}" "settled (insert x R) \<longleftrightarrow> x \<in> {Lock_file, Locked, Quiet, Masked, Absent} \<and> settled R"
  "settled R \<Longrightarrow> settled (R - S)"
  by (auto simp: settled_def)

lemma settledD: "settled R \<Longrightarrow> x \<in> R \<Longrightarrow> x \<in> {Lock_file, Locked, Quiet, Masked, Absent}"
  by (auto simp: settled_def)

lemma settled_free: "settled R \<Longrightarrow> Parameter \<notin> R" "settled R \<Longrightarrow> Framebuffer \<notin> R" "settled R \<Longrightarrow> Devmem \<notin> R"
  by (auto dest: settledD)

lemma settled_keeps:
  assumes "settled R"
  shows "{x \<in> R \<union> S. \<not> mapped_at v x} = R \<union> {x \<in> S. \<not> mapped_at v x}" "(R \<union> S) - {Devmem} = R \<union> (S - {Devmem})"
proof -
  have "\<not> mapped_at v x" "x \<noteq> Devmem" if "x \<in> R" for x using settledD [OF assms that] by auto
  then show "{x \<in> R \<union> S. \<not> mapped_at v x} = R \<union> {x \<in> S. \<not> mapped_at v x}" "(R \<union> S) - {Devmem} = R \<union> (S - {Devmem})"
    by blast+
qed

lemma accounted_unmap:
  assumes "settled R"
  shows "triple (accounted ok (R \<union> S)) (onlyif c (do { _ \<leftarrow> syscall h (Munmap v); ret () }))
    (\<lambda>_. accounted ok (R \<union> (if c then {x \<in> S. \<not> mapped_at v x} else S)))"
  unfolding onlyif_def
  by (rule triple_if, rule triple_bind [OF accounted_call], rule triple_ret, simp only: effect.simps settled_keeps [OF assms] if_True,
      rule triple_ret, simp)

lemma accounted_close:
  assumes "settled R"
  shows "triple (accounted ok (R \<union> S)) (onlyif c (do { _ \<leftarrow> syscall h Close_devmem; ret () }))
    (\<lambda>_. accounted ok (R \<union> (if c then S - {Devmem} else S)))"
  unfolding onlyif_def
  by (rule triple_if, rule triple_bind [OF accounted_call], rule triple_ret, simp only: effect.simps settled_keeps [OF assms] if_True,
      rule triple_ret, simp)

lemma accounted_block:
  "triple (accounted ok R) (do {
     e \<leftarrow> first_failure (fails h Sigfillset # replicate 6 (fails h Sigdelset) @ [fails h Sigprocmask_block]); ret (e = None) })
   (\<lambda>b. accounted ok (if b then insert Masked R else R))"
proof -
  have mask: "triple (accounted ok R) (fails h Sigprocmask_block) (\<lambda>e. accounted ok (if e = None then insert Masked R else R))"
    unfolding fails_def by (rule triple_bind [OF accounted_call], rule triple_ret) auto
  have "triple (accounted ok R) (first_failure ((fails h Sigfillset # replicate 6 (fails h Sigdelset)) @ [fails h Sigprocmask_block]))
      (\<lambda>e. accounted ok (if e = None then insert Masked R else R))"
    by (rule first_triple [OF _ mask]) (auto simp: accounted_fails)
  then show ?thesis
    unfolding append_Cons by (rule triple_bind) (rule triple_ret, simp)
qed

lemma accounted_lock:
  assumes "settled R" and "Lock_file \<notin> R" and "Locked \<notin> R"
    and "\<And>f. keeps (accounted ok R) (c f)" and "\<And>l. keeps (accounted ok (insert Lock_file R)) (d l)"
  shows "triple (accounted ok R) (do {
     f \<leftarrow> syscall h Open_lock;
     if f < 0 then do { c f; ret (- 1) }
     else do {
       l \<leftarrow> syscall h Flock;
       if l < 0 then do { d l; _ \<leftarrow> syscall h Close_lock; ret (- 1) } else ret f } })
   (\<lambda>f. accounted ok (if f < 0 then R else insert Locked (insert Lock_file R)))"
proof -
  have op: "effect (Called Open_lock f) R = (if f < 0 then R else insert Lock_file R)" for f by simp
  have fl: "effect (Called Flock l) (insert Lock_file R) = (if l < 0 then insert Lock_file R else insert Locked (insert Lock_file R))" for l
    by simp
  have cl: "effect (Called Close_lock r) (insert Lock_file R) = R" for r using assms by auto
  show ?thesis
    apply (rule triple_bind [OF accounted_call], unfold op, rule triple_if)
     apply (simp only: if_True, rule triple_keeps [OF assms(4)], rule triple_ret, simp)
    apply (simp only: if_False, rule triple_bind [OF accounted_call], unfold fl, rule triple_if)
     apply (simp only: if_True, rule triple_keeps [OF assms(5)], rule triple_bind [OF accounted_call], unfold cl, rule triple_ret, simp)
    apply (rule triple_ret, simp)
    done
qed

section \<open>An example\<close>

text \<open>A system on which the tests can run.\<close>

fun demo_answer :: "diag_call \<Rightarrow> int" where
  "demo_answer Open_parameter = - 2" | "demo_answer Stat_parameter = - 2" | "demo_answer Isatty = 1" | "demo_answer Sysconf_pagesize = 4096"
| "demo_answer (Mmap b z t) = 0x29580000" | "demo_answer (Open_devmem t) = 4" | "demo_answer Open_lock = 3"
| "demo_answer (Open_fb0 t) = 5" | "demo_answer _ = 0"

definition demo_host :: "nat diag_host" where
  "demo_host = \<lparr>sys_bus = \<lparr>bus_rd8 = (\<lambda>a w. (0x84, w)), bus_rd16 = (\<lambda>a w. (0, w)), bus_rd32 = (\<lambda>a w. (0, w)),
       bus_wr8 = (\<lambda>a v w. w), bus_wr16 = (\<lambda>a v w. w), bus_wr32 = (\<lambda>a v w. w)\<rparr>,
     sys_answer = (\<lambda>c w. (demo_answer c, w)),
     parameter_text = (\<lambda>w. []), devmem_char = (\<lambda>w. True),
     screen = (\<lambda>w. \<lparr>fix_id = ''EX-word LCD'', fb_xres = 528, fb_yres = 320, fb_bits = 16\<rparr>), console_mode = (\<lambda>w. 0),
     tty_of = (\<lambda>w. \<lparr>tty_char = True, tty_major = 4, tty_minor = 1\<rparr>), active_vt = (\<lambda>w. 1), strerror = (\<lambda>n. [])\<rparr>"

definition gives :: "(nat, 'a) dg \<Rightarrow> 'a \<Rightarrow> bool" where
  "gives m v \<longleftrightarrow> (\<forall>s. fst (run_state m s) = v)"

lemma gives_bind: "gives m a \<Longrightarrow> gives (f a) b \<Longrightarrow> gives (m \<bind> f) b"
  by (simp add: gives_def case_prod_beta)

lemma gives_unit: "gives m ()"
  by (simp add: gives_def)

lemma gives_ret: "v = w \<Longrightarrow> gives (ret v) w"
  by (simp add: gives_def)

lemma gives_gets: "(\<And>s. f s = v) \<Longrightarrow> gives (gets f) v"
  by (simp add: gives_def)

lemma gives_if: "(c \<Longrightarrow> gives m v) \<Longrightarrow> (\<not> c \<Longrightarrow> gives n v) \<Longrightarrow> gives (if c then m else n) v"
  by simp

lemma gives_call: "demo_answer c = r \<Longrightarrow> gives (syscall demo_host c) r"
  by (simp add: gives_def run_diag demo_host_def)

lemma gives_look:
  "gives (gets (\<lambda>s. p (screen demo_host (world s)))) (p \<lparr>fix_id = ''EX-word LCD'', fb_xres = 528, fb_yres = 320, fb_bits = 16\<rparr>)"
  "gives (gets (\<lambda>s. console_mode demo_host (world s))) 0" "gives (gets (\<lambda>s. devmem_char demo_host (world s))) True"
  "gives (gets (\<lambda>s. q (tty_of demo_host (world s)) (active_vt demo_host (world s)))) (q \<lparr>tty_char = True, tty_major = 4, tty_minor = 1\<rparr> 1)"
  by (simp_all add: gives_def demo_host_def)

lemma gives_fails: "demo_answer c \<ge> 0 \<Longrightarrow> gives (fails demo_host c) None"
  unfolding fails_def by (rule gives_bind [OF gives_call [OF refl]]) (simp add: gives_ret)

lemma gives_unless: "gives (gets (\<lambda>s. p (world s))) True \<Longrightarrow> gives (unless demo_host p) None"
  unfolding unless_def by (rule gives_bind [where a = True]) (simp_all add: gives_ret)

lemma gives_first: "\<forall>m \<in> set ms. gives m None \<Longrightarrow> gives (first_failure ms) None"
  by (induction ms) (auto simp: first_failure_Cons intro!: gives_bind [where a = None], simp add: first_failure_def gives_ret)

lemma gives_reads: "gives (mmio_read8 demo_host a) 0x84" "gives (mmio_read16 demo_host a) 0" "gives (mmio_read32 demo_host a) 0"
  by (simp_all add: gives_def run_diag demo_host_def)

end
