(* ===== verification/Sublcd.thy ===== *)
theory Sublcd
  imports Diag_Machine Touch
begin

text \<open>
  The diagnostic of the secondary display (\<^verbatim>\<open>src/x11/apps/sublcd-test.c\<close>): a command line that selects a report
  or a drawing test, the checks that have to pass before a drawing test touches the hardware, the
  mappings of \<^verbatim>\<open>/dev/mem\<close>, and the drawing itself. System calls and register accesses are recorded
  in one log, newest first; the kernel's answers are arbitrary, a negative one is a failure and
  minus the error number.
\<close>

unbundle bit_operations_syntax

section \<open>Constants and data\<close>

definition SUBLCD_WIDTH :: nat where "SUBLCD_WIDTH = 244"
definition SUBLCD_HEIGHT :: nat where "SUBLCD_HEIGHT = 99"
definition SUBLCD_UI_WIDTH :: nat where "SUBLCD_UI_WIDTH = 240"
definition SUBLCD_UI_HEIGHT :: nat where "SUBLCD_UI_HEIGHT = 96"
definition SUBLCD_DATA_ALIAS :: u32 where "SUBLCD_DATA_ALIAS = 0xb8000000"
definition SUBLCD_DATA_PHYS :: u32 where "SUBLCD_DATA_PHYS = 0x18000000"
definition SUBLCD_PRDR_ALIAS :: u32 where "SUBLCD_PRDR_ALIAS = 0xa405013c"
definition SUBLCD_PRDR_PHYS :: u32 where "SUBLCD_PRDR_PHYS = 0x0405013c"
definition SUBLCD_DC :: u8 where "SUBLCD_DC = 0x04"

datatype test_kind = TEST_INFO | TEST_INFO_LIVE | TEST_ROW | TEST_PATTERN_BARS | TEST_PATTERN_PAD

datatype lcd_zone =
  ZONE_NONE | ZONE_LEFT | ZONE_UP | ZONE_RIGHT | ZONE_BUTTON_LEFT | ZONE_DOWN | ZONE_BUTTON_RIGHT

record options =
  kind :: test_kind
  row :: nat
  color :: u16

record mmio_maps =
  mem_fd :: int
  page_size :: u32
  prdr_page :: u32
  data_page :: u32
  prdr :: u32
  data_port :: u32

section \<open>Text\<close>

text \<open>\<^verbatim>\<open>strtol\<close> and \<^verbatim>\<open>strtoul\<close> in base ten, with 32-bit longs: the value, the text left, and whether the number is out of range.\<close>

definition is_space :: "char \<Rightarrow> bool" where
  "is_space c \<longleftrightarrow> c = CHR '' '' \<or> c \<in> {CHR 0x09, CHR 0x0A, CHR 0x0B, CHR 0x0C, CHR 0x0D}"

definition is_digit :: "char \<Rightarrow> bool" where
  "is_digit c \<longleftrightarrow> 48 \<le> (of_char c :: nat) \<and> (of_char c :: nat) \<le> 57"

definition number :: "string \<Rightarrow> nat" where
  "number ds = foldl (\<lambda>n c. 10 * n + (of_char c - 48)) 0 ds"

definition sign_split :: "string \<Rightarrow> bool \<times> string" where
  "sign_split t = (case t of c # cs \<Rightarrow> if c = CHR ''-'' then (True, cs) else if c = CHR ''+'' then (False, cs) else (False, t)
     | [] \<Rightarrow> (False, []))"

definition scan_number :: "string \<Rightarrow> (bool \<times> nat \<times> string) option" where
  "scan_number t =
     (let (neg, body) = sign_split (dropWhile is_space t); ds = takeWhile is_digit body
      in if ds = [] then None else Some (neg, number ds, dropWhile is_digit body))"

definition strtoul :: "string \<Rightarrow> nat \<times> string \<times> bool" where
  "strtoul t =
     (case scan_number t of None \<Rightarrow> (0, t, False)
      | Some (neg, n, rest) \<Rightarrow>
        if n > 0xffffffff then (0xffffffff, rest, True)
        else (if neg \<and> n > 0 then 0x100000000 - n else n, rest, False))"

definition strtol :: "string \<Rightarrow> int \<times> string \<times> bool" where
  "strtol t =
     (case scan_number t of None \<Rightarrow> (0, t, False)
      | Some (neg, n, rest) \<Rightarrow>
        if neg then (if n > 0x80000000 then (- 0x80000000, rest, True) else (- int n, rest, False))
        else (if n > 0x7fffffff then (0x7fffffff, rest, True) else (int n, rest, False)))"

section \<open>The command line\<close>

definition usage :: "stream \<Rightarrow> ('w, unit) dg" where
  "usage out = say out (concat (map line
     [''EX-word XD-B8600 secondary-LCD diagnostic'', [],
      ''Usage:'',
      ''  sublcd-test info'',
      ''  sublcd-test info --live'',
      ''  sublcd-test row [top|middle|bottom] [white|red|green|blue] --yes'',
      ''  sublcd-test pattern [bars|pad] --yes'', [],
      CHR 0x27 # ''info'' @ CHR 0x27 # '' performs no MMIO.  '' @ CHR 0x27 # ''--live'' @ CHR 0x27 # '' reads only PRDR.'',
      ''Run row first, from the text console after leaving X.  A bad external-'',
      ''bus assumption can hard-freeze the device; reset it if that happens.'']))"

definition parse_row_name :: "string \<Rightarrow> nat option" where
  "parse_row_name t =
     (if t = ''top'' then Some 0
      else if t = ''middle'' then Some (SUBLCD_HEIGHT div 2)
      else if t = ''bottom'' then Some (SUBLCD_HEIGHT - 1)
      else case strtoul t of (v, rest, overflow) \<Rightarrow>
        if overflow \<or> t = [] \<or> rest \<noteq> [] \<or> v \<ge> SUBLCD_HEIGHT then None else Some v)"

definition parse_color :: "string \<Rightarrow> u16 option" where
  "parse_color t =
     (if t = ''white'' then Some 0xffff
      else if t = ''red'' then Some 0xf800
      else if t = ''green'' then Some 0x07e0
      else if t = ''blue'' then Some 0x001f
      else None)"

fun parse_row_arguments :: "string list \<Rightarrow> bool \<Rightarrow> bool \<Rightarrow> options \<Rightarrow> options option" where
  "parse_row_arguments [] row_seen color_seen opts = Some opts"
| "parse_row_arguments (a # as) row_seen color_seen opts =
     (case parse_row_name a of
        Some r \<Rightarrow> if row_seen then None else parse_row_arguments as True color_seen (opts\<lparr>row := r\<rparr>)
      | None \<Rightarrow>
        (case parse_color a of
           Some c \<Rightarrow> if color_seen then None else parse_row_arguments as row_seen True (opts\<lparr>color := c\<rparr>)
         | None \<Rightarrow> None))"

datatype parsed = Options options | Help | Wrong

definition default_options :: options where
  "default_options = \<lparr>kind = TEST_INFO, row = SUBLCD_HEIGHT div 2, color = 0xffff\<rparr>"

text \<open>\<open>args\<close> are the arguments after the program's name.\<close>

definition parse_options :: "string list \<Rightarrow> parsed" where
  "parse_options args =
     (if args = [] \<or> args = [''info''] then Options default_options
      else if args = [''--help''] \<or> args = [''-h''] then Help
      else if args = [''info'', ''--live''] then Options (default_options\<lparr>kind := TEST_INFO_LIVE\<rparr>)
      else if length args \<ge> 2 \<and> hd args = ''row'' \<and> last args = ''--yes''
      then (if length args > 4 then Wrong
            else case parse_row_arguments (butlast (tl args)) False False (default_options\<lparr>kind := TEST_ROW\<rparr>) of
                   None \<Rightarrow> Wrong | Some opts \<Rightarrow> Options opts)
      else if (length args = 2 \<or> length args = 3) \<and> hd args = ''pattern'' \<and> last args = ''--yes''
      then (let name = (if length args = 3 then args ! 1 else ''bars'')
            in if name = ''bars'' then Options (default_options\<lparr>kind := TEST_PATTERN_BARS\<rparr>)
               else if name = ''pad'' then Options (default_options\<lparr>kind := TEST_PATTERN_PAD\<rparr>)
               else Wrong)
      else Wrong)"

section \<open>Looking at the system\<close>

definition trailing :: "char \<Rightarrow> bool" where
  "trailing c \<longleftrightarrow> c = CHR '' '' \<or> c \<in> {CHR 0x09, CHR 0x0A, CHR 0x0D}"

text \<open>The text is the bytes read up to the first zero byte.\<close>

definition parameter_mode :: "string \<Rightarrow> int" where
  "parameter_mode t =
     (case strtol t of (v, rest, overflow) \<Rightarrow>
        if overflow \<or> length rest = length t then - 1
        else if dropWhile trailing rest \<noteq> [] then - 1
        else if v = 0 then 1 else 2)"

definition subpad_mode :: "'w diag_host \<Rightarrow> ('w, int) dg" where
  "subpad_mode h = do {
     f \<leftarrow> syscall h Open_parameter;
     if f < 0 then ret (if f = SUBPAD_ABSENT then 0 else - 1)
     else do {
       count \<leftarrow> syscall h Read_parameter;
       t \<leftarrow> gets (\<lambda>s. parameter_text h (world s));
       c \<leftarrow> syscall h Close_parameter;
       if c < 0 \<or> count \<le> 0 then ret (- 1)
       else ret (parameter_mode (takeWhile (\<lambda>c. c \<noteq> CHR 0x00) (take (nat count) t))) } }"

text \<open>Zero, or minus the error number.\<close>

definition check_devmem :: "'w diag_host \<Rightarrow> bool \<Rightarrow> ('w, int) dg" where
  "check_devmem h verbose = do {
     r \<leftarrow> syscall h Stat_devmem;
     if r < 0 then do {
       onlyif verbose (say Stdout (line (''/dev/mem: unavailable ('' @ strerror h (- r) @ '')'')));
       ret r }
     else do {
       c \<leftarrow> gets (\<lambda>s. devmem_char h (world s));
       if \<not> c then do {
         onlyif verbose (say Stdout (line ''/dev/mem: present, but not a character device''));
         ret (- ENODEV) }
       else do {
         onlyif verbose (say Stdout (line ''/dev/mem: character device present''));
         ret 0 } } }"

definition report_framebuffer :: "'w diag_host \<Rightarrow> ('w, unit) dg" where
  "report_framebuffer h = do {
     f \<leftarrow> syscall h (Open_fb0 False);
     if f < 0 then say Stdout (line (''Main framebuffer: unavailable ('' @ strerror h (- f) @ '')''))
     else do {
       r \<leftarrow> syscall h Fb_vscreeninfo;
       i \<leftarrow> gets (\<lambda>s. screen h (world s));
       (if r = 0 then say Stdout (line (''Main framebuffer: '' @ nat_text (fb_xres i) @ ''x'' @ nat_text (fb_yres i) @ '', '' @
            nat_text (fb_bits i) @ '' bits/pixel''))
        else say Stdout (line (''Main framebuffer: query failed ('' @ strerror h (- r) @ '')'')));
       _ \<leftarrow> syscall h Close_fb0;
       ret () } }"

definition report_console :: "'w diag_host \<Rightarrow> ('w, unit) dg" where
  "report_console h = do {
     t \<leftarrow> syscall h Isatty;
     if t = 0 then say Stdout (line ''Current input: not a tty (write tests will refuse)'')
     else do {
       r \<leftarrow> syscall h Kdgetmode;
       if r < 0 then say Stdout (line ''Current input: not a Linux VT (leave X before write tests)'')
       else do {
         mode \<leftarrow> gets (\<lambda>s. console_mode h (world s));
         say Stdout (line (''Current Linux VT: '' @ (if mode = KD_TEXT then ''text mode; write tests permitted''
                           else ''graphics mode; write tests will refuse''))) } } }"

definition show_info :: "'w diag_host \<Rightarrow> ('w, int) dg" where
  "show_info h = do {
     mode \<leftarrow> subpad_mode h;
     say Stdout (line ''EX-word XD-B8600 secondary-LCD diagnostic'');
     say Stdout (line ''Target: big-endian Renesas SH-4A'');
     say Stdout (line (''Panel geometry: '' @ nat_text SUBLCD_WIDTH @ ''x'' @ nat_text SUBLCD_HEIGHT @ '' RGB565 (UI area '' @
       nat_text SUBLCD_UI_WIDTH @ ''x'' @ nat_text SUBLCD_UI_HEIGHT @ '')''));
     say Stdout (line (''Data port: P2 alias 0x'' @ hex 8 (unat SUBLCD_DATA_ALIAS) @ '' -> physical 0x'' @
       hex 8 (unat SUBLCD_DATA_PHYS) @ '', 16-bit write only''));
     say Stdout (line (''DC port:   P2 alias 0x'' @ hex 8 (unat SUBLCD_PRDR_ALIAS) @ '' -> physical 0x'' @
       hex 8 (unat SUBLCD_PRDR_PHYS) @ '', bit 0x'' @ hex 2 (unat SUBLCD_DC)));
     _ \<leftarrow> check_devmem h True;
     report_framebuffer h;
     report_console h;
     say Stdout (line
       (if mode < 0 then ''Kernel subpad mode: unreadable; write tests will refuse''
        else if mode = 2 then ''Kernel subpad mode: active; write tests will refuse''
        else if mode = 1 then ''Kernel subpad mode: experimental interface present; write tests will refuse''
        else ''Kernel subpad mode: absent (expected for the proven kernel)''));
     say Stdout (line ''No MMIO was performed. Next safe check: sublcd-test info --live'');
     ret 0 }"

section \<open>Mappings\<close>

definition close_maps :: "'w diag_host \<Rightarrow> mmio_maps \<Rightarrow> ('w, mmio_maps) dg" where
  "close_maps h m = do {
     onlyif (data_page m \<noteq> MAP_FAILED) (do { _ \<leftarrow> syscall h (Munmap (data_page m)); ret () });
     onlyif (prdr_page m \<noteq> MAP_FAILED) (do { _ \<leftarrow> syscall h (Munmap (prdr_page m)); ret () });
     onlyif (mem_fd m \<ge> 0) (do { _ \<leftarrow> syscall h Close_devmem; ret () });
     ret (m\<lparr>mem_fd := -1, prdr_page := MAP_FAILED, data_page := MAP_FAILED\<rparr>) }"

definition maps_failed :: mmio_maps where
  "maps_failed = \<lparr>mem_fd = -1, page_size = 0, prdr_page = MAP_FAILED, data_page = MAP_FAILED, prdr = 0, data_port = 0\<rparr>"

definition page_mask :: "mmio_maps \<Rightarrow> u32" where
  "page_mask m = page_size m - 1"

definition lcd_complain :: "string \<Rightarrow> ('w, unit) dg" where
  "lcd_complain t = say Stderr (''sublcd-test: '' @ line t)"

definition map_data_port :: "'w diag_host \<Rightarrow> mmio_maps \<Rightarrow> ('w, bool \<times> mmio_maps) dg" where
  "map_data_port h m = do {
     r \<leftarrow> syscall h (Mmap (SUBLCD_DATA_PHYS AND NOT (page_mask m)) (page_size m) True);
     let m = m\<lparr>data_page := page_of r\<rparr>;
     if data_page m = MAP_FAILED then do {
       lcd_complain (''cannot map secondary LCD data port: '' @ strerror h (- r));
       m \<leftarrow> close_maps h m;
       ret (False, m) }
     else do {
       let m = m\<lparr>data_port := data_page m + (SUBLCD_DATA_PHYS AND page_mask m)\<rparr>;
       if data_port m AND 1 \<noteq> 0 then do {
         lcd_complain ''LCD data mapping is not 16-bit aligned'';
         m \<leftarrow> close_maps h m;
         ret (False, m) }
       else ret (True, m) } }"

definition open_maps :: "'w diag_host \<Rightarrow> bool \<Rightarrow> ('w, bool \<times> mmio_maps) dg" where
  "open_maps h writable = do {
     size \<leftarrow> syscall h Sysconf_pagesize;
     if size \<le> 0 \<or> size AND (size - 1) \<noteq> 0 \<or> size > 65536 then do {
       lcd_complain (''unsupported page size '' @ int_text size);
       ret (False, maps_failed) }
     else do {
       let m = maps_failed\<lparr>page_size := word_of_int size\<rparr>;
       c \<leftarrow> check_devmem h False;
       if c < 0 then do {
         lcd_complain (''/dev/mem is unavailable: '' @ strerror h (- c));
         ret (False, m) }
       else do {
         f \<leftarrow> syscall h (Open_devmem writable);
         let m = m\<lparr>mem_fd := f\<rparr>;
         if f < 0 then do {
           lcd_complain (''cannot open /dev/mem: '' @ strerror h (- f));
           ret (False, m) }
         else do {
           r \<leftarrow> syscall h (Mmap (SUBLCD_PRDR_PHYS AND NOT (page_mask m)) (page_size m) writable);
           let m = m\<lparr>prdr_page := page_of r\<rparr>;
           if prdr_page m = MAP_FAILED then do {
             lcd_complain (''cannot map PRDR: '' @ strerror h (- r));
             m \<leftarrow> close_maps h m;
             ret (False, m) }
           else do {
             let m = m\<lparr>prdr := prdr_page m + (SUBLCD_PRDR_PHYS AND page_mask m)\<rparr>;
             if \<not> writable then ret (True, m) else map_data_port h m } } } } }"

text \<open>The physical addresses reached through the pointers into the mapped pages.\<close>

definition prdr_at :: "mmio_maps \<Rightarrow> u32" where
  "prdr_at m = (SUBLCD_PRDR_PHYS AND NOT (page_mask m)) + (prdr m - prdr_page m)"

definition data_at :: "mmio_maps \<Rightarrow> u32" where
  "data_at m = (SUBLCD_DATA_PHYS AND NOT (page_mask m)) + (data_port m - data_page m)"

definition show_live_info :: "'w diag_host \<Rightarrow> ('w, int) dg" where
  "show_live_info h = do {
     uid \<leftarrow> syscall h Geteuid;
     if uid \<noteq> 0 then do { lcd_complain ''info --live must be run as root''; ret 1 }
     else do {
       (ok, m) \<leftarrow> open_maps h False;
       if \<not> ok then ret 1
       else do {
         v \<leftarrow> mmio_read8 h (prdr_at m);
         io_barrier;
         m \<leftarrow> close_maps h m;
         say Stdout (line (''PRDR = 0x'' @ hex 2 (unat v) @ ''; secondary-LCD DC is '' @
           (if v AND SUBLCD_DC \<noteq> 0 then ''high (data)'' else ''low (command)'')));
         say Stdout (line ''One 8-bit PRDR read completed. The external LCD bus was not mapped or read.'');
         ret 0 } } }"

section \<open>Lock and console\<close>

definition acquire_lock :: "'w diag_host \<Rightarrow> ('w, int) dg" where
  "acquire_lock h = do {
     f \<leftarrow> syscall h Open_lock;
     if f < 0 then do { lcd_complain (''cannot open lock: '' @ strerror h (- f)); ret (- 1) }
     else do {
       l \<leftarrow> syscall h Flock;
       if l < 0 then do {
         lcd_complain (''another LCD test is active: '' @ strerror h (- l));
         _ \<leftarrow> syscall h Close_lock;
         ret (- 1) }
       else ret f } }"

fun yields :: "'w diag_host \<Rightarrow> nat \<Rightarrow> ('w, unit) dg" where
  "yields h 0 = ret ()"
| "yields h (Suc n) = do { _ \<leftarrow> syscall h Sched_yield; yields h n }"

definition drain_framebuffer :: "'w diag_host \<Rightarrow> int \<Rightarrow> ('w, bool \<times> bool) dg" where
  "drain_framebuffer h saved_mode = do {
     f \<leftarrow> syscall h (Open_fb0 True);
     e \<leftarrow> (if f < 0 then ret (Some (- f))
          else first_failure [fails h Fb_fscreeninfo, fails h Fb_vscreeninfo,
                 unless h (\<lambda>w. fit_screen (screen h w)), fails h Fb_pan]);
     case e of
       None \<Rightarrow> do { _ \<leftarrow> syscall h Close_fb0; yields h 256; ret (True, True) }
     | Some n \<Rightarrow> do {
         let saved_errno = (if n \<noteq> 0 then n else ENODEV);
         onlyif (f \<ge> 0) (do { _ \<leftarrow> syscall h Close_fb0; ret () });
         r \<leftarrow> syscall h (Kdsetmode saved_mode);
         onlyif (r \<noteq> 0) (lcd_complain (''initial text-mode restore failed: '' @ strerror h (- r) @ ''; retrying during cleanup''));
         lcd_complain (''cannot drain the main framebuffer: '' @ strerror h saved_errno);
         ret (False, r \<noteq> 0) } }"

text \<open>Whether the console is quiet now, the mode it had, and whether it has to be restored.\<close>

definition enter_quiet_console :: "'w diag_host \<Rightarrow> ('w, bool \<times> int \<times> bool) dg" where
  "enter_quiet_console h = do {
     t \<leftarrow> syscall h Isatty;
     g \<leftarrow> (if t = 0 then ret (- 1) else syscall h Kdgetmode);
     if g < 0 then do {
       lcd_complain ''run this from the Linux text console, not xterm/X''; ret (False, KD_TEXT, False) }
     else do {
       saved_mode \<leftarrow> gets (\<lambda>s. console_mode h (world s));
       if saved_mode \<noteq> KD_TEXT then do {
         lcd_complain ''current VT is in graphics mode; leave X first''; ret (False, saved_mode, False) }
       else do {
         e \<leftarrow> first_failure [fails h Fstat_tty,
                unless h (\<lambda>w. tty_char (tty_of h w) \<and> tty_major (tty_of h w) = 4 \<and> tty_minor (tty_of h w) \<noteq> 0),
                fails h Vt_getstate,
                unless h (\<lambda>w. tty_minor (tty_of h w) = active_vt h w)];
         if e \<noteq> None then do {
           lcd_complain ''current tty is not the active numbered Linux VT''; ret (False, saved_mode, False) }
         else do {
           k \<leftarrow> syscall h (Kdsetmode KD_GRAPHICS);
           if k < 0 then do {
             lcd_complain (''cannot quiet the text console: '' @ strerror h (- k)); ret (False, saved_mode, False) }
           else do {
             (ok, quieted) \<leftarrow> drain_framebuffer h saved_mode;
             ret (ok, saved_mode, quieted) } } } } }"

definition leave_quiet_console :: "'w diag_host \<Rightarrow> int \<Rightarrow> ('w, bool) dg" where
  "leave_quiet_console h saved_mode = do {
     r \<leftarrow> syscall h (Kdsetmode saved_mode);
     if r < 0 then do {
       lcd_complain (''could not restore text mode: '' @ strerror h (- r) @ '' (reset if needed)''); ret False }
     else ret True }"

section \<open>Drawing\<close>

definition lcd_command :: "'w diag_host \<Rightarrow> mmio_maps \<Rightarrow> u16 \<Rightarrow> ('w, unit) dg" where
  "lcd_command h m command = do {
     v \<leftarrow> mmio_read8 h (prdr_at m);
     mmio_write8 h (prdr_at m) (v AND NOT SUBLCD_DC);
     io_barrier;
     mmio_write16 h (data_at m) command;
     io_barrier;
     mmio_write8 h (prdr_at m) (v OR SUBLCD_DC);
     io_barrier }"

definition lcd_data :: "'w diag_host \<Rightarrow> mmio_maps \<Rightarrow> u16 \<Rightarrow> ('w, unit) dg" where
  "lcd_data h m v = mmio_write16 h (data_at m) v"

definition lcd_set_row :: "'w diag_host \<Rightarrow> mmio_maps \<Rightarrow> nat \<Rightarrow> ('w, unit) dg" where
  "lcd_set_row h m y = do {
     lcd_command h m 0x21; lcd_data h m 6;
     lcd_command h m 0x52; lcd_data h m 6;
     lcd_command h m 0x53; lcd_data h m (of_nat (6 + SUBLCD_WIDTH - 1));
     lcd_command h m 0x20; lcd_data h m (of_nat y);
     lcd_command h m 0x50; lcd_data h m (of_nat y);
     lcd_command h m 0x51; lcd_data h m (of_nat y);
     lcd_command h m 0x22 }"

definition arrow_pixel :: "lcd_zone \<Rightarrow> int \<Rightarrow> int \<Rightarrow> bool" where
  "arrow_pixel zone x y =
     (let ax = x - 40; ay = y - 24 in
      case zone of
        ZONE_LEFT \<Rightarrow> (x \<ge> 35 \<and> x \<le> 60 \<and> small_abs ay \<le> 3) \<or>
                    (x \<ge> 17 \<and> x \<le> 40 \<and> small_abs ay \<le> nat (x - 17) div 2)
      | ZONE_UP \<Rightarrow> (y \<ge> 22 \<and> y \<le> 40 \<and> small_abs ax \<le> 3) \<or>
                  (y \<ge> 7 \<and> y \<le> 28 \<and> small_abs ax \<le> nat (y - 7) div 2)
      | ZONE_RIGHT \<Rightarrow> (x \<ge> 20 \<and> x \<le> 45 \<and> small_abs ay \<le> 3) \<or>
                     (x \<ge> 40 \<and> x \<le> 63 \<and> small_abs ay \<le> nat (63 - x) div 2)
      | ZONE_DOWN \<Rightarrow> (y \<ge> 8 \<and> y \<le> 26 \<and> small_abs ax \<le> 3) \<or>
                    (y \<ge> 20 \<and> y \<le> 41 \<and> small_abs ax \<le> nat (41 - y) div 2)
      | _ \<Rightarrow> False)"

definition lcd_letter_l :: "u8 list" where "lcd_letter_l = [0x10, 0x10, 0x10, 0x10, 0x10, 0x10, 0x1f]"
definition lcd_letter_r :: "u8 list" where "lcd_letter_r = [0x1e, 0x11, 0x11, 0x1e, 0x14, 0x12, 0x11]"

text \<open>\<open>None\<close> would be a read outside the glyph.\<close>

definition letter_pixel :: "lcd_zone \<Rightarrow> int \<Rightarrow> int \<Rightarrow> bool option" where
  "letter_pixel zone x y =
     (if zone \<noteq> ZONE_BUTTON_LEFT \<and> zone \<noteq> ZONE_BUTTON_RIGHT then Some False
      else if x < 30 \<or> x \<ge> 50 \<or> y < 10 \<or> y \<ge> 38 then Some False
      else let rows = (if zone = ZONE_BUTTON_LEFT then lcd_letter_l else lcd_letter_r);
               column = drop_bit 2 (nat (x - 30)); r = drop_bit 2 (nat (y - 10))
           in if r < length rows \<and> column \<le> 4 then Some ((rows ! r) AND push_bit (4 - column) 1 \<noteq> 0) else None)"

definition lcd_zone_at :: "nat \<Rightarrow> nat \<Rightarrow> lcd_zone" where
  "lcd_zone_at x y =
     (if x < 80 then (if y < 48 then ZONE_LEFT else ZONE_BUTTON_LEFT)
      else if x < 160 then (if y < 48 then ZONE_UP else ZONE_DOWN)
      else (if y < 48 then ZONE_RIGHT else ZONE_BUTTON_RIGHT))"

definition pad_pixel :: "nat \<Rightarrow> nat \<Rightarrow> u16 option" where
  "pad_pixel x y =
     (if x \<ge> SUBLCD_UI_WIDTH \<or> y \<ge> SUBLCD_UI_HEIGHT then Some 0x0000
      else
        let local_x = (if x < 80 then x else if x < 160 then x - 80 else x - 160);
            zone = lcd_zone_at x y;
            local_y = (if y < 48 then y else y - 48)
        in if local_x < 2 \<or> local_x \<ge> 78 \<or> local_y < 2 \<or> local_y \<ge> 46 then Some 0xbdf7
           else let background = (if zone = ZONE_BUTTON_LEFT \<or> zone = ZONE_BUTTON_RIGHT then 0x2448 else 0x194f)
                in if arrow_pixel zone (int local_x) (int local_y) then Some 0xffff
                   else map_option (\<lambda>l. if l then 0xffff else background)
                          (letter_pixel zone (int local_x) (int local_y)))"

definition bar_colors :: "u16 list" where
  "bar_colors = [0xffff, 0xffe0, 0x07ff, 0x07e0, 0xf81f, 0xf800, 0x001f, 0x0000]"

definition bars_pixel :: "nat \<Rightarrow> u16" where
  "bars_pixel x = (let index = x * 8 div SUBLCD_WIDTH in bar_colors ! (if index < 8 then index else 7))"

fun lcd_pixels :: "'w diag_host \<Rightarrow> mmio_maps \<Rightarrow> u16 list \<Rightarrow> ('w, unit) dg" where
  "lcd_pixels h m [] = ret ()"
| "lcd_pixels h m (p # ps) = do { lcd_data h m p; lcd_pixels h m ps }"

definition draw_row :: "'w diag_host \<Rightarrow> mmio_maps \<Rightarrow> nat \<Rightarrow> u16 list \<Rightarrow> ('w, unit) dg" where
  "draw_row h m y ps = do { lcd_set_row h m y; lcd_pixels h m ps; io_barrier }"

definition pattern_pixels :: "test_kind \<Rightarrow> nat \<Rightarrow> u16 list" where
  "pattern_pixels k y = map (\<lambda>x. if k = TEST_PATTERN_PAD then the (pad_pixel x y) else bars_pixel x) [0..<SUBLCD_WIDTH]"

fun draw_pattern :: "'w diag_host \<Rightarrow> mmio_maps \<Rightarrow> test_kind \<Rightarrow> nat list \<Rightarrow> ('w, unit) dg" where
  "draw_pattern h m k [] = ret ()"
| "draw_pattern h m k (y # ys) = do {
     draw_row h m y (pattern_pixels k y);
     _ \<leftarrow> syscall h Sched_yield;
     draw_pattern h m k ys }"

definition draw_test :: "'w diag_host \<Rightarrow> mmio_maps \<Rightarrow> options \<Rightarrow> ('w, unit) dg" where
  "draw_test h m opts = do {
     (if kind opts = TEST_ROW then draw_row h m (row opts) (replicate SUBLCD_WIDTH (color opts))
      else draw_pattern h m (kind opts) [0..<SUBLCD_HEIGHT]);
     v \<leftarrow> mmio_read8 h (prdr_at m);
     mmio_write8 h (prdr_at m) (v OR SUBLCD_DC);
     io_barrier }"

section \<open>The drawing tests\<close>

definition block_signals :: "'w diag_host \<Rightarrow> ('w, bool) dg" where
  "block_signals h = do {
     e \<leftarrow> first_failure (fails h Sigfillset # replicate 6 (fails h Sigdelset) @ [fails h Sigprocmask_block]);
     ret (e = None) }"

definition announce :: "options \<Rightarrow> ('w, unit) dg" where
  "announce opts = do {
     (if kind opts = TEST_ROW
      then say Stdout (''About to write ONE '' @ (if color opts = 0xffff then ''white'' else ''colored'') @ '' test row at y='' @
             nat_text (row opts) @ ''. '')
      else say Stdout (''About to write a complete '' @ nat_text SUBLCD_WIDTH @ ''x'' @ nat_text SUBLCD_HEIGHT @ '' '' @
             (if kind opts = TEST_PATTERN_PAD then ''six-button'' else ''color-bar'') @ '' pattern. ''));
     say Stdout (line ''Reset the device if it freezes.'') }"

text \<open>What the labels of \<^verbatim>\<open>perform_write\<close> find in its variables.\<close>

record attempt =
  at_result :: int
  at_quiet :: bool
  at_saved :: int
  at_blocked :: bool
  at_deferred :: bool

definition attempt_start :: attempt where
  "attempt_start = \<lparr>at_result = 1, at_quiet = False, at_saved = KD_TEXT, at_blocked = False, at_deferred = False\<rparr>"

text \<open>From the announcement to the label \<^verbatim>\<open>close_mmio\<close>.\<close>

definition guarded_write :: "'w diag_host \<Rightarrow> mmio_maps \<Rightarrow> options \<Rightarrow> ('w, attempt) dg" where
  "guarded_write h m opts = do {
     announce opts;
     f \<leftarrow> syscall h Fflush;
     if f \<noteq> 0 then do { lcd_complain ''cannot flush the console; refusing MMIO''; ret attempt_start }
     else do {
       blocked \<leftarrow> block_signals h;
       if \<not> blocked then do { lcd_complain ''cannot block signals; refusing MMIO''; ret attempt_start }
       else do {
         (ok, saved_mode, quiet) \<leftarrow> enter_quiet_console h;
         let a = attempt_start\<lparr>at_blocked := True, at_saved := saved_mode, at_quiet := quiet\<rparr>;
         if \<not> ok then ret a
         else do {
           mode \<leftarrow> subpad_mode h;
           if mode \<noteq> 0 then ret (a\<lparr>at_deferred := True\<rparr>)
           else do {
             draw_test h m opts;
             left \<leftarrow> leave_quiet_console h saved_mode;
             ret (if left then a\<lparr>at_result := 0, at_quiet := False\<rparr> else a) } } } } }"

definition perform_write :: "'w diag_host \<Rightarrow> options \<Rightarrow> ('w, int) dg" where
  "perform_write h opts = do {
     uid \<leftarrow> syscall h Geteuid;
     if uid \<noteq> 0 then do { lcd_complain ''write tests must be run as root''; ret 1 }
     else do {
       mode \<leftarrow> subpad_mode h;
       if mode < 0 then do { lcd_complain ''cannot verify kernel subpad mode; refusing MMIO''; ret 1 }
       else if mode \<noteq> 0 then do { lcd_complain ''experimental kernel subpad control exists; refusing raw MMIO''; ret 1 }
       else do {
         lock_fd \<leftarrow> acquire_lock h;
         if lock_fd < 0 then ret 1
         else do {
           (ok, m) \<leftarrow> open_maps h True;
           a \<leftarrow> (if \<not> ok then ret attempt_start
                else do {
                  a \<leftarrow> guarded_write h m opts;
                  onlyif (at_quiet a) (do { _ \<leftarrow> leave_quiet_console h (at_saved a); ret () });
                  m \<leftarrow> close_maps h m;
                  ret a });
           _ \<leftarrow> syscall h Close_lock;
           onlyif (at_blocked a) (do { _ \<leftarrow> syscall h Sigprocmask_setmask; ret () });
           onlyif (at_deferred a) (lcd_complain ''kernel subpad state changed; no LCD write was made'');
           onlyif (at_result a = 0) (say Stdout (line
             (if kind opts = TEST_ROW then ''Secondary-LCD row write completed.'' else ''Secondary-LCD pattern write completed.'')));
           ret (at_result a) } } } }"

definition sublcd_main :: "'w diag_host \<Rightarrow> string list \<Rightarrow> ('w, int) dg" where
  "sublcd_main h args =
     (case parse_options args of
        Help \<Rightarrow> do { usage Stdout; ret 0 }
      | Wrong \<Rightarrow> do { usage Stderr; ret 2 }
      | Options opts \<Rightarrow>
        (if kind opts = TEST_INFO then show_info h
         else if kind opts = TEST_INFO_LIVE then show_live_info h
         else perform_write h opts))"

end
