(* ===== verification/Sublcd_Facts.thy ===== *)
theory Sublcd_Facts
  imports Keypad_Touch Diag_Rules Sublcd
begin

text \<open>
  What the diagnostic of the secondary display guarantees: its tests send the display all of their
  words or none, the pad pattern being the one the kernel driver draws; and it writes registers
  only with the page mapped, the lock taken, the console quiet, signals blocked and the kernel's
  own driver absent, and gives everything back.
\<close>

section \<open>The pad\<close>

fun driver_zone :: "lcd_zone \<Rightarrow> touch_zone" where
  "driver_zone ZONE_NONE = TOUCH_NONE"
| "driver_zone ZONE_LEFT = TOUCH_LEFT"
| "driver_zone ZONE_UP = TOUCH_UP"
| "driver_zone ZONE_RIGHT = TOUCH_RIGHT"
| "driver_zone ZONE_BUTTON_LEFT = TOUCH_BUTTON_LEFT"
| "driver_zone ZONE_DOWN = TOUCH_DOWN"
| "driver_zone ZONE_BUTTON_RIGHT = TOUCH_BUTTON_RIGHT"

lemma driver_zone_button [simp]:
  "driver_zone z = TOUCH_BUTTON_LEFT \<longleftrightarrow> z = ZONE_BUTTON_LEFT" "driver_zone z = TOUCH_BUTTON_RIGHT \<longleftrightarrow> z = ZONE_BUTTON_RIGHT"
  by (cases z; simp)+

lemma arrow_as_driver: "arrow_pixel z x y = exword_sublcd_arrow_pixel (driver_zone z) x y"
  by (cases z) (simp_all add: arrow_pixel_def exword_sublcd_arrow_pixel_def)

lemma letter_as_driver: "letter_pixel z x y = exword_sublcd_letter_pixel (driver_zone z) x y"
proof -
  have b: "(v AND 2 ^ n = 0) = (\<not> bit v n)" for v :: u8 and n
    by (simp add: bit_iff_and_push_bit_not_eq_0)
  show ?thesis
    by (simp add: letter_pixel_def exword_sublcd_letter_pixel_def glyph_bit_def Let_def b drop_bit_eq_div
        lcd_letter_l_def lcd_letter_r_def letter_l_def letter_r_def del: driver_zone.simps)
qed

lemma zone_as_driver: "driver_zone (lcd_zone_at x y) = pad_zone x y"
  by (simp add: lcd_zone_at_def pad_zone_def)

lemma pad_as_driver: "pad_pixel x y = exword_sublcd_pad_pixel x y"
  by (simp only: pad_pixel_def exword_sublcd_pad_pixel_def Let_def arrow_as_driver letter_as_driver zone_as_driver
      driver_zone_button [symmetric] SUBLCD_UI_WIDTH_def SUBLCD_UI_HEIGHT_def EXWORD_SUBLCD_UI_WIDTH_def EXWORD_SUBLCD_UI_HEIGHT_def)

section \<open>The command line\<close>

lemma row_name_on_panel: "parse_row_name t = Some y \<Longrightarrow> y < SUBLCD_HEIGHT"
  by (auto simp: parse_row_name_def SUBLCD_HEIGHT_def split: if_splits prod.splits)

lemma row_arguments:
  "parse_row_arguments as rs cs opts = Some opts' \<Longrightarrow> row opts < SUBLCD_HEIGHT \<Longrightarrow>
   kind opts' = kind opts \<and> row opts' < SUBLCD_HEIGHT"
  by (induction as rs cs opts rule: parse_row_arguments.induct)
    (auto split: option.splits if_splits dest: row_name_on_panel)

text \<open>A test that writes is only selected by a command line that ends in \<^verbatim>\<open>--yes\<close>, and its row is on the panel.\<close>

theorem sublcd_options_guarded:
  assumes "parse_options args = Options opts"
  shows "row opts < SUBLCD_HEIGHT \<and>
    (kind opts \<in> {TEST_INFO, TEST_INFO_LIVE} \<or> hd args \<in> {''row'', ''pattern''} \<and> last args = ''--yes'')"
proof -
  have d: "row default_options < SUBLCD_HEIGHT" by (simp add: default_options_def SUBLCD_HEIGHT_def)
  from assms show ?thesis
    unfolding parse_options_def Let_def
    by (auto simp: d default_options_def split: if_splits option.splits dest!: row_arguments) (simp_all add: SUBLCD_HEIGHT_def)
qed

section \<open>Words on the bus\<close>

text \<open>The accesses of a log at the addresses the kernel uses: the uncached alias of the physical address.\<close>

fun uncached :: "access \<Rightarrow> access" where
  "uncached (Rd8 a v) = Rd8 (a OR 0xa0000000) v"
| "uncached (Rd16 a v) = Rd16 (a OR 0xa0000000) v"
| "uncached (Rd32 a v) = Rd32 (a OR 0xa0000000) v"
| "uncached (Wr8 a v) = Wr8 (a OR 0xa0000000) v"
| "uncached (Wr16 a v) = Wr16 (a OR 0xa0000000) v"
| "uncached (Wr32 a v) = Wr32 (a OR 0xa0000000) v"

fun accesses :: "event list \<Rightarrow> access list" where
  "accesses [] = []"
| "accesses (Accessed a # es) = uncached a # accesses es"
| "accesses (_ # es) = accesses es"

definition panel :: "'w diag \<Rightarrow> (bool \<times> u16) list" where
  "panel s = lcd_words (accesses (log s))"

definition sent :: "(bool \<times> u16) list \<Rightarrow> 'w diag \<Rightarrow> bool" where
  "sent ws s \<longleftrightarrow> panel s = ws \<and> dc_high (accesses (log s))"

definition panel_row :: "nat \<Rightarrow> u16 list \<Rightarrow> (bool \<times> u16) list" where
  "panel_row y ps = command_words 0x21 6 @ command_words 0x52 6 @ command_words 0x53 249 @
     command_words 0x20 (of_nat y) @ command_words 0x50 (of_nat y) @ command_words 0x51 (of_nat y) @
     [(False, 0x22)] @ map (Pair True) ps"

definition test_words :: "options \<Rightarrow> (bool \<times> u16) list" where
  "test_words opts = (if kind opts = TEST_ROW then panel_row (row opts) (replicate SUBLCD_WIDTH (color opts))
     else concat (map (\<lambda>y. panel_row y (pattern_pixels (kind opts) y)) [0..<SUBLCD_HEIGHT]))"

lemma pad_words: "kind opts = TEST_PATTERN_PAD \<Longrightarrow> test_words opts = concat (map row_words [0..<99])"
proof -
  have "panel_row y (pattern_pixels TEST_PATTERN_PAD y) = row_words y" for y
    by (simp add: panel_row_def row_words_def pattern_pixels_def pad_as_driver SUBLCD_WIDTH_def o_def del: upt_rec_numeral)
  then show "kind opts = TEST_PATTERN_PAD \<Longrightarrow> ?thesis" by (simp add: test_words_def SUBLCD_HEIGHT_def del: upt_rec_numeral)
qed

definition through :: "mmio_maps \<Rightarrow> bool" where
  "through m \<longleftrightarrow> prdr_at m = SUBLCD_PRDR_PHYS \<and> data_at m = SUBLCD_DATA_PHYS"

lemma panel_command_sent:
  "through m \<Longrightarrow> triple (sent ws) (lcd_command h m c) (\<lambda>_. sent (ws @ [(False, c)]))"
  by (auto intro!: tripleI simp: lcd_command_def run_diag io_barrier_def sent_def panel_def through_def dc_high_def
      SUBLCD_PRDR_PHYS_def SUBLCD_DATA_PHYS_def EXWORD_SUBLCD_PRDR_def EXWORD_SUBLCD_DATA_def SUBLCD_DC_def bit_simps)

lemma panel_data_sent: "through m \<Longrightarrow> triple (sent ws) (lcd_data h m v) (\<lambda>_. sent (ws @ [(True, v)]))"
  by (auto intro!: tripleI simp: lcd_data_def run_diag sent_def panel_def through_def dc_high_def
      SUBLCD_PRDR_PHYS_def SUBLCD_DATA_PHYS_def EXWORD_SUBLCD_PRDR_def EXWORD_SUBLCD_DATA_def)

lemma sent_quiet: "keeps (sent ws) (syscall h c)" "keeps (sent ws) (say out t)" "keeps (sent ws) io_barrier"
  by (auto intro!: keepsI simp: run_diag say_def io_barrier_def sent_def panel_def)

lemma panel_pixels_sent: "through m \<Longrightarrow> triple (sent ws) (lcd_pixels h m ps) (\<lambda>_. sent (ws @ map (Pair True) ps))"
proof (induction ps arbitrary: ws)
  case (Cons p ps)
  show ?case using triple_bind [OF panel_data_sent Cons.IH, of m ws h] Cons.prems by simp
qed (simp add: triple_def)

lemma sent_two:
  assumes "through m" and "triple (sent (ws @ command_words c v)) n Q"
  shows "triple (sent ws) (lcd_command h m (ucast c) \<bind> (\<lambda>_. lcd_data h m v \<bind> (\<lambda>_. n))) Q"
  using assms(2)
  by (intro triple_bind [OF panel_command_sent [OF assms(1)]] triple_bind [OF panel_data_sent [OF assms(1)]]) (simp add: command_words_def)

lemma panel_row_sent:
  assumes "through m"
  shows "triple (sent ws) (draw_row h m y ps) (\<lambda>_. sent (ws @ panel_row y ps))"
proof -
  have w: "of_nat (6 + SUBLCD_WIDTH - 1) = (249 :: u16)" by (simp add: SUBLCD_WIDTH_def)
  have last: "triple (sent ws) (lcd_command h m 0x22 \<bind> (\<lambda>_. lcd_pixels h m ps \<bind> (\<lambda>_. io_barrier)))
      (\<lambda>_. sent (ws @ [(False, 0x22)] @ map (Pair True) ps))" for ws
    using triple_bind [OF panel_command_sent [OF assms] triple_bind [OF panel_pixels_sent [OF assms] sent_quiet(3) [unfolded keeps_def]]]
    by simp
  note cs = sent_two [OF assms, of _ "0x21"] sent_two [OF assms, of _ "0x52"] sent_two [OF assms, of _ "0x53"]
    sent_two [OF assms, of _ "0x20"] sent_two [OF assms, of _ "0x50"] sent_two [OF assms, of _ "0x51"]
  show ?thesis
    unfolding draw_row_def lcd_set_row_def w panel_row_def
    apply (simp only: bind_assoc)
    apply (intro cs [simplified])
    apply (rule triple_post [OF last])
    apply (simp only: append_assoc)
    done
qed

lemma sent_pattern:
  assumes "through m"
  shows "triple (sent ws) (draw_pattern h m k ys) (\<lambda>_. sent (ws @ concat (map (\<lambda>y. panel_row y (pattern_pixels k y)) ys)))"
proof (induction ys arbitrary: ws)
  case (Cons y ys)
  show ?case
    unfolding draw_pattern.simps
    by (rule triple_bind [OF panel_row_sent [OF assms]], rule triple_keeps [OF sent_quiet(1)], rule triple_post [OF Cons.IH]) simp
qed (simp add: triple_def)

lemma sent_test: "through m \<Longrightarrow> triple (sent []) (draw_test h m opts) (\<lambda>_. sent (test_words opts))"
proof -
  assume m: "through m"
  have last: "keeps (sent ws) (do { v \<leftarrow> mmio_read8 h (prdr_at m); mmio_write8 h (prdr_at m) (v OR SUBLCD_DC); io_barrier })" for ws
    using m by (auto intro!: keepsI simp: run_diag io_barrier_def sent_def panel_def through_def dc_high_def SUBLCD_DC_def
        SUBLCD_PRDR_PHYS_def EXWORD_SUBLCD_PRDR_def bit_simps)
  have "triple (sent []) (if kind opts = TEST_ROW then draw_row h m (row opts) (replicate SUBLCD_WIDTH (color opts))
      else draw_pattern h m (kind opts) [0..<SUBLCD_HEIGHT]) (\<lambda>_. sent (test_words opts))"
    using panel_row_sent [OF m, of "[]" h] sent_pattern [OF m, of "[]" h] by (simp add: test_words_def)
  then show ?thesis
    unfolding draw_test_def by (rule triple_bind) (rule last [unfolded keeps_def])
qed

section \<open>Mapped pages\<close>

lemma split_mask: "(p AND NOT k) + (p AND k) = p" for p k :: u32
  by (subst disjunctive_add) (auto simp: bit_simps intro!: bit_word_eqI)

definition opened :: "bool \<Rightarrow> mmio_maps \<Rightarrow> bool" where
  "opened writable m \<longleftrightarrow> mem_fd m \<ge> 0 \<and> prdr_page m \<noteq> MAP_FAILED \<and> prdr_at m = SUBLCD_PRDR_PHYS \<and>
     (if writable then data_page m \<noteq> MAP_FAILED \<and> data_at m = SUBLCD_DATA_PHYS else data_page m = MAP_FAILED)"

text \<open>A register is read only through a mapping of its page, and the only register read is the port;
  writing it also needs everything else.\<close>

definition allowed :: "access \<Rightarrow> resource set \<Rightarrow> bool" where
  "allowed a R \<longleftrightarrow>
     (\<exists>v b z t. Mapping v b z t \<in> R \<and> address a AND NOT (z - 1) = b \<and> (is_write a \<longrightarrow> t)) \<and>
     (if is_write a then address a \<in> {SUBLCD_PRDR_PHYS, SUBLCD_DATA_PHYS} \<and> {Locked, Quiet, Masked, Absent} \<subseteq> R
      else address a = SUBLCD_PRDR_PHYS)"

abbreviation holding :: "resource set \<Rightarrow> 'w diag \<Rightarrow> bool" where
  "holding \<equiv> accounted allowed"

lemma holding_complain: "keeps (holding R) (lcd_complain t)"
  unfolding lcd_complain_def by (rule accounted_say)

lemmas holding_say = accounted_say(1) holding_complain accounted_say(2)

lemmas lcd_rules = holding_say accounted_neutral keeps_gets keeps_ret keeps_if keeps_onlyif keeps_let keeps_case_prod keeps_bind

lemma parameter_mode_known: "parameter_mode t \<noteq> 0"
  by (simp add: parameter_mode_def split: prod.split)

definition checked :: "bool \<Rightarrow> resource set \<Rightarrow> resource set" where
  "checked absent R = (if absent then insert Absent R else R - {Absent})"

lemma holding_mode: "Parameter \<notin> R \<Longrightarrow> triple (holding R) (subpad_mode h) (\<lambda>m. holding (checked (m = 0) R))"
  by (rule tripleI) (auto simp: subpad_mode_def run_diag accounted_def parameter_mode_known checked_def SUBPAD_ABSENT_def
      split: if_splits)

lemma holding_devmem: "keeps (holding R) (check_devmem h v)"
  unfolding check_devmem_def by (rule lcd_rules | simp)+

lemma holding_info: "settled R \<Longrightarrow> triple (holding R) (show_info h) (\<lambda>_ s. \<exists>a. holding (checked a R) s)"
proof -
  assume R: "settled R"
  have fb: "keeps (holding S) (report_framebuffer h)" if "settled S" for S
  proof -
    have op: "effect (Called (Open_fb0 False) f) S = (if f < 0 then S else insert Framebuffer S)" for f by simp
    have cl: "effect (Called Close_fb0 r) (insert Framebuffer S) = S" for r using that by (auto simp: settled_def)
    have c: "triple (holding (insert Framebuffer S)) (do { _ \<leftarrow> syscall h Close_fb0; ret () }) (\<lambda>_. holding S)"
      by (rule triple_bind [OF accounted_call], rule triple_ret) (simp only: cl)
    show ?thesis
      unfolding report_framebuffer_def keeps_def
      apply (rule triple_bind [OF accounted_call], unfold op, rule triple_if)
       apply (simp, rule holding_say(1) [unfolded keeps_def])
      apply (simp only: if_False, rule triple_keeps, rule accounted_neutral, simp)
      apply (rule triple_keeps [OF keeps_gets], rule triple_keeps [OF _ c])
      apply (rule keeps_if holding_say)+
      done
  qed
  have con: "keeps (holding S) (report_console h)" for S
    unfolding report_console_def by (rule lcd_rules | simp)+
  have S: "settled (checked a R)" for a using R by (simp add: checked_def)
  have rest: "triple (holding (checked a R)) n (\<lambda>_ s. \<exists>a. holding (checked a R) s)" if "keeps (holding (checked a R)) n" for n a
    using that unfolding keeps_def by (rule triple_post) blast
  show ?thesis
    unfolding show_info_def
    apply (rule triple_bind [OF holding_mode], use R in \<open>simp add: settled_free\<close>, rule rest)
    apply (rule fb [OF S] con holding_devmem holding_say keeps_ret keeps_bind)+
    done
qed

section \<open>Opening and closing\<close>

definition owned :: "bool \<Rightarrow> mmio_maps \<Rightarrow> resource set" where
  "owned t m = (if mem_fd m \<ge> 0 then {Devmem} else {}) \<union>
     (if prdr_page m \<noteq> MAP_FAILED then {Mapping (prdr_page m) (SUBLCD_PRDR_PHYS AND NOT (page_mask m)) (page_size m) t} else {}) \<union>
     (if data_page m \<noteq> MAP_FAILED then {Mapping (data_page m) (SUBLCD_DATA_PHYS AND NOT (page_mask m)) (page_size m) t} else {})"

lemma lcd_maps_closed:
  assumes "settled R"
  shows "triple (holding (R \<union> owned t m)) (close_maps h m) (\<lambda>_. holding R)"
proof -
  let ?d = "if data_page m \<noteq> MAP_FAILED then {x \<in> owned t m. \<not> mapped_at (data_page m) x} else owned t m"
  let ?p = "if prdr_page m \<noteq> MAP_FAILED then {x \<in> ?d. \<not> mapped_at (prdr_page m) x} else ?d"
  have none: "(if mem_fd m \<ge> 0 then ?p - {Devmem} else ?p) = {}"
    by (auto simp: owned_def)
  show ?thesis
    unfolding close_maps_def
    by (rule triple_bind [OF accounted_unmap [OF assms]], rule triple_bind [OF accounted_unmap [OF assms]],
        rule triple_bind [OF accounted_close [OF assms]], rule triple_ret, simp only: none Un_empty_right)
qed

lemma page_mask_simps [simp]:
  "page_mask (m\<lparr>mem_fd := f\<rparr>) = page_mask m" "page_mask (m\<lparr>prdr_page := v\<rparr>) = page_mask m" "page_mask (m\<lparr>data_page := v\<rparr>) = page_mask m"
  "page_mask (m\<lparr>prdr := v\<rparr>) = page_mask m" "page_mask (m\<lparr>data_port := v\<rparr>) = page_mask m"
  by (simp_all add: page_mask_def)

definition kept :: "bool \<Rightarrow> resource set \<Rightarrow> bool \<times> mmio_maps \<Rightarrow> 'w diag \<Rightarrow> bool" where
  "kept t R p s \<longleftrightarrow> (case p of (ok, m) \<Rightarrow> if ok then opened t m \<and> holding (R \<union> owned t m) s else holding R s)"

lemma given_up:
  "settled R \<Longrightarrow> triple (holding (R \<union> owned t m)) (do { lcd_complain c; m' \<leftarrow> close_maps h m; ret (False, m') }) (kept t R)"
  by (rule triple_keeps [OF holding_say(2)], rule triple_bind [OF lcd_maps_closed], assumption, rule triple_ret) (simp add: kept_def)

lemma data_mapped:
  assumes "settled R" and "opened False m" and "R' = R \<union> owned True m"
  shows "triple (holding R') (map_data_port h m) (kept True R)"
proof -
  let ?b = "SUBLCD_DATA_PHYS AND NOT (page_mask m)"
  have own: "effect (Called (Mmap ?b (page_size m) True) r) R' = R \<union> owned True (m\<lparr>data_page := page_of r\<rparr>)" for r
    using assms(2,3) by (auto simp: owned_def opened_def)
  have own': "owned True (m\<lparr>data_page := v, data_port := w\<rparr>) = owned True (m\<lparr>data_page := v\<rparr>)" for v w
    by (simp add: owned_def)
  have at: "prdr_at (m\<lparr>data_page := v, data_port := w\<rparr>) = prdr_at m" for v w
    by (simp add: prdr_at_def)
  have good: "opened True (m\<lparr>data_page := v, data_port := v + (SUBLCD_DATA_PHYS AND page_mask m)\<rparr>)" if "v \<noteq> MAP_FAILED" for v
    using assms(2) that at by (simp add: opened_def data_at_def split_mask)
  show ?thesis
    unfolding map_data_port_def Let_def
    apply (rule triple_bind [OF accounted_call], unfold own)
    apply (rule triple_if, rule given_up [OF assms(1)])
    apply (rule triple_if)
     apply (rule triple_pre [OF given_up [OF assms(1)]], simp add: own')
    apply (rule triple_ret, simp add: kept_def own' good)
    done
qed

lemma lcd_maps_opened:
  assumes "settled R"
  shows "triple (holding R) (open_maps h t) (kept t R)"
proof -
  let ?m = "\<lambda>z f. maps_failed\<lparr>page_size := word_of_int z, mem_fd := f\<rparr>"
  have start: "owned t (?m z f) = (if f \<ge> 0 then {Devmem} else {})" for z f
    by (simp add: owned_def maps_failed_def)
  have dm: "triple (holding R) (syscall h (Open_devmem t)) (\<lambda>f. holding (R \<union> owned t (?m z f)))" for z
    by (rule triple_post [OF accounted_call]) (auto simp: start)
  have own: "effect (Called (Mmap (SUBLCD_PRDR_PHYS AND NOT (page_mask (?m z f))) (word_of_int z) t) r) (R \<union> owned t (?m z f)) =
      R \<union> owned t ((?m z f)\<lparr>prdr_page := page_of r\<rparr>)" for z f r
    by (auto simp: owned_def maps_failed_def page_mask_def)
  have own': "owned b (m\<lparr>prdr := w\<rparr>) = owned b m" for b m w
    by (simp add: owned_def)
  have good: "opened False ((?m z f)\<lparr>prdr_page := v, prdr := v + (SUBLCD_PRDR_PHYS AND page_mask (?m z f))\<rparr>)"
    if "v \<noteq> MAP_FAILED" "f \<ge> 0" for z f v
    using that split_mask [of SUBLCD_PRDR_PHYS] by (simp add: opened_def prdr_at_def maps_failed_def page_mask_def)
  have out: "triple (holding R) (do { lcd_complain c; ret (False, m) }) (kept t R)" for c m
    by (rule triple_keeps [OF holding_say(2)], rule triple_ret) (simp add: kept_def)
  have none: "owned t (?m z f) = {}" if "f < 0" for z f using that by (simp add: start)
  have size: "page_size ((?m z f)) = word_of_int z" for z f by simp
  have prdr: "triple (holding (R \<union> owned t (?m z f)))
      (do { r \<leftarrow> syscall h (Mmap (SUBLCD_PRDR_PHYS AND NOT (page_mask (?m z f))) (page_size (?m z f)) t);
         if prdr_page ((?m z f)\<lparr>prdr_page := page_of r\<rparr>) = MAP_FAILED
         then do { lcd_complain (''cannot map PRDR: '' @ strerror h (- r)); m \<leftarrow> close_maps h ((?m z f)\<lparr>prdr_page := page_of r\<rparr>); ret (False, m) }
         else if \<not> t then ret (True, (?m z f)\<lparr>prdr_page := page_of r, prdr := prdr_page ((?m z f)\<lparr>prdr_page := page_of r\<rparr>) +
             (SUBLCD_PRDR_PHYS AND page_mask ((?m z f)\<lparr>prdr_page := page_of r\<rparr>))\<rparr>)
         else map_data_port h ((?m z f)\<lparr>prdr_page := page_of r, prdr := prdr_page ((?m z f)\<lparr>prdr_page := page_of r\<rparr>) +
             (SUBLCD_PRDR_PHYS AND page_mask ((?m z f)\<lparr>prdr_page := page_of r\<rparr>))\<rparr>) }) (kept t R)" if f: "f \<ge> 0" for z f
    apply (rule triple_bind [OF accounted_call], unfold size own)
    apply (rule triple_if, rule given_up [OF assms])
    apply (rule triple_if, rule triple_ret)
     apply (use good [OF _ f, of _ z] own' in \<open>simp add: kept_def\<close>)
    apply (simp only: not_not)
    apply (rule data_mapped [OF assms])
     apply (use good [OF _ f, of _ z] in simp)
    apply (simp only: own')
    done
  show ?thesis
    unfolding open_maps_def Let_def
    apply (rule triple_keeps, rule accounted_neutral, simp)
    apply (rule triple_if, rule out)
    apply (rule triple_keeps [OF holding_devmem], rule triple_if, rule out)
    apply (rule triple_bind [OF dm], rule triple_if)
     apply (simp only: none Un_empty_right, rule out)
    apply (rule prdr, simp)
    done
qed

section \<open>Drawing with everything held\<close>

definition ready :: "resource set \<Rightarrow> mmio_maps \<Rightarrow> bool" where
  "ready R m \<longleftrightarrow> opened True m \<and> owned True m \<subseteq> R \<and> {Locked, Quiet, Masked, Absent} \<subseteq> R"

lemma ready_allowed:
  assumes "ready R m"
  shows "address a = prdr_at m \<Longrightarrow> allowed a R" "address a = data_at m \<Longrightarrow> is_write a \<Longrightarrow> allowed a R"
proof -
  have m: "Mapping (prdr_page m) (SUBLCD_PRDR_PHYS AND NOT (page_mask m)) (page_size m) True \<in> R"
    "Mapping (data_page m) (SUBLCD_DATA_PHYS AND NOT (page_mask m)) (page_size m) True \<in> R"
    and at: "prdr_at m = SUBLCD_PRDR_PHYS" "data_at m = SUBLCD_DATA_PHYS" and all: "{Locked, Quiet, Masked, Absent} \<subseteq> R"
    using assms by (auto simp: ready_def opened_def owned_def)
  show "address a = prdr_at m \<Longrightarrow> allowed a R" "address a = data_at m \<Longrightarrow> is_write a \<Longrightarrow> allowed a R"
    unfolding allowed_def using m all at by (auto simp: page_mask_def)
qed

lemma holding_access:
  assumes "ready R m"
  shows "keeps (holding R) (mmio_read8 h (prdr_at m))" "keeps (holding R) (mmio_write8 h (prdr_at m) v)"
    "keeps (holding R) (mmio_write16 h (data_at m) x)"
  using ready_allowed [OF assms] by (auto intro!: accounted_access)

lemma holding_row: "ready R m \<Longrightarrow> keeps (holding R) (draw_row h m y ps)"
proof -
  assume m: "ready R m"
  have "keeps (holding R) (lcd_pixels h m ps)"
    by (induction ps) (simp_all add: lcd_data_def keeps_ret keeps_bind holding_access [OF m])
  then show ?thesis
    unfolding draw_row_def lcd_set_row_def lcd_command_def lcd_data_def by - (rule holding_access [OF m] holding_say keeps_bind | assumption)+
qed

lemma holding_test: "ready R m \<Longrightarrow> keeps (holding R) (draw_test h m opts)"
proof -
  assume m: "ready R m"
  have "keeps (holding R) (draw_pattern h m k ys)" for k ys
    by (induction ys) (simp_all, (rule holding_row [OF m] lcd_rules | assumption | simp)+)
  then show ?thesis
    unfolding draw_test_def by - (rule holding_row [OF m] holding_access [OF m] holding_say keeps_if keeps_bind | assumption)+
qed

section \<open>The console\<close>

lemma holding_yields: "keeps (holding R) (yields h n)"
  by (induction n) (simp_all, (rule lcd_rules | assumption | simp)+)

definition silenced :: "resource set \<Rightarrow> bool \<Rightarrow> bool \<Rightarrow> int \<Rightarrow> 'w diag \<Rightarrow> bool" where
  "silenced R ok quiet mode s \<longleftrightarrow>
     (quiet \<longrightarrow> mode = KD_TEXT) \<and> (holding (insert Quiet R) s \<and> quiet \<or> holding R s \<and> \<not> ok)"

lemma drained:
  assumes "Framebuffer \<notin> R" and "Quiet \<notin> R"
  shows "triple (holding (insert Quiet R)) (drain_framebuffer h KD_TEXT) (\<lambda>(ok, quiet). silenced R ok quiet KD_TEXT)"
proof -
  let ?Q = "insert Quiet R"
  have op: "effect (Called (Open_fb0 True) f) ?Q = (if f < 0 then ?Q else insert Framebuffer ?Q)" for f by simp
  have cl: "effect (Called Close_fb0 r) (if f < 0 then ?Q else insert Framebuffer ?Q) = ?Q" for f :: int and r
    using assms by auto
  have steps: "keeps (holding F) (if f < 0 then ret (Some (- f)) else first_failure [fails h Fb_fscreeninfo, fails h Fb_vscreeninfo,
      unless h (\<lambda>w. fit_screen (screen h w)), fails h Fb_pan])" for F f
    by (rule keeps_if, rule keeps_ret, rule keeps_first) (simp add: accounted_fails accounted_unless)
  have good: "triple (holding (if f < 0 then ?Q else insert Framebuffer ?Q)) (do { _ \<leftarrow> syscall h Close_fb0; yields h 256; ret (True, True) })
      (\<lambda>(ok, quiet). silenced R ok quiet KD_TEXT)" for f :: int
    by (rule triple_bind [OF accounted_call], unfold cl, rule triple_keeps [OF holding_yields], rule triple_ret) (simp add: silenced_def)
  have shut: "triple (holding (if f < 0 then ?Q else insert Framebuffer ?Q)) (onlyif (f \<ge> 0) (do { _ \<leftarrow> syscall h Close_fb0; ret () }))
      (\<lambda>_. holding ?Q)" for f :: int
    unfolding onlyif_def
    by (rule triple_if, rule triple_bind [OF accounted_call], unfold cl, rule triple_ret, assumption, rule triple_ret) simp
  have undone: "triple (holding ?Q) (syscall h (Kdsetmode KD_TEXT)) (\<lambda>r s. silenced R False (r \<noteq> 0) KD_TEXT s)"
    by (rule triple_post [OF accounted_call]) (use assms in \<open>auto simp: silenced_def split: if_splits\<close>)
  have more: "keeps (\<lambda>s. silenced R False q KD_TEXT s) (lcd_complain t)" for q t
    by (auto intro!: keepsI simp: silenced_def dest: keepsD [OF holding_say(2)])
  have bad: "triple (holding (if f < 0 then ?Q else insert Framebuffer ?Q)) (do {
         onlyif (f \<ge> 0) (do { _ \<leftarrow> syscall h Close_fb0; ret () });
         r \<leftarrow> syscall h (Kdsetmode KD_TEXT);
         onlyif (r \<noteq> 0) (lcd_complain (''initial text-mode restore failed: '' @ strerror h (- r) @ ''; retrying during cleanup''));
         lcd_complain (''cannot drain the main framebuffer: '' @ strerror h e);
         ret (False, r \<noteq> 0) }) (\<lambda>(ok, quiet). silenced R ok quiet KD_TEXT)" for f :: int and e
    apply (rule triple_bind [OF shut], rule triple_bind [OF undone])
    apply (rule triple_keeps, rule keeps_onlyif, rule more)
    apply (rule triple_keeps [OF more], rule triple_ret, simp)
    done
  show ?thesis
    unfolding drain_framebuffer_def Let_def
    apply (rule triple_bind [OF accounted_call], unfold op, rule triple_keeps [OF steps])
    subgoal for f e by (cases e) (simp_all only: option.case, rule good, rule bad)
    done
qed

lemma console_entered:
  assumes "Framebuffer \<notin> R" and "Quiet \<notin> R"
  shows "triple (holding R) (enter_quiet_console h) (\<lambda>(ok, mode, quiet). silenced R ok quiet mode)"
proof -
  have out: "triple (holding R) (do { lcd_complain c; ret (False, v, False) }) (\<lambda>(ok, mode, quiet). silenced R ok quiet mode)" for c v
    by (rule triple_keeps [OF holding_say(2)], rule triple_ret) (simp add: silenced_def)
  have gr: "effect (Called (Kdsetmode KD_GRAPHICS) k) R = (if k < 0 then R else insert Quiet R)" for k
    by (simp add: KD_GRAPHICS_def KD_TEXT_def)
  have drain: "triple (holding (insert Quiet R)) (do { (ok, quieted) \<leftarrow> drain_framebuffer h v; ret (ok, v, quieted) })
      (\<lambda>(ok, mode, quiet). silenced R ok quiet mode)" if "\<not> v \<noteq> KD_TEXT" for v
  proof -
    from that have "v = KD_TEXT" by simp
    then show ?thesis
      by (simp only:) (rule triple_bind [OF drained [OF assms]], simp add: triple_def case_prod_beta)
  qed
  have mode: "keeps (holding R) (if t = (0 :: int) then ret (- 1) else syscall h Kdgetmode)" for t
    by (rule keeps_if keeps_ret accounted_neutral | simp)+
  show ?thesis
    unfolding enter_quiet_console_def
    apply (rule triple_keeps, rule accounted_neutral, simp)
    apply (rule triple_keeps [OF mode])
    apply (rule triple_if, rule out)
    apply (rule triple_keeps [OF keeps_gets], rule triple_if, rule out)
    apply (rule triple_keeps, rule keeps_first, simp add: accounted_fails accounted_unless)
    apply (rule triple_if, rule out)
    apply (rule triple_bind [OF accounted_call], unfold gr, rule triple_if)
     apply (simp only: if_True, rule out)
    apply (simp only: if_False, rule drain, assumption)
    done
qed

section \<open>The whole program\<close>

definition attempted :: "mmio_maps \<Rightarrow> attempt \<Rightarrow> 'w diag \<Rightarrow> bool" where
  "attempted m a s \<longleftrightarrow> (\<exists>R. settled R \<and> holding (R \<union> owned True m) s \<and>
     (Quiet \<in> R \<longrightarrow> at_quiet a) \<and> (at_quiet a \<longrightarrow> at_saved a = KD_TEXT \<and> at_result a = 1))"

lemma owned_free [simp]: "Parameter \<notin> owned t m" "Framebuffer \<notin> owned t m" "Quiet \<notin> owned t m" "Absent \<notin> owned t m" "Masked \<notin> owned t m"
  by (simp_all add: owned_def)

lemma attemptedI:
  "settled R \<Longrightarrow> holding (R \<union> owned True m) s \<Longrightarrow> (Quiet \<in> R \<Longrightarrow> at_quiet a) \<Longrightarrow> (at_quiet a \<Longrightarrow> at_saved a = KD_TEXT \<and> at_result a = 1) \<Longrightarrow>
   attempted m a s"
  unfolding attempted_def by blast

lemma signals_blocked:
  "triple (holding R) (block_signals h) (\<lambda>ok. holding (if ok then insert Masked R else R))"
  unfolding block_signals_def by (rule accounted_block)

lemma console_left:
  "triple (holding R) (leave_quiet_console h KD_TEXT) (\<lambda>ok. holding (if ok then R - {Quiet} else R))"
proof -
  have e: "effect (Called (Kdsetmode KD_TEXT) r) R = (if r < 0 then R else R - {Quiet})" for r by simp
  show ?thesis
    unfolding leave_quiet_console_def
    apply (rule triple_bind [OF accounted_call], unfold e, rule triple_if)
     apply (rule triple_keeps [OF holding_say(2)], rule triple_ret, simp)
    apply (rule triple_ret, simp)
    done
qed

lemma write_attempted:
  assumes "opened True m" and "settled R" and "Quiet \<notin> R" and "Locked \<in> R"
  shows "triple (holding (R \<union> owned True m)) (guarded_write h m opts) (attempted m)"
proof -
  let ?M = "insert Masked (R \<union> owned True m)"
  have out: "triple (holding (R \<union> owned True m)) (do { lcd_complain c; ret attempt_start }) (attempted m)" for c
    by (rule triple_keeps [OF holding_say(2)], rule triple_ret, erule attemptedI [OF assms(2)]) (use assms(3) in \<open>simp_all add: attempt_start_def\<close>)
  have free: "Framebuffer \<notin> ?M" "Quiet \<notin> ?M" using assms settled_free [OF assms(2)] by simp_all
  have free': "Parameter \<notin> insert Quiet ?M" using settled_free [OF assms(2)] by simp
  have sil: "attempted m a s" if "silenced ?M False (at_quiet a) (at_saved a) s" "at_result a = 1" for a s
    using that unfolding silenced_def
    by (auto intro: attemptedI [of "insert Quiet (insert Masked R)"] attemptedI [of "insert Masked R"] simp: assms(2,3))
  have drawn: "ready (insert Absent (insert Quiet ?M)) m"
    using assms(1,4) by (auto simp: ready_def)
  have gone: "insert Absent (insert Quiet ?M) - {Quiet} = insert Absent (insert Masked R) \<union> owned True m"
    "insert Absent (insert Quiet ?M) = insert Absent (insert Quiet (insert Masked R)) \<union> owned True m"
    using assms(3) by auto
  have left: "triple (holding (insert Absent (insert Quiet ?M))) (do { left \<leftarrow> leave_quiet_console h KD_TEXT;
      ret (if left then a\<lparr>at_result := 0, at_quiet := False\<rparr> else a) }) (attempted m)"
    if "at_quiet a" "at_saved a = KD_TEXT" "at_result a = 1" for a
    apply (rule triple_bind [OF console_left], rule triple_ret)
    subgoal for ok s
      using gone(1) that assms(2,3) attemptedI [of "insert Absent (insert Masked R)" m s "a\<lparr>at_result := 0, at_quiet := False\<rparr>"]
        attemptedI [of "insert Absent (insert Quiet (insert Masked R))" m s a]
      by (simp split: if_splits)
    done
  have late: "triple (holding (checked c (insert Quiet ?M))) (ret a) (attempted m)"
    if "at_quiet a" "at_saved a = KD_TEXT" "at_result a = 1" for a c
  proof -
    have "checked c (insert Quiet ?M) = checked c (insert Quiet (insert Masked R)) \<union> owned True m" by (auto simp: checked_def)
    then show ?thesis
      using that assms(2) by (auto intro!: triple_ret attemptedI [of "checked c (insert Quiet (insert Masked R))"] simp: checked_def)
  qed
  have work: "triple (holding (insert Quiet ?M)) (do {
       mode \<leftarrow> subpad_mode h;
       if mode \<noteq> 0 then ret (a\<lparr>at_deferred := True\<rparr>)
       else do {
         draw_test h m opts;
         left \<leftarrow> leave_quiet_console h KD_TEXT;
         ret (if left then a\<lparr>at_result := 0, at_quiet := False\<rparr> else a) } }) (attempted m)"
    if "at_quiet a" "at_saved a = KD_TEXT" "at_result a = 1" for a
    apply (rule triple_bind [OF holding_mode [OF free']], rule triple_if)
     apply (rule late, simp_all add: that)
    apply (simp only: checked_def if_True, rule triple_keeps [OF holding_test [OF drawn]], rule left [OF that])
    done
  let ?a = "\<lambda>mode quiet. attempt_start\<lparr>at_blocked := True, at_saved := mode, at_quiet := quiet\<rparr>"
  have go: "triple (silenced ?M ok quiet mode) (if \<not> ok then ret (?a mode quiet)
     else do {
       md \<leftarrow> subpad_mode h;
       if md \<noteq> 0 then ret ((?a mode quiet)\<lparr>at_deferred := True\<rparr>)
       else do {
         draw_test h m opts;
         left \<leftarrow> leave_quiet_console h mode;
         ret (if left then (?a mode quiet)\<lparr>at_result := 0, at_quiet := False\<rparr> else ?a mode quiet) } }) (attempted m)" for ok quiet mode
  proof (cases "ok \<and> quiet \<and> mode = KD_TEXT")
    case True
    then have e: "ok = True" "quiet = True" "mode = KD_TEXT" by simp_all
    have "silenced ?M True True KD_TEXT s \<Longrightarrow> holding (insert Quiet ?M) s" for s :: "'a diag" by (simp add: silenced_def)
    from triple_pre [OF work [of "?a KD_TEXT True"] this] show ?thesis
      unfolding e by (simp add: attempt_start_def)
  next
    case False
    then show ?thesis
      by (cases ok) (auto intro!: triple_ret sil simp: attempt_start_def, auto simp: triple_def silenced_def)
  qed
  have said: "keeps (holding S) (announce opts)" for S
    unfolding announce_def by (rule holding_say keeps_if keeps_bind)+
  show ?thesis
    unfolding guarded_write_def Let_def
    apply (rule triple_keeps [OF said], rule triple_keeps, rule accounted_neutral, simp)
    apply (rule triple_if, rule out)
    apply (rule triple_bind [OF signals_blocked], rule triple_if)
     apply (simp only: if_False, rule out)
    apply (simp only: not_not if_True)
    apply (rule triple_bind [OF console_entered [OF free]])
    apply (simp only: case_prod_beta)
    apply (rule triple_pre [OF go], simp)
    done
qed

lemma lcd_lock_taken:
  assumes "settled R" and "Lock_file \<notin> R" and "Locked \<notin> R"
  shows "triple (holding R) (acquire_lock h) (\<lambda>f. holding (if f < 0 then R else insert Locked (insert Lock_file R)))"
  unfolding acquire_lock_def by (rule accounted_lock [OF assms]) (rule holding_complain)+

definition restored :: "resource set \<Rightarrow> attempt \<Rightarrow> 'w diag \<Rightarrow> bool" where
  "restored S a s \<longleftrightarrow> (\<exists>R. (settled R \<and> (Quiet \<in> R \<longrightarrow> at_result a = 1)) \<and> holding (R \<union> S) s)"

lemma restoredI: "settled R \<Longrightarrow> (Quiet \<in> R \<Longrightarrow> at_result a = 1) \<Longrightarrow> holding (R \<union> S) s \<Longrightarrow> restored S a s"
  unfolding restored_def by blast

lemma quiet_undone:
  "triple (attempted m a) (onlyif (at_quiet a) (do { _ \<leftarrow> leave_quiet_console h (at_saved a); ret () })) (\<lambda>_. restored (owned True m) a)"
proof -
  have "triple (holding (R \<union> owned True m)) (onlyif (at_quiet a) (do { _ \<leftarrow> leave_quiet_console h (at_saved a); ret () }))
      (\<lambda>_. restored (owned True m) a)"
    if R: "settled R" "Quiet \<in> R \<longrightarrow> at_quiet a" "at_quiet a \<longrightarrow> at_saved a = KD_TEXT \<and> at_result a = 1" for R
  proof (cases "at_quiet a")
    case True
    then have e: "at_saved a = KD_TEXT" "at_result a = 1" using R(3) by simp_all
    have d: "(R \<union> owned True m) - {Quiet} = (R - {Quiet}) \<union> owned True m" by auto
    show ?thesis
      unfolding onlyif_def e
      apply (simp only: True if_True, rule triple_bind [OF console_left], rule triple_ret)
      subgoal for ok s
        using restoredI [OF R(1), of a "owned True m" s] restoredI [of "R - {Quiet}" a "owned True m" s] R(1) e d
        by (simp split: if_splits)
      done
  next
    case False
    then show ?thesis using R restoredI [OF R(1)] by (auto simp: onlyif_def intro!: triple_ret)
  qed
  then show ?thesis
    by (rule triple_ex [where H = "\<lambda>R. holding (R \<union> owned True m)" and
        c = "\<lambda>R. settled R \<and> (Quiet \<in> R \<longrightarrow> at_quiet a) \<and> (at_quiet a \<longrightarrow> at_saved a = KD_TEXT \<and> at_result a = 1)", rotated])
      (auto simp: attempted_def)
qed

definition ended :: "int \<Rightarrow> 'w diag \<Rightarrow> bool" where
  "ended r s \<longleftrightarrow> (\<exists>R \<subseteq> {Quiet, Masked, Absent}. holding R s \<and> (Quiet \<in> R \<longrightarrow> r = 1))"

lemma maps_returned:
  "triple (restored (owned True m) a) (do { m' \<leftarrow> close_maps h m; ret a }) (\<lambda>b s. restored {} b s \<and> b = a)"
proof -
  have "triple (holding (R \<union> owned True m)) (do { m' \<leftarrow> close_maps h m; ret a }) (\<lambda>b s. restored {} b s \<and> b = a)"
    if "settled R" "Quiet \<in> R \<longrightarrow> at_result a = 1" for R
    using that by (intro triple_bind [OF lcd_maps_closed] triple_ret) (auto intro: restoredI)
  then show ?thesis
    by (rule triple_ex [where H = "\<lambda>R. holding (R \<union> owned True m)" and c = "\<lambda>R. settled R \<and> (Quiet \<in> R \<longrightarrow> at_result a = 1)", rotated])
      (auto simp: restored_def)
qed

definition within :: "resource set \<Rightarrow> 'w diag \<Rightarrow> bool" where
  "within S s \<longleftrightarrow> (\<exists>T \<subseteq> S. holding T s)"

lemma within_say: "keeps (within S) (say out t)" "keeps (within S) (lcd_complain t)"
  unfolding within_def by (rule keepsI, blast dest: keepsD [OF holding_say(1)] keepsD [OF holding_say(2)])+

lemma all_returned:
  "triple (restored {} a) (do {
     _ \<leftarrow> syscall h Close_lock;
     onlyif (at_blocked a) (do { _ \<leftarrow> syscall h Sigprocmask_setmask; ret () });
     onlyif (at_deferred a) (lcd_complain t);
     onlyif (at_result a = 0) (say Stdout u);
     ret (at_result a) }) ended"
proof -
  have mask: "triple (holding S) (onlyif c (do { _ \<leftarrow> syscall h Sigprocmask_setmask; ret () })) (\<lambda>_. within S)" for S c
    unfolding onlyif_def
    by (rule triple_if, rule triple_bind [OF accounted_call], rule triple_ret, auto simp: within_def split: if_splits intro!: triple_ret)
  have "triple (holding R) (do {
     _ \<leftarrow> syscall h Close_lock;
     onlyif (at_blocked a) (do { _ \<leftarrow> syscall h Sigprocmask_setmask; ret () });
     onlyif (at_deferred a) (lcd_complain t);
     onlyif (at_result a = 0) (say Stdout u);
     ret (at_result a) }) ended" if "settled R" "Quiet \<in> R \<longrightarrow> at_result a = 1" for R
    apply (rule triple_bind [OF accounted_call], rule triple_bind [OF mask])
    apply (rule triple_keeps, rule keeps_onlyif, rule within_say)
    apply (rule triple_keeps, rule keeps_onlyif, rule within_say)
    apply (rule triple_ret)
    apply (use that in \<open>simp add: within_def ended_def settled_def, blast\<close>)
    done
  then show ?thesis
    by (rule triple_ex [where H = holding and c = "\<lambda>R. settled R \<and> (Quiet \<in> R \<longrightarrow> at_result a = 1)", rotated])
      (auto simp: restored_def)
qed

lemma write_ended: "triple (holding {}) (perform_write h opts) ended"
proof -
  have out: "triple (holding R) (ret (1 :: int)) ended" if "R \<subseteq> {Absent}" for R
    using that by (intro triple_ret) (auto simp: ended_def)
  have out': "triple (holding R) (do { lcd_complain t; ret (1 :: int) }) ended" if "R \<subseteq> {Absent}" for R t
    by (rule triple_keeps [OF holding_say(2)], rule out [OF that])
  let ?L = "insert Locked (insert Lock_file {Absent})"
  have tries: "triple (kept True ?L p) (if \<not> fst p then ret attempt_start else do {
       a \<leftarrow> guarded_write h (snd p) opts;
       onlyif (at_quiet a) (do { _ \<leftarrow> leave_quiet_console h (at_saved a); ret () });
       m \<leftarrow> close_maps h (snd p);
       ret a }) (\<lambda>a s. restored {} a s)" for p
  proof (cases "fst p")
    case True
    have w: "triple (kept True ?L p) (guarded_write h (snd p) opts) (attempted (snd p))"
      using True write_attempted [of "snd p" ?L h opts] by (auto simp: kept_def triple_def case_prod_beta)
    show ?thesis
      using True
      by simp (rule triple_bind [OF w], rule triple_bind [OF quiet_undone], rule triple_post [OF maps_returned], simp)
  next
    case False
    then show ?thesis by (auto intro!: triple_ret restoredI [of ?L] simp: kept_def case_prod_beta attempt_start_def)
  qed
  show ?thesis
    unfolding perform_write_def
    apply (rule triple_keeps, rule accounted_neutral, simp)
    apply (rule triple_if, rule out', simp)
    apply (rule triple_bind [OF holding_mode], simp)
    apply (rule triple_if, rule out', simp add: checked_def)
    apply (rule triple_if, rule out', simp add: checked_def)
    apply (simp only: checked_def not_not refl if_True)
    apply (rule triple_bind [OF lcd_lock_taken], simp, simp, simp)
    apply (rule triple_if, simp only: if_True, rule out, simp)
    apply (simp only: if_False, rule triple_bind [OF lcd_maps_opened], simp)
    apply (simp only: case_prod_beta)
    apply (rule triple_bind [OF tries], rule all_returned)
    done
qed

lemma live_ended: "triple (holding {}) (show_live_info h) ended"
proof -
  have out: "ended r s" if "holding {} s" for r :: int and s :: "'a diag" using that by (auto simp: ended_def)
  have read: "keeps (holding (owned False m)) (mmio_read8 h (prdr_at m))" if "opened False m" for m
  proof -
    have "Mapping (prdr_page m) (SUBLCD_PRDR_PHYS AND NOT (page_mask m)) (page_size m) False \<in> owned False m"
      "prdr_at m = SUBLCD_PRDR_PHYS" using that by (auto simp: opened_def owned_def)
    then have "allowed (Rd8 (prdr_at m) v) (owned False m)" for v
      by (auto simp: allowed_def page_mask_def)
    then show ?thesis by (auto intro!: keepsI simp: run_diag accounted_def)
  qed
  have work: "triple (kept False {} p) (if \<not> fst p then ret (1 :: int) else do {
         v \<leftarrow> mmio_read8 h (prdr_at (snd p));
         io_barrier;
         m \<leftarrow> close_maps h (snd p);
         say Stdout (t v);
         say Stdout u;
         ret 0 }) ended" for p t u
  proof (cases "fst p")
    case True
    have "triple (holding (owned False (snd p))) (do {
         v \<leftarrow> mmio_read8 h (prdr_at (snd p));
         io_barrier;
         m \<leftarrow> close_maps h (snd p);
         say Stdout (t v);
         say Stdout u;
         ret 0 }) ended" if "opened False (snd p)"
      using lcd_maps_closed [of "{}" False "snd p" h]
      by - (rule triple_keeps [OF read [OF that]], rule triple_keeps [OF holding_say(3)], rule triple_bind, simp,
        rule triple_keeps [OF holding_say(1)], rule triple_keeps [OF holding_say(1)], rule triple_ret, erule out)
    then show ?thesis using True by (auto simp: kept_def case_prod_beta triple_def)
  next
    case False
    then show ?thesis by (auto intro!: triple_ret out simp: kept_def case_prod_beta)
  qed
  show ?thesis
    unfolding show_live_info_def
    apply (rule triple_keeps, rule accounted_neutral, simp)
    apply (rule triple_if, rule triple_keeps [OF holding_say(2)], rule triple_ret, erule out)
    apply (rule triple_bind [OF lcd_maps_opened], simp, simp only: case_prod_beta, rule work)
    done
qed

lemma main_ended: "triple (holding {}) (sublcd_main h args) ended"
proof -
  have out: "ended r s" if "holding {} s" for r :: int and s :: "'a diag" using that by (auto simp: ended_def)
  have mode: "ended r s" if "holding (checked a {}) s" for a and r :: int and s :: "'a diag"
    unfolding ended_def by (rule exI [of _ "checked a {}"]) (use that in \<open>simp add: checked_def\<close>)
  have info: "triple (holding {}) (show_info h) ended"
    by (rule triple_post [OF holding_info]) (simp, erule exE, erule mode)
  have use: "triple (holding {}) (do { (usage out :: ('a, unit) dg); ret r }) ended" for out and r :: int
    unfolding usage_def by (rule triple_keeps [OF holding_say(1)], rule triple_ret, erule out)
  show ?thesis
    unfolding sublcd_main_def
    by (cases "parse_options args"; simp only: parsed.case; (rule triple_if info use live_ended write_ended)+)
qed

section \<open>What it guarantees\<close>


lemma demo_mode: "gives (subpad_mode demo_host) 0"
  unfolding subpad_mode_def by (rule gives_bind [OF gives_call [OF refl]]) (simp add: SUBPAD_ABSENT_def gives_ret)

lemma demo_lock: "gives (acquire_lock demo_host) 3"
  unfolding acquire_lock_def
  by (rule gives_bind [OF gives_call [OF refl]], rule gives_if, simp, rule gives_bind [OF gives_call [OF refl]]) (simp add: gives_ret)

lemma demo_blocked: "gives (block_signals demo_host) True"
  unfolding block_signals_def by (rule gives_bind [OF gives_first]) (auto simp: gives_fails gives_ret)

lemma demo_drained: "gives (drain_framebuffer demo_host k) (True, True)"
proof -
  have u: "gives (unless demo_host (\<lambda>w. fit_screen (screen demo_host w))) None"
    by (rule gives_unless) (use gives_look(1) [of fit_screen] in \<open>simp add: fit_screen_def\<close>)
  show ?thesis
    unfolding drain_framebuffer_def
    apply (rule gives_bind [OF gives_call [OF refl]], rule gives_bind [where a = None])
     apply (rule gives_if, simp, rule gives_first, simp add: gives_fails u)
    apply (simp only: option.case, rule gives_bind [OF gives_call [OF refl]], rule gives_bind [OF gives_unit], rule gives_ret, simp)
    done
qed

lemma demo_entered: "gives (enter_quiet_console demo_host) (True, KD_TEXT, True)"
proof -
  have u: "gives (unless demo_host (\<lambda>w. tty_char (tty_of demo_host w) \<and> tty_major (tty_of demo_host w) = 4 \<and> tty_minor (tty_of demo_host w) \<noteq> 0)) None"
    "gives (unless demo_host (\<lambda>w. tty_minor (tty_of demo_host w) = active_vt demo_host w)) None"
    by (rule gives_unless, simp add: gives_def demo_host_def)+
  show ?thesis
    unfolding enter_quiet_console_def
    apply (rule gives_bind [OF gives_call [OF refl]], rule gives_bind [where a = 0], rule gives_if, simp, rule gives_call, simp)
    apply (rule gives_if, simp, rule gives_bind [OF gives_look(2)], rule gives_if, simp add: KD_TEXT_def)
    apply (rule gives_bind [OF gives_first], use u in \<open>simp add: gives_fails\<close>, rule gives_if, simp)
    apply (rule gives_bind [OF gives_call [OF refl]], rule gives_if, simp)
    apply (rule gives_bind [OF demo_drained], simp add: gives_ret KD_TEXT_def)
    done
qed

lemma demo_opened: "gives (open_maps demo_host True) (True, \<lparr>mem_fd = 4, page_size = 4096, prdr_page = 0x29580000, data_page = 0x29580000,
    prdr = 0x2958013c, data_port = 0x29580000\<rparr>)"
proof -
  have dm: "gives (check_devmem demo_host False) 0"
    unfolding check_devmem_def
    by (rule gives_bind [OF gives_call [OF refl]], rule gives_if, simp, rule gives_bind [OF gives_look(3)], rule gives_if, simp,
        rule gives_bind [OF gives_unit], rule gives_ret, simp)
  have p: "page_of 0x29580000 = 0x29580000" "(0x29580000 :: u32) \<noteq> MAP_FAILED" by (simp_all add: page_of_def MAP_FAILED_def)
  show ?thesis
    unfolding open_maps_def map_data_port_def Let_def
    apply (rule gives_bind [OF gives_call [OF refl]], rule gives_if, simp)
    apply (rule gives_bind [OF dm], rule gives_if, simp)
    apply (rule gives_bind [OF gives_call [OF refl]], rule gives_if, simp)
    apply (rule gives_bind [OF gives_call [OF refl]], rule gives_if, simp add: p)
    apply (rule gives_if, simp)
    apply (rule gives_bind [OF gives_call [OF refl]], rule gives_if, simp add: p)
    apply (rule gives_if, simp add: p page_mask_def SUBLCD_DATA_PHYS_def)
    apply (rule gives_ret, simp add: p page_mask_def SUBLCD_DATA_PHYS_def SUBLCD_PRDR_PHYS_def maps_failed_def)
    done
qed

lemma demo_succeeds: "fst (run_state (perform_write demo_host opts) s) = 0"
proof -
  have left: "gives (leave_quiet_console demo_host k) True" for k
    unfolding leave_quiet_console_def by (rule gives_bind [OF gives_call [OF refl]], rule gives_if, simp, rule gives_ret, simp)
  have written: "gives (guarded_write demo_host m opts) (attempt_start\<lparr>at_blocked := True, at_result := 0\<rparr>)" for m
    unfolding guarded_write_def Let_def
    apply (rule gives_bind [OF gives_unit], rule gives_bind [OF gives_call [OF refl]], rule gives_if, simp)
    apply (rule gives_bind [OF demo_blocked], rule gives_if, simp, rule gives_bind [OF demo_entered], simp only: prod.case, rule gives_if, simp)
    apply (rule gives_bind [OF demo_mode], rule gives_if, simp)
    apply (rule gives_bind [OF gives_unit], rule gives_bind [OF left], rule gives_ret, simp add: attempt_start_def)
    done
  have "gives (perform_write demo_host opts) 0"
    unfolding perform_write_def
    apply (rule gives_bind [OF gives_call [OF refl]], rule gives_if, simp)
    apply (rule gives_bind [OF demo_mode], rule gives_if, simp, rule gives_if, simp)
    apply (rule gives_bind [OF demo_lock], rule gives_if, simp, rule gives_bind [OF demo_opened], simp only: prod.case)
    apply (rule gives_bind [where a = "attempt_start\<lparr>at_blocked := True, at_result := 0\<rparr>"], rule gives_if, simp)
     apply (rule gives_bind [OF written], rule gives_bind [OF gives_unit], simp add: gives_def case_prod_beta)
    apply (rule gives_bind [OF gives_call [OF refl]], (rule gives_bind [OF gives_unit])+, rule gives_ret, simp)
    done
  then show ?thesis by (simp add: gives_def)
qed

lemma demo_parsed: "parse_options [''row'', ''bottom'', ''red'', ''--yes''] = Options \<lparr>kind = TEST_ROW, row = 98, color = 0xf800\<rparr>"
  by code_simp


section \<open>What the display gets\<close>

lemma sent_complain: "keeps (sent ws) (lcd_complain t)"
  unfolding lcd_complain_def by (rule sent_quiet)

lemmas sent_rules = sent_quiet sent_complain keeps_gets keeps_ret keeps_if keeps_onlyif keeps_let keeps_case_prod keeps_bind

lemma sent_steps: "keeps (sent ws) (fails h c)" "keeps (sent ws) (unless h p)" "keeps (sent ws) (yields h n)"
proof -
  show "keeps (sent ws) (yields h n)" by (induction n) (simp_all add: keeps_bind keeps_ret sent_quiet)
qed (unfold fails_def unless_def, (rule sent_rules)+)

lemma sent_unwritten:
  "keeps (sent ws) (subpad_mode h)" "keeps (sent ws) (check_devmem h v)" "keeps (sent ws) (close_maps h m)"
  "keeps (sent ws) (acquire_lock h)" "keeps (sent ws) (leave_quiet_console h k)" "keeps (sent ws) (announce opts)"
  unfolding subpad_mode_def check_devmem_def close_maps_def acquire_lock_def leave_quiet_console_def announce_def
  by (rule sent_rules)+

lemma sent_opened: "keeps (sent ws) (open_maps h t)"
  unfolding open_maps_def map_data_port_def by (rule sent_unwritten sent_rules)+

lemma sent_blocked: "keeps (sent ws) (block_signals h)"
  unfolding block_signals_def by (rule keeps_bind, rule keeps_first) (simp_all add: sent_steps keeps_ret)

lemma sent_drained: "keeps (sent ws) (drain_framebuffer h k)"
proof -
  have e: "keeps (sent ws) (first_failure [fails h Fb_fscreeninfo, fails h Fb_vscreeninfo, unless h p, fails h Fb_pan])" for p
    by (rule keeps_first) (simp add: sent_steps)
  show ?thesis
    unfolding drain_framebuffer_def
    apply (rule sent_rules e)+
    subgoal for f e by (cases e; simp only: option.case; (rule sent_rules sent_steps)+)
    done
qed

lemma sent_entered: "keeps (sent ws) (enter_quiet_console h)"
proof -
  have e: "keeps (sent ws) (first_failure [fails h Fstat_tty, unless h p, fails h Vt_getstate, unless h q])" for p q
    by (rule keeps_first) (simp add: sent_steps)
  show ?thesis
    unfolding enter_quiet_console_def by (rule sent_drained e sent_rules)+
qed

definition outcome :: "options \<Rightarrow> int \<Rightarrow> 'w diag \<Rightarrow> bool" where
  "outcome opts r s \<longleftrightarrow> sent (test_words opts) s \<or> sent [] s \<and> r \<noteq> 0"

lemma sent_outcome: "(\<And>ws. keeps (sent ws) m) \<Longrightarrow> keeps (outcome opts r) m"
  by (rule keepsI) (auto simp: outcome_def dest: keepsD)

lemma write_outcome:
  assumes "through m"
  shows "triple (sent []) (guarded_write h m opts) (\<lambda>a. outcome opts (at_result a))"
proof -
  have out: "triple (sent []) (ret a) (\<lambda>a. outcome opts (at_result a))" if "at_result a = 1" for a
    using that by (intro triple_ret) (simp add: outcome_def)
  have left: "triple (sent (test_words opts)) (leave_quiet_console h k \<bind> (\<lambda>l. ret (f l))) (\<lambda>a. outcome opts (at_result a))" for k f
    by (rule triple_keeps [OF sent_unwritten(5)], rule triple_ret) (simp add: outcome_def)
  show ?thesis
    unfolding guarded_write_def Let_def
    apply (rule triple_keeps [OF sent_unwritten(6)], rule triple_keeps [OF sent_quiet(1)], rule triple_if)
     apply (rule triple_keeps [OF sent_complain], rule out, simp add: attempt_start_def)
    apply (rule triple_keeps [OF sent_blocked], rule triple_if)
     apply (rule triple_keeps [OF sent_complain], rule out, simp add: attempt_start_def)
    apply (rule triple_keeps [OF sent_entered], simp only: case_prod_beta, rule triple_if)
     apply (rule out, simp add: attempt_start_def)
    apply (rule triple_keeps [OF sent_unwritten(1)], rule triple_if)
     apply (rule out, simp add: attempt_start_def)
    apply (rule triple_bind [OF sent_test [OF assms]], rule left)
    done
qed

lemma write_sent: "triple (\<lambda>s. holding {} s \<and> sent [] s) (perform_write h opts) (outcome opts)"
proof -
  let ?L = "insert Locked (insert Lock_file {Absent})"
  have out: "triple (\<lambda>s. holding R s \<and> sent [] s) (ret (1 :: int)) (outcome opts)" for R
    by (rule triple_ret) (simp add: outcome_def)
  have out': "triple (\<lambda>s. holding R s \<and> sent [] s) (do { lcd_complain t; ret (1 :: int) }) (outcome opts)" for R t
    by (rule triple_keeps [OF keeps_and [OF holding_say(2) sent_complain]], rule out)
  have tries: "triple (\<lambda>s. kept True ?L p s \<and> sent [] s) (if \<not> fst p then ret attempt_start else do {
       a \<leftarrow> guarded_write h (snd p) opts;
       onlyif (at_quiet a) (do { _ \<leftarrow> leave_quiet_console h (at_saved a); ret () });
       m \<leftarrow> close_maps h (snd p);
       ret a }) (\<lambda>a. outcome opts (at_result a))" for p
  proof (cases "fst p")
    case True
    have "triple (sent []) (do {
         a \<leftarrow> guarded_write h (snd p) opts;
         onlyif (at_quiet a) (do { _ \<leftarrow> leave_quiet_console h (at_saved a); ret () });
         m \<leftarrow> close_maps h (snd p);
         ret a }) (\<lambda>a. outcome opts (at_result a))" if "through (snd p)"
      apply (rule triple_bind [OF write_outcome [OF that]])
      apply (rule triple_keeps [OF sent_outcome], (rule sent_unwritten sent_rules)+)
      apply (rule triple_keeps [OF sent_outcome [OF sent_unwritten(3)]], rule triple_ret, assumption)
      done
    then show ?thesis using True
      by (cases p) (auto simp: kept_def opened_def through_def triple_def)
  next
    case False
    then show ?thesis by (auto intro!: triple_ret simp: outcome_def attempt_start_def)
  qed
  have tail: "triple (outcome opts (at_result a)) (do {
     _ \<leftarrow> syscall h Close_lock;
     onlyif (at_blocked a) (do { _ \<leftarrow> syscall h Sigprocmask_setmask; ret () });
     onlyif (at_deferred a) (lcd_complain t);
     onlyif (at_result a = 0) (say Stdout u);
     ret (at_result a) }) (outcome opts)" for a t u
    by (rule triple_keeps [OF sent_outcome [OF sent_quiet(1)]], rule triple_keeps [OF sent_outcome], (rule sent_rules)+,
        rule triple_keeps [OF sent_outcome], (rule sent_rules)+, rule triple_keeps [OF sent_outcome], (rule sent_rules)+, rule triple_ret)
  show ?thesis
    unfolding perform_write_def
    apply (rule triple_keeps [OF keeps_and], rule accounted_neutral, simp, rule sent_quiet)
    apply (rule triple_if, rule out')
    apply (rule triple_bind [OF triple_conj [OF holding_mode sent_unwritten(1)]], simp)
    apply (rule triple_if, rule out')
    apply (rule triple_if, rule out')
    apply (simp only: checked_def not_not refl if_True)
    apply (rule triple_bind [OF triple_conj [OF lcd_lock_taken sent_unwritten(4)]], simp, simp, simp)
    apply (rule triple_if, simp only: if_True, rule out)
    apply (simp only: if_False, rule triple_bind [OF triple_conj [OF lcd_maps_opened sent_opened]], simp)
    apply (simp only: case_prod_beta)
    apply (rule triple_bind [OF tries], rule tail)
    done
qed

text \<open>C36. A drawing test sends the display all of its words or none of them, and it has sent them all
  when it reports success: for the row test the commands that address the row and 244 pixels of the
  color, for a pattern every row. The pad pattern is, word for word, what the kernel driver sends
  when it draws the pad.\<close>

theorem sublcd_draws_test:
  assumes "run_state (perform_write h opts) (diag_start w) = (r, s)"
  shows "panel s \<in> {[], test_words opts} \<and> (r = 0 \<longrightarrow> panel s = test_words opts) \<and>
    (kind opts = TEST_PATTERN_PAD \<longrightarrow> test_words opts = concat (map row_words [0..<99]))"
proof -
  have "holding {} (diag_start w) \<and> sent [] (diag_start w)"
    by (simp add: accounted_def sent_def panel_def dc_high_def diag_start_def)
  from tripleD [OF write_sent assms this] have "outcome opts r s" .
  then have "panel s \<in> {[], test_words opts}" "r = 0 \<longrightarrow> panel s = test_words opts" by (auto simp: outcome_def sent_def)
  with pad_words show ?thesis by blast
qed

theorem sublcd_draws_test_witness:
  "panel (snd (run_state (perform_write demo_host \<lparr>kind = TEST_ROW, row = 98, color = 0xf800\<rparr>) (diag_start 0))) =
     test_words \<lparr>kind = TEST_ROW, row = 98, color = 0xf800\<rparr>"
proof -
  show ?thesis
    using demo_succeeds [of _ "diag_start 0"] sublcd_draws_test [OF prod.collapse [symmetric], of demo_host "\<lparr>kind = TEST_ROW, row = 98, color = 0xf800\<rparr>" "0"] by blast
qed

end
