(* ===== verification/Touchdiag.thy ===== *)
theory Touchdiag
  imports Diag_Machine Touch
begin

text \<open>
  The diagnostic of the secondary touch pad (\<^verbatim>\<open>src/x11/apps/touchdiag.c\<close>): reports that read the port or the
  clock registers, and three tests that change them and put them back: sensing the pen, opening the
  converter's clock, and one conversion. Delays made of no-operations change no state.
\<close>

unbundle bit_operations_syntax

section \<open>Constants and data\<close>

definition PFC_PHYS :: u32 where "PFC_PHYS = 0x04050000"
definition CPG_PHYS :: u32 where "CPG_PHYS = 0x04150000"
definition ADC_PHYS :: u32 where "ADC_PHYS = 0x04610000"
definition PGCR_OFF :: u32 where "PGCR_OFF = 0x10c"
definition PHCR_OFF :: u32 where "PHCR_OFF = 0x10e"
definition PLCR_OFF :: u32 where "PLCR_OFF = 0x114"
definition PGDR_OFF :: u32 where "PGDR_OFF = 0x12c"
definition PHDR_OFF :: u32 where "PHDR_OFF = 0x12e"
definition PLDR_OFF :: u32 where "PLDR_OFF = 0x134"
definition PSELE_OFF :: u32 where "PSELE_OFF = 0x156"
definition MSELCRA_OFF :: u32 where "MSELCRA_OFF = 0x180"
definition PFC_A_OFF :: u32 where "PFC_A_OFF = 0x1d6"
definition FRQCRA_OFF :: u32 where "FRQCRA_OFF = 0x000"
definition MSTPCR2_OFF :: u32 where "MSTPCR2_OFF = 0x038"
definition ADC_CLOCK_BIT :: u32 where "ADC_CLOCK_BIT = 0x08000000"
definition ADDRA_OFF :: u32 where "ADDRA_OFF = 0x080"
definition ADDRB_OFF :: u32 where "ADDRB_OFF = 0x082"
definition ADDRC_OFF :: u32 where "ADDRC_OFF = 0x084"
definition ADDRD_OFF :: u32 where "ADDRD_OFF = 0x086"
definition ADCSR_OFF :: u32 where "ADCSR_OFF = 0x088"
definition ADCCSR_OFF :: u32 where "ADCCSR_OFF = 0x08a"
definition ADCUST_OFF :: u32 where "ADCUST_OFF = 0x08c"
definition ADPCTL_OFF :: u32 where "ADPCTL_OFF = 0x08e"
definition ADC_TIMEOUT :: nat where "ADC_TIMEOUT = 65536"
definition MAP_PFC :: u32 where "MAP_PFC = 1"
definition MAP_CPG :: u32 where "MAP_CPG = 2"
definition MAP_ADC :: u32 where "MAP_ADC = 4"

datatype command = CMD_INFO | CMD_PFC_LIVE | CMD_PEN | CMD_CLOCK_LIVE | CMD_CLOCK_TEST | CMD_ADC_ONCE

datatype adc_status = ADC_OK | ADC_NO_CONTACT | ADC_CLOCK_FAILED | ADC_IDLE_TIMEOUT | ADC_GENERIC_TIMEOUT | ADC_CONVERSION_TIMEOUT

record maps =
  map_fd :: int
  map_size :: u32
  map_pfc :: u32
  map_cpg :: u32
  map_adc :: u32

record pfc_snapshot =
  s_pgcr :: u16
  s_phcr :: u16
  s_plcr :: u16
  s_psele :: u16
  s_mselcra :: u16
  s_pfc_a :: u16
  s_pgdr :: u8
  s_phdr :: u8

record sample =
  s_b :: u16
  s_a :: u16
  s_d :: u16
  s_c :: u16
  s_x :: u16
  s_y :: u16
  s_valid :: bool

section \<open>The command line\<close>

definition usage :: "stream \<Rightarrow> ('w, unit) dg" where
  "usage out = say out (concat (map line
     [''XD-B8600 secondary touch diagnostic'', [],
      ''Usage:'',
      ''  touchdiag info'',
      ''  touchdiag pfc --live'',
      ''  touchdiag pen --yes'',
      ''  touchdiag clock --live'',
      ''  touchdiag clock-on --yes'',
      ''  touchdiag adc-once --yes'', [],
      ''Run only on an XD-B8600 text console before startx. Test pen first.'',
      ''ADC access is experimental and may require a hardware reset.'']))"

datatype parsed_command = Command command | Show_help | Unknown

definition parse_command :: "string list \<Rightarrow> parsed_command" where
  "parse_command args =
     (if args = [] \<or> args = [''info''] then Command CMD_INFO
      else if args = [''--help''] \<or> args = [''-h''] then Show_help
      else if args = [''pfc'', ''--live''] then Command CMD_PFC_LIVE
      else if args = [''pen'', ''--yes''] then Command CMD_PEN
      else if args = [''clock'', ''--live''] then Command CMD_CLOCK_LIVE
      else if args = [''clock-on'', ''--yes''] then Command CMD_CLOCK_TEST
      else if args = [''adc-once'', ''--yes''] then Command CMD_ADC_ONCE
      else Unknown)"

section \<open>Mappings\<close>

definition touch_complain :: "string \<Rightarrow> ('w, unit) dg" where
  "touch_complain t = say Stderr (''touchdiag: '' @ line t)"

definition close_maps :: "'w diag_host \<Rightarrow> maps \<Rightarrow> ('w, unit) dg" where
  "close_maps h m = do {
     onlyif (map_adc m \<noteq> MAP_FAILED) (do { _ \<leftarrow> syscall h (Munmap (map_adc m)); ret () });
     onlyif (map_cpg m \<noteq> MAP_FAILED) (do { _ \<leftarrow> syscall h (Munmap (map_cpg m)); ret () });
     onlyif (map_pfc m \<noteq> MAP_FAILED) (do { _ \<leftarrow> syscall h (Munmap (map_pfc m)); ret () });
     onlyif (map_fd m \<ge> 0) (do { _ \<leftarrow> syscall h Close_devmem; ret () }) }"

text \<open>A page that is not wanted stays unmapped, which is no failure.\<close>

definition map_page :: "'w diag_host \<Rightarrow> bool \<Rightarrow> u32 \<Rightarrow> u32 \<Rightarrow> bool \<Rightarrow> ('w, bool \<times> u32) dg" where
  "map_page h wanted len physical writable =
     (if \<not> wanted then ret (True, MAP_FAILED)
      else do {
        r \<leftarrow> syscall h (Mmap physical len writable);
        if page_of r = MAP_FAILED then do {
          touch_complain (''mmap 0x'' @ hex 8 (unat physical) @ '' failed: '' @ strerror h (- r));
          ret (False, MAP_FAILED) }
        else ret (True, page_of r) })"

definition no_maps :: maps where
  "no_maps = \<lparr>map_fd = -1, map_size = 0, map_pfc = MAP_FAILED, map_cpg = MAP_FAILED, map_adc = MAP_FAILED\<rparr>"

definition open_maps :: "'w diag_host \<Rightarrow> u32 \<Rightarrow> bool \<Rightarrow> ('w, maps option) dg" where
  "open_maps h wanted writable = do {
     size \<leftarrow> syscall h Sysconf_pagesize;
     if size \<noteq> 4096 then do {
       touch_complain (''expected 4096-byte pages, got '' @ int_text size); ret None }
     else do {
       r \<leftarrow> syscall h Stat_devmem;
       c \<leftarrow> gets (\<lambda>s. devmem_char h (world s));
       if r < 0 \<or> \<not> c then do { touch_complain ''/dev/mem is unavailable''; ret None }
       else do {
         f \<leftarrow> syscall h (Open_devmem writable);
         if f < 0 then do { touch_complain (''cannot open /dev/mem: '' @ strerror h (- f)); ret None }
         else do {
           let m = no_maps\<lparr>map_fd := f, map_size := 4096\<rparr>;
           (ok, p) \<leftarrow> map_page h (wanted AND MAP_PFC \<noteq> 0) 4096 PFC_PHYS writable;
           let m = m\<lparr>map_pfc := p\<rparr>;
           if \<not> ok then do { close_maps h m; ret None }
           else do {
             (ok, p) \<leftarrow> map_page h (wanted AND MAP_CPG \<noteq> 0) 4096 CPG_PHYS writable;
             let m = m\<lparr>map_cpg := p\<rparr>;
             if \<not> ok then do { close_maps h m; ret None }
             else do {
               (ok, p) \<leftarrow> map_page h (wanted AND MAP_ADC \<noteq> 0) 4096 ADC_PHYS writable;
               let m = m\<lparr>map_adc := p\<rparr>;
               if \<not> ok then do { close_maps h m; ret None } else ret (Some m) } } } } } }"

section \<open>Checks before touching the hardware\<close>

definition block_async_signals :: "'w diag_host \<Rightarrow> ('w, bool) dg" where
  "block_async_signals h = do {
     e \<leftarrow> first_failure (fails h Sigfillset # replicate 6 (fails h Sigdelset) @ [fails h Sigprocmask_block]);
     ret (e = None) }"

definition experimental_driver_absent :: "'w diag_host \<Rightarrow> ('w, bool) dg" where
  "experimental_driver_absent h = do { r \<leftarrow> syscall h Stat_parameter; ret (r = SUBPAD_ABSENT) }"

definition expected_hardware :: "'w diag_host \<Rightarrow> ('w, bool) dg" where
  "expected_hardware h = do {
     f \<leftarrow> syscall h (Open_fb0 False);
     e \<leftarrow> (if f < 0 then ret (Some 0)
          else first_failure [fails h Fb_fscreeninfo, fails h Fb_vscreeninfo, unless h (\<lambda>w. fit_screen (screen h w))]);
     onlyif (f \<ge> 0) (do { _ \<leftarrow> syscall h Close_fb0; ret () });
     ret (e = None) }"

definition active_text_vt :: "'w diag_host \<Rightarrow> ('w, bool) dg" where
  "active_text_vt h = do {
     t \<leftarrow> syscall h Isatty;
     if t = 0 then ret False
     else do {
       e \<leftarrow> first_failure [fails h Kdgetmode, unless h (\<lambda>w. console_mode h w = KD_TEXT), fails h Fstat_tty,
              unless h (\<lambda>w. tty_char (tty_of h w) \<and> tty_major (tty_of h w) = 4 \<and> tty_minor (tty_of h w) \<noteq> 0),
              fails h Vt_getstate, unless h (\<lambda>w. tty_minor (tty_of h w) = active_vt h w)];
       ret (e = None) } }"

definition preflight_write :: "'w diag_host \<Rightarrow> ('w, bool) dg" where
  "preflight_write h = do {
     uid \<leftarrow> syscall h Geteuid;
     if uid \<noteq> 0 then do { touch_complain ''must run as root''; ret False }
     else do {
       hw \<leftarrow> expected_hardware h;
       if \<not> hw then do { touch_complain ''expected XD-B8600 framebuffer was not found''; ret False }
       else do {
         vt \<leftarrow> active_text_vt h;
         if \<not> vt then do { touch_complain ''use the active text console before startx''; ret False }
         else do {
           absent \<leftarrow> experimental_driver_absent h;
           if \<not> absent then do { touch_complain ''experimental kernel touch driver exists; refusing MMIO''; ret False }
           else ret True } } } }"

definition acquire_lock :: "'w diag_host \<Rightarrow> ('w, int) dg" where
  "acquire_lock h = do {
     f \<leftarrow> syscall h Open_lock;
     if f < 0 then do { touch_complain (''touch hardware is busy: '' @ strerror h (- f)); ret (- 1) }
     else do {
       l \<leftarrow> syscall h Flock;
       if l < 0 then do {
         touch_complain (''touch hardware is busy: '' @ strerror h (- l));
         _ \<leftarrow> syscall h Close_lock;
         ret (- 1) }
       else ret f } }"

section \<open>Registers\<close>

definition rmw8 :: "'w diag_host \<Rightarrow> u32 \<Rightarrow> u8 \<Rightarrow> u8 \<Rightarrow> ('w, unit) dg" where
  "rmw8 h reg mk v = do { current \<leftarrow> mmio_read8 h reg; mmio_write8 h reg ((current AND NOT mk) OR (v AND mk)) }"

definition rmw16 :: "'w diag_host \<Rightarrow> u32 \<Rightarrow> u16 \<Rightarrow> u16 \<Rightarrow> ('w, unit) dg" where
  "rmw16 h reg mk v = do { current \<leftarrow> mmio_read16 h reg; mmio_write16 h reg ((current AND NOT mk) OR (v AND mk)) }"

definition settle :: "('w, unit) dg" where
  "settle = ret ()"

definition capture_pfc :: "'w diag_host \<Rightarrow> ('w, pfc_snapshot) dg" where
  "capture_pfc h = do {
     v1 \<leftarrow> mmio_read16 h (PFC_PHYS + PGCR_OFF);
     v2 \<leftarrow> mmio_read16 h (PFC_PHYS + PHCR_OFF);
     v3 \<leftarrow> mmio_read16 h (PFC_PHYS + PLCR_OFF);
     v4 \<leftarrow> mmio_read8 h (PFC_PHYS + PGDR_OFF);
     v5 \<leftarrow> mmio_read8 h (PFC_PHYS + PHDR_OFF);
     v6 \<leftarrow> mmio_read16 h (PFC_PHYS + PSELE_OFF);
     v7 \<leftarrow> mmio_read16 h (PFC_PHYS + MSELCRA_OFF);
     v8 \<leftarrow> mmio_read16 h (PFC_PHYS + PFC_A_OFF);
     io_barrier;
     ret \<lparr>s_pgcr = v1, s_phcr = v2, s_plcr = v3, s_psele = v6, s_mselcra = v7, s_pfc_a = v8, s_pgdr = v4, s_phdr = v5\<rparr> }"

definition base_pfc :: "'w diag_host \<Rightarrow> ('w, unit) dg" where
  "base_pfc h = do {
     mmio_write8 h (PFC_PHYS + PGDR_OFF) 0;
     rmw16 h (PFC_PHYS + PHCR_OFF) 0x0300 0x0100;
     rmw16 h (PFC_PHYS + PLCR_OFF) 0x000c 0;
     rmw16 h (PFC_PHYS + PSELE_OFF) 0x0c00 0;
     io_barrier }"

definition force_rest_high :: "'w diag_host \<Rightarrow> ('w, unit) dg" where
  "force_rest_high h = do {
     base_pfc h;
     mmio_write16 h (PFC_PHYS + PGCR_OFF) 0xaaaa;
     mmio_write8 h (PFC_PHYS + PGDR_OFF) 0;
     rmw8 h (PFC_PHYS + PHDR_OFF) 0x10 0x10;
     io_barrier;
     settle }"

fun pen_loop :: "'w diag_host \<Rightarrow> nat \<Rightarrow> bool \<Rightarrow> u8 \<Rightarrow> ('w, bool \<times> u8) dg" where
  "pen_loop h 0 contact observed = ret (contact, observed)"
| "pen_loop h (Suc n) contact observed = do {
     v \<leftarrow> mmio_read8 h (PFC_PHYS + PLDR_OFF);
     pen_loop h n (if v AND 0x02 \<noteq> 0 then False else contact) (observed OR v) }"

definition read_pen :: "'w diag_host \<Rightarrow> ('w, bool \<times> u8) dg" where
  "read_pen h = do {
     rmw16 h (PFC_PHYS + PLCR_OFF) 0x000c 0x0008;
     io_barrier;
     (contact, observed) \<leftarrow> pen_loop h 5 True 0;
     base_pfc h;
     ret (contact, observed) }"

text \<open>The comparisons stop at the first difference, as \<^verbatim>\<open>&&\<close> does.\<close>

fun all_hold :: "('w, bool) dg list \<Rightarrow> ('w, bool) dg" where
  "all_hold [] = ret True"
| "all_hold (m # ms) = do { b \<leftarrow> m; if b then all_hold ms else ret False }"

definition check16 :: "'w diag_host \<Rightarrow> u32 \<Rightarrow> u16 \<Rightarrow> u16 \<Rightarrow> ('w, bool) dg" where
  "check16 h reg mk v = do { r \<leftarrow> mmio_read16 h reg; ret (r AND mk = v AND mk) }"

definition check8 :: "'w diag_host \<Rightarrow> u32 \<Rightarrow> u8 \<Rightarrow> u8 \<Rightarrow> ('w, bool) dg" where
  "check8 h reg mk v = do { r \<leftarrow> mmio_read8 h reg; ret (r AND mk = v AND mk) }"

definition verify_pfc :: "'w diag_host \<Rightarrow> pfc_snapshot \<Rightarrow> ('w, bool) dg" where
  "verify_pfc h sn = all_hold
     [check16 h (PFC_PHYS + PGCR_OFF) 0xffff (s_pgcr sn),
      check8 h (PFC_PHYS + PGDR_OFF) 0xff (s_pgdr sn),
      check16 h (PFC_PHYS + PHCR_OFF) 0x0300 (s_phcr sn),
      check16 h (PFC_PHYS + PLCR_OFF) 0x000c (s_plcr sn),
      check16 h (PFC_PHYS + PSELE_OFF) 0x0c00 (s_psele sn),
      check16 h (PFC_PHYS + MSELCRA_OFF) 0x0300 (s_mselcra sn),
      check16 h (PFC_PHYS + PFC_A_OFF) 0xf000 (s_pfc_a sn),
      check8 h (PFC_PHYS + PHDR_OFF) 0x10 (s_phdr sn)]"

definition restore_pfc :: "'w diag_host \<Rightarrow> pfc_snapshot \<Rightarrow> ('w, bool) dg" where
  "restore_pfc h sn = do {
     force_rest_high h;
     rmw16 h (PFC_PHYS + PFC_A_OFF) 0xf000 (s_pfc_a sn);
     rmw16 h (PFC_PHYS + MSELCRA_OFF) 0x0300 (s_mselcra sn);
     rmw16 h (PFC_PHYS + PSELE_OFF) 0x0c00 (s_psele sn);
     rmw16 h (PFC_PHYS + PLCR_OFF) 0x000c (s_plcr sn);
     rmw16 h (PFC_PHYS + PHCR_OFF) 0x0300 (s_phcr sn);
     mmio_write8 h (PFC_PHYS + PGDR_OFF) (s_pgdr sn);
     mmio_write16 h (PFC_PHYS + PGCR_OFF) (s_pgcr sn);
     rmw8 h (PFC_PHYS + PHDR_OFF) 0x10 (s_phdr sn);
     io_barrier;
     verify_pfc h sn }"

fun wait_loop :: "'w diag_host \<Rightarrow> u32 \<Rightarrow> u16 \<Rightarrow> nat \<Rightarrow> ('w, bool) dg" where
  "wait_loop h reg mk 0 = ret False"
| "wait_loop h reg mk (Suc n) = do {
     v \<leftarrow> mmio_read16 h reg; if v AND mk = 0 then ret True else wait_loop h reg mk n }"

definition wait_clear :: "'w diag_host \<Rightarrow> u32 \<Rightarrow> u16 \<Rightarrow> ('w, bool) dg" where
  "wait_clear h reg mk = wait_loop h reg mk ADC_TIMEOUT"

text \<open>Whether the clock runs, whether it was stopped before, and the register as it is left.\<close>

definition open_adc_clock :: "'w diag_host \<Rightarrow> ('w, bool \<times> bool \<times> u32) dg" where
  "open_adc_clock h = do {
     current \<leftarrow> mmio_read32 h (CPG_PHYS + MSTPCR2_OFF);
     let was_gated = (current AND ADC_CLOCK_BIT \<noteq> 0);
     onlyif was_gated (do {
       current \<leftarrow> mmio_read32 h (CPG_PHYS + MSTPCR2_OFF);
       mmio_write32 h (CPG_PHYS + MSTPCR2_OFF) (current AND NOT ADC_CLOCK_BIT);
       io_barrier;
       settle });
     after \<leftarrow> mmio_read32 h (CPG_PHYS + MSTPCR2_OFF);
     io_barrier;
     ret (after AND ADC_CLOCK_BIT = 0, was_gated, after) }"

definition restore_adc_clock :: "'w diag_host \<Rightarrow> bool \<Rightarrow> ('w, bool) dg" where
  "restore_adc_clock h was_gated = do {
     current \<leftarrow> mmio_read32 h (CPG_PHYS + MSTPCR2_OFF);
     onlyif was_gated (mmio_write32 h (CPG_PHYS + MSTPCR2_OFF) (current OR ADC_CLOCK_BIT));
     io_barrier;
     current \<leftarrow> mmio_read32 h (CPG_PHYS + MSTPCR2_OFF);
     io_barrier;
     ret ((current AND ADC_CLOCK_BIT \<noteq> 0) = was_gated) }"

section \<open>The converter\<close>

definition adc_cleanup :: "'w diag_host \<Rightarrow> ('w, bool) dg" where
  "adc_cleanup h = do {
     v \<leftarrow> mmio_read16 h (ADC_PHYS + ADCCSR_OFF);
     mmio_write16 h (ADC_PHYS + ADCCSR_OFF) (v AND NOT 0xe000);
     io_barrier;
     ok \<leftarrow> wait_clear h (ADC_PHYS + ADCCSR_OFF) 0x2000;
     if \<not> ok then ret False
     else do {
       mmio_write16 h (ADC_PHYS + ADCUST_OFF) 0;
       v \<leftarrow> mmio_read16 h (ADC_PHYS + ADCSR_OFF);
       mmio_write16 h (ADC_PHYS + ADCSR_OFF) (v AND NOT 0x2000);
       io_barrier;
       wait_clear h (ADC_PHYS + ADCSR_OFF) 0x2000 } }"

definition make_sample :: "u16 \<Rightarrow> u16 \<Rightarrow> u16 \<Rightarrow> u16 \<Rightarrow> sample" where
  "make_sample b a d c =
     \<lparr>s_b = b, s_a = a, s_d = d, s_c = c,
      s_x = word_of_int (drop_bit 1 (uint c - uint d + 1023)) AND 1023,
      s_y = word_of_int (drop_bit 1 (uint a - uint b + 1023)) AND 1023,
      s_valid = (small_abs (1023 - uint b - uint a) \<le> 64 \<and> small_abs (1023 - uint d - uint c) \<le> 64)\<rparr>"

definition no_sample :: sample where
  "no_sample = \<lparr>s_b = 0, s_a = 0, s_d = 0, s_c = 0, s_x = 0, s_y = 0, s_valid = False\<rparr>"

definition convert :: "'w diag_host \<Rightarrow> ('w, adc_status \<times> sample) dg" where
  "convert h = do {
     mmio_write16 h (ADC_PHYS + ADCUST_OFF) 0x8000;
     f \<leftarrow> mmio_read32 h (CPG_PHYS + FRQCRA_OFF);
     let base = (if f AND 0x0f = 3 then 0x01cf else 0x02cf);
     mmio_write16 h (ADC_PHYS + ADCCSR_OFF) base;
     mmio_write16 h (ADC_PHYS + ADPCTL_OFF) 0x8000;
     io_barrier;
     mmio_write16 h (ADC_PHYS + ADCCSR_OFF) (base OR 0x2000);
     io_barrier;
     ok \<leftarrow> wait_clear h (ADC_PHYS + ADCCSR_OFF) 0x2000;
     if \<not> ok then ret (ADC_CONVERSION_TIMEOUT, no_sample)
     else do {
       b \<leftarrow> mmio_read16 h (ADC_PHYS + ADDRB_OFF);
       a \<leftarrow> mmio_read16 h (ADC_PHYS + ADDRA_OFF);
       d \<leftarrow> mmio_read16 h (ADC_PHYS + ADDRD_OFF);
       c \<leftarrow> mmio_read16 h (ADC_PHYS + ADDRC_OFF);
       v \<leftarrow> mmio_read16 h (ADC_PHYS + ADCCSR_OFF);
       mmio_write16 h (ADC_PHYS + ADCCSR_OFF) (v AND NOT 0xc000);
       io_barrier;
       ret (ADC_OK, make_sample (drop_bit 6 b) (drop_bit 6 a) (drop_bit 6 d) (drop_bit 6 c)) } }"

definition adc_drive :: "'w diag_host \<Rightarrow> ('w, adc_status \<times> sample) dg" where
  "adc_drive h = do {
     ok \<leftarrow> wait_clear h (ADC_PHYS + ADCCSR_OFF) 0x2000;
     if \<not> ok then ret (ADC_IDLE_TIMEOUT, no_sample)
     else do {
       mmio_write16 h (ADC_PHYS + ADCUST_OFF) 0;
       v \<leftarrow> mmio_read16 h (ADC_PHYS + ADCSR_OFF);
       mmio_write16 h (ADC_PHYS + ADCSR_OFF) (v AND NOT 0x2000);
       mmio_write16 h (PFC_PHYS + PGCR_OFF) 0xaaaa;
       mmio_write8 h (PFC_PHYS + PGDR_OFF) 0;
       rmw8 h (PFC_PHYS + PHDR_OFF) 0x10 0;
       io_barrier;
       settle;
       rmw16 h (PFC_PHYS + PFC_A_OFF) 0xf000 0x5000;
       mmio_write16 h (PFC_PHYS + PGCR_OFF) 0;
       rmw16 h (PFC_PHYS + MSELCRA_OFF) 0x0300 0;
       io_barrier;
       ok \<leftarrow> wait_clear h (ADC_PHYS + ADCSR_OFF) 0x2000;
       if \<not> ok then ret (ADC_GENERIC_TIMEOUT, no_sample) else convert h } }"

definition adc_once :: "'w diag_host \<Rightarrow> ('w, adc_status \<times> sample \<times> bool \<times> u32) dg" where
  "adc_once h = do {
     (running, was_gated, after) \<leftarrow> open_adc_clock h;
     if \<not> running then ret (ADC_CLOCK_FAILED, no_sample, was_gated, after)
     else do {
       (status, p) \<leftarrow> adc_drive h;
       ret (status, p, was_gated, after) } }"

section \<open>Reports\<close>

definition show_info :: "'w diag_host \<Rightarrow> ('w, int) dg" where
  "show_info h = do {
     say Stdout (line ''XD-B8600 secondary touch diagnostic'');
     say Stdout (line ''Target: big-endian Renesas SH-4A; XD-B8600 only'');
     say Stdout (line (''PFC page: 0x'' @ hex 8 (unat PFC_PHYS) @ ''  CPG page: 0x'' @ hex 8 (unat CPG_PHYS) @
       ''  ADC page: 0x'' @ hex 8 (unat ADC_PHYS)));
     say Stdout (line ''Factory touch calibration is NOT retained by this exact kernel.'');
     say Stdout (line ''No MMIO was performed. Next: touchdiag pfc --live'');
     ret 0 }"

definition show_pfc :: "'w diag_host \<Rightarrow> ('w, int) dg" where
  "show_pfc h = do {
     ok \<leftarrow> preflight_write h;
     mo \<leftarrow> (if ok then open_maps h MAP_PFC False else ret None);
     case mo of None \<Rightarrow> ret 1
     | Some m \<Rightarrow> do {
         sn \<leftarrow> capture_pfc h;
         pldr \<leftarrow> mmio_read8 h (PFC_PHYS + PLDR_OFF);
         io_barrier;
         close_maps h m;
         say Stdout (line (''PGCR='' @ hex 4 (unat (s_pgcr sn)) @ '' PHCR='' @ hex 4 (unat (s_phcr sn)) @ '' PLCR='' @
           hex 4 (unat (s_plcr sn)) @ '' PGDR='' @ hex 2 (unat (s_pgdr sn)) @ '' PHDR='' @ hex 2 (unat (s_phdr sn)) @
           '' PLDR='' @ hex 2 (unat pldr)));
         say Stdout (line (''PSELE='' @ hex 4 (unat (s_psele sn)) @ '' MSELCRA='' @ hex 4 (unat (s_mselcra sn)) @
           '' PFC_A='' @ hex 4 (unat (s_pfc_a sn)) @ '' (read-only snapshot)''));
         ret 0 } }"

definition show_clock :: "'w diag_host \<Rightarrow> ('w, int) dg" where
  "show_clock h = do {
     ok \<leftarrow> preflight_write h;
     mo \<leftarrow> (if ok then open_maps h MAP_CPG False else ret None);
     case mo of None \<Rightarrow> ret 1
     | Some m \<Rightarrow> do {
         frqcra \<leftarrow> mmio_read32 h (CPG_PHYS + FRQCRA_OFF);
         mstpcr2 \<leftarrow> mmio_read32 h (CPG_PHYS + MSTPCR2_OFF);
         io_barrier;
         close_maps h m;
         say Stdout (line (''FRQCRA=0x'' @ hex 8 (unat frqcra) @ '' MSTPCR2=0x'' @ hex 8 (unat mstpcr2) @ '' ADC-clock-bit27='' @
           (if mstpcr2 AND ADC_CLOCK_BIT \<noteq> 0 then ''stopped'' else ''running'')));
         say Stdout (line ''Read-only CPG snapshot; no clock was changed.'');
         ret 0 } }"

section \<open>Tests\<close>

text \<open>The three tests have one frame: the checks, the lock, the mappings, the announcement, signals
  blocked and the kernel's driver absent once more; then the test itself, which gives its exit
  code and what it prints once everything has been given back.\<close>

definition framed_work :: "'w diag_host \<Rightarrow> string list \<Rightarrow> ('w, int \<times> string list) dg \<Rightarrow> ('w, bool \<times> (int \<times> string list)) dg" where
  "framed_work h announcement work = do {
     say Stdout (concat (map line announcement));
     f \<leftarrow> syscall h Fflush;
     blocked \<leftarrow> (if f \<noteq> 0 then ret False else block_async_signals h);
     if \<not> blocked then ret (False, 1, [])
     else do {
       absent \<leftarrow> experimental_driver_absent h;
       if \<not> absent then do { touch_complain ''kernel touch driver appeared; refusing MMIO''; ret (True, 1, []) }
       else do { r \<leftarrow> work; ret (True, r) } } }"

definition framed_test :: "'w diag_host \<Rightarrow> u32 \<Rightarrow> string list \<Rightarrow> ('w, int \<times> string list) dg \<Rightarrow> ('w, int) dg" where
  "framed_test h wanted announcement work = do {
     ok \<leftarrow> preflight_write h;
     if \<not> ok then ret 1
     else do {
       lock_fd \<leftarrow> acquire_lock h;
       if lock_fd < 0 then ret 1
       else do {
         mo \<leftarrow> open_maps h wanted True;
         case mo of None \<Rightarrow> do { _ \<leftarrow> syscall h Close_lock; ret 1 }
         | Some m \<Rightarrow> do {
             (blocked, r, report) \<leftarrow> framed_work h announcement work;
             close_maps h m;
             _ \<leftarrow> syscall h Close_lock;
             onlyif blocked (do { _ \<leftarrow> syscall h Sigprocmask_setmask; ret () });
             onlyif (report \<noteq> []) (say Stdout (concat (map line report)));
             ret r } } } }"

definition ok_failed :: "bool \<Rightarrow> string" where
  "ok_failed b = (if b then ''OK'' else ''FAILED'')"

definition pen_work :: "'w diag_host \<Rightarrow> ('w, int \<times> string list) dg" where
  "pen_work h = do {
     sn \<leftarrow> capture_pfc h;
     force_rest_high h;
     (contact, pldr) \<leftarrow> read_pen h;
     restored \<leftarrow> restore_pfc h sn;
     ret (if restored then 0 else 1,
       [''PLDR-or=0x'' @ hex 2 (unat pldr) @ '' bit1='' @ nat_text (unat (drop_bit 1 pldr AND 1)) @ '' PEN='' @
        (if contact then ''DOWN'' else ''UP'') @ '' restore='' @ ok_failed restored]) }"

definition run_pen :: "'w diag_host \<Rightarrow> ('w, int) dg" where
  "run_pen h = framed_test h MAP_PFC [''PFC-only pen check: no ADC or clock access. Hold the panel if testing DOWN.''] (pen_work h)"

definition clock_work :: "'w diag_host \<Rightarrow> ('w, int \<times> string list) dg" where
  "clock_work h = do {
     initial \<leftarrow> mmio_read32 h (CPG_PHYS + MSTPCR2_OFF);
     (running, was_gated, after) \<leftarrow> open_adc_clock h;
     restore_ok \<leftarrow> restore_adc_clock h was_gated;
     restored_value \<leftarrow> mmio_read32 h (CPG_PHYS + MSTPCR2_OFF);
     io_barrier;
     ret (if running \<and> restore_ok then 0 else 1,
       [''MSTPCR2 initial='' @ hex 8 (unat initial) @ '' opened='' @ hex 8 (unat after) @ '' restored='' @ hex 8 (unat restored_value) @
        '' result='' @ ok_failed (running \<and> restore_ok)]) }"

definition run_clock_test :: "'w diag_host \<Rightarrow> ('w, int) dg" where
  "run_clock_test h = framed_test h MAP_CPG [''Testing only MSTPCR2 bit 27; the original clock state will be restored.''] (clock_work h)"

fun adc_status_name :: "adc_status \<Rightarrow> string" where
  "adc_status_name ADC_OK = ''conversion completed''"
| "adc_status_name ADC_NO_CONTACT = ''no pen contact; ADC was not accessed''"
| "adc_status_name ADC_CLOCK_FAILED = ''ADC clock did not open''"
| "adc_status_name ADC_IDLE_TIMEOUT = ''ADCCSR was busy before conversion''"
| "adc_status_name ADC_GENERIC_TIMEOUT = ''ADCSR stayed busy''"
| "adc_status_name ADC_CONVERSION_TIMEOUT = ''ADCCSR conversion timeout''"

text \<open>The variables of \<^verbatim>\<open>run_adc\<close> once the converter has been dealt with, and what is printed of them.\<close>

record adc_run =
  r_status :: adc_status
  r_sample :: sample
  r_gated :: bool
  r_after :: u32
  r_attempted :: bool
  r_cleanup :: bool
  r_pfc :: bool
  r_clock :: bool

definition adc_accessed :: "adc_run \<Rightarrow> bool" where
  "adc_accessed r \<longleftrightarrow> r_attempted r \<and> r_status r \<noteq> ADC_CLOCK_FAILED"

definition adc_report :: "bool \<Rightarrow> u8 \<Rightarrow> adc_run \<Rightarrow> string list" where
  "adc_report contact pldr r =
     [''PEN='' @ (if contact then ''DOWN'' else ''UP'') @ '' PLDR-or=0x'' @ hex 2 (unat pldr) @ '': '' @ adc_status_name (r_status r),
      ''cleanup='' @ (if adc_accessed r then ok_failed (r_cleanup r) else ''not-needed'') @ '' pfc-restore='' @
        (if r_cleanup r then ok_failed (r_pfc r) else ''SKIPPED'') @ '' clock-restore='' @
        (if r_attempted r then (if r_cleanup r then ok_failed (r_clock r) else ''left-running'') else ''not-needed'')] @
     (if r_cleanup r then []
      else [''RESET REQUIRED: ADC did not become idle; its active routing and clock were deliberately left in place.'']) @
     (if r_status r = ADC_OK
      then [''B='' @ nat_text (unat (s_b (r_sample r))) @ '' A='' @ nat_text (unat (s_a (r_sample r))) @
            '' D='' @ nat_text (unat (s_d (r_sample r))) @ '' C='' @ nat_text (unat (s_c (r_sample r))) @
            '' raw-x='' @ nat_text (unat (s_x (r_sample r))) @ '' raw-y='' @ nat_text (unat (s_y (r_sample r))) @
            '' pairs='' @ (if s_valid (r_sample r) then ''valid'' else ''INVALID'') @ '' clock='' @ hex 8 (unat (r_after r))]
      else [])"

definition adc_contact :: "'w diag_host \<Rightarrow> bool \<Rightarrow> ('w, adc_run) dg" where
  "adc_contact h contact =
     (if \<not> contact
      then ret \<lparr>r_status = ADC_NO_CONTACT, r_sample = no_sample, r_gated = False, r_after = 0, r_attempted = False,
                r_cleanup = True, r_pfc = False, r_clock = True\<rparr>
      else do {
        (status, p, gated, after) \<leftarrow> adc_once h;
        cleanup_ok \<leftarrow> (if status \<noteq> ADC_CLOCK_FAILED then adc_cleanup h else ret True);
        ret \<lparr>r_status = status, r_sample = p, r_gated = gated, r_after = after, r_attempted = True,
             r_cleanup = cleanup_ok, r_pfc = False, r_clock = True\<rparr> })"

definition adc_undo :: "'w diag_host \<Rightarrow> pfc_snapshot \<Rightarrow> adc_run \<Rightarrow> ('w, adc_run) dg" where
  "adc_undo h sn r =
     (if \<not> r_cleanup r then ret r
      else do {
        force_rest_high h;
        pfc_restored \<leftarrow> restore_pfc h sn;
        clock_restored \<leftarrow> (if r_attempted r then restore_adc_clock h (r_gated r) else ret (r_clock r));
        ret (r\<lparr>r_pfc := pfc_restored, r_clock := clock_restored\<rparr>) })"

definition adc_work :: "'w diag_host \<Rightarrow> ('w, int \<times> string list) dg" where
  "adc_work h = do {
     sn \<leftarrow> capture_pfc h;
     force_rest_high h;
     (contact, pldr) \<leftarrow> read_pen h;
     r \<leftarrow> adc_contact h contact;
     r \<leftarrow> adc_undo h sn r;
     ret (if r_status r = ADC_OK \<and> r_cleanup r \<and> r_pfc r \<and> r_clock r then 0 else 1, adc_report contact pldr r) }"

definition run_adc :: "'w diag_host \<Rightarrow> ('w, int) dg" where
  "run_adc h = framed_test h (MAP_PFC OR MAP_CPG OR MAP_ADC)
     [''Hold the secondary panel now. If contact is detected, one ADC access follows.'',
      ''If the machine freezes during ADC MMIO, reset it; no boot files are changed.''] (adc_work h)"

definition touchdiag_main :: "'w diag_host \<Rightarrow> string list \<Rightarrow> ('w, int) dg" where
  "touchdiag_main h args =
     (case parse_command args of
        Show_help \<Rightarrow> do { usage Stdout; ret 0 }
      | Unknown \<Rightarrow> do { usage Stderr; ret 2 }
      | Command c \<Rightarrow>
        (case c of CMD_INFO \<Rightarrow> show_info h | CMD_PFC_LIVE \<Rightarrow> show_pfc h | CMD_PEN \<Rightarrow> run_pen h
         | CMD_CLOCK_LIVE \<Rightarrow> show_clock h | CMD_CLOCK_TEST \<Rightarrow> run_clock_test h | CMD_ADC_ONCE \<Rightarrow> run_adc h))"

end
