(* ===== verification/Touchdiag_Facts.thy ===== *)
theory Touchdiag_Facts
  imports Diag_Rules Touchdiag
begin

text \<open>
  What the diagnostic of the touch pad guarantees: each command touches only the pages it says, the
  tests write only under the lock with signals blocked and the kernel's driver absent, the
  converter is accessed only while its clock runs, and a test that reports success has seen every
  register it changed back at the value it found.
\<close>

section \<open>Samples\<close>

text \<open>The diagnostic computes the same position and the same verdict as the touch pad mouse.\<close>

lemma sample_as_mouse:
  "make_sample b a d c = \<lparr>s_b = b, s_a = a, s_d = d, s_c = c, s_x = sample_x (adc_point b a d c), s_y = sample_y (adc_point b a d c),
     s_valid = adc_valid b a d c\<rparr>"
  by (simp add: make_sample_def adc_point_def adc_valid_def axis_value_def diff16_def pair_ok_def)

section \<open>What a command may touch\<close>

fun pages_of :: "command \<Rightarrow> u32 set" where
  "pages_of CMD_INFO = {}"
| "pages_of CMD_PFC_LIVE = {PFC_PHYS}"
| "pages_of CMD_PEN = {PFC_PHYS}"
| "pages_of CMD_CLOCK_LIVE = {CPG_PHYS}"
| "pages_of CMD_CLOCK_TEST = {CPG_PHYS}"
| "pages_of CMD_ADC_ONCE = {PFC_PHYS, CPG_PHYS, ADC_PHYS}"

definition writing :: "command \<Rightarrow> bool" where
  "writing c \<longleftrightarrow> c \<in> {CMD_PEN, CMD_CLOCK_TEST, CMD_ADC_ONCE}"

definition page :: "u32 \<Rightarrow> u32" where
  "page a = a AND NOT 0xfff"

definition permitted :: "u32 set \<Rightarrow> bool \<Rightarrow> access \<Rightarrow> resource set \<Rightarrow> bool" where
  "permitted P t a R \<longleftrightarrow> page (address a) \<in> P \<and>
     (\<exists>v w. Mapping v (page (address a)) 4096 w \<in> R \<and> (is_write a \<longrightarrow> w)) \<and>
     (is_write a \<longrightarrow> t \<and> {Locked, Masked, Absent} \<subseteq> R)"

definition fitted :: "u32 set \<Rightarrow> bool \<Rightarrow> resource set \<Rightarrow> bool" where
  "fitted P t R \<longleftrightarrow> (\<forall>p \<in> P. \<exists>v. Mapping v p 4096 t \<in> R) \<and> (t \<longrightarrow> {Locked, Masked, Absent} \<subseteq> R)"

abbreviation charged :: "u32 set \<Rightarrow> bool \<Rightarrow> resource set \<Rightarrow> 'w diag \<Rightarrow> bool" where
  "charged P t \<equiv> accounted (permitted P t)"

lemmas touch_defs = PFC_PHYS_def CPG_PHYS_def ADC_PHYS_def PGCR_OFF_def PHCR_OFF_def PLCR_OFF_def PGDR_OFF_def PHDR_OFF_def
  PLDR_OFF_def PSELE_OFF_def MSELCRA_OFF_def PFC_A_OFF_def FRQCRA_OFF_def MSTPCR2_OFF_def ADDRA_OFF_def ADDRB_OFF_def
  ADDRC_OFF_def ADDRD_OFF_def ADCSR_OFF_def ADCCSR_OFF_def ADCUST_OFF_def ADPCTL_OFF_def

lemma register_pages [simp]:
  "page (PFC_PHYS + PGCR_OFF) = PFC_PHYS" "page (PFC_PHYS + PHCR_OFF) = PFC_PHYS" "page (PFC_PHYS + PLCR_OFF) = PFC_PHYS"
  "page (PFC_PHYS + PGDR_OFF) = PFC_PHYS" "page (PFC_PHYS + PHDR_OFF) = PFC_PHYS" "page (PFC_PHYS + PLDR_OFF) = PFC_PHYS"
  "page (PFC_PHYS + PSELE_OFF) = PFC_PHYS" "page (PFC_PHYS + MSELCRA_OFF) = PFC_PHYS" "page (PFC_PHYS + PFC_A_OFF) = PFC_PHYS"
  "page (CPG_PHYS + FRQCRA_OFF) = CPG_PHYS" "page (CPG_PHYS + MSTPCR2_OFF) = CPG_PHYS" "page (ADC_PHYS + ADDRA_OFF) = ADC_PHYS"
  "page (ADC_PHYS + ADDRB_OFF) = ADC_PHYS" "page (ADC_PHYS + ADDRC_OFF) = ADC_PHYS" "page (ADC_PHYS + ADDRD_OFF) = ADC_PHYS"
  "page (ADC_PHYS + ADCSR_OFF) = ADC_PHYS" "page (ADC_PHYS + ADCCSR_OFF) = ADC_PHYS" "page (ADC_PHYS + ADCUST_OFF) = ADC_PHYS"
  "page (ADC_PHYS + ADPCTL_OFF) = ADC_PHYS"
  by (simp_all add: page_def touch_defs)

lemma fitted_permits: "fitted P t R \<Longrightarrow> page (address a) \<in> P \<Longrightarrow> is_write a \<longrightarrow> t \<Longrightarrow> permitted P t a R"
  unfolding fitted_def permitted_def by blast

lemma charged_reads:
  assumes "fitted P t R"
  shows "page a \<in> P \<Longrightarrow> keeps (charged P t R) (mmio_read8 h a)" "page a \<in> P \<Longrightarrow> keeps (charged P t R) (mmio_read16 h a)"
    "page a \<in> P \<Longrightarrow> keeps (charged P t R) (mmio_read32 h a)"
  by (auto intro!: accounted_access fitted_permits [OF assms])

lemma charged_writes:
  assumes "fitted P True R"
  shows "page a \<in> P \<Longrightarrow> keeps (charged P True R) (mmio_write8 h a x)" "page a \<in> P \<Longrightarrow> keeps (charged P True R) (mmio_write16 h a y)"
    "page a \<in> P \<Longrightarrow> keeps (charged P True R) (mmio_write32 h a z)"
  by (auto intro!: accounted_access fitted_permits [OF assms])

lemma charged_complain: "keeps (accounted ok R) (touch_complain t)"
  unfolding touch_complain_def by (rule accounted_say)

lemma keeps_settle: "keeps I settle"
  unfolding settle_def by (rule keeps_ret)

lemmas flow_rules = keeps_gets keeps_ret keeps_if keeps_onlyif keeps_let keeps_case_prod keeps_settle keeps_bind

lemmas charged_rules = accounted_say charged_complain flow_rules

section \<open>Registers\<close>

lemma charged_wait:
  assumes "fitted P t R" and "page a \<in> P"
  shows "keeps (charged P t R) (wait_clear h a k)"
proof -
  have "keeps (charged P t R) (wait_loop h a k n)" for n
    by (induction n) (simp_all, (rule charged_reads [OF assms] charged_rules | assumption)+)
  then show ?thesis by (simp add: wait_clear_def)
qed

lemma charged_hold: "(\<And>m. m \<in> set ms \<Longrightarrow> keeps I m) \<Longrightarrow> keeps I (all_hold ms)"
  by (induction ms) (simp_all add: keeps_ret keeps_bind)

lemma charged_capture: "fitted P t R \<Longrightarrow> PFC_PHYS \<in> P \<Longrightarrow> keeps (charged P t R) (capture_pfc h)"
  unfolding capture_pfc_def by (rule charged_reads charged_rules | simp)+

lemma charged_pfc:
  assumes "fitted P True R" and "PFC_PHYS \<in> P"
  shows "keeps (charged P True R) (base_pfc h)" "keeps (charged P True R) (force_rest_high h)"
    "keeps (charged P True R) (read_pen h)" "keeps (charged P True R) (restore_pfc h sn)"
proof -
  note rules = charged_reads [OF assms(1)] charged_writes [OF assms(1)] charged_rules
  show base: "keeps (charged P True R) (base_pfc h)"
    unfolding base_pfc_def rmw16_def by (rule rules | simp add: assms(2))+
  show rest: "keeps (charged P True R) (force_rest_high h)"
    unfolding force_rest_high_def rmw8_def by (rule base rules | simp add: assms(2))+
  have "keeps (charged P True R) (pen_loop h n c v)" for n c v
    by (induction n arbitrary: c v) (simp_all, (rule rules | assumption | simp add: assms(2))+)
  then show "keeps (charged P True R) (read_pen h)"
    unfolding read_pen_def rmw16_def by - (rule base rules | assumption | simp add: assms(2))+
  have "keeps (charged P True R) (verify_pfc h sn)"
    unfolding verify_pfc_def
    by (rule charged_hold) (auto simp: check16_def check8_def assms(2) intro!: rules)
  then show "keeps (charged P True R) (restore_pfc h sn)"
    unfolding restore_pfc_def rmw16_def rmw8_def by - (rule rest rules | assumption | simp add: assms(2))+
qed

lemma charged_clock:
  assumes "fitted P True R" and "CPG_PHYS \<in> P"
  shows "keeps (charged P True R) (open_adc_clock h)" "keeps (charged P True R) (restore_adc_clock h g)"
  unfolding open_adc_clock_def restore_adc_clock_def
  by (rule charged_reads [OF assms(1)] charged_writes [OF assms(1)] charged_rules | simp add: assms(2))+

lemma charged_adc:
  assumes "fitted P True R" and "{PFC_PHYS, CPG_PHYS, ADC_PHYS} \<subseteq> P"
  shows "keeps (charged P True R) (adc_cleanup h)" "keeps (charged P True R) (adc_once h)"
  unfolding adc_cleanup_def adc_once_def adc_drive_def convert_def rmw16_def rmw8_def
  by (rule charged_clock [OF assms(1)] charged_wait [OF assms(1)] charged_reads [OF assms(1)] charged_writes [OF assms(1)] charged_rules
      | use assms(2) in simp)+

lemma charged_works:
  "fitted {PFC_PHYS} True R \<Longrightarrow> keeps (charged {PFC_PHYS} True R) (pen_work h)"
  "fitted {CPG_PHYS} True R' \<Longrightarrow> keeps (charged {CPG_PHYS} True R') (clock_work h)"
  "fitted {PFC_PHYS, CPG_PHYS, ADC_PHYS} True R'' \<Longrightarrow> keeps (charged {PFC_PHYS, CPG_PHYS, ADC_PHYS} True R'') (adc_work h)"
  unfolding pen_work_def clock_work_def adc_work_def adc_contact_def adc_undo_def
  by (rule charged_capture charged_pfc charged_clock charged_adc charged_reads charged_rules | simp)+

section \<open>Checks\<close>

lemma driver_checked: "triple (accounted ok R) (experimental_driver_absent h) (\<lambda>b. accounted ok (if b then insert Absent R else R - {Absent}))"
  unfolding experimental_driver_absent_def by (rule triple_bind [OF accounted_call], rule triple_ret) (simp split: if_splits)

lemma hardware_checked:
  assumes "Framebuffer \<notin> R"
  shows "keeps (accounted ok R) (expected_hardware h)"
proof -
  let ?F = "\<lambda>f :: int. if f < 0 then R else insert Framebuffer R"
  have op: "effect (Called (Open_fb0 False) f) R = ?F f" for f by simp
  have cl: "effect (Called Close_fb0 r) (?F f) = R" for f r using assms by auto
  have look: "keeps (accounted ok S) (if f < 0 then ret (Some 0) else first_failure [fails h Fb_fscreeninfo, fails h Fb_vscreeninfo,
      unless h (\<lambda>w. fit_screen (screen h w))])" for S and f :: int
    by (rule keeps_if, rule keeps_ret, rule keeps_first) (simp add: accounted_fails accounted_unless)
  have shut: "triple (accounted ok (?F f)) (onlyif (f \<ge> 0) (do { _ \<leftarrow> syscall h Close_fb0; ret () })) (\<lambda>_. accounted ok R)" for f :: int
    unfolding onlyif_def
    by (rule triple_if, rule triple_bind [OF accounted_call], unfold cl, rule triple_ret, assumption, rule triple_ret) simp
  show ?thesis
    unfolding expected_hardware_def keeps_def
    by (rule triple_bind [OF accounted_call], unfold op, rule triple_keeps [OF look], rule triple_bind [OF shut], rule triple_ret)
qed

lemma console_checked: "keeps (accounted ok R) (active_text_vt h)"
  unfolding active_text_vt_def
  by (rule keeps_bind, rule accounted_neutral, simp, rule keeps_if, rule keeps_ret, rule keeps_bind, rule keeps_first)
    (simp_all add: accounted_fails accounted_unless keeps_ret)

lemma preflight_checked:
  "triple (accounted ok {}) (preflight_write h) (\<lambda>b s. if b then accounted ok {Absent} s else accounted ok {} s)"
proof -
  have out: "triple (accounted ok R) (do { touch_complain t; ret False }) (\<lambda>b s. if b then accounted ok {Absent} s else accounted ok {} s)"
    if "R = {}" for R t
    by (rule triple_keeps [OF charged_complain], rule triple_ret) (simp add: that)
  show ?thesis
    unfolding preflight_write_def
    apply (rule triple_keeps, rule accounted_neutral, simp)
    apply (rule triple_if, rule out, simp)
    apply (rule triple_keeps, rule hardware_checked, simp)
    apply (rule triple_if, rule out, simp)
    apply (rule triple_keeps [OF console_checked])
    apply (rule triple_if, rule out, simp)
    apply (rule triple_bind [OF driver_checked])
    apply (rule triple_if, rule out, simp)
    apply (rule triple_ret, simp)
    done
qed

section \<open>Mappings\<close>

definition owned :: "bool \<Rightarrow> maps \<Rightarrow> resource set" where
  "owned t m = (if map_fd m \<ge> 0 then {Devmem} else {}) \<union>
     (if map_pfc m \<noteq> MAP_FAILED then {Mapping (map_pfc m) PFC_PHYS 4096 t} else {}) \<union>
     (if map_cpg m \<noteq> MAP_FAILED then {Mapping (map_cpg m) CPG_PHYS 4096 t} else {}) \<union>
     (if map_adc m \<noteq> MAP_FAILED then {Mapping (map_adc m) ADC_PHYS 4096 t} else {})"

lemma touch_maps_closed:
  assumes "settled R"
  shows "triple (accounted ok (R \<union> owned t m)) (close_maps h m) (\<lambda>_. accounted ok R)"
proof -
  let ?a = "if map_adc m \<noteq> MAP_FAILED then {x \<in> owned t m. \<not> mapped_at (map_adc m) x} else owned t m"
  let ?c = "if map_cpg m \<noteq> MAP_FAILED then {x \<in> ?a. \<not> mapped_at (map_cpg m) x} else ?a"
  let ?p = "if map_pfc m \<noteq> MAP_FAILED then {x \<in> ?c. \<not> mapped_at (map_pfc m) x} else ?c"
  have none: "(if map_fd m \<ge> 0 then ?p - {Devmem} else ?p) = {}"
    by (auto simp: owned_def)
  show ?thesis
    unfolding close_maps_def
    by (rule triple_bind [OF accounted_unmap [OF assms]], rule triple_bind [OF accounted_unmap [OF assms]],
        rule triple_bind [OF accounted_unmap [OF assms]], rule triple_post [OF accounted_close [OF assms]], simp only: none Un_empty_right)
qed

lemma touch_page_mapped:
  "triple (accounted ok R) (map_page h w 4096 p t)
     (\<lambda>(b, v) s. accounted ok (if v \<noteq> MAP_FAILED then insert (Mapping v p 4096 t) R else R) s \<and> (b \<longrightarrow> w \<longrightarrow> v \<noteq> MAP_FAILED))"
proof -
  have e: "effect (Called (Mmap p 4096 t) r) R = (if page_of r = MAP_FAILED then R else insert (Mapping (page_of r) p 4096 t) R)" for r
    by simp
  show ?thesis
    unfolding map_page_def
    apply (rule triple_if, rule triple_ret, simp)
    apply (rule triple_bind [OF accounted_call], unfold e, rule triple_if)
     apply (rule triple_keeps [OF charged_complain], rule triple_ret, simp)
    apply (rule triple_ret, simp)
    done
qed

definition obtained :: "u32 \<Rightarrow> maps \<Rightarrow> bool" where
  "obtained wanted m \<longleftrightarrow> (wanted AND MAP_PFC \<noteq> 0 \<longrightarrow> map_pfc m \<noteq> MAP_FAILED) \<and>
     (wanted AND MAP_CPG \<noteq> 0 \<longrightarrow> map_cpg m \<noteq> MAP_FAILED) \<and> (wanted AND MAP_ADC \<noteq> 0 \<longrightarrow> map_adc m \<noteq> MAP_FAILED)"

definition got :: "(access \<Rightarrow> resource set \<Rightarrow> bool) \<Rightarrow> u32 \<Rightarrow> bool \<Rightarrow> resource set \<Rightarrow> maps option \<Rightarrow> 'w diag \<Rightarrow> bool" where
  "got ok wanted t R mo s = (case mo of None \<Rightarrow> accounted ok R s | Some m \<Rightarrow> obtained wanted m \<and> accounted ok (R \<union> owned t m) s)"

lemma mapping_step:
  assumes "\<And>p. owned t (u p) = owned t m \<union> (if p \<noteq> MAP_FAILED then {Mapping p base 4096 t} else {})"
    and "\<And>p. triple (accounted ok (R \<union> owned t (u p))) (f p) Q"
    and "\<And>p. w \<longrightarrow> p \<noteq> MAP_FAILED \<Longrightarrow> triple (accounted ok (R \<union> owned t (u p))) (k p) Q"
  shows "triple (accounted ok (R \<union> owned t m)) (map_page h w 4096 base t \<bind> (\<lambda>(b, p). if \<not> b then f p else k p)) Q"
proof (rule triple_bind [OF touch_page_mapped])
  fix bp :: "bool \<times> u32"
  obtain b p where bp: "bp = (b, p)" by (rule prod.exhaust)
  have e: "(if p \<noteq> MAP_FAILED then insert (Mapping p base 4096 t) (R \<union> owned t m) else R \<union> owned t m) = R \<union> owned t (u p)"
    by (auto simp: assms(1))
  show "triple (case bp of (b, v) \<Rightarrow> \<lambda>s. accounted ok (if v \<noteq> MAP_FAILED then insert (Mapping v base 4096 t) (R \<union> owned t m) else R \<union> owned t m) s \<and>
      (b \<longrightarrow> w \<longrightarrow> v \<noteq> MAP_FAILED)) (case bp of (b, p) \<Rightarrow> if \<not> b then f p else k p) Q"
    unfolding bp prod.case e
    using assms(2) [of p] assms(3) [of p] by (cases b) (auto simp: triple_def)
qed

lemma touch_maps_opened:
  assumes "settled R"
  shows "triple (accounted ok R) (open_maps h wanted t) (got ok wanted t R)"
proof -
  let ?m = "\<lambda>f. no_maps\<lparr>map_fd := f, map_size := 4096\<rparr>"
  have out: "triple (accounted ok R) (do { touch_complain c; ret None }) (got ok wanted t R)" for c
    by (rule triple_keeps [OF charged_complain], rule triple_ret) (simp add: got_def)
  have fail: "triple (accounted ok (R \<union> owned t m)) (do { close_maps h m; ret None }) (got ok wanted t R)" for m
    by (rule triple_bind [OF touch_maps_closed [OF assms]], rule triple_ret) (simp add: got_def)
  have fd: "effect (Called (Open_devmem t) f) R = (if f < 0 then R else R \<union> owned t (?m f))" for f
    by (simp add: owned_def no_maps_def)
  show ?thesis
    unfolding open_maps_def Let_def
    apply (rule triple_keeps, rule accounted_neutral, simp)
    apply (rule triple_if, rule out)
    apply (rule triple_keeps, rule accounted_neutral, simp)
    apply (rule triple_keeps [OF keeps_gets], rule triple_if, rule out)
    apply (rule triple_bind [OF accounted_call], unfold fd, rule triple_if)
     apply (simp only: if_True, rule out)
    apply (simp only: if_False)
    subgoal for _ _ _ f
      apply (rule mapping_step [where u = "\<lambda>p. (?m f)\<lparr>map_pfc := p\<rparr>"], simp add: owned_def no_maps_def, rule fail)
      subgoal for p
        apply (rule mapping_step [where u = "\<lambda>q. (?m f)\<lparr>map_pfc := p, map_cpg := q\<rparr>"])
          apply (auto simp: owned_def no_maps_def)[1]
         apply (rule fail)
        subgoal for q
          apply (rule mapping_step [where u = "\<lambda>r. (?m f)\<lparr>map_pfc := p, map_cpg := q, map_adc := r\<rparr>"])
            apply (auto simp: owned_def no_maps_def)[1]
           apply (rule fail)
          apply (rule triple_ret, simp add: got_def obtained_def)
          done
        done
      done
    done
qed

section \<open>The frame of the tests\<close>

definition over :: "u32 set \<Rightarrow> bool \<Rightarrow> resource set \<Rightarrow> resource set \<Rightarrow> 'w diag \<Rightarrow> bool" where
  "over P t M S s \<longleftrightarrow> (\<exists>T \<subseteq> S. charged P t (T \<union> M) s)"

abbreviation resting :: "u32 set \<Rightarrow> bool \<Rightarrow> 'w diag \<Rightarrow> bool" where
  "resting P t \<equiv> over P t {} {Masked, Absent}"

lemma overI: "charged P t (T \<union> M) s \<Longrightarrow> T \<subseteq> S \<Longrightarrow> over P t M S s"
  unfolding over_def by blast

lemma restI: "charged P t T s \<Longrightarrow> T \<subseteq> {Masked, Absent} \<Longrightarrow> resting P t s"
  using overI [where M = "{}"] by simp

lemma triple_over: "(\<And>T. T \<subseteq> S \<Longrightarrow> triple (charged P t (T \<union> M)) m Q) \<Longrightarrow> triple (over P t M S) m Q"
  by (rule triple_ex [where H = "\<lambda>T. charged P t (T \<union> M)" and c = "\<lambda>T. T \<subseteq> S"]) (auto simp: over_def)

lemma fitted_owned:
  assumes "obtained wanted m" and "P \<subseteq> {PFC_PHYS, CPG_PHYS, ADC_PHYS}" and "PFC_PHYS \<in> P \<longrightarrow> wanted AND MAP_PFC \<noteq> 0"
    and "CPG_PHYS \<in> P \<longrightarrow> wanted AND MAP_CPG \<noteq> 0" and "ADC_PHYS \<in> P \<longrightarrow> wanted AND MAP_ADC \<noteq> 0"
    and "t \<longrightarrow> {Locked, Masked, Absent} \<subseteq> R"
  shows "fitted P t (R \<union> owned t m)"
proof -
  have "\<exists>v. Mapping v p 4096 t \<in> owned t m" if "p \<in> P" for p
  proof -
    from that assms(2) consider "p = PFC_PHYS" | "p = CPG_PHYS" | "p = ADC_PHYS" by blast
    then show ?thesis using that assms(1,3,4,5) by cases (auto simp: obtained_def owned_def)
  qed
  then show ?thesis using assms(6) by (auto simp: fitted_def)
qed

abbreviation tested :: "resource set" where
  "tested \<equiv> {Lock_file, Locked, Masked, Absent}"

lemma work_framed:
  assumes "fitted P True (insert Masked (R \<union> M))" and "\<And>S. fitted P True S \<Longrightarrow> keeps (charged P True S) work"
    and "Absent \<in> R" and "R \<subseteq> tested" and "Absent \<notin> M"
  shows "triple (charged P True (R \<union> M)) (framed_work h announcement work) (\<lambda>_. over P True M tested)"
proof -
  have m: "insert Absent (insert Masked (R \<union> M)) = insert Masked R \<union> M" using assms(3) by auto
  have m': "insert Masked (R \<union> M) - {Absent} = insert Masked (R - {Absent}) \<union> M" using assms(5) by auto
  have work: "keeps (charged P True (insert Masked R \<union> M)) work" using assms(1,2) by simp
  have blk: "triple (charged P True (R \<union> M)) (if (f :: int) \<noteq> 0 then ret False else block_async_signals h)
      (\<lambda>b. charged P True (if b then insert Masked (R \<union> M) else R \<union> M))" for f
    unfolding block_async_signals_def by (rule triple_if, rule triple_ret, simp, rule accounted_block)
  show ?thesis
    unfolding framed_work_def
    apply (rule triple_keeps [OF accounted_say(1)], rule triple_keeps, rule accounted_neutral, simp)
    apply (rule triple_bind [OF blk], rule triple_if)
     apply (rule triple_ret, rule overI [where T = R], simp, rule assms(4))
    apply (simp only: not_not if_True, rule triple_bind [OF driver_checked], rule triple_if)
     apply (simp only: if_False m', rule triple_keeps [OF charged_complain], rule triple_ret, erule overI)
     apply (use assms(4) in blast)
    apply (simp only: not_not if_True m, rule triple_keeps [OF work], rule triple_ret, erule overI)
    apply (use assms(4) in blast)
    done
qed

lemma test_framed:
  assumes "P \<subseteq> {PFC_PHYS, CPG_PHYS, ADC_PHYS}" and "PFC_PHYS \<in> P \<longrightarrow> wanted AND MAP_PFC \<noteq> 0"
    and "CPG_PHYS \<in> P \<longrightarrow> wanted AND MAP_CPG \<noteq> 0" and "ADC_PHYS \<in> P \<longrightarrow> wanted AND MAP_ADC \<noteq> 0"
    and "\<And>S. fitted P True S \<Longrightarrow> keeps (charged P True S) work"
  shows "triple (charged P True {}) (framed_test h wanted announcement work) (\<lambda>_. resting P True)"
proof -
  let ?L = "insert Locked (insert Lock_file {Absent})"
  have out: "triple (charged P True R) (ret r) (\<lambda>_. resting P True)" if "R \<subseteq> {Absent}" for R and r :: int
    by (rule triple_ret, rule overI [where T = R]) (use that in auto)
  have lock: "triple (charged P True {Absent}) (acquire_lock h) (\<lambda>f. charged P True (if f < 0 then {Absent} else ?L))"
    unfolding acquire_lock_def by (rule accounted_lock) (simp_all add: charged_complain)
  have freed: "effect (Called Close_lock c) T = T - {Lock_file, Locked}" for c T by simp
  have undo: "triple (over P True (owned True m) tested) (do {
       close_maps h m;
       _ \<leftarrow> syscall h Close_lock;
       onlyif b (do { _ \<leftarrow> syscall h Sigprocmask_setmask; ret () });
       onlyif d (say Stdout u);
       ret r }) (\<lambda>_. resting P True)" for m b d u and r :: int
  proof (rule triple_over)
    fix T assume T: "T \<subseteq> tested"
    then have st: "settled T" by (auto simp: settled_def)
    have mask: "triple (charged P True (T - {Lock_file, Locked})) (onlyif b (do { _ \<leftarrow> syscall h Sigprocmask_setmask; ret () }))
        (\<lambda>_. resting P True)"
      unfolding onlyif_def
      apply (rule triple_if, rule triple_bind [OF accounted_call], rule triple_ret, erule restI)
       apply (use T in \<open>auto split: if_splits\<close>)[1]
      apply (rule triple_ret, erule restI, use T in auto)
      done
    have quiet: "keeps (resting P True) (onlyif d (say Stdout u))"
      by (rule keeps_onlyif, unfold keeps_def, rule triple_over, rule triple_post [OF accounted_say(1) [unfolded keeps_def]], erule overI)
    show "triple (charged P True (T \<union> owned True m)) (do {
       close_maps h m;
       _ \<leftarrow> syscall h Close_lock;
       onlyif b (do { _ \<leftarrow> syscall h Sigprocmask_setmask; ret () });
       onlyif d (say Stdout u);
       ret r }) (\<lambda>_. resting P True)"
      apply (rule triple_bind [OF touch_maps_closed [OF st]], rule triple_bind [OF accounted_call], unfold freed)
      apply (rule triple_bind [OF mask], rule triple_keeps [OF quiet], rule triple_ret, assumption)
      done
  qed
  have pre: "triple (charged P True {}) (preflight_write h) (\<lambda>b. charged P True (if b then {Absent} else {}))"
    by (rule triple_post [OF preflight_checked]) (simp split: if_splits)
  have unlocked: "triple (charged P True ?L) (do { _ \<leftarrow> syscall h Close_lock; ret (1 :: int) }) (\<lambda>_. resting P True)"
    by (rule triple_bind [OF accounted_call], unfold freed, rule out) auto
  have inner: "triple (got (permitted P True) wanted True ?L mo) (case mo of None \<Rightarrow> do { _ \<leftarrow> syscall h Close_lock; ret 1 }
         | Some m \<Rightarrow> do {
             (blocked, r, report) \<leftarrow> framed_work h announcement work;
             close_maps h m;
             _ \<leftarrow> syscall h Close_lock;
             onlyif blocked (do { _ \<leftarrow> syscall h Sigprocmask_setmask; ret () });
             onlyif (report \<noteq> []) (say Stdout (concat (map line report)));
             ret r }) (\<lambda>_. resting P True)" for mo
  proof (cases mo)
    case None
    then show ?thesis using unlocked by (simp add: got_def triple_def)
  next
    case (Some m)
    have f: "fitted P True (insert Masked (?L \<union> owned True m))" if "obtained wanted m"
      using fitted_owned [OF that assms(1-4), of True "insert Masked ?L"] by simp
    have "triple (charged P True (?L \<union> owned True m)) (do {
             (blocked, r, report) \<leftarrow> framed_work h announcement work;
             close_maps h m;
             _ \<leftarrow> syscall h Close_lock;
             onlyif blocked (do { _ \<leftarrow> syscall h Sigprocmask_setmask; ret () });
             onlyif (report \<noteq> []) (say Stdout (concat (map line report)));
             ret r }) (\<lambda>_. resting P True)" if "obtained wanted m"
      apply (rule triple_bind [OF work_framed [OF f [OF that] assms(5)]], assumption, simp, simp, simp add: owned_def)
      apply (simp only: case_prod_beta, rule undo)
      done
    then show ?thesis using Some by (auto simp: got_def triple_def)
  qed
  show ?thesis
    unfolding framed_test_def
    apply (rule triple_bind [OF pre], rule triple_if, rule out, simp)
    apply (simp only: not_not if_True, rule triple_bind [OF lock], rule triple_if)
     apply (simp only: if_True, rule out, simp)
    apply (simp only: if_False, rule triple_bind [OF touch_maps_opened], simp)
    apply (rule inner)
    done
qed

lemma shown_framed:
  assumes "P \<subseteq> {PFC_PHYS, CPG_PHYS, ADC_PHYS}" and "PFC_PHYS \<in> P \<longrightarrow> wanted AND MAP_PFC \<noteq> 0"
    and "CPG_PHYS \<in> P \<longrightarrow> wanted AND MAP_CPG \<noteq> 0" and "ADC_PHYS \<in> P \<longrightarrow> wanted AND MAP_ADC \<noteq> 0"
    and "\<And>S. fitted P False S \<Longrightarrow> keeps (charged P False S) work"
  shows "triple (charged P False {}) (do {
     ok \<leftarrow> preflight_write h;
     mo \<leftarrow> (if ok then open_maps h wanted False else ret None);
     case mo of None \<Rightarrow> ret 1
     | Some m \<Rightarrow> do { v \<leftarrow> work; close_maps h m; say Stdout (t v); say Stdout (u v); ret (0 :: int) } }) (\<lambda>_. resting P False)"
proof -
  have out: "triple (charged P False R) (ret r) (\<lambda>_. resting P False)" if "R \<subseteq> {Absent}" for R and r :: int
    by (rule triple_ret, rule overI [where T = R]) (use that in auto)
  have pre: "triple (charged P False {}) (preflight_write h) (\<lambda>b. charged P False (if b then {Absent} else {}))"
    by (rule triple_post [OF preflight_checked]) (simp split: if_splits)
  have maps: "triple (charged P False (if b then {Absent} else {})) (if b then open_maps h wanted False else ret None)
      (\<lambda>mo s. \<exists>R \<subseteq> {Absent}. got (permitted P False) wanted False R mo s)" for b
  proof (cases b)
    case True
    show ?thesis
      by (simp only: True if_True, rule triple_post [OF touch_maps_opened [of "{Absent}"]]) (simp, rule exI [of _ "{Absent}"], simp)
  next
    case False
    show ?thesis
      by (simp only: False if_False, rule triple_ret) (rule exI [of _ "{}"], simp add: got_def)
  qed
  show ?thesis
    apply (rule triple_bind [OF pre], rule triple_bind [OF maps])
    subgoal for b mo
    proof (rule triple_ex [where c = "\<lambda>R. R \<subseteq> {Absent}" and H = "\<lambda>R. got (permitted P False) wanted False R mo"], blast)
      fix R :: "resource set" assume R: "R \<subseteq> {Absent}"
      then have st: "settled R" by (auto simp: settled_def)
      show "triple (got (permitted P False) wanted False R mo) (case mo of None \<Rightarrow> ret 1
         | Some m \<Rightarrow> do { v \<leftarrow> work; close_maps h m; say Stdout (t v); say Stdout (u v); ret (0 :: int) }) (\<lambda>_. resting P False)"
      proof (cases mo)
        case None
        then show ?thesis using out [OF R, of 1] by (simp add: got_def triple_def)
      next
        case (Some m)
        have "triple (charged P False (R \<union> owned False m)) (do { v \<leftarrow> work; close_maps h m; say Stdout (t v); say Stdout (u v); ret (0 :: int) })
            (\<lambda>_. resting P False)" if o: "obtained wanted m"
          by (rule triple_keeps [OF assms(5) [OF fitted_owned [OF o assms(1-4)]]], simp, rule triple_bind [OF touch_maps_closed [OF st]],
              rule triple_keeps [OF accounted_say(1)], rule triple_keeps [OF accounted_say(1)], rule out [OF R])
        then show ?thesis using Some by (auto simp: got_def triple_def)
      qed
    qed
    done
qed

lemma ret_bind: "ret a \<bind> f = f a"
  by (simp add: ret_def State_Monad.bind_def)

lemma show_pfc_shape:
  "show_pfc h = do {
     ok \<leftarrow> preflight_write h;
     mo \<leftarrow> (if ok then open_maps h MAP_PFC False else ret None);
     case mo of None \<Rightarrow> ret 1
     | Some m \<Rightarrow> do {
         v \<leftarrow> do { sn \<leftarrow> capture_pfc h; pldr \<leftarrow> mmio_read8 h (PFC_PHYS + PLDR_OFF); io_barrier; ret (sn, pldr) };
         close_maps h m;
         say Stdout (line (''PGCR='' @ hex 4 (unat (s_pgcr (fst v))) @ '' PHCR='' @ hex 4 (unat (s_phcr (fst v))) @ '' PLCR='' @
           hex 4 (unat (s_plcr (fst v))) @ '' PGDR='' @ hex 2 (unat (s_pgdr (fst v))) @ '' PHDR='' @ hex 2 (unat (s_phdr (fst v))) @
           '' PLDR='' @ hex 2 (unat (snd v))));
         say Stdout (line (''PSELE='' @ hex 4 (unat (s_psele (fst v))) @ '' MSELCRA='' @ hex 4 (unat (s_mselcra (fst v))) @
           '' PFC_A='' @ hex 4 (unat (s_pfc_a (fst v))) @ '' (read-only snapshot)''));
         ret 0 } }"
  unfolding show_pfc_def bind_assoc ret_bind fst_conv snd_conv by (rule refl)

lemma show_clock_shape:
  "show_clock h = do {
     ok \<leftarrow> preflight_write h;
     mo \<leftarrow> (if ok then open_maps h MAP_CPG False else ret None);
     case mo of None \<Rightarrow> ret 1
     | Some m \<Rightarrow> do {
         v \<leftarrow> do { frqcra \<leftarrow> mmio_read32 h (CPG_PHYS + FRQCRA_OFF); mstpcr2 \<leftarrow> mmio_read32 h (CPG_PHYS + MSTPCR2_OFF); io_barrier;
           ret (frqcra, mstpcr2) };
         close_maps h m;
         say Stdout (line (''FRQCRA=0x'' @ hex 8 (unat (fst v)) @ '' MSTPCR2=0x'' @ hex 8 (unat (snd v)) @ '' ADC-clock-bit27='' @
           (if snd v AND ADC_CLOCK_BIT \<noteq> 0 then ''stopped'' else ''running'')));
         say Stdout (line ''Read-only CPG snapshot; no clock was changed.'');
         ret 0 } }"
  unfolding show_clock_def bind_assoc ret_bind fst_conv snd_conv by (rule refl)

lemma main_rests:
  assumes "parse_command args = Command c"
  shows "triple (charged (pages_of c) (writing c) {}) (touchdiag_main h args) (\<lambda>_. resting (pages_of c) (writing c))"
proof -
  note d = MAP_PFC_def MAP_CPG_def MAP_ADC_def PFC_PHYS_def CPG_PHYS_def ADC_PHYS_def
  have reads: "fitted {PFC_PHYS} False S \<Longrightarrow> keeps (charged {PFC_PHYS} False S)
      (do { sn \<leftarrow> capture_pfc h; pldr \<leftarrow> mmio_read8 h (PFC_PHYS + PLDR_OFF); io_barrier; ret (sn, pldr) })"
    "fitted {CPG_PHYS} False S \<Longrightarrow> keeps (charged {CPG_PHYS} False S)
      (do { frqcra \<leftarrow> mmio_read32 h (CPG_PHYS + FRQCRA_OFF); mstpcr2 \<leftarrow> mmio_read32 h (CPG_PHYS + MSTPCR2_OFF); io_barrier; ret (frqcra, mstpcr2) })" for S
    by (rule charged_capture charged_reads charged_rules | assumption | simp)+
  have info: "triple (charged {} False {}) (show_info h) (\<lambda>_. resting {} False)"
    unfolding show_info_def
    by ((rule triple_keeps [OF accounted_say(1)])+, rule triple_ret, erule restI, simp)
  have pfc: "triple (charged {PFC_PHYS} False {}) (show_pfc h) (\<lambda>_. resting {PFC_PHYS} False)"
    unfolding show_pfc_shape by (rule shown_framed) (simp_all add: d reads [unfolded d])
  have clock: "triple (charged {CPG_PHYS} False {}) (show_clock h) (\<lambda>_. resting {CPG_PHYS} False)"
    unfolding show_clock_shape by (rule shown_framed) (simp_all add: d reads [unfolded d])
  have pen: "triple (charged {PFC_PHYS} True {}) (run_pen h) (\<lambda>_. resting {PFC_PHYS} True)"
    unfolding run_pen_def by (rule test_framed [OF _ _ _ _ charged_works(1)]) (simp_all add: d)
  have clock_on: "triple (charged {CPG_PHYS} True {}) (run_clock_test h) (\<lambda>_. resting {CPG_PHYS} True)"
    unfolding run_clock_test_def by (rule test_framed [OF _ _ _ _ charged_works(2)]) (simp_all add: d)
  have adc: "triple (charged {PFC_PHYS, CPG_PHYS, ADC_PHYS} True {}) (run_adc h) (\<lambda>_. resting {PFC_PHYS, CPG_PHYS, ADC_PHYS} True)"
    unfolding run_adc_def by (rule test_framed [OF _ _ _ _ charged_works(3)]) (simp_all add: d)
  show ?thesis
    unfolding touchdiag_main_def assms parsed_command.case
    by (cases c) (simp_all add: writing_def info pfc clock pen clock_on adc)
qed

end
