(* ===== verification/Touchdiag_Trace.thy ===== *)
theory Touchdiag_Trace
  imports Touchdiag_Facts
begin

text \<open>
  The accesses of the touch pad diagnostic in their order: when the converter may be accessed, and
  what was seen of each register first and last.
\<close>

section \<open>Accesses in order\<close>

fun accessed :: "event list \<Rightarrow> access list" where
  "accessed [] = []"
| "accessed (Accessed x # es) = x # accessed es"
| "accessed (_ # es) = accessed es"

definition trail :: "(access list \<Rightarrow> bool) \<Rightarrow> 'w diag \<Rightarrow> bool" where
  "trail K s \<longleftrightarrow> K (accessed (log s))"

lemma trail_call: "keeps (trail K) (syscall h c)" "keeps (trail K) (say out t)" "keeps (trail K) io_barrier" "keeps (trail K) (touch_complain t)"
  by (auto intro!: keepsI simp: run_diag say_def io_barrier_def touch_complain_def trail_def)

lemma trail_access:
  "(\<And>v xs. K xs \<Longrightarrow> K (Rd8 a v # xs)) \<Longrightarrow> keeps (trail K) (mmio_read8 h a)"
  "(\<And>v xs. K xs \<Longrightarrow> K (Rd16 a v # xs)) \<Longrightarrow> keeps (trail K) (mmio_read16 h a)"
  "(\<And>v xs. K xs \<Longrightarrow> K (Rd32 a v # xs)) \<Longrightarrow> keeps (trail K) (mmio_read32 h a)"
  "(\<And>xs. K xs \<Longrightarrow> K (Wr8 a x # xs)) \<Longrightarrow> keeps (trail K) (mmio_write8 h a x)"
  "(\<And>xs. K xs \<Longrightarrow> K (Wr16 a y # xs)) \<Longrightarrow> keeps (trail K) (mmio_write16 h a y)"
  "(\<And>xs. K xs \<Longrightarrow> K (Wr32 a z # xs)) \<Longrightarrow> keeps (trail K) (mmio_write32 h a z)"
  by (auto intro!: keepsI simp: run_diag trail_def)

lemmas trail_flow = trail_call flow_rules

text \<open>The parts of the program that access no register.\<close>

lemma trail_fails: "keeps (trail K) (fails h c)" "keeps (trail K) (unless h p)"
  unfolding fails_def unless_def by (rule trail_flow)+

lemma trail_checks:
  "keeps (trail K) (experimental_driver_absent h)" "keeps (trail K) (expected_hardware h)" "keeps (trail K) (active_text_vt h)"
  "keeps (trail K) (acquire_lock h)" "keeps (trail K) (close_maps h m)" "keeps (trail K) (map_page h w l p t)" "keeps (trail K) (block_async_signals h)"
  unfolding experimental_driver_absent_def expected_hardware_def active_text_vt_def acquire_lock_def close_maps_def map_page_def
    block_async_signals_def
  by (rule trail_flow keeps_first | simp add: trail_fails)+

lemma trail_opened: "keeps (trail K) (open_maps h w t)" "keeps (trail K) (preflight_write h)"
  unfolding open_maps_def preflight_write_def by (rule trail_checks trail_flow)+

text \<open>A test leaves the trail its work leaves.\<close>

lemma framed_trail:
  assumes "triple (trail K) work (\<lambda>(r, _). trail (Q r))" and "\<And>xs. K xs \<Longrightarrow> Q 1 xs"
  shows "triple (trail K) (framed_test h wanted announcement work) (\<lambda>r. trail (Q r))"
proof -
  have out: "triple (trail K) (ret 1) (\<lambda>r. trail (Q r))"
    by (rule triple_ret) (simp add: trail_def assms(2))
  have inner: "triple (trail K) (framed_work h announcement work) (\<lambda>(b, r, rep). trail (Q r))"
    unfolding framed_work_def
    apply (rule triple_keeps [OF trail_call(2)], rule triple_keeps [OF trail_call(1)], rule triple_keeps, (rule keeps_if keeps_ret trail_checks)+)
    apply (rule triple_if, rule triple_ret, simp add: trail_def assms(2))
    apply (rule triple_keeps [OF trail_checks(1)], rule triple_if)
     apply (rule triple_keeps [OF trail_call(4)], rule triple_ret, simp add: trail_def assms(2))
    apply (rule triple_bind [OF assms(1)], rule triple_ret, simp add: case_prod_beta)
    done
  show ?thesis
    unfolding framed_test_def
    apply (rule triple_keeps [OF trail_opened(2)], rule triple_if, rule out)
    apply (rule triple_keeps [OF trail_checks(4)], rule triple_if, rule out)
    apply (rule triple_keeps [OF trail_opened(1)])
    subgoal for _ _ mo
      apply (cases mo; simp only: option.case)
       apply (rule triple_keeps [OF trail_call(1)], rule out)
      apply (rule triple_bind [OF inner], simp only: case_prod_beta)
      apply (rule triple_keeps [OF trail_checks(5)], rule triple_keeps [OF trail_call(1)], rule triple_keeps, (rule trail_flow)+)
      apply (rule triple_keeps, (rule trail_flow)+, rule triple_ret, assumption)
      done
    done
qed

section \<open>Registers seen\<close>

fun datum :: "access \<Rightarrow> u32" where
  "datum (Rd8 a v) = ucast v" | "datum (Rd16 a v) = ucast v" | "datum (Rd32 a v) = v"
| "datum (Wr8 a v) = ucast v" | "datum (Wr16 a v) = ucast v" | "datum (Wr32 a v) = v"

text \<open>The last and the first value read from or written to a register.\<close>

definition latest :: "u32 \<Rightarrow> access list \<Rightarrow> u32 option" where
  "latest a xs = map_option datum (find (\<lambda>x. address x = a) xs)"

definition earliest :: "u32 \<Rightarrow> access list \<Rightarrow> u32 option" where
  "earliest a xs = latest a (rev xs)"

lemma latest_simps [simp]:
  "latest a [] = None" "latest a (x # xs) = (if address x = a then Some (datum x) else latest a xs)"
  by (simp_all add: latest_def)

lemma latest_append: "latest a (xs @ ys) = (case latest a xs of None \<Rightarrow> latest a ys | Some v \<Rightarrow> Some v)"
  by (induction xs) simp_all

lemma earliest_simps [simp]:
  "earliest a [] = None" "earliest a (x # xs) = (case earliest a xs of None \<Rightarrow> if address x = a then Some (datum x) else None | Some v \<Rightarrow> Some v)"
  by (simp_all add: earliest_def latest_append split: option.split)

abbreviation MSTPCR2 :: u32 where "MSTPCR2 \<equiv> CPG_PHYS + MSTPCR2_OFF"
abbreviation PLDR :: u32 where "PLDR \<equiv> PFC_PHYS + PLDR_OFF"

section \<open>When the converter is accessed\<close>

definition pen_down :: "access list \<Rightarrow> bool" where
  "pen_down xs \<longleftrightarrow> (\<exists>v. latest PLDR xs = Some v \<and> v AND 2 = 0)"

definition primed :: "access list \<Rightarrow> bool" where
  "primed xs \<longleftrightarrow> pen_down xs \<and> (\<exists>v. latest MSTPCR2 xs = Some v \<and> v AND ADC_CLOCK_BIT = 0)"

fun sparing :: "access list \<Rightarrow> bool" where
  "sparing [] = True"
| "sparing (x # xs) = ((page (address x) = ADC_PHYS \<longrightarrow> primed xs) \<and> sparing xs)"

lemma pages_apart [simp]: "PFC_PHYS \<noteq> ADC_PHYS" "CPG_PHYS \<noteq> ADC_PHYS" "PFC_PHYS \<noteq> CPG_PHYS" "CPG_PHYS \<noteq> PFC_PHYS" "ADC_PHYS \<noteq> PFC_PHYS"
  "ADC_PHYS \<noteq> CPG_PHYS"
  by (simp_all add: touch_defs)

lemma apart: "page a \<noteq> page b \<Longrightarrow> a \<noteq> b"
  by auto

lemma sparing_access:
  assumes "page a \<noteq> ADC_PHYS"
  shows "keeps (trail sparing) (mmio_read8 h a)" "keeps (trail sparing) (mmio_read16 h a)" "keeps (trail sparing) (mmio_read32 h a)"
    "keeps (trail sparing) (mmio_write8 h a x)" "keeps (trail sparing) (mmio_write16 h a y)" "keeps (trail sparing) (mmio_write32 h a z)"
  by (rule trail_access, simp add: assms)+

abbreviation driven :: "access list \<Rightarrow> bool" where
  "driven \<equiv> (\<lambda>xs. sparing xs \<and> primed xs)"

lemma driven_access:
  assumes "a \<noteq> PLDR" and "a \<noteq> MSTPCR2"
  shows "keeps (trail driven) (mmio_read8 h a)" "keeps (trail driven) (mmio_read16 h a)" "keeps (trail driven) (mmio_read32 h a)"
    "keeps (trail driven) (mmio_write8 h a x)" "keeps (trail driven) (mmio_write16 h a y)" "keeps (trail driven) (mmio_write32 h a z)"
  by (rule trail_access, use assms in \<open>simp add: primed_def pen_down_def\<close>)+

lemma driven_wait: "a \<noteq> PLDR \<Longrightarrow> a \<noteq> MSTPCR2 \<Longrightarrow> keeps (trail driven) (wait_clear h a k)"
proof -
  assume "a \<noteq> PLDR" "a \<noteq> MSTPCR2"
  then have "keeps (trail driven) (wait_loop h a k n)" for n
    by (induction n) (simp_all, (rule driven_access trail_flow | assumption)+)
  then show ?thesis by (simp add: wait_clear_def)
qed

lemma driven_adc: "keeps (trail driven) (adc_drive h)" "keeps (trail driven) (adc_cleanup h)"
  unfolding adc_drive_def convert_def adc_cleanup_def rmw8_def rmw16_def
  by (rule driven_wait driven_access trail_flow | simp add: touch_defs)+

lemma sparing_pfc:
  "keeps (trail sparing) (base_pfc h)" "keeps (trail sparing) (force_rest_high h)" "keeps (trail sparing) (capture_pfc h)"
  unfolding force_rest_high_def base_pfc_def capture_pfc_def rmw8_def rmw16_def by (rule sparing_access trail_flow | simp)+

lemma sparing_restore: "keeps (trail sparing) (restore_pfc h sn)"
proof -
  have "keeps (trail sparing) (verify_pfc h sn)"
    unfolding verify_pfc_def by (rule charged_hold) (auto simp: check16_def check8_def intro!: sparing_access trail_flow)
  then show ?thesis
    unfolding restore_pfc_def rmw8_def rmw16_def by - (rule sparing_pfc sparing_access trail_flow | assumption | simp)+
qed

lemma sparing_clock: "keeps (trail sparing) (restore_adc_clock h g)" "keeps (trail sparing) (open_adc_clock h)"
  unfolding restore_adc_clock_def open_adc_clock_def by (rule sparing_access trail_flow | simp)+

lemma wider8: "ucast (v AND k) = (ucast v AND ucast k :: u32)" for v k :: u8
  by (simp add: unsigned_and_eq)

lemma wider16: "ucast (v AND k) = (ucast v AND ucast k :: u32)" for v k :: u16
  by (simp add: unsigned_and_eq)

abbreviation sensed :: "bool \<Rightarrow> access list \<Rightarrow> bool" where
  "sensed c \<equiv> (\<lambda>xs. sparing xs \<and> (c \<longrightarrow> pen_down xs))"

lemma pen_read: "triple (trail sparing) (mmio_read8 h PLDR) (\<lambda>v. trail (sensed (v AND 2 = 0)))"
proof -
  have "v AND 2 = 0 \<Longrightarrow> ucast v AND (2 :: u32) = 0" for v :: u8 using wider8 [of v 2] by simp
  then show ?thesis by (intro tripleI) (auto simp: run_diag trail_def pen_down_def)
qed

lemma pen_looped: "triple (trail (sensed c)) (pen_loop h n c v) (\<lambda>(contact, v). trail (sensed contact))"
proof (induction n arbitrary: c v)
  case 0
  show ?case by (simp add: triple_def)
next
  case (Suc n)
  show ?case
    unfolding pen_loop.simps
    by (rule triple_bind [OF triple_pre [OF pen_read]], simp add: trail_def, rule triple_pre [OF Suc.IH])
      (auto simp: trail_def split: if_splits)
qed

lemma pen_seen: "triple (trail sparing) (read_pen h) (\<lambda>(contact, v). trail (sensed contact))"
proof -
  have first: "triple (trail sparing) (pen_loop h 5 True 0) (\<lambda>(contact, v). trail (sensed contact))"
    unfolding numeral_nat pen_loop.simps(2) [of h "Suc (Suc (Suc (Suc 0)))"]
    by (rule triple_bind [OF pen_read], rule triple_pre [OF pen_looped]) (auto simp: trail_def split: if_splits)
  have base: "keeps (trail (sensed c)) (base_pfc h)" for c
    unfolding base_pfc_def rmw16_def
    by (rule trail_access trail_flow | simp add: pen_down_def touch_defs page_def)+
  show ?thesis
    unfolding read_pen_def rmw16_def bind_assoc
    apply (rule triple_keeps, rule sparing_access, simp, rule triple_keeps, rule sparing_access, simp, rule triple_keeps [OF trail_call(3)])
    apply (rule triple_bind [OF first])
    apply (simp only: case_prod_beta, rule triple_keeps [OF base], rule triple_ret, simp add: case_prod_beta)
    done
qed

lemma clock_opened:
  "triple (trail (\<lambda>xs. sparing xs \<and> pen_down xs)) (open_adc_clock h) (\<lambda>(running, g, v). trail (\<lambda>xs. sparing xs \<and> (running \<longrightarrow> primed xs)))"
  by (rule tripleI)
    (auto simp: open_adc_clock_def run_diag io_barrier_def settle_def trail_def primed_def pen_down_def Let_def touch_defs page_def split: if_splits)

lemma adc_spared:
  "triple (trail (sensed c)) (adc_contact h c) (\<lambda>_. trail sparing)"
proof (cases c)
  case False
  then show ?thesis by (auto intro!: triple_ret simp: adc_contact_def trail_def)
next
  case True
  let ?Q = "\<lambda>b xs. sparing xs \<and> (b \<longrightarrow> primed xs)"
  have once: "triple (trail (sensed True)) (adc_once h) (\<lambda>(status, q). trail (?Q (status \<noteq> ADC_CLOCK_FAILED)))"
  proof -
    have d: "triple (trail (?Q True)) (do { (status, p) \<leftarrow> adc_drive h; ret (status, p, g, v) })
        (\<lambda>(status, q). trail (?Q (status \<noteq> ADC_CLOCK_FAILED)))" for g :: bool and v :: u32
      using driven_adc(1) [of h] by (auto intro!: triple_keeps triple_ret simp: case_prod_beta trail_def)
    show ?thesis
      unfolding adc_once_def
      apply (rule triple_bind [OF triple_pre [OF clock_opened]], simp add: trail_def)
      subgoal for p using d by (cases p) (auto intro!: triple_if triple_ret simp: trail_def)
      done
  qed
  have clean: "triple (trail (?Q b)) (if b then adc_cleanup h else ret True) (\<lambda>_. trail sparing)" for b
    using driven_adc(2) [of h] by (cases b) (auto simp: keeps_def triple_def trail_def split: prod.splits)
  show ?thesis
    unfolding adc_contact_def
    apply (simp only: True not_True_eq_False if_False)
    apply (rule triple_bind [OF once], simp only: case_prod_beta, rule triple_bind [OF clean], rule triple_ret, assumption)
    done
qed

lemma sparing_works:
  "triple (trail sparing) (pen_work h) (\<lambda>_. trail sparing)" "triple (trail sparing) (clock_work h) (\<lambda>_. trail sparing)"
  "triple (trail sparing) (adc_work h) (\<lambda>_. trail sparing)"
proof -
  have undo: "keeps (trail sparing) (adc_undo h sn r)" for sn r
    unfolding adc_undo_def by (rule sparing_pfc sparing_restore sparing_clock trail_flow)+
  have seen: "triple (trail sparing) (read_pen h) (\<lambda>_. trail sparing)"
    by (rule triple_post [OF pen_seen]) (auto simp: trail_def)
  show "triple (trail sparing) (pen_work h) (\<lambda>_. trail sparing)"
    unfolding pen_work_def
    by (rule triple_keeps [OF sparing_pfc(3)], rule triple_keeps [OF sparing_pfc(2)], rule triple_bind [OF seen], simp only: case_prod_beta,
        rule triple_keeps [OF sparing_restore], rule triple_ret)
  show "triple (trail sparing) (clock_work h) (\<lambda>_. trail sparing)"
    unfolding clock_work_def keeps_def [symmetric] by (rule sparing_clock sparing_access trail_flow | simp)+
  show "triple (trail sparing) (adc_work h) (\<lambda>_. trail sparing)"
    unfolding adc_work_def
    by (rule triple_keeps [OF sparing_pfc(3)], rule triple_keeps [OF sparing_pfc(2)], rule triple_bind [OF pen_seen], simp only: case_prod_beta,
        rule triple_bind [OF adc_spared], rule triple_keeps [OF undo], rule triple_ret)
qed

lemma sparing_main: "triple (trail sparing) (touchdiag_main h args) (\<lambda>_. trail sparing)"
proof -
  have f: "triple (trail sparing) (framed_test h w a work) (\<lambda>_. trail sparing)" if "triple (trail sparing) work (\<lambda>_. trail sparing)" for w a work
    by (rule framed_trail [where Q = "\<lambda>_. sparing"], rule triple_post [OF that]) (auto simp: case_prod_beta)
  have opt: "keeps I (case mo of None \<Rightarrow> n | Some m \<Rightarrow> f m)" if "keeps I n" "\<And>m. keeps I (f m)" for I mo n and f :: "maps \<Rightarrow> ('a, int) dg"
    using that by (cases mo) simp_all
  have reports: "keeps (trail sparing) (show_info h)" "keeps (trail sparing) (show_pfc h)" "keeps (trail sparing) (show_clock h)"
    unfolding show_info_def show_pfc_def show_clock_def
    by (rule opt trail_opened trail_checks sparing_pfc sparing_access trail_flow | simp)+
  have helped: "keeps (trail sparing) (do { (usage out :: ('a, unit) dg); ret r })" for out and r :: int
    unfolding usage_def by (rule trail_flow)+
  show ?thesis
    unfolding touchdiag_main_def
    apply (cases "parse_command args"; simp only: parsed_command.case)
    subgoal for c
      using reports
      by (cases c) (simp_all add: keeps_def run_pen_def run_clock_test_def run_adc_def f [OF sparing_works(1)] f [OF sparing_works(2)]
          f [OF sparing_works(3)])
    apply (rule helped [unfolded keeps_def])+
    done
qed

section \<open>What it guarantees\<close>


section \<open>What was found is put back\<close>

text \<open>The ports with the bits the diagnostic changes of them.\<close>

definition ports :: "(u32 \<times> u32) list" where
  "ports = [(PFC_PHYS + PGCR_OFF, 0xffff), (PFC_PHYS + PGDR_OFF, 0xff), (PFC_PHYS + PHCR_OFF, 0x0300), (PFC_PHYS + PLCR_OFF, 0x000c),
     (PFC_PHYS + PSELE_OFF, 0x0c00), (PFC_PHYS + MSELCRA_OFF, 0x0300), (PFC_PHYS + PFC_A_OFF, 0xf000), (PFC_PHYS + PHDR_OFF, 0x10)]"

definition found :: "pfc_snapshot \<Rightarrow> u32 list" where
  "found sn = [ucast (s_pgcr sn), ucast (s_pgdr sn), ucast (s_phcr sn), ucast (s_plcr sn), ucast (s_psele sn), ucast (s_mselcra sn),
     ucast (s_pfc_a sn), ucast (s_phdr sn)]"

definition began :: "pfc_snapshot \<Rightarrow> access list \<Rightarrow> bool" where
  "began sn xs \<longleftrightarrow> map (\<lambda>(a, k). earliest a xs) ports = map Some (found sn)"

definition ended_as :: "pfc_snapshot \<Rightarrow> access list \<Rightarrow> bool" where
  "ended_as sn xs \<longleftrightarrow> map (\<lambda>(a, k). map_option (\<lambda>v. v AND k) (latest a xs)) ports = map (\<lambda>((a, k), v). Some (v AND k)) (zip ports (found sn))"

definition unchanged :: "(u32 \<times> u32) list \<Rightarrow> access list \<Rightarrow> bool" where
  "unchanged ps xs \<longleftrightarrow> (\<forall>(a, k) \<in> set ps. \<exists>v w. earliest a xs = Some v \<and> latest a xs = Some w \<and> v AND k = w AND k)"

lemma back_unchanged: "began sn xs \<Longrightarrow> ended_as sn xs \<Longrightarrow> unchanged ports xs"
  by (auto simp: began_def ended_as_def unchanged_def ports_def found_def)

lemma began_captured:
  "triple (trail (\<lambda>xs. xs = [])) (capture_pfc h) (\<lambda>sn. trail (\<lambda>xs. began sn xs \<and> earliest MSTPCR2 xs = None))"
  by (rule tripleI) (auto simp: capture_pfc_def run_diag io_barrier_def trail_def began_def ports_def found_def touch_defs)

lemma ended_verified: "triple (trail K) (verify_pfc h sn) (\<lambda>b. trail (\<lambda>xs. b \<longrightarrow> ended_as sn xs))"
proof -
  have w: "r AND k = v AND k \<Longrightarrow> ucast r AND (ucast k :: u32) = ucast v AND ucast k" for r k v :: u8
    using wider8 [of r k] wider8 [of v k] by simp
  have w': "r AND k = v AND k \<Longrightarrow> ucast r AND (ucast k :: u32) = ucast v AND ucast k" for r k v :: u16
    using wider16 [of r k] wider16 [of v k] by simp
  note m = w' [where k = "0xffff", simplified] w' [where k = "0x300", simplified] w' [where k = "0xc", simplified]
    w' [where k = "0xc00", simplified] w' [where k = "0xf000", simplified] w [where k = "0xff", simplified] w [where k = "0x10", simplified]
  show ?thesis
    by (rule tripleI) (auto simp: verify_pfc_def check16_def check8_def run_diag trail_def ended_as_def ports_def found_def touch_defs
        dest: m split: if_splits)
qed

text \<open>What was seen first stays so.\<close>

definition lasting :: "(access list \<Rightarrow> bool) \<Rightarrow> bool" where
  "lasting K \<longleftrightarrow> (\<forall>x xs. K xs \<longrightarrow> K (x # xs))"

lemma lasting_access:
  assumes "lasting K"
  shows "keeps (trail K) (mmio_read8 h a)" "keeps (trail K) (mmio_read16 h a)" "keeps (trail K) (mmio_read32 h a)"
    "keeps (trail K) (mmio_write8 h a x)" "keeps (trail K) (mmio_write16 h a y)" "keeps (trail K) (mmio_write32 h a z)"
  by (rule trail_access, use assms in \<open>simp add: lasting_def\<close>)+

lemma lasting_facts: "lasting (began sn)" "lasting (\<lambda>xs. \<exists>v. earliest a xs = Some v \<and> P v)"
  "lasting A \<Longrightarrow> lasting B \<Longrightarrow> lasting (\<lambda>xs. A xs \<and> B xs)" "lasting (\<lambda>_. c)"
  by (auto simp: lasting_def began_def ports_def found_def)

lemma lasting_parts:
  assumes K: "lasting K"
  shows "keeps (trail K) (force_rest_high h)" "keeps (trail K) (read_pen h)" "keeps (trail K) (verify_pfc h sn)"
    "keeps (trail K) (adc_drive h)" "keeps (trail K) (adc_cleanup h)" "keeps (trail K) (restore_adc_clock h g)"
proof -
  note rules = lasting_access [OF K] trail_flow
  have base: "keeps (trail K) (base_pfc h)" unfolding base_pfc_def rmw16_def by (rule rules)+
  show "keeps (trail K) (force_rest_high h)" unfolding force_rest_high_def rmw8_def by (rule base rules)+
  have "keeps (trail K) (pen_loop h n c v)" for n c v
    by (induction n arbitrary: c v) (simp_all, (rule rules | assumption)+)
  then show "keeps (trail K) (read_pen h)" unfolding read_pen_def rmw16_def by - (rule base rules | assumption)+
  show "keeps (trail K) (verify_pfc h sn)"
    unfolding verify_pfc_def by (rule charged_hold) (auto simp: check16_def check8_def intro!: rules)
  have "keeps (trail K) (wait_loop h a k n)" for a k n
    by (induction n) (simp_all, (rule rules | assumption)+)
  then have wait: "keeps (trail K) (wait_clear h a k)" for a k by (simp add: wait_clear_def)
  show "keeps (trail K) (adc_drive h)" "keeps (trail K) (adc_cleanup h)" "keeps (trail K) (restore_adc_clock h g)"
    unfolding adc_drive_def convert_def adc_cleanup_def restore_adc_clock_def rmw8_def rmw16_def by (rule wait rules)+
qed

lemma trail_both: "trail (\<lambda>xs. A xs \<and> B xs) = (\<lambda>s. trail A s \<and> trail B s)"
  by (simp add: trail_def fun_eq_iff)

lemma restore_ends:
  assumes "lasting K"
  shows "triple (trail K) (restore_pfc h sn) (\<lambda>b. trail (\<lambda>xs. K xs \<and> (b \<longrightarrow> ended_as sn xs)))"
proof -
  have v: "triple (trail K) (verify_pfc h sn) (\<lambda>b. trail (\<lambda>xs. K xs \<and> (b \<longrightarrow> ended_as sn xs)))"
    using triple_conj [OF ended_verified [of K h sn] lasting_parts(3) [OF assms, of h sn]]
    by (auto simp: triple_def trail_def)
  show ?thesis
    unfolding restore_pfc_def rmw16_def rmw8_def bind_assoc
    by (rule triple_keeps [OF lasting_parts(1) [OF assms]], (rule triple_keeps [OF lasting_access(2) [OF assms]]
        | rule triple_keeps [OF lasting_access(5) [OF assms]] | rule triple_keeps [OF lasting_access(1) [OF assms]]
        | rule triple_keeps [OF lasting_access(4) [OF assms]] | rule triple_keeps [OF trail_call(3)] | rule v)+)
qed

lemma pen_unchanged: "triple (trail (\<lambda>xs. xs = [])) (pen_work h) (\<lambda>(r, _). trail (\<lambda>xs. r = 0 \<longrightarrow> unchanged ports xs))"
  unfolding pen_work_def
  apply (rule triple_bind [OF triple_post [OF began_captured, where Q = "\<lambda>sn. trail (began sn)"]], simp add: trail_def)
  apply (rule triple_keeps [OF lasting_parts(1) [OF lasting_facts(1)]], rule triple_keeps [OF lasting_parts(2) [OF lasting_facts(1)]])
  apply (simp only: case_prod_beta, rule triple_bind [OF restore_ends [OF lasting_facts(1)]], rule triple_ret)
  apply (auto simp: trail_def intro: back_unchanged)
  done

lemma clock_bit: "v AND ADC_CLOCK_BIT = (if bit v 27 then ADC_CLOCK_BIT else 0)"
proof -
  have e: "ADC_CLOCK_BIT = 2 ^ 27" by (simp add: ADC_CLOCK_BIT_def)
  have "bit ADC_CLOCK_BIT n \<longleftrightarrow> n = 27" for n unfolding e bit_exp_iff by (auto simp: possible_bit_def)
  then have "bit (v AND ADC_CLOCK_BIT) n = bit (if bit v 27 then ADC_CLOCK_BIT else 0) n" for n
    by (cases "n = 27") (simp_all add: bit_and_iff)
  then show ?thesis by (rule bit_eqI)
qed

lemma clock_bit_set: "ADC_CLOCK_BIT \<noteq> 0"
  by (simp add: ADC_CLOCK_BIT_def)

definition gated_first :: "bool \<Rightarrow> access list \<Rightarrow> bool" where
  "gated_first g xs \<longleftrightarrow> (\<exists>v. earliest MSTPCR2 xs = Some v \<and> (v AND ADC_CLOCK_BIT \<noteq> 0) = g)"

definition attempted_first :: "adc_run \<Rightarrow> access list \<Rightarrow> bool" where
  "attempted_first r xs \<longleftrightarrow> (r_attempted r \<longrightarrow> gated_first (r_gated r) xs) \<and> (r_status r = ADC_OK \<longrightarrow> r_attempted r)"

lemma lasting_gated: "lasting (gated_first g)" "lasting (attempted_first r)"
  by (auto simp: lasting_def gated_first_def attempted_first_def)

lemma clock_found:
  "triple (trail (\<lambda>xs. began sn xs \<and> earliest MSTPCR2 xs = None)) (open_adc_clock h) (\<lambda>(b, g, v). trail (\<lambda>xs. began sn xs \<and> gated_first g xs))"
proof -
  let ?P = "trail (\<lambda>xs. began sn xs \<and> earliest MSTPCR2 xs = None)" and ?R = "\<lambda>g. trail (\<lambda>xs. began sn xs \<and> gated_first g xs)"
  have first: "triple ?P (mmio_read32 h MSTPCR2) (\<lambda>v. ?R (v AND ADC_CLOCK_BIT \<noteq> 0))"
    using lasting_facts(1) [of sn] by (intro tripleI) (auto simp: run_diag trail_def gated_first_def lasting_def)
  have "lasting (\<lambda>xs. began sn xs \<and> gated_first g xs)" for g by (rule lasting_facts lasting_gated)+
  note rules = lasting_access [OF this] trail_flow
  show ?thesis
    unfolding open_adc_clock_def Let_def
    apply (rule triple_bind [OF first])
    apply (rule triple_keeps, (rule rules)+, rule triple_keeps, (rule rules)+, rule triple_keeps, (rule rules)+, rule triple_ret, simp)
    done
qed

lemma contact_found:
  "triple (trail (\<lambda>xs. began sn xs \<and> earliest MSTPCR2 xs = None)) (adc_contact h c) (\<lambda>r. trail (\<lambda>xs. began sn xs \<and> attempted_first r xs))"
proof (cases c)
  case False
  then show ?thesis by (auto intro!: triple_ret simp: adc_contact_def trail_def attempted_first_def)
next
  case True
  have l: "lasting (\<lambda>xs. began sn xs \<and> gated_first g xs)" for g by (rule lasting_facts lasting_gated)+
  have once: "triple (trail (\<lambda>xs. began sn xs \<and> earliest MSTPCR2 xs = None)) (adc_once h)
      (\<lambda>(status, p, g, v). trail (\<lambda>xs. began sn xs \<and> gated_first g xs))"
    unfolding adc_once_def
    apply (rule triple_bind [OF clock_found], simp only: case_prod_beta)
    apply (rule triple_if, rule triple_ret, simp add: case_prod_beta)
    apply (rule triple_keeps [OF lasting_parts(4) [OF l]], simp only: case_prod_beta, rule triple_ret, simp add: case_prod_beta)
    done
  have clean: "keeps (trail (\<lambda>xs. began sn xs \<and> gated_first g xs)) (if b then adc_cleanup h else ret True)" for b g
    by (rule keeps_if lasting_parts(5) [OF l] keeps_ret)+
  show ?thesis
    unfolding adc_contact_def
    apply (simp only: True not_True_eq_False if_False)
    apply (rule triple_bind [OF once], simp only: case_prod_beta, rule triple_keeps [OF clean], rule triple_ret)
    apply (simp add: trail_def attempted_first_def)
    done
qed

lemma clock_back:
  "triple (trail (\<lambda>xs. K xs \<and> (p \<longrightarrow> ended_as sn xs))) (restore_adc_clock h g)
     (\<lambda>b. trail (\<lambda>xs. (p \<longrightarrow> ended_as sn xs) \<and> (b \<longrightarrow> (\<exists>v. latest MSTPCR2 xs = Some v \<and> (v AND ADC_CLOCK_BIT \<noteq> 0) = g))))"
proof -
  have e: "ended_as sn xs \<Longrightarrow> address x = MSTPCR2 \<Longrightarrow> ended_as sn (x # xs)" for x xs
    by (auto simp: ended_as_def ports_def touch_defs)
  show ?thesis
    by (rule tripleI) (auto simp: restore_adc_clock_def run_diag io_barrier_def trail_def e split: if_splits)
qed

abbreviation clocked_ports :: "(u32 \<times> u32) list" where
  "clocked_ports \<equiv> ports @ [(MSTPCR2, ADC_CLOCK_BIT)]"

lemma clock_unchanged:
  assumes "began sn xs" and "ended_as sn xs" and "gated_first g xs" and "\<exists>v. latest MSTPCR2 xs = Some v \<and> (v AND ADC_CLOCK_BIT \<noteq> 0) = g"
  shows "unchanged clocked_ports xs"
proof -
  obtain v w where vw: "earliest MSTPCR2 xs = Some v" "latest MSTPCR2 xs = Some w" "(v AND ADC_CLOCK_BIT \<noteq> 0) = (w AND ADC_CLOCK_BIT \<noteq> 0)"
    using assms(3,4) by (auto simp: gated_first_def)
  then have "v AND ADC_CLOCK_BIT = w AND ADC_CLOCK_BIT" using clock_bit_set by (simp add: clock_bit split: if_splits)
  with vw have "unchanged [(MSTPCR2, ADC_CLOCK_BIT)] xs" by (simp add: unchanged_def)
  moreover have "unchanged ports xs" using assms(1,2) by (rule back_unchanged)
  ultimately show ?thesis by (auto simp: unchanged_def)
qed

definition succeeded :: "adc_run \<Rightarrow> bool" where
  "succeeded r \<longleftrightarrow> r_status r = ADC_OK \<and> r_cleanup r \<and> r_pfc r \<and> r_clock r"

lemma undo_unchanged:
  "triple (trail (\<lambda>xs. began sn xs \<and> attempted_first r xs)) (adc_undo h sn r)
    (\<lambda>r'. trail (\<lambda>xs. succeeded r' \<longrightarrow> unchanged clocked_ports xs))"
proof -
  let ?K = "\<lambda>xs. began sn xs \<and> attempted_first r xs"
  let ?L = "\<lambda>g xs. \<exists>v. latest MSTPCR2 xs = Some v \<and> (v AND ADC_CLOCK_BIT \<noteq> 0) = g"
  have K: "lasting ?K" by (rule lasting_facts lasting_gated)+
  have clock: "triple (trail (\<lambda>xs. ?K xs \<and> (p \<longrightarrow> ended_as sn xs))) (if r_attempted r then restore_adc_clock h (r_gated r) else ret (r_clock r))
      (\<lambda>b. trail (\<lambda>xs. ?K xs \<and> (p \<longrightarrow> ended_as sn xs) \<and> (b \<longrightarrow> r_attempted r \<longrightarrow> ?L (r_gated r) xs)))" for p
  proof (cases "r_attempted r")
    case True
    from triple_conj [OF clock_back [of ?K p sn h "r_gated r"] lasting_parts(6) [OF K, of h "r_gated r"]] True show ?thesis
      by (auto simp: triple_def trail_def)
  next
    case False
    then show ?thesis by (auto intro!: triple_ret simp: trail_def)
  qed
  have fin: "unchanged clocked_ports xs" if "?K xs" "p \<longrightarrow> ended_as sn xs" "b \<longrightarrow> r_attempted r \<longrightarrow> ?L (r_gated r) xs"
      "succeeded (r\<lparr>r_pfc := p, r_clock := b\<rparr>)" for p b xs
    using that by (intro clock_unchanged [of sn xs "r_gated r"]) (auto simp: succeeded_def attempted_first_def)
  show ?thesis
    unfolding adc_undo_def
    apply (rule triple_if, rule triple_ret, simp add: trail_def succeeded_def)
    apply (rule triple_keeps [OF lasting_parts(1) [OF K]], rule triple_bind [OF restore_ends [OF K]], rule triple_bind [OF clock])
    apply (rule triple_ret, unfold trail_def, use fin in blast)
    done
qed

lemma unopened_access:
  assumes "a \<noteq> MSTPCR2"
  shows "keeps (trail (\<lambda>xs. began sn xs \<and> earliest MSTPCR2 xs = None)) (mmio_read8 h a)"
    "keeps (trail (\<lambda>xs. began sn xs \<and> earliest MSTPCR2 xs = None)) (mmio_read16 h a)"
    "keeps (trail (\<lambda>xs. began sn xs \<and> earliest MSTPCR2 xs = None)) (mmio_write8 h a x)"
    "keeps (trail (\<lambda>xs. began sn xs \<and> earliest MSTPCR2 xs = None)) (mmio_write16 h a y)"
  by (rule trail_access, use assms lasting_facts(1) [of sn] in \<open>simp add: lasting_def\<close>)+

lemma unopened_pen:
  "keeps (trail (\<lambda>xs. began sn xs \<and> earliest MSTPCR2 xs = None)) (force_rest_high h)"
  "keeps (trail (\<lambda>xs. began sn xs \<and> earliest MSTPCR2 xs = None)) (read_pen h)"
proof -
  note rules = unopened_access trail_flow
  have p: "PFC_PHYS + b \<noteq> MSTPCR2" if "page (PFC_PHYS + b) = PFC_PHYS" for b using that apart [of "PFC_PHYS + b" MSTPCR2] by simp
  have base: "keeps (trail (\<lambda>xs. began sn xs \<and> earliest MSTPCR2 xs = None)) (base_pfc h)"
    unfolding base_pfc_def rmw16_def by (rule rules p | simp)+
  show "keeps (trail (\<lambda>xs. began sn xs \<and> earliest MSTPCR2 xs = None)) (force_rest_high h)"
    unfolding force_rest_high_def rmw8_def by (rule base rules p | simp)+
  have "keeps (trail (\<lambda>xs. began sn xs \<and> earliest MSTPCR2 xs = None)) (pen_loop h n c v)" for n c v
    by (induction n arbitrary: c v) (simp_all, (rule rules p | assumption | simp)+)
  then show "keeps (trail (\<lambda>xs. began sn xs \<and> earliest MSTPCR2 xs = None)) (read_pen h)"
    unfolding read_pen_def rmw16_def by - (rule base rules p | assumption | simp)+
qed

lemma adc_unchanged: "triple (trail (\<lambda>xs. xs = [])) (adc_work h) (\<lambda>(r, _). trail (\<lambda>xs. r = 0 \<longrightarrow> unchanged clocked_ports xs))"
  unfolding adc_work_def
  apply (rule triple_bind [OF began_captured])
  apply (rule triple_keeps [OF unopened_pen(1)], rule triple_keeps [OF unopened_pen(2)])
  apply (simp only: case_prod_beta, rule triple_bind [OF contact_found], rule triple_bind [OF undo_unchanged], rule triple_ret)
  apply (auto simp: trail_def succeeded_def)
  done


section \<open>An example\<close>

lemma demo_preflight: "gives (preflight_write demo_host) True"
proof -
  have hw: "gives (expected_hardware demo_host) True"
    unfolding expected_hardware_def
    apply (rule gives_bind [OF gives_call [OF refl]], rule gives_bind [where a = None], rule gives_if, simp, rule gives_first)
      apply (simp add: gives_fails gives_unless gives_look(1) [of fit_screen, unfolded fit_screen_def, simplified] fit_screen_def)
    apply (rule gives_bind [OF gives_unit], rule gives_ret, simp)
    done
  have vt: "gives (active_text_vt demo_host) True"
  proof -
    have u: "gives (unless demo_host (\<lambda>w. console_mode demo_host w = KD_TEXT)) None"
      "gives (unless demo_host (\<lambda>w. tty_char (tty_of demo_host w) \<and> tty_major (tty_of demo_host w) = 4 \<and> tty_minor (tty_of demo_host w) \<noteq> 0)) None"
      "gives (unless demo_host (\<lambda>w. tty_minor (tty_of demo_host w) = active_vt demo_host w)) None"
      by (rule gives_unless, simp add: gives_def demo_host_def KD_TEXT_def)+
    show ?thesis
      unfolding active_text_vt_def
      apply (rule gives_bind [OF gives_call [OF refl]], rule gives_if, simp, rule gives_bind [OF gives_first])
       apply (use u in \<open>simp add: gives_fails\<close>)
      apply (rule gives_ret, simp)
      done
  qed
  have no: "gives (experimental_driver_absent demo_host) True"
    unfolding experimental_driver_absent_def by (rule gives_bind [OF gives_call [OF refl]], rule gives_ret) (simp add: SUBPAD_ABSENT_def)
  show ?thesis
    unfolding preflight_write_def
    by (rule gives_bind [OF gives_call [OF refl]], rule gives_if, simp, rule gives_bind [OF hw], rule gives_if, simp,
        rule gives_bind [OF vt], rule gives_if, simp, rule gives_bind [OF no], rule gives_if, simp, rule gives_ret, simp)
qed

lemma demo_page: "gives (map_page demo_host True 4096 p t) (True, 0x29580000)" "gives (map_page demo_host False 4096 p t) (True, MAP_FAILED)"
  unfolding map_page_def
   apply (rule gives_if, simp, rule gives_bind [OF gives_call [OF refl]], rule gives_if, simp add: page_of_def MAP_FAILED_def)
   apply (rule gives_ret, simp add: page_of_def)
  apply (rule gives_if, rule gives_ret, simp, simp)
  done

lemma demo_pfc_page: "gives (open_maps demo_host MAP_PFC True) (Some \<lparr>map_fd = 4, map_size = 4096, map_pfc = 0x29580000, map_cpg = MAP_FAILED, map_adc = MAP_FAILED\<rparr>)"
  unfolding open_maps_def Let_def MAP_PFC_def MAP_CPG_def MAP_ADC_def
  apply (rule gives_bind [OF gives_call [OF refl]], rule gives_if, simp)
  apply (rule gives_bind [OF gives_call [OF refl]], rule gives_bind [OF gives_look(3)], rule gives_if, simp)
  apply (rule gives_bind [OF gives_call [OF refl]], rule gives_if, simp)
  apply (simp, rule gives_bind [OF demo_page(1)], simp)
  apply (rule gives_bind [OF demo_page(2)], simp)
  apply (rule gives_bind [OF demo_page(2)], simp, rule gives_ret, simp add: no_maps_def)
  done

lemma demo_pen: "\<exists>t. gives (pen_work demo_host) (0, t)"
proof -
  let ?sn = "\<lparr>s_pgcr = 0, s_phcr = 0, s_plcr = 0, s_psele = 0, s_mselcra = 0, s_pfc_a = 0, s_pgdr = 0x84, s_phdr = 0x84\<rparr>"
  have cap: "gives (capture_pfc demo_host) ?sn"
    unfolding capture_pfc_def by (rule gives_bind, rule gives_reads)+ (rule gives_bind [OF gives_unit], rule gives_ret, simp)
  have loop: "\<exists>p. gives (pen_loop demo_host n c0 v0) p" for n c0 v0
  proof (induction n arbitrary: c0 v0)
    case 0
    show ?case by (rule exI, unfold pen_loop.simps, rule gives_ret, rule refl)
  next
    case (Suc n)
    from Suc [of "if (0x84 :: u8) AND 2 \<noteq> 0 then False else c0" "v0 OR 0x84"] obtain p
      where p: "gives (pen_loop demo_host n (if (0x84 :: u8) AND 2 \<noteq> 0 then False else c0) (v0 OR 0x84)) p" by (rule exE)
    show ?case unfolding pen_loop.simps by (rule exI [of _ p], rule gives_bind [OF gives_reads(1)], rule p)
  qed
  obtain p where p: "gives (pen_loop demo_host 5 True 0) p" using loop by blast
  have pen: "gives (read_pen demo_host) p"
    unfolding read_pen_def
    by (rule gives_bind [OF gives_unit], rule gives_bind [OF gives_unit], rule gives_bind [OF p], simp only: case_prod_beta,
        rule gives_bind [OF gives_unit], rule gives_ret, simp)
  have c: "gives (check16 demo_host a k 0) True" "gives (check8 demo_host a j 0x84) True" for a k j
    unfolding check16_def check8_def by (rule gives_bind, rule gives_reads, rule gives_ret, simp)+
  have hold: "gives (all_hold ms) True" if "\<forall>m \<in> set ms. gives m True" for ms
    using that by (induction ms) (auto intro!: gives_ret gives_bind [where a = True])
  have check: "gives (verify_pfc demo_host ?sn) True"
    unfolding verify_pfc_def by (rule hold) (simp add: c)
  have restore: "gives (restore_pfc demo_host ?sn) True"
    unfolding restore_pfc_def by ((rule gives_bind [OF gives_unit])+, rule check)
  show ?thesis
    unfolding pen_work_def
    by (rule exI, rule gives_bind [OF cap], rule gives_bind [OF gives_unit], rule gives_bind [OF pen], simp only: case_prod_beta,
        rule gives_bind [OF restore], rule gives_ret, simp)
qed

lemma demo_pen_run: "fst (run_state (touchdiag_main demo_host [''pen'', ''--yes'']) s) = 0"
proof -
  obtain t where t: "gives (pen_work demo_host) (0, t)" using demo_pen by (rule exE)
  have lock: "gives (acquire_lock demo_host) 3"
    unfolding acquire_lock_def
    by (rule gives_bind [OF gives_call [OF refl]], rule gives_if, simp, rule gives_bind [OF gives_call [OF refl]]) (simp add: gives_ret)
  have blocked: "gives (block_async_signals demo_host) True"
    unfolding block_async_signals_def by (rule gives_bind [OF gives_first]) (auto simp: gives_fails gives_ret)
  have absent: "gives (experimental_driver_absent demo_host) True"
    unfolding experimental_driver_absent_def by (rule gives_bind [OF gives_call [OF refl]], rule gives_ret) (simp add: SUBPAD_ABSENT_def)
  have work: "gives (framed_work demo_host u (pen_work demo_host)) (True, 0, t)" for u
    unfolding framed_work_def
    by (rule gives_bind [OF gives_unit], rule gives_bind [OF gives_call [OF refl]], rule gives_bind [where a = True], rule gives_if, simp,
        rule blocked, rule gives_if, simp, rule gives_bind [OF absent], rule gives_if, simp, rule gives_bind [OF t], rule gives_ret, simp)
  have "gives (run_pen demo_host) 0"
    unfolding run_pen_def framed_test_def
    by (rule gives_bind [OF demo_preflight], rule gives_if, simp, rule gives_bind [OF lock], rule gives_if, simp,
        rule gives_bind [OF demo_pfc_page], simp only: option.case, rule gives_bind [OF work], simp only: prod.case,
        rule gives_bind [OF gives_unit], rule gives_bind [OF gives_call [OF refl]], rule gives_bind [OF gives_unit],
        rule gives_bind [OF gives_unit], rule gives_ret, simp)
  moreover have "parse_command [''pen'', ''--yes''] = Command CMD_PEN" by code_simp
  ultimately show ?thesis by (simp add: gives_def touchdiag_main_def)
qed



end
