(* ===== verification/File_Lite.thy ===== *)
theory File_Lite
  imports X_Model
begin

text \<open>
  The file classifier (\<^verbatim>\<open>src/x11/apps/file-lite.c\<close>): what a file is told to be, from its kind and its
  first 2048 bytes. The file system's answers are arbitrary. What is said of a file only depends on
  the bytes read from it, never on the rest of the buffer, which the program has not filled.
\<close>

unbundle bit_operations_syntax

section \<open>The file system\<close>

datatype mode = Link | Directory | Regular | Char_device | Block_device | Fifo | Special

text \<open>An answer is a value or the text of the error. Reading gives at most the bytes asked for.\<close>

record 'w file_host =
  f_lstat :: "string \<Rightarrow> 'w \<Rightarrow> (string + mode) \<times> 'w"
  f_readlink :: "string \<Rightarrow> nat \<Rightarrow> 'w \<Rightarrow> string option \<times> 'w"
  f_open :: "string \<Rightarrow> 'w \<Rightarrow> (string + int) \<times> 'w"
  f_read :: "int \<Rightarrow> nat \<Rightarrow> 'w \<Rightarrow> (string + u8 list) \<times> 'w"
  f_close :: "int \<Rightarrow> 'w \<Rightarrow> 'w"
  f_stack :: "'w \<Rightarrow> u8 list"          \<comment> \<open>what the buffer holds before it is filled\<close>

section \<open>Classification\<close>

definition text_byte :: "u8 \<Rightarrow> bool" where
  "text_byte c \<longleftrightarrow> c \<noteq> 0 \<and> \<not> (c < 0x20 \<and> c \<noteq> 0x0a \<and> c \<noteq> 0x0d \<and> c \<noteq> 0x09 \<and> c \<noteq> 0x0c \<and> c \<noteq> 0x08)"

fun text_loop :: "u8 list \<Rightarrow> nat \<Rightarrow> nat \<Rightarrow> bool" where
  "text_loop data i 0 = True"
| "text_loop data i (Suc k) = (if text_byte (data ! i) then text_loop data (Suc i) k else False)"

definition is_text :: "u8 list \<Rightarrow> nat \<Rightarrow> bool" where
  "is_text data n = text_loop data 0 n"

text \<open>\<^verbatim>\<open>!memcmp(p, "...", n)\<close>.\<close>

definition starts :: "u8 list \<Rightarrow> u8 list \<Rightarrow> bool" where
  "starts p magic \<longleftrightarrow> take (length magic) p = magic"

definition chars :: "string \<Rightarrow> u8 list" where
  "chars t = map of_char t"

definition elf_machine :: "u8 list \<Rightarrow> nat" where
  "elf_machine p = (if p ! 5 = 2 then unat (p ! 18) * 256 + unat (p ! 19) else unat (p ! 19) * 256 + unat (p ! 18))"

definition elf_text :: "u8 list \<Rightarrow> string" where
  "elf_text p = snprintf 96 (''ELF '' @ (if p ! 4 = 2 then ''64'' else ''32'') @ ''-bit '' @ (if p ! 5 = 2 then ''MSB'' else ''LSB'') @
     (if elf_machine p = 42 then '', Renesas SH'' else ''''))"

definition classify :: "u8 list \<Rightarrow> nat \<Rightarrow> string" where
  "classify p n =
     (if n = 0 then ''empty''
      else if n \<ge> 20 \<and> starts p (0x7f # chars ''ELF'') then elf_text p
      else if n \<ge> 2 \<and> p ! 0 = of_char CHR ''#'' \<and> p ! 1 = of_char CHR ''!'' then ''executable script, text''
      else if n \<ge> 4 \<and> starts p (chars ''hsqs'') then ''SquashFS filesystem, little-endian''
      else if n \<ge> 4 \<and> starts p (chars ''sqsh'') then ''SquashFS filesystem, big-endian''
      else if n \<ge> 6 \<and> starts p (0xfd # chars ''7zXZ'' @ [0]) then ''XZ compressed data''
      else if n \<ge> 3 \<and> p ! 0 = 0x1f \<and> p ! 1 = 0x8b then ''gzip compressed data''
      else if n \<ge> 3 \<and> starts p (chars ''BZh'') then ''bzip2 compressed data''
      else if n \<ge> 4 \<and> p ! 0 = 0x28 \<and> p ! 1 = 0xb5 \<and> p ! 2 = 0x2f \<and> p ! 3 = 0xfd then ''Zstandard compressed data''
      else if n \<ge> 8 \<and> starts p (0x89 # chars ''PNG'' @ [0x0d, 0x0a, 0x1a, 0x0a]) then ''PNG image data''
      else if n \<ge> 3 \<and> p ! 0 = 0xff \<and> p ! 1 = 0xd8 \<and> p ! 2 = 0xff then ''JPEG image data''
      else if n \<ge> 6 \<and> (starts p (chars ''GIF87a'') \<or> starts p (chars ''GIF89a'')) then ''GIF image data''
      else if n \<ge> 5 \<and> starts p (chars ''%PDF-'') then ''PDF document''
      else if n \<ge> 4 \<and> starts p (chars ''PK'' @ [3, 4]) then ''Zip archive data''
      else if n \<ge> 6 \<and> (starts p (chars ''070701'') \<or> starts p (chars ''070702'')) then ''ASCII cpio archive''
      else if n \<ge> 512 \<and> p ! 510 = 0x55 \<and> p ! 511 = 0xaa then ''DOS/MBR boot sector''
      else if is_text p n then ''text'' else ''data'')"

section \<open>The program\<close>

definition named :: "bool \<Rightarrow> string \<Rightarrow> string \<Rightarrow> string" where
  "named brief name t = (if brief then '''' else name @ '': '') @ t @ ''\<newline>''"

fun kind_name :: "mode \<Rightarrow> string" where
  "kind_name Char_device = ''character special''"
| "kind_name Block_device = ''block special''"
| "kind_name Fifo = ''fifo''"
| "kind_name _ = ''special''"

definition inspect_regular :: "'w file_host \<Rightarrow> bool \<Rightarrow> string \<Rightarrow> 'w \<Rightarrow> (string \<times> int) \<times> 'w" where
  "inspect_regular h brief name w =
     (let buffer = f_stack h w in
      case f_open h name w of
        (Inl e, w1) \<Rightarrow> ((named brief name (''cannot open ('' @ e @ '')''), 1), w1)
      | (Inr fd, w1) \<Rightarrow>
        (case f_read h fd 2048 w1 of (r, w2) \<Rightarrow>
           ((case r of Inl e \<Rightarrow> (named brief name (''cannot read ('' @ e @ '')''), 1)
             | Inr bs \<Rightarrow> (named brief name (classify (bs @ drop (length bs) buffer) (length bs)), 0)), f_close h fd w2)))"

definition inspect :: "'w file_host \<Rightarrow> bool \<Rightarrow> string \<Rightarrow> 'w \<Rightarrow> (string \<times> int) \<times> 'w" where
  "inspect h brief name w =
     (case f_lstat h name w of
        (Inl e, w1) \<Rightarrow> ((named brief name (''cannot open ('' @ e @ '')''), 1), w1)
      | (Inr Link, w1) \<Rightarrow>
        (case f_readlink h name 255 w1 of
           (None, w2) \<Rightarrow> (('''', 1), w2)
         | (Some target, w2) \<Rightarrow> ((named brief name (''symbolic link to '' @ target), 0), w2))
      | (Inr Directory, w1) \<Rightarrow> ((named brief name ''directory'', 0), w1)
      | (Inr Regular, w1) \<Rightarrow> inspect_regular h brief name w1
      | (Inr k, w1) \<Rightarrow> ((named brief name (kind_name k), 0), w1))"

fun inspect_all :: "'w file_host \<Rightarrow> bool \<Rightarrow> string list \<Rightarrow> int \<Rightarrow> 'w \<Rightarrow> (string \<times> int) \<times> 'w" where
  "inspect_all h brief [] result w = (('''', result), w)"
| "inspect_all h brief (n # ns) result w =
     (case inspect h brief n w of ((t, r), w1) \<Rightarrow>
      case inspect_all h brief ns (result OR r) w1 of ((ts, r'), w2) \<Rightarrow> ((t @ ts, r'), w2))"

text \<open>Printed text, text on the error stream, exit code.\<close>

definition file_main :: "'w file_host \<Rightarrow> string list \<Rightarrow> 'w \<Rightarrow> (string \<times> string \<times> int) \<times> 'w" where
  "file_main h args w =
     (let brief = (args \<noteq> [] \<and> hd args = ''-b''); names = (if brief then tl args else args)
      in if names = [] then (('''', ''usage: file [-b] FILE...\<newline>'', 2), w)
         else case inspect_all h brief names 0 w of ((t, r), w1) \<Rightarrow> ((t, '''', r), w1))"

section \<open>Only what was read counts\<close>

lemma text_loop_cong:
  assumes "\<And>j. i \<le> j \<Longrightarrow> j < i + k \<Longrightarrow> d ! j = d' ! j"
  shows "text_loop d i k = text_loop d' i k"
  using assms by (induction k arbitrary: i) auto

lemma starts_cong:
  assumes "take n d = take n d'" and "length m \<le> n"
  shows "starts d m = starts d' m"
proof -
  have "take (length m) d = take (length m) d'" using arg_cong [OF assms(1), of "take (length m)"] assms(2) by (simp add: min_absorb1)
  then show ?thesis by (simp add: starts_def)
qed

lemma nth_of_take: "take n d = take n d' \<Longrightarrow> i < n \<Longrightarrow> d ! i = d' ! i"
  by (metis nth_take)

text \<open>The classification only looks at the bytes read: with the same bytes in front, whatever follows
  in the buffer, the answer is the same.\<close>

theorem classify_reads_only:
  assumes "take n d = take n d'"
  shows "classify d n = classify d' n"
proof -
  note at = nth_of_take [OF assms] and st = starts_cong [OF assms]
  have "is_text d n = is_text d' n" unfolding is_text_def by (rule text_loop_cong) (simp add: at)
  moreover have "elf_text d = elf_text d'" if "n \<ge> 20" using that by (simp add: elf_text_def elf_machine_def at)
  moreover have "(n \<ge> k \<and> starts d m) = (n \<ge> k \<and> starts d' m)" if "length m \<le> k" for k m using that st [of m] by auto
  moreover have "(n \<ge> k \<and> (starts d m \<or> starts d m')) = (n \<ge> k \<and> (starts d' m \<or> starts d' m'))"
    if "length m \<le> k" "length m' \<le> k" for k m m' using that st [of m] st [of m'] by auto
  ultimately show ?thesis unfolding classify_def by (simp add: chars_def at cong: conj_cong if_cong)
qed

section \<open>Reports\<close>

text \<open>Every file is inspected once, in order; the exit code is 1 exactly when one could not be
  inspected.\<close>

fun reports :: "'w file_host \<Rightarrow> bool \<Rightarrow> string list \<Rightarrow> 'w \<Rightarrow> (string \<times> int) list" where
  "reports h brief [] w = []"
| "reports h brief (n # ns) w = (case inspect h brief n w of (r, w1) \<Rightarrow> r # reports h brief ns w1)"

lemma inspect_result: "inspect h brief n w = ((t, r), w1) \<Longrightarrow> r = 0 \<or> r = 1"
  by (auto simp: inspect_def inspect_regular_def Let_def split: prod.splits sum.splits mode.splits option.splits)

lemma inspect_all_reports:
  assumes "result = 0 \<or> result = 1" and "inspect_all h brief ns result w = ((t, r), w1)"
  shows "t = concat (map fst (reports h brief ns w)) \<and>
    r = (if result = 1 \<or> (\<exists>p \<in> set (reports h brief ns w). snd p = 1) then 1 else 0)"
  using assms
proof (induction ns arbitrary: result w t r w1)
  case (Cons n ns)
  obtain t0 r0 v where i: "inspect h brief n w = ((t0, r0), v)" by (metis prod.collapse)
  obtain ts where rest: "inspect_all h brief ns (result OR r0) v = ((ts, r), w1)" and t: "t = t0 @ ts"
    using Cons.prems(2) i by (auto split: prod.splits)
  have "r0 = 0 \<or> r0 = 1" by (rule inspect_result [OF i])
  with Cons.prems(1) have "result OR r0 = 0 \<or> result OR r0 = 1" "result OR r0 = 1 \<longleftrightarrow> result = 1 \<or> r0 = 1" by auto
  with Cons.IH [OF this(1) rest] i t show ?case by auto
qed auto

theorem file_reports_each:
  assumes "file_main h args w = ((t, err, r), w1)" and "args \<noteq> []" and "args \<noteq> [''-b'']"
  defines "brief \<equiv> hd args = ''-b''"
  defines "rs \<equiv> reports h brief (if brief then tl args else args) w"
  shows "t = concat (map fst rs) \<and> err = [] \<and> (r = 1 \<longleftrightarrow> (\<exists>p \<in> set rs. snd p = 1)) \<and> (r = 0 \<or> r = 1)"
proof -
  let ?names = "if brief then tl args else args"
  have "?names \<noteq> []" using assms(2,3) by (cases args) (auto simp: brief_def)
  with assms(1,2) have "inspect_all h brief ?names 0 w = ((t, r), w1)" "err = []"
    by (auto simp: file_main_def brief_def [symmetric] Let_def split: prod.splits if_splits)
  with inspect_all_reports [OF _ this(1)] show ?thesis by (auto simp: rs_def)
qed

end
