(* ===== verification/Holostatus.thy ===== *)
theory Holostatus
  imports X_Model "HOL-Library.Signed_Division"
begin

text \<open>
  The status line of the desktop (\<^verbatim>\<open>src/x11/apps/holostatus.c\<close>): every three seconds a notice left in
  \<^verbatim>\<open>/tmp/holo-notify\<close>, for two rounds, or memory, swap, card and time. Files are their bytes, the
  scanning functions of the C library are written out, and \<^verbatim>\<open>long\<close> has 32 bits as on the machine.
\<close>

section \<open>Lines and numbers\<close>

text \<open>\<^verbatim>\<open>fgets\<close> with room for \<open>n\<close> bytes and the null byte: up to and with the next newline.\<close>

fun fgets_loop :: "nat \<Rightarrow> string \<Rightarrow> string \<times> string" where
  "fgets_loop 0 bs = ([], bs)"
| "fgets_loop (Suc n) [] = ([], [])"
| "fgets_loop (Suc n) (b # bs) =
     (if b = CHR 0x0A then ([b], bs) else case fgets_loop n bs of (l, r) \<Rightarrow> (b # l, r))"

definition fgets :: "nat \<Rightarrow> string \<Rightarrow> (string \<times> string) option" where
  "fgets n bs = (if bs = [] then None else Some (fgets_loop (n - 1) bs))"

lemma fgets_loop_split: "fgets_loop n bs = (l, r) \<Longrightarrow> bs = l @ r \<and> length l \<le> n"
  by (induction n bs arbitrary: l r rule: fgets_loop.induct) (auto split: if_splits prod.splits)

lemma fgets_loop_some: "0 < n \<Longrightarrow> bs \<noteq> [] \<Longrightarrow> fst (fgets_loop n bs) \<noteq> []"
  by (cases n; cases bs) (auto split: prod.split)

function file_lines :: "nat \<Rightarrow> string \<Rightarrow> string list" where
  "file_lines n bs = (if n < 2 then [] else case fgets n bs of None \<Rightarrow> [] | Some (l, r) \<Rightarrow> l # file_lines n r)"
  by auto
termination
proof (relation "measure (\<lambda>(n, bs). length bs)")
  fix n :: nat and bs l r and x :: "string \<times> string"
  assume a: "\<not> n < 2" "fgets n bs = Some x" "(l, r) = x"
  then have f: "bs \<noteq> []" "fgets_loop (n - 1) bs = (l, r)" by (auto simp: fgets_def split: if_splits)
  with fgets_loop_some [of "n - 1" bs] a(1) have "l \<noteq> []" by auto
  with fgets_loop_split [OF f(2)] show "((n, r), (n, bs)) \<in> measure (\<lambda>(n, bs). length bs)" by simp
qed simp

declare file_lines.simps [simp del]

text \<open>A C string in a buffer ends at its first null byte.\<close>

definition c_string :: "string \<Rightarrow> string" where
  "c_string l = takeWhile (\<lambda>c. c \<noteq> CHR 0x00) l"

definition space :: "char \<Rightarrow> bool" where
  "space c \<longleftrightarrow> c \<in> {CHR '' '', CHR 0x09, CHR 0x0A, CHR 0x0B, CHR 0x0C, CHR 0x0D}"

definition digit :: "char \<Rightarrow> bool" where
  "digit c \<longleftrightarrow> 48 \<le> (of_char c :: nat) \<and> (of_char c :: nat) \<le> 57"

definition number :: "string \<Rightarrow> int" where
  "number ds = foldl (\<lambda>n d. 10 * n + (of_char d - 48)) 0 ds"

text \<open>\<^verbatim>\<open>%ld\<close>: white space, a sign, digits; a number beyond the range gives its end.\<close>

definition scan_ld :: "string \<Rightarrow> 32 word option" where
  "scan_ld t =
     (let t1 = dropWhile space t; neg = (take 1 t1 = ''-''); t2 = (if neg \<or> take 1 t1 = ''+'' then drop 1 t1 else t1);
          ds = takeWhile digit t2; v = (if neg then - number ds else number ds)
      in if ds = [] then None else Some (word_of_int (max (- (2 ^ 31)) (min (2 ^ 31 - 1) v))))"

text \<open>\<^verbatim>\<open>sscanf(line, "Name: %ld kB", &value) == 1\<close>: the text after the number does not matter.\<close>

definition scan_field :: "string \<Rightarrow> string \<Rightarrow> 32 word option" where
  "scan_field name l = (if take (length name) l = name then scan_ld (drop (length name) l) else None)"

section \<open>Memory, card and notice\<close>

record memory =
  available_kib :: "32 word"
  swap_total_kib :: "32 word"
  swap_free_kib :: "32 word"

definition memory_line :: "memory \<Rightarrow> string \<Rightarrow> memory" where
  "memory_line m l =
     (case scan_field ''MemAvailable:'' l of Some v \<Rightarrow> m\<lparr>available_kib := v\<rparr>
      | None \<Rightarrow> case scan_field ''SwapTotal:'' l of Some v \<Rightarrow> m\<lparr>swap_total_kib := v\<rparr>
      | None \<Rightarrow> case scan_field ''SwapFree:'' l of Some v \<Rightarrow> m\<lparr>swap_free_kib := v\<rparr> | None \<Rightarrow> m)"

definition read_memory :: "string option \<Rightarrow> memory" where
  "read_memory f =
     (let m0 = \<lparr>available_kib = 0, swap_total_kib = 0, swap_free_kib = 0\<rparr>
      in case f of None \<Rightarrow> m0 | Some bs \<Rightarrow> foldl memory_line m0 (map c_string (file_lines 128 bs)))"

definition ends_line :: "char \<Rightarrow> bool" where
  "ends_line c \<longleftrightarrow> c = CHR 0x0A \<or> c = CHR 0x0D"

definition strip_end :: "string \<Rightarrow> string" where
  "strip_end t = rev (dropWhile ends_line (rev t))"

text \<open>The notice in the caller's buffer, and whether there is one; without the file the buffer is not
  touched.\<close>

definition read_notice :: "string option \<Rightarrow> string \<Rightarrow> bool \<times> string" where
  "read_notice f message =
     (case f of None \<Rightarrow> (False, message)
      | Some bs \<Rightarrow>
        (let m = strip_end (case fgets 96 bs of None \<Rightarrow> [] | Some (l, _) \<Rightarrow> c_string l) in (m \<noteq> [], m)))"

text \<open>\<^verbatim>\<open>%95s\<close>: white space, then at most that many other bytes.\<close>

definition scan_word :: "nat \<Rightarrow> string \<Rightarrow> (string \<times> string) option" where
  "scan_word n t =
     (let t1 = dropWhile space t; w = take n (takeWhile (\<lambda>c. \<not> space c) t1)
      in if w = [] then None else Some (w, drop (length w) t1))"

definition scan_mount :: "string \<Rightarrow> string option" where
  "scan_mount l =
     (case scan_word 95 l of None \<Rightarrow> None | Some (_, r1) \<Rightarrow>
      case scan_word 95 r1 of None \<Rightarrow> None | Some (target, r2) \<Rightarrow>
      case scan_word 31 r2 of None \<Rightarrow> None | Some _ \<Rightarrow> Some target)"

fun sd_found :: "string list \<Rightarrow> bool" where
  "sd_found [] = False"
| "sd_found (l # ls) = (case scan_mount l of None \<Rightarrow> False | Some target \<Rightarrow> if target = ''/mnt/sd'' then True else sd_found ls)"

definition sd_mounted :: "string option \<Rightarrow> bool" where
  "sd_mounted f = (case f of None \<Rightarrow> False | Some bs \<Rightarrow> sd_found (map c_string (file_lines 256 bs)))"

section \<open>The loop\<close>

text \<open>What a round meets: the three files, the local time, whether printing succeeds and whether the
  reader is gone when the output is flushed.\<close>

record round =
  notify_file :: "string option"
  meminfo :: "string option"
  mounts :: "string option"
  local_time :: "(nat \<times> nat) option"
  printed_ok :: bool
  reader_gone :: bool

definition two_digits :: "nat \<Rightarrow> string" where
  "two_digits n = (if n < 10 then ''0'' @ digits n else digits n)"

definition status_line :: "round \<Rightarrow> string" where
  "status_line i =
     (let m = read_memory (meminfo i); (hour, minute) = (case local_time i of None \<Rightarrow> (0, 0) | Some t \<Rightarrow> t)
      in ''RAM '' @ int_text (sint (available_kib m) sdiv 1024) @ ''M  SWP '' @
         int_text (sint (swap_total_kib m - swap_free_kib m) sdiv 1024) @ ''/'' @ int_text (sint (swap_total_kib m) sdiv 1024) @ ''M  '' @
         (if sd_mounted (mounts i) then ''SD  '' else '''') @ two_digits hour @ '':'' @ two_digits minute @ ''\<newline>'')"

definition notice_line :: "string \<Rightarrow> string" where
  "notice_line notice = ''! '' @ take 72 notice @ ''\<newline>''"

text \<open>\<open>notice\<close> and \<open>notice_cycles\<close>; a round gives its line and whether the program goes on.\<close>

definition status_round :: "round \<Rightarrow> string \<times> nat \<Rightarrow> string \<times> bool \<times> (string \<times> nat)" where
  "status_round i st =
     (case read_notice (notify_file i) (fst st) of (fresh, notice) \<Rightarrow>
      let cycles = (if fresh then 2 else snd st);
          l = (if cycles > 0 then notice_line notice else status_line i)
      in if \<not> printed_ok i then (l, False, notice, cycles)
         else (l, \<not> reader_gone i, notice, cycles - 1))"

fun status_loop :: "round list \<Rightarrow> string \<times> nat \<Rightarrow> string list" where
  "status_loop [] st = []"
| "status_loop (i # is) st = (case status_round i st of (l, on, st') \<Rightarrow> l # (if on then status_loop is st' else []))"

definition holostatus_main :: "round list \<Rightarrow> string list" where
  "holostatus_main is = status_loop is ([], 0)"

section \<open>Notices are shown twice\<close>

text \<open>The text of a notice file, empty when there is none to show.\<close>

definition notice_of :: "round \<Rightarrow> string" where
  "notice_of i = (if fst (read_notice (notify_file i) []) then snd (read_notice (notify_file i) []) else [])"

text \<open>What the lines should be: a new notice in its round, the last round's notice once more, and
  the status otherwise.\<close>

fun shown :: "round list \<Rightarrow> string \<Rightarrow> string list" where
  "shown [] old = []"
| "shown (i # is) old =
     (if notice_of i \<noteq> [] then notice_line (notice_of i) else if old \<noteq> [] then notice_line old else status_line i) #
     shown is (notice_of i)"

definition running :: "round \<Rightarrow> bool" where
  "running i \<longleftrightarrow> printed_ok i \<and> \<not> reader_gone i"

text \<open>No file that is there without a notice in it: the case in which the notice is lost.\<close>

definition proper :: "round \<Rightarrow> bool" where
  "proper i \<longleftrightarrow> notify_file i = None \<or> notice_of i \<noteq> []"

lemma strip_length: "length (strip_end t) \<le> length t"
  by (simp add: strip_end_def) (metis length_dropWhile_le length_rev)

lemma notice_bounded: "length (notice_of i) < 96"
proof -
  have "length (c_string l) \<le> 95" if "fgets_loop 95 bs = (l, r)" for bs l r
    using fgets_loop_split [OF that] length_takeWhile_le [of "\<lambda>c. c \<noteq> CHR 0x00" l] by (simp add: c_string_def)
  then have "length (strip_end (case fgets 96 bs of None \<Rightarrow> [] | Some (l, _) \<Rightarrow> c_string l)) < 96" for bs
    by (intro le_imp_less_Suc [of _ 95, simplified] order_trans [OF strip_length]) (auto simp: fgets_def split: prod.split)
  then show ?thesis by (cases "notify_file i") (simp_all add: notice_of_def read_notice_def Let_def)
qed

lemma round_proper:
  assumes "proper i"
  shows "read_notice (notify_file i) old = (notice_of i \<noteq> [], if notice_of i \<noteq> [] then notice_of i else old)"
  using assms by (auto simp: proper_def notice_of_def read_notice_def Let_def split: option.splits if_splits)

lemma status_loop_shown:
  assumes "\<And>i. i \<in> set is \<Longrightarrow> running i \<and> proper i" and "n \<le> 1" and "n = 1 \<Longrightarrow> old \<noteq> []"
  shows "status_loop is (old, n) = shown is (if n = 1 then old else [])"
  using assms
proof (induction "is" arbitrary: old n)
  case (Cons i js)
  have i: "running i" "proper i" and rest: "\<And>j. j \<in> set js \<Longrightarrow> running j \<and> proper j" using Cons.prems(1) by auto
  let ?new = "notice_of i"
  have "status_loop js (if ?new \<noteq> [] then ?new else old, if ?new \<noteq> [] then 1 else 0) = shown js ?new"
    using Cons.IH [OF rest, of "if ?new \<noteq> [] then 1 else 0" "if ?new \<noteq> [] then ?new else old"] by auto
  with i Cons.prems(2,3) show ?case
    by (cases "n = 0") (auto simp: status_round_def round_proper Let_def running_def)
qed simp

text \<open>As long as the output is read and no empty file is left, the status program shows a notice in the
  round it finds it and in the next one, unless a newer one takes its place, and the state of the
  machine in every other round.\<close>

theorem holostatus_shows:
  assumes "\<And>i. i \<in> set is \<Longrightarrow> running i \<and> proper i"
  shows "holostatus_main is = shown is []"
  using status_loop_shown [of "is" 0 "[]"] assms by (simp add: holostatus_main_def)

text \<open>An empty notice file wipes a notice that is still to be shown: an empty notice line appears.\<close>

definition quiet_round :: round where
  "quiet_round = \<lparr>notify_file = None, meminfo = None, mounts = None, local_time = Some (9, 5), printed_ok = True, reader_gone = False\<rparr>"

lemma empty_notice_wipes:
  "holostatus_main [quiet_round\<lparr>notify_file := Some ''low battery''\<rparr>, quiet_round\<lparr>notify_file := Some []\<rparr>, quiet_round] =
     [''! low battery\<newline>'', ''! \<newline>'', ''RAM 0M  SWP 0/0M  09:05\<newline>'']"
  by code_simp

end
