(* ===== verification/Sprintf.thy ===== *)
theory Sprintf
  imports Prelude
begin

text \<open>
  The add-ins' own \<^verbatim>\<open>sprintf\<close> (\<^verbatim>\<open>src/experiments/sysinfo/src/libc/sprintf.c\<close>): the format interpreter over the
  list of arguments. The result is the text in front of the null byte; \<open>None\<close> stands for an argument
  that is missing or of another kind, and for a format that ends inside a directive, where the code
  runs past its end. The numbers written are the right ones and fit the routine's own buffer.
\<close>

datatype arg = Num u32 | Str string

definition PRINT_BUF_LEN :: nat where "PRINT_BUF_LEN = 12"

definition prints :: "string \<Rightarrow> nat \<Rightarrow> bool \<Rightarrow> bool \<Rightarrow> string" where
  "prints t width right zero =
     (let fill = replicate (width - length t) (if zero then CHR ''0'' else CHR '' '')
      in if right then t @ fill else fill @ t)"

text \<open>The loop that writes the digits in front of each other.\<close>

function digit_loop :: "nat \<Rightarrow> nat \<Rightarrow> string \<Rightarrow> string" where
  "digit_loop b u s =
     (if u = 0 \<or> b < 2 then s
      else let t = u mod b; c = (if t \<ge> 10 then char_of (t - 10 + 65) else char_of (t + 48)) in digit_loop b (u div b) (c # s))"
  by auto
termination by (relation "measure (\<lambda>(b, u, s). u)") auto

declare digit_loop.simps [simp del]

text \<open>Only the capital letters of \<^verbatim>\<open>X\<close> and the small ones of \<^verbatim>\<open>x\<close> differ: \<open>letbase\<close>.\<close>

definition lower :: "char \<Rightarrow> char" where
  "lower c = (if 65 \<le> (of_char c :: nat) \<and> (of_char c :: nat) \<le> 70 then char_of ((of_char c :: nat) + 32) else c)"

definition printi :: "u32 \<Rightarrow> nat \<Rightarrow> bool \<Rightarrow> nat \<Rightarrow> bool \<Rightarrow> bool \<Rightarrow> bool \<Rightarrow> string" where
  "printi i b sg width right zero small =
     (if i = 0 then prints ''0'' width right zero
      else let neg = (sg \<and> b = 10 \<and> i <s 0);
               u = (if neg then - i else i);
               s = map (if small then lower else id) (digit_loop b (unat u) [])
           in if \<not> neg then prints s width right zero
              else if width \<noteq> 0 \<and> zero then CHR ''-'' # prints s (width - 1) right zero
              else prints (CHR ''-'' # s) width right zero)"

text \<open>A directive behind its percent sign: the flags, the width and the rest of the format.\<close>

fun width_loop :: "nat \<Rightarrow> string \<Rightarrow> nat \<times> string" where
  "width_loop w [] = (w, [])"
| "width_loop w (c # f) =
     (if 48 \<le> (of_char c :: nat) \<and> (of_char c :: nat) \<le> 57 then width_loop (10 * w + (of_char c - 48)) f else (w, c # f))"

definition directive :: "string \<Rightarrow> bool \<times> bool \<times> nat \<times> string" where
  "directive f =
     (let right = (take 1 f = ''-''); f1 = (if right then drop 1 f else f);
          zero = (take 1 f1 = ''0''); f2 = dropWhile (\<lambda>c. c = CHR ''0'') f1
      in case width_loop 0 f2 of (w, f3) \<Rightarrow> (right, zero, w, f3))"

lemma width_loop_length: "width_loop w f = (v, r) \<Longrightarrow> length r \<le> length f"
  by (induction w f arbitrary: v r rule: width_loop.induct) (auto split: if_splits intro: le_SucI)

lemma directive_length:
  assumes "directive f = (right, zero, w, r)"
  shows "length r \<le> length f"
proof -
  let ?f1 = "if take 1 f = ''-'' then drop 1 f else f"
  have "length r \<le> length (dropWhile (\<lambda>c. c = CHR ''0'') ?f1)"
    using assms by (auto simp: directive_def Let_def dest: width_loop_length split: prod.splits)
  also have "\<dots> \<le> length ?f1" by (rule length_dropWhile_le)
  finally show ?thesis by (auto split: if_splits)
qed

definition convert :: "char \<Rightarrow> bool \<Rightarrow> bool \<Rightarrow> nat \<Rightarrow> arg list \<Rightarrow> (string \<times> arg list) option" where
  "convert c right zero width args =
     (if c = CHR ''s'' then (case args of Str t # as \<Rightarrow> Some (prints t width right zero, as) | _ \<Rightarrow> None)
      else if c = CHR ''c'' then (case args of Num n # as \<Rightarrow> Some (prints (takeWhile (\<lambda>c. c \<noteq> CHR 0x00) [char_of (unat n)]) width right zero, as) | _ \<Rightarrow> None)
      else if c \<in> {CHR ''d'', CHR ''x'', CHR ''X'', CHR ''u''}
      then (case args of
              Num n # as \<Rightarrow> Some (printi n (if c = CHR ''d'' \<or> c = CHR ''u'' then 10 else 16) (c = CHR ''d'') width right zero (c \<noteq> CHR ''X''), as)
            | _ \<Rightarrow> None)
      else Some ([], args))"

function print :: "string \<Rightarrow> arg list \<Rightarrow> string option" where
  "print [] args = Some []"
| "print (c # f) args =
     (if c \<noteq> CHR ''%'' then map_option ((#) c) (print f args)
      else if f = [] then Some []
      else if hd f = CHR ''%'' then map_option ((#) CHR ''%'') (print (tl f) args)
      else case directive f of (right, zero, width, r) \<Rightarrow>
        (case r of [] \<Rightarrow> None
         | k # r' \<Rightarrow>
           (case convert k right zero width args of None \<Rightarrow> None
            | Some (t, args') \<Rightarrow> map_option ((@) t) (print r' args'))))"
  by pat_completeness auto
termination
  by (relation "measure (\<lambda>(f, args). length f)") (auto simp: neq_Nil_conv dest: directive_length [OF sym])

definition sprintf :: "string \<Rightarrow> arg list \<Rightarrow> string option" where
  "sprintf f args = print f args"

section \<open>Numbers are right\<close>

text \<open>The value of a text of digits.\<close>

definition digit_value :: "char \<Rightarrow> nat" where
  "digit_value c = (let n = of_char c :: nat in if n < 65 then n - 48 else n - 65 + 10)"

definition value_of :: "nat \<Rightarrow> string \<Rightarrow> nat" where
  "value_of b s = foldl (\<lambda>n c. b * n + digit_value c) 0 s"

lemma value_of_Cons: "value_of b (c # s) = digit_value c * b ^ length s + value_of b s"
proof -
  have "foldl (\<lambda>n c. b * n + digit_value c) m s = m * b ^ length s + foldl (\<lambda>n c. b * n + digit_value c) 0 s" for m
  proof (induction s arbitrary: m)
    case (Cons d s)
    show ?case using Cons.IH [of "b * m + digit_value d"] Cons.IH [of "digit_value d"] by (simp add: algebra_simps)
  qed simp
  from this [of "digit_value c"] show ?thesis by (simp add: value_of_def)
qed

lemma digit_char_value: "t < 16 \<Longrightarrow> digit_value (if t \<ge> 10 then char_of (t - 10 + 65) else char_of (t + 48 :: nat)) = t"
  by (auto simp: digit_value_def Let_def of_char_of)

lemma digit_loop_value:
  assumes "2 \<le> b" "b \<le> 16"
  shows "value_of b (digit_loop b u s) = u * b ^ length s + value_of b s"
  using assms
proof (induction b u s rule: digit_loop.induct)
  case (1 b u s)
  let ?c = "if u mod b \<ge> 10 then char_of (u mod b - 10 + 65) else char_of (u mod b + 48)"
  show ?case
  proof (cases "u = 0")
    case True then show ?thesis by (simp add: digit_loop.simps)
  next
    case False
    with "1.prems" have "digit_loop b u s = digit_loop b (u div b) (?c # s)" by (subst digit_loop.simps) (simp add: Let_def)
    also have "value_of b \<dots> = u div b * b ^ Suc (length s) + value_of b (?c # s)"
      using "1.IH" [OF _ refl refl] False "1.prems" by simp
    also have "value_of b (?c # s) = u mod b * b ^ length s + value_of b s"
      using "1.prems" mod_less_divisor [of b u] by (simp add: value_of_Cons digit_char_value del: mod_less_divisor)
    also have "u div b * b ^ Suc (length s) + (u mod b * b ^ length s + value_of b s) = (u div b * b + u mod b) * b ^ length s + value_of b s"
      unfolding add_mult_distrib power_Suc by (simp only: mult.assoc add.assoc)
    finally show ?thesis by simp
  qed
qed

lemma digit_loop_length:
  assumes "2 \<le> b" and "u < b ^ n"
  shows "length (digit_loop b u s) \<le> n + length s"
  using assms
proof (induction n arbitrary: u s)
  case 0 then show ?case by (simp add: digit_loop.simps)
next
  case (Suc n)
  have "u div b < b ^ n" using Suc.prems by (simp add: less_mult_imp_div_less mult.commute)
  have "length (digit_loop b (u div b) (c # s)) \<le> n + length (c # s)" for c by (rule Suc.IH [OF Suc.prems(1) \<open>u div b < b ^ n\<close>])
  then show ?case by (subst digit_loop.simps) (simp add: Let_def)
qed

text \<open>A number in decimal or hexadecimal, its sign and the null byte fit the buffer of \<^verbatim>\<open>printi\<close>, and
  the digits are those of the number.\<close>

theorem printi_digits:
  fixes u :: u32
  shows "length (digit_loop 10 (unat u) []) + 2 \<le> PRINT_BUF_LEN" "length (digit_loop 16 (unat u) []) \<le> 8"
    "value_of 10 (digit_loop 10 (unat u) []) = unat u" "value_of 16 (digit_loop 16 (unat u) []) = unat u"
proof -
  have "unat u < 2 ^ 32" using unsigned_less [of u] by simp
  then have "unat u < 10 ^ 10" "unat u < 16 ^ 8" by (auto elim!: order_less_le_trans)
  from digit_loop_length [OF _ this(1), of "[]"] digit_loop_length [OF _ this(2), of "[]"]
  show "length (digit_loop 10 (unat u) []) + 2 \<le> PRINT_BUF_LEN" "length (digit_loop 16 (unat u) []) \<le> 8"
    by (simp_all add: PRINT_BUF_LEN_def)
  show "value_of 10 (digit_loop 10 (unat u) []) = unat u" "value_of 16 (digit_loop 16 (unat u) []) = unat u"
    by (simp_all add: digit_loop_value value_of_def [of _ "[]"])
qed

section \<open>Lengths\<close>

lemma prints_length: "length (prints t w r z) = max w (length t)"
  by (auto simp: prints_def Let_def)

lemma printi_length: "b = 10 \<or> b = 16 \<Longrightarrow> length (printi i b sg w r z small) \<le> max w 11"
proof -
  assume b: "b = 10 \<or> b = 16"
  have "length (digit_loop b (unat u) []) \<le> 10" for u :: u32
    using b printi_digits(1) [of u] printi_digits(2) [of u] by (auto simp: PRINT_BUF_LEN_def)
  from this [of i] this [of "- i"] show ?thesis
    by (auto simp: printi_def Let_def prints_length)
qed

text \<open>Without a sign a number has at most ten digits.\<close>

lemma printi_length_unsigned: "b = 10 \<or> b = 16 \<Longrightarrow> length (printi i b False w r z small) \<le> max w 10"
  using printi_digits(1) [of i] printi_digits(2) [of i]
  by (auto simp: printi_def Let_def prints_length PRINT_BUF_LEN_def)

section \<open>Formats checked\<close>

text \<open>A number, or a text of at most so many characters; and the longest text a format gives for
  arguments of these kinds, when they are what its directives ask for.\<close>

datatype kind = KNum | KStr nat

fun fits :: "arg \<Rightarrow> kind \<Rightarrow> bool" where
  "fits (Num _) k = (k = KNum)"
| "fits (Str t) k = (case k of KNum \<Rightarrow> False | KStr n \<Rightarrow> length t \<le> n)"

definition convert_bound :: "char \<Rightarrow> nat \<Rightarrow> kind list \<Rightarrow> (nat \<times> kind list) option" where
  "convert_bound c width ks =
     (if c = CHR ''s'' then (case ks of KStr n # ks' \<Rightarrow> Some (max width n, ks') | _ \<Rightarrow> None)
      else if c = CHR ''c'' then (case ks of KNum # ks' \<Rightarrow> Some (max width 1, ks') | _ \<Rightarrow> None)
      else if c \<in> {CHR ''d'', CHR ''x'', CHR ''X'', CHR ''u''}
      then (case ks of KNum # ks' \<Rightarrow> Some (max width (if c = CHR ''d'' then 11 else 10), ks') | _ \<Rightarrow> None)
      else Some (0, ks))"

function bound :: "string \<Rightarrow> kind list \<Rightarrow> nat option" where
  "bound [] ks = Some 0"
| "bound (c # f) ks =
     (if c \<noteq> CHR ''%'' then map_option Suc (bound f ks)
      else if f = [] then Some 0
      else if hd f = CHR ''%'' then map_option Suc (bound (tl f) ks)
      else case directive f of (right, zero, width, r) \<Rightarrow>
        (case r of [] \<Rightarrow> None
         | k # r' \<Rightarrow>
           (case convert_bound k width ks of None \<Rightarrow> None
            | Some (n, ks') \<Rightarrow> map_option ((+) n) (bound r' ks'))))"
  by pat_completeness auto
termination
  by (relation "measure (\<lambda>(f, ks). length f)") (auto simp: neq_Nil_conv dest: directive_length [OF sym])

lemma fits_cases:
  "fits a KNum \<longleftrightarrow> (\<exists>n. a = Num n)" "fits a (KStr k) \<longleftrightarrow> (\<exists>t. a = Str t \<and> length t \<le> k)"
  by (cases a; simp)+

lemma convert_bounded:
  assumes "convert_bound c width ks = Some (n, ks')" and "list_all2 fits args ks"
  shows "\<exists>t args'. convert c right zero width args = Some (t, args') \<and> length t \<le> n \<and> list_all2 fits args' ks'"
proof -
  have d: "length (printi i 10 True width right zero s) \<le> max width 11" for i s by (rule printi_length) simp
  have u: "length (printi i 10 False width right zero s) \<le> max width 10" "length (printi i 16 False width right zero s) \<le> max width 10" for i s
    by (rule printi_length_unsigned, simp)+
  consider "c = CHR ''s''" | "c = CHR ''c''" | "c = CHR ''d''" | "c = CHR ''x''" | "c = CHR ''X''" | "c = CHR ''u''"
    | "c \<notin> {CHR ''s'', CHR ''c'', CHR ''d'', CHR ''x'', CHR ''X'', CHR ''u''}" by auto
  then show ?thesis
    by cases (use assms in \<open>auto simp: convert_bound_def convert_def prints_length list_all2_Cons2 fits_cases d u split: list.splits kind.splits\<close>)
qed

text \<open>A format that passes the check is printed, with at most as many characters.\<close>

theorem sprintf_bounded:
  assumes "bound f ks = Some n" and "list_all2 fits args ks"
  shows "\<exists>t. sprintf f args = Some t \<and> length t \<le> n"
  unfolding sprintf_def using assms
proof (induction f ks arbitrary: args n rule: bound.induct)
  case (2 c f ks)
  show ?case
  proof (cases "c \<noteq> CHR ''%'' \<or> f = [] \<or> hd f = CHR ''%''")
    case True
    with 2(1,2) 2(4,5) show ?thesis by (fastforce split: if_splits)
  next
    case False
    obtain right zero width r where d: "directive f = (right, zero, width, r)" by (metis prod_cases4)
    with False 2(4) obtain k r' m ks' where r: "r = k # r'" and m: "convert_bound k width ks = Some (m, ks')"
      by (auto split: list.splits option.splits)
    with False d 2(4) obtain n' where n': "bound r' ks' = Some n'" "n = m + n'" by auto
    from convert_bounded [OF m 2(5)] obtain t args' where t: "convert k right zero width args = Some (t, args')" "length t \<le> m" "list_all2 fits args' ks'"
      by blast
    have "\<exists>t. print r' args' = Some t \<and> length t \<le> n'" using 2(3) [OF _ _ _ d [symmetric] refl refl r m refl n'(1) t(3)] False by auto
    with False d r t n'(2) show ?thesis by auto
  qed
qed simp

end
