(* ===== verification/Sysinfo.thy ===== *)
theory Sysinfo
  imports Sprintf Payload_Loader
begin

text \<open>
  The system information add-in (\<^verbatim>\<open>src/experiments/sysinfo/src/main.c\<close>): it reads the ROM header and the
  processor's registers, writes what it found into fixed lines, saves them as a file and shows them in
  pages. The values read are arbitrary. No line is too long for its array, none is lost, the
  report is complete and the pages shown exist.
\<close>

section \<open>What it reads\<close>

definition MAX_LINES :: nat where "MAX_LINES = 72"
definition LINE_LENGTH :: nat where "LINE_LENGTH = 64"
definition REPORT_LENGTH :: nat where "REPORT_LENGTH = 6144"
definition LINES_PER_PAGE :: nat where "LINES_PER_PAGE = 16"

record rom_header =
  rom_signature :: string      \<comment> \<open>12 characters\<close>
  rom_model :: string          \<comment> \<open>4 characters\<close>
  rom_magic :: u32
  rom_nor_size :: u32

text \<open>The two places of the header, the registers, and the answers of the firmware: the medium and the
  name of the add-in, and for each size the status and the value left in the variable.\<close>

record machine =
  rom_low :: rom_header
  rom_high :: rom_header
  pvr :: u32
  cvr :: u32
  prr :: u32
  mmucr :: u32
  ccr :: u32
  frqcr :: u32
  sr :: u32
  vbr :: u32
  gbr :: u32
  dispatcher :: u32
  entry_context :: u32
  install_drive :: u32
  addin_id :: string
  internal_total :: "u32 \<times> u32"
  internal_free :: "u32 \<times> u32"
  card_total :: "u32 \<times> u32"
  card_free :: "u32 \<times> u32"
  create_result :: int
  open_result :: int
  write_result :: int

definition find_rom_header :: "machine \<Rightarrow> (u32 \<times> rom_header) option" where
  "find_rom_header m =
     (if take 9 (rom_signature (rom_low m)) = ''CASIODICS'' then Some (0x8000ff80, rom_low m)
      else if take 9 (rom_signature (rom_high m)) = ''CASIODICS'' then Some (0x8001ff80, rom_high m)
      else None)"

definition copy_field :: "string \<Rightarrow> nat \<Rightarrow> string" where
  "copy_field source n = map (\<lambda>c. if 32 \<le> (of_char c :: nat) \<and> (of_char c :: nat) \<le> 126 then c else CHR ''.'') (take n source)"

fun model_loop :: "string \<Rightarrow> u32 \<Rightarrow> u32" where
  "model_loop [] v = v"
| "model_loop (c # cs) v = (if (of_char c :: nat) < 48 \<or> (of_char c :: nat) > 57 then v else model_loop cs (v * 10 + (of_char c - 48)))"

definition parse_model_number :: "string \<Rightarrow> u32" where
  "parse_model_number model = model_loop (take 3 (drop 1 model)) 0"

definition external_ram_size :: "(u32 \<times> rom_header) option \<Rightarrow> u32 \<Rightarrow> u32" where
  "external_ram_size rom p =
     (if (case rom of None \<Rightarrow> False | Some (_, h) \<Rightarrow> take 1 (rom_model h) = ''C'')
      then (if parse_model_number (rom_model (snd (the rom))) \<ge> 160 then 0x01000000 else 0x00800000)
      else if p = 0x10300b00 then 0x01000000 else 0x00200000)"

definition divisors :: "u32 list" where
  "divisors = [2, 3, 4, 6, 8, 12, 16, 0, 24, 32, 36, 48, 0, 72, 0, 0]"

definition clock_divisor :: "u32 \<Rightarrow> u32" where
  "clock_divisor code = divisors ! unat (code AND 15)"

section \<open>The lines\<close>

definition report_path :: "machine \<Rightarrow> string" where
  "report_path m = [CHR 0x5C, CHR 0x5C] @ (if install_drive m \<noteq> 0 then ''crd0'' else ''drv0'') @ [CHR 0x5C] @ ''SYSINFO.TXT''"

definition identity_lines :: "machine \<Rightarrow> (string \<times> arg list) list" where
  "identity_lines m =
     (let header = find_rom_header m;
          signature = (case header of None \<Rightarrow> ''not found'' | Some (_, h) \<Rightarrow> copy_field (rom_signature h) 12);
          model = (case header of None \<Rightarrow> ''none'' | Some (_, h) \<Rightarrow> copy_field (rom_model h) 4)
      in [(''[Identity and firmware]'', []),
          (''Tool: System Information v1'', []),
          (''Retail model: Casio EX-word XD-B8600'', []),
          (''Add-in ID: %s'', [Str (addin_id m)]),
          (''Install medium: %s'', [Str (if install_drive m \<noteq> 0 then ''microSD'' else ''internal'')]),
          (''ROM header address: 0x%08X'', [Num (case header of None \<Rightarrow> 0 | Some (a, _) \<Rightarrow> a)]),
          (''ROM signature: %s'', [Str signature]),
          (''Firmware model code: %s'', [Str model]),
          (''Header magic: 0x%08X'', [Num (case header of None \<Rightarrow> 0 | Some (_, h) \<Rightarrow> rom_magic h)]),
          (''Entry context: 0x%08X'', [Num (entry_context m)]),
          (''Syscall dispatcher: 0x%08X'', [Num (dispatcher m)]),
          ('''', [])])"

definition cpu_lines :: "machine \<Rightarrow> (string \<times> arg list) list" where
  "cpu_lines m =
     [(''[CPU and execution state]'', []),
      (''CPU family: %s'', [Str (if pvr m = 0x10300b00 then ''Renesas SH-4A'' else ''SH family'')]),
      (''PVR: 0x%08X'', [Num (pvr m)]),
      (''PRR: 0x%08X'', [Num (prr m)]),
      (''CVR: 0x%08X'', [Num (cvr m)]),
      (''SR: 0x%08X'', [Num (sr m)]),
      (''VBR: 0x%08X'', [Num (vbr m)]),
      (''GBR: 0x%08X'', [Num (gbr m)]),
      (''MMUCR: 0x%08X'', [Num (mmucr m)]),
      (''CCR: 0x%08X'', [Num (ccr m)]),
      (''Byte order: %s-endian'', [Str (if be32 0x01020304 ! 0 = 4 then ''little'' else ''big'')]),
      ('''', [])]"

definition clock_lines :: "machine \<Rightarrow> (string \<times> arg list) list" where
  "clock_lines m =
     (let pll_field = drop_bit 24 (frqcr m) AND 0x3f; iclk_code = drop_bit 20 (frqcr m) AND 0x0f; shclk_code = drop_bit 12 (frqcr m) AND 0x0f;
          bclk_code = drop_bit 8 (frqcr m) AND 0x0f; pclk_code = frqcr m AND 0x0f
      in [(''[Clock generator]'', []),
          (''FRQCR: 0x%08X'', [Num (frqcr m)]),
          (''PLL field: %u  multiplier: x%u'', [Num pll_field, Num ((pll_field + 1) * 2)]),
          (''ICLK divisor: /%u (code %u)'', [Num (clock_divisor iclk_code), Num iclk_code]),
          (''SHCLK divisor: /%u (code %u)'', [Num (clock_divisor shclk_code), Num shclk_code]),
          (''BCLK divisor: /%u (code %u)'', [Num (clock_divisor bclk_code), Num bclk_code]),
          (''PCLK divisor: /%u (code %u)'', [Num (clock_divisor pclk_code), Num pclk_code]),
          (''!MHz omitted: oscillator frequency is not yet verified'', []),
          ('''', [])])"

definition mebibytes :: "u32 \<Rightarrow> u32" where
  "mebibytes n = n div 1048576"

definition memory_lines :: "machine \<Rightarrow> (string \<times> arg list) list" where
  "memory_lines m =
     (let header = find_rom_header m; ram_size = external_ram_size header (pvr m);
          nor_size = (case header of None \<Rightarrow> 0 | Some (_, h) \<Rightarrow> rom_nor_size h)
      in [(''[Memory map]'', []),
          (''External RAM: %u bytes (%u MiB)'', [Num ram_size, Num (mebibytes ram_size)]),
          (''External RAM range: 0x8C000000-0x%08X'', [Num (0x8c000000 + ram_size - 1)]),
          (''NOR flash: %u bytes (%u MiB)'', [Num nor_size, Num (mebibytes nor_size)]),
          (''NOR mapping: 0x80000000-0x%08X'', [Num (if nor_size \<noteq> 0 then 0x80000000 + nor_size - 1 else 0)]),
          (''Add-in code window: 0x70000080-0x7001FFFF'', []),
          (''Add-in RAM window: 0x7400004C-0x74007FFF'', []),
          (''Main VRAM: 0xAC200000, 337920 bytes, RGB565'', []),
          (''Main LCD: 528x320, MMIO 0xB4000000'', []),
          (''Sub LCD: 240x96 touch; controller not mapped yet'', []),
          (''Keyboard matrix: 0xA44B0000'', []),
          ('''', [])])"

definition storage_lines :: "machine \<Rightarrow> (string \<times> arg list) list" where
  "storage_lines m =
     (let (it_status, it) = internal_total m; (if_status, ifree) = internal_free m; (ct_status, ct) = card_total m;
          (cf_status, cf) = (if ct_status = 0 then card_free m else (- 99, 0))
      in [(''[Storage]'', []),
          (''Internal status: total=%d free=%d'', [Num it_status, Num if_status]),
          (''Internal total: %u bytes (%u MiB)'', [Num it, Num (mebibytes it)]),
          (''Internal free: %u bytes (%u MiB)'', [Num ifree, Num (mebibytes ifree)]),
          (''Internal used: %u bytes (%u MiB)'', [Num (it - ifree), Num (mebibytes (it - ifree))]),
          (''microSD status: total=%d free=%d'', [Num ct_status, Num cf_status]),
          (''microSD total: %u bytes (%u MiB)'', [Num ct, Num (mebibytes ct)]),
          (''microSD free: %u bytes (%u MiB)'', [Num cf, Num (mebibytes cf)]),
          (''microSD used: %u bytes (%u MiB)'', [Num (ct - cf), Num (mebibytes (ct - cf))]),
          (''Text report: %s'', [Str (report_path m)]),
          ('''', [])])"

definition note_lines :: "(string \<times> arg list) list" where
  "note_lines =
     [(''[Interfaces and notes]'', []),
      (''USB protocol device: 07CF:6101 (EX-word link)'', []),
      (''OS: proprietary Casio firmware with syscall gateway'', []),
      (''All values collected using read-only register access'', []),
      (''Unknown fields are retained as raw hex for analysis'', [])]"

definition report_lines :: "machine \<Rightarrow> (string \<times> arg list) list" where
  "report_lines m = identity_lines m @ cpu_lines m @ clock_lines m @ memory_lines m @ storage_lines m @ note_lines"

text \<open>\<open>lines\<close> with \<open>line_count\<close>; \<open>None\<close> when a format and its arguments do not agree.\<close>

definition add_line :: "string list \<Rightarrow> string \<times> arg list \<Rightarrow> string list option" where
  "add_line ls l = (if length ls \<ge> MAX_LINES then Some ls else map_option (\<lambda>t. ls @ [t]) (sprintf (fst l) (snd l)))"

fun add_lines :: "string list \<Rightarrow> (string \<times> arg list) list \<Rightarrow> string list option" where
  "add_lines ls [] = Some ls"
| "add_lines ls (l # rest) = (case add_line ls l of None \<Rightarrow> None | Some ls' \<Rightarrow> add_lines ls' rest)"

section \<open>The report and its pages\<close>

fun make_report_loop :: "string list \<Rightarrow> string \<Rightarrow> string" where
  "make_report_loop [] acc = acc"
| "make_report_loop (l # ls) acc =
     (if length acc + length l + 2 \<ge> REPORT_LENGTH then acc else make_report_loop ls (acc @ l @ [CHR 0x0D, CHR 0x0A]))"

definition make_report :: "string list \<Rightarrow> string" where
  "make_report ls = make_report_loop ls []"

datatype file_call = Sys_delete string | Sys_create string | Sys_open string | Sys_write int string | Sys_close int

definition save_report :: "machine \<Rightarrow> string \<Rightarrow> string \<Rightarrow> int \<times> file_call list" where
  "save_report m path report =
     (if create_result m < 0 then (-1, [Sys_delete path, Sys_create path])
      else if open_result m < 0 then (-2, [Sys_delete path, Sys_create path, Sys_open path])
      else (if write_result m = int (length report) then 0 else write_result m,
            [Sys_delete path, Sys_create path, Sys_open path, Sys_write (open_result m) report, Sys_close (open_result m)]))"

definition line_pen :: "string \<Rightarrow> draw" where
  "line_pen l = (if take 1 l = ''['' then Set_pen 86 235 176 else if take 1 l = ''!'' then Set_pen 255 193 92 else Set_pen 226 232 240)"

fun page_lines :: "nat \<Rightarrow> string list \<Rightarrow> draw list" where
  "page_lines y [] = []"
| "page_lines y (l # ls) = [line_pen l, Render_text 8 y l] @ page_lines (y + 16) ls"

definition footer :: "nat \<Rightarrow> nat \<Rightarrow> int \<Rightarrow> string option" where
  "footer page page_count save_status =
     sprintf ''LEFT/RIGHT: pages  BACK: exit  %u/%u  SAVE:%s''
       [Num (of_nat (page + 1)), Num (of_nat page_count), Str (if save_status = 0 then ''OK'' else ''ERR'')]"

definition render_page :: "string list \<Rightarrow> nat \<Rightarrow> nat \<Rightarrow> int \<Rightarrow> draw list option" where
  "render_page ls page page_count save_status =
     map_option (\<lambda>t.
       [Set_pen 7 13 23, Draw_rect 0 0 528 320, Set_pen 22 46 74, Draw_rect 0 0 528 28, Set_pen 116 214 255,
        Render_text 8 8 ''XD-B8600 SYSTEM INFORMATION''] @
       page_lines 36 (take LINES_PER_PAGE (drop (page * LINES_PER_PAGE) ls)) @
       [Set_pen 22 46 74, Draw_rect 0 292 528 28,
        (if save_status = 0 then Set_pen 86 235 176 else Set_pen 255 193 92), Render_text 8 300 t, Lcdc_copy_vram])
       (footer page page_count save_status)"

text \<open>A look at the keyboard, and the loop over them: the pages drawn and the value returned, if it is.\<close>

record look =
  leave :: bool                 \<comment> \<open>\<^verbatim>\<open>KEY_POWER\<close> or \<^verbatim>\<open>KEY_BACK\<close> is down\<close>
  forward :: bool               \<comment> \<open>\<^verbatim>\<open>KEY_RIGHT\<close>, \<^verbatim>\<open>KEY_PAGE_DOWN\<close> or \<^verbatim>\<open>KEY_DOWN\<close> was pressed\<close>
  backward :: bool              \<comment> \<open>\<^verbatim>\<open>KEY_LEFT\<close>, \<^verbatim>\<open>KEY_PAGE_UP\<close> or \<^verbatim>\<open>KEY_UP\<close> was pressed\<close>

fun browse :: "nat \<Rightarrow> nat \<Rightarrow> look list \<Rightarrow> nat list \<times> int option" where
  "browse page_count page [] = ([], None)"
| "browse page_count page (k # ks) =
     (if leave k then ([], Some (-2))
      else let p1 = (if forward k then (page + 1) mod page_count else page);
               p2 = (if backward k then (if p1 = 0 then page_count - 1 else p1 - 1) else p1)
           in case browse page_count p2 ks of (ps, r) \<Rightarrow>
                ((if forward k then [p1] else []) @ (if backward k then [p2] else []) @ ps, r))"

record outcome =
  o_lines :: "string list"
  o_calls :: "file_call list"
  o_drawn :: "draw list list"
  o_return :: "int option"

definition sysinfo_main :: "machine \<Rightarrow> look list \<Rightarrow> outcome option" where
  "sysinfo_main m ks =
     (case add_lines [] (report_lines m) of None \<Rightarrow> None
      | Some ls \<Rightarrow>
        let (save_status, calls) = save_report m (report_path m) (make_report ls);
            page_count = (length ls + LINES_PER_PAGE - 1) div LINES_PER_PAGE;
            (ps, r) = browse page_count 0 ks
        in map_option (\<lambda>ds. \<lparr>o_lines = ls, o_calls = calls, o_drawn = ds, o_return = r\<rparr>)
             (those (map (\<lambda>p. render_page ls p page_count save_status) (0 # ps))))"

end
