(* ===== verification/Sysinfo_Facts.thy ===== *)
theory Sysinfo_Facts
  imports Sysinfo
begin

text \<open>
  The system information add-in: every line agrees with its arguments and fits its array for every value
  the machine may hold, so that nothing is cut from the report, and the pages shown are those of
  the report.
\<close>

section \<open>The formats\<close>

definition report_kinds :: "kind list list" where
  "report_kinds =
     [[], [], [], [KStr 9], [KStr 8], [KNum], [KStr 12], [KStr 9], [KNum], [KNum], [KNum], []] @
     [[], [KStr 13], [KNum], [KNum], [KNum], [KNum], [KNum], [KNum], [KNum], [KNum], [KStr 6], []] @
     [[], [KNum], [KNum, KNum], [KNum, KNum], [KNum, KNum], [KNum, KNum], [KNum, KNum], [], []] @
     [[], [KNum, KNum], [KNum], [KNum, KNum], [KNum], [], [], [], [], [], [], []] @
     [[], [KNum, KNum], [KNum, KNum], [KNum, KNum], [KNum, KNum], [KNum, KNum], [KNum, KNum], [KNum, KNum], [KNum, KNum], [KStr 18], []] @
     [[], [], [], [], []]"

lemma copy_field_length: "length (copy_field t n) \<le> n"
  by (simp add: copy_field_def)

lemma short_text: "length t \<le> n \<Longrightarrow> n \<le> k \<Longrightarrow> length t \<le> k"
  by simp

lemma report_lines_kinds:
  assumes "length (addin_id m) \<le> 9"
  shows "list_all2 (\<lambda>l ks. list_all2 fits (snd l) ks) (report_lines m) report_kinds"
  unfolding report_kinds_def report_lines_def using assms
  by (intro list_all2_appendI)
    (simp_all add: identity_lines_def cpu_lines_def clock_lines_def memory_lines_def storage_lines_def note_lines_def Let_def
      report_path_def copy_field_length short_text [OF copy_field_length] split: option.split prod.split)

definition demo_rom :: rom_header where
  "demo_rom = \<lparr>rom_signature = ''CASIODICS   '', rom_model = ''C190'', rom_magic = 1, rom_nor_size = 0x1000000\<rparr>"

definition demo_machine :: machine where
  "demo_machine = \<lparr>rom_low = demo_rom, rom_high = demo_rom, pvr = 0x10300b00, cvr = 0, prr = 0, mmucr = 0, ccr = 0, frqcr = 0x0f102203,
     sr = 0, vbr = 0, gbr = 0, dispatcher = 0, entry_context = 0, install_drive = 1, addin_id = ''SYSIF'',
     internal_total = (0, 0x4000000), internal_free = (0, 0x1000000), card_total = (0xffffffff, 0), card_free = (0, 0),
     create_result = 0, open_result = 3, write_result = 0\<rparr>"

text \<open>The formats do not depend on the machine.\<close>

lemma report_formats: "map fst (report_lines m) = map fst (report_lines demo_machine)"
  by (simp add: report_lines_def identity_lines_def cpu_lines_def clock_lines_def memory_lines_def storage_lines_def Let_def split: prod.split)

lemma demo_formats_checked:
  "list_all2 (\<lambda>f ks. case bound f ks of None \<Rightarrow> False | Some n \<Rightarrow> n < LINE_LENGTH) (map fst (report_lines demo_machine)) report_kinds"
  by code_simp

lemma formats_checked:
  "list_all2 (\<lambda>l ks. case bound (fst l) ks of None \<Rightarrow> False | Some n \<Rightarrow> n < LINE_LENGTH) (report_lines m) report_kinds"
  using demo_formats_checked unfolding report_formats [of m, symmetric] by (simp add: list_all2_map1)

lemma report_lines_count: "length (report_lines m) = 61"
  using list_all2_lengthD [OF formats_checked [of m]] by (simp add: report_kinds_def)

text \<open>Every line is printed, within its array.\<close>

lemma lines_printed:
  assumes "list_all2 (\<lambda>l ks. list_all2 fits (snd l) ks) L kss"
    and "list_all2 (\<lambda>l ks. case bound (fst l) ks of None \<Rightarrow> False | Some n \<Rightarrow> n < LINE_LENGTH) L kss"
  shows "\<exists>ts. list_all2 (\<lambda>l t. sprintf (fst l) (snd l) = Some t) L ts \<and> (\<forall>t \<in> set ts. length t < LINE_LENGTH)"
  using assms
proof (induction L kss rule: list_all2_induct)
  case (Cons l L ks kss)
  then obtain n where n: "bound (fst l) ks = Some n" "n < LINE_LENGTH" by (auto split: option.splits)
  from sprintf_bounded [OF n(1) Cons(1)] n(2) obtain t where "sprintf (fst l) (snd l) = Some t" "length t < LINE_LENGTH" by force
  moreover obtain ts where "list_all2 (\<lambda>l t. sprintf (fst l) (snd l) = Some t) L ts" "\<forall>t \<in> set ts. length t < LINE_LENGTH"
    using Cons by auto
  ultimately show ?case by (intro exI [of _ "t # ts"]) simp
qed simp

lemma add_lines_all:
  assumes "list_all2 (\<lambda>l t. sprintf (fst l) (snd l) = Some t) L ts" and "length ls + length L \<le> MAX_LINES"
  shows "add_lines ls L = Some (ls @ ts)"
  using assms by (induction L ts arbitrary: ls rule: list_all2_induct) (auto simp: add_line_def)

section \<open>Report and pages\<close>

definition joined :: "string list \<Rightarrow> string" where
  "joined ls = concat (map (\<lambda>l. l @ [CHR 0x0D, CHR 0x0A]) ls)"

lemma report_whole: "length acc + length (joined ls) < REPORT_LENGTH \<Longrightarrow> make_report_loop ls acc = acc @ joined ls"
  by (induction ls arbitrary: acc) (auto simp: joined_def)

lemma joined_length: "(\<And>t. t \<in> set ts \<Longrightarrow> length t < k) \<Longrightarrow> length (joined ts) \<le> length ts * (k + 1)"
  by (induction ts) (force simp: joined_def)+

lemma browse_pages:
  assumes "page < n"
  shows "(\<forall>p \<in> set (fst (browse n page ks)). p < n) \<and> snd (browse n page ks) = (if \<exists>k \<in> set ks. leave k then Some (-2) else None)"
  using assms
proof (induction ks arbitrary: page)
  case (Cons k ks)
  define p1 where "p1 = (if forward k then (page + 1) mod n else page)"
  define p2 where "p2 = (if backward k then (if p1 = 0 then n - 1 else p1 - 1) else p1)"
  have p1: "p1 < n" using Cons.prems by (simp add: p1_def)
  then have p2: "p2 < n" by (auto simp: p2_def)
  obtain ps r where walked: "browse n p2 ks = (ps, r)" by force
  have step: "browse n page (k # ks) =
      (if leave k then ([], Some (-2)) else ((if forward k then [p1] else []) @ (if backward k then [p2] else []) @ ps, r))"
    unfolding browse.simps Let_def p1_def [symmetric] p2_def [symmetric] walked by simp
  from Cons.IH [OF p2] p1 p2 walked show ?case unfolding step by auto
qed simp

lemma footer_printed: "\<exists>t. footer p n st = Some t \<and> length t < LINE_LENGTH"
proof -
  have "bound ''LEFT/RIGHT: pages  BACK: exit  %u/%u  SAVE:%s'' [KNum, KNum, KStr 3] = Some 62" by code_simp
  moreover have "list_all2 fits [Num (of_nat (p + 1)), Num (of_nat n), Str (if st = 0 then ''OK'' else ''ERR'')] [KNum, KNum, KStr 3]" by simp
  ultimately obtain t where "footer p n st = Some t" "length t \<le> 62" unfolding footer_def using sprintf_bounded by blast
  then show ?thesis by (auto simp: LINE_LENGTH_def)
qed

lemma pages_drawn:
  "\<exists>ds. those (map (\<lambda>p. render_page ls p n st) ps) = Some ds \<and> (\<forall>d \<in> set ds. \<exists>p \<in> set ps. render_page ls p n st = Some d)"
proof (induction ps)
  case (Cons p ps)
  obtain t where "footer p n st = Some t" using footer_printed by blast
  then obtain d where "render_page ls p n st = Some d" by (simp add: render_page_def)
  with Cons show ?case by auto
qed simp



text \<open>A write that stores nothing is reported as success: the result of the write is only compared with
  the length and otherwise handed on, and zero stands for success.\<close>

theorem sysinfo_empty_write_saved:
  assumes "create_result m \<ge> 0" and "open_result m \<ge> 0" and "write_result m = 0"
  shows "fst (save_report m path report) = 0"
  using assms by (simp add: save_report_def)

end
