(* ===== verification/Spec2Isabelle.thy ===== *)
theory Spec2Isabelle
  imports Payload_Pack Exword_Transfer Keypad_Touch Subpad_Discipline Tool_Safety Snake Framebuffer Start_Gate Desk_Facts Sublcd_Facts Touchdiag_Trace File_Lite Holostatus Sysinfo_Facts
begin

text \<open>
  Verification of the core of the EX-word Linux port: the boot loader add-in and its payload
  packer, the libexword transfer library and its command line, the keypad and framebuffer
  drivers, the touch pad mouse, the hardware diagnostics, the desktop programs for X and the
  system information add-in.

  \<^bold>\<open>How the parts work together.\<close> A PC runs libexword: a session (\<^verbatim>\<open>exword.c\<close>) turns commands into
  OBEX objects, the protocol engine (\<^verbatim>\<open>obex.c\<close>) cuts them into packets built in data buffers
  (\<^verbatim>\<open>databuffer.c\<close>) and exchanges them over USB; text keys are derived by \<^verbatim>\<open>crypt.c\<close>; the
  command line (\<^verbatim>\<open>main.c\<close>, \<^verbatim>\<open>content.c\<close>, \<^verbatim>\<open>util.c\<close>) reads lines and drives the session. The kernel
  image is packed by \<^verbatim>\<open>pack_payload.py\<close> and stored on the device, where the loader add-in reads it,
  checks it and, after the user has armed it, jumps to it. Linux then runs the keypad driver,
  whose scan thread is the only source of key, pointer and touch input; without its touch mode, a
  user program drives the same converter and feeds the X server instead. The framebuffer driver
  copies what is drawn to the panel; the launch gate starts the X server on it, and the desktop
  programs run there.

  \<^bold>\<open>Theories and sources.\<close>
  \<^item> \<open>Prelude\<close>: type names, byte orders, list and word lemmas, result monad.
  \<^item> \<open>Payload_Loader\<close> (\<^verbatim>\<open>src/loader/src/main.c\<close>): header, CRC-32, the streaming load loop, number
    rendering, screens and the arm/execute main loop; the system calls are the record \<open>sys\<close>. A
    successful load means every check passed; nothing outside the pool is written; the status is
    the exact classification of the file; loading ends; execution is guarded by a verified load
    and a separate press; a changed byte is detected.
  \<^item> \<open>Payload_Pack\<close> (\<^verbatim>\<open>src/payload/pack_payload.py\<close>): packing and appending, and the round trip with
    the loader.
  \<^item> \<open>Databuffer\<close> (\<^verbatim>\<open>databuffer.c\<close>): every operation on the buffer with its head and tail room, as
    a refinement of operations on a byte list; \<^verbatim>\<open>malloc\<close> and \<^verbatim>\<open>realloc\<close> are a parameter.
  \<^item> \<open>Obex\<close>, \<open>Obex_Receive\<close>, \<open>Obex_Send\<close>, \<open>Obex_Usb\<close> (\<^verbatim>\<open>obex.c\<close>, \<^verbatim>\<open>obex.h\<close>): definitions; the receive
    parser (round trip with the encoder, totality, the over-read); sending (fragmentation
    delivers exactly the headers and the body); attaching to the device.
  \<^item> \<open>Crypt\<close> (\<^verbatim>\<open>crypt.c\<close>): software floating point, the sine table, the key schedule and the
    cipher, bit for bit.
  \<^item> \<open>Exword\<close>, \<open>Exword_Commands\<close>, \<open>Exword_Parsers\<close>, \<open>Exword_Session\<close>, \<open>Exword_Transfer\<close> (\<^verbatim>\<open>exword.c\<close>,
    \<^verbatim>\<open>exword.h\<close>): the session record and its callbacks, the commands, the parsers of the answers,
    the invariant of every sequence of calls (interface \<open>command\<close>, interpreted for each of the
    commands), and the end-to-end delivery of a file.
  \<^item> \<open>Mmio\<close>: programs over memory-mapped devices in the state monad, with rules that carry
    invariants; the device is an arbitrary \<open>bus\<close> and every access is recorded in a trace.
  \<^item> \<open>Touch\<close>: zones, samples and the gesture machine, as the interface \<open>touch_machine\<close>.
  \<^item> \<open>Keypad\<close>, \<open>Keypad_Safety\<close>, \<open>Keypad_Input\<close>, \<open>Keypad_Touch\<close>
    (\<^verbatim>\<open>src/kernel/overlay/drivers/input/keyboard/exword-keypad.c\<close>): one program per function of the
    driver, from initialisation to the scan thread (an inductive relation in which userspace may
    write the mode parameter between iterations). The register discipline is proved once for the
    thread in the interface \<open>scan_policy\<close> and interpreted for each policy; the input side keeps
    buttons and keys consistent; the pad implements \<open>touch_machine\<close>.
  \<^item> \<open>Subpad\<close>, \<open>Subpad_Safety\<close>, \<open>Subpad_Pointer\<close>, \<open>Subpad_Discipline\<close> (\<^verbatim>\<open>src/x11/apps/subpad-mouse.c\<close>):
    one program per function and label of \<^verbatim>\<open>main\<close>, the whole run as a relation, over a host that
    answers every system and X call. What the program changed in the ports and the clock gate is
    put back; it implements \<open>touch_machine\<close> and requests exactly the machine's pointer input; over a
    recording host, registers are touched only under the lock, the mapping and the signal mask,
    and every exit gives back what was acquired.

  \<^item> \<open>Tool\<close>, \<open>Tool_Content\<close>, \<open>Tool_Main\<close>, \<open>Tool_Users\<close>, \<open>Tool_Safety\<close> (\<^verbatim>\<open>util.c\<close>, \<^verbatim>\<open>content.c\<close>,
    \<^verbatim>\<open>main.c\<close>): the commands over an arbitrary device library and file system (the record
    \<open>tool_ops\<close>), with the calls of the device recorded. The file of user keys refines a map, keys
    and paths survive their textual forms, and in every session content is changed only while
    unlocked, after an accepted challenge, and locked again. C strings are byte lists; reading
    past a block or through a null pointer is the value \<open>Abort\<close>.

  \<^item> \<open>Framebuffer\<close> (\<^verbatim>\<open>src/kernel/overlay/drivers/video/fbdev/exwordfb.c\<close>): the transfer register by register, the
    operations and the work item that batches refreshes, with their interleaving as an inductive
    relation. The transfer is exactly one frame; no update of the frame is ever lost.
  \<^item> \<open>X_Model\<close>: what the X programs use of Xlib and \<^verbatim>\<open>printf\<close>.
  \<^item> \<open>Start_Gate\<close> (\<^verbatim>\<open>src/x11/apps/x11-start-gate.c\<close>): the three processes of the gate. The script it stops
    is always continued.
  \<^item> \<open>Snake\<close> (\<^verbatim>\<open>src/x11/apps/snake.c\<close>): rules, drawing and event loop. Every reachable game is well
    formed, and a step refines a move on a list of cells.
  \<^item> \<open>Desk\<close>, \<open>Desk_Facts\<close> (\<^verbatim>\<open>src/x11/apps/exdesk.c\<close>): menu, file manager, clock and eyes. The file manager's
    state stays within its arrays, listings are sorted, only small regular files are viewed, and
    the square root is exact.

  \<^item> \<open>File_Lite\<close>, \<open>Holostatus\<close> (\<^verbatim>\<open>src/x11/apps/file-lite.c\<close>, \<^verbatim>\<open>src/x11/apps/holostatus.c\<close>): the file classifier, which
    only looks at bytes it has read, and the status line, which shows a notice for two rounds.

  \<^item> \<open>Diag_Machine\<close>, \<open>Diag_Rules\<close>: system calls, register accesses, barriers and printed text of the
    diagnostics in one log, over any system and hardware, with rules that account for what a
    program holds (lock, mappings, files, console mode, signal mask) and for the registers it may touch.
  \<^item> \<open>Sublcd\<close>, \<open>Sublcd_Facts\<close> (\<^verbatim>\<open>src/x11/apps/sublcd-test.c\<close>): the tests of the second display. The display gets
    all words of a test or none, the pad pattern is the kernel driver's, and registers are only
    written with everything held that protects them.
  \<^item> \<open>Touchdiag\<close>, \<open>Touchdiag_Facts\<close>, \<open>Touchdiag_Trace\<close> (\<^verbatim>\<open>src/x11/apps/touchdiag.c\<close>): the diagnostic of the touch pad. Each
    command stays with its registers, the converter is only accessed after contact and with its clock
    running, success means that ports and clock were seen as they had been found, and a sample
    is valued as by the touch pad mouse.

  \<^item> \<open>Sprintf\<close>, \<open>Sysinfo\<close>, \<open>Sysinfo_Facts\<close> (\<^verbatim>\<open>src/experiments/sysinfo/src\<close>): the add-ins' own \<^verbatim>\<open>sprintf\<close>, with a check of
    formats that bounds what they print, and the add-in that reports on the machine. Every
    line fits its array, the report is complete and the pages shown exist.

  \<^bold>\<open>Bounds and fuel.\<close> The loader's loop has fuel one more than the payload size, which is enough because
  every successful read takes at least one byte (\<open>load_terminates\<close>). The busy-wait loops of the
  driver and the polling of the USB sequence number have the bounds of the source. The
  conversion loop of \<^verbatim>\<open>exword.c\<close> has fuel, and \<open>convert_complete\<close> shows how much is enough. The
  search for a user has one more than the length of the file as fuel: a longer search has come to
  the same offset twice and never ends, which a stored length that is negative as a character
  can cause; on files the tool wrote it ends (\<open>user_keys_refine_map\<close>). Unsigned
  counters of the driver are natural numbers: each is compared with a small constant right after
  it is incremented and reset there, so it cannot reach the width of its type.

  \<^bold>\<open>Not modelled.\<close> Log output of the library and the drivers, delays and memory barriers of the
  drivers, which have no effect on the state; the release of memory that is not used again;
  upstream kernel code that the repository only copies (SDHI, SH7724 tables, processor
  identification, decompressor) and whose state lives in kernel code that is not part of it; the static device
  registration of the board; the vendored C library of the add-ins other than \<^verbatim>\<open>sprintf\<close>; the
  demonstration programs without state of their own (\<^verbatim>\<open>display-test.c\<close>, \<^verbatim>\<open>hello-world\<close>, \<^verbatim>\<open>early-init\<close>);
  scripts and configuration.
\<close>

end
